(* ===== verification/Go_Prelude.thy ===== *)
theory Go_Prelude
  imports Main "HOL-Library.Word" "HOL-Library.Multiset" "HOL-Library.Char_ord"
    "HOL-Library.List_Lexorder" "HOL-Library.Sublist"
begin

text \<open>
  The Go values and library functions the components share.

  A Go \<open>string\<close> is a sequence of bytes, so it is HOL's \<open>string\<close> (a \<open>char\<close> is a byte).
  A \<open>time.Time\<close> is the number of nanoseconds since Go's zero time (year 1, UTC), an
  unbounded \<open>int\<close>: the code only compares, subtracts and copies instants.
  An operation that returns an \<open>error\<close> beside a value is of type \<open>'e + 'a\<close>; a method that
  mutates its receiver and returns an \<open>error\<close> returns the new receiver with an \<open>'e option\<close>,
  so that what a failing call has already written stays visible.
  A slice element or a pointer that may be \<open>nil\<close> is an \<open>option\<close>.

  The functions below are the parts of Go's \<open>strings\<close>, \<open>encoding/hex\<close>, \<open>bufio\<close> and \<open>sort\<close>
  packages that the modelled code calls.
\<close>

type_synonym gotime = int

text \<open>\<open>time.Time\<close>'s methods \<open>IsZero\<close> and \<open>After\<close>.\<close>

definition IsZero :: "gotime \<Rightarrow> bool" where
  "IsZero t \<longleftrightarrow> t = 0"

definition After :: "gotime \<Rightarrow> gotime \<Rightarrow> bool" where
  "After t u \<longleftrightarrow> u < t"

subsection \<open>Errors as values\<close>

text \<open>
  The shapes Go's error handling takes: \<open>if err := a(); err != nil { return err }; b()\<close>
  (\<open>first_err\<close> for checks, \<open>and_then\<close> for state-changing steps), and a \<open>range\<close> loop whose
  body may return early with an error (\<open>loop_err\<close>).
\<close>

definition first_err :: "'e option \<Rightarrow> 'e option \<Rightarrow> 'e option" where
  "first_err a b = (case a of Some e \<Rightarrow> Some e | None \<Rightarrow> b)"

definition and_then :: "'s \<times> 'e option \<Rightarrow> ('s \<Rightarrow> 's \<times> 'e option) \<Rightarrow> 's \<times> 'e option" where
  "and_then r f = (case r of (s, None) \<Rightarrow> f s | (s, Some e) \<Rightarrow> (s, Some e))"

fun loop_err :: "('s \<Rightarrow> 'a \<Rightarrow> 's \<times> 'e option) \<Rightarrow> 's \<Rightarrow> 'a list \<Rightarrow> 's \<times> 'e option" where
  "loop_err f s [] = (s, None)"
| "loop_err f s (x # xs) =
     (case f s x of (s', None) \<Rightarrow> loop_err f s' xs | (s', Some e) \<Rightarrow> (s', Some e))"

fun check_all :: "('a \<Rightarrow> 'e option) \<Rightarrow> 'a list \<Rightarrow> 'e option" where
  "check_all f [] = None"
| "check_all f (x # xs) = first_err (f x) (check_all f xs)"

subsection \<open>Collections of rewrite rules\<close>

named_theorems go_string \<open>unfolding rules for the modelled parts of package strings\<close>
named_theorems frame \<open>fields that an operation leaves as they were\<close>

subsection \<open>Bytes\<close>

definition is_lower :: "char \<Rightarrow> bool" where
  "is_lower c \<longleftrightarrow> CHR ''a'' \<le> c \<and> c \<le> CHR ''z''"

definition is_upper :: "char \<Rightarrow> bool" where
  "is_upper c \<longleftrightarrow> CHR ''A'' \<le> c \<and> c \<le> CHR ''Z''"

definition is_digit :: "char \<Rightarrow> bool" where
  "is_digit c \<longleftrightarrow> CHR ''0'' \<le> c \<and> c \<le> CHR ''9''"

definition is_ascii :: "char \<Rightarrow> bool" where
  "is_ascii c \<longleftrightarrow> (of_char c :: nat) < 128"

text \<open>\<open>c - 'a' + 'A'\<close> and its inverse on bytes.\<close>

definition upper_byte :: "char \<Rightarrow> char" where
  "upper_byte c = (if is_lower c then char_of (of_char c - 32 :: nat) else c)"

definition lower_byte :: "char \<Rightarrow> char" where
  "lower_byte c = (if is_upper c then char_of (of_char c + 32 :: nat) else c)"

text \<open>
  \<open>strings.ToUpper\<close> and \<open>strings.ToLower\<close>: byte-wise on an all-ASCII string; on any other
  string they map code points through the Unicode tables, which are the parameter \<open>uni\<close>.
\<close>

definition ToUpper :: "(string \<Rightarrow> string) \<Rightarrow> string \<Rightarrow> string" where
  "ToUpper uni s = (if list_all is_ascii s then map upper_byte s else uni s)"

definition ToLower :: "(string \<Rightarrow> string) \<Rightarrow> string \<Rightarrow> string" where
  "ToLower uni s = (if list_all is_ascii s then map lower_byte s else uni s)"

subsection \<open>Package strings\<close>

definition HasPrefix :: "string \<Rightarrow> string \<Rightarrow> bool" where
  "HasPrefix s p \<longleftrightarrow> take (length p) s = p"

definition HasSuffix :: "string \<Rightarrow> string \<Rightarrow> bool" where
  "HasSuffix s p \<longleftrightarrow> length p \<le> length s \<and> drop (length s - length p) s = p"

definition TrimPrefix :: "string \<Rightarrow> string \<Rightarrow> string" where
  "TrimPrefix s p = (if HasPrefix s p then drop (length p) s else s)"

text \<open>\<open>strings.Cut\<close> at a one-byte separator: what is before it, what is after it, found.\<close>

definition Cut :: "string \<Rightarrow> char \<Rightarrow> string \<times> string \<times> bool" where
  "Cut s sep =
     (if sep \<in> set s
      then (takeWhile (\<lambda>c. c \<noteq> sep) s, tl (dropWhile (\<lambda>c. c \<noteq> sep) s), True)
      else (s, [], False))"

definition ContainsAny :: "string \<Rightarrow> string \<Rightarrow> bool" where
  "ContainsAny s chars \<longleftrightarrow> list_ex (\<lambda>c. c \<in> set chars) s"

fun Join :: "string list \<Rightarrow> string \<Rightarrow> string" where
  "Join [] sep = []"
| "Join [x] sep = x"
| "Join (x # y # xs) sep = x @ sep @ Join (y # xs) sep"

text \<open>
  \<open>strings.TrimSpace\<close> drops leading and trailing white space as \<open>unicode.IsSpace\<close> defines
  it. \<open>space_runes\<close> lists the UTF-8 encodings of those code points: six ASCII bytes,
  U+0085, U+00A0, U+1680, U+2000 to U+200A, U+2028, U+2029, U+202F, U+205F and U+3000.
\<close>

definition space_runes :: "string list" where
  "space_runes =
     [[CHR 0x09], [CHR 0x0A], [CHR 0x0B], [CHR 0x0C], [CHR 0x0D], [CHR 0x20],
      [CHR 0xC2, CHR 0x85], [CHR 0xC2, CHR 0xA0],
      [CHR 0xE1, CHR 0x9A, CHR 0x80],
      [CHR 0xE2, CHR 0x80, CHR 0x80], [CHR 0xE2, CHR 0x80, CHR 0x81],
      [CHR 0xE2, CHR 0x80, CHR 0x82], [CHR 0xE2, CHR 0x80, CHR 0x83],
      [CHR 0xE2, CHR 0x80, CHR 0x84], [CHR 0xE2, CHR 0x80, CHR 0x85],
      [CHR 0xE2, CHR 0x80, CHR 0x86], [CHR 0xE2, CHR 0x80, CHR 0x87],
      [CHR 0xE2, CHR 0x80, CHR 0x88], [CHR 0xE2, CHR 0x80, CHR 0x89],
      [CHR 0xE2, CHR 0x80, CHR 0x8A], [CHR 0xE2, CHR 0x80, CHR 0xA8],
      [CHR 0xE2, CHR 0x80, CHR 0xA9], [CHR 0xE2, CHR 0x80, CHR 0xAF],
      [CHR 0xE2, CHR 0x81, CHR 0x9F], [CHR 0xE3, CHR 0x80, CHR 0x80]]"

fun trim_runes :: "string list \<Rightarrow> string \<Rightarrow> string" where
  "trim_runes ws [] = []"
| "trim_runes ws (c # s) =
     (case find (\<lambda>w. w \<noteq> [] \<and> HasPrefix (c # s) w) ws of
        None \<Rightarrow> c # s
      | Some w \<Rightarrow> trim_runes ws (drop (length w - 1) s))"

definition TrimSpace :: "string \<Rightarrow> string" where
  "TrimSpace s = rev (trim_runes (map rev space_runes) (rev (trim_runes space_runes s)))"

subsection \<open>Package encoding/hex\<close>

definition hex_digit :: "nat \<Rightarrow> char" where
  "hex_digit n = ''0123456789abcdef'' ! n"

definition hex_EncodeToString :: "string \<Rightarrow> string" where
  "hex_EncodeToString bs =
     concat (map (\<lambda>b. [hex_digit (of_char b div 16), hex_digit (of_char b mod 16)]) bs)"

definition is_lower_hex :: "char \<Rightarrow> bool" where
  "is_lower_hex c \<longleftrightarrow> is_digit c \<or> (CHR ''a'' \<le> c \<and> c \<le> CHR ''f'')"

subsection \<open>Lemmas shared by the components\<close>

lemma first_err_None [simp]: "first_err None b = b"
  by (simp add: first_err_def)

lemma first_err_Some [simp]: "first_err (Some e) b = Some e"
  by (simp add: first_err_def)

lemma first_err_eq_None [simp]: "first_err a b = None \<longleftrightarrow> a = None \<and> b = None"
  by (cases a) simp_all

lemma check_all_None: "check_all f xs = None \<longleftrightarrow> (\<forall>x \<in> set xs. f x = None)"
  by (induction xs) simp_all

lemma check_all_append: "check_all f (xs @ ys) = first_err (check_all f xs) (check_all f ys)"
  by (induction xs) (simp_all add: first_err_def split: option.splits)

lemma and_then_None [simp]: "and_then (s, None) f = f s"
  by (simp add: and_then_def)

lemma and_then_Some [simp]: "and_then (s, Some e) f = (s, Some e)"
  by (simp add: and_then_def)

lemma and_then_eq_None:
  "and_then r f = (t, None) \<longleftrightarrow> (\<exists>s. r = (s, None) \<and> f s = (t, None))"
  by (cases r; cases "snd r") (auto simp: and_then_def)

text \<open>An invariant of the body is an invariant of the loop, however it ends.\<close>

lemma and_then_inv:
  assumes "P (fst r)" and "\<And>s. P s \<Longrightarrow> P (fst (f s))"
  shows "P (fst (and_then r f))"
  using assms by (cases r; cases "snd r") (auto simp: and_then_def)

lemma loop_err_inv:
  assumes "P s" and "\<And>s x. x \<in> set xs \<Longrightarrow> P s \<Longrightarrow> P (fst (f s x))"
  shows "P (fst (loop_err f s xs))"
  using assms
proof (induction xs arbitrary: s)
  case (Cons x xs)
  have "P (fst (f s x))" using Cons.prems by simp
  then show ?case
    using Cons.IH [of "fst (f s x)"] Cons.prems(2)
    by (cases "f s x"; cases "snd (f s x)") auto
qed simp

lemma loop_err_append:
  "loop_err f s (xs @ ys) = and_then (loop_err f s xs) (\<lambda>s'. loop_err f s' ys)"
  by (induction xs arbitrary: s) (auto simp: and_then_def split: prod.splits option.splits)

lemma HasPrefix_prefix: "HasPrefix s p \<longleftrightarrow> prefix p s"
  by (metis HasPrefix_def append_eq_conv_conj append_take_drop_id prefix_def)

lemma HasPrefix_append [simp]: "HasPrefix (p @ s) p"
  by (simp add: HasPrefix_def)

lemma length_trim_runes: "length (trim_runes ws s) \<le> length s"
proof (induction ws s rule: trim_runes.induct)
  case (2 ws c s)
  show ?case
  proof (cases "find (\<lambda>w. w \<noteq> [] \<and> HasPrefix (c # s) w) ws")
    case (Some w)
    with 2 show ?thesis by fastforce
  qed simp
qed simp

text \<open>A byte that is not part of a white-space rune survives trimming.\<close>

lemma trim_runes_keeps: "c \<in> set s \<Longrightarrow> c \<notin> set (concat ws) \<Longrightarrow> c \<in> set (trim_runes ws s)"
proof (induction ws s rule: trim_runes.induct)
  case (2 ws d s)
  show ?case
  proof (cases "find (\<lambda>w. w \<noteq> [] \<and> HasPrefix (d # s) w) ws")
    case (Some w)
    then have w: "w \<in> set ws" "w \<noteq> []" "HasPrefix (d # s) w"
      by (auto simp: find_Some_iff)
    obtain a w' where a: "w = a # w'" using w(2) by (cases w) auto
    with w(3) have "take (length w') s = w'" "a = d" by (simp_all add: HasPrefix_def)
    then have ds: "d # s = w @ drop (length w - 1) s"
      using a append_take_drop_id [of "length w'" s] by simp
    have "c \<notin> set w" using w(1) "2.prems"(2) by auto
    then have "c \<in> set (drop (length w - 1) s)"
      using "2.prems"(1) ds by (metis Un_iff set_append)
    with 2 Some show ?thesis by simp
  qed (use 2 in simp)
qed simp

lemma TrimSpace_keeps: "c \<in> set s \<Longrightarrow> c \<notin> set (concat space_runes) \<Longrightarrow> c \<in> set (TrimSpace s)"
  using trim_runes_keeps [of c s space_runes]
    trim_runes_keeps [of c "rev (trim_runes space_runes s)" "map rev space_runes"]
  by (simp add: TrimSpace_def)

lemma Cut_at_first:
  "sep \<notin> set k \<Longrightarrow> Cut (k @ sep # v) sep = (k, v, True)"
  by (induction k) (auto simp: Cut_def)

lemma Cut_not_found: "sep \<notin> set s \<Longrightarrow> Cut s sep = (s, [], False)"
  by (simp add: Cut_def)

lemma less_16_cases:
  "(n::nat) < 16 \<Longrightarrow> n \<in> {0, 1, 2, 3, 4, 5, 6, 7, 8, 9, 10, 11, 12, 13, 14, 15}"
  by (simp add: numeral_eq_Suc less_Suc_eq)

lemma is_lower_hex_hex_digit: "n < 16 \<Longrightarrow> is_lower_hex (hex_digit n)"
  by (drule less_16_cases)
    (auto simp: hex_digit_def is_lower_hex_def is_digit_def less_eq_char_def)

lemma length_hex_EncodeToString [simp]: "length (hex_EncodeToString bs) = 2 * length bs"
  by (induction bs) (simp_all add: hex_EncodeToString_def)

lemma hex_EncodeToString_lower_hex: "list_all is_lower_hex (hex_EncodeToString bs)"
  by (induction bs)
    (simp_all add: hex_EncodeToString_def is_lower_hex_hex_digit list_all_iff
      of_char_of less_mult_imp_div_less)

subsection \<open>State machines\<close>

text \<open>
  The interface of a component that is a state machine: what holds initially and survives
  every step holds of every state the component can get to. Each component with a step
  relation interprets it.
\<close>

locale safe_system =
  fixes start :: "'s \<Rightarrow> bool" and step :: "'s \<Rightarrow> 's \<Rightarrow> bool" and good :: "'s \<Rightarrow> bool"
  assumes start_good: "start s \<Longrightarrow> good s"
    and step_good: "good s \<Longrightarrow> step s s' \<Longrightarrow> good s'"
begin

lemma steps_good: "step\<^sup>*\<^sup>* s s' \<Longrightarrow> good s \<Longrightarrow> good s'"
  by (induction rule: rtranclp_induct) (auto intro: step_good)

lemma reachable_good: "start s \<Longrightarrow> step\<^sup>*\<^sup>* s s' \<Longrightarrow> good s'"
  using steps_good start_good by blast

end

end
