(* ===== verification/Provider_Types.thy ===== *)
theory Provider_Types
  imports Go_Prelude
begin

text \<open>
  The data of \<open>src/internal/provider/provider.go\<close> that every component passes around: the
  write-safety \<open>Capability\<close> of a target, and a secret with its metadata.

  Go's string-typed enumerations accept any string (they are read from files), so a
  datatype for one has the declared constants and a constructor for every other string.
\<close>

datatype Capability =
    CapabilityNativeCAS
  | CapabilityEnforcedExclusive
  | CapabilityOwnerRiskGate
  | CapabilityBlocked
  | CapabilityUnknown string

fun capability_Valid :: "Capability \<Rightarrow> bool" where
  "capability_Valid (CapabilityUnknown _) = False"
| "capability_Valid _ = True"

record SecretMeta =
  sm_Description :: string
  sm_Tags :: "string \<rightharpoonup> string"
  sm_CreatedAt :: gotime
  sm_UpdatedAt :: gotime
  sm_CreatedBy :: string
  sm_ExpiresAt :: gotime

record Secret =
  sec_Key :: string
  sec_Value :: string
  sec_Version :: int
  sec_Meta :: SecretMeta

text \<open>Go's zero value \<open>SecretMeta{}\<close> and \<open>&Secret{Key: key, Value: val}\<close>.\<close>

definition zero_SecretMeta :: SecretMeta where
  "zero_SecretMeta = \<lparr>sm_Description = [], sm_Tags = Map.empty, sm_CreatedAt = 0,
     sm_UpdatedAt = 0, sm_CreatedBy = [], sm_ExpiresAt = 0\<rparr>"

definition mk_Secret :: "string \<Rightarrow> string \<Rightarrow> Secret" where
  "mk_Secret key val =
     \<lparr>sec_Key = key, sec_Value = val, sec_Version = 0, sec_Meta = zero_SecretMeta\<rparr>"

lemma mk_Secret_simps [simp]:
  "sec_Key (mk_Secret k v) = k" "sec_Value (mk_Secret k v) = v"
  by (simp_all add: mk_Secret_def)

end
