(* ===== verification/Sync_Journal.thy ===== *)
theory Sync_Journal
  imports Provider_Types
begin

text \<open>
  The sync operation journal, \<open>src/internal/syncer/state.go\<close>: the durable record of which
  secrets of which target have been written by which operation, and the state machine that
  decides when an operation counts as done.

  \<open>SyncState\<close> is the journal of one target. Its Go maps are HOL maps; a nil map reads like an
  empty one, and every write in the code goes to a map that is not nil. \<open>Metadata\<close> is a pointer
  in Go, but every outcome owns its copy (\<open>cloneOperationMetadata\<close>) and every write through
  the pointer is followed by storing the outcome back, so it is a value here.

  A \<open>range\<close> over \<open>s.Outcomes\<close> visits the keys in an order the Go runtime chooses. Where the
  code iterates, the operation takes that order as the list \<open>ord\<close>, and the theorems hold for
  every order that visits each key of the map (\<open>visits\<close>).

  \<open>hash_ctx\<close> is the keyed hash of the process: HMAC-SHA256 (\<open>hc_mac\<close>, the digest of a key and
  a message), the resolved key, and whether the key is process-random
  (\<open>hashKeyIsEphemeral\<close>).
\<close>

subsection \<open>Data\<close>

datatype OutcomeStatus =
    OutcomePending
  | OutcomeSucceeded
  | OutcomeNeedsReconciliation
  | OutcomeStatusOther string

datatype OperationPhase =
    OperationPhaseUnset
  | OperationPhasePending
  | OperationPhaseAwaitingVerification
  | OperationPhaseSucceeded
  | OperationPhaseNeedsReconciliation
  | OperationPhaseOther string

datatype ReconciliationState =
    ReconciliationStateUnset
  | ReconciliationStatePending
  | ReconciliationStateOwnerRiskRequired
  | ReconciliationStateApproved
  | ReconciliationStateOther string

datatype VerificationState =
    VerificationStateUnset
  | VerificationStatePending
  | VerificationStatePassed
  | VerificationStateFailed
  | VerificationStateOther string

record OperationMetadata =
  md_OldGeneration :: "64 word"
  md_CurrentGeneration :: "64 word"
  md_IntendedGeneration :: "64 word"
  md_LifecycleLabel :: string
  md_KMSEnvelopeRef :: string
  md_Capability :: Capability
  md_Deadline :: "gotime option"
  md_Attempts :: int
  md_ReconciliationState :: ReconciliationState
  md_CanaryState :: VerificationState
  md_PostconditionState :: VerificationState

record KeyOutcome =
  ko_Status :: OutcomeStatus
  ko_OperationID :: string
  ko_UpdatedAt :: gotime
  ko_Metadata :: "OperationMetadata option"
  ko_AcknowledgedHash :: string

record SyncState =
  ss_Target :: string
  ss_ID :: string
  ss_Hashes :: "string \<rightharpoonup> string"
  ss_Updated :: gotime
  ss_HashDomain :: string
  ss_OperationMethod :: string
  ss_SourceIdentity :: string
  ss_SourceDigest :: string
  ss_OperationID :: string
  ss_Phase :: OperationPhase
  ss_Intent :: string
  ss_StartedAt :: "gotime option"
  ss_CompletedAt :: "gotime option"
  ss_LastSuccess :: "gotime option"
  ss_Outcomes :: "string \<rightharpoonup> KeyOutcome"

datatype SyncError =
    ErrOperationMismatch
  | ErrOperationKeyMismatch
  | ErrOperationPhaseMismatch
  | ErrOperationEmpty
  | ErrOperationCapabilityInvalid
  | ErrOperationCapabilityBlocked
  | ErrOperationOwnerRiskApprovalRequired
  | ErrOperationVerificationRequired
  | ErrOperationDeadlineExceeded
  | ErrOperationNeedsReconciliation
  | ErrText string
  | ErrOutcome string SyncError

record hash_ctx =
  hc_mac :: "string \<Rightarrow> string \<Rightarrow> string"
  hc_key :: string
  hc_ephemeral :: bool

definition maxOperationAttempts :: int where
  "maxOperationAttempts = 3"

definition OperationIntentRotate :: string where
  "OperationIntentRotate = ''rotate''"

text \<open>The keys a \<open>range\<close> over the outcomes visits, in some order.\<close>

definition visits :: "string list \<Rightarrow> SyncState \<Rightarrow> bool" where
  "visits ord s \<longleftrightarrow> distinct ord \<and> set ord = dom (ss_Outcomes s)"

subsection \<open>Hashes\<close>

definition hashSecret :: "hash_ctx \<Rightarrow> string \<Rightarrow> string" where
  "hashSecret hc val = hex_EncodeToString (hc_mac hc (hc_key hc) val)"

definition currentHashDomain :: "hash_ctx \<Rightarrow> string" where
  "currentHashDomain hc =
     take 16 (hex_EncodeToString (hc_mac hc (hc_key hc) ''skret sync-state hash domain v1''))"

definition validAcknowledgedHash :: "string \<Rightarrow> bool" where
  "validAcknowledgedHash val \<longleftrightarrow> length val = 64 \<and> list_all is_lower_hex val"

definition source_pair :: "hash_ctx \<Rightarrow> Secret option \<Rightarrow> string" where
  "source_pair hc sec = (case sec of
      None \<Rightarrow> ''<nil>''
    | Some x \<Rightarrow> sec_Key x @ [CHR 0x00] @ hashSecret hc (sec_Value x))"

definition SourceDigest :: "hash_ctx \<Rightarrow> Secret option list \<Rightarrow> string" where
  "SourceDigest hc secrets =
     hex_EncodeToString
       (hc_mac hc (hc_key hc) (Join (sort (map (source_pair hc) secrets)) [CHR 0x00]))"

definition FilterUnchanged :: "hash_ctx \<Rightarrow> SyncState \<Rightarrow> Secret list \<Rightarrow> Secret list" where
  "FilterUnchanged hc s secrets =
     filter (\<lambda>sec. (case ss_Hashes s (sec_Key sec) of None \<Rightarrow> [] | Some h \<Rightarrow> h)
               \<noteq> hashSecret hc (sec_Value sec)) secrets"

definition state_Update :: "hash_ctx \<Rightarrow> SyncState \<Rightarrow> Secret list \<Rightarrow> SyncState" where
  "state_Update hc s secrets =
     s\<lparr>ss_Hashes :=
         foldl (\<lambda>m sec. m(sec_Key sec \<mapsto> hashSecret hc (sec_Value sec))) (ss_Hashes s) secrets\<rparr>"

subsection \<open>Checks on the metadata\<close>

definition reference_char :: "char \<Rightarrow> bool" where
  "reference_char c \<longleftrightarrow> is_lower c \<or> is_upper c \<or> is_digit c \<or> c \<in> set ''-_.:/''"

definition validOperationReference :: "string \<Rightarrow> bool" where
  "validOperationReference val \<longleftrightarrow>
     val \<noteq> [] \<and> length val \<le> 512 \<and> list_all reference_char val"

definition referencesRetained :: "OperationMetadata \<Rightarrow> bool" where
  "referencesRetained md \<longleftrightarrow>
     md_CurrentGeneration md < md_IntendedGeneration md \<and>
     md_OldGeneration md \<le> md_CurrentGeneration md \<and>
     validOperationReference (md_LifecycleLabel md) \<and>
     validOperationReference (md_KMSEnvelopeRef md) \<and>
     (case md_Deadline md of None \<Rightarrow> False | Some d \<Rightarrow> \<not> IsZero d)"

definition generationPromoted :: "OperationMetadata \<Rightarrow> bool" where
  "generationPromoted md \<longleftrightarrow>
     0 < md_IntendedGeneration md \<and>
     md_CurrentGeneration md = md_IntendedGeneration md \<and>
     md_OldGeneration md = 0 \<and>
     md_LifecycleLabel md = [] \<and>
     md_KMSEnvelopeRef md = [] \<and>
     md_Deadline md = None"

definition validVerificationStates :: "OperationMetadata \<Rightarrow> bool" where
  "validVerificationStates md = (case md_CanaryState md of
      VerificationStatePending \<Rightarrow> md_PostconditionState md = VerificationStatePending
    | VerificationStateFailed \<Rightarrow> md_PostconditionState md = VerificationStatePending
    | VerificationStatePassed \<Rightarrow>
        md_PostconditionState md
          \<in> {VerificationStatePending, VerificationStatePassed, VerificationStateFailed}
    | _ \<Rightarrow> False)"

definition verificationPassed :: "OperationMetadata \<Rightarrow> bool" where
  "verificationPassed md \<longleftrightarrow>
     md_CanaryState md = VerificationStatePassed \<and>
     md_PostconditionState md = VerificationStatePassed"

definition verificationFailed :: "OperationMetadata \<Rightarrow> bool" where
  "verificationFailed md \<longleftrightarrow>
     md_CanaryState md = VerificationStateFailed \<or>
     md_PostconditionState md = VerificationStateFailed"

definition md_validate :: "OperationMetadata \<Rightarrow> gotime \<Rightarrow> SyncError option" where
  "md_validate md started =
     (if md_IntendedGeneration md \<le> md_CurrentGeneration md
         \<or> md_CurrentGeneration md < md_OldGeneration md
      then Some (ErrText ''sync operation generation order is invalid'')
      else if \<not> capability_Valid (md_Capability md) then Some ErrOperationCapabilityInvalid
      else if \<not> validOperationReference (md_LifecycleLabel md)
      then Some (ErrText ''sync operation lifecycle label is invalid'')
      else if \<not> validOperationReference (md_KMSEnvelopeRef md)
      then Some (ErrText ''sync operation KMS envelope reference is invalid'')
      else if (case md_Deadline md of None \<Rightarrow> True | Some d \<Rightarrow> \<not> After d started)
      then Some (ErrText ''sync operation deadline must follow its start'')
      else if md_Attempts md < 0 \<or> maxOperationAttempts < md_Attempts md
      then Some (ErrText ''sync operation attempts are out of range'')
      else if md_ReconciliationState md \<noteq> ReconciliationStateUnset
      then Some (ErrText ''sync operation reconciliation state must start empty'')
      else if md_CanaryState md \<noteq> VerificationStatePending
              \<or> md_PostconditionState md \<noteq> VerificationStatePending
      then Some (ErrText ''sync operation verification state must start pending'')
      else None)"

text \<open>The switch on the reconciliation state inside \<open>validatePersisted\<close>.\<close>

definition validateReconciliationState ::
    "OperationMetadata \<Rightarrow> OutcomeStatus \<Rightarrow> SyncError option" where
  "validateReconciliationState md status = (case md_ReconciliationState md of
      ReconciliationStateUnset \<Rightarrow>
        if md_Capability md = CapabilityOwnerRiskGate \<and> status = OutcomeNeedsReconciliation
        then Some (ErrText ''owner-risk metadata requires explicit reconciliation state'')
        else None
    | ReconciliationStatePending \<Rightarrow>
        if md_Capability md = CapabilityOwnerRiskGate \<or> status \<noteq> OutcomeNeedsReconciliation
        then Some (ErrText ''pending reconciliation state is not valid for this capability'')
        else None
    | ReconciliationStateOwnerRiskRequired \<Rightarrow>
        if md_Capability md \<noteq> CapabilityOwnerRiskGate \<or> status \<noteq> OutcomeNeedsReconciliation
        then Some (ErrText ''owner-risk reconciliation state is not pending'')
        else None
    | ReconciliationStateApproved \<Rightarrow>
        if md_Capability md \<noteq> CapabilityOwnerRiskGate
           \<or> (status \<noteq> OutcomeNeedsReconciliation \<and> status \<noteq> OutcomeSucceeded)
        then Some (ErrText ''owner-risk approval state is not valid'')
        else None
    | ReconciliationStateOther _ \<Rightarrow>
        Some (ErrText ''sync operation reconciliation state is invalid''))"

definition validatePersisted :: "OperationMetadata \<Rightarrow> OutcomeStatus \<Rightarrow> SyncError option" where
  "validatePersisted md status =
     (if status \<notin> {OutcomePending, OutcomeSucceeded, OutcomeNeedsReconciliation}
      then Some (ErrText ''sync operation outcome status is invalid'')
      else if \<not> capability_Valid (md_Capability md) then Some ErrOperationCapabilityInvalid
      else if md_Attempts md < 0 \<or> maxOperationAttempts < md_Attempts md
      then Some (ErrText ''sync operation attempts are out of range'')
      else if \<not> validVerificationStates md
      then Some (ErrText ''sync operation verification state is invalid'')
      else if referencesRetained md = generationPromoted md
      then Some (ErrText ''sync operation generation retention state is invalid'')
      else if generationPromoted md
              \<and> (status \<noteq> OutcomeSucceeded \<or> \<not> verificationPassed md)
      then Some (ErrText ''promoted sync operation is not verified'')
      else if \<not> generationPromoted md \<and> status = OutcomePending
              \<and> md_CanaryState md \<noteq> VerificationStatePending
      then Some (ErrText ''pending sync operation cannot have verification evidence'')
      else first_err (validateReconciliationState md status)
        (if md_Capability md = CapabilityBlocked \<and> status = OutcomeSucceeded
         then Some ErrOperationCapabilityBlocked else None))"

definition ownerRiskApproved :: "KeyOutcome \<Rightarrow> bool" where
  "ownerRiskApproved oc = (case ko_Metadata oc of
      None \<Rightarrow> False
    | Some md \<Rightarrow> md_Capability md = CapabilityOwnerRiskGate
        \<and> md_ReconciliationState md = ReconciliationStateApproved)"

definition reconciliationStateFor :: "Capability \<Rightarrow> ReconciliationState" where
  "reconciliationStateFor cap =
     (if cap = CapabilityOwnerRiskGate then ReconciliationStateOwnerRiskRequired
      else ReconciliationStatePending)"

definition outcomeCapabilityAllowsSuccess :: "KeyOutcome \<Rightarrow> bool" where
  "outcomeCapabilityAllowsSuccess oc = (case ko_Metadata oc of
      None \<Rightarrow> True
    | Some md \<Rightarrow> (case md_Capability md of
          CapabilityNativeCAS \<Rightarrow> True
        | CapabilityEnforcedExclusive \<Rightarrow> True
        | CapabilityOwnerRiskGate \<Rightarrow> ownerRiskApproved oc
        | _ \<Rightarrow> False))"

definition promoteMetadata :: "OperationMetadata \<Rightarrow> OperationMetadata" where
  "promoteMetadata md =
     md\<lparr>md_CurrentGeneration := md_IntendedGeneration md,
        md_OldGeneration := 0,
        md_LifecycleLabel := [],
        md_KMSEnvelopeRef := [],
        md_Deadline := None,
        md_ReconciliationState :=
          (if md_Capability md \<noteq> CapabilityOwnerRiskGate then ReconciliationStateUnset
           else md_ReconciliationState md)\<rparr>"

text \<open>
  \<open>outcome.Metadata.ReconciliationState = reconciliationStateFor(...)\<close> under its nil check,
  the statement four functions share.
\<close>

definition mark_reconciliation :: "OperationMetadata \<Rightarrow> OperationMetadata" where
  "mark_reconciliation md =
     md\<lparr>md_ReconciliationState := reconciliationStateFor (md_Capability md)\<rparr>"

definition to_reconciliation :: "gotime \<Rightarrow> KeyOutcome \<Rightarrow> KeyOutcome" where
  "to_reconciliation t oc =
     oc\<lparr>ko_Status := OutcomeNeedsReconciliation, ko_UpdatedAt := t,
        ko_Metadata := map_option mark_reconciliation (ko_Metadata oc)\<rparr>"

subsection \<open>Questions about the current operation\<close>

definition owned_by :: "string \<Rightarrow> SyncState \<Rightarrow> string \<Rightarrow> bool" where
  "owned_by op s k = (case ss_Outcomes s k of None \<Rightarrow> False | Some oc \<Rightarrow> ko_OperationID oc = op)"

text \<open>The keys a loop visits before \<open>if outcome.OperationID != operationID { continue }\<close>.\<close>

definition owned_keys :: "string \<Rightarrow> SyncState \<Rightarrow> string list \<Rightarrow> string list" where
  "owned_keys op s ord = filter (owned_by op s) ord"

definition outcome_test :: "(KeyOutcome \<Rightarrow> bool) \<Rightarrow> SyncState \<Rightarrow> string \<Rightarrow> bool" where
  "outcome_test P s k = (case ss_Outcomes s k of None \<Rightarrow> False | Some oc \<Rightarrow> P oc)"

definition checkOperation :: "SyncState \<Rightarrow> string \<Rightarrow> SyncError option" where
  "checkOperation s op =
     (if op = [] \<or> op \<noteq> ss_OperationID s then Some ErrOperationMismatch else None)"

definition operationPending :: "string list \<Rightarrow> SyncState \<Rightarrow> bool" where
  "operationPending ord s =
     (if ss_OperationID s = [] then False
      else if ss_Phase s = OperationPhasePending
              \<or> ss_Phase s = OperationPhaseAwaitingVerification
              \<or> (ss_Phase s = OperationPhaseUnset \<and> ss_CompletedAt s = None)
      then True
      else list_ex (outcome_test (\<lambda>oc. ko_OperationID oc = ss_OperationID s
                                    \<and> ko_Status oc = OutcomePending) s) ord)"

definition RequiresReconciliation :: "string list \<Rightarrow> SyncState \<Rightarrow> bool" where
  "RequiresReconciliation ord s =
     (if ss_OperationID s = [] \<or> ss_Phase s = OperationPhaseSucceeded then False
      else if ss_Phase s = OperationPhaseNeedsReconciliation
              \<or> ss_Phase s = OperationPhaseAwaitingVerification then True
      else list_ex (outcome_test (\<lambda>oc. ko_OperationID oc = ss_OperationID s
                                    \<and> ko_Status oc \<noteq> OutcomeSucceeded) s) ord)"

definition hasRetainedMetadataOperation :: "string list \<Rightarrow> SyncState \<Rightarrow> bool" where
  "hasRetainedMetadataOperation ord s =
     (if ss_OperationID s = [] \<or> ss_Phase s = OperationPhaseSucceeded then False
      else list_ex (outcome_test (\<lambda>oc. ko_OperationID oc = ss_OperationID s
               \<and> (case ko_Metadata oc of None \<Rightarrow> False | Some md \<Rightarrow> \<not> generationPromoted md)) s) ord)"

definition ownedOutcome :: "SyncState \<Rightarrow> string \<Rightarrow> Secret option \<Rightarrow> SyncError + KeyOutcome" where
  "ownedOutcome s op secret = (case secret of
      None \<Rightarrow> Inl (ErrText ''sync operation contains nil secret'')
    | Some sec \<Rightarrow>
        if TrimSpace (sec_Key sec) = [] then Inl (ErrText ''sync operation key is required'')
        else (case ss_Outcomes s (sec_Key sec) of
            None \<Rightarrow> Inl ErrOperationKeyMismatch
          | Some oc \<Rightarrow> if ko_OperationID oc \<noteq> op then Inl ErrOperationKeyMismatch else Inr oc))"

subsection \<open>Starting an operation\<close>

definition normalize_metadata :: "OperationMetadata \<Rightarrow> OperationMetadata" where
  "normalize_metadata md =
     md\<lparr>md_OldGeneration :=
          (if md_OldGeneration md = 0 then md_CurrentGeneration md else md_OldGeneration md),
        md_CanaryState :=
          (if md_CanaryState md = VerificationStateUnset then VerificationStatePending
           else md_CanaryState md),
        md_PostconditionState :=
          (if md_PostconditionState md = VerificationStateUnset then VerificationStatePending
           else md_PostconditionState md)\<rparr>"

text \<open>The loop that hands a previous operation's pending keys over to reconciliation.\<close>

definition retire_outcome :: "string \<Rightarrow> gotime \<Rightarrow> KeyOutcome \<Rightarrow> KeyOutcome" where
  "retire_outcome prev started oc =
     (if ko_Status oc \<noteq> OutcomePending \<or> (ko_OperationID oc \<noteq> [] \<and> ko_OperationID oc \<noteq> prev)
      then oc
      else to_reconciliation started
             (oc\<lparr>ko_OperationID := (if ko_OperationID oc = [] then prev else ko_OperationID oc)\<rparr>))"

definition retire_pending :: "string list \<Rightarrow> SyncState \<Rightarrow> gotime \<Rightarrow> SyncState" where
  "retire_pending ord s started =
     (if operationPending ord s
      then s\<lparr>ss_Outcomes :=
               (\<lambda>k. map_option (retire_outcome (ss_OperationID s) started) (ss_Outcomes s k))\<rparr>
      else s)"

definition pending_outcome :: "string \<Rightarrow> gotime \<Rightarrow> OperationMetadata option \<Rightarrow> KeyOutcome" where
  "pending_outcome op started md =
     \<lparr>ko_Status = OutcomePending, ko_OperationID = op, ko_UpdatedAt = started,
      ko_Metadata = md, ko_AcknowledgedHash = []\<rparr>"

definition open_operation ::
    "SyncState \<Rightarrow> string \<Rightarrow> string \<Rightarrow> Secret option list \<Rightarrow> gotime
      \<Rightarrow> OperationMetadata option \<Rightarrow> SyncState" where
  "open_operation s op intent secrets started md =
     s\<lparr>ss_OperationID := op, ss_Phase := OperationPhasePending, ss_Intent := intent,
       ss_StartedAt := Some started, ss_CompletedAt := None,
       ss_Outcomes := foldl (\<lambda>m sec. case sec of None \<Rightarrow> m
                        | Some x \<Rightarrow> m(sec_Key x \<mapsto> pending_outcome op started md))
                        (ss_Outcomes s) secrets\<rparr>"

definition beginOperation ::
    "string list \<Rightarrow> SyncState \<Rightarrow> string \<Rightarrow> string \<Rightarrow> Secret option list \<Rightarrow> gotime
      \<Rightarrow> OperationMetadata option \<Rightarrow> SyncState \<times> SyncError option" where
  "beginOperation ord s op intent secrets started metadata =
     (if hasRetainedMetadataOperation ord s then (s, Some ErrOperationPhaseMismatch)
      else let md = map_option normalize_metadata metadata;
               e = (case md of None \<Rightarrow> None | Some m \<Rightarrow> md_validate m started)
           in if e \<noteq> None then (s, e)
              else if TrimSpace op = [] then (s, Some (ErrText ''sync operation id is required''))
              else if None \<in> set secrets
              then (s, Some (ErrText ''sync operation contains nil secret''))
              else (open_operation (retire_pending ord s started) op intent secrets started md, None))"

definition BeginOperation ::
    "string list \<Rightarrow> SyncState \<Rightarrow> string \<Rightarrow> Secret option list \<Rightarrow> gotime
      \<Rightarrow> SyncState \<times> SyncError option" where
  "BeginOperation ord s op secrets started = beginOperation ord s op [] secrets started None"

definition BeginOperationWithIntent ::
    "string list \<Rightarrow> SyncState \<Rightarrow> string \<Rightarrow> string \<Rightarrow> Secret option list \<Rightarrow> gotime
      \<Rightarrow> SyncState \<times> SyncError option" where
  "BeginOperationWithIntent ord s op intent secrets started =
     beginOperation ord s op intent secrets started None"

definition BeginOperationWithMetadata ::
    "string list \<Rightarrow> SyncState \<Rightarrow> string \<Rightarrow> OperationMetadata \<Rightarrow> Secret option list \<Rightarrow> gotime
      \<Rightarrow> SyncState \<times> SyncError option" where
  "BeginOperationWithMetadata ord s op metadata secrets started =
     beginOperation ord s op [] secrets started (Some metadata)"

subsection \<open>Recording one key\<close>

definition put_outcome :: "SyncState \<Rightarrow> string \<Rightarrow> KeyOutcome \<Rightarrow> SyncState" where
  "put_outcome s key oc = s\<lparr>ss_Outcomes := (ss_Outcomes s)(key \<mapsto> oc)\<rparr>"

definition rejectCapability ::
    "SyncState \<Rightarrow> string \<Rightarrow> KeyOutcome \<Rightarrow> gotime \<Rightarrow> SyncError \<Rightarrow> SyncState \<times> SyncError option" where
  "rejectCapability s key oc completed rejection =
     ((if ko_Status oc \<noteq> OutcomeNeedsReconciliation
       then (put_outcome s key (to_reconciliation completed oc))
              \<lparr>ss_Phase := OperationPhaseNeedsReconciliation, ss_CompletedAt := Some completed\<rparr>
       else s),
      Some rejection)"

text \<open>The deadline check and the switch on the capability in \<open>recordKeySuccess\<close>.\<close>

definition success_rejection :: "KeyOutcome \<Rightarrow> gotime \<Rightarrow> SyncError option" where
  "success_rejection oc completed = (case ko_Metadata oc of
      None \<Rightarrow> None
    | Some md \<Rightarrow>
        if (case md_Deadline md of None \<Rightarrow> False | Some d \<Rightarrow> After completed d)
        then Some ErrOperationDeadlineExceeded
        else (case md_Capability md of
            CapabilityNativeCAS \<Rightarrow> None
          | CapabilityEnforcedExclusive \<Rightarrow> None
          | CapabilityOwnerRiskGate \<Rightarrow>
              if ownerRiskApproved oc then None else Some ErrOperationOwnerRiskApprovalRequired
          | CapabilityBlocked \<Rightarrow> Some ErrOperationCapabilityBlocked
          | CapabilityUnknown _ \<Rightarrow> Some ErrOperationCapabilityInvalid))"

definition metadata_error :: "KeyOutcome \<Rightarrow> SyncError option" where
  "metadata_error oc = (case ko_Metadata oc of
      None \<Rightarrow> None | Some md \<Rightarrow> validatePersisted md (ko_Status oc))"

text \<open>The branch of \<open>recordKeySuccess\<close> for a key that has succeeded before.\<close>

definition reacknowledge ::
    "hash_ctx \<Rightarrow> SyncState \<Rightarrow> Secret \<Rightarrow> KeyOutcome \<Rightarrow> SyncState \<times> SyncError option" where
  "reacknowledge hc s sec oc =
     (if ko_Metadata oc \<noteq> None \<and> ko_AcknowledgedHash oc \<noteq> hashSecret hc (sec_Value sec)
      then if hc_ephemeral hc
           then (put_outcome s (sec_Key sec)
                   (oc\<lparr>ko_AcknowledgedHash := hashSecret hc (sec_Value sec)\<rparr>), None)
           else (s, Some ErrOperationKeyMismatch)
      else (s, None))"

text \<open>The last lines of \<open>recordKeySuccess\<close>, after every check has passed.\<close>

definition acknowledge ::
    "hash_ctx \<Rightarrow> SyncState \<Rightarrow> Secret \<Rightarrow> KeyOutcome \<Rightarrow> gotime \<Rightarrow> SyncState" where
  "acknowledge hc s sec oc completed =
     (if ko_Metadata oc \<noteq> None
      then put_outcome s (sec_Key sec)
             (oc\<lparr>ko_Status := OutcomeSucceeded, ko_UpdatedAt := completed,
                 ko_AcknowledgedHash := hashSecret hc (sec_Value sec)\<rparr>)
      else put_outcome (state_Update hc s [sec]) (sec_Key sec)
             (oc\<lparr>ko_Status := OutcomeSucceeded, ko_UpdatedAt := completed\<rparr>))"

definition recordKeySuccess ::
    "hash_ctx \<Rightarrow> SyncState \<Rightarrow> string \<Rightarrow> Secret option \<Rightarrow> gotime
      \<Rightarrow> SyncState \<times> SyncError option" where
  "recordKeySuccess hc s op secret completed =
     (case (ownedOutcome s op secret, secret) of
        (Inl e, _) \<Rightarrow> (s, Some e)
      | (Inr oc, None) \<Rightarrow> (s, Some (ErrText ''sync operation contains nil secret''))
      | (Inr oc, Some sec) \<Rightarrow>
          (case metadata_error oc of
             Some e \<Rightarrow> (s, Some e)
           | None \<Rightarrow>
               if ko_Status oc = OutcomeSucceeded then reacknowledge hc s sec oc
               else (case success_rejection oc completed of
                   Some e \<Rightarrow> rejectCapability s (sec_Key sec) oc completed e
                 | None \<Rightarrow>
                     if ko_Status oc = OutcomeNeedsReconciliation \<and> \<not> ownerRiskApproved oc
                     then (s, Some ErrOperationPhaseMismatch)
                     else (acknowledge hc s sec oc completed, None))))"

definition RecordKeySuccess ::
    "hash_ctx \<Rightarrow> SyncState \<Rightarrow> string \<Rightarrow> Secret option \<Rightarrow> gotime
      \<Rightarrow> SyncState \<times> SyncError option" where
  "RecordKeySuccess hc s op secret completed = (case checkOperation s op of
      Some e \<Rightarrow> (s, Some e) | None \<Rightarrow> recordKeySuccess hc s op secret completed)"

definition recordKeyNeedsReconciliation ::
    "SyncState \<Rightarrow> string \<Rightarrow> Secret option \<Rightarrow> gotime \<Rightarrow> SyncState \<times> SyncError option" where
  "recordKeyNeedsReconciliation s op secret completed =
     (case (ownedOutcome s op secret, secret) of
        (Inl e, _) \<Rightarrow> (s, Some e)
      | (Inr oc, None) \<Rightarrow> (s, Some (ErrText ''sync operation contains nil secret''))
      | (Inr oc, Some sec) \<Rightarrow>
          (case metadata_error oc of
             Some e \<Rightarrow> (s, Some e)
           | None \<Rightarrow>
               if ko_Status oc = OutcomeSucceeded then (s, Some ErrOperationPhaseMismatch)
               else if ko_Status oc = OutcomeNeedsReconciliation then (s, None)
               else ((put_outcome s (sec_Key sec) (to_reconciliation completed oc))
                       \<lparr>ss_Phase := OperationPhaseNeedsReconciliation,
                        ss_CompletedAt := Some completed\<rparr>, None)))"

definition RecordKeyNeedsReconciliation ::
    "SyncState \<Rightarrow> string \<Rightarrow> Secret option \<Rightarrow> gotime \<Rightarrow> SyncState \<times> SyncError option" where
  "RecordKeyNeedsReconciliation s op secret completed = (case checkOperation s op of
      Some e \<Rightarrow> (s, Some e) | None \<Rightarrow> recordKeyNeedsReconciliation s op secret completed)"

definition ApproveOwnerRiskReconciliation ::
    "SyncState \<Rightarrow> string \<Rightarrow> string \<Rightarrow> gotime \<Rightarrow> SyncState \<times> SyncError option" where
  "ApproveOwnerRiskReconciliation s op key approvedAt = (case checkOperation s op of
      Some e \<Rightarrow> (s, Some e)
    | None \<Rightarrow> (case ss_Outcomes s key of
          None \<Rightarrow> (s, Some ErrOperationKeyMismatch)
        | Some oc \<Rightarrow>
            if ko_OperationID oc \<noteq> op then (s, Some ErrOperationKeyMismatch)
            else if ko_Status oc \<noteq> OutcomeNeedsReconciliation
            then (s, Some ErrOperationPhaseMismatch)
            else (case ko_Metadata oc of
                None \<Rightarrow> (s, Some ErrOperationPhaseMismatch)
              | Some md \<Rightarrow> (case validatePersisted md (ko_Status oc) of
                    Some e \<Rightarrow> (s, Some e)
                  | None \<Rightarrow>
                      if md_Capability md \<noteq> CapabilityOwnerRiskGate
                      then (s, Some ErrOperationCapabilityInvalid)
                      else if md_ReconciliationState md = ReconciliationStateApproved
                      then (s, None)
                      else (put_outcome s key
                              (oc\<lparr>ko_UpdatedAt := approvedAt,
                                  ko_Metadata := Some (md\<lparr>md_ReconciliationState :=
                                    ReconciliationStateApproved\<rparr>)\<rparr>), None)))))"

subsection \<open>Finishing an operation\<close>

text \<open>The local variables of \<open>FinalizeOperation\<close>'s first loop.\<close>

record fin_flags =
  ff_metadataOwned :: nat
  ff_hasPending :: bool
  ff_hasNeedsReconciliation :: bool
  ff_verificationPending :: bool
  ff_verificationFailed :: bool

definition no_flags :: fin_flags where
  "no_flags = \<lparr>ff_metadataOwned = 0, ff_hasPending = False, ff_hasNeedsReconciliation = False,
     ff_verificationPending = False, ff_verificationFailed = False\<rparr>"

definition finalize_metadata_error :: "string \<Rightarrow> KeyOutcome \<Rightarrow> SyncError option" where
  "finalize_metadata_error key oc = (case ko_Metadata oc of
      None \<Rightarrow> None
    | Some md \<Rightarrow> (case validatePersisted md (ko_Status oc) of
          Some e \<Rightarrow> Some (ErrOutcome key e)
        | None \<Rightarrow>
            if ko_Status oc = OutcomeSucceeded \<and> referencesRetained md
               \<and> \<not> validAcknowledgedHash (ko_AcknowledgedHash oc)
            then Some (ErrOutcome key (ErrText ''missing acknowledgement hash''))
            else None))"

definition finalize_flags :: "KeyOutcome \<Rightarrow> fin_flags \<Rightarrow> fin_flags" where
  "finalize_flags oc f =
     (let f1 = (case ko_Metadata oc of None \<Rightarrow> f
          | Some md \<Rightarrow> f\<lparr>ff_metadataOwned := Suc (ff_metadataOwned f),
                ff_verificationPending := ff_verificationPending f \<or> \<not> verificationPassed md,
                ff_verificationFailed := ff_verificationFailed f \<or> verificationFailed md\<rparr>)
      in (case ko_Status oc of
            OutcomeSucceeded \<Rightarrow>
              f1\<lparr>ff_hasNeedsReconciliation :=
                   ff_hasNeedsReconciliation f1 \<or> \<not> outcomeCapabilityAllowsSuccess oc\<rparr>
          | OutcomeNeedsReconciliation \<Rightarrow> f1\<lparr>ff_hasNeedsReconciliation := True\<rparr>
          | _ \<Rightarrow> f1\<lparr>ff_hasPending := True\<rparr>))"

definition demote_outcome :: "gotime \<Rightarrow> KeyOutcome \<Rightarrow> KeyOutcome" where
  "demote_outcome completed oc =
     (if ko_Status oc = OutcomeSucceeded \<and> \<not> outcomeCapabilityAllowsSuccess oc
      then to_reconciliation completed oc else oc)"

definition finalize_key ::
    "gotime \<Rightarrow> SyncState \<times> fin_flags \<Rightarrow> string \<Rightarrow> (SyncState \<times> fin_flags) \<times> SyncError option" where
  "finalize_key completed sf key = (case sf of (s, f) \<Rightarrow>
     (case ss_Outcomes s key of
        None \<Rightarrow> (sf, None)
      | Some oc \<Rightarrow> (case finalize_metadata_error key oc of
            Some e \<Rightarrow> (sf, Some e)
          | None \<Rightarrow>
              ((put_outcome s key (demote_outcome completed oc), finalize_flags oc f), None))))"

text \<open>The second loop: the acknowledged hashes enter the drift cache, the metadata is promoted.\<close>

definition promote_outcome :: "KeyOutcome \<Rightarrow> KeyOutcome" where
  "promote_outcome oc = (case ko_Metadata oc of None \<Rightarrow> oc
     | Some md \<Rightarrow> oc\<lparr>ko_AcknowledgedHash := [], ko_Metadata := Some (promoteMetadata md)\<rparr>)"

definition promote_key :: "string \<Rightarrow> SyncState \<Rightarrow> string \<Rightarrow> SyncState" where
  "promote_key op s key = (case ss_Outcomes s key of
      None \<Rightarrow> s
    | Some oc \<Rightarrow>
        if ko_OperationID oc \<noteq> op \<or> ko_Status oc \<noteq> OutcomeSucceeded \<or> ko_Metadata oc = None then s
        else (put_outcome s key (promote_outcome oc))
               \<lparr>ss_Hashes := (ss_Hashes s)(key \<mapsto> ko_AcknowledgedHash oc)\<rparr>)"

definition close_succeeded :: "string list \<Rightarrow> string \<Rightarrow> gotime \<Rightarrow> SyncState \<Rightarrow> SyncState" where
  "close_succeeded ord op completed s =
     (foldl (promote_key op) s ord)
       \<lparr>ss_Phase := OperationPhaseSucceeded, ss_CompletedAt := Some completed,
        ss_LastSuccess := Some completed\<rparr>"

text \<open>The code after the first loop, which has counted \<open>owned\<close> keys and set the flags.\<close>

definition finalize_decide ::
    "string list \<Rightarrow> string \<Rightarrow> gotime \<Rightarrow> nat \<Rightarrow> SyncState \<Rightarrow> fin_flags
      \<Rightarrow> SyncState \<times> SyncError option" where
  "finalize_decide ord op completed owned s f =
     (if owned = 0 then (s, Some ErrOperationEmpty)
      else if ff_metadataOwned f \<noteq> 0 \<and> ff_metadataOwned f \<noteq> owned
      then (s, Some ErrOperationPhaseMismatch)
      else if ff_hasNeedsReconciliation f \<or> ff_verificationFailed f
      then (s\<lparr>ss_Phase := OperationPhaseNeedsReconciliation,
              ss_CompletedAt := (if ss_CompletedAt s = None then Some completed
                                 else ss_CompletedAt s)\<rparr>, None)
      else if ff_hasPending f
      then (s\<lparr>ss_Phase := OperationPhasePending, ss_CompletedAt := None\<rparr>, None)
      else if 0 < ff_metadataOwned f \<and> ff_verificationPending f
      then (s\<lparr>ss_Phase := OperationPhaseAwaitingVerification, ss_CompletedAt := None\<rparr>, None)
      else if ss_Phase s = OperationPhaseSucceeded then (s, None)
      else (close_succeeded ord op completed s, None))"

definition FinalizeOperation ::
    "string list \<Rightarrow> SyncState \<Rightarrow> string \<Rightarrow> gotime \<Rightarrow> SyncState \<times> SyncError option" where
  "FinalizeOperation ord s op completed = (case checkOperation s op of
      Some e \<Rightarrow> (s, Some e)
    | None \<Rightarrow> (case loop_err (finalize_key completed) (s, no_flags) (owned_keys op s ord) of
          ((s', f), Some e) \<Rightarrow> (s', Some e)
        | ((s', f), None) \<Rightarrow>
            finalize_decide ord op completed (length (owned_keys op s ord)) s' f))"

definition validateBatch ::
    "SyncState \<Rightarrow> string \<Rightarrow> Secret option list \<Rightarrow> OutcomeStatus \<Rightarrow> SyncError option" where
  "validateBatch s op secrets status =
     (if secrets = [] then Some ErrOperationEmpty
      else check_all (\<lambda>secret. case ownedOutcome s op secret of
          Inl e \<Rightarrow> Some e
        | Inr oc \<Rightarrow>
            if status = OutcomeSucceeded \<and> ko_Status oc = OutcomeNeedsReconciliation
               \<and> \<not> ownerRiskApproved oc
            then Some ErrOperationPhaseMismatch
            else if status = OutcomeNeedsReconciliation \<and> ko_Status oc = OutcomeSucceeded
            then Some ErrOperationPhaseMismatch
            else None) secrets)"

definition RecordSuccess ::
    "hash_ctx \<Rightarrow> string list \<Rightarrow> SyncState \<Rightarrow> string \<Rightarrow> Secret option list \<Rightarrow> gotime
      \<Rightarrow> SyncState \<times> SyncError option" where
  "RecordSuccess hc ord s op secrets completed =
     (case first_err (checkOperation s op) (validateBatch s op secrets OutcomeSucceeded) of
        Some e \<Rightarrow> (s, Some e)
      | None \<Rightarrow>
          and_then (loop_err (\<lambda>s sec. recordKeySuccess hc s op sec completed) s secrets)
            (\<lambda>s. FinalizeOperation ord s op completed))"

definition RecordNeedsReconciliation ::
    "SyncState \<Rightarrow> string \<Rightarrow> Secret option list \<Rightarrow> gotime \<Rightarrow> SyncState \<times> SyncError option" where
  "RecordNeedsReconciliation s op secrets completed =
     (case first_err (checkOperation s op)
             (validateBatch s op secrets OutcomeNeedsReconciliation) of
        Some e \<Rightarrow> (s, Some e)
      | None \<Rightarrow>
          loop_err (\<lambda>s sec. recordKeyNeedsReconciliation s op sec completed) s secrets)"

subsection \<open>Verification\<close>

definition verified_metadata :: "bool \<Rightarrow> bool \<Rightarrow> OperationMetadata \<Rightarrow> OperationMetadata" where
  "verified_metadata canary post md =
     (if canary
      then md\<lparr>md_CanaryState := VerificationStatePassed,
              md_PostconditionState :=
                (if post then VerificationStatePassed else VerificationStateFailed)\<rparr>
      else md\<lparr>md_CanaryState := VerificationStateFailed,
              md_PostconditionState := VerificationStatePending\<rparr>)"

definition verify_key ::
    "bool \<Rightarrow> bool \<Rightarrow> gotime \<Rightarrow> SyncState \<Rightarrow> string \<Rightarrow> SyncState \<times> SyncError option" where
  "verify_key canary post completed s key = (case ss_Outcomes s key of
      None \<Rightarrow> (s, None)
    | Some oc \<Rightarrow> (case ko_Metadata oc of
          None \<Rightarrow> (s, Some ErrOperationPhaseMismatch)
        | Some md \<Rightarrow>
            if ko_Status oc \<noteq> OutcomeSucceeded \<or> \<not> validAcknowledgedHash (ko_AcknowledgedHash oc)
            then (s, Some ErrOperationPhaseMismatch)
            else let oc' = oc\<lparr>ko_Metadata := Some (verified_metadata canary post md),
                              ko_UpdatedAt := completed\<rparr>
                 in (put_outcome s key
                       (if canary \<and> post then oc' else to_reconciliation completed oc'), None)))"

definition deadline_passed :: "string \<Rightarrow> gotime \<Rightarrow> SyncState \<Rightarrow> string list \<Rightarrow> bool" where
  "deadline_passed op completed s ord =
     list_ex (outcome_test (\<lambda>oc. ko_OperationID oc = op \<and> (case ko_Metadata oc of None \<Rightarrow> False
        | Some md \<Rightarrow> (case md_Deadline md of None \<Rightarrow> False | Some d \<Rightarrow> After completed d))) s) ord"

definition RecordOperationVerification ::
    "string list \<Rightarrow> string list \<Rightarrow> SyncState \<Rightarrow> string \<Rightarrow> bool \<Rightarrow> bool \<Rightarrow> gotime
      \<Rightarrow> SyncState \<times> SyncError option" where
  "RecordOperationVerification ord ord' s op canaryPassed postPassed completed =
     (case checkOperation s op of
        Some e \<Rightarrow> (s, Some e)
      | None \<Rightarrow>
          if ss_Phase s \<noteq> OperationPhaseAwaitingVerification
          then (s, Some ErrOperationPhaseMismatch)
          else let late = deadline_passed op completed s ord;
                   canary = canaryPassed \<and> \<not> late;
                   post = postPassed \<and> \<not> late
               in and_then (loop_err (verify_key canary post completed) s (owned_keys op s ord))
                    (\<lambda>s'. if owned_keys op s ord = [] then (s', Some ErrOperationEmpty)
                      else if \<not> canary \<or> \<not> post
                      then (s'\<lparr>ss_Phase := OperationPhaseNeedsReconciliation,
                               ss_CompletedAt := Some completed\<rparr>,
                            if late then Some ErrOperationDeadlineExceeded else None)
                      else FinalizeOperation ord' s' op completed))"

subsection \<open>What a saved journal must satisfy\<close>

definition persisted_outcome_error :: "SyncState \<Rightarrow> string \<Rightarrow> KeyOutcome \<Rightarrow> SyncError option" where
  "persisted_outcome_error s key oc = (case ko_Metadata oc of
      None \<Rightarrow> if ko_AcknowledgedHash oc \<noteq> []
              then Some (ErrOutcome key (ErrText ''unexpected acknowledgement hash'')) else None
    | Some md \<Rightarrow> (case validatePersisted md (ko_Status oc) of
          Some e \<Rightarrow> Some (ErrOutcome key e)
        | None \<Rightarrow>
            if ko_AcknowledgedHash oc \<noteq> [] \<and> \<not> validAcknowledgedHash (ko_AcknowledgedHash oc)
            then Some (ErrOutcome key (ErrText ''invalid acknowledgement hash''))
            else if referencesRetained md \<and> ko_OperationID oc \<noteq> ss_OperationID s
            then Some (ErrOutcome key (ErrText ''orphaned retained generation''))
            else if ko_OperationID oc \<noteq> ss_OperationID s then None
            else (case ss_Phase s of
                OperationPhaseSucceeded \<Rightarrow>
                  if \<not> generationPromoted md \<or> ko_AcknowledgedHash oc \<noteq> []
                  then Some (ErrOutcome key (ErrText ''success is not promoted'')) else None
              | OperationPhaseAwaitingVerification \<Rightarrow>
                  if ko_Status oc \<noteq> OutcomeSucceeded \<or> \<not> referencesRetained md
                     \<or> \<not> validAcknowledgedHash (ko_AcknowledgedHash oc) \<or> verificationFailed md
                  then Some (ErrOutcome key (ErrText ''invalid verification wait'')) else None
              | _ \<Rightarrow>
                  if generationPromoted md
                  then Some (ErrOutcome key (ErrText ''premature generation promotion''))
                  else None)))"

definition validatePersistedOperationMetadata ::
    "string list \<Rightarrow> SyncState \<Rightarrow> SyncError option" where
  "validatePersistedOperationMetadata ord s =
     (if ss_OperationMethod s \<noteq> [] \<and> \<not> validOperationReference (ss_OperationMethod s)
      then Some (ErrText ''validate sync state operation method: invalid operation method'')
      else if 512 < length (ss_SourceIdentity s)
      then Some (ErrText ''validate sync state source identity: too long'')
      else if ss_SourceDigest s \<noteq> [] \<and> \<not> validAcknowledgedHash (ss_SourceDigest s)
      then Some (ErrText ''validate sync state source digest: invalid digest'')
      else first_err
        (check_all (\<lambda>k. case ss_Outcomes s k of None \<Rightarrow> None
                     | Some oc \<Rightarrow> persisted_outcome_error s k oc) ord)
        (if ss_Phase s = OperationPhaseAwaitingVerification
            \<and> \<not> list_ex (outcome_test (\<lambda>oc. ko_Metadata oc \<noteq> None
                    \<and> ko_OperationID oc = ss_OperationID s) s) ord
         then Some ErrOperationVerificationRequired else None))"

subsection \<open>Loading and saving\<close>

text \<open>
  \<open>LoadSyncState\<close> once the file has been read and parsed: \<open>stored\<close> is \<open>None\<close> when the file does
  not exist. A journal written under another hash key loses everything derived from hashes.
\<close>

definition empty_SyncState :: "string \<Rightarrow> string \<Rightarrow> SyncState" where
  "empty_SyncState target ident =
     \<lparr>ss_Target = target, ss_ID = ident, ss_Hashes = Map.empty, ss_Updated = 0, ss_HashDomain = [],
      ss_OperationMethod = [], ss_SourceIdentity = [], ss_SourceDigest = [],
      ss_OperationID = [], ss_Phase = OperationPhaseUnset, ss_Intent = [],
      ss_StartedAt = None, ss_CompletedAt = None, ss_LastSuccess = None,
      ss_Outcomes = Map.empty\<rparr>"

definition reset_hash_domain :: "hash_ctx \<Rightarrow> SyncState \<Rightarrow> SyncState" where
  "reset_hash_domain hc s =
     (if ss_HashDomain s \<noteq> currentHashDomain hc
      then s\<lparr>ss_HashDomain := currentHashDomain hc, ss_Hashes := Map.empty, ss_SourceDigest := [],
             ss_OperationID := [], ss_Phase := OperationPhaseUnset, ss_Intent := [],
             ss_StartedAt := None, ss_CompletedAt := None, ss_LastSuccess := None,
             ss_Outcomes := Map.empty\<rparr>
      else s)"

definition LoadSyncState ::
    "hash_ctx \<Rightarrow> string list \<Rightarrow> string \<Rightarrow> string \<Rightarrow> SyncState option \<Rightarrow> SyncError + SyncState" where
  "LoadSyncState hc ord target ident stored = (case stored of
      None \<Rightarrow> Inr (empty_SyncState target ident)
    | Some s \<Rightarrow>
        if ss_Target s \<noteq> target \<or> ss_ID s \<noteq> ident
        then Inl (ErrText ''sync state identity mismatch'')
        else let s' = reset_hash_domain hc s
             in (case validatePersistedOperationMetadata ord s' of
                   Some e \<Rightarrow> Inl e | None \<Rightarrow> Inr s'))"

text \<open>
  \<open>SaveSyncState\<close> validates, creates the directory, stamps the journal and writes it through a
  temporary file. The write either leaves the old file (any step up to the rename fails), or installs the new one;
  after the rename the directory sync can still fail, and then the caller sees an error
  although the new file is in place (\<open>durableReplace\<close>).
\<close>

datatype save_io = SaveOK | SaveNoDir | SaveFails | SaveUnsynced

definition stamp_SyncState :: "hash_ctx \<Rightarrow> gotime \<Rightarrow> SyncState \<Rightarrow> SyncState" where
  "stamp_SyncState hc now s = s\<lparr>ss_HashDomain := currentHashDomain hc, ss_Updated := now\<rparr>"

definition SaveSyncState ::
    "hash_ctx \<Rightarrow> string list \<Rightarrow> gotime \<Rightarrow> save_io \<Rightarrow> SyncState \<Rightarrow> SyncState option
      \<Rightarrow> (SyncState \<times> SyncState option) \<times> SyncError option" where
  "SaveSyncState hc ord now io s disk = (case validatePersistedOperationMetadata ord s of
      Some e \<Rightarrow> ((s, disk), Some e)
    | None \<Rightarrow>
        let s' = stamp_SyncState hc now s
        in (case io of
              SaveNoDir \<Rightarrow> ((s, disk), Some (ErrText ''create sync state dir''))
            | SaveOK \<Rightarrow> ((s', Some s'), None)
            | SaveFails \<Rightarrow> ((s', disk), Some (ErrText ''write sync state''))
            | SaveUnsynced \<Rightarrow> ((s', Some s'), Some (ErrText ''rename sync state''))))"

end
