(* ===== verification/Sync_Journal_Inv.thy ===== *)
theory Sync_Journal_Inv
  imports Sync_Journal
begin

text \<open>
  The invariant of the sync journal and its preservation by every operation.

  \<open>journal_inv\<close> says of a journal what \<open>validatePersistedOperationMetadata\<close> checks before a
  save, and four facts the code relies on without checking them: an outcome with metadata
  belongs to a named operation, the outcomes of the current operation all carry metadata or
  none does, and a succeeded outcome has a capability that allows success and, until it is
  promoted, the hash that was acknowledged.
  \<open>outcome_ok\<close> is its part for one outcome, given the current operation and phase.
\<close>

subsection \<open>The checks as facts\<close>

lemma validateReconciliationState_None:
  "validateReconciliationState md st = None \<longleftrightarrow>
     (case md_ReconciliationState md of
        ReconciliationStateUnset \<Rightarrow>
          \<not> (md_Capability md = CapabilityOwnerRiskGate \<and> st = OutcomeNeedsReconciliation)
      | ReconciliationStatePending \<Rightarrow>
          md_Capability md \<noteq> CapabilityOwnerRiskGate \<and> st = OutcomeNeedsReconciliation
      | ReconciliationStateOwnerRiskRequired \<Rightarrow>
          md_Capability md = CapabilityOwnerRiskGate \<and> st = OutcomeNeedsReconciliation
      | ReconciliationStateApproved \<Rightarrow>
          md_Capability md = CapabilityOwnerRiskGate
            \<and> (st = OutcomeNeedsReconciliation \<or> st = OutcomeSucceeded)
      | ReconciliationStateOther _ \<Rightarrow> False)"
  by (simp add: validateReconciliationState_def split: ReconciliationState.split)

lemma validatePersisted_None:
  "validatePersisted md st = None \<longleftrightarrow>
     st \<in> {OutcomePending, OutcomeSucceeded, OutcomeNeedsReconciliation}
     \<and> capability_Valid (md_Capability md)
     \<and> 0 \<le> md_Attempts md \<and> md_Attempts md \<le> maxOperationAttempts
     \<and> validVerificationStates md
     \<and> referencesRetained md \<noteq> generationPromoted md
     \<and> (generationPromoted md \<longrightarrow> st = OutcomeSucceeded \<and> verificationPassed md)
     \<and> (\<not> generationPromoted md \<and> st = OutcomePending \<longrightarrow>
          md_CanaryState md = VerificationStatePending)
     \<and> validateReconciliationState md st = None
     \<and> \<not> (md_Capability md = CapabilityBlocked \<and> st = OutcomeSucceeded)"
  unfolding validatePersisted_def by (simp add: not_less)

lemma not_retained_promoted: "\<not> (referencesRetained md \<and> generationPromoted md)"
  by (auto simp: referencesRetained_def generationPromoted_def)

subsection \<open>The invariant\<close>

definition phase_ok :: "OperationPhase \<Rightarrow> KeyOutcome \<Rightarrow> OperationMetadata \<Rightarrow> bool" where
  "phase_ok ph oc md = (case ph of
      OperationPhaseSucceeded \<Rightarrow> generationPromoted md \<and> ko_AcknowledgedHash oc = []
    | OperationPhaseAwaitingVerification \<Rightarrow>
        ko_Status oc = OutcomeSucceeded \<and> referencesRetained md
        \<and> validAcknowledgedHash (ko_AcknowledgedHash oc) \<and> \<not> verificationFailed md
    | _ \<Rightarrow> \<not> generationPromoted md)"

definition outcome_ok :: "string \<Rightarrow> OperationPhase \<Rightarrow> KeyOutcome \<Rightarrow> bool" where
  "outcome_ok op ph oc = (case ko_Metadata oc of
      None \<Rightarrow> ko_AcknowledgedHash oc = []
    | Some md \<Rightarrow>
        validatePersisted md (ko_Status oc) = None
        \<and> (ko_AcknowledgedHash oc = [] \<or> validAcknowledgedHash (ko_AcknowledgedHash oc))
        \<and> (referencesRetained md \<longrightarrow> ko_OperationID oc = op)
        \<and> (ko_OperationID oc = op \<longrightarrow> phase_ok ph oc md)
        \<and> ko_OperationID oc \<noteq> []
        \<and> (ko_Status oc = OutcomeSucceeded \<longrightarrow> outcomeCapabilityAllowsSuccess oc)
        \<and> (ko_Status oc = OutcomeSucceeded \<and> referencesRetained md \<longrightarrow>
             validAcknowledgedHash (ko_AcknowledgedHash oc)))"

definition outcomes_ok :: "SyncState \<Rightarrow> bool" where
  "outcomes_ok s \<longleftrightarrow>
     (\<forall>k oc. ss_Outcomes s k = Some oc \<longrightarrow> outcome_ok (ss_OperationID s) (ss_Phase s) oc)"

text \<open>The current operation's outcomes all carry metadata (\<open>b\<close>), or none does.\<close>

definition metadata_uniform :: "SyncState \<Rightarrow> bool" where
  "metadata_uniform s \<longleftrightarrow>
     (\<exists>b. \<forall>k oc. ss_Outcomes s k = Some oc \<longrightarrow> ko_OperationID oc = ss_OperationID s \<longrightarrow>
        (ko_Metadata oc \<noteq> None) = b)"

definition wait_ok :: "SyncState \<Rightarrow> bool" where
  "wait_ok s \<longleftrightarrow> (ss_Phase s = OperationPhaseAwaitingVerification \<longrightarrow>
     (\<exists>k oc. ss_Outcomes s k = Some oc \<and> ko_Metadata oc \<noteq> None
        \<and> ko_OperationID oc = ss_OperationID s))"

definition header_ok :: "SyncState \<Rightarrow> bool" where
  "header_ok s \<longleftrightarrow>
     (ss_OperationMethod s = [] \<or> validOperationReference (ss_OperationMethod s))
     \<and> length (ss_SourceIdentity s) \<le> 512
     \<and> (ss_SourceDigest s = [] \<or> validAcknowledgedHash (ss_SourceDigest s))"

definition journal_inv :: "SyncState \<Rightarrow> bool" where
  "journal_inv s \<longleftrightarrow>
     finite (dom (ss_Outcomes s)) \<and> outcomes_ok s \<and> metadata_uniform s \<and> wait_ok s \<and> header_ok s"

definition hash_ok :: "hash_ctx \<Rightarrow> bool" where
  "hash_ok hc \<longleftrightarrow> (\<forall>m. length (hc_mac hc (hc_key hc) m) = 32)"

lemma hashSecret_valid: "hash_ok hc \<Longrightarrow> validAcknowledgedHash (hashSecret hc v)"
  by (simp add: hash_ok_def validAcknowledgedHash_def hashSecret_def hex_EncodeToString_lower_hex)

lemma SourceDigest_valid: "hash_ok hc \<Longrightarrow> validAcknowledgedHash (SourceDigest hc secs)"
  by (simp add: hash_ok_def validAcknowledgedHash_def SourceDigest_def hex_EncodeToString_lower_hex)

lemma validAcknowledgedHash_Nil [simp]: "\<not> validAcknowledgedHash []"
  by (simp add: validAcknowledgedHash_def)

lemma visits_ex: "visits ord s \<Longrightarrow>
    list_ex (outcome_test P s) ord \<longleftrightarrow> (\<exists>k oc. ss_Outcomes s k = Some oc \<and> P oc)"
  by (fastforce simp: visits_def list_ex_iff outcome_test_def split: option.splits)

lemma outcome_ok_persisted:
  "outcome_ok (ss_OperationID s) (ss_Phase s) oc \<Longrightarrow> persisted_outcome_error s k oc = None"
  by (cases "ko_Metadata oc"; cases "ss_Phase s")
    (auto simp: outcome_ok_def persisted_outcome_error_def phase_ok_def)

text \<open>What the invariant is for: a journal that has it can be saved.\<close>

lemma outcomes_okD:
  "journal_inv s \<Longrightarrow> ss_Outcomes s k = Some oc \<Longrightarrow> outcome_ok (ss_OperationID s) (ss_Phase s) oc"
  by (simp add: journal_inv_def outcomes_ok_def)

lemma journal_inv_saveable:
  assumes inv: "journal_inv s" and vis: "visits ord s"
  shows "validatePersistedOperationMetadata ord s = None"
proof -
  let ?check = "\<lambda>k. case ss_Outcomes s k of None \<Rightarrow> None
                     | Some oc \<Rightarrow> persisted_outcome_error s k oc"
  have "?check k = None" for k
    using outcomes_okD [OF inv, of k] by (cases "ss_Outcomes s k") (simp_all add: outcome_ok_persisted)
  then have 1: "check_all ?check ord = None"
    by (simp add: check_all_None)
  have "ss_Phase s = OperationPhaseAwaitingVerification \<Longrightarrow>
      list_ex (outcome_test (\<lambda>oc. ko_Metadata oc \<noteq> None \<and> ko_OperationID oc = ss_OperationID s) s) ord"
    using inv by (simp only: visits_ex [OF vis] journal_inv_def wait_ok_def)
  with 1 inv show ?thesis
    by (auto simp: validatePersistedOperationMetadata_def journal_inv_def header_ok_def)
qed

subsection \<open>Changing one outcome\<close>

lemma put_outcome_simps [simp]:
  "ss_Outcomes (put_outcome s k oc) = (ss_Outcomes s)(k \<mapsto> oc)"
  "ss_OperationID (put_outcome s k oc) = ss_OperationID s"
  "ss_Phase (put_outcome s k oc) = ss_Phase s"
  "ss_Hashes (put_outcome s k oc) = ss_Hashes s"
  "ss_CompletedAt (put_outcome s k oc) = ss_CompletedAt s"
  "header_ok (put_outcome s k oc) = header_ok s"
  by (simp_all add: put_outcome_def header_ok_def)

lemma header_ok_updates [simp]:
  "header_ok (s\<lparr>ss_Phase := p\<rparr>) = header_ok s"
  "header_ok (s\<lparr>ss_CompletedAt := c\<rparr>) = header_ok s"
  "header_ok (s\<lparr>ss_LastSuccess := c\<rparr>) = header_ok s"
  "header_ok (s\<lparr>ss_Hashes := h\<rparr>) = header_ok s"
  "header_ok (s\<lparr>ss_Outcomes := m\<rparr>) = header_ok s"
  "header_ok (s\<lparr>ss_OperationID := i\<rparr>) = header_ok s"
  "header_ok (s\<lparr>ss_Intent := n\<rparr>) = header_ok s"
  "header_ok (s\<lparr>ss_StartedAt := c\<rparr>) = header_ok s"
  by (simp_all add: header_ok_def)

lemma to_reconciliation_simps [simp]:
  "ko_Status (to_reconciliation t oc) = OutcomeNeedsReconciliation"
  "ko_OperationID (to_reconciliation t oc) = ko_OperationID oc"
  "ko_AcknowledgedHash (to_reconciliation t oc) = ko_AcknowledgedHash oc"
  "ko_Metadata (to_reconciliation t oc) = map_option mark_reconciliation (ko_Metadata oc)"
  by (simp_all add: to_reconciliation_def)

lemma mark_reconciliation_simps [simp]:
  "referencesRetained (mark_reconciliation md) = referencesRetained md"
  "generationPromoted (mark_reconciliation md) = generationPromoted md"
  "validVerificationStates (mark_reconciliation md) = validVerificationStates md"
  "verificationPassed (mark_reconciliation md) = verificationPassed md"
  "verificationFailed (mark_reconciliation md) = verificationFailed md"
  "md_Capability (mark_reconciliation md) = md_Capability md"
  "md_Attempts (mark_reconciliation md) = md_Attempts md"
  "md_ReconciliationState (mark_reconciliation md) = reconciliationStateFor (md_Capability md)"
  by (simp_all add: mark_reconciliation_def referencesRetained_def generationPromoted_def
      validVerificationStates_def verificationPassed_def verificationFailed_def
      split: VerificationState.split)

text \<open>
  Replacing the outcome of a key of the current operation by one that carries metadata iff
  the old one did keeps the invariant, if the new outcome and the phase are right.
\<close>

lemma journal_inv_put:
  assumes inv: "journal_inv s" and old: "ss_Outcomes s k = Some oc"
    and op: "ko_OperationID oc' = ko_OperationID oc"
    and md: "(ko_Metadata oc' \<noteq> None) = (ko_Metadata oc \<noteq> None)"
    and ok: "outcome_ok (ss_OperationID s) (ss_Phase s) oc'"
  shows "journal_inv (put_outcome s k oc')"
proof -
  obtain b where b: "\<And>j x. ss_Outcomes s j = Some x \<Longrightarrow> ko_OperationID x = ss_OperationID s \<Longrightarrow>
      (ko_Metadata x \<noteq> None) = b"
    using inv unfolding journal_inv_def metadata_uniform_def by blast
  have 1: "metadata_uniform (put_outcome s k oc')"
    unfolding metadata_uniform_def
  proof (intro exI [of _ b] allI impI)
    fix j x
    assume x: "ss_Outcomes (put_outcome s k oc') j = Some x"
      and cur: "ko_OperationID x = ss_OperationID (put_outcome s k oc')"
    show "(ko_Metadata x \<noteq> None) = b"
    proof (cases "j = k")
      case True
      with x cur op md show ?thesis using b [OF old] by simp
    next
      case False
      with x cur show ?thesis using b [of j x] by simp
    qed
  qed
  have 2: "wait_ok (put_outcome s k oc')"
    unfolding wait_ok_def
  proof
    assume "ss_Phase (put_outcome s k oc') = OperationPhaseAwaitingVerification"
    then obtain j x where x: "ss_Outcomes s j = Some x" "ko_Metadata x \<noteq> None"
        "ko_OperationID x = ss_OperationID s"
      using inv by (auto simp: journal_inv_def wait_ok_def)
    show "\<exists>j x. ss_Outcomes (put_outcome s k oc') j = Some x \<and> ko_Metadata x \<noteq> None
        \<and> ko_OperationID x = ss_OperationID (put_outcome s k oc')"
      using x old op md by (cases "j = k") (fastforce intro: exI [of _ j])+
  qed
  show ?thesis
    using inv ok 1 2 by (auto simp: journal_inv_def outcomes_ok_def)
qed

text \<open>The phases in which no outcome of the operation may be promoted.\<close>

definition open_phase :: "OperationPhase \<Rightarrow> bool" where
  "open_phase ph \<longleftrightarrow> ph \<noteq> OperationPhaseSucceeded \<and> ph \<noteq> OperationPhaseAwaitingVerification"

lemma phase_ok_open: "open_phase ph \<Longrightarrow> phase_ok ph oc md \<longleftrightarrow> \<not> generationPromoted md"
  by (auto simp: phase_ok_def open_phase_def split: OperationPhase.splits)

lemma outcome_ok_open_phase:
  assumes "outcome_ok op ph oc" and "open_phase ph'"
    and "\<And>md. ko_Metadata oc = Some md \<Longrightarrow> ko_OperationID oc = op \<Longrightarrow> \<not> generationPromoted md"
  shows "outcome_ok op ph' oc"
  using assms by (cases "ko_Metadata oc") (simp_all add: outcome_ok_def phase_ok_open)

lemma journal_inv_open_phase:
  assumes inv: "journal_inv s" and ph: "open_phase ph"
    and np: "\<And>k oc md. ss_Outcomes s k = Some oc \<Longrightarrow> ko_OperationID oc = ss_OperationID s \<Longrightarrow>
      ko_Metadata oc = Some md \<Longrightarrow> \<not> generationPromoted md"
  shows "journal_inv (s\<lparr>ss_Phase := ph, ss_CompletedAt := c\<rparr>)"
proof -
  have "outcome_ok (ss_OperationID s) ph oc" if "ss_Outcomes s k = Some oc" for k oc
    using outcome_ok_open_phase [OF outcomes_okD [OF inv that] ph] np [OF that] by blast
  then show ?thesis
    using inv ph
    by (simp add: journal_inv_def outcomes_ok_def metadata_uniform_def wait_ok_def open_phase_def)
qed

subsection \<open>Facts about one outcome\<close>

lemma validateReconciliationState_mark:
  "validateReconciliationState (mark_reconciliation md) OutcomeNeedsReconciliation = None"
  by (simp add: validateReconciliationState_None reconciliationStateFor_def)

lemma to_reconciliation_ok:
  assumes ok: "outcome_ok op ph oc" and ph: "open_phase ph'"
    and np: "\<And>md. ko_Metadata oc = Some md \<Longrightarrow> \<not> generationPromoted md"
  shows "outcome_ok op ph' (to_reconciliation t oc)"
proof (cases "ko_Metadata oc")
  case (Some md)
  with np have "\<not> generationPromoted md" by simp
  with Some ok have "validatePersisted (mark_reconciliation md) OutcomeNeedsReconciliation = None"
    by (simp add: outcome_ok_def validatePersisted_None validateReconciliationState_mark)
  with Some ok ph \<open>\<not> generationPromoted md\<close> show ?thesis
    by (simp add: outcome_ok_def phase_ok_open)
qed (use ok in \<open>simp add: outcome_ok_def\<close>)

text \<open>Once every key of an operation is acknowledged, its outcomes have succeeded.\<close>

lemma closed_phase_succeeded:
  assumes "outcome_ok op ph oc" and "\<not> open_phase ph" and "ko_OperationID oc = op"
    and "ko_Metadata oc = Some md"
  shows "ko_Status oc = OutcomeSucceeded"
  using assms
  by (cases ph) (simp_all add: outcome_ok_def open_phase_def phase_ok_def validatePersisted_None)

lemma open_phase_not_promoted:
  assumes "outcome_ok op ph oc" and "open_phase ph" and "ko_OperationID oc = op"
    and "ko_Metadata oc = Some md"
  shows "\<not> generationPromoted md"
  using assms by (simp add: outcome_ok_def phase_ok_open)

text \<open>
  The outcomes of the current operation, when one of them has not succeeded: the phase is
  open (or they carry no metadata), so none is promoted.
\<close>

lemma unfinished_not_promoted:
  assumes inv: "journal_inv s"
    and k: "ss_Outcomes s k = Some oc" "ko_OperationID oc = ss_OperationID s"
    and st: "ko_Status oc \<noteq> OutcomeSucceeded"
    and j: "ss_Outcomes s j = Some x" "ko_OperationID x = ss_OperationID s"
    and md: "ko_Metadata x = Some md"
  shows "\<not> generationPromoted md"
proof -
  have "ko_Metadata oc \<noteq> None"
    using inv k j md unfolding journal_inv_def metadata_uniform_def by fastforce
  then have "open_phase (ss_Phase s)"
    using closed_phase_succeeded [OF outcomes_okD [OF inv k(1)]] k(2) st by blast
  then show ?thesis
    using open_phase_not_promoted [OF outcomes_okD [OF inv j(1)]] j(2) md by blast
qed

text \<open>\<open>rejectCapability\<close> and the body of \<open>recordKeyNeedsReconciliation\<close>.\<close>

lemma journal_inv_to_reconciliation:
  assumes inv: "journal_inv s"
    and k: "ss_Outcomes s k = Some oc" "ko_OperationID oc = ss_OperationID s"
    and st: "ko_Status oc \<noteq> OutcomeSucceeded"
  shows "journal_inv ((put_outcome s k (to_reconciliation t oc))
     \<lparr>ss_Phase := OperationPhaseNeedsReconciliation, ss_CompletedAt := Some t\<rparr>)"
proof -
  let ?s = "s\<lparr>ss_Phase := OperationPhaseNeedsReconciliation, ss_CompletedAt := Some t\<rparr>"
  have op: "open_phase OperationPhaseNeedsReconciliation" by (simp add: open_phase_def)
  have inv': "journal_inv ?s"
    using journal_inv_open_phase [OF inv op] unfinished_not_promoted [OF inv k st] by blast
  have "outcome_ok (ss_OperationID s) OperationPhaseNeedsReconciliation (to_reconciliation t oc)"
    using to_reconciliation_ok [OF outcomes_okD [OF inv k(1)] op]
      unfinished_not_promoted [OF inv k st k] by blast
  then have "journal_inv (put_outcome ?s k (to_reconciliation t oc))"
    using journal_inv_put [OF inv', of k oc "to_reconciliation t oc"] k by simp
  moreover have "put_outcome ?s k x = (put_outcome s k x)
     \<lparr>ss_Phase := OperationPhaseNeedsReconciliation, ss_CompletedAt := Some t\<rparr>" for x
    by (simp add: put_outcome_def)
  ultimately show ?thesis by (simp only:)
qed

subsection \<open>Recording keeps the invariant\<close>

lemma ownedOutcome_Inr:
  "ownedOutcome s op secret = Inr oc \<longleftrightarrow>
     (\<exists>sec. secret = Some sec \<and> TrimSpace (sec_Key sec) \<noteq> [] \<and> ss_Outcomes s (sec_Key sec) = Some oc
        \<and> ko_OperationID oc = op)"
  by (auto simp: ownedOutcome_def split: option.splits if_splits)

lemma rejectCapability_inv:
  assumes "journal_inv s" and "ss_Outcomes s k = Some oc" and "ko_OperationID oc = ss_OperationID s"
    and "ko_Status oc \<noteq> OutcomeSucceeded"
  shows "journal_inv (fst (rejectCapability s k oc t e))"
  using journal_inv_to_reconciliation [OF assms] assms(1) by (simp add: rejectCapability_def)

lemma success_rejection_None:
  assumes "success_rejection oc t = None" and "ko_Metadata oc = Some md"
  shows "outcomeCapabilityAllowsSuccess oc" "md_Capability md \<noteq> CapabilityBlocked"
  using assms
  by (auto simp: success_rejection_def outcomeCapabilityAllowsSuccess_def
      split: if_splits Capability.splits)

lemma outcomeCapabilityAllowsSuccess_cong:
  "ko_Metadata oc' = ko_Metadata oc \<Longrightarrow>
     outcomeCapabilityAllowsSuccess oc' = outcomeCapabilityAllowsSuccess oc"
  by (simp add: outcomeCapabilityAllowsSuccess_def ownerRiskApproved_def
      split: option.split Capability.split)

lemma state_Update_simps [simp]:
  "ss_Outcomes (state_Update hc s xs) = ss_Outcomes s"
  "ss_OperationID (state_Update hc s xs) = ss_OperationID s"
  "ss_Phase (state_Update hc s xs) = ss_Phase s"
  "ss_CompletedAt (state_Update hc s xs) = ss_CompletedAt s"
  "journal_inv (state_Update hc s xs) = journal_inv s"
  by (simp_all add: state_Update_def journal_inv_def outcomes_ok_def metadata_uniform_def wait_ok_def)

text \<open>The outcome that \<open>acknowledge\<close> stores for a key with metadata.\<close>

lemma acknowledged_outcome_ok:
  assumes ok: "outcome_ok op ph oc" and md: "ko_Metadata oc = Some md" and cur: "ko_OperationID oc = op"
    and st: "ko_Status oc \<noteq> OutcomeSucceeded" and rej: "success_rejection oc t = None"
    and rec: "ko_Status oc = OutcomeNeedsReconciliation \<Longrightarrow> ownerRiskApproved oc"
    and h: "validAcknowledgedHash h"
  shows "outcome_ok op ph (oc\<lparr>ko_Status := OutcomeSucceeded, ko_UpdatedAt := t,
           ko_AcknowledgedHash := h\<rparr>)"
proof -
  have op: "open_phase ph"
    using closed_phase_succeeded [OF ok _ cur md] st by blast
  have np: "\<not> generationPromoted md"
    using open_phase_not_promoted [OF ok op cur md] .
  have v: "validatePersisted md (ko_Status oc) = None"
    using ok md by (simp add: outcome_ok_def)
  have "validateReconciliationState md OutcomeSucceeded = None"
  proof (cases "ko_Status oc = OutcomeNeedsReconciliation")
    case True
    then have "md_ReconciliationState md = ReconciliationStateApproved"
      "md_Capability md = CapabilityOwnerRiskGate"
      using rec md by (simp_all add: ownerRiskApproved_def)
    then show ?thesis by (simp add: validateReconciliationState_None)
  next
    case False
    moreover from v have "ko_Status oc
        \<in> {OutcomePending, OutcomeSucceeded, OutcomeNeedsReconciliation}"
      by (simp only: validatePersisted_None)
    ultimately have "ko_Status oc = OutcomePending" using st by simp
    then show ?thesis
      using v by (simp add: validatePersisted_None validateReconciliationState_None
          split: ReconciliationState.splits)
  qed
  then have "validatePersisted md OutcomeSucceeded = None"
    using v np success_rejection_None(2) [OF rej md] by (simp add: validatePersisted_None)
  moreover have "outcomeCapabilityAllowsSuccess
      (oc\<lparr>ko_Status := OutcomeSucceeded, ko_UpdatedAt := t, ko_AcknowledgedHash := h\<rparr>)
      = outcomeCapabilityAllowsSuccess oc"
    by (rule outcomeCapabilityAllowsSuccess_cong) simp
  moreover note success_rejection_None(1) [OF rej md]
  ultimately show ?thesis
    using ok md cur op np h by (simp add: outcome_ok_def phase_ok_open)
qed

lemma acknowledge_inv:
  assumes inv: "journal_inv s" and hok: "hash_ok hc"
    and k: "ss_Outcomes s (sec_Key sec) = Some oc" "ko_OperationID oc = ss_OperationID s"
    and st: "ko_Status oc \<noteq> OutcomeSucceeded" and rej: "success_rejection oc t = None"
    and rec: "ko_Status oc = OutcomeNeedsReconciliation \<Longrightarrow> ownerRiskApproved oc"
  shows "journal_inv (acknowledge hc s sec oc t)"
proof (cases "ko_Metadata oc")
  case None
  let ?s = "state_Update hc s [sec]"
  let ?oc = "oc\<lparr>ko_Status := OutcomeSucceeded, ko_UpdatedAt := t\<rparr>"
  have "outcome_ok (ss_OperationID ?s) (ss_Phase ?s) ?oc"
    using outcomes_okD [OF inv k(1)] None by (simp add: outcome_ok_def)
  then have "journal_inv (put_outcome ?s (sec_Key sec) ?oc)"
    using journal_inv_put [of ?s "sec_Key sec" oc ?oc] inv k by simp
  with None show ?thesis by (simp add: acknowledge_def)
next
  case (Some md)
  then show ?thesis
    using journal_inv_put [OF inv k(1)]
      acknowledged_outcome_ok [OF outcomes_okD [OF inv k(1)] Some k(2) st rej rec
        hashSecret_valid [OF hok]]
    by (simp add: acknowledge_def)
qed

text \<open>
  Re-acknowledging under a process-random key stores a fresh hash; the operation must not be
  finished, because a finished operation has no acknowledgement hashes any more.
\<close>

lemma reacknowledge_inv:
  assumes inv: "journal_inv s" and hok: "hash_ok hc"
    and k: "ss_Outcomes s (sec_Key sec) = Some oc"
    and eph: "hc_ephemeral hc \<Longrightarrow> ss_Phase s \<noteq> OperationPhaseSucceeded"
  shows "journal_inv (fst (reacknowledge hc s sec oc))"
proof (cases "hc_ephemeral hc \<and> ko_Metadata oc \<noteq> None")
  case True
  let ?oc = "oc\<lparr>ko_AcknowledgedHash := hashSecret hc (sec_Value sec)\<rparr>"
  have "outcomeCapabilityAllowsSuccess ?oc = outcomeCapabilityAllowsSuccess oc"
    by (rule outcomeCapabilityAllowsSuccess_cong) simp
  then have "outcome_ok (ss_OperationID s) (ss_Phase s) ?oc"
    using outcomes_okD [OF inv k] True eph hashSecret_valid [OF hok, of "sec_Value sec"]
    by (cases "ss_Phase s") (auto simp: outcome_ok_def phase_ok_def)
  then show ?thesis
    using journal_inv_put [OF inv k, of ?oc] inv by (simp add: reacknowledge_def)
qed (use inv in \<open>auto simp: reacknowledge_def\<close>)

lemma recordKeySuccess_inv:
  assumes inv: "journal_inv s" and hok: "hash_ok hc" and op: "op = ss_OperationID s"
    and eph: "hc_ephemeral hc \<Longrightarrow> ss_Phase s \<noteq> OperationPhaseSucceeded"
  shows "journal_inv (fst (recordKeySuccess hc s op secret t))"
proof (cases "ownedOutcome s op secret")
  case (Inr oc)
  then obtain sec where sec: "secret = Some sec" "ss_Outcomes s (sec_Key sec) = Some oc"
      "ko_OperationID oc = ss_OperationID s"
    using op by (auto simp: ownedOutcome_Inr)
  show ?thesis
    using inv Inr sec reacknowledge_inv [OF inv hok sec(2) eph]
      rejectCapability_inv [OF inv sec(2,3)] acknowledge_inv [OF inv hok sec(2,3)]
    by (auto simp: recordKeySuccess_def split: option.split)
qed (simp add: recordKeySuccess_def inv)

lemma recordKeyNeedsReconciliation_inv:
  assumes inv: "journal_inv s" and op: "op = ss_OperationID s"
  shows "journal_inv (fst (recordKeyNeedsReconciliation s op secret t))"
proof (cases "ownedOutcome s op secret")
  case (Inr oc)
  then obtain sec where sec: "secret = Some sec" "ss_Outcomes s (sec_Key sec) = Some oc"
      "ko_OperationID oc = ss_OperationID s"
    using op by (auto simp: ownedOutcome_Inr)
  show ?thesis
    using inv Inr sec journal_inv_to_reconciliation [OF inv sec(2,3)]
    by (auto simp: recordKeyNeedsReconciliation_def split: option.split)
qed (simp add: recordKeyNeedsReconciliation_def inv)

lemma ApproveOwnerRiskReconciliation_inv:
  assumes inv: "journal_inv s"
  shows "journal_inv (fst (ApproveOwnerRiskReconciliation s op k t))"
proof (cases "ApproveOwnerRiskReconciliation s op k t = (s, snd (ApproveOwnerRiskReconciliation s op k t))")
  case True
  then show ?thesis using inv by (metis fst_conv)
next
  case False
  then obtain oc md where oc: "ss_Outcomes s k = Some oc" "ko_Metadata oc = Some md"
      "ko_Status oc = OutcomeNeedsReconciliation" "md_Capability md = CapabilityOwnerRiskGate"
      "fst (ApproveOwnerRiskReconciliation s op k t) =
        put_outcome s k (oc\<lparr>ko_UpdatedAt := t, ko_Metadata :=
          Some (md\<lparr>md_ReconciliationState := ReconciliationStateApproved\<rparr>)\<rparr>)"
    by (auto simp: ApproveOwnerRiskReconciliation_def split: option.splits if_splits)
  let ?md = "md\<lparr>md_ReconciliationState := ReconciliationStateApproved\<rparr>"
  let ?oc = "oc\<lparr>ko_UpdatedAt := t, ko_Metadata := Some ?md\<rparr>"
  have same: "referencesRetained ?md = referencesRetained md"
    "generationPromoted ?md = generationPromoted md"
    "validVerificationStates ?md = validVerificationStates md"
    "verificationPassed ?md = verificationPassed md" "verificationFailed ?md = verificationFailed md"
    by (simp_all add: referencesRetained_def generationPromoted_def validVerificationStates_def
        verificationPassed_def verificationFailed_def split: VerificationState.split)
  have ok: "outcome_ok (ss_OperationID s) (ss_Phase s) oc"
    by (rule outcomes_okD [OF inv oc(1)])
  then have v: "validatePersisted ?md OutcomeNeedsReconciliation = None"
    using oc same by (simp add: outcome_ok_def validatePersisted_None validateReconciliationState_None)
  have "phase_ok ph ?oc ?md = phase_ok ph oc md" for ph
    by (cases ph) (simp_all add: phase_ok_def same)
  with ok oc v same have "outcome_ok (ss_OperationID s) (ss_Phase s) ?oc"
    by (simp add: outcome_ok_def)
  then show ?thesis
    using journal_inv_put [OF inv oc(1), of ?oc] oc by simp
qed

end
