(* ===== verification/Sync_Journal_Fin.thy ===== *)
theory Sync_Journal_Fin
  imports Sync_Journal_Inv
begin

text \<open>
  What \<open>FinalizeOperation\<close> computes, and that it keeps the journal's invariant.

  Under the invariant its first loop changes nothing and its flags are statements about the
  outcomes of the operation (\<open>op_outcomes\<close>), so the decision after the loop does not depend
  on the order in which Go's \<open>range\<close> visits the map; the second loop is a pointwise update
  (\<open>promote_all\<close>).
\<close>

subsection \<open>The first loop\<close>

text \<open>The outcomes of operation \<open>op\<close> in the order of visit.\<close>

definition op_outcomes :: "string \<Rightarrow> SyncState \<Rightarrow> string list \<Rightarrow> KeyOutcome list" where
  "op_outcomes op s ord = map (\<lambda>k. the (ss_Outcomes s k)) (owned_keys op s ord)"

definition op_outcome_set :: "string \<Rightarrow> SyncState \<Rightarrow> KeyOutcome set" where
  "op_outcome_set op s = {oc. \<exists>k. ss_Outcomes s k = Some oc \<and> ko_OperationID oc = op}"

lemma set_op_outcomes: "visits ord s \<Longrightarrow> set (op_outcomes op s ord) = op_outcome_set op s"
proof -
  assume "visits ord s"
  then have "k \<in> set (owned_keys op s ord) \<longleftrightarrow>
      (\<exists>oc. ss_Outcomes s k = Some oc \<and> ko_OperationID oc = op)" for k
    by (cases "ss_Outcomes s k") (auto simp: owned_keys_def owned_by_def visits_def)
  then show ?thesis
    by (force simp: op_outcomes_def op_outcome_set_def image_iff)
qed

lemma length_op_outcomes [simp]: "length (op_outcomes op s ord) = length (owned_keys op s ord)"
  by (simp add: op_outcomes_def)

lemma put_outcome_same: "ss_Outcomes s k = Some oc \<Longrightarrow> put_outcome s k oc = s"
  by (simp add: put_outcome_def fun_upd_idem)

lemma demote_outcome_id:
  "outcome_ok op ph oc \<Longrightarrow> demote_outcome t oc = oc"
  by (cases "ko_Metadata oc")
    (auto simp: demote_outcome_def outcome_ok_def outcomeCapabilityAllowsSuccess_def)

lemma finalize_key_same:
  assumes "journal_inv s" and "ss_Outcomes s k = Some oc"
  shows "finalize_key t (s, f) k =
    (case finalize_metadata_error k oc of None \<Rightarrow> ((s, finalize_flags oc f), None)
     | Some e \<Rightarrow> ((s, f), Some e))"
  using assms(2) demote_outcome_id [OF outcomes_okD [OF assms], of t] put_outcome_same [OF assms(2)]
  by (simp add: finalize_key_def split: option.split)

lemma finalize_loop:
  assumes "journal_inv s" and "\<forall>k \<in> set ks. ss_Outcomes s k \<noteq> None"
  shows "\<exists>f'. loop_err (finalize_key t) (s, f) ks =
      ((s, f'), check_all (\<lambda>k. finalize_metadata_error k (the (ss_Outcomes s k))) ks)
    \<and> (check_all (\<lambda>k. finalize_metadata_error k (the (ss_Outcomes s k))) ks = None \<longrightarrow>
       f' = fold finalize_flags (map (\<lambda>k. the (ss_Outcomes s k)) ks) f)"
  using assms(2)
proof (induction ks arbitrary: f)
  case (Cons k ks)
  then obtain oc where oc: "ss_Outcomes s k = Some oc" by auto
  show ?case
    using Cons.IH [of "finalize_flags oc f"] Cons.prems finalize_key_same [OF assms(1) oc, of t f] oc
    by (cases "finalize_metadata_error k oc") auto
qed simp

lemma owned_keys_Some: "k \<in> set (owned_keys op s ord) \<Longrightarrow> ss_Outcomes s k \<noteq> None"
  by (auto simp: owned_keys_def owned_by_def split: option.splits)

definition finalize_error :: "string list \<Rightarrow> SyncState \<Rightarrow> string \<Rightarrow> SyncError option" where
  "finalize_error ord s op =
     check_all (\<lambda>k. finalize_metadata_error k (the (ss_Outcomes s k))) (owned_keys op s ord)"

lemma FinalizeOperation_inv_eq:
  assumes inv: "journal_inv s"
  shows "FinalizeOperation ord s op t =
    (case first_err (checkOperation s op) (finalize_error ord s op) of
       Some e \<Rightarrow> (s, Some e)
     | None \<Rightarrow> finalize_decide ord op t (length (owned_keys op s ord)) s
         (fold finalize_flags (op_outcomes op s ord) no_flags))"
proof -
  have "\<forall>k \<in> set (owned_keys op s ord). ss_Outcomes s k \<noteq> None"
    using owned_keys_Some by blast
  note loop = finalize_loop [OF inv this, of t no_flags,
      folded finalize_error_def op_outcomes_def]
  show ?thesis
  proof (cases "checkOperation s op")
    case None
    from loop obtain f' where L: "loop_err (finalize_key t) (s, no_flags) (owned_keys op s ord) =
        ((s, f'), finalize_error ord s op)"
      and F: "finalize_error ord s op = None \<longrightarrow> f' = fold finalize_flags (op_outcomes op s ord) no_flags"
      by (elim exE conjE)
    show ?thesis
      unfolding FinalizeOperation_def None L
      using F by (cases "finalize_error ord s op") simp_all
  qed (simp add: FinalizeOperation_def)
qed

subsection \<open>The flags\<close>

lemma finalize_flags_step:
  "ff_metadataOwned (finalize_flags oc f) =
     ff_metadataOwned f + (if ko_Metadata oc = None then 0 else 1)"
  "ff_hasPending (finalize_flags oc f) \<longleftrightarrow> ff_hasPending f
     \<or> (ko_Status oc \<noteq> OutcomeSucceeded \<and> ko_Status oc \<noteq> OutcomeNeedsReconciliation)"
  "ff_hasNeedsReconciliation (finalize_flags oc f) \<longleftrightarrow> ff_hasNeedsReconciliation f
     \<or> ko_Status oc = OutcomeNeedsReconciliation
     \<or> (ko_Status oc = OutcomeSucceeded \<and> \<not> outcomeCapabilityAllowsSuccess oc)"
  "ff_verificationPending (finalize_flags oc f) \<longleftrightarrow> ff_verificationPending f
     \<or> (\<exists>md. ko_Metadata oc = Some md \<and> \<not> verificationPassed md)"
  "ff_verificationFailed (finalize_flags oc f) \<longleftrightarrow> ff_verificationFailed f
     \<or> (\<exists>md. ko_Metadata oc = Some md \<and> verificationFailed md)"
  by (cases "ko_Metadata oc"; cases "ko_Status oc"; simp add: finalize_flags_def)+

lemma finalize_flags_fold:
  "ff_metadataOwned (fold finalize_flags ocs f) =
     ff_metadataOwned f + length (filter (\<lambda>oc. ko_Metadata oc \<noteq> None) ocs)"
  "ff_hasPending (fold finalize_flags ocs f) \<longleftrightarrow> ff_hasPending f
     \<or> (\<exists>oc \<in> set ocs. ko_Status oc \<noteq> OutcomeSucceeded \<and> ko_Status oc \<noteq> OutcomeNeedsReconciliation)"
  "ff_hasNeedsReconciliation (fold finalize_flags ocs f) \<longleftrightarrow> ff_hasNeedsReconciliation f
     \<or> (\<exists>oc \<in> set ocs. ko_Status oc = OutcomeNeedsReconciliation
          \<or> (ko_Status oc = OutcomeSucceeded \<and> \<not> outcomeCapabilityAllowsSuccess oc))"
  "ff_verificationPending (fold finalize_flags ocs f) \<longleftrightarrow> ff_verificationPending f
     \<or> (\<exists>oc \<in> set ocs. \<exists>md. ko_Metadata oc = Some md \<and> \<not> verificationPassed md)"
  "ff_verificationFailed (fold finalize_flags ocs f) \<longleftrightarrow> ff_verificationFailed f
     \<or> (\<exists>oc \<in> set ocs. \<exists>md. ko_Metadata oc = Some md \<and> verificationFailed md)"
  by (induction ocs arbitrary: f) (simp_all add: finalize_flags_step disj_assoc)

subsection \<open>The second loop\<close>

text \<open>The promotion as one update of the whole map.\<close>

definition promotes :: "string \<Rightarrow> KeyOutcome \<Rightarrow> bool" where
  "promotes op oc \<longleftrightarrow>
     ko_OperationID oc = op \<and> ko_Status oc = OutcomeSucceeded \<and> ko_Metadata oc \<noteq> None"

definition promote_all :: "string \<Rightarrow> string set \<Rightarrow> SyncState \<Rightarrow> SyncState" where
  "promote_all op K s =
     s\<lparr>ss_Outcomes := (\<lambda>k. case ss_Outcomes s k of None \<Rightarrow> None
          | Some oc \<Rightarrow> Some (if k \<in> K \<and> promotes op oc then promote_outcome oc else oc)),
       ss_Hashes := (\<lambda>k. case ss_Outcomes s k of None \<Rightarrow> ss_Hashes s k
          | Some oc \<Rightarrow> if k \<in> K \<and> promotes op oc then Some (ko_AcknowledgedHash oc)
                      else ss_Hashes s k)\<rparr>"

lemma promote_all_empty: "promote_all op {} s = s"
  by (simp add: promote_all_def option.case_eq_if cong: if_cong)

lemma promote_key_all: "promote_key op s k = promote_all op {k} s"
proof -
  have "ss_Outcomes (promote_key op s k) j = ss_Outcomes (promote_all op {k} s) j"
    "ss_Hashes (promote_key op s k) j = ss_Hashes (promote_all op {k} s) j" for j
    by (cases "ss_Outcomes s k"; cases "ss_Outcomes s j"; cases "j = k";
        auto simp: promote_key_def promote_all_def promotes_def)+
  then show ?thesis
    by (cases "ss_Outcomes s k")
      (simp_all add: promote_key_def promote_all_def put_outcome_def fun_eq_iff)
qed

lemma promote_all_compose:
  assumes "k \<notin> K"
  shows "promote_all op K (promote_all op {k} s) = promote_all op (insert k K) s"
proof -
  have "ss_Outcomes (promote_all op K (promote_all op {k} s)) j =
      ss_Outcomes (promote_all op (insert k K) s) j"
    "ss_Hashes (promote_all op K (promote_all op {k} s)) j =
      ss_Hashes (promote_all op (insert k K) s) j" for j
    using assms by (cases "ss_Outcomes s j"; cases "j = k"; simp add: promote_all_def)+
  then show ?thesis by (simp add: promote_all_def fun_eq_iff)
qed

lemma promote_loop:
  "distinct ks \<Longrightarrow> foldl (promote_key op) s ks = promote_all op (set ks) s"
  by (induction ks arbitrary: s)
    (simp_all add: promote_all_empty promote_key_all promote_all_compose)

lemma promote_all_simps [simp]:
  "ss_OperationID (promote_all op K s) = ss_OperationID s"
  "header_ok (promote_all op K s) = header_ok s"
  "dom (ss_Outcomes (promote_all op K s)) = dom (ss_Outcomes s)"
  by (auto simp: promote_all_def dom_def split: option.splits)

lemma promote_outcome_simps [simp]:
  "ko_OperationID (promote_outcome oc) = ko_OperationID oc"
  "ko_Status (promote_outcome oc) = ko_Status oc"
  "(ko_Metadata (promote_outcome oc) = None) = (ko_Metadata oc = None)"
  by (simp_all add: promote_outcome_def split: option.split)

text \<open>Promoting a verified outcome gives one that a succeeded operation may keep.\<close>

lemma promoteMetadata_promoted: "referencesRetained md \<Longrightarrow> generationPromoted (promoteMetadata md)"
  by (auto simp: referencesRetained_def generationPromoted_def promoteMetadata_def word_gt_0
      intro: ccontr)

lemma promote_outcome_ok:
  assumes ok: "outcome_ok op ph oc" and md: "ko_Metadata oc = Some md"
    and st: "ko_Status oc = OutcomeSucceeded" and ret: "referencesRetained md"
    and ver: "verificationPassed md"
  shows "outcome_ok op OperationPhaseSucceeded (promote_outcome oc)"
proof -
  let ?md = "promoteMetadata md"
  have p: "generationPromoted ?md" by (rule promoteMetadata_promoted [OF ret])
  have np: "\<not> referencesRetained ?md" using p not_retained_promoted by blast
  have v: "verificationPassed ?md"
    using ver by (simp add: verificationPassed_def promoteMetadata_def)
  have same: "md_Capability ?md = md_Capability md" "md_Attempts ?md = md_Attempts md"
    "validVerificationStates ?md = validVerificationStates md"
    by (simp_all add: promoteMetadata_def validVerificationStates_def split: VerificationState.split)
  have vp: "validatePersisted md OutcomeSucceeded = None"
    using ok md st by (simp add: outcome_ok_def)
  then have "validateReconciliationState ?md OutcomeSucceeded = None"
    by (cases "md_ReconciliationState md")
      (simp_all add: validatePersisted_None validateReconciliationState_None promoteMetadata_def)
  with vp p np v same have "validatePersisted ?md OutcomeSucceeded = None"
    by (simp add: validatePersisted_None)
  moreover have "outcomeCapabilityAllowsSuccess (promote_outcome oc) = outcomeCapabilityAllowsSuccess oc"
    using md by (cases "md_Capability md")
      (simp_all add: outcomeCapabilityAllowsSuccess_def ownerRiskApproved_def promote_outcome_def
        promoteMetadata_def)
  ultimately show ?thesis
    using ok md st p np by (simp add: outcome_ok_def promote_outcome_def phase_ok_def)
qed

subsection \<open>The decision, without an order of visit\<close>

definition unverified :: "KeyOutcome \<Rightarrow> bool" where
  "unverified oc \<longleftrightarrow> (\<exists>md. ko_Metadata oc = Some md \<and> \<not> verificationPassed md)"

definition failed_verification :: "KeyOutcome \<Rightarrow> bool" where
  "failed_verification oc \<longleftrightarrow> (\<exists>md. ko_Metadata oc = Some md \<and> verificationFailed md)"

definition succeeded_state :: "string \<Rightarrow> gotime \<Rightarrow> SyncState \<Rightarrow> SyncState" where
  "succeeded_state op t s =
     (promote_all op (dom (ss_Outcomes s)) s)
       \<lparr>ss_Phase := OperationPhaseSucceeded, ss_CompletedAt := Some t, ss_LastSuccess := Some t\<rparr>"

definition finalize_spec :: "KeyOutcome set \<Rightarrow> string \<Rightarrow> gotime \<Rightarrow> SyncState
    \<Rightarrow> SyncState \<times> SyncError option" where
  "finalize_spec S op t s =
     (if S = {} then (s, Some ErrOperationEmpty)
      else if \<exists>oc \<in> S. ko_Status oc = OutcomeNeedsReconciliation \<or> failed_verification oc
      then (s\<lparr>ss_Phase := OperationPhaseNeedsReconciliation,
              ss_CompletedAt := (if ss_CompletedAt s = None then Some t else ss_CompletedAt s)\<rparr>, None)
      else if \<exists>oc \<in> S. ko_Status oc \<noteq> OutcomeSucceeded
      then (s\<lparr>ss_Phase := OperationPhasePending, ss_CompletedAt := None\<rparr>, None)
      else if \<exists>oc \<in> S. unverified oc
      then (s\<lparr>ss_Phase := OperationPhaseAwaitingVerification, ss_CompletedAt := None\<rparr>, None)
      else if ss_Phase s = OperationPhaseSucceeded then (s, None)
      else (succeeded_state op t s, None))"

lemma finalize_error_None:
  assumes inv: "journal_inv s"
  shows "finalize_error ord s op = None"
proof -
  have "finalize_metadata_error k (the (ss_Outcomes s k)) = None" if "ss_Outcomes s k \<noteq> None" for k
  proof -
    from that obtain oc where "ss_Outcomes s k = Some oc" by blast
    then show ?thesis
      using outcomes_okD [OF inv, of k oc]
      by (cases "ko_Metadata oc") (auto simp: finalize_metadata_error_def outcome_ok_def)
  qed
  then show ?thesis
    using owned_keys_Some unfolding finalize_error_def check_all_None by blast
qed

lemma op_outcome_ok:
  "journal_inv s \<Longrightarrow> oc \<in> op_outcome_set op s \<Longrightarrow> outcome_ok (ss_OperationID s) (ss_Phase s) oc"
  using outcomes_okD by (auto simp: op_outcome_set_def)

lemma op_metadata_uniform:
  assumes "journal_inv s" and "oc \<in> op_outcome_set (ss_OperationID s) s"
    and "oc' \<in> op_outcome_set (ss_OperationID s) s"
  shows "(ko_Metadata oc = None) = (ko_Metadata oc' = None)"
proof -
  obtain b where "\<And>k x. ss_Outcomes s k = Some x \<Longrightarrow> ko_OperationID x = ss_OperationID s \<Longrightarrow>
      (ko_Metadata x \<noteq> None) = b"
    using assms(1) unfolding journal_inv_def metadata_uniform_def by blast
  then have "(ko_Metadata x \<noteq> None) = b" if "x \<in> op_outcome_set (ss_OperationID s) s" for x
    using that unfolding op_outcome_set_def by blast
  from this [OF assms(2)] this [OF assms(3)] show ?thesis by blast
qed

lemma if_cascade:
  "(\<not> a \<Longrightarrow> b = b') \<Longrightarrow> (if a then x else if b then y else z) = (if a then x else if b' then y else z)"
  by simp

lemma op_metadata_count:
  assumes inv: "journal_inv s" and vis: "visits ord s" and op: "op = ss_OperationID s"
  shows "length (filter (\<lambda>oc. ko_Metadata oc \<noteq> None) (op_outcomes op s ord)) = 0
    \<or> length (filter (\<lambda>oc. ko_Metadata oc \<noteq> None) (op_outcomes op s ord)) = length (owned_keys op s ord)"
proof (cases "\<exists>oc \<in> op_outcome_set op s. ko_Metadata oc \<noteq> None")
  case True
  then obtain x where x: "x \<in> op_outcome_set op s" "ko_Metadata x \<noteq> None" by blast
  have "\<forall>oc \<in> set (op_outcomes op s ord). ko_Metadata oc \<noteq> None"
    unfolding set_op_outcomes [OF vis]
    using op_metadata_uniform [OF inv, of _ x] x op by simp
  then show ?thesis by (simp add: filter_True)
next
  case False
  then have "\<forall>oc \<in> set (op_outcomes op s ord). \<not> ko_Metadata oc \<noteq> None"
    unfolding set_op_outcomes [OF vis] by blast
  then show ?thesis by (simp add: filter_False)
qed

lemma finalize_decide_spec:
  assumes inv: "journal_inv s" and vis: "visits ord s" and op: "op = ss_OperationID s"
  shows "finalize_decide ord op t (length (owned_keys op s ord)) s
           (fold finalize_flags (op_outcomes op s ord) no_flags) =
         finalize_spec (op_outcome_set op s) op t s"
proof -
  let ?ocs = "op_outcomes op s ord" and ?S = "op_outcome_set op s"
  let ?n = "length (filter (\<lambda>oc. ko_Metadata oc \<noteq> None) ?ocs)"
  note set = set_op_outcomes [OF vis, of op]
  have allow: "outcomeCapabilityAllowsSuccess oc" if "oc \<in> ?S" "ko_Status oc = OutcomeSucceeded" for oc
    using op_outcome_ok [OF inv that(1)] that(2)
    by (cases "ko_Metadata oc") (simp_all add: outcome_ok_def outcomeCapabilityAllowsSuccess_def)
  have n: "?n = 0 \<or> ?n = length (owned_keys op s ord)"
    by (rule op_metadata_count [OF inv vis op])
  have n0: "?n = 0 \<Longrightarrow> \<not> (\<exists>oc \<in> ?S. unverified oc)"
    using set unfolding unverified_def by (fastforce simp: filter_empty_conv)
  have empty: "owned_keys op s ord = [] \<longleftrightarrow> ?S = {}"
    using set by (metis length_0_conv length_op_outcomes set_empty)
  have close: "close_succeeded ord op t s = succeeded_state op t s"
    using vis by (simp add: close_succeeded_def succeeded_state_def visits_def promote_loop)
  let ?f = "fold finalize_flags ?ocs no_flags"
  have 1: "ff_hasNeedsReconciliation ?f \<or> ff_verificationFailed ?f \<longleftrightarrow>
      (\<exists>oc \<in> ?S. ko_Status oc = OutcomeNeedsReconciliation \<or> failed_verification oc)"
    using allow by (auto simp: finalize_flags_fold set no_flags_def failed_verification_def)
  have 2: "ff_hasPending ?f \<longleftrightarrow> (\<exists>oc \<in> ?S. ko_Status oc \<noteq> OutcomeSucceeded
      \<and> ko_Status oc \<noteq> OutcomeNeedsReconciliation)"
    by (simp add: finalize_flags_fold set no_flags_def)
  have 3: "ff_metadataOwned ?f = ?n" by (simp add: finalize_flags_fold no_flags_def)
  have 4: "ff_verificationPending ?f \<longleftrightarrow> (\<exists>oc \<in> ?S. unverified oc)"
    by (simp add: finalize_flags_fold set no_flags_def unverified_def)
  have 5: "(0 < ?n \<and> (\<exists>oc \<in> ?S. unverified oc)) = (\<exists>oc \<in> ?S. unverified oc)"
    using n0 by blast
  show ?thesis
  proof (cases "?S = {}")
    case True
    then show ?thesis using empty by (simp add: finalize_decide_def finalize_spec_def)
  next
    case False
    have some: "length (owned_keys op s ord) \<noteq> 0" using False empty by simp
    have pure: "\<not> (?n \<noteq> 0 \<and> ?n \<noteq> length (owned_keys op s ord))" using n by blast
    show ?thesis
      unfolding finalize_decide_def finalize_spec_def 1 2 3 4 5 close
        if_not_P [OF some] if_not_P [OF pure] if_not_P [OF False]
      by (rule if_cascade) blast
  qed
qed

lemma FinalizeOperation_spec:
  assumes inv: "journal_inv s" and vis: "visits ord s"
  shows "FinalizeOperation ord s op t = (case checkOperation s op of
      Some e \<Rightarrow> (s, Some e) | None \<Rightarrow> finalize_spec (op_outcome_set op s) op t s)"
proof (cases "checkOperation s op")
  case None
  then have "op = ss_OperationID s" by (simp add: checkOperation_def split: if_splits)
  then show ?thesis
    using None by (simp only: FinalizeOperation_inv_eq [OF inv] finalize_error_None [OF inv]
        first_err_None option.case finalize_decide_spec [OF inv vis])
qed (simp add: FinalizeOperation_inv_eq [OF inv])

subsection \<open>Finishing keeps the invariant\<close>

lemma verification_failed_not_passed: "verificationFailed md \<Longrightarrow> \<not> verificationPassed md"
  by (auto simp: verificationFailed_def verificationPassed_def)

lemma promoted_verified:
  "outcome_ok op ph oc \<Longrightarrow> ko_Metadata oc = Some md \<Longrightarrow> generationPromoted md \<Longrightarrow> verificationPassed md"
  by (simp add: outcome_ok_def validatePersisted_None)

lemma retained_or_promoted:
  "outcome_ok op ph oc \<Longrightarrow> ko_Metadata oc = Some md \<Longrightarrow> referencesRetained md \<longleftrightarrow> \<not> generationPromoted md"
  by (simp add: outcome_ok_def validatePersisted_None)

text \<open>The outcomes of the current operation are promoted together, when it succeeds.\<close>

lemma none_promoted:
  assumes inv: "journal_inv s" and x: "x \<in> op_outcome_set (ss_OperationID s) s"
    and y: "y \<in> op_outcome_set (ss_OperationID s) s"
    and md: "ko_Metadata x = Some md" "\<not> generationPromoted md" and md': "ko_Metadata y = Some md'"
  shows "\<not> generationPromoted md'"
proof -
  have cur: "ko_OperationID x = ss_OperationID s" "ko_OperationID y = ss_OperationID s"
    using x y by (simp_all add: op_outcome_set_def)
  have "phase_ok (ss_Phase s) x md" "phase_ok (ss_Phase s) y md'"
    using op_outcome_ok [OF inv x] op_outcome_ok [OF inv y] md md' cur
    by (simp_all add: outcome_ok_def)
  then show ?thesis
    using md(2) not_retained_promoted [of md']
    by (cases "ss_Phase s") (simp_all add: phase_ok_def)
qed

lemma journal_inv_set_phase:
  assumes inv: "journal_inv s" and op: "op = ss_OperationID s" and ph: "open_phase ph"
    and x: "x \<in> op_outcome_set op s" and bad: "ko_Status x \<noteq> OutcomeSucceeded \<or> failed_verification x"
  shows "journal_inv (s\<lparr>ss_Phase := ph, ss_CompletedAt := c\<rparr>)"
proof (rule journal_inv_open_phase [OF inv ph])
  fix k oc md
  assume k: "ss_Outcomes s k = Some oc" "ko_OperationID oc = ss_OperationID s" "ko_Metadata oc = Some md"
  then have oc: "oc \<in> op_outcome_set (ss_OperationID s) s" by (auto simp: op_outcome_set_def)
  with x op obtain md' where md': "ko_Metadata x = Some md'"
    using op_metadata_uniform [OF inv, of oc x] k(3) by auto
  have "\<not> generationPromoted md'"
    using bad op_outcome_ok [OF inv x] md'
      verification_failed_not_passed promoted_verified [OF op_outcome_ok [OF inv x] md']
    by (auto simp: failed_verification_def outcome_ok_def validatePersisted_None)
  then show "\<not> generationPromoted md"
    using none_promoted [OF inv] x oc op md' k(3) by blast
qed

lemma journal_inv_awaiting:
  assumes inv: "journal_inv s" and op: "op = ss_OperationID s"
    and suc: "\<forall>oc \<in> op_outcome_set op s. ko_Status oc = OutcomeSucceeded"
    and vf: "\<forall>oc \<in> op_outcome_set op s. \<not> failed_verification oc"
    and x: "x \<in> op_outcome_set op s" "unverified x"
  shows "journal_inv (s\<lparr>ss_Phase := OperationPhaseAwaitingVerification, ss_CompletedAt := None\<rparr>)"
proof -
  obtain mdx where mdx: "ko_Metadata x = Some mdx" "\<not> verificationPassed mdx"
    using x(2) by (auto simp: unverified_def)
  then have npx: "\<not> generationPromoted mdx"
    using promoted_verified [OF op_outcome_ok [OF inv x(1)]] by blast
  have "outcome_ok (ss_OperationID s) OperationPhaseAwaitingVerification oc"
    if k: "ss_Outcomes s k = Some oc" for k oc
  proof (cases "ko_OperationID oc = ss_OperationID s \<and> ko_Metadata oc \<noteq> None")
    case True
    then obtain md where md: "ko_Metadata oc = Some md" by blast
    from True k have oc: "oc \<in> op_outcome_set op s" by (auto simp: op_outcome_set_def op)
    have np: "\<not> generationPromoted md"
      using none_promoted [OF inv _ _ mdx(1) npx md] x(1) oc op by blast
    then have "referencesRetained md"
      using retained_or_promoted [OF op_outcome_ok [OF inv oc] md] by blast
    then have "phase_ok OperationPhaseAwaitingVerification oc md"
      using md suc vf oc op_outcome_ok [OF inv oc]
      by (simp add: phase_ok_def failed_verification_def outcome_ok_def)
    then show ?thesis using outcomes_okD [OF inv k] md by (simp add: outcome_ok_def)
  qed (use outcomes_okD [OF inv k] in \<open>auto simp: outcome_ok_def split: option.splits\<close>)
  moreover have "\<exists>k oc. ss_Outcomes s k = Some oc \<and> ko_Metadata oc \<noteq> None
      \<and> ko_OperationID oc = ss_OperationID s"
    using x(1) mdx(1) op by (auto simp: op_outcome_set_def)
  ultimately show ?thesis
    using inv by (simp add: journal_inv_def outcomes_ok_def metadata_uniform_def wait_ok_def)
qed

lemma succeeded_state_Outcomes:
  "ss_Outcomes (succeeded_state op t s) =
     (\<lambda>k. map_option (\<lambda>oc. if promotes op oc then promote_outcome oc else oc) (ss_Outcomes s k))"
  by (auto simp: succeeded_state_def promote_all_def fun_eq_iff split: option.split)

lemma metadata_uniform_map:
  assumes uni: "metadata_uniform s" and g: "ss_Outcomes s' = (\<lambda>k. map_option g (ss_Outcomes s k))"
    and op: "ss_OperationID s' = ss_OperationID s"
    and same: "\<And>oc. ko_OperationID (g oc) = ko_OperationID oc"
      "\<And>oc. (ko_Metadata (g oc) = None) = (ko_Metadata oc = None)"
  shows "metadata_uniform s'"
proof -
  obtain b where b: "\<And>k x. ss_Outcomes s k = Some x \<Longrightarrow> ko_OperationID x = ss_OperationID s \<Longrightarrow>
      (ko_Metadata x \<noteq> None) = b"
    using uni unfolding metadata_uniform_def by blast
  show ?thesis
    unfolding metadata_uniform_def
  proof (intro exI [of _ b] allI impI)
    fix k x
    assume "ss_Outcomes s' k = Some x" and cur: "ko_OperationID x = ss_OperationID s'"
    then obtain y where y: "ss_Outcomes s k = Some y" "x = g y" by (auto simp: g)
    with b [OF y(1)] cur op show "(ko_Metadata x \<noteq> None) = b" by (simp add: same)
  qed
qed

lemma outcomes_ok_map:
  assumes "ss_Outcomes s' = (\<lambda>k. map_option g (ss_Outcomes s k))"
    and "\<And>k oc. ss_Outcomes s k = Some oc \<Longrightarrow> outcome_ok (ss_OperationID s') (ss_Phase s') (g oc)"
  shows "outcomes_ok s'"
  using assms by (auto simp: outcomes_ok_def)

lemma journal_inv_succeeded:
  assumes inv: "journal_inv s" and op: "op = ss_OperationID s" and ph: "ss_Phase s \<noteq> OperationPhaseSucceeded"
    and suc: "\<forall>oc \<in> op_outcome_set op s. ko_Status oc = OutcomeSucceeded \<and> \<not> unverified oc"
  shows "journal_inv (succeeded_state op t s)"
proof -
  let ?s = "succeeded_state op t s"
  let ?p = "\<lambda>oc. if promotes op oc then promote_outcome oc else oc"
  have ok: "outcome_ok op OperationPhaseSucceeded (?p oc)" if k: "ss_Outcomes s k = Some oc" for k oc
  proof (cases "ko_OperationID oc = op \<and> ko_Metadata oc \<noteq> None")
    case True
    then obtain md where md: "ko_Metadata oc = Some md" by blast
    from True k have oc: "oc \<in> op_outcome_set op s" by (auto simp: op_outcome_set_def)
    have o: "outcome_ok op (ss_Phase s) oc" using outcomes_okD [OF inv k] op by simp
    have "\<not> generationPromoted md"
      using o md True ph not_retained_promoted [of md]
      by (cases "ss_Phase s") (auto simp: outcome_ok_def phase_ok_def)
    then have "referencesRetained md" using retained_or_promoted [OF o md] by blast
    moreover have "verificationPassed md" using suc oc md by (simp add: unverified_def)
    ultimately show ?thesis
      using promote_outcome_ok [OF o md] suc oc md True by (simp add: promotes_def)
  next
    case False
    then show ?thesis
      using outcomes_okD [OF inv k] op by (cases "ko_Metadata oc") (auto simp: promotes_def outcome_ok_def)
  qed
  have frame: "ss_OperationID ?s = op" "ss_Phase ?s = OperationPhaseSucceeded" "header_ok ?s"
    "dom (ss_Outcomes ?s) = dom (ss_Outcomes s)"
    using inv op by (simp_all add: succeeded_state_def journal_inv_def)
  have "metadata_uniform ?s"
    by (rule metadata_uniform_map [OF _ succeeded_state_Outcomes])
      (use inv op frame in \<open>simp_all add: journal_inv_def\<close>)
  moreover have "outcomes_ok ?s"
    by (rule outcomes_ok_map [OF succeeded_state_Outcomes]) (simp only: frame ok)
  ultimately show ?thesis
    using inv frame by (simp add: journal_inv_def wait_ok_def)
qed

lemma FinalizeOperation_inv:
  assumes inv: "journal_inv s" and vis: "visits ord s"
  shows "journal_inv (fst (FinalizeOperation ord s op t))"
proof (cases "checkOperation s op")
  case None
  then have op: "op = ss_OperationID s" by (simp add: checkOperation_def split: if_splits)
  have o: "open_phase OperationPhaseNeedsReconciliation" "open_phase OperationPhasePending"
    by (simp_all add: open_phase_def)
  let ?S = "op_outcome_set op s"
  consider "?S = {}" | x where "x \<in> ?S" "ko_Status x = OutcomeNeedsReconciliation \<or> failed_verification x"
    | x where "?S \<noteq> {}" "\<forall>x \<in> ?S. \<not> (ko_Status x = OutcomeNeedsReconciliation \<or> failed_verification x)"
        "x \<in> ?S" "ko_Status x \<noteq> OutcomeSucceeded"
    | x where "?S \<noteq> {}" "\<forall>x \<in> ?S. ko_Status x = OutcomeSucceeded \<and> \<not> failed_verification x"
        "x \<in> ?S" "unverified x"
    | "?S \<noteq> {}" "\<forall>x \<in> ?S. ko_Status x = OutcomeSucceeded \<and> \<not> failed_verification x \<and> \<not> unverified x"
    by metis
  then have "journal_inv (fst (finalize_spec ?S op t s))"
  proof cases
    case 1
    then show ?thesis by (simp add: finalize_spec_def inv)
  next
    case 2
    then show ?thesis
      using journal_inv_set_phase [OF inv op o(1), of x] by (fastforce simp: finalize_spec_def)
  next
    case 3
    then have "\<not> (\<exists>x \<in> ?S. ko_Status x = OutcomeNeedsReconciliation \<or> failed_verification x)"
      "\<exists>x \<in> ?S. ko_Status x \<noteq> OutcomeSucceeded"
      by blast+
    then show ?thesis
      using journal_inv_set_phase [OF inv op o(2), of x] 3 by (simp add: finalize_spec_def)
  next
    case 4
    then have "\<exists>x \<in> ?S. unverified x" by blast
    then show ?thesis
      using journal_inv_awaiting [OF inv op, of x] 4 by (simp add: finalize_spec_def)
  next
    case 5
    then show ?thesis
      using journal_inv_succeeded [OF inv op] inv by (simp add: finalize_spec_def)
  qed
  then show ?thesis using None by (simp add: FinalizeOperation_spec [OF inv vis])
qed (simp add: FinalizeOperation_spec [OF inv vis] inv)

end
