(* ===== verification/Sync_Journal_Steps.thy ===== *)
theory Sync_Journal_Steps
  imports Sync_Journal_Fin
begin

text \<open>
  The remaining operations of the journal (verification, batches, starting an operation,
  loading) keep the invariant; the operations as one step relation, and what holds of every
  journal they can reach.
\<close>

subsection \<open>Verification\<close>

definition verify_outcome :: "bool \<Rightarrow> bool \<Rightarrow> gotime \<Rightarrow> KeyOutcome \<Rightarrow> KeyOutcome" where
  "verify_outcome canary post t oc =
     (let oc' = oc\<lparr>ko_Metadata := map_option (verified_metadata canary post) (ko_Metadata oc),
                   ko_UpdatedAt := t\<rparr>
      in if canary \<and> post then oc' else to_reconciliation t oc')"

definition verify_all :: "bool \<Rightarrow> bool \<Rightarrow> gotime \<Rightarrow> string set \<Rightarrow> SyncState \<Rightarrow> SyncState" where
  "verify_all canary post t K s =
     s\<lparr>ss_Outcomes := (\<lambda>k. if k \<in> K then map_option (verify_outcome canary post t) (ss_Outcomes s k)
                           else ss_Outcomes s k)\<rparr>"

definition verifiable :: "KeyOutcome \<Rightarrow> bool" where
  "verifiable oc \<longleftrightarrow> ko_Status oc = OutcomeSucceeded \<and> ko_Metadata oc \<noteq> None
     \<and> validAcknowledgedHash (ko_AcknowledgedHash oc)"

lemma verify_key_all:
  assumes "ss_Outcomes s k = Some oc" and "verifiable oc"
  shows "verify_key c p t s k = (verify_all c p t {k} s, None)"
  using assms
  by (auto simp: verify_key_def verify_all_def verifiable_def verify_outcome_def put_outcome_def
      Let_def fun_eq_iff)

lemma verify_all_compose:
  "k \<notin> K \<Longrightarrow> verify_all c p t K (verify_all c p t {k} s) = verify_all c p t (insert k K) s"
  by (auto simp: verify_all_def fun_eq_iff)

lemma verify_loop:
  assumes "distinct ks" and "\<forall>k \<in> set ks. \<exists>oc. ss_Outcomes s k = Some oc \<and> verifiable oc"
  shows "loop_err (verify_key c p t) s ks = (verify_all c p t (set ks) s, None)"
  using assms
proof (induction ks arbitrary: s)
  case Nil
  then show ?case by (simp add: verify_all_def)
next
  case (Cons k ks)
  then obtain oc where k: "ss_Outcomes s k = Some oc" "verifiable oc" by auto
  have "\<forall>j \<in> set ks. \<exists>oc. ss_Outcomes (verify_all c p t {k} s) j = Some oc \<and> verifiable oc"
    using Cons.prems by (auto simp: verify_all_def)
  then have "loop_err (verify_key c p t) (verify_all c p t {k} s) ks =
      (verify_all c p t (set ks) (verify_all c p t {k} s), None)"
    using Cons.IH Cons.prems(1) by simp
  then show ?case
    using Cons.prems(1) by (simp add: verify_key_all [OF k] verify_all_compose)
qed

text \<open>While an operation waits for verification, each of its keys can be verified.\<close>

lemma awaiting_verifiable:
  assumes inv: "journal_inv s" and ph: "ss_Phase s = OperationPhaseAwaitingVerification"
    and oc: "oc \<in> op_outcome_set (ss_OperationID s) s"
  shows "verifiable oc"
    and "\<exists>md. ko_Metadata oc = Some md \<and> referencesRetained md \<and> \<not> generationPromoted md"
proof -
  obtain x where x: "x \<in> op_outcome_set (ss_OperationID s) s" "ko_Metadata x \<noteq> None"
    using inv ph by (auto simp: journal_inv_def wait_ok_def op_outcome_set_def)
  then obtain md where md: "ko_Metadata oc = Some md"
    using op_metadata_uniform [OF inv oc x(1)] by auto
  have "phase_ok OperationPhaseAwaitingVerification oc md"
    using op_outcome_ok [OF inv oc] md oc by (simp add: outcome_ok_def op_outcome_set_def ph)
  then show "verifiable oc"
    and "\<exists>md. ko_Metadata oc = Some md \<and> referencesRetained md \<and> \<not> generationPromoted md"
    using md not_retained_promoted by (auto simp: verifiable_def phase_ok_def)
qed

lemma set_owned_keys:
  "visits ord s \<Longrightarrow> set (owned_keys op s ord) = {k. owned_by op s k}"
  by (auto simp: owned_keys_def visits_def owned_by_def split: option.splits)

lemma distinct_owned_keys: "visits ord s \<Longrightarrow> distinct (owned_keys op s ord)"
  by (simp add: visits_def owned_keys_def)

lemma owned_keys_empty: "visits ord s \<Longrightarrow> owned_keys op s ord = [] \<longleftrightarrow> op_outcome_set op s = {}"
  by (metis length_0_conv length_op_outcomes set_empty set_op_outcomes)

lemma verified_metadata_simps [simp]:
  "referencesRetained (verified_metadata c p md) = referencesRetained md"
  "generationPromoted (verified_metadata c p md) = generationPromoted md"
  "md_Capability (verified_metadata c p md) = md_Capability md"
  "md_Attempts (verified_metadata c p md) = md_Attempts md"
  "md_Deadline (verified_metadata c p md) = md_Deadline md"
  "md_ReconciliationState (verified_metadata c p md) = md_ReconciliationState md"
  "validVerificationStates (verified_metadata c p md)"
  "verificationPassed (verified_metadata c p md) \<longleftrightarrow> c \<and> p"
  "verificationFailed (verified_metadata c p md) \<longleftrightarrow> \<not> (c \<and> p)"
  by (simp_all add: verified_metadata_def referencesRetained_def generationPromoted_def
      validVerificationStates_def verificationPassed_def verificationFailed_def)

lemma verify_outcome_simps [simp]:
  "ko_OperationID (verify_outcome c p t oc) = ko_OperationID oc"
  "ko_AcknowledgedHash (verify_outcome c p t oc) = ko_AcknowledgedHash oc"
  "(ko_Metadata (verify_outcome c p t oc) = None) = (ko_Metadata oc = None)"
  by (simp_all add: verify_outcome_def Let_def)

lemma verify_all_frame [simp]:
  "ss_OperationID (verify_all c p t K s) = ss_OperationID s"
  "ss_Phase (verify_all c p t K s) = ss_Phase s"
  "ss_CompletedAt (verify_all c p t K s) = ss_CompletedAt s"
  "ss_Hashes (verify_all c p t K s) = ss_Hashes s"
  "header_ok (verify_all c p t K s) = header_ok s"
  "dom (ss_Outcomes (verify_all c p t K s)) = dom (ss_Outcomes s)"
  by (auto simp: verify_all_def dom_def split: if_splits)

lemma verify_outcome_ok:
  assumes ok: "outcome_ok op OperationPhaseAwaitingVerification oc" and cur: "ko_OperationID oc = op"
    and md: "ko_Metadata oc = Some md"
  shows "outcome_ok op (if c \<and> p then OperationPhaseAwaitingVerification
      else OperationPhaseNeedsReconciliation) (verify_outcome c p t oc)"
proof -
  let ?md = "verified_metadata c p md"
  from ok cur md have ph: "phase_ok OperationPhaseAwaitingVerification oc md"
    and v: "validatePersisted md OutcomeSucceeded = None" and st: "ko_Status oc = OutcomeSucceeded"
    by (auto simp: outcome_ok_def phase_ok_def)
  have np: "\<not> generationPromoted md" using ph not_retained_promoted by (auto simp: phase_ok_def)
  show ?thesis
  proof (cases "c \<and> p")
    case True
    have "validateReconciliationState ?md OutcomeSucceeded = validateReconciliationState md OutcomeSucceeded"
      by (cases "md_ReconciliationState md") (simp_all add: validateReconciliationState_def)
    then have "validatePersisted ?md OutcomeSucceeded = None"
      using v np by (simp add: validatePersisted_None)
    moreover have "outcomeCapabilityAllowsSuccess (verify_outcome c p t oc) = outcomeCapabilityAllowsSuccess oc"
      using True md by (cases "md_Capability md") (simp_all add: verify_outcome_def
          outcomeCapabilityAllowsSuccess_def ownerRiskApproved_def Let_def)
    ultimately show ?thesis
      using True ok md cur st ph by (simp add: outcome_ok_def verify_outcome_def phase_ok_def Let_def)
  next
    case False
    have "validatePersisted (mark_reconciliation ?md) OutcomeNeedsReconciliation = None"
      using v np by (simp add: validatePersisted_None validateReconciliationState_mark)
    then show ?thesis
      using False ok md cur np by (auto simp: outcome_ok_def verify_outcome_def phase_ok_def Let_def)
  qed
qed

lemma verify_all_Outcomes:
  assumes "visits ord s"
  shows "ss_Outcomes (verify_all c p t (set (owned_keys op s ord)) s) =
    (\<lambda>k. map_option (\<lambda>oc. if ko_OperationID oc = op then verify_outcome c p t oc else oc) (ss_Outcomes s k))"
  by (auto simp: verify_all_def set_owned_keys [OF assms] owned_by_def fun_eq_iff split: option.split)

lemma op_outcome_setI: "ss_Outcomes s k = Some oc \<Longrightarrow> ko_OperationID oc = op \<Longrightarrow> oc \<in> op_outcome_set op s"
  by (auto simp: op_outcome_set_def)

lemma verify_all_inv:
  assumes inv: "journal_inv s" and vis: "visits ord s" and op: "op = ss_OperationID s"
    and ph: "ss_Phase s = OperationPhaseAwaitingVerification"
  shows "journal_inv ((verify_all c p t (set (owned_keys op s ord)) s)
    \<lparr>ss_Phase := if c \<and> p then OperationPhaseAwaitingVerification else OperationPhaseNeedsReconciliation,
      ss_CompletedAt := d\<rparr>)" (is "journal_inv ?s")
proof -
  let ?ph = "if c \<and> p then OperationPhaseAwaitingVerification else OperationPhaseNeedsReconciliation"
  have ok: "outcome_ok op ?ph (if ko_OperationID oc = op then verify_outcome c p t oc else oc)"
    if k: "ss_Outcomes s k = Some oc" for k oc
  proof (cases "ko_OperationID oc = op")
    case True
    then obtain md where "ko_Metadata oc = Some md"
      using awaiting_verifiable(2) [OF inv ph] op_outcome_setI [OF k] op by blast
    then show ?thesis
      using verify_outcome_ok [of op oc md c p t] outcomes_okD [OF inv k] True ph op by simp
  next
    case False
    then show ?thesis
      using outcomes_okD [OF inv k] op by (cases "ko_Metadata oc") (simp_all add: outcome_ok_def)
  qed
  have frame: "ss_OperationID ?s = op" "ss_Phase ?s = ?ph" "header_ok ?s"
    "ss_Outcomes ?s = (\<lambda>k. map_option (\<lambda>oc. if ko_OperationID oc = op then verify_outcome c p t oc else oc)
        (ss_Outcomes s k))"
    using inv op by (simp_all add: verify_all_Outcomes [OF vis] journal_inv_def)
  have uni: "metadata_uniform ?s"
    by (rule metadata_uniform_map [OF _ frame(4)]) (use inv op in \<open>simp_all add: journal_inv_def\<close>)
  have oks: "outcomes_ok ?s"
    by (rule outcomes_ok_map [OF frame(4)]) (simp only: frame ok)
  obtain k x where x: "ss_Outcomes s k = Some x" "ko_Metadata x \<noteq> None" "ko_OperationID x = op"
    using inv ph op by (auto simp: journal_inv_def wait_ok_def)
  then have "ss_Outcomes ?s k = Some (verify_outcome c p t x) \<and> ko_Metadata (verify_outcome c p t x) \<noteq> None
      \<and> ko_OperationID (verify_outcome c p t x) = ss_OperationID ?s"
    unfolding frame by simp
  then have "wait_ok ?s" unfolding wait_ok_def by blast
  moreover have "finite (dom (ss_Outcomes ?s))" using inv by (simp add: journal_inv_def)
  ultimately show ?thesis
    using uni oks frame(3) unfolding journal_inv_def by blast
qed

text \<open>What \<open>RecordOperationVerification\<close> does to an operation that waits for it.\<close>

lemma RecordOperationVerification_awaiting:
  assumes inv: "journal_inv s" and vis: "visits ord s" and op: "checkOperation s op = None"
    and ph: "ss_Phase s = OperationPhaseAwaitingVerification"
    and late: "late = deadline_passed op t s ord"
  shows "RecordOperationVerification ord ord' s op canary post t =
    (if canary \<and> post \<and> \<not> late
     then FinalizeOperation ord' (verify_all True True t (set (owned_keys op s ord)) s) op t
     else ((verify_all (canary \<and> \<not> late) (post \<and> \<not> late) t (set (owned_keys op s ord)) s)
        \<lparr>ss_Phase := OperationPhaseNeedsReconciliation, ss_CompletedAt := Some t\<rparr>,
        if late then Some ErrOperationDeadlineExceeded else None))"
proof -
  have cur: "op = ss_OperationID s" using op by (simp add: checkOperation_def split: if_splits)
  have "\<exists>oc. ss_Outcomes s k = Some oc \<and> verifiable oc" if "k \<in> set (owned_keys op s ord)" for k
    using that awaiting_verifiable(1) [OF inv ph] op_outcome_setI [of s k _ op] cur
    by (auto simp: owned_keys_def owned_by_def split: option.splits)
  then have loop: "loop_err (verify_key c p t) s (owned_keys op s ord) =
      (verify_all c p t (set (owned_keys op s ord)) s, None)" for c p
    using verify_loop [OF distinct_owned_keys [OF vis]] by blast
  have ne: "owned_keys op s ord \<noteq> []"
    using inv ph cur owned_keys_empty [OF vis, of op]
    by (auto simp: journal_inv_def wait_ok_def op_outcome_set_def)
  show ?thesis
    by (simp add: RecordOperationVerification_def op ph loop ne Let_def late [symmetric])
qed

lemma visits_cong: "dom (ss_Outcomes s') = dom (ss_Outcomes s) \<Longrightarrow> visits ord s' = visits ord s"
  by (simp add: visits_def)

lemma RecordOperationVerification_inv:
  assumes inv: "journal_inv s" and vis: "visits ord s" "visits ord' s"
  shows "journal_inv (fst (RecordOperationVerification ord ord' s op canary post t))"
proof (cases "checkOperation s op = None \<and> ss_Phase s = OperationPhaseAwaitingVerification")
  case True
  then have op: "op = ss_OperationID s" by (simp add: checkOperation_def split: if_splits)
  note ver = verify_all_inv [OF inv vis(1) op, where t = t]
  let ?ok = "verify_all True True t (set (owned_keys op s ord)) s"
  have same: "?ok\<lparr>ss_Phase := OperationPhaseAwaitingVerification, ss_CompletedAt := ss_CompletedAt s\<rparr> = ?ok"
    using True by (simp add: verify_all_def)
  have "journal_inv (?ok\<lparr>ss_Phase := OperationPhaseAwaitingVerification, ss_CompletedAt := ss_CompletedAt s\<rparr>)"
    using ver [where c = True and p = True and d = "ss_CompletedAt s"] True by simp
  then have "journal_inv ?ok" by (simp only: same)
  moreover have "visits ord' ?ok" using vis(2) visits_cong by (metis verify_all_frame(6))
  ultimately show ?thesis
    using True ver [where c = "canary \<and> \<not> deadline_passed op t s ord"
        and p = "post \<and> \<not> deadline_passed op t s ord" and d = "Some t"]
    by (auto simp: RecordOperationVerification_awaiting [OF inv vis(1) _ _ refl] FinalizeOperation_inv)
qed (auto simp: RecordOperationVerification_def inv split: option.split)

subsection \<open>Batches\<close>

text \<open>What recording one key leaves as it is.\<close>

definition same_operation :: "SyncState \<Rightarrow> SyncState \<Rightarrow> bool" where
  "same_operation s s' \<longleftrightarrow> ss_OperationID s' = ss_OperationID s \<and> dom (ss_Outcomes s') = dom (ss_Outcomes s)
     \<and> ss_Phase s' \<in> {ss_Phase s, OperationPhaseNeedsReconciliation}"

lemma same_operation_refl [simp]: "same_operation s s"
  by (simp add: same_operation_def)

lemma same_operation_put:
  assumes "ss_Outcomes s k = Some oc"
  shows "same_operation s (put_outcome s k x)"
    and "same_operation s (put_outcome (state_Update hc s secs) k x)"
    and "same_operation s ((put_outcome s k x)
      \<lparr>ss_Phase := OperationPhaseNeedsReconciliation, ss_CompletedAt := c\<rparr>)"
  using assms by (auto simp: same_operation_def)

lemma recordKeySuccess_frame: "same_operation s (fst (recordKeySuccess hc s op sec t))"
proof (cases "ownedOutcome s op sec")
  case (Inr oc)
  then obtain x where x: "sec = Some x" "ss_Outcomes s (sec_Key x) = Some oc"
    by (auto simp: ownedOutcome_Inr)
  note put = same_operation_put [OF x(2)]
  have "same_operation s (fst (reacknowledge hc s x oc))"
    "same_operation s (fst (rejectCapability s (sec_Key x) oc t e))"
    "same_operation s (acknowledge hc s x oc t)" for e
    using put by (simp_all add: reacknowledge_def rejectCapability_def acknowledge_def)
  then show ?thesis
    using Inr x by (cases "metadata_error oc"; cases "success_rejection oc t")
      (simp_all add: recordKeySuccess_def)
qed (simp add: recordKeySuccess_def)

lemma recordKeyNeedsReconciliation_frame:
  "ss_OperationID (fst (recordKeyNeedsReconciliation s op sec t)) = ss_OperationID s"
  by (auto simp: recordKeyNeedsReconciliation_def split: sum.split option.split)

lemma RecordSuccess_inv:
  assumes inv: "journal_inv s" and vis: "visits ord s" and hok: "hash_ok hc"
    and eph: "hc_ephemeral hc \<Longrightarrow> ss_Phase s \<noteq> OperationPhaseSucceeded"
  shows "journal_inv (fst (RecordSuccess hc ord s op secs t))"
proof (cases "first_err (checkOperation s op) (validateBatch s op secs OutcomeSucceeded)")
  case None
  then have op: "op = ss_OperationID s" by (simp add: checkOperation_def split: if_splits)
  let ?P = "\<lambda>s'. journal_inv s' \<and> ss_OperationID s' = op \<and> dom (ss_Outcomes s') = dom (ss_Outcomes s)
    \<and> (hc_ephemeral hc \<longrightarrow> ss_Phase s' \<noteq> OperationPhaseSucceeded)"
  have "?P (fst (loop_err (\<lambda>s sec. recordKeySuccess hc s op sec t) s secs))"
  proof (rule loop_err_inv)
    fix s' x assume P: "?P s'"
    then show "?P (fst (recordKeySuccess hc s' op x t))"
      using recordKeySuccess_inv [of s' hc op x t] recordKeySuccess_frame [of s' hc op x t] hok
      by (auto simp: same_operation_def)
  qed (use inv op eph in simp)
  then have "journal_inv (fst (and_then (loop_err (\<lambda>s sec. recordKeySuccess hc s op sec t) s secs)
      (\<lambda>s. FinalizeOperation ord s op t)))"
    using FinalizeOperation_inv [of _ ord op t] vis
    by (cases "loop_err (\<lambda>s sec. recordKeySuccess hc s op sec t) s secs"; cases "snd (loop_err (\<lambda>s sec. recordKeySuccess hc s op sec t) s secs)")
      (auto simp: visits_def)
  then show ?thesis using None by (simp add: RecordSuccess_def)
qed (simp add: RecordSuccess_def inv)

lemma RecordNeedsReconciliation_inv:
  assumes inv: "journal_inv s"
  shows "journal_inv (fst (RecordNeedsReconciliation s op secs t))"
proof (cases "first_err (checkOperation s op) (validateBatch s op secs OutcomeNeedsReconciliation)")
  case None
  then have op: "op = ss_OperationID s" by (simp add: checkOperation_def split: if_splits)
  let ?P = "\<lambda>s'. journal_inv s' \<and> ss_OperationID s' = op"
  have "?P (fst (loop_err (\<lambda>s sec. recordKeyNeedsReconciliation s op sec t) s secs))"
    by (rule loop_err_inv)
      (use inv op in \<open>auto simp: recordKeyNeedsReconciliation_inv recordKeyNeedsReconciliation_frame\<close>)
  then show ?thesis using None by (simp add: RecordNeedsReconciliation_def)
qed (simp add: RecordNeedsReconciliation_def inv)

subsection \<open>Starting an operation\<close>

text \<open>
  The id of a new operation is 128 random bits (\<open>newSyncOperationID\<close>); \<open>fresh_op\<close> is what is
  used of that: neither the journal nor any of its outcomes has that id yet.
\<close>

definition fresh_op :: "string \<Rightarrow> SyncState \<Rightarrow> bool" where
  "fresh_op op s \<longleftrightarrow> op \<noteq> ss_OperationID s \<and> (\<forall>k oc. ss_Outcomes s k = Some oc \<longrightarrow> ko_OperationID oc \<noteq> op)"

text \<open>An operation only starts when the generations of every earlier one are promoted.\<close>

lemma old_metadata_promoted:
  assumes inv: "journal_inv s" and vis: "visits ord s" and no: "\<not> hasRetainedMetadataOperation ord s"
    and k: "ss_Outcomes s k = Some oc" and md: "ko_Metadata oc = Some md"
  shows "generationPromoted md" and "ko_Status oc = OutcomeSucceeded"
proof -
  have ok: "outcome_ok (ss_OperationID s) (ss_Phase s) oc" by (rule outcomes_okD [OF inv k])
  show p: "generationPromoted md"
  proof (rule ccontr)
    assume np: "\<not> generationPromoted md"
    then have cur: "ko_OperationID oc = ss_OperationID s"
      using ok md by (simp add: outcome_ok_def validatePersisted_None)
    moreover have "ss_OperationID s \<noteq> []" "ss_Phase s \<noteq> OperationPhaseSucceeded"
      using ok md cur np by (auto simp: outcome_ok_def phase_ok_def)
    ultimately show False
      using no k md np by (force simp: hasRetainedMetadataOperation_def visits_ex [OF vis])
  qed
  then show "ko_Status oc = OutcomeSucceeded"
    using ok md by (simp add: outcome_ok_def validatePersisted_None)
qed

lemma new_metadata_ok:
  assumes v: "md_validate md started = None" and t: "0 \<le> started"
  shows "validatePersisted md OutcomePending = None" "\<not> generationPromoted md" "referencesRetained md"
proof -
  obtain d where d: "md_Deadline md = Some d" "started < d"
    using v by (cases "md_Deadline md") (auto simp: md_validate_def After_def split: if_splits)
  then have "\<not> IsZero d" using t by (simp add: IsZero_def)
  then show r: "referencesRetained md"
    using v d by (auto simp: md_validate_def referencesRetained_def After_def split: if_splits)
  then show "\<not> generationPromoted md" using not_retained_promoted by blast
  with r v show "validatePersisted md OutcomePending = None"
    by (auto simp: md_validate_def validatePersisted_None validVerificationStates_def
        validateReconciliationState_None split: if_splits)
qed

lemma pending_outcome_ok:
  assumes "op \<noteq> []" and "\<And>md'. md = Some md' \<Longrightarrow> md_validate md' started = None" and "0 \<le> started"
  shows "outcome_ok op OperationPhasePending (pending_outcome op started md)"
  using assms new_metadata_ok
  by (cases md) (auto simp: outcome_ok_def pending_outcome_def phase_ok_def)

text \<open>The outcomes after \<open>open_operation\<close>: the keys of the batch are pending, the rest is kept.\<close>

definition batch_keys :: "Secret option list \<Rightarrow> string set" where
  "batch_keys secrets = {sec_Key x | x. Some x \<in> set secrets}"

lemma open_operation_Outcomes:
  "ss_Outcomes (open_operation s op intent secrets started md) =
     (\<lambda>k. if k \<in> batch_keys secrets then Some (pending_outcome op started md) else ss_Outcomes s k)"
proof -
  let ?put = "\<lambda>m sec. case sec of None \<Rightarrow> m | Some x \<Rightarrow> m(sec_Key x \<mapsto> pending_outcome op started md)"
  have "foldl ?put m secrets =
      (\<lambda>k. if k \<in> batch_keys secrets then Some (pending_outcome op started md) else m k)" for m
  proof (induction secrets arbitrary: m)
    case (Cons a xs)
    then show ?case by (cases a) (auto simp: batch_keys_def fun_eq_iff)
  qed (simp add: batch_keys_def)
  then show ?thesis by (simp add: open_operation_def)
qed

lemma finite_batch_keys [simp]: "finite (batch_keys secrets)"
proof -
  have "batch_keys secrets \<subseteq> sec_Key ` the ` set secrets"
    by (force simp: batch_keys_def image_iff)
  then show ?thesis by (rule finite_subset) simp
qed

text \<open>\<open>retire_pending\<close> touches only outcomes without metadata, and leaves none of them pending.\<close>

lemma retire_outcome_simps [simp]:
  "ko_Metadata (retire_outcome prev t oc) = None \<longleftrightarrow> ko_Metadata oc = None"
  "ko_AcknowledgedHash (retire_outcome prev t oc) = ko_AcknowledgedHash oc"
  by (simp_all add: retire_outcome_def)

lemma retire_pending_Outcomes:
  "ss_Outcomes (retire_pending ord s t) = (\<lambda>k. map_option
     (\<lambda>oc. if operationPending ord s then retire_outcome (ss_OperationID s) t oc else oc) (ss_Outcomes s k))"
  by (simp add: retire_pending_def option.map_ident cong: map_option_cong)

lemma retire_pending_frame [simp]:
  "dom (ss_Outcomes (retire_pending ord s t)) = dom (ss_Outcomes s)"
  "header_ok (retire_pending ord s t) = header_ok s"
  by (auto simp: retire_pending_def)

lemma retired_outcome_ok:
  assumes inv: "journal_inv s" and vis: "visits ord s" and no: "\<not> hasRetainedMetadataOperation ord s"
    and k: "ss_Outcomes s k = Some oc" and fr: "fresh_op op s"
  shows "outcome_ok op ph (if operationPending ord s then retire_outcome (ss_OperationID s) t oc else oc)"
proof (cases "ko_Metadata oc")
  case None
  then show ?thesis
    using outcomes_okD [OF inv k] by (simp add: outcome_ok_def retire_outcome_def)
next
  case (Some md)
  note old = old_metadata_promoted [OF inv vis no k Some]
  have "retire_outcome (ss_OperationID s) t oc = oc" by (simp add: retire_outcome_def old)
  moreover have "\<not> referencesRetained md" using old(1) not_retained_promoted by blast
  ultimately show ?thesis
    using outcomes_okD [OF inv k] Some fr k by (auto simp: outcome_ok_def fresh_op_def)
qed

lemma retired_not_fresh:
  assumes "fresh_op op s" and "ss_Outcomes (retire_pending ord s t) k = Some x"
  shows "ko_OperationID x \<noteq> op"
proof -
  obtain y where y: "ss_Outcomes s k = Some y"
      "x = (if operationPending ord s then retire_outcome (ss_OperationID s) t y else y)"
    using assms(2) by (auto simp: retire_pending_Outcomes)
  then have "ko_OperationID x \<in> {ko_OperationID y, ss_OperationID s}"
    by (simp add: retire_outcome_def)
  moreover have "ko_OperationID y \<noteq> op" "ss_OperationID s \<noteq> op"
    using assms(1) y(1) unfolding fresh_op_def by metis+
  ultimately show ?thesis by auto
qed

lemma TrimSpace_Nil [simp]: "TrimSpace [] = []"
  by (simp add: TrimSpace_def)

lemma opened_outcome_ok:
  assumes inv: "journal_inv s" and vis: "visits ord s" and no: "\<not> hasRetainedMetadataOperation ord s"
    and fr: "fresh_op op s" and op: "op \<noteq> []"
    and val: "\<And>m. md = Some m \<Longrightarrow> md_validate m started = None" and t: "0 \<le> started"
    and k: "(if k \<in> K then Some (pending_outcome op started md)
      else ss_Outcomes (retire_pending ord s started) k) = Some oc"
  shows "outcome_ok op OperationPhasePending oc"
proof (cases "k \<in> K")
  case True
  with k show ?thesis using pending_outcome_ok [of op md started] op val t by simp
next
  case False
  with k obtain y where "ss_Outcomes s k = Some y"
    "oc = (if operationPending ord s then retire_outcome (ss_OperationID s) started y else y)"
    by (auto simp: retire_pending_Outcomes)
  then show ?thesis using retired_outcome_ok [OF inv vis no _ fr] by blast
qed

lemma beginOperation_inv:
  assumes inv: "journal_inv s" and vis: "visits ord s" and fr: "fresh_op op s" and t: "0 \<le> started"
  shows "journal_inv (fst (beginOperation ord s op intent secrets started metadata))"
proof (cases "snd (beginOperation ord s op intent secrets started metadata)")
  case None
  define md where "md = map_option normalize_metadata metadata"
  define s' where "s' = open_operation (retire_pending ord s started) op intent secrets started md"
  from None have no: "\<not> hasRetainedMetadataOperation ord s"
    and val: "\<And>m. md = Some m \<Longrightarrow> md_validate m started = None" and op: "op \<noteq> []"
    and eq: "fst (beginOperation ord s op intent secrets started metadata) = s'"
    by (auto simp: beginOperation_def Let_def md_def s'_def split: if_splits)
  have frame: "ss_OperationID s' = op" "ss_Phase s' = OperationPhasePending" "header_ok s'"
    using inv by (simp_all add: s'_def open_operation_def journal_inv_def)
  have out: "ss_Outcomes s' = (\<lambda>k. if k \<in> batch_keys secrets then Some (pending_outcome op started md)
      else ss_Outcomes (retire_pending ord s started) k)"
    by (simp add: s'_def open_operation_Outcomes)
  have "outcomes_ok s'"
    unfolding outcomes_ok_def frame out
    using opened_outcome_ok [OF inv vis no fr op val t] by blast
  moreover have "metadata_uniform s'"
    unfolding metadata_uniform_def frame out
    using retired_not_fresh [OF fr] by (intro exI [of _ "md \<noteq> None"]) (auto simp: pending_outcome_def)
  moreover have "finite (dom (ss_Outcomes s'))"
    by (rule finite_subset [of _ "batch_keys secrets \<union> dom (ss_Outcomes s)"])
      (use inv in \<open>auto simp: out journal_inv_def retire_pending_Outcomes\<close>)
  ultimately show ?thesis
    using frame by (simp add: eq journal_inv_def wait_ok_def)
next
  case (Some e)
  then have "fst (beginOperation ord s op intent secrets started metadata) = s"
    by (auto simp: beginOperation_def Let_def split: if_splits)
  then show ?thesis using inv by simp
qed

subsection \<open>The contract of the operations\<close>

text \<open>
  What the callers of the journal (\<open>internal/cli/sync.go\<close>) rely on: after any operation, with
  or without an error, the journal can be saved. \<open>pre\<close> is what the operation needs.
\<close>

locale journal_operation =
  fixes act :: "SyncState \<Rightarrow> SyncState \<times> SyncError option" and pre :: "SyncState \<Rightarrow> bool"
  assumes keeps_inv: "journal_inv s \<Longrightarrow> pre s \<Longrightarrow> journal_inv (fst (act s))"
begin

lemma saveable_after:
  "journal_inv s \<Longrightarrow> pre s \<Longrightarrow> act s = (s', e) \<Longrightarrow> visits ord s' \<Longrightarrow>
     validatePersistedOperationMetadata ord s' = None"
  using keeps_inv [of s] journal_inv_saveable [of s' ord] by simp

end

interpretation begin_op: journal_operation
  "\<lambda>s. beginOperation ord s op intent secrets started metadata"
  "\<lambda>s. visits ord s \<and> fresh_op op s \<and> 0 \<le> started" for ord op intent secrets started metadata
  by unfold_locales (simp add: beginOperation_inv)

interpretation key_success: journal_operation "\<lambda>s. RecordKeySuccess hc s op sec t"
  "\<lambda>s. hash_ok hc \<and> (hc_ephemeral hc \<longrightarrow> ss_Phase s \<noteq> OperationPhaseSucceeded)" for hc op sec t
  by unfold_locales
    (auto simp: RecordKeySuccess_def checkOperation_def recordKeySuccess_inv)

interpretation key_reconcile: journal_operation "\<lambda>s. RecordKeyNeedsReconciliation s op sec t" "\<lambda>_. True"
  for op sec t
  by unfold_locales
    (auto simp: RecordKeyNeedsReconciliation_def checkOperation_def recordKeyNeedsReconciliation_inv)

interpretation owner_risk: journal_operation "\<lambda>s. ApproveOwnerRiskReconciliation s op k t" "\<lambda>_. True"
  for op k t
  by unfold_locales (simp add: ApproveOwnerRiskReconciliation_inv)

interpretation finalize_op: journal_operation "\<lambda>s. FinalizeOperation ord s op t" "visits ord" for ord op t
  by unfold_locales (simp add: FinalizeOperation_inv)

interpretation batch_success: journal_operation "\<lambda>s. RecordSuccess hc ord s op secs t"
  "\<lambda>s. visits ord s \<and> hash_ok hc \<and> (hc_ephemeral hc \<longrightarrow> ss_Phase s \<noteq> OperationPhaseSucceeded)"
  for hc ord op secs t
  by unfold_locales (simp add: RecordSuccess_inv)

interpretation batch_reconcile: journal_operation "\<lambda>s. RecordNeedsReconciliation s op secs t" "\<lambda>_. True"
  for op secs t
  by unfold_locales (simp add: RecordNeedsReconciliation_inv)

interpretation verification: journal_operation
  "\<lambda>s. RecordOperationVerification ord ord' s op canary post t"
  "\<lambda>s. visits ord s \<and> visits ord' s" for ord ord' op canary post t
  by unfold_locales (simp add: RecordOperationVerification_inv)

lemma reset_hash_domain_inv: "journal_inv s \<Longrightarrow> journal_inv (reset_hash_domain hc s)"
  by (auto simp: reset_hash_domain_def journal_inv_def outcomes_ok_def metadata_uniform_def wait_ok_def
      header_ok_def)

lemma empty_SyncState_inv: "journal_inv (empty_SyncState target ident)"
  by (simp add: empty_SyncState_def journal_inv_def outcomes_ok_def metadata_uniform_def wait_ok_def
      header_ok_def)

subsection \<open>Every journal the operations can reach\<close>

text \<open>
  One step of a journal: an operation, the description of the operation that
  \<open>internal/cli/sync.go\<close> adds after starting it, or another process (with another hash key)
  loading the journal.
\<close>

inductive journal_step :: "SyncState \<Rightarrow> SyncState \<Rightarrow> bool" where
  step_begin: "visits ord s \<Longrightarrow> fresh_op op s \<Longrightarrow> 0 \<le> started \<Longrightarrow>
    journal_step s (fst (beginOperation ord s op intent secrets started metadata))"
| step_describe: "method = [] \<or> validOperationReference method \<Longrightarrow> length source \<le> 512 \<Longrightarrow> hash_ok hc \<Longrightarrow>
    journal_step s (s\<lparr>ss_OperationMethod := method, ss_SourceIdentity := source,
                      ss_SourceDigest := SourceDigest hc secs\<rparr>)"
| step_key_success: "hash_ok hc \<Longrightarrow> (hc_ephemeral hc \<longrightarrow> ss_Phase s \<noteq> OperationPhaseSucceeded) \<Longrightarrow>
    journal_step s (fst (RecordKeySuccess hc s op sec t))"
| step_key_reconcile: "journal_step s (fst (RecordKeyNeedsReconciliation s op sec t))"
| step_approve: "journal_step s (fst (ApproveOwnerRiskReconciliation s op k t))"
| step_finalize: "visits ord s \<Longrightarrow> journal_step s (fst (FinalizeOperation ord s op t))"
| step_success: "visits ord s \<Longrightarrow> hash_ok hc \<Longrightarrow>
    (hc_ephemeral hc \<longrightarrow> ss_Phase s \<noteq> OperationPhaseSucceeded) \<Longrightarrow>
    journal_step s (fst (RecordSuccess hc ord s op secs t))"
| step_reconcile: "journal_step s (fst (RecordNeedsReconciliation s op secs t))"
| step_verify: "visits ord s \<Longrightarrow> visits ord' s \<Longrightarrow>
    journal_step s (fst (RecordOperationVerification ord ord' s op canary post t))"
| step_load: "journal_step s (reset_hash_domain hc s)"

lemma journal_step_inv: "journal_step s s' \<Longrightarrow> journal_inv s \<Longrightarrow> journal_inv s'"
proof (induction rule: journal_step.induct)
  case (step_describe meth src hc s secs)
  then show ?case
    using SourceDigest_valid [of hc secs]
    by (simp add: journal_inv_def outcomes_ok_def metadata_uniform_def wait_ok_def header_ok_def)
qed (simp_all add: begin_op.keeps_inv key_success.keeps_inv key_reconcile.keeps_inv
    owner_risk.keeps_inv finalize_op.keeps_inv batch_success.keeps_inv batch_reconcile.keeps_inv
    verification.keeps_inv reset_hash_domain_inv)

interpretation journal: safe_system "\<lambda>s. \<exists>target ident. s = empty_SyncState target ident"
  journal_step journal_inv
  by unfold_locales (auto simp: empty_SyncState_inv intro: journal_step_inv)

end
