(* ===== verification/Sync_Journal_Theorems.thy ===== *)
theory Sync_Journal_Theorems
  imports Sync_Journal_Steps
begin

text \<open>
  The properties of the sync journal: what holds of every journal that starts empty and is
  changed by the operations of \<open>state.go\<close> only (\<open>reachable\<close>).
\<close>

abbreviation reachable :: "SyncState \<Rightarrow> bool" where
  "reachable s \<equiv> (\<exists>target ident. journal_step\<^sup>*\<^sup>* (empty_SyncState target ident) s)"

lemma reachable_inv: "reachable s \<Longrightarrow> journal_inv s"
  using journal.reachable_good by blast

text \<open>A small journal for the witnesses: one secret, one operation.\<close>

definition demo_hash :: hash_ctx where
  "demo_hash = \<lparr>hc_mac = (\<lambda>k m. replicate 32 CHR ''x''), hc_key = [], hc_ephemeral = False\<rparr>"

definition demo_secret :: Secret where
  "demo_secret = mk_Secret ''K'' ''v''"

definition demo_begun :: SyncState where
  "demo_begun = fst (BeginOperation [] (empty_SyncState ''github'' ''o/r'') ''op1'' [Some demo_secret] 5)"

definition demo_acked :: SyncState where
  "demo_acked = fst (RecordKeySuccess demo_hash demo_begun ''op1'' (Some demo_secret) 6)"

lemma demo_begun_eq: "demo_begun = (empty_SyncState ''github'' ''o/r'')
    \<lparr>ss_OperationID := ''op1'', ss_Phase := OperationPhasePending, ss_Intent := [],
     ss_StartedAt := Some 5, ss_CompletedAt := None,
     ss_Outcomes := [''K'' \<mapsto> pending_outcome ''op1'' 5 None]\<rparr>"
  by (simp add: demo_begun_def BeginOperation_def beginOperation_def hasRetainedMetadataOperation_def
      empty_SyncState_def open_operation_def retire_pending_def operationPending_def demo_secret_def
      TrimSpace_def space_runes_def HasPrefix_def)

lemma demo_hash_ok: "hash_ok demo_hash" "\<not> hc_ephemeral demo_hash"
  by (simp_all add: hash_ok_def demo_hash_def)

lemma demo_begun_reachable: "reachable demo_begun"
proof -
  have "journal_step (empty_SyncState ''github'' ''o/r'') demo_begun"
    unfolding demo_begun_def BeginOperation_def
    by (rule step_begin) (simp_all add: visits_def fresh_op_def empty_SyncState_def)
  then show ?thesis by blast
qed

lemma demo_acked_reachable: "reachable demo_acked"
proof -
  have "journal_step demo_begun demo_acked"
    unfolding demo_acked_def by (rule step_key_success) (simp_all add: demo_hash_ok)
  with demo_begun_reachable show ?thesis by (meson rtranclp.rtrancl_into_rtrancl)
qed

lemma demo_acked_eq: "demo_acked = (state_Update demo_hash demo_begun [demo_secret])
    \<lparr>ss_Outcomes := [''K'' \<mapsto> (pending_outcome ''op1'' 5 None)
       \<lparr>ko_Status := OutcomeSucceeded, ko_UpdatedAt := 6\<rparr>]\<rparr>"
  by (simp add: demo_acked_def demo_begun_eq RecordKeySuccess_def recordKeySuccess_def checkOperation_def
      ownedOutcome_def demo_secret_def TrimSpace_def space_runes_def HasPrefix_def metadata_error_def
      pending_outcome_def success_rejection_def acknowledge_def put_outcome_def empty_SyncState_def
      state_Update_def)

lemma demo_visits: "visits [''K''] demo_begun" "visits [''K''] demo_acked"
  by (simp_all add: visits_def demo_begun_eq demo_acked_eq empty_SyncState_def state_Update_def)

definition demo_two :: SyncState where
  "demo_two = fst (BeginOperation [] (empty_SyncState ''github'' ''o/r'') ''op1''
     [Some demo_secret, Some (mk_Secret ''L'' ''w'')] 5)"

lemma demo_two_reachable: "reachable demo_two"
proof -
  have "journal_step (empty_SyncState ''github'' ''o/r'') demo_two"
    unfolding demo_two_def BeginOperation_def
    by (rule step_begin) (simp_all add: visits_def fresh_op_def empty_SyncState_def)
  then show ?thesis by blast
qed

lemma demo_two_dom: "dom (ss_Outcomes demo_two) = {''K'', ''L''}"
  by (auto simp: demo_two_def BeginOperation_def beginOperation_def hasRetainedMetadataOperation_def
      empty_SyncState_def open_operation_def retire_pending_def operationPending_def demo_secret_def
      TrimSpace_def space_runes_def HasPrefix_def)

subsection \<open>Saving\<close>



text \<open>
  Saving is atomic. Whatever the file system does, the file afterwards is the old one or
  holds the whole journal, which the next load under the same key accepts unchanged; and a
  save that reports success has installed the new journal.
\<close>

lemma save_is_atomic:
  assumes "reachable s" and "visits ord s"
    and "SaveSyncState hc ord now io s disk = ((s', disk'), e)"
  shows "(disk' = disk \<and> e \<noteq> None) \<or>
    (s' = stamp_SyncState hc now s \<and> disk' = Some s' \<and> LoadSyncState hc ord (ss_Target s) (ss_ID s) disk' = Inr s')"
proof -
  let ?s = "stamp_SyncState hc now s"
  have inv: "journal_inv s" by (rule reachable_inv [OF assms(1)])
  then have "journal_inv ?s"
    by (simp add: stamp_SyncState_def journal_inv_def outcomes_ok_def metadata_uniform_def wait_ok_def
        header_ok_def)
  moreover have "visits ord ?s" using assms(2) by (simp add: visits_def stamp_SyncState_def)
  ultimately have v: "validatePersistedOperationMetadata ord ?s = None" by (rule journal_inv_saveable)
  have dom: "reset_hash_domain hc ?s = ?s" "ss_Target ?s = ss_Target s" "ss_ID ?s = ss_ID s"
    by (simp_all add: reset_hash_domain_def stamp_SyncState_def)
  then have "LoadSyncState hc ord (ss_Target s) (ss_ID s) (Some ?s) = Inr ?s"
    using v by (simp add: LoadSyncState_def)
  then show ?thesis
    using assms(3) journal_inv_saveable [OF inv assms(2)]
    by (cases io) (auto simp: SaveSyncState_def Let_def)
qed

lemma save_is_atomic_example:
  "let s' = stamp_SyncState demo_hash 9 demo_acked in
   SaveSyncState demo_hash [''K''] 9 SaveUnsynced demo_acked None
     = ((s', Some s'), Some (ErrText ''rename sync state''))
   \<and> LoadSyncState demo_hash [''K''] (ss_Target demo_acked) (ss_ID demo_acked) (Some s') = Inr s'"
proof -
  have "SaveSyncState demo_hash [''K''] 9 SaveUnsynced demo_acked None =
      ((stamp_SyncState demo_hash 9 demo_acked, Some (stamp_SyncState demo_hash 9 demo_acked)),
       Some (ErrText ''rename sync state''))"
    using journal_inv_saveable [OF reachable_inv [OF demo_acked_reachable] demo_visits(2)]
    by (simp add: SaveSyncState_def Let_def)
  with save_is_atomic [OF demo_acked_reachable demo_visits(2) this] show ?thesis
    by (simp add: Let_def)
qed

subsection \<open>Finishing an operation\<close>

text \<open>
  \<open>FinalizeOperation\<close> does not depend on the order in which Go's \<open>range\<close> visits the
  outcomes: any two orders give the same journal and the same error.
\<close>

lemma finalize_order_irrelevant:
  assumes "reachable s" and "visits ord s" and "visits ord' s"
  shows "FinalizeOperation ord s op t = FinalizeOperation ord' s op t"
  using FinalizeOperation_spec [OF reachable_inv [OF assms(1)]] assms(2,3) by simp

lemma finalize_order_irrelevant_example:
  "FinalizeOperation [''K'', ''L''] demo_two ''op1'' 7 = FinalizeOperation [''L'', ''K''] demo_two ''op1'' 7"
  by (rule finalize_order_irrelevant [OF demo_two_reachable])
    (auto simp: visits_def demo_two_dom)

text \<open>
  C28: \<open>FinalizeOperation\<close> marks the current operation as succeeded exactly when every key it
  owns has succeeded and, where the operation carries metadata, passed its verification.
  Then, and only then, the drift cache changes: it takes the acknowledged hash of every key
  with metadata (keys without metadata entered it when they were acknowledged), and an
  operation that was closed before is left alone.
\<close>

theorem finalize_success_iff:
  assumes "reachable s" and "visits ord s" and "ss_OperationID s \<noteq> []"
    and "op_outcome_set (ss_OperationID s) s \<noteq> {}"
    and "FinalizeOperation ord s (ss_OperationID s) t = (s', e)"
  shows "e = None \<and>
    (ss_Phase s' = OperationPhaseSucceeded \<longleftrightarrow>
       (\<forall>oc \<in> op_outcome_set (ss_OperationID s) s. ko_Status oc = OutcomeSucceeded \<and> \<not> unverified oc)) \<and>
    ss_Hashes s' = (if ss_Phase s' = OperationPhaseSucceeded \<and> ss_Phase s \<noteq> OperationPhaseSucceeded
      then (\<lambda>k. case ss_Outcomes s k of
          Some oc \<Rightarrow> if promotes (ss_OperationID s) oc then Some (ko_AcknowledgedHash oc) else ss_Hashes s k
        | None \<Rightarrow> ss_Hashes s k)
      else ss_Hashes s)"
proof -
  let ?S = "op_outcome_set (ss_OperationID s) s"
  have fv: "unverified oc" if "failed_verification oc" for oc
    using that verification_failed_not_passed by (auto simp: failed_verification_def unverified_def)
  have "(s', e) = finalize_spec ?S (ss_OperationID s) t s"
    using assms(5) FinalizeOperation_spec [OF reachable_inv [OF assms(1)] assms(2)] assms(3)
    by (simp add: checkOperation_def)
  moreover have "ss_Hashes (succeeded_state op t s) = (\<lambda>k. case ss_Outcomes s k of
      Some oc \<Rightarrow> if promotes op oc then Some (ko_AcknowledgedHash oc) else ss_Hashes s k
    | None \<Rightarrow> ss_Hashes s k)" for op
    by (auto simp: succeeded_state_def promote_all_def fun_eq_iff split: option.split)
  moreover have "ss_Phase (succeeded_state op t s) = OperationPhaseSucceeded" for op
    by (simp add: succeeded_state_def)
  ultimately show ?thesis
    using assms(4) fv unfolding finalize_spec_def by (auto split: if_splits)
qed

lemma demo_acked_ops: "op_outcome_set ''op1'' demo_acked = {(pending_outcome ''op1'' 5 None)
       \<lparr>ko_Status := OutcomeSucceeded, ko_UpdatedAt := 6\<rparr>}"
  by (auto simp: op_outcome_set_def demo_acked_eq pending_outcome_def)

lemma demo_acked_op: "ss_OperationID demo_acked = ''op1''"
  by (simp add: demo_acked_eq demo_begun_eq)

theorem finalize_success_iff_witness:
  "ss_Phase (fst (FinalizeOperation [''K''] demo_acked ''op1'' 7)) = OperationPhaseSucceeded"
  using finalize_success_iff [OF demo_acked_reachable demo_visits(2), of 7
      "fst (FinalizeOperation [''K''] demo_acked ''op1'' 7)" "snd (FinalizeOperation [''K''] demo_acked ''op1'' 7)"]
  by (simp add: demo_acked_op demo_acked_ops unverified_def pending_outcome_def)

lemma verify_all_op_outcomes:
  assumes "visits ord s"
  shows "op_outcome_set op (verify_all c p t (set (owned_keys op s ord)) s) =
    verify_outcome c p t ` op_outcome_set op s"
proof (intro set_eqI iffI)
  let ?g = "\<lambda>oc. if ko_OperationID oc = op then verify_outcome c p t oc else oc"
  note out = verify_all_Outcomes [OF assms, of c p t op]
  fix oc
  {
    assume "oc \<in> op_outcome_set op (verify_all c p t (set (owned_keys op s ord)) s)"
    then obtain k y where y: "ss_Outcomes s k = Some y" "oc = ?g y" "ko_OperationID oc = op"
      by (auto simp: op_outcome_set_def out)
    then have "ko_OperationID y = op" by (auto split: if_splits)
    with y show "oc \<in> verify_outcome c p t ` op_outcome_set op s" by (auto simp: op_outcome_set_def)
  next
    assume "oc \<in> verify_outcome c p t ` op_outcome_set op s"
    then obtain k y where y: "ss_Outcomes s k = Some y" "ko_OperationID y = op" "oc = verify_outcome c p t y"
      by (auto simp: op_outcome_set_def)
    then have "ss_Outcomes (verify_all c p t (set (owned_keys op s ord)) s) k = Some oc"
      by (simp add: out)
    with y show "oc \<in> op_outcome_set op (verify_all c p t (set (owned_keys op s ord)) s)"
      by (auto simp: op_outcome_set_def)
  }
qed

lemma op_outcome_set_phase [simp]:
  "op_outcome_set op (s\<lparr>ss_Phase := ph, ss_CompletedAt := c\<rparr>) = op_outcome_set op s"
  by (simp add: op_outcome_set_def)

text \<open>
  A verification result always closes an operation that waits for one: with both checks
  passed before the deadline it succeeds, otherwise every key goes to reconciliation, the
  drift cache stays as it was, and a missed deadline is reported as the error.
\<close>

lemma verification_concludes:
  assumes "reachable s" and "visits ord s" and "visits ord' s" and "ss_OperationID s \<noteq> []"
    and "ss_Phase s = OperationPhaseAwaitingVerification"
    and "RecordOperationVerification ord ord' s (ss_OperationID s) canary post t = (s', e)"
    and "late = deadline_passed (ss_OperationID s) t s ord"
  shows "(if canary \<and> post \<and> \<not> late
     then ss_Phase s' = OperationPhaseSucceeded \<and> e = None
     else ss_Phase s' = OperationPhaseNeedsReconciliation \<and> ss_Hashes s' = ss_Hashes s
        \<and> (\<forall>oc \<in> op_outcome_set (ss_OperationID s) s'. ko_Status oc = OutcomeNeedsReconciliation)
        \<and> e = (if late then Some ErrOperationDeadlineExceeded else None))"
proof -
  let ?op = "ss_OperationID s"
  have inv: "journal_inv s" by (rule reachable_inv [OF assms(1)])
  have chk: "checkOperation s ?op = None" using assms(4) by (simp add: checkOperation_def)
  note eq = RecordOperationVerification_awaiting [OF inv assms(2) chk assms(5,7), of ord' canary post]
  note out = verify_all_Outcomes [OF assms(2)]
  show ?thesis
  proof (cases "canary \<and> post \<and> \<not> late")
    case True
    let ?s = "verify_all True True t (set (owned_keys ?op s ord)) s"
    have "journal_inv (?s\<lparr>ss_Phase := OperationPhaseAwaitingVerification, ss_CompletedAt := ss_CompletedAt s\<rparr>)"
      using verify_all_inv [OF inv assms(2) refl assms(5), where c = True and p = True] by simp
    moreover have "?s\<lparr>ss_Phase := OperationPhaseAwaitingVerification, ss_CompletedAt := ss_CompletedAt s\<rparr> = ?s"
      using assms(5) by (simp add: verify_all_def)
    ultimately have inv': "journal_inv ?s" by (simp only:)
    have vis: "visits ord' ?s" using assms(3) visits_cong by (metis verify_all_frame(6))
    have good: "ko_Status oc = OutcomeSucceeded \<and> \<not> unverified oc \<and> \<not> failed_verification oc"
      if "oc \<in> op_outcome_set ?op ?s" for oc
      using that awaiting_verifiable(1) [OF inv assms(5)]
      by (auto simp: verify_all_op_outcomes [OF assms(2)] verify_outcome_def verifiable_def unverified_def
          failed_verification_def)
    have ne: "op_outcome_set ?op ?s \<noteq> {}"
      using inv' assms(5) by (auto simp: journal_inv_def wait_ok_def op_outcome_set_def)
    have "FinalizeOperation ord' ?s ?op t = (succeeded_state ?op t ?s, None)"
      using good ne assms(4,5) FinalizeOperation_spec [OF inv' vis, of ?op t]
      by (auto simp: finalize_spec_def checkOperation_def)
    then show ?thesis using True eq assms(6) by (auto simp: succeeded_state_def)
  next
    case False
    let ?c = "canary \<and> \<not> late" and ?p = "post \<and> \<not> late"
    have "\<forall>oc \<in> op_outcome_set ?op (verify_all ?c ?p t (set (owned_keys ?op s ord)) s).
        ko_Status oc = OutcomeNeedsReconciliation"
      using False by (auto simp: verify_all_op_outcomes [OF assms(2)] verify_outcome_def Let_def)
    then show ?thesis
      using False eq assms(6) by auto
  qed
qed

text \<open>The journal of an operation with metadata that waits for its verification.\<close>

definition demo_metadata :: OperationMetadata where
  "demo_metadata = \<lparr>md_OldGeneration = 1, md_CurrentGeneration = 1, md_IntendedGeneration = 2,
     md_LifecycleLabel = ''rotate'', md_KMSEnvelopeRef = ''kms:1'', md_Capability = CapabilityNativeCAS,
     md_Deadline = Some 100, md_Attempts = 0, md_ReconciliationState = ReconciliationStateUnset,
     md_CanaryState = VerificationStatePending, md_PostconditionState = VerificationStatePending\<rparr>"

definition demo_waiting :: SyncState where
  "demo_waiting = fst (RecordSuccess demo_hash [''K'']
     (fst (BeginOperationWithMetadata [] (empty_SyncState ''github'' ''o/r'') ''op1'' demo_metadata
        [Some demo_secret] 5)) ''op1'' [Some demo_secret] 6)"

lemma demo_waiting_begun:
  "BeginOperationWithMetadata [] (empty_SyncState ''github'' ''o/r'') ''op1'' demo_metadata
      [Some demo_secret] 5 =
   ((empty_SyncState ''github'' ''o/r'')
      \<lparr>ss_OperationID := ''op1'', ss_Phase := OperationPhasePending, ss_Intent := [],
       ss_StartedAt := Some 5, ss_CompletedAt := None,
       ss_Outcomes := [''K'' \<mapsto> pending_outcome ''op1'' 5 (Some demo_metadata)]\<rparr>, None)"
proof -
  have "normalize_metadata demo_metadata = demo_metadata"
    by (simp add: normalize_metadata_def demo_metadata_def)
  moreover have "md_validate demo_metadata 5 = None"
    by (simp add: md_validate_def demo_metadata_def validOperationReference_def reference_char_def
        is_lower_def is_upper_def is_digit_def less_eq_char_def After_def maxOperationAttempts_def
        word_le_nat_alt word_less_nat_alt)
  ultimately show ?thesis
    by (simp add: BeginOperationWithMetadata_def beginOperation_def hasRetainedMetadataOperation_def
        empty_SyncState_def open_operation_def retire_pending_def operationPending_def demo_secret_def
        TrimSpace_def space_runes_def HasPrefix_def Let_def)
qed

lemma demo_metadata_ok:
  "validatePersisted demo_metadata OutcomePending = None"
  "validatePersisted demo_metadata OutcomeSucceeded = None"
  "referencesRetained demo_metadata" "\<not> verificationPassed demo_metadata"
  "\<not> verificationFailed demo_metadata"
proof -
  show r: "referencesRetained demo_metadata"
    by (simp add: referencesRetained_def demo_metadata_def validOperationReference_def reference_char_def
        is_lower_def is_upper_def is_digit_def less_eq_char_def IsZero_def word_le_nat_alt word_less_nat_alt)
  then have "\<not> generationPromoted demo_metadata" using not_retained_promoted by blast
  with r show "validatePersisted demo_metadata OutcomePending = None"
    "validatePersisted demo_metadata OutcomeSucceeded = None"
    by (simp_all add: validatePersisted_None validateReconciliationState_None)
      (simp_all add: demo_metadata_def validVerificationStates_def maxOperationAttempts_def)
qed (simp_all add: demo_metadata_def verificationPassed_def verificationFailed_def)

lemma demo_waiting_reachable: "reachable demo_waiting"
proof -
  let ?s = "fst (BeginOperationWithMetadata [] (empty_SyncState ''github'' ''o/r'') ''op1'' demo_metadata
        [Some demo_secret] 5)"
  have "journal_step (empty_SyncState ''github'' ''o/r'') ?s"
    unfolding BeginOperationWithMetadata_def
    by (rule step_begin) (simp_all add: visits_def fresh_op_def empty_SyncState_def)
  moreover have "journal_step ?s demo_waiting"
    unfolding demo_waiting_def
    by (rule step_success) (simp_all add: demo_hash_ok visits_def demo_waiting_begun)
  ultimately show ?thesis by (meson rtranclp.rtrancl_into_rtrancl rtranclp.rtrancl_refl)
qed

lemma demo_waiting_eq: "demo_waiting = (empty_SyncState ''github'' ''o/r'')
    \<lparr>ss_OperationID := ''op1'', ss_Phase := OperationPhaseAwaitingVerification, ss_Intent := [],
     ss_StartedAt := Some 5, ss_CompletedAt := None,
     ss_Outcomes := [''K'' \<mapsto> (pending_outcome ''op1'' 5 (Some demo_metadata))
       \<lparr>ko_Status := OutcomeSucceeded, ko_UpdatedAt := 6, ko_AcknowledgedHash := hashSecret demo_hash ''v''\<rparr>]\<rparr>"
proof -
  have o: "ownedOutcome s ''op1'' (Some demo_secret) =
      (case ss_Outcomes s ''K'' of None \<Rightarrow> Inl ErrOperationKeyMismatch
       | Some oc \<Rightarrow> if ko_OperationID oc \<noteq> ''op1'' then Inl ErrOperationKeyMismatch else Inr oc)" for s
    by (simp add: ownedOutcome_def demo_secret_def TrimSpace_def space_runes_def HasPrefix_def)
  have c: "md_Capability demo_metadata = CapabilityNativeCAS" "md_Deadline demo_metadata = Some 100"
    by (simp_all add: demo_metadata_def)
  have demo_key: "sec_Key demo_secret = ''K''" "sec_Value demo_secret = ''v''"
    by (simp_all add: demo_secret_def)
  have h: "validAcknowledgedHash (hashSecret demo_hash ''v'')" by (rule hashSecret_valid [OF demo_hash_ok(1)])
  show ?thesis
    unfolding demo_waiting_def demo_waiting_begun fst_conv
    by (simp add: RecordSuccess_def checkOperation_def validateBatch_def
        o recordKeySuccess_def metadata_error_def pending_outcome_def demo_metadata_ok c h demo_key
        success_rejection_def After_def acknowledge_def put_outcome_def FinalizeOperation_def owned_keys_def
        owned_by_def finalize_key_def finalize_metadata_error_def demote_outcome_def
        outcomeCapabilityAllowsSuccess_def finalize_decide_def finalize_flags_def no_flags_def)
qed

lemma verification_concludes_example:
  "ss_Phase (fst (RecordOperationVerification [''K''] [''K''] demo_waiting ''op1'' True True 50))
     = OperationPhaseSucceeded
   \<and> ss_Phase (fst (RecordOperationVerification [''K''] [''K''] demo_waiting ''op1'' True True 101))
     = OperationPhaseNeedsReconciliation"
proof -
  have v: "visits [''K''] demo_waiting" by (simp add: visits_def demo_waiting_eq)
  have s: "ss_OperationID demo_waiting = ''op1''"
    "ss_Phase demo_waiting = OperationPhaseAwaitingVerification"
    by (simp_all add: demo_waiting_eq)
  have l: "deadline_passed ''op1'' 50 demo_waiting [''K''] = False"
    "deadline_passed ''op1'' 101 demo_waiting [''K''] = True"
    by (simp_all add: deadline_passed_def outcome_test_def demo_waiting_eq pending_outcome_def After_def
        demo_metadata_def)
  show ?thesis
    using verification_concludes [OF demo_waiting_reachable v v _ s(2) prod.collapse [symmetric] refl,
        of True True 50]
      verification_concludes [OF demo_waiting_reachable v v _ s(2) prod.collapse [symmetric] refl,
        of True True 101]
    by (simp add: s l)
qed

text \<open>
  \<open>RequiresReconciliation\<close> is the gate before any further provider request. When it lets an
  unfinished operation pass, the operation can be finished without one: every key it owns has
  succeeded, and \<open>FinalizeOperation\<close> closes it (or, with metadata, leaves it waiting for its
  verification).
\<close>

lemma recoverable_without_requests:
  assumes "reachable s" and "visits ord s" and "ss_OperationID s \<noteq> []"
    and "op_outcome_set (ss_OperationID s) s \<noteq> {}"
    and "ss_Phase s \<noteq> OperationPhaseSucceeded"
    and "\<not> RequiresReconciliation ord s"
    and "FinalizeOperation ord s (ss_OperationID s) t = (s', e)"
  shows "e = None
    \<and> (\<forall>oc \<in> op_outcome_set (ss_OperationID s) s. ko_Status oc = OutcomeSucceeded)
    \<and> ss_Phase s' = (if \<exists>oc \<in> op_outcome_set (ss_OperationID s) s. unverified oc
        then if \<exists>oc \<in> op_outcome_set (ss_OperationID s) s. failed_verification oc
          then OperationPhaseNeedsReconciliation else OperationPhaseAwaitingVerification
        else OperationPhaseSucceeded)"
proof -
  let ?S = "op_outcome_set (ss_OperationID s) s"
  have "ss_Phase s \<noteq> OperationPhaseNeedsReconciliation \<and> ss_Phase s \<noteq> OperationPhaseAwaitingVerification
      \<and> \<not> (\<exists>k oc. ss_Outcomes s k = Some oc \<and> ko_OperationID oc = ss_OperationID s
             \<and> ko_Status oc \<noteq> OutcomeSucceeded)"
    using assms(3,5,6) by (simp add: RequiresReconciliation_def visits_ex [OF assms(2)] split: if_splits)
  then have suc: "\<forall>oc \<in> ?S. ko_Status oc = OutcomeSucceeded" by (auto simp: op_outcome_set_def)
  have fv: "\<exists>oc \<in> ?S. failed_verification oc \<Longrightarrow> \<exists>oc \<in> ?S. unverified oc"
    using verification_failed_not_passed by (fastforce simp: failed_verification_def unverified_def)
  have "(s', e) = finalize_spec ?S (ss_OperationID s) t s"
    using assms(3,7) FinalizeOperation_spec [OF reachable_inv [OF assms(1)] assms(2)]
    by (simp add: checkOperation_def)
  then show ?thesis
    using suc fv assms(4,5) unfolding finalize_spec_def
    by (auto simp: succeeded_state_def split: if_splits)
qed

lemma recoverable_without_requests_example:
  "ss_Phase (fst (FinalizeOperation [''K''] demo_acked ''op1'' 8)) = OperationPhaseSucceeded"
proof -
  have "\<not> RequiresReconciliation [''K''] demo_acked" "ss_Phase demo_acked \<noteq> OperationPhaseSucceeded"
    by (simp_all add: RequiresReconciliation_def outcome_test_def demo_acked_eq demo_begun_eq)
  then show ?thesis
    using recoverable_without_requests [OF demo_acked_reachable demo_visits(2), of 8
        "fst (FinalizeOperation [''K''] demo_acked ''op1'' 8)" "snd (FinalizeOperation [''K''] demo_acked ''op1'' 8)"]
    by (simp add: demo_acked_op demo_acked_ops unverified_def pending_outcome_def)
qed

subsection \<open>Starting an operation\<close>

lemma retired_not_pending:
  assumes vis: "visits ord s"
    and k: "ss_Outcomes (retire_pending ord s started) k = Some oc"
    and cur: "ko_OperationID oc = ss_OperationID s" and op: "ss_OperationID s \<noteq> []"
  shows "ko_Status oc \<noteq> OutcomePending"
proof -
  from k obtain y where y: "ss_Outcomes s k = Some y"
    "oc = (if operationPending ord s then retire_outcome (ss_OperationID s) started y else y)"
    by (auto simp: retire_pending_Outcomes)
  show ?thesis
  proof (cases "operationPending ord s")
    case True
    then show ?thesis using y cur by (auto simp: retire_outcome_def split: if_splits)
  next
    case False
    then have "\<not> (\<exists>k oc. ss_Outcomes s k = Some oc \<and> ko_OperationID oc = ss_OperationID s
        \<and> ko_Status oc = OutcomePending)"
      using op by (simp add: operationPending_def visits_ex [OF vis] split: if_splits)
    then show ?thesis using y False cur by auto
  qed
qed

text \<open>
  A new operation starts only when no earlier one has unpromoted generations, and then it
  owns exactly the keys of its batch, all pending; the pending keys the previous operation
  leaves behind are handed over to reconciliation; the drift cache is not touched. A refused
  start changes nothing.
\<close>

lemma begin_operation_effect:
  assumes "reachable s" and "visits ord s" and "fresh_op op s"
    and "beginOperation ord s op intent secrets started metadata = (s', e)"
  shows "if e = None
    then \<not> hasRetainedMetadataOperation ord s
      \<and> (\<forall>k. owned_by op s' k \<longleftrightarrow> k \<in> batch_keys secrets)
      \<and> (\<forall>oc \<in> op_outcome_set op s'. ko_Status oc = OutcomePending)
      \<and> (\<forall>k oc. k \<notin> batch_keys secrets \<longrightarrow> ss_Outcomes s' k = Some oc \<longrightarrow>
           ko_OperationID oc = ss_OperationID s \<longrightarrow> ss_OperationID s \<noteq> [] \<longrightarrow> ko_Status oc \<noteq> OutcomePending)
      \<and> ss_Hashes s' = ss_Hashes s \<and> ss_Phase s' = OperationPhasePending
    else s' = s"
proof (cases e)
  case (Some x)
  then show ?thesis using assms(4) by (auto simp: beginOperation_def Let_def split: if_splits)
next
  case None
  let ?r = "retire_pending ord s started" and ?md = "map_option normalize_metadata metadata"
  have s': "s' = open_operation ?r op intent secrets started ?md"
    and ret: "\<not> hasRetainedMetadataOperation ord s"
    using assms(4) None by (auto simp: beginOperation_def Let_def split: if_splits)
  note out = open_operation_Outcomes [of ?r op intent secrets started ?md, folded s']
  have old: "ko_OperationID oc \<noteq> op" if "ss_Outcomes ?r k = Some oc" for k oc
    using retired_not_fresh [OF assms(3) that] .
  have own: "owned_by op s' k \<longleftrightarrow> k \<in> batch_keys secrets" for k
    using old [of k] by (auto simp: owned_by_def out pending_outcome_def split: option.split)
  have pend: "ko_Status oc = OutcomePending" if "oc \<in> op_outcome_set op s'" for oc
  proof -
    from that obtain k where k: "ss_Outcomes s' k = Some oc" "ko_OperationID oc = op"
      by (auto simp: op_outcome_set_def)
    have "ko_Status (pending_outcome op started ?md) = OutcomePending" by (simp add: pending_outcome_def)
    then show ?thesis using k old [of k oc] by (auto simp: out split: if_splits)
  qed
  note ret_st = retired_not_pending [OF assms(2), of started]
  have "ss_Hashes s' = ss_Hashes s" "ss_Phase s' = OperationPhasePending"
    by (simp_all add: s' open_operation_def retire_pending_def)
  then show ?thesis
    using None ret own pend ret_st by (auto simp: out)
qed

lemma begin_operation_effect_example:
  "owned_by ''op2'' (fst (beginOperation [''K''] demo_begun ''op2'' [] [Some (mk_Secret ''M'' ''x'')] 9 None)) ''M''
   \<and> \<not> owned_by ''op2'' (fst (beginOperation [''K''] demo_begun ''op2'' [] [Some (mk_Secret ''M'' ''x'')] 9 None)) ''K''"
proof -
  let ?b = "beginOperation [''K''] demo_begun ''op2'' [] [Some (mk_Secret ''M'' ''x'')] 9 None"
  have "snd ?b = None"
    by (simp add: beginOperation_def hasRetainedMetadataOperation_def outcome_test_def demo_begun_eq
        pending_outcome_def TrimSpace_def space_runes_def HasPrefix_def)
  moreover have "fresh_op ''op2'' demo_begun"
    by (simp add: fresh_op_def demo_begun_eq pending_outcome_def)
  ultimately show ?thesis
    using begin_operation_effect [OF demo_begun_reachable demo_visits(1) _ prod.collapse [symmetric],
        of "''op2''" "[]" "[Some (mk_Secret ''M'' ''x'')]" 9 None]
    by (auto simp: batch_keys_def)
qed

subsection \<open>Drift detection\<close>

text \<open>
  The source digest of a batch identifies the batch as a multiset: the order in which the
  provider lists the secrets does not matter.
\<close>

lemma source_digest_order_irrelevant:
  assumes "mset secs = mset secs'"
  shows "SourceDigest hc secs = SourceDigest hc secs'"
proof -
  have "mset (map (source_pair hc) secs) = mset (map (source_pair hc) secs')" using assms by simp
  then have "sort (map (source_pair hc) secs) = sort (map (source_pair hc) secs')"
    by (metis mset_sort properties_for_sort sorted_sort)
  then show ?thesis by (simp add: SourceDigest_def)
qed

lemma source_digest_order_irrelevant_example:
  "SourceDigest demo_hash [Some demo_secret, None] = SourceDigest demo_hash [None, Some demo_secret]"
  by (rule source_digest_order_irrelevant) simp

lemma state_Update_lookup:
  assumes "distinct (map sec_Key secs)"
  shows "ss_Hashes (state_Update hc s secs) k =
    (case find (\<lambda>x. sec_Key x = k) secs of Some x \<Rightarrow> Some (hashSecret hc (sec_Value x))
     | None \<Rightarrow> ss_Hashes s k)"
proof -
  have "foldl (\<lambda>m sec. m(sec_Key sec \<mapsto> hashSecret hc (sec_Value sec))) m secs k =
      (case find (\<lambda>x. sec_Key x = k) secs of Some x \<Rightarrow> Some (hashSecret hc (sec_Value x)) | None \<Rightarrow> m k)" for m
    using assms
  proof (induction secs arbitrary: m)
    case (Cons a xs)
    have "sec_Key a = k \<Longrightarrow> find (\<lambda>x. sec_Key x = k) xs = None"
      using Cons.prems by (force simp: find_None_iff image_iff)
    then show ?case using Cons by (auto split: option.splits)
  qed simp
  then show ?thesis by (simp add: state_Update_def)
qed

text \<open>
  After a batch with distinct keys is recorded in the drift cache, \<open>FilterUnchanged\<close> lets a
  secret through exactly when its keyed hash differs from that of the value recorded for its
  key, or, for a key outside the batch, when it did so before.
\<close>

lemma filter_unchanged_after_update:
  assumes "distinct (map sec_Key secs)"
  shows "FilterUnchanged hc (state_Update hc s secs) ys =
    filter (\<lambda>y. case find (\<lambda>x. sec_Key x = sec_Key y) secs of
        Some x \<Rightarrow> hashSecret hc (sec_Value x) \<noteq> hashSecret hc (sec_Value y)
      | None \<Rightarrow> FilterUnchanged hc s [y] \<noteq> []) ys"
  unfolding FilterUnchanged_def
  by (rule filter_cong) (simp_all add: state_Update_lookup [OF assms] split: option.split)

lemma filter_unchanged_after_update_example:
  "FilterUnchanged demo_hash (state_Update demo_hash demo_begun [demo_secret]) [demo_secret] = []"
  using filter_unchanged_after_update [of "[demo_secret]" demo_hash demo_begun "[demo_secret]"]
  by simp

end
