(* ===== verification/Name_Collisions.thy ===== *)
theory Name_Collisions
  imports Provider_Types
begin

text \<open>
  The guard against silently losing a secret: several keys may map to one name at a
  destination. Three functions run the same loop over \<open>nameToKey\<close>,
  \<open>ValidateDestinationMapping\<close> (\<open>syncer/syncer.go\<close>), \<open>DotenvSyncer.Sync\<close>
  (\<open>syncer/dotenv.go\<close>) and \<open>DetectEnvNameCollisions\<close> (\<open>exec/exec.go\<close>); \<open>collision_loop\<close> is that
  loop, and \<open>name_guard\<close> the contract their callers rely on.
\<close>

fun collision_loop ::
    "(string \<Rightarrow> string) \<Rightarrow> (string \<rightharpoonup> string) \<Rightarrow> string list \<Rightarrow> (string \<times> string \<times> string) option" where
  "collision_loop nm m [] = None"
| "collision_loop nm m (k # ks) =
     (case m (nm k) of
        Some prev \<Rightarrow> if prev \<noteq> k then Some (nm k, prev, k)
                     else collision_loop nm (m(nm k \<mapsto> k)) ks
      | None \<Rightarrow> collision_loop nm (m(nm k \<mapsto> k)) ks)"

text \<open>\<open>m\<close> records, for each name, the one key seen so far.\<close>

lemma collision_loop_None:
  assumes "\<forall>n k. m n = Some k \<longrightarrow> nm k = n"
  shows "collision_loop nm m ks = None \<longleftrightarrow>
    inj_on nm (set ks) \<and> (\<forall>k \<in> set ks. m (nm k) \<in> {None, Some k})"
  using assms
proof (induction ks arbitrary: m)
  case (Cons k ks)
  have "\<forall>n j. (m(nm k \<mapsto> k)) n = Some j \<longrightarrow> nm j = n" using Cons.prems by simp
  then have IH: "collision_loop nm (m(nm k \<mapsto> k)) ks = None \<longleftrightarrow>
      inj_on nm (set ks) \<and> (\<forall>j \<in> set ks. (m(nm k \<mapsto> k)) (nm j) \<in> {None, Some j})"
    by (rule Cons.IH)
  have step: "collision_loop nm m (k # ks) = None \<longleftrightarrow>
      m (nm k) \<in> {None, Some k} \<and> collision_loop nm (m(nm k \<mapsto> k)) ks = None"
    by (auto split: option.split)
  show ?case
  proof (cases "m (nm k) \<in> {None, Some k}")
    case True
    then have "(\<forall>j \<in> set ks. (m(nm k \<mapsto> k)) (nm j) \<in> {None, Some j}) \<longleftrightarrow>
        (\<forall>j \<in> set ks. (nm j = nm k \<longrightarrow> j = k) \<and> m (nm j) \<in> {None, Some j})"
      by (auto split: if_splits)
    with True show ?thesis unfolding step IH by (auto simp: inj_on_def)
  next
    case False
    then show ?thesis unfolding step by auto
  qed
qed simp

lemma collision_loop_Some:
  assumes "\<forall>n k. m n = Some k \<longrightarrow> nm k = n \<and> k \<in> K"
    and "collision_loop nm m ks = Some (n, a, b)"
  shows "a \<noteq> b \<and> nm a = n \<and> nm b = n \<and> a \<in> K \<union> set ks \<and> b \<in> set ks"
  using assms
proof (induction ks arbitrary: m K)
  case (Cons k ks)
  have m': "\<forall>n j. (m(nm k \<mapsto> k)) n = Some j \<longrightarrow> nm j = n \<and> j \<in> insert k K"
    using Cons.prems(1) by simp
  show ?case
  proof (cases "collision_loop nm (m(nm k \<mapsto> k)) ks = Some (n, a, b)")
    case True
    from Cons.IH [OF m' this] show ?thesis by (simp only: set_simps) blast
  next
    case False
    with Cons.prems(2) have "n = nm k" "m (nm k) = Some a" "a \<noteq> k" "b = k"
      by (auto split: option.splits if_splits)
    with Cons.prems(1) show ?thesis by simp
  qed
qed simp

lemma collision_loop_correct: "collision_loop nm Map.empty ks = None \<longleftrightarrow> inj_on nm (set ks)"
  by (subst collision_loop_None) auto

text \<open>
  The contract: \<open>check\<close> accepts a list of keys exactly when \<open>nm\<close> gives distinct keys distinct
  names. A client then loses no secret by storing under the name what belongs to the key.
\<close>

locale name_guard =
  fixes check :: "string list \<Rightarrow> 'e option" and nm :: "string \<Rightarrow> string"
  assumes check_inj: "check ks = None \<longleftrightarrow> inj_on nm (set ks)"
begin

lemma distinct_names: "check ks = None \<Longrightarrow> distinct ks \<Longrightarrow> distinct (map nm ks)"
  by (simp add: check_inj distinct_map)

lemma no_secret_lost:
  "check (map fst kvs) = None \<Longrightarrow> distinct (map fst kvs) \<Longrightarrow> (k, v) \<in> set kvs \<Longrightarrow>
     map_of (map (\<lambda>(k, v). (nm k, v)) kvs) (nm k) = Some v"
proof -
  assume "check (map fst kvs) = None" "distinct (map fst kvs)" and kv: "(k, v) \<in> set kvs"
  then have "distinct (map nm (map fst kvs))" using distinct_names by blast
  then have "distinct (map fst (map (\<lambda>(k, v). (nm k, v)) kvs))" by (simp add: case_prod_beta comp_def)
  moreover from kv have "(nm k, v) \<in> set (map (\<lambda>(k, v). (nm k, v)) kvs)" by force
  ultimately show ?thesis by (simp add: map_of_eq_Some_iff)
qed

end

subsection \<open>Destination names\<close>

text \<open>\<open>SecretName\<close> (\<open>syncer/github.go\<close>): what follows the last \<open>/\<close> of the key.\<close>

definition SecretName :: "string \<Rightarrow> string" where
  "SecretName key = rev (takeWhile (\<lambda>c. c \<noteq> CHR ''/'') (rev key))"

lemma SecretName_no_slash: "CHR ''/'' \<notin> set (SecretName key)"
  by (auto simp: SecretName_def dest: set_takeWhileD)

lemma SecretName_append: "CHR ''/'' \<notin> set n \<Longrightarrow> SecretName (p @ CHR ''/'' # n) = n"
  by (subst SecretName_def, simp, subst takeWhile_append2) auto

lemma SecretName_plain: "CHR ''/'' \<notin> set n \<Longrightarrow> SecretName n = n"
proof -
  assume "CHR ''/'' \<notin> set n"
  then have "takeWhile (\<lambda>c. c \<noteq> CHR ''/'') (rev n) = rev n"
    unfolding takeWhile_eq_all_conv by auto
  then show ?thesis unfolding SecretName_def by (simp only: rev_rev_ident)
qed

datatype mapping_error =
    NilSecret
  | SameName string string string

definition keyed_targets :: "string list" where
  "keyed_targets = [''github'', ''cloudflare'', ''gitlab'', ''terraform'', ''k8s'', ''k8s-manifest'']"

fun mapping_loop :: "(string \<rightharpoonup> string) \<Rightarrow> Secret option list \<Rightarrow> mapping_error option" where
  "mapping_loop m [] = None"
| "mapping_loop m (None # xs) = Some NilSecret"
| "mapping_loop m (Some x # xs) =
     (case m (SecretName (sec_Key x)) of
        Some prev \<Rightarrow> if prev \<noteq> sec_Key x then Some (SameName (SecretName (sec_Key x)) prev (sec_Key x))
                     else mapping_loop (m(SecretName (sec_Key x) \<mapsto> sec_Key x)) xs
      | None \<Rightarrow> mapping_loop (m(SecretName (sec_Key x) \<mapsto> sec_Key x)) xs)"

definition ValidateDestinationMapping ::
    "string \<Rightarrow> Secret option list \<Rightarrow> mapping_error option" where
  "ValidateDestinationMapping target secrets =
     (if target \<notin> set keyed_targets then None else mapping_loop Map.empty secrets)"

lemma mapping_loop_collision:
  "mapping_loop m (map Some xs) =
     map_option (\<lambda>(n, a, b). SameName n a b) (collision_loop SecretName m (map sec_Key xs))"
  by (induction xs arbitrary: m) (auto split: option.split)

interpretation destination_guard: name_guard
  "\<lambda>ks. ValidateDestinationMapping ''github'' (map (\<lambda>k. Some (mk_Secret k [])) ks)" SecretName
proof
  fix ks
  have "map (\<lambda>k. Some (mk_Secret k [])) ks = map Some (map (\<lambda>k. mk_Secret k []) ks)" by simp
  then have "ValidateDestinationMapping ''github'' (map (\<lambda>k. Some (mk_Secret k [])) ks) =
      map_option (\<lambda>(n, a, b). SameName n a b) (collision_loop SecretName Map.empty ks)"
    by (simp only: ValidateDestinationMapping_def mapping_loop_collision)
      (simp add: keyed_targets_def comp_def)
  then show "(ValidateDestinationMapping ''github'' (map (\<lambda>k. Some (mk_Secret k [])) ks) = None) =
      inj_on SecretName (set ks)"
    by (simp add: collision_loop_correct)
qed

text \<open>
  C39: for the targets keyed by name, the guard before any provider request accepts a batch
  exactly when no secret is nil and distinct source keys have distinct destination names.
\<close>

theorem destination_mapping_exact:
  assumes "target \<in> set keyed_targets"
  shows "ValidateDestinationMapping target secrets = None \<longleftrightarrow>
    None \<notin> set secrets \<and> inj_on SecretName {sec_Key x | x. Some x \<in> set secrets}"
proof (cases "None \<in> set secrets")
  case True
  then have "mapping_loop m secrets \<noteq> None" for m
  proof (induction secrets arbitrary: m)
    case (Cons a xs)
    then show ?case by (cases a) (auto split: option.split)
  qed simp
  with True assms show ?thesis by (simp add: ValidateDestinationMapping_def)
next
  case False
  then obtain xs where xs: "secrets = map Some xs" by (metis ex_map_conv not_None_eq)
  then have "{sec_Key x | x. Some x \<in> set secrets} = set (map sec_Key xs)" by auto
  with False assms show ?thesis
    by (simp add: ValidateDestinationMapping_def xs mapping_loop_collision collision_loop_correct)
qed

theorem destination_mapping_exact_witness:
  "ValidateDestinationMapping ''github''
     [Some (mk_Secret ''/a/K'' ''1''), Some (mk_Secret ''/b/K'' ''2'')] \<noteq> None"
proof -
  have "SecretName ''/a/K'' = ''K''" "SecretName ''/b/K'' = ''K''" by (simp_all add: SecretName_def)
  then have "\<not> inj_on SecretName {''/a/K'', ''/b/K''}" by (simp add: inj_on_def)
  moreover have "{sec_Key x | x. Some x \<in>
      set [Some (mk_Secret ''/a/K'' ''1''), Some (mk_Secret ''/b/K'' ''2'')]} = {''/a/K'', ''/b/K''}"
    by (auto intro: exI [of _ "mk_Secret ''/a/K'' ''1''"] exI [of _ "mk_Secret ''/b/K'' ''2''"])
  ultimately show ?thesis
    using destination_mapping_exact [of "''github''"
        "[Some (mk_Secret ''/a/K'' ''1''), Some (mk_Secret ''/b/K'' ''2'')]"]
    by (simp only:) (simp add: keyed_targets_def)
qed

end
