(* ===== verification/Durable_File.thy ===== *)
theory Durable_File
  imports Go_Prelude
begin

text \<open>
  Writing a file so that a reader sees the old or the new content and nothing else:
  \<open>atomicWrite\<close> (\<open>src/internal/syncer/atomic.go\<close>) and \<open>durableReplace\<close>
  (\<open>src/internal/syncer/durable_replace_unix.go\<close>).

  A directory is a map from file names to contents. The system calls can fail; \<open>disk_faults\<close>
  says which of them do (\<open>df_write\<close>: after how many bytes the write stops). The functions
  return the directories after each system call, oldest first, so that a crash between two
  calls is a prefix of the trace; the last entry is the state when the call returns.
\<close>

type_synonym directory = "string \<rightharpoonup> string"

record disk_faults =
  df_create :: bool
  df_write :: "nat option"
  df_chmod :: bool
  df_sync :: bool
  df_close :: bool
  df_rename :: bool
  df_dirsync :: bool

definition no_faults :: disk_faults where
  "no_faults = \<lparr>df_create = False, df_write = None, df_chmod = False, df_sync = False,
     df_close = False, df_rename = False, df_dirsync = False\<rparr>"

definition durableReplace ::
    "disk_faults \<Rightarrow> directory \<Rightarrow> string \<Rightarrow> string \<Rightarrow> directory list \<times> string option" where
  "durableReplace f d source target =
     (if df_rename f then ([], Some ''rename'')
      else ([d(target := d source, source := None)],
            if df_dirsync f then Some ''sync parent directory'' else None))"

text \<open>The steps of \<open>atomicWrite\<close> after the temporary file is closed.\<close>

definition install_temp ::
    "disk_faults \<Rightarrow> directory \<Rightarrow> string \<Rightarrow> string \<Rightarrow> directory list \<times> string option" where
  "install_temp f d tmp target = (case durableReplace f d tmp target of
      (ds, None) \<Rightarrow> (ds, None)
    | (ds, Some e) \<Rightarrow> (ds @ [(last (d # ds))(tmp := None)], Some ''rename''))"

definition atomicWrite ::
    "disk_faults \<Rightarrow> directory \<Rightarrow> string \<Rightarrow> string \<Rightarrow> string \<Rightarrow> directory list \<times> string option" where
  "atomicWrite f d tmp target content =
     (if df_create f then ([], Some ''create temp'')
      else let d1 = d(tmp \<mapsto> []) in
        case df_write f of
          Some n \<Rightarrow> ([d1, d(tmp \<mapsto> take n content), d(tmp := None)], Some ''write'')
        | None \<Rightarrow>
            let d2 = d(tmp \<mapsto> content); ds = [d1, d2] in
            if df_chmod f then (ds @ [d(tmp := None)], Some ''chmod'')
            else if df_sync f then (ds @ [d(tmp := None)], Some ''sync'')
            else if df_close f then (ds @ [d(tmp := None)], Some ''close'')
            else (case install_temp f d2 tmp target of (ds', e) \<Rightarrow> (ds @ ds', e)))"

lemma atomicWrite_trace:
  assumes tmp: "d tmp = None" "tmp \<noteq> target"
    and r: "atomicWrite f d tmp target content = (ds, e)"
  shows "d' \<in> set ds \<Longrightarrow> d' target \<in> {d target, Some content}"
    and "last (d # ds) = (if e = None then d(target \<mapsto> content) else last (d # ds))"
    and "last (d # ds) \<in> {d, d(target \<mapsto> content)}"
proof -
  have same: "d(tmp := None) = d" using tmp(1) by auto
  have new: "d(tmp \<mapsto> content, target \<mapsto> content, tmp := None) = d(target \<mapsto> content)"
    "d(tmp \<mapsto> content, target := d tmp, tmp := None) = d(target := d tmp)"
    using tmp by (auto simp: fun_eq_iff)
  show "d' \<in> set ds \<Longrightarrow> d' target \<in> {d target, Some content}"
    using r tmp by (auto simp: atomicWrite_def install_temp_def durableReplace_def Let_def
        split: if_splits option.splits)
  show "last (d # ds) = (if e = None then d(target \<mapsto> content) else last (d # ds))"
    using r tmp new by (auto simp: atomicWrite_def install_temp_def durableReplace_def Let_def
        split: if_splits option.splits)
  show "last (d # ds) \<in> {d, d(target \<mapsto> content)}"
    using r tmp same new by (auto simp: atomicWrite_def install_temp_def durableReplace_def Let_def
        split: if_splits option.splits)
qed



end
