(* ===== verification/Dotenv_Codec.thy ===== *)
theory Dotenv_Codec
  imports Name_Collisions Durable_File
begin

text \<open>
  The \<open>.env\<close> line format: the codec \<open>src/internal/dotenv/dotenv.go\<close>, the writer
  \<open>DotenvSyncer.Sync\<close> (\<open>src/internal/syncer/dotenv.go\<close>) and the reader
  \<open>DotenvImporter.Import\<close> (\<open>src/internal/importer/dotenv.go\<close>) with the part of \<open>bufio.Scanner\<close>
  it uses: lines end at a newline, a carriage return before it is dropped, and a line of 64 KiB
  or more is an error.
\<close>

subsection \<open>The codec\<close>

abbreviation tab :: char where "tab \<equiv> CHR 0x09"
abbreviation newline :: char where "newline \<equiv> CHR 0x0A"
abbreviation carriage :: char where "carriage \<equiv> CHR 0x0D"
abbreviation dquote :: char where "dquote \<equiv> CHR 0x22"
abbreviation squote :: char where "squote \<equiv> CHR 0x27"
abbreviation backslash :: char where "backslash \<equiv> CHR 0x5C"

definition quote_chars :: string where
  "quote_chars = [CHR '' '', tab, carriage, newline, dquote, squote, CHR 0x60, CHR ''#'', CHR ''='',
     CHR ''$'', backslash]"

definition needsQuoting :: "string \<Rightarrow> bool" where
  "needsQuoting v = (if v = [] then True else ContainsAny v quote_chars)"

definition escape_byte :: "char \<Rightarrow> string" where
  "escape_byte c =
     (if c = backslash then [backslash, backslash]
      else if c = dquote then [backslash, dquote]
      else if c = newline then [backslash, CHR ''n'']
      else if c = carriage then [backslash, CHR ''r'']
      else if c = tab then [backslash, CHR ''t'']
      else [c])"

definition Encode :: "string \<Rightarrow> string \<Rightarrow> string" where
  "Encode key val =
     (if \<not> needsQuoting val then key @ ''='' @ val
      else key @ ''='' @ [dquote] @ concat (map escape_byte val) @ [dquote])"

definition unescape_byte :: "char \<Rightarrow> string" where
  "unescape_byte c =
     (if c = CHR ''n'' then [newline]
      else if c = CHR ''r'' then [carriage]
      else if c = CHR ''t'' then [tab]
      else if c = backslash then [backslash]
      else if c = dquote then [dquote]
      else [backslash, c])"

fun unescape_bytes :: "string \<Rightarrow> string" where
  "unescape_bytes [] = []"
| "unescape_bytes [c] = [c]"
| "unescape_bytes (c # d # s) =
     (if c \<noteq> backslash then c # unescape_bytes (d # s) else unescape_byte d @ unescape_bytes s)"

definition unescape :: "string \<Rightarrow> string" where
  "unescape s = (if backslash \<notin> set s then s else unescape_bytes s)"

definition decodeValue :: "string \<Rightarrow> string" where
  "decodeValue v =
     (if 2 \<le> length v \<and> hd v = dquote \<and> last v = dquote then unescape (butlast (tl v))
      else if 2 \<le> length v \<and> hd v = squote \<and> last v = squote then butlast (tl v)
      else v)"

text \<open>\<open>None\<close> is the result \<open>ok = false\<close>.\<close>

definition Decode :: "string \<Rightarrow> (string \<times> string) option" where
  "Decode line =
     (let s = dropWhile (\<lambda>c. c = CHR '' '' \<or> c = tab) line
      in if s = [] \<or> HasPrefix s ''#'' then None
         else case Cut (TrimPrefix s ''export '') CHR ''='' of
             (k, v, False) \<Rightarrow> None
           | (k, v, True) \<Rightarrow> if TrimSpace k = [] then None else Some (TrimSpace k, decodeValue v))"

subsection \<open>Writing and reading a file\<close>

datatype dotenv_error =
    DotenvCollision string string string
  | DotenvWrite string
  | DotenvTooLong

definition dotenv_content :: "(string \<times> string) list \<Rightarrow> string" where
  "dotenv_content lines = concat (map (\<lambda>(name, val). Encode name val @ [newline]) lines)"

text \<open>
  \<open>srt\<close> is \<open>sort.Slice\<close> by name, which is not stable; \<open>sorts_by_name\<close> is what it promises.
\<close>

definition sorts_by_name :: "((string \<times> string) list \<Rightarrow> (string \<times> string) list) \<Rightarrow> bool" where
  "sorts_by_name srt \<longleftrightarrow> (\<forall>xs. mset (srt xs) = mset xs \<and> sorted (map fst (srt xs)))"

definition DotenvSyncer_Sync ::
    "((string \<times> string) list \<Rightarrow> (string \<times> string) list) \<Rightarrow> disk_faults \<Rightarrow> directory \<Rightarrow> string \<Rightarrow> string
      \<Rightarrow> Secret list \<Rightarrow> directory list \<times> dotenv_error option" where
  "DotenvSyncer_Sync srt f d tmp filePath secrets =
     (case collision_loop SecretName Map.empty (map sec_Key secrets) of
        Some (n, a, b) \<Rightarrow> ([], Some (DotenvCollision n a b))
      | None \<Rightarrow>
          (case atomicWrite f d tmp filePath
                  (dotenv_content (srt (map (\<lambda>s. (SecretName (sec_Key s), sec_Value s)) secrets))) of
             (ds, e) \<Rightarrow> (ds, map_option DotenvWrite e)))"

definition maxScanTokenSize :: nat where
  "maxScanTokenSize = 65536"

text \<open>The lines of the input without their newlines; the last one need not have one.\<close>

fun scan_lines :: "string \<Rightarrow> string list" where
  "scan_lines [] = []"
| "scan_lines (c # s) =
     (if c = newline then [] # scan_lines s
      else case scan_lines s of [] \<Rightarrow> [[c]] | l # ls \<Rightarrow> (c # l) # ls)"

definition dropCR :: "string \<Rightarrow> string" where
  "dropCR l = (if l \<noteq> [] \<and> last l = carriage then butlast l else l)"

definition DotenvImporter_Import :: "string \<Rightarrow> dotenv_error + (string \<times> string) list" where
  "DotenvImporter_Import content =
     (if list_ex (\<lambda>l. maxScanTokenSize \<le> length l) (scan_lines content) then Inl DotenvTooLong
      else Inr (List.map_filter (\<lambda>l. Decode (dropCR l)) (scan_lines content)))"

subsection \<open>Encoding and decoding are inverse\<close>

lemma unescape_escape_byte: "unescape_bytes (escape_byte c @ s) = c # unescape_bytes s"
  by (cases s) (auto simp: escape_byte_def unescape_byte_def)

lemma unescape_bytes_escape: "unescape_bytes (concat (map escape_byte v)) = v"
  by (induction v) (simp_all add: unescape_escape_byte)

lemma escape_plain:
  "backslash \<notin> set (concat (map escape_byte v)) \<Longrightarrow> concat (map escape_byte v) = v"
  by (induction v) (auto simp: escape_byte_def split: if_splits)

lemma unescape_escape: "unescape (concat (map escape_byte v)) = v"
  using escape_plain unescape_bytes_escape by (simp only: unescape_def split: if_split) blast

lemma decodeValue_quoted: "decodeValue ([dquote] @ concat (map escape_byte v) @ [dquote]) = v"
  by (simp add: decodeValue_def unescape_escape)

lemma decodeValue_bare: "\<not> needsQuoting v \<Longrightarrow> decodeValue v = v"
proof -
  assume "\<not> needsQuoting v"
  then have "v \<noteq> []" "dquote \<notin> set v" "squote \<notin> set v"
    by (auto simp: needsQuoting_def ContainsAny_def quote_chars_def list_ex_iff split: if_splits)
  then have "hd v \<noteq> dquote" "hd v \<noteq> squote" by (metis hd_in_set)+
  then show ?thesis by (simp add: decodeValue_def)
qed

definition encoded_value :: "string \<Rightarrow> string" where
  "encoded_value v =
     (if \<not> needsQuoting v then v else [dquote] @ concat (map escape_byte v) @ [dquote])"

lemma Encode_eq: "Encode k v = k @ CHR ''='' # encoded_value v"
  by (simp add: Encode_def encoded_value_def)

lemma decodeValue_encoded: "decodeValue (encoded_value v) = v"
  using decodeValue_bare decodeValue_quoted by (simp add: encoded_value_def)

text \<open>The names that survive: what \<open>Decode\<close> strips from a line must not be part of the name.\<close>

definition env_name_ok :: "string \<Rightarrow> bool" where
  "env_name_ok k \<longleftrightarrow> k \<noteq> [] \<and> TrimSpace k = k \<and> CHR ''='' \<notin> set k \<and> newline \<notin> set k
     \<and> hd k \<notin> {CHR '' '', tab, CHR ''#''} \<and> \<not> HasPrefix k ''export ''"

lemma HasPrefix_before:
  "c \<notin> set p \<Longrightarrow> HasPrefix (k @ c # r) p \<longleftrightarrow> HasPrefix k p"
proof (induction k arbitrary: p)
  case Nil
  then show ?case by (cases p) (auto simp: HasPrefix_def)
next
  case (Cons a k)
  then show ?case by (cases p) (auto simp: HasPrefix_def)
qed

lemma Decode_Encode:
  assumes "env_name_ok k"
  shows "Decode (Encode k v) = Some (k, v)"
proof -
  let ?line = "k @ CHR ''='' # encoded_value v"
  from assms have k: "k \<noteq> []" "TrimSpace k = k" "CHR ''='' \<notin> set k" "\<not> HasPrefix k ''export ''"
    "hd k \<notin> {CHR '' '', tab, CHR ''#''}"
    by (simp_all add: env_name_ok_def)
  then obtain a k' where a: "k = a # k'" by (cases k) auto
  with k have drop: "dropWhile (\<lambda>c. c = CHR '' '' \<or> c = tab) ?line = ?line" by simp
  have "\<not> HasPrefix ?line ''#''" using a k(5) by (simp add: HasPrefix_def)
  moreover have "TrimPrefix ?line ''export '' = ?line"
    using HasPrefix_before [of "CHR ''=''" "''export ''"] k(4) by (simp add: TrimPrefix_def)
  ultimately show ?thesis
    using k drop Cut_at_first [OF k(3)]
    by (simp add: Decode_def Encode_eq decodeValue_encoded Let_def)
qed

subsection \<open>A whole file\<close>

lemma encoded_value_safe:
  "newline \<notin> set (encoded_value v)" "encoded_value v \<noteq> []" "last (encoded_value v) \<noteq> carriage"
proof -
  have bare: "\<not> needsQuoting v \<Longrightarrow> v \<noteq> [] \<and> newline \<notin> set v \<and> carriage \<notin> set v"
    by (auto simp: needsQuoting_def ContainsAny_def quote_chars_def list_ex_iff split: if_splits)
  then have "\<not> needsQuoting v \<Longrightarrow> last v \<noteq> carriage" by (metis last_in_set)
  then show "encoded_value v \<noteq> []" "last (encoded_value v) \<noteq> carriage"
    using bare by (auto simp: encoded_value_def)
  show "newline \<notin> set (encoded_value v)"
    using bare by (auto simp: encoded_value_def escape_byte_def split: if_splits)
qed

lemma scan_lines_line: "newline \<notin> set l \<Longrightarrow> scan_lines (l @ newline # s) = l # scan_lines s"
  by (induction l) auto

lemma scan_lines_content:
  assumes "\<forall>(n, v) \<in> set ls. newline \<notin> set n"
  shows "scan_lines (dotenv_content ls) = map (\<lambda>(n, v). Encode n v) ls"
  using assms
proof (induction ls)
  case (Cons a ls)
  obtain n v where a: "a = (n, v)" by fastforce
  with Cons.prems have "newline \<notin> set (Encode n v)"
    using encoded_value_safe(1) by (auto simp: Encode_eq)
  then show ?case
    using Cons a scan_lines_line [of "Encode n v" "dotenv_content ls"]
    by (simp add: dotenv_content_def)
qed (simp add: dotenv_content_def)

lemma dropCR_Encode: "dropCR (Encode k v) = Encode k v"
  using encoded_value_safe(2,3) by (simp add: dropCR_def Encode_eq)

lemma Import_content:
  assumes "\<forall>(n, v) \<in> set ls. env_name_ok n \<and> length (Encode n v) < maxScanTokenSize"
  shows "DotenvImporter_Import (dotenv_content ls) = Inr ls"
proof -
  have lines: "scan_lines (dotenv_content ls) = map (\<lambda>(n, v). Encode n v) ls"
    by (rule scan_lines_content) (use assms in \<open>auto simp: env_name_ok_def\<close>)
  have "List.map_filter (\<lambda>l. Decode (dropCR l)) (map (\<lambda>(n, v). Encode n v) ls) = ls"
    using assms by (induction ls) (auto simp: List.map_filter_simps dropCR_Encode Decode_Encode)
  moreover have "\<not> list_ex (\<lambda>l. maxScanTokenSize \<le> length l) (map (\<lambda>(n, v). Encode n v) ls)"
    using assms by (auto simp: list_ex_iff)
  ultimately show ?thesis by (simp add: DotenvImporter_Import_def lines)
qed

interpretation dotenv_guard: name_guard "collision_loop SecretName Map.empty" SecretName
  by unfold_locales (rule collision_loop_correct)

text \<open>
  C32: a secret round-trips byte for byte through \<open>sync\<close> to a dotenv file and \<open>import\<close> from it.
  When the sync reports success, the importer reads back every variable with exactly its value
  and nothing else, whatever bytes the values hold, provided that the names are ones the
  format can carry and no line reaches the scanner's limit.
\<close>

theorem dotenv_round_trip:
  assumes "sorts_by_name srt" and "distinct (map sec_Key secrets)"
    and "\<forall>s \<in> set secrets. env_name_ok (SecretName (sec_Key s))
      \<and> length (Encode (SecretName (sec_Key s)) (sec_Value s)) < maxScanTokenSize"
    and "d tmp = None" and "tmp \<noteq> path"
    and "DotenvSyncer_Sync srt f d tmp path secrets = (ds, None)"
  shows "\<exists>content kvs. last (d # ds) path = Some content
    \<and> DotenvImporter_Import content = Inr kvs
    \<and> mset kvs = mset (map (\<lambda>s. (SecretName (sec_Key s), sec_Value s)) secrets)
    \<and> (\<forall>s \<in> set secrets. map_of kvs (SecretName (sec_Key s)) = Some (sec_Value s))"
proof -
  let ?kvs = "map (\<lambda>s. (SecretName (sec_Key s), sec_Value s)) secrets"
  let ?ls = "srt ?kvs"
  have ls: "mset ?ls = mset ?kvs" using assms(1) by (simp add: sorts_by_name_def)
  then have set: "set ?ls = set ?kvs" by (metis set_mset_mset)
  have col: "collision_loop SecretName Map.empty (map sec_Key secrets) = None"
    using assms(6)
    by (cases "collision_loop SecretName Map.empty (map sec_Key secrets)") (auto simp: DotenvSyncer_Sync_def)
  then have wr: "atomicWrite f d tmp path (dotenv_content ?ls) = (ds, None)"
    using assms(6) by (simp add: DotenvSyncer_Sync_def case_prod_beta prod_eq_iff)
  have stored: "last (d # ds) path = Some (dotenv_content ?ls)"
    using atomicWrite_trace(2) [OF assms(4,5) wr] by simp
  have imp: "DotenvImporter_Import (dotenv_content ?ls) = Inr ?ls"
    by (rule Import_content) (use assms(3) set in auto)
  have "distinct (map fst ?kvs)"
    using dotenv_guard.distinct_names [OF col assms(2)] by (simp add: comp_def)
  moreover have "mset (map fst ?ls) = mset (map fst ?kvs)" using ls by (simp only: mset_map)
  ultimately have "distinct (map fst ?ls)" using mset_eq_imp_distinct_iff by blast
  then have "map_of ?ls (SecretName (sec_Key s)) = Some (sec_Value s)" if "s \<in> set secrets" for s
    using that set by (simp add: map_of_eq_Some_iff)
  with stored imp ls show ?thesis by blast
qed

definition demo_env :: "Secret list" where
  "demo_env = [mk_Secret ''/app/K'' ''a b'', mk_Secret ''/app/A'' [dquote, newline]]"

theorem dotenv_round_trip_witness:
  "\<exists>content kvs. last (Map.empty # fst (DotenvSyncer_Sync (sort_key fst) no_faults Map.empty ''t'' ''.env''
       demo_env)) ''.env'' = Some content
    \<and> DotenvImporter_Import content = Inr kvs \<and> map_of kvs ''A'' = Some [dquote, newline]"
proof -
  have srt: "sorts_by_name (sort_key fst)" by (simp add: sorts_by_name_def)
  have names: "SecretName ''/app/K'' = ''K''" "SecretName ''/app/A'' = ''A''" by (simp_all add: SecretName_def)
  have ok: "\<forall>s \<in> set demo_env. env_name_ok (SecretName (sec_Key s))
      \<and> length (Encode (SecretName (sec_Key s)) (sec_Value s)) < maxScanTokenSize"
    by (simp add: demo_env_def names env_name_ok_def TrimSpace_def space_runes_def HasPrefix_def
        Encode_def needsQuoting_def ContainsAny_def quote_chars_def escape_byte_def maxScanTokenSize_def)
  have d: "distinct (map sec_Key demo_env)" by (simp add: demo_env_def)
  have r: "DotenvSyncer_Sync (sort_key fst) no_faults Map.empty ''t'' ''.env'' demo_env =
      (fst (DotenvSyncer_Sync (sort_key fst) no_faults Map.empty ''t'' ''.env'' demo_env), None)"
    by (simp add: DotenvSyncer_Sync_def demo_env_def names atomicWrite_def no_faults_def install_temp_def
        durableReplace_def Let_def)
  show ?thesis
    using dotenv_round_trip [OF srt d ok _ _ r] by (auto simp: demo_env_def names)
qed

text \<open>
  The limit is real. A file whose encoded line reaches 64 KiB is written without complaint,
  and the importer refuses the whole file.
\<close>

lemma dotenv_import_limit:
  assumes "newline \<notin> set n" and "maxScanTokenSize \<le> length v"
  shows "DotenvImporter_Import (dotenv_content [(n, v)]) = Inl DotenvTooLong"
proof -
  have "length v \<le> length (concat (map escape_byte v))" for v
    by (induction v) (auto simp: escape_byte_def)
  then have "length v \<le> length (encoded_value v)"
    by (auto simp: encoded_value_def intro: le_SucI)
  then have "maxScanTokenSize \<le> length (Encode n v)"
    using assms(2) by (simp add: Encode_eq)
  then show ?thesis
    using assms(1) by (simp add: DotenvImporter_Import_def scan_lines_content)
qed

lemma dotenv_import_limit_example:
  "DotenvImporter_Import (dotenv_content [(''K'', replicate 65536 CHR ''x'')]) = Inl DotenvTooLong"
  by (rule dotenv_import_limit) (simp_all only: maxScanTokenSize_def length_replicate, simp_all)

end
