(* ===== verification/Ref_Resolution.thy ===== *)
theory Ref_Resolution
  imports Provider_Types
begin

text \<open>
  References between secret values, \<open>src/internal/ref/ref.go\<close>: \<open>${NAME}\<close> in a value stands for
  the value of the secret \<open>NAME\<close>, transitively.

  \<open>expand_scan\<close> is the loop of \<open>expand\<close>, with the byte before the current position as \<open>prev\<close>;
  \<open>chain\<close> is the path of names that led here. Go's recursion \<open>expand(raw, append(chain, name))\<close>
  checks the length of the chain first, so the model does it at the call, and the chain can
  only grow up to \<open>MaxDepth\<close>: this is why resolution ends on every scope, cyclic ones included.
\<close>

definition MaxDepth :: nat where
  "MaxDepth = 10"

datatype ref_error =
    KindMissing string "string list"
  | KindCycle "string list"
  | KindDepth "string list"

definition ref_letter :: "char \<Rightarrow> bool" where
  "ref_letter c \<longleftrightarrow> c = CHR ''_'' \<or> is_lower c \<or> is_upper c"

definition isRefName :: "string \<Rightarrow> bool" where
  "isRefName name \<longleftrightarrow> name \<noteq> [] \<and> ref_letter (hd name)
     \<and> list_all (\<lambda>c. ref_letter c \<or> is_digit c) (tl name)"

definition escaped :: "char option \<Rightarrow> bool" where
  "escaped prev \<longleftrightarrow> prev = Some CHR 0x5C \<or> prev = Some CHR ''$''"

text \<open>The token at the head of \<open>c # s\<close>: its name and what follows, when \<open>${...}\<close> starts there.\<close>

definition ref_token :: "char \<Rightarrow> string \<Rightarrow> (string \<times> string \<times> bool) option" where
  "ref_token c s =
     (if c \<noteq> CHR ''$'' \<or> s = [] \<or> hd s \<noteq> CHR ''{'' then None else Some (Cut (tl s) CHR ''}''))"

lemma ref_token_rest: "ref_token c s = Some (name, rest, True) \<Longrightarrow> length rest < length s"
proof -
  assume "ref_token c s = Some (name, rest, True)"
  then have s: "s \<noteq> []" "Cut (tl s) CHR ''}'' = (name, rest, True)"
    by (auto simp: ref_token_def split: if_splits)
  then have "rest = tl (dropWhile (\<lambda>c. c \<noteq> CHR ''}'') (tl s))" by (auto simp: Cut_def split: if_splits)
  moreover have "length (dropWhile (\<lambda>c. c \<noteq> CHR ''}'') (tl s)) \<le> length (tl s)"
    by (rule length_dropWhile_le)
  ultimately show ?thesis using s(1) by (cases s) (auto simp: less_Suc_eq_le)
qed

function (sequential) expand_scan ::
    "(string \<Rightarrow> string option) \<Rightarrow> string list \<Rightarrow> char option \<Rightarrow> string \<Rightarrow> ref_error + string" where
  "expand_scan lookup chain prev [] = Inr []"
| "expand_scan lookup chain prev (c # s) = (case ref_token c s of
      None \<Rightarrow> map_sum id ((#) c) (expand_scan lookup chain (Some c) s)
    | Some (name, rest, False) \<Rightarrow> Inr (c # s)
    | Some (name, rest, True) \<Rightarrow>
        if escaped prev \<or> \<not> isRefName name
        then map_sum id ((@) (''${'' @ name @ ''}'')) (expand_scan lookup chain (Some CHR ''}'') rest)
        else (case lookup name of
            None \<Rightarrow> Inl (KindMissing name (chain @ [name]))
          | Some raw \<Rightarrow>
              if name \<in> set chain then Inl (KindCycle (chain @ [name]))
              else if MaxDepth < length (chain @ [name]) then Inl (KindDepth (chain @ [name]))
              else (case expand_scan lookup (chain @ [name]) None raw of
                  Inl e \<Rightarrow> Inl e
                | Inr resolved \<Rightarrow>
                    map_sum id ((@) resolved) (expand_scan lookup chain (Some CHR ''}'') rest))))"
  by pat_completeness auto

termination
  by (relation "measures [\<lambda>(_, chain, _, _). MaxDepth - length chain, \<lambda>(_, _, _, s). length s]")
    (auto dest: ref_token_rest)

definition expand ::
    "(string \<Rightarrow> string option) \<Rightarrow> string list \<Rightarrow> string \<Rightarrow> ref_error + string" where
  "expand lookup chain s =
     (if MaxDepth < length chain then Inl (KindDepth chain) else expand_scan lookup chain None s)"

definition ref_Resolve :: "string \<Rightarrow> (string \<Rightarrow> string option) \<Rightarrow> ref_error + string" where
  "ref_Resolve val lookup = expand lookup [] val"

subsection \<open>The references of a value\<close>

function (sequential) refs :: "char option \<Rightarrow> string \<Rightarrow> string list" where
  "refs prev [] = []"
| "refs prev (c # s) = (case ref_token c s of
      None \<Rightarrow> refs (Some c) s
    | Some (name, rest, False) \<Rightarrow> []
    | Some (name, rest, True) \<Rightarrow>
        (if escaped prev \<or> \<not> isRefName name then [] else [name]) @ refs (Some CHR ''}'') rest)"
  by pat_completeness auto

termination
  by (relation "measure (\<lambda>(_, s). length s)") (auto dest: ref_token_rest)

text \<open>Replacing every reference of a value, in one pass.\<close>

function (sequential) render :: "(string \<Rightarrow> string) \<Rightarrow> char option \<Rightarrow> string \<Rightarrow> string" where
  "render f prev [] = []"
| "render f prev (c # s) = (case ref_token c s of
      None \<Rightarrow> c # render f (Some c) s
    | Some (name, rest, False) \<Rightarrow> c # s
    | Some (name, rest, True) \<Rightarrow>
        (if escaped prev \<or> \<not> isRefName name then ''${'' @ name @ ''}'' else f name)
          @ render f (Some CHR ''}'') rest)"
  by pat_completeness auto

termination
  by (relation "measure (\<lambda>(_, _, s). length s)") (auto dest: ref_token_rest)

lemma Cut_text: "Cut s sep = (a, b, True) \<Longrightarrow> s = a @ sep # b"
proof -
  assume "Cut s sep = (a, b, True)"
  then have "sep \<in> set s" and ab: "a = takeWhile (\<lambda>c. c \<noteq> sep) s" "b = tl (dropWhile (\<lambda>c. c \<noteq> sep) s)"
    by (simp_all add: Cut_def split: if_splits)
  then have ne: "dropWhile (\<lambda>c. c \<noteq> sep) s \<noteq> []" by (simp add: dropWhile_eq_Nil_conv)
  then have "hd (dropWhile (\<lambda>c. c \<noteq> sep) s) = sep" using hd_dropWhile by blast
  with ne have "dropWhile (\<lambda>c. c \<noteq> sep) s = sep # b" using ab(2) list.collapse by metis
  then show ?thesis using ab(1) takeWhile_dropWhile_id [of "\<lambda>c. c \<noteq> sep" s] by simp
qed

lemma ref_token_text: "ref_token c s = Some (name, rest, True) \<Longrightarrow> c # s = ''${'' @ name @ ''}'' @ rest"
  by (cases s) (simp_all add: ref_token_def Cut_text split: if_splits)

lemma render_no_refs: "refs prev s = [] \<Longrightarrow> render f prev s = s"
proof (induction prev s rule: refs.induct)
  case (2 prev c s)
  show ?case
  proof (cases "ref_token c s")
    case None
    with 2 show ?thesis by simp
  next
    case (Some t)
    obtain name rest b where t: "t = (name, rest, b)" by (cases t)
    show ?thesis
    proof (cases b)
      case True
      then have tok: "ref_token c s = Some (name, rest, True)" using Some t by simp
      with "2.prems" have "escaped prev \<or> \<not> isRefName name" "refs (Some CHR ''}'') rest = []"
        by (simp_all split: if_splits)
      with tok 2 ref_token_text [OF tok] show ?thesis by simp
    qed (simp add: Some t)
  qed
qed simp

subsection \<open>Rules for the scan\<close>

text \<open>The shape of one step, and the induction principle that goes with it.\<close>

lemma expand_scan_plain: "ref_token c s = None \<Longrightarrow>
    expand_scan lookup chain prev (c # s) = map_sum id ((#) c) (expand_scan lookup chain (Some c) s)"
  by simp

lemma expand_scan_unclosed: "ref_token c s = Some (name, rest, False) \<Longrightarrow>
    expand_scan lookup chain prev (c # s) = Inr (c # s)"
  by simp

lemma expand_scan_literal: "ref_token c s = Some (name, rest, True) \<Longrightarrow> escaped prev \<or> \<not> isRefName name \<Longrightarrow>
    expand_scan lookup chain prev (c # s) =
      map_sum id ((@) (''${'' @ name @ ''}'')) (expand_scan lookup chain (Some CHR ''}'') rest)"
  by simp

lemma expand_scan_ref: "ref_token c s = Some (name, rest, True) \<Longrightarrow> \<not> escaped prev \<Longrightarrow> isRefName name \<Longrightarrow>
    expand_scan lookup chain prev (c # s) = (case lookup name of
        None \<Rightarrow> Inl (KindMissing name (chain @ [name]))
      | Some raw \<Rightarrow>
          if name \<in> set chain then Inl (KindCycle (chain @ [name]))
          else (case expand lookup (chain @ [name]) raw of
              Inl e \<Rightarrow> Inl e
            | Inr resolved \<Rightarrow>
                map_sum id ((@) resolved) (expand_scan lookup chain (Some CHR ''}'') rest)))"
  by (cases "lookup name") (simp_all add: expand_def)

lemmas expand_scan_rules = expand_scan_plain expand_scan_unclosed expand_scan_literal expand_scan_ref

declare expand_scan.simps(2) [simp del]

lemma expand_induct [case_names Nil Plain Unclosed Literal Ref]:
  assumes "\<And>lookup chain prev. P lookup chain prev []"
    and "\<And>lookup chain prev c s. ref_token c s = None \<Longrightarrow> P lookup chain (Some c) s \<Longrightarrow>
      P lookup chain prev (c # s)"
    and "\<And>lookup chain prev c s name rest. ref_token c s = Some (name, rest, False) \<Longrightarrow>
      P lookup chain prev (c # s)"
    and "\<And>lookup chain prev c s name rest. ref_token c s = Some (name, rest, True) \<Longrightarrow>
      escaped prev \<or> \<not> isRefName name \<Longrightarrow> P lookup chain (Some CHR ''}'') rest \<Longrightarrow>
      P lookup chain prev (c # s)"
    and "\<And>lookup chain prev c s name rest. ref_token c s = Some (name, rest, True) \<Longrightarrow>
      \<not> escaped prev \<Longrightarrow> isRefName name \<Longrightarrow>
      (\<And>raw. lookup name = Some raw \<Longrightarrow> name \<notin> set chain \<Longrightarrow> length chain < MaxDepth \<Longrightarrow>
         P lookup (chain @ [name]) None raw) \<Longrightarrow>
      (\<And>raw v. lookup name = Some raw \<Longrightarrow> name \<notin> set chain \<Longrightarrow> length chain < MaxDepth \<Longrightarrow>
         expand_scan lookup (chain @ [name]) None raw = Inr v \<Longrightarrow> P lookup chain (Some CHR ''}'') rest) \<Longrightarrow>
      P lookup chain prev (c # s)"
  shows "P lookup chain prev s"
proof (induction lookup chain prev s rule: expand_scan.induct)
  case (2 lookup chain prev c s)
  show ?case
  proof (cases "ref_token c s")
    case None
    then show ?thesis using assms(2) "2.IH"(1) by blast
  next
    case (Some t)
    obtain name rest b where "t = (name, rest, b)" by (cases t)
    with Some have t: "ref_token c s = Some (name, rest, b)" by simp
    consider "\<not> b" | "b" "escaped prev \<or> \<not> isRefName name" | "b" "\<not> escaped prev" "isRefName name" by blast
    then show ?thesis
    proof cases
      case 1
      then show ?thesis using assms(3) t by simp
    next
      case 2
      then show ?thesis using assms(4) t "2.IH"(2) [OF t] by simp
    next
      case 3
      then show ?thesis
        using assms(5) [of c s name rest prev lookup chain] t "2.IH"(3,4) [OF t] by (simp add: not_less)
    qed
  qed
qed (rule assms(1))

lemma map_sum_Inr: "map_sum id f x = Inr r \<longleftrightarrow> (\<exists>y. x = Inr y \<and> r = f y)"
  by (cases x) auto

lemma map_sum_Inl: "map_sum id f x = Inl e \<longleftrightarrow> x = Inl e"
  by (cases x) auto

lemma expand_deeper: "expand lookup (chain @ [n]) raw =
    (if length chain < MaxDepth then expand_scan lookup (chain @ [n]) None raw
     else Inl (KindDepth (chain @ [n])))"
  by (simp add: expand_def)

lemma expand_scan_ref_Inr:
  assumes "ref_token c s = Some (name, rest, True)" "\<not> escaped prev" "isRefName name"
  shows "expand_scan lookup chain prev (c # s) = Inr r \<longleftrightarrow> (\<exists>raw v y. lookup name = Some raw
    \<and> name \<notin> set chain \<and> length chain < MaxDepth \<and> expand_scan lookup (chain @ [name]) None raw = Inr v
    \<and> expand_scan lookup chain (Some CHR ''}'') rest = Inr y \<and> r = v @ y)"
proof (cases "lookup name")
  case None
  then show ?thesis by (simp add: expand_scan_ref [OF assms])
next
  case (Some raw)
  show ?thesis
    by (cases "expand_scan lookup (chain @ [name]) None raw")
      (simp_all add: expand_scan_ref [OF assms] Some expand_deeper map_sum_Inr)
qed

text \<open>A scan that succeeds does so with every shorter chain, and the result does not change.\<close>

lemma expand_scan_mono:
  assumes "expand_scan lookup chain prev s = Inr r"
    and "set chain' \<subseteq> set chain" and "length chain' \<le> length chain"
  shows "expand_scan lookup chain' prev s = Inr r"
  using assms
proof (induction lookup chain prev s arbitrary: r chain' rule: expand_induct)
  case (Ref lookup chain prev c s name rest)
  note iff = expand_scan_ref_Inr [OF Ref.hyps(1-3)]
  from Ref.prems(1) obtain raw v y where raw: "lookup name = Some raw" "name \<notin> set chain"
    "length chain < MaxDepth" "expand_scan lookup (chain @ [name]) None raw = Inr v"
    "expand_scan lookup chain (Some CHR ''}'') rest = Inr y" "r = v @ y"
    unfolding iff by blast
  have "expand_scan lookup (chain' @ [name]) None raw = Inr v"
    by (rule Ref.IH(1) [OF raw(1-4)]) (use Ref.prems(2,3) in \<open>simp_all add: subset_insertI2\<close>)
  moreover have "expand_scan lookup chain' (Some CHR ''}'') rest = Inr y"
    by (rule Ref.IH(2) [OF raw(1-5) Ref.prems(2,3)])
  moreover have "name \<notin> set chain'" "length chain' < MaxDepth"
    using raw(2,3) Ref.prems(2,3) by (blast, simp)
  ultimately show ?case
    unfolding iff using raw(1,6) by blast
next
  case (Plain lookup chain prev c s)
  from Plain.prems(1) obtain y where y: "expand_scan lookup chain (Some c) s = Inr y" "r = c # y"
    unfolding expand_scan_plain [OF Plain.hyps] map_sum_Inr by blast
  show ?case
    unfolding expand_scan_plain [OF Plain.hyps] Plain.IH [OF y(1) Plain.prems(2,3)] using y(2) by simp
next
  case (Literal lookup chain prev c s name rest)
  from Literal.prems(1) obtain y where y: "expand_scan lookup chain (Some CHR ''}'') rest = Inr y"
    "r = (''${'' @ name @ ''}'') @ y"
    unfolding expand_scan_literal [OF Literal.hyps] map_sum_Inr by blast
  show ?case
    unfolding expand_scan_literal [OF Literal.hyps] Literal.IH [OF y(1) Literal.prems(2,3)]
    using y(2) by simp
next
  case (Unclosed lookup chain prev c s name rest)
  then show ?case by (simp only: expand_scan_unclosed)
qed simp

lemma expand_scan_render:
  assumes "expand_scan lookup chain prev s = Inr r"
  shows "r = render (\<lambda>n. projr (ref_Resolve (the (lookup n)) lookup)) prev s
    \<and> (\<forall>n \<in> set (refs prev s). \<exists>raw v. lookup n = Some raw \<and> ref_Resolve raw lookup = Inr v)"
  using assms
proof (induction lookup chain prev s arbitrary: r rule: expand_induct)
  case (Ref lookup chain prev c s name rest)
  from Ref.prems obtain raw v y where raw: "lookup name = Some raw" "name \<notin> set chain"
    "length chain < MaxDepth" "expand_scan lookup (chain @ [name]) None raw = Inr v"
    "expand_scan lookup chain (Some CHR ''}'') rest = Inr y" "r = v @ y"
    unfolding expand_scan_ref_Inr [OF Ref.hyps(1-3)] by blast
  have "ref_Resolve raw lookup = Inr v"
    using expand_scan_mono [OF raw(4), of "[]"] by (simp add: ref_Resolve_def expand_def)
  with Ref.IH(2) [OF raw(1-5)] Ref.hyps raw show ?case by simp
next
  case (Plain lookup chain prev c s)
  then show ?case by (auto simp: expand_scan_plain map_sum_Inr)
next
  case (Literal lookup chain prev c s name rest)
  then show ?case by (auto simp: expand_scan_literal map_sum_Inr)
qed (auto simp: expand_scan_unclosed)

text \<open>
  C35: what a resolved value is. When \<open>Resolve\<close> succeeds, every name the value refers to
  exists and resolves by itself, and the result is the value with each reference replaced by
  what its name resolves to; all other bytes, escaped and malformed tokens included, are kept.
\<close>

theorem resolve_compositional:
  assumes "ref_Resolve val lookup = Inr r"
  shows "r = render (\<lambda>n. projr (ref_Resolve (the (lookup n)) lookup)) None val
    \<and> (\<forall>n \<in> set (refs None val). \<exists>raw v. lookup n = Some raw \<and> ref_Resolve raw lookup = Inr v)"
  using assms expand_scan_render by (simp add: ref_Resolve_def expand_def)

theorem resolve_compositional_witness:
  "ref_Resolve ''u:${A}!'' [''A'' \<mapsto> ''x${B}'', ''B'' \<mapsto> ''7''] = Inr ''u:x7!''
   \<and> (\<exists>raw v. [''A'' \<mapsto> ''x${B}'', ''B'' \<mapsto> ''7''] ''A'' = Some raw
        \<and> ref_Resolve raw [''A'' \<mapsto> ''x${B}'', ''B'' \<mapsto> ''7''] = Inr v)"
proof -
  have r: "ref_Resolve ''u:${A}!'' [''A'' \<mapsto> ''x${B}'', ''B'' \<mapsto> ''7''] = Inr ''u:x7!''"
    by (simp add: ref_Resolve_def expand_def expand_scan.simps ref_token_def Cut_def escaped_def
        isRefName_def ref_letter_def is_upper_def is_lower_def is_digit_def less_eq_char_def MaxDepth_def)
  have "''A'' \<in> set (refs None ''u:${A}!'')"
    by (simp add: ref_token_def Cut_def escaped_def isRefName_def ref_letter_def is_upper_def
        less_eq_char_def)
  with resolve_compositional [OF r] r show ?thesis by blast
qed

subsection \<open>When resolution succeeds\<close>

text \<open>
  \<open>ranked\<close>: a scope without missing names and cycles, where \<open>rank\<close> bounds the length of the
  chains that start at a name.
\<close>

definition ranked :: "(string \<Rightarrow> string option) \<Rightarrow> (string \<Rightarrow> nat) \<Rightarrow> bool" where
  "ranked lookup rank \<longleftrightarrow> (\<forall>n raw m. lookup n = Some raw \<longrightarrow> m \<in> set (refs None raw) \<longrightarrow>
     lookup m \<noteq> None \<and> rank m < rank n)"

lemma refs_plain: "ref_token c s = None \<Longrightarrow> refs prev (c # s) = refs (Some c) s"
  by simp

lemma refs_token: "ref_token c s = Some (name, rest, True) \<Longrightarrow> refs prev (c # s) =
    (if escaped prev \<or> \<not> isRefName name then [] else [name]) @ refs (Some CHR ''}'') rest"
  by simp

lemma expand_scan_complete:
  assumes "ranked lookup rank"
    and "\<forall>n \<in> set (refs prev s). lookup n \<noteq> None \<and> rank n + length chain < MaxDepth
      \<and> (\<forall>c \<in> set chain. rank n < rank c)"
  shows "\<exists>r. expand_scan lookup chain prev s = Inr r"
  using assms
proof (induction lookup chain prev s rule: expand_induct)
  case (Plain lookup chain prev c s)
  then show ?case by (auto simp: expand_scan_plain refs_plain)
next
  case (Unclosed lookup chain prev c s name rest)
  then show ?case by (simp add: expand_scan_unclosed)
next
  case (Literal lookup chain prev c s name rest)
  then show ?case by (auto simp: expand_scan_literal refs_token)
next
  case (Ref lookup chain prev c s name rest)
  have refs: "set (refs prev (c # s)) = insert name (set (refs (Some CHR ''}'') rest))"
    using Ref.hyps by (simp add: refs_token)
  note ok = Ref.prems(2) [unfolded refs]
  then obtain raw where raw: "lookup name = Some raw" by auto
  have new: "name \<notin> set chain" and deep: "length chain < MaxDepth" using ok by auto
  have "\<forall>m \<in> set (refs None raw). lookup m \<noteq> None \<and> rank m + length (chain @ [name]) < MaxDepth
      \<and> (\<forall>c \<in> set (chain @ [name]). rank m < rank c)"
  proof
    fix m assume m: "m \<in> set (refs None raw)"
    then have "lookup m \<noteq> None" "rank m < rank name"
      using Ref.prems(1) raw by (simp_all add: ranked_def)
    with ok show "lookup m \<noteq> None \<and> rank m + length (chain @ [name]) < MaxDepth
        \<and> (\<forall>c \<in> set (chain @ [name]). rank m < rank c)"
      by (fastforce intro: less_trans)
  qed
  then obtain v where v: "expand_scan lookup (chain @ [name]) None raw = Inr v"
    using Ref.IH(1) [OF raw new deep Ref.prems(1)] by blast
  have "\<exists>y. expand_scan lookup chain (Some CHR ''}'') rest = Inr y"
    by (rule Ref.IH(2) [OF raw new deep v Ref.prems(1)]) (use ok in blast)
  then show ?case
    unfolding expand_scan_ref_Inr [OF Ref.hyps(1-3)] using raw new deep v by blast
qed simp

text \<open>
  C36: resolution succeeds whenever it should: if the names a value refers to exist, the scope
  has no missing names and no cycles, and no chain of references is longer than ten, \<open>Resolve\<close>
  returns a value.
\<close>

theorem resolve_complete:
  assumes "ranked lookup rank"
    and "\<forall>n \<in> set (refs None val). lookup n \<noteq> None \<and> rank n < MaxDepth"
  shows "\<exists>r. ref_Resolve val lookup = Inr r"
  using expand_scan_complete [OF assms(1), of None val "[]"] assms(2)
  by (simp add: ref_Resolve_def expand_def)

theorem resolve_complete_witness:
  "\<exists>r. ref_Resolve ''${A}'' [''A'' \<mapsto> ''x${B}'', ''B'' \<mapsto> ''7''] = Inr r"
proof (rule resolve_complete)
  show "ranked [''A'' \<mapsto> ''x${B}'', ''B'' \<mapsto> ''7''] (\<lambda>n. if n = ''A'' then 1 else 0)"
    by (auto simp: ranked_def ref_token_def Cut_def escaped_def isRefName_def split: if_splits)
  show "\<forall>n \<in> set (refs None ''${A}''). [''A'' \<mapsto> ''x${B}'', ''B'' \<mapsto> ''7''] n \<noteq> None
      \<and> (if n = ''A'' then 1 else 0) < MaxDepth"
    by (simp add: ref_token_def Cut_def MaxDepth_def)
qed

subsection \<open>When resolution fails\<close>

text \<open>\<open>ref_path lookup s0 chain s\<close>: following the names of \<open>chain\<close> from the value \<open>s0\<close> ends at \<open>s\<close>.\<close>

inductive ref_path :: "(string \<Rightarrow> string option) \<Rightarrow> string \<Rightarrow> string list \<Rightarrow> string \<Rightarrow> bool"
  for lookup :: "string \<Rightarrow> string option" and s0 :: string where
  path_start: "ref_path lookup s0 [] s0"
| path_step: "ref_path lookup s0 chain s \<Longrightarrow> n \<in> set (refs None s) \<Longrightarrow> lookup n = Some raw \<Longrightarrow>
    n \<notin> set chain \<Longrightarrow> ref_path lookup s0 (chain @ [n]) raw"

lemma ref_path_distinct: "ref_path lookup s0 chain s \<Longrightarrow> distinct chain"
  by (induction rule: ref_path.induct) auto

definition error_justified :: "(string \<Rightarrow> string option) \<Rightarrow> string \<Rightarrow> ref_error \<Rightarrow> bool" where
  "error_justified lookup s0 e \<longleftrightarrow> (case e of
      KindMissing n ch \<Rightarrow> lookup n = None
        \<and> (\<exists>ch' s. ch = ch' @ [n] \<and> ref_path lookup s0 ch' s \<and> n \<in> set (refs None s))
    | KindCycle ch \<Rightarrow> (\<exists>ch' n s. ch = ch' @ [n] \<and> n \<in> set ch' \<and> ref_path lookup s0 ch' s
        \<and> n \<in> set (refs None s))
    | KindDepth ch \<Rightarrow> length ch = Suc MaxDepth \<and> (\<exists>s. ref_path lookup s0 ch s))"

lemma expand_scan_error:
  assumes "expand_scan lookup chain prev s = Inl e"
    and "ref_path lookup s0 chain whole" and "set (refs prev s) \<subseteq> set (refs None whole)"
    and "length chain \<le> MaxDepth"
  shows "error_justified lookup s0 e"
  using assms
proof (induction lookup chain prev s arbitrary: whole rule: expand_induct)
  case (Plain lookup chain prev c s)
  then show ?case by (auto simp: expand_scan_plain map_sum_Inl refs_plain)
next
  case (Unclosed lookup chain prev c s name rest)
  then show ?case by (simp add: expand_scan_unclosed)
next
  case (Literal lookup chain prev c s name rest)
  then show ?case by (auto simp: expand_scan_literal map_sum_Inl refs_token)
next
  case (Ref lookup chain prev c s name rest)
  have name: "name \<in> set (refs None whole)"
    and rest: "set (refs (Some CHR ''}'') rest) \<subseteq> set (refs None whole)"
    using Ref.prems(3) Ref.hyps by (auto simp: refs_token)
  note eq = Ref.prems(1) [unfolded expand_scan_ref [OF Ref.hyps(1-3)]]
  show ?case
  proof (cases "lookup name")
    case None
    with eq name Ref.prems(2) show ?thesis by (auto simp: error_justified_def)
  next
    case (Some raw)
    show ?thesis
    proof (cases "name \<in> set chain")
      case True
      with eq Some name Ref.prems(2) show ?thesis by (auto simp: error_justified_def)
    next
      case False
      have path: "ref_path lookup s0 (chain @ [name]) raw"
        by (rule path_step [OF Ref.prems(2) name Some False])
      show ?thesis
      proof (cases "length chain < MaxDepth")
        case True
        show ?thesis
        proof (cases "expand_scan lookup (chain @ [name]) None raw")
          case (Inl e')
          with eq Some False True have "e = e'" by (simp add: expand_deeper)
          with Inl Ref.IH(1) [OF Some False True _ path] True show ?thesis by simp
        next
          case (Inr v)
          with eq Some False True have "expand_scan lookup chain (Some CHR ''}'') rest = Inl e"
            by (simp add: expand_deeper map_sum_Inl)
          then show ?thesis by (rule Ref.IH(2) [OF Some False True Inr _ Ref.prems(2) rest Ref.prems(4)])
        qed
      next
        case deep: False
        with eq Some False have "e = KindDepth (chain @ [name])" by (simp add: expand_deeper)
        with path deep Ref.prems(4) show ?thesis by (auto simp: error_justified_def)
      qed
    qed
  qed
qed simp

text \<open>
  Resolution fails only for a reason that is there: a missing-name error names a reference
  that does not exist, a cycle error a chain of references that returns to a name on it, and a
  depth error a chain of eleven distinct names, each referring to the next.
\<close>

lemma resolve_errors_justified:
  assumes "ref_Resolve val lookup = Inl e"
  shows "error_justified lookup val e"
  using assms expand_scan_error [of lookup "[]" None val e val val] path_start
  by (simp add: ref_Resolve_def expand_def)

lemma resolve_errors_justified_example:
  "ref_Resolve ''${A}'' [''A'' \<mapsto> ''${A}''] = Inl (KindCycle [''A'', ''A''])
   \<and> error_justified [''A'' \<mapsto> ''${A}''] ''${A}'' (KindCycle [''A'', ''A''])"
proof -
  have "ref_Resolve ''${A}'' [''A'' \<mapsto> ''${A}''] = Inl (KindCycle [''A'', ''A''])"
    by (simp add: ref_Resolve_def expand_def expand_scan.simps ref_token_def Cut_def escaped_def
        isRefName_def ref_letter_def is_upper_def is_lower_def is_digit_def less_eq_char_def MaxDepth_def)
  with resolve_errors_justified [OF this] show ?thesis by blast
qed

end
