(* ===== verification/Exec_Env.thy ===== *)
theory Exec_Env
  imports Name_Collisions
begin

text \<open>
  Injecting secrets into the environment of a process, \<open>src/internal/exec/exec.go\<close>:
  \<open>KeyToEnvName\<close>, \<open>BuildEnv\<close> and \<open>DetectEnvNameCollisions\<close>.

  An environment is the list of \<open>NAME=value\<close> strings that \<open>execve\<close> takes. \<open>BuildEnv\<close> appends
  the new entries in the order in which Go ranges over a map; that order is the parameter
  \<open>ord\<close>. \<open>uni\<close> is the Unicode upper-casing of \<open>strings.ToUpper\<close> for non-ASCII exclusions.
\<close>

subsection \<open>Names\<close>

definition sanitize_char :: "char \<Rightarrow> char" where
  "sanitize_char c =
     (if c \<in> {CHR ''/'', CHR ''-'', CHR ''='', CHR '' '', CHR 0x0A, CHR 0x0D} then CHR ''_''
      else upper_byte c)"

definition needs_change :: "char \<Rightarrow> bool" where
  "needs_change c \<longleftrightarrow> c \<in> {CHR ''/'', CHR ''-'', CHR ''='', CHR '' '', CHR 0x0A, CHR 0x0D} \<or> is_lower c"

definition strip_prefix :: "string \<Rightarrow> string \<Rightarrow> string" where
  "strip_prefix key pathPrefix =
     (if pathPrefix \<noteq> [] \<and> HasPrefix key pathPrefix
      then let name = drop (length pathPrefix) key
           in if name \<noteq> [] \<and> hd name = CHR ''/'' then tl name else name
      else key)"

definition KeyToEnvName :: "string \<Rightarrow> string \<Rightarrow> string" where
  "KeyToEnvName key pathPrefix =
     (let name = strip_prefix key pathPrefix
      in if \<not> list_ex needs_change name then name else map sanitize_char name)"

subsection \<open>The environment\<close>

definition excludeSet :: "(string \<Rightarrow> string) \<Rightarrow> string list \<Rightarrow> string \<Rightarrow> bool" where
  "excludeSet uni exclude name \<longleftrightarrow> name \<in> set (map (ToUpper uni) exclude)"

definition entry_name :: "string \<Rightarrow> string" where
  "entry_name e = (case Cut e CHR ''='' of (n, v, found) \<Rightarrow> if found then n else e)"

definition env_names :: "string list \<Rightarrow> string set" where
  "env_names env = set (map entry_name env)"

definition sanitize_value :: "string \<Rightarrow> string" where
  "sanitize_value val =
     (if ContainsAny val [CHR 0x00, CHR 0x0A, CHR 0x0D]
      then concat (map (\<lambda>c. if c = CHR 0x00 \<or> c = CHR 0x0D then []
                            else if c = CHR 0x0A then '' '' else [c]) val)
      else val)"

text \<open>The loop that fills \<open>secretVars\<close>.\<close>

definition secretVars ::
    "(string \<Rightarrow> string) \<Rightarrow> Secret list \<Rightarrow> string list \<Rightarrow> string \<Rightarrow> string list \<Rightarrow> string \<rightharpoonup> string" where
  "secretVars uni secrets existing pathPrefix exclude =
     foldl (\<lambda>m s. let name = KeyToEnvName (sec_Key s) pathPrefix
                  in if excludeSet uni exclude name \<or> name \<in> env_names existing then m
                     else m(name \<mapsto> sanitize_value (sec_Value s))) Map.empty secrets"

definition BuildEnv ::
    "(string \<Rightarrow> string) \<Rightarrow> string list \<Rightarrow> Secret list \<Rightarrow> string list \<Rightarrow> string \<Rightarrow> string list \<Rightarrow> string list" where
  "BuildEnv uni ord secrets existing pathPrefix exclude =
     (if secrets = [] then existing
      else let m = secretVars uni secrets existing pathPrefix exclude
           in existing @ map (\<lambda>k. k @ ''='' @ the (m k)) ord)"

definition env_order ::
    "(string \<Rightarrow> string) \<Rightarrow> Secret list \<Rightarrow> string list \<Rightarrow> string \<Rightarrow> string list \<Rightarrow> string list \<Rightarrow> bool" where
  "env_order uni secrets existing pathPrefix exclude ord \<longleftrightarrow>
     distinct ord \<and> set ord = dom (secretVars uni secrets existing pathPrefix exclude)"

definition DetectEnvNameCollisions ::
    "(string \<Rightarrow> string) \<Rightarrow> Secret list \<Rightarrow> string \<Rightarrow> string list \<Rightarrow> (string \<times> string \<times> string) option" where
  "DetectEnvNameCollisions uni secrets pathPrefix exclude =
     collision_loop (\<lambda>k. KeyToEnvName k pathPrefix) Map.empty
       (filter (\<lambda>k. \<not> excludeSet uni exclude (KeyToEnvName k pathPrefix)) (map sec_Key secrets))"

subsection \<open>Lemmas\<close>

lemma sanitize_char_fix: "\<not> needs_change c \<Longrightarrow> sanitize_char c = c"
  by (auto simp: needs_change_def sanitize_char_def upper_byte_def)

lemma upper_byte_lower:
  assumes "is_lower c"
  shows "of_char (upper_byte c) = (of_char c - 32 :: nat)" "97 \<le> (of_char c :: nat)" "(of_char c :: nat) \<le> 122"
proof -
  show b: "97 \<le> (of_char c :: nat)" "(of_char c :: nat) \<le> 122"
    using assms by (simp_all add: is_lower_def less_eq_char_def)
  then show "of_char (upper_byte c) = (of_char c - 32 :: nat)"
    using assms by (simp add: upper_byte_def of_char_of)
qed

lemma upper_byte_not_lower: "\<not> is_lower (upper_byte c)"
proof (cases "is_lower c")
  case True
  then show ?thesis
    using upper_byte_lower [OF True] by (simp add: is_lower_def less_eq_char_def)
qed (simp add: upper_byte_def)

lemma needs_change_sanitize: "\<not> needs_change (sanitize_char c)"
proof (cases "is_lower c")
  case True
  have "of_char (upper_byte c) \<in> {65..90 :: nat}" using upper_byte_lower [OF True] by (simp, linarith)
  moreover have "d \<in> {CHR ''/'', CHR ''-'', CHR ''='', CHR '' '', CHR 0x0A, CHR 0x0D} \<Longrightarrow>
      of_char d \<notin> {65..90 :: nat}" for d :: char
    by auto
  ultimately have "upper_byte c \<notin> {CHR ''/'', CHR ''-'', CHR ''='', CHR '' '', CHR 0x0A, CHR 0x0D}"
    by blast
  then show ?thesis
    using upper_byte_not_lower by (auto simp: sanitize_char_def needs_change_def is_lower_def less_eq_char_def)
next
  case False
  then show ?thesis
    by (auto simp: sanitize_char_def needs_change_def upper_byte_def is_lower_def less_eq_char_def)
qed

lemma KeyToEnvName_map: "KeyToEnvName key p = map sanitize_char (strip_prefix key p)"
proof -
  have "\<not> list_ex needs_change n \<Longrightarrow> map sanitize_char n = n" for n
    by (induction n) (auto simp: sanitize_char_fix)
  then show ?thesis by (simp add: KeyToEnvName_def Let_def)
qed

lemma KeyToEnvName_clean: "c \<in> set (KeyToEnvName key p) \<Longrightarrow> \<not> needs_change c"
  using needs_change_sanitize by (auto simp: KeyToEnvName_map)

lemma sanitize_value_clean: "c \<in> set (sanitize_value v) \<Longrightarrow> c \<notin> {CHR 0x00, CHR 0x0A, CHR 0x0D}"
  by (auto simp: sanitize_value_def ContainsAny_def list_ex_iff split: if_splits)

lemma sanitize_value_id: "set v \<inter> {CHR 0x00, CHR 0x0A, CHR 0x0D} = {} \<Longrightarrow> sanitize_value v = v"
  by (auto simp: sanitize_value_def ContainsAny_def list_ex_iff)

text \<open>What \<open>secretVars\<close> holds: for each name, the value of the last secret with that name.\<close>

definition injected ::
    "(string \<Rightarrow> string) \<Rightarrow> Secret list \<Rightarrow> string list \<Rightarrow> string \<Rightarrow> string list \<Rightarrow> Secret list" where
  "injected uni secrets existing pathPrefix exclude =
     filter (\<lambda>s. \<not> excludeSet uni exclude (KeyToEnvName (sec_Key s) pathPrefix)
               \<and> KeyToEnvName (sec_Key s) pathPrefix \<notin> env_names existing) secrets"

lemma secretVars_map_of:
  "secretVars uni secrets existing p exclude =
     map_of (rev (map (\<lambda>s. (KeyToEnvName (sec_Key s) p, sanitize_value (sec_Value s)))
       (injected uni secrets existing p exclude)))"
proof -
  let ?f = "\<lambda>m s. let name = KeyToEnvName (sec_Key s) p
      in if excludeSet uni exclude name \<or> name \<in> env_names existing then m
         else m(name \<mapsto> sanitize_value (sec_Value s))"
  have "foldl ?f m secrets = m ++ map_of (rev (map (\<lambda>s. (KeyToEnvName (sec_Key s) p, sanitize_value (sec_Value s)))
       (injected uni secrets existing p exclude)))" for m
  proof (induction secrets arbitrary: m)
    case (Cons a xs)
    then show ?case by (simp add: injected_def Let_def map_add_upd_left)
  qed (simp add: injected_def)
  then show ?thesis by (simp add: secretVars_def)
qed

lemma dom_secretVars:
  "dom (secretVars uni secrets existing p exclude) =
     (\<lambda>s. KeyToEnvName (sec_Key s) p) ` set (injected uni secrets existing p exclude)"
  by (force simp: secretVars_map_of dom_map_of_conv_image_fst)

lemma entry_name_new: "CHR ''='' \<notin> set k \<Longrightarrow> entry_name (k @ ''='' @ v) = k"
  using Cut_at_first [of "CHR ''=''" k v] by (simp add: entry_name_def)

lemma KeyToEnvName_no_eq: "CHR ''='' \<notin> set (KeyToEnvName key p)"
  using KeyToEnvName_clean by (force simp: needs_change_def)

interpretation env_guard: name_guard
  "collision_loop (\<lambda>k. KeyToEnvName k p) Map.empty" "\<lambda>k. KeyToEnvName k p" for p
  by unfold_locales (rule collision_loop_correct)

subsection \<open>Properties\<close>

text \<open>
  \<open>KeyToEnvName\<close>, which returns early when a scan finds nothing to change, is the
  byte-wise sanitization of the key without its path prefix, and the name never holds a byte
  that would break an environment entry or a lower-case letter.
\<close>

lemma key_to_env_name_spec:
  "KeyToEnvName key p = map sanitize_char (strip_prefix key p)
   \<and> (\<forall>c \<in> set (KeyToEnvName key p).
        c \<notin> {CHR ''/'', CHR ''-'', CHR ''='', CHR '' '', CHR 0x0A, CHR 0x0D} \<and> \<not> is_lower c)"
  using KeyToEnvName_clean by (auto simp: KeyToEnvName_map needs_change_def)

lemma key_to_env_name_spec_example:
  "KeyToEnvName ''/app/api-key'' ''/app'' = ''API_KEY''
   \<and> list_all (\<lambda>c. \<not> is_lower c) ''API_KEY''"
proof -
  have "KeyToEnvName ''/app/api-key'' ''/app'' = ''API_KEY''"
    by code_simp
  then show ?thesis using key_to_env_name_spec [of "''/app/api-key''" "''/app''"] by simp
qed

text \<open>
  The caller's environment wins. \<open>BuildEnv\<close> keeps it as it is, and appends entries whose
  names are distinct, not excluded and not in it, with values free of NUL, newline and carriage
  return.
\<close>

lemma build_env_respects_existing:
  assumes "env_order uni secrets existing p exclude ord"
  shows "\<exists>new. BuildEnv uni ord secrets existing p exclude = existing @ new
    \<and> distinct (map entry_name new)
    \<and> (\<forall>e \<in> set new. entry_name e \<notin> env_names existing \<and> \<not> excludeSet uni exclude (entry_name e)
        \<and> (\<exists>v. e = entry_name e @ ''='' @ v \<and> set v \<inter> {CHR 0x00, CHR 0x0A, CHR 0x0D} = {}))"
proof (cases "secrets = []")
  case True
  then show ?thesis by (intro exI [of _ "[]"]) (simp add: BuildEnv_def)
next
  case False
  let ?m = "secretVars uni secrets existing p exclude"
  let ?new = "map (\<lambda>k. k @ ''='' @ the (?m k)) ord"
  have ord: "distinct ord" "set ord = dom ?m" using assms by (simp_all add: env_order_def)
  have name: "entry_name (k @ ''='' @ v) = k" if "k \<in> dom ?m" for k v
    using that entry_name_new KeyToEnvName_no_eq by (auto simp: dom_secretVars)
  have "map entry_name ?new = ord"
    using name ord(2) by (auto intro!: map_idI)
  moreover have "k \<notin> env_names existing \<and> \<not> excludeSet uni exclude k" if "k \<in> dom ?m" for k
    using that by (auto simp: dom_secretVars injected_def)
  moreover have "set (the (?m k)) \<inter> {CHR 0x00, CHR 0x0A, CHR 0x0D} = {}" if "k \<in> dom ?m" for k
  proof -
    from that obtain v where "?m k = Some v" by blast
    then have "v \<in> range sanitize_value" by (auto simp: secretVars_map_of dest!: map_of_SomeD)
    then show ?thesis using sanitize_value_clean \<open>?m k = Some v\<close> by fastforce
  qed
  ultimately show ?thesis
    using ord name False by (intro exI [of _ ?new]) (auto simp: BuildEnv_def Let_def)
qed

lemma build_env_respects_existing_example:
  "\<exists>new. BuildEnv id [''API_KEY''] [mk_Secret ''/app/api-key'' ''s'', mk_Secret ''/app/PATH'' ''x'']
      [''PATH=/bin''] ''/app'' [] = [''PATH=/bin''] @ new \<and> distinct (map entry_name new)"
proof -
  have n: "KeyToEnvName ''/app/api-key'' ''/app'' = ''API_KEY''" "KeyToEnvName ''/app/PATH'' ''/app'' = ''PATH''"
    by code_simp+
  have "env_order id [mk_Secret ''/app/api-key'' ''s'', mk_Secret ''/app/PATH'' ''x'']
      [''PATH=/bin''] ''/app'' [] [''API_KEY'']"
    by (simp add: env_order_def secretVars_def n excludeSet_def env_names_def entry_name_def Cut_def)
  from build_env_respects_existing [OF this] show ?thesis by blast
qed

text \<open>
  No secret is lost. If \<open>DetectEnvNameCollisions\<close> found nothing and the keys are distinct,
  every secret that is neither excluded nor shadowed by the caller's environment is in the
  result under its name with exactly its sanitized value.
\<close>

lemma build_env_complete:
  assumes "DetectEnvNameCollisions uni secrets p exclude = None"
    and "distinct (map sec_Key secrets)"
    and "env_order uni secrets existing p exclude ord"
    and "s \<in> set secrets"
    and "\<not> excludeSet uni exclude (KeyToEnvName (sec_Key s) p)"
    and "KeyToEnvName (sec_Key s) p \<notin> env_names existing"
  shows "KeyToEnvName (sec_Key s) p @ ''='' @ sanitize_value (sec_Value s)
    \<in> set (BuildEnv uni ord secrets existing p exclude)"
proof -
  let ?nm = "\<lambda>k. KeyToEnvName k p" and ?inj = "injected uni secrets existing p exclude"
  let ?kvs = "map (\<lambda>s. (?nm (sec_Key s), sanitize_value (sec_Value s))) ?inj"
  let ?ks = "filter (\<lambda>k. \<not> excludeSet uni exclude (?nm k)) (map sec_Key secrets)"
  have "distinct (map ?nm ?ks)"
    using env_guard.distinct_names assms(1,2) by (simp add: DetectEnvNameCollisions_def)
  then have "inj_on ?nm (set ?ks)" by (simp add: distinct_map)
  moreover have sub: "sec_Key ` set ?inj \<subseteq> set ?ks" by (auto simp: injected_def)
  moreover have "distinct (map sec_Key ?inj)"
    using assms(2) by (simp add: injected_def distinct_map_filter)
  ultimately have "distinct (map ?nm (map sec_Key ?inj))"
    using inj_on_subset [OF _ sub, of ?nm] by (simp only: distinct_map set_map)
  then have "distinct (map fst (rev ?kvs))" by (simp add: comp_def rev_map [symmetric])
  moreover have "s \<in> set ?inj" using assms(4-6) by (simp add: injected_def)
  then have "(?nm (sec_Key s), sanitize_value (sec_Value s)) \<in> set (rev ?kvs)" by auto
  ultimately have m: "secretVars uni secrets existing p exclude (?nm (sec_Key s)) =
      Some (sanitize_value (sec_Value s))"
    unfolding secretVars_map_of by (rule map_of_is_SomeI)
  then have "?nm (sec_Key s) \<in> set ord" using assms(3) by (auto simp: env_order_def)
  with m assms(4) show ?thesis by (force simp: BuildEnv_def Let_def image_iff)
qed

lemma build_env_complete_example:
  "''API_KEY=s'' \<in> set (BuildEnv id [''API_KEY''] [mk_Secret ''/app/api-key'' ''s''] [] ''/app'' [])"
proof -
  let ?s = "mk_Secret ''/app/api-key'' ''s''"
  have n: "KeyToEnvName ''/app/api-key'' ''/app'' = ''API_KEY''"
    by code_simp
  have "sanitize_value ''s'' = ''s''" by (simp add: sanitize_value_id)
  then show ?thesis
    using build_env_complete [of id "[?s]" "''/app''" "[]" "[]" "[''API_KEY'']" ?s]
    by (simp add: n DetectEnvNameCollisions_def excludeSet_def env_names_def env_order_def secretVars_def)
qed

end
