(* ===== verification/Signed_Envelope.thy ===== *)
theory Signed_Envelope
  imports Go_Prelude
begin

text \<open>
  Signed executor envelopes: building and verifying them (\<open>src/internal/syncer/envelope_client.go\<close>)
  and the replay store that makes their nonces single-use
  (\<open>src/internal/syncer/envelope_replay.go\<close>).

  Ed25519, SHA-256 and the JSON encoding of the signed document are fields of \<open>crypto\<close>; what is
  used of them is stated as \<open>crypto_ok\<close>: a signature made with a key verifies under its public
  key, signatures are 64 and digests 32 bytes long. The HTTP side of \<open>Submit\<close> is not modelled.
\<close>

record ExecutorEnvelope =
  ee_Version :: int
  ee_Audience :: string
  ee_Role :: string
  ee_ManifestDigest :: string
  ee_BodyDigest :: string
  ee_Nonce :: string
  ee_ExpiresAt :: gotime
  ee_Body :: string
  ee_Signature :: string

record crypto =
  cr_sha256 :: "string \<Rightarrow> string"
  cr_json :: "ExecutorEnvelope \<Rightarrow> string"
  cr_sign :: "string \<Rightarrow> string \<Rightarrow> string"
  cr_verify :: "string \<Rightarrow> string \<Rightarrow> string \<Rightarrow> bool"
  cr_public :: "string \<Rightarrow> string"

datatype envelope_error =
    EnvelopeInvalid string
  | ErrEnvelopeReplay
  | ErrEnvelopeReplayStoreFull
  | ErrEnvelopeReplayStoreUnavailable
  | ErrReplayRequest
  | ErrReplayExpired

definition EnvelopeVersion :: int where
  "EnvelopeVersion = 1"

definition second :: int where
  "second = 1000000000"

definition MaxEnvelopeTTL :: int where
  "MaxEnvelopeTTL = 15 * 60 * second"

text \<open>\<open>time.Time.MarshalJSON\<close> accepts the years 0 to 9999.\<close>

definition marshals :: "gotime \<Rightarrow> bool" where
  "marshals t \<longleftrightarrow> - 366 * 86400 * second \<le> t \<and> t < 3652059 * 86400 * second"

subsection \<open>Validation\<close>

definition validateRequiredField :: "string \<Rightarrow> string \<Rightarrow> envelope_error option" where
  "validateRequiredField val name =
     (if TrimSpace val = [] then Some (EnvelopeInvalid name) else None)"

definition validDigest :: "string \<Rightarrow> bool" where
  "validDigest val \<longleftrightarrow> HasPrefix val ''sha256:'' \<and>
     (let h = TrimPrefix val ''sha256:'' in length h = 64 \<and> list_all is_lower_hex h)"

definition digestBytes :: "crypto \<Rightarrow> string \<Rightarrow> string" where
  "digestBytes cr body = ''sha256:'' @ hex_EncodeToString (cr_sha256 cr body)"

definition validateExpiry :: "gotime \<Rightarrow> gotime \<Rightarrow> envelope_error option" where
  "validateExpiry expiresAt now =
     (if IsZero expiresAt then Some (EnvelopeInvalid ''expiry is required'')
      else if \<not> marshals expiresAt then Some (EnvelopeInvalid ''invalid expiry'')
      else if \<not> After expiresAt now then Some (EnvelopeInvalid ''expiry is not in the future'')
      else if MaxEnvelopeTTL < expiresAt - now then Some (EnvelopeInvalid ''expiry exceeds maximum TTL'')
      else None)"

definition validateEnvelopeFields :: "crypto \<Rightarrow> ExecutorEnvelope \<Rightarrow> envelope_error option" where
  "validateEnvelopeFields cr e =
     (if ee_Version e \<noteq> EnvelopeVersion then Some (EnvelopeInvalid ''unsupported version'')
      else first_err (validateRequiredField (ee_Audience e) ''audience'')
        (first_err (validateRequiredField (ee_Role e) ''role'')
        (first_err (validateRequiredField (ee_ManifestDigest e) ''manifest digest'')
        (if \<not> validDigest (ee_ManifestDigest e) then Some (EnvelopeInvalid ''invalid manifest digest'')
         else first_err (validateRequiredField (ee_BodyDigest e) ''body digest'')
        (if \<not> validDigest (ee_BodyDigest e) then Some (EnvelopeInvalid ''invalid body digest'')
         else first_err (validateRequiredField (ee_Nonce e) ''nonce'')
        (if ee_Body e = [] then Some (EnvelopeInvalid ''body is required'')
         else if digestBytes cr (ee_Body e) \<noteq> ee_BodyDigest e
         then Some (EnvelopeInvalid ''body digest mismatch'')
         else if \<not> marshals (ee_ExpiresAt e) then Some (EnvelopeInvalid ''invalid expiry'')
         else None))))))"

definition validateEnvelope :: "crypto \<Rightarrow> ExecutorEnvelope \<Rightarrow> gotime \<Rightarrow> envelope_error option" where
  "validateEnvelope cr e now =
     first_err (validateEnvelopeFields cr e)
    (first_err (validateExpiry (ee_ExpiresAt e) now)
    (if length (ee_Signature e) \<noteq> 64 then Some (EnvelopeInvalid ''invalid signature'') else None))"

text \<open>The bytes that are signed: every field but the signature.\<close>

definition CanonicalSigningBytes :: "crypto \<Rightarrow> ExecutorEnvelope option \<Rightarrow> envelope_error + string" where
  "CanonicalSigningBytes cr env = (case env of
      None \<Rightarrow> Inl (EnvelopeInvalid ''missing envelope'')
    | Some e \<Rightarrow> (case validateEnvelopeFields cr e of
          Some err \<Rightarrow> Inl err
        | None \<Rightarrow> Inr (cr_json cr (e\<lparr>ee_Signature := []\<rparr>))))"

subsection \<open>Building and verifying\<close>

definition build_error ::
    "string \<Rightarrow> string \<Rightarrow> string \<Rightarrow> string \<Rightarrow> gotime \<Rightarrow> string \<Rightarrow> string \<Rightarrow> gotime \<Rightarrow> envelope_error option" where
  "build_error manifestDigest role audience nonce expiresAt body signer now =
     first_err (validateRequiredField manifestDigest ''manifest digest'')
    (if \<not> validDigest manifestDigest then Some (EnvelopeInvalid ''invalid manifest digest'')
     else first_err (validateRequiredField role ''role'')
    (first_err (validateRequiredField audience ''audience'')
    (first_err (validateRequiredField nonce ''nonce'')
    (if body = [] then Some (EnvelopeInvalid ''body is required'')
     else if length signer \<noteq> 64 then Some (EnvelopeInvalid ''invalid signer'')
     else validateExpiry expiresAt now))))"

definition unsigned_envelope ::
    "crypto \<Rightarrow> string \<Rightarrow> string \<Rightarrow> string \<Rightarrow> string \<Rightarrow> gotime \<Rightarrow> string \<Rightarrow> ExecutorEnvelope" where
  "unsigned_envelope cr manifestDigest role audience nonce expiresAt body =
     \<lparr>ee_Version = EnvelopeVersion, ee_Audience = audience, ee_Role = role,
      ee_ManifestDigest = manifestDigest, ee_BodyDigest = digestBytes cr body, ee_Nonce = nonce,
      ee_ExpiresAt = expiresAt, ee_Body = body, ee_Signature = []\<rparr>"

definition BuildSignedEnvelope ::
    "crypto \<Rightarrow> string \<Rightarrow> string \<Rightarrow> string \<Rightarrow> string \<Rightarrow> gotime \<Rightarrow> string \<Rightarrow> string \<Rightarrow> gotime
      \<Rightarrow> envelope_error + ExecutorEnvelope" where
  "BuildSignedEnvelope cr manifestDigest role audience nonce expiresAt body signer now =
     (case build_error manifestDigest role audience nonce expiresAt body signer now of
        Some e \<Rightarrow> Inl e
      | None \<Rightarrow>
          let env = unsigned_envelope cr manifestDigest role audience nonce expiresAt body
          in (case CanonicalSigningBytes cr (Some env) of
                Inl e \<Rightarrow> Inl e
              | Inr bytes \<Rightarrow> Inr (env\<lparr>ee_Signature := cr_sign cr signer bytes\<rparr>)))"

definition VerifySignedEnvelope ::
    "crypto \<Rightarrow> ExecutorEnvelope option \<Rightarrow> string \<Rightarrow> gotime \<Rightarrow> envelope_error option" where
  "VerifySignedEnvelope cr env publicKey now = (case env of
      None \<Rightarrow> Some (EnvelopeInvalid ''missing envelope'')
    | Some e \<Rightarrow> first_err (validateEnvelope cr e now)
        (if length publicKey \<noteq> 32 then Some (EnvelopeInvalid ''invalid verifier key'')
         else (case CanonicalSigningBytes cr env of
             Inl err \<Rightarrow> Some err
           | Inr bytes \<Rightarrow>
               if \<not> cr_verify cr publicKey bytes (ee_Signature e)
               then Some (EnvelopeInvalid ''invalid signature'') else None)))"

definition crypto_ok :: "crypto \<Rightarrow> bool" where
  "crypto_ok cr \<longleftrightarrow>
     (\<forall>m. length (cr_sha256 cr m) = 32) \<and>
     (\<forall>k m. length k = 64 \<longrightarrow> length (cr_sign cr k m) = 64 \<and> length (cr_public cr k) = 32
        \<and> cr_verify cr (cr_public cr k) m (cr_sign cr k m))"

lemma digestBytes_valid:
  assumes "crypto_ok cr"
  shows "validDigest (digestBytes cr b)" "validateRequiredField (digestBytes cr b) name = None"
proof -
  show "validDigest (digestBytes cr b)"
    using assms hex_EncodeToString_lower_hex
    by (simp add: validDigest_def digestBytes_def TrimPrefix_def HasPrefix_def crypto_ok_def Let_def)
  have "CHR ''s'' \<in> set (TrimSpace (digestBytes cr b))"
    by (rule TrimSpace_keeps) (simp_all add: digestBytes_def space_runes_def)
  then show "validateRequiredField (digestBytes cr b) name = None"
    by (auto simp: validateRequiredField_def)
qed

lemma validateEnvelopeFields_signature:
  "validateEnvelopeFields cr (e\<lparr>ee_Signature := sig\<rparr>) = validateEnvelopeFields cr e"
  by (simp add: validateEnvelopeFields_def)

lemma unsigned_envelope_valid:
  assumes "crypto_ok cr"
    and "build_error manifestDigest role audience nonce expiresAt body signer now = None"
  shows "validateEnvelopeFields cr
    (unsigned_envelope cr manifestDigest role audience nonce expiresAt body) = None"
  using assms digestBytes_valid [OF assms(1)]
  by (auto simp: build_error_def validateEnvelopeFields_def unsigned_envelope_def validateExpiry_def
      split: if_splits)

lemma build_verifies:
  assumes "crypto_ok cr"
    and "BuildSignedEnvelope cr manifestDigest role audience nonce expiresAt body signer now = Inr env"
    and "now \<le> now'" and "now' < expiresAt"
  shows "VerifySignedEnvelope cr (Some env) (cr_public cr signer) now' = None"
proof -
  let ?u = "unsigned_envelope cr manifestDigest role audience nonce expiresAt body"
  from assms(2) have be: "build_error manifestDigest role audience nonce expiresAt body signer now = None"
    by (cases "build_error manifestDigest role audience nonce expiresAt body signer now")
      (simp_all add: BuildSignedEnvelope_def)
  then have u: "validateEnvelopeFields cr ?u = None" by (rule unsigned_envelope_valid [OF assms(1)])
  have sig: "?u\<lparr>ee_Signature := []\<rparr> = ?u" "ee_ExpiresAt ?u = expiresAt"
    by (simp_all add: unsigned_envelope_def)
  then have env: "env = ?u\<lparr>ee_Signature := cr_sign cr signer (cr_json cr ?u)\<rparr>"
    using assms(2) be u by (simp add: BuildSignedEnvelope_def CanonicalSigningBytes_def Let_def)
  have ex: "validateExpiry expiresAt now = None" "length signer = 64"
    using be by (auto simp: build_error_def split: if_splits)
  then have "validateExpiry expiresAt now' = None"
    using assms(3,4) by (auto simp: validateExpiry_def After_def split: if_splits)
  then show ?thesis
    using assms(1) ex(2) u unfolding env
    by (simp add: VerifySignedEnvelope_def validateEnvelope_def validateEnvelopeFields_signature
        CanonicalSigningBytes_def crypto_ok_def sig)
qed

text \<open>
  C40: what \<open>BuildSignedEnvelope\<close> builds, \<open>VerifySignedEnvelope\<close> accepts under the matching public
  key, at any time from the build until the envelope expires.
\<close>

theorem built_envelope_verifies:
  assumes "crypto_ok cr"
    and "BuildSignedEnvelope cr manifestDigest role audience nonce expiresAt body signer now = Inr env"
    and "now \<le> now'" and "now' < expiresAt"
  shows "VerifySignedEnvelope cr (Some env) (cr_public cr signer) now' = None"
  by (rule build_verifies [OF assms])

text \<open>A toy instance of the cryptography, to show that its laws can hold.\<close>

definition toy_crypto :: crypto where
  "toy_crypto = \<lparr>cr_sha256 = (\<lambda>m. replicate 32 CHR ''h''), cr_json = ee_Nonce,
     cr_sign = (\<lambda>k m. replicate 64 CHR ''s''), cr_verify = (\<lambda>p m s. s = replicate 64 CHR ''s''),
     cr_public = (\<lambda>k. replicate 32 CHR ''p'')\<rparr>"

definition toy_digest :: string where
  "toy_digest = ''sha256:'' @ replicate 64 CHR ''a''"

lemma toy_crypto_ok: "crypto_ok toy_crypto"
  by (simp add: crypto_ok_def toy_crypto_def)

lemma toy_build:
  "\<exists>env. BuildSignedEnvelope toy_crypto toy_digest ''r'' ''a'' ''n'' 100 ''b'' (replicate 64 CHR ''k'') 50
     = Inr env"
proof -
  have "validDigest toy_digest"
    by (simp add: validDigest_def toy_digest_def HasPrefix_def TrimPrefix_def Let_def list_all_iff
        is_lower_hex_def less_eq_char_def)
  moreover have "CHR ''s'' \<in> set (TrimSpace toy_digest)"
    by (rule TrimSpace_keeps) (simp_all add: toy_digest_def space_runes_def)
  then have "validateRequiredField toy_digest name = None" for name
    by (auto simp: validateRequiredField_def)
  moreover have "validateRequiredField [c] name = None" if "c \<in> {CHR ''r'', CHR ''a'', CHR ''n''}" for c name
    using that TrimSpace_keeps [of c "[c]"] by (auto simp: validateRequiredField_def space_runes_def)
  ultimately have be: "build_error toy_digest ''r'' ''a'' ''n'' 100 ''b'' (replicate 64 CHR ''k'') 50 = None"
    by (simp add: build_error_def validateExpiry_def IsZero_def marshals_def second_def After_def
        MaxEnvelopeTTL_def)
  then show ?thesis
    using unsigned_envelope_valid [OF toy_crypto_ok be]
    by (simp add: BuildSignedEnvelope_def CanonicalSigningBytes_def Let_def)
qed

theorem built_envelope_verifies_witness:
  "\<exists>env. BuildSignedEnvelope toy_crypto toy_digest ''r'' ''a'' ''n'' 100 ''b'' (replicate 64 CHR ''k'') 50
     = Inr env
   \<and> VerifySignedEnvelope toy_crypto (Some env) (cr_public toy_crypto (replicate 64 CHR ''k'')) 60 = None"
  using built_envelope_verifies [OF toy_crypto_ok, where now = 50 and now' = 60 and expiresAt = 100] toy_build
  by fastforce

end
