(* ===== verification/Envelope_Replay.thy ===== *)
theory Envelope_Replay
  imports Signed_Envelope
begin

text \<open>
  The replay authority of signed envelopes, \<open>src/internal/syncer/envelope_replay.go\<close>.

  \<open>EnvelopeReplayStore\<close> is an interface in the code, so it is the locale \<open>replay_authority\<close> here:
  its laws are the sentences of the interface's comment, and what
  \<open>VerifyAndConsumeSignedEnvelope\<close> promises is proved from them. The in-memory store
  interprets it. Its map is an association list, newest entry first.
\<close>

record EnvelopeReplayScope =
  rp_Audience :: string
  rp_Role :: string
  rp_Nonce :: string

record replay_entry =
  re_digest :: string
  re_expiresAt :: gotime

record replay_store =
  rs_entries :: "(EnvelopeReplayScope \<times> replay_entry) list"
  rs_capacity :: int

definition defaultEnvelopeReplayStoreCapacity :: int where
  "defaultEnvelopeReplayStoreCapacity = 1024"

subsection \<open>The in-memory store\<close>

text \<open>The variadic \<open>capacity\<close> is an option: only its first element counts.\<close>

definition NewInMemoryEnvelopeReplayStore :: "int option \<Rightarrow> replay_store" where
  "NewInMemoryEnvelopeReplayStore capacity =
     \<lparr>rs_entries = [],
      rs_capacity = (case capacity of
          Some c \<Rightarrow> if 0 < c then c else defaultEnvelopeReplayStoreCapacity
        | None \<Rightarrow> defaultEnvelopeReplayStoreCapacity)\<rparr>"

definition validateEnvelopeReplayScope :: "EnvelopeReplayScope \<Rightarrow> envelope_error option" where
  "validateEnvelopeReplayScope scope =
     (if validateRequiredField (rp_Audience scope) ''audience'' \<noteq> None then Some ErrReplayRequest
      else if validateRequiredField (rp_Role scope) ''role'' \<noteq> None then Some ErrReplayRequest
      else if validateRequiredField (rp_Nonce scope) ''nonce'' \<noteq> None then Some ErrReplayRequest
      else None)"

definition ensureInitializedLocked :: "replay_store \<Rightarrow> replay_store" where
  "ensureInitializedLocked s =
     (if rs_capacity s \<le> 0 then s\<lparr>rs_capacity := defaultEnvelopeReplayStoreCapacity\<rparr> else s)"

definition cleanupExpiredLocked :: "gotime \<Rightarrow> replay_store \<Rightarrow> replay_store" where
  "cleanupExpiredLocked now s =
     s\<lparr>rs_entries := filter (\<lambda>(scope, entry). After (re_expiresAt entry) now) (rs_entries s)\<rparr>"

definition Consume ::
    "replay_store \<Rightarrow> EnvelopeReplayScope \<Rightarrow> string \<Rightarrow> gotime \<Rightarrow> gotime
      \<Rightarrow> replay_store \<times> (envelope_error + bool)" where
  "Consume s scope digest expiresAt now =
     (case validateEnvelopeReplayScope scope of
        Some e \<Rightarrow> (s, Inl e)
      | None \<Rightarrow>
          if \<not> validDigest digest then (s, Inl ErrReplayRequest)
          else if IsZero expiresAt \<or> \<not> After expiresAt now then (s, Inl ErrReplayExpired)
          else let s1 = cleanupExpiredLocked now (ensureInitializedLocked s)
               in if map_of (rs_entries s1) scope \<noteq> None then (s1, Inr False)
                  else if rs_capacity s1 \<le> int (length (rs_entries s1))
                  then (s1, Inl ErrEnvelopeReplayStoreFull)
                  else (s1\<lparr>rs_entries := (scope, \<lparr>re_digest = digest, re_expiresAt = expiresAt\<rparr>)
                                            # rs_entries s1\<rparr>, Inr True))"

definition store_Len :: "replay_store \<Rightarrow> nat" where
  "store_Len s = length (rs_entries s)"

subsection \<open>Verifying and consuming\<close>

definition envelope_scope :: "ExecutorEnvelope \<Rightarrow> EnvelopeReplayScope" where
  "envelope_scope e = \<lparr>rp_Audience = ee_Audience e, rp_Role = ee_Role e, rp_Nonce = ee_Nonce e\<rparr>"

text \<open>The store is a parameter: its state and its \<open>Consume\<close> method; \<open>None\<close> is the nil interface.\<close>

definition VerifyAndConsumeSignedEnvelope ::
    "('st \<Rightarrow> EnvelopeReplayScope \<Rightarrow> string \<Rightarrow> gotime \<Rightarrow> gotime \<Rightarrow> 'st \<times> (envelope_error + bool))
      \<Rightarrow> crypto \<Rightarrow> ExecutorEnvelope option \<Rightarrow> string \<Rightarrow> gotime \<Rightarrow> 'st option
      \<Rightarrow> 'st option \<times> envelope_error option" where
  "VerifyAndConsumeSignedEnvelope consume cr env publicKey now store =
     (case VerifySignedEnvelope cr env publicKey now of
        Some e \<Rightarrow> (store, Some e)
      | None \<Rightarrow> (case (store, env, CanonicalSigningBytes cr env) of
            (None, _, _) \<Rightarrow> (store, Some ErrEnvelopeReplayStoreUnavailable)
          | (Some st, None, _) \<Rightarrow> (store, Some (EnvelopeInvalid ''missing envelope''))
          | (Some st, Some e, Inl _) \<Rightarrow> (store, Some (EnvelopeInvalid ''canonical digest failed''))
          | (Some st, Some e, Inr canonical) \<Rightarrow>
              (case consume st (envelope_scope e) (digestBytes cr canonical) (ee_ExpiresAt e) now of
                 (st', Inl err) \<Rightarrow>
                   (Some st', Some (if err = ErrEnvelopeReplayStoreFull then ErrEnvelopeReplayStoreFull
                                    else ErrEnvelopeReplayStoreUnavailable))
               | (st', Inr False) \<Rightarrow> (Some st', Some ErrEnvelopeReplay)
               | (st', Inr True) \<Rightarrow> (Some st', None))))"

text \<open>A run of a verifier: the envelopes it is given and the time of each call.\<close>

fun verify_run ::
    "('st \<Rightarrow> EnvelopeReplayScope \<Rightarrow> string \<Rightarrow> gotime \<Rightarrow> gotime \<Rightarrow> 'st \<times> (envelope_error + bool))
      \<Rightarrow> crypto \<Rightarrow> string \<Rightarrow> 'st option \<Rightarrow> (ExecutorEnvelope option \<times> gotime) list \<Rightarrow> 'st option" where
  "verify_run consume cr pk st [] = st"
| "verify_run consume cr pk st ((env, now) # calls) =
     verify_run consume cr pk (fst (VerifyAndConsumeSignedEnvelope consume cr env pk now st)) calls"

subsection \<open>The contract of a replay store\<close>

text \<open>
  \<open>held st scope\<close> is until when the store refuses the scope. A store starts to hold a scope when
  it accepts it, refuses what it holds, and does not let go of it before it expires.
\<close>

locale replay_authority =
  fixes consume :: "'st \<Rightarrow> EnvelopeReplayScope \<Rightarrow> string \<Rightarrow> gotime \<Rightarrow> gotime \<Rightarrow> 'st \<times> (envelope_error + bool)"
    and held :: "'st \<Rightarrow> EnvelopeReplayScope \<Rightarrow> gotime option"
  assumes accept_holds: "consume st scope d expiry now = (st', Inr True) \<Longrightarrow> held st' scope = Some expiry"
    and held_refuses: "held st scope = Some expiry \<Longrightarrow> now < expiry \<Longrightarrow>
      snd (consume st scope d expiry' now) \<noteq> Inr True"
    and held_kept: "held st scope = Some expiry \<Longrightarrow> now < expiry \<Longrightarrow>
      held (fst (consume st scope' d expiry' now)) scope = Some expiry"
begin

text \<open>A verifier only ever changes its store by one call of \<open>consume\<close>.\<close>

lemma accept_cases:
  assumes "VerifyAndConsumeSignedEnvelope consume cr env pk now (Some st) = (st', err)"
  shows "(st' = Some st \<and> err \<noteq> None) \<or>
    (\<exists>e d. env = Some e \<and> st' = Some (fst (consume st (envelope_scope e) d (ee_ExpiresAt e) now))
       \<and> (err = None \<longleftrightarrow> snd (consume st (envelope_scope e) d (ee_ExpiresAt e) now) = Inr True))"
proof (cases "VerifySignedEnvelope cr env pk now")
  case (Some e)
  with assms show ?thesis by (auto simp: VerifyAndConsumeSignedEnvelope_def)
next
  case None
  then obtain e where e: "env = Some e" by (cases env) (auto simp: VerifySignedEnvelope_def)
  show ?thesis
  proof (cases "CanonicalSigningBytes cr env")
    case (Inl x)
    with assms None e show ?thesis by (auto simp: VerifyAndConsumeSignedEnvelope_def)
  next
    case (Inr b)
    obtain st2 res where c: "consume st (envelope_scope e) (digestBytes cr b) (ee_ExpiresAt e) now = (st2, res)"
      by fastforce
    have "st' = Some st2 \<and> (err = None \<longleftrightarrow> res = Inr True)"
      using assms None e Inr c
      by (cases res) (auto simp: VerifyAndConsumeSignedEnvelope_def split: bool.splits)
    then show ?thesis using e c by (metis fst_conv snd_conv)
  qed
qed

lemma run_keeps_held:
  assumes "held st scope = Some expiry" and "\<forall>(env, now) \<in> set calls. now < expiry"
  shows "\<exists>st'. verify_run consume cr pk (Some st) calls = Some st' \<and> held st' scope = Some expiry"
  using assms
proof (induction calls arbitrary: st)
  case (Cons a calls)
  obtain env now where a: "a = (env, now)" by fastforce
  obtain st2 err where r: "VerifyAndConsumeSignedEnvelope consume cr env pk now (Some st) = (st2, err)" by fastforce
  have "\<exists>st'. st2 = Some st' \<and> held st' scope = Some expiry"
    using accept_cases [OF r] held_kept [OF Cons.prems(1)] Cons.prems a by fastforce
  with Cons a r show ?case by auto
qed simp

lemma no_second_accept:
  assumes "VerifyAndConsumeSignedEnvelope consume cr (Some e1) pk t1 (Some st) = (st1, None)"
    and "\<forall>(env, now) \<in> set calls. now < ee_ExpiresAt e1"
    and "envelope_scope e2 = envelope_scope e1" and "t2 < ee_ExpiresAt e1"
  shows "snd (VerifyAndConsumeSignedEnvelope consume cr (Some e2) pk t2 (verify_run consume cr pk st1 calls)) \<noteq> None"
proof -
  from accept_cases [OF assms(1)] obtain d where
    c: "snd (consume st (envelope_scope e1) d (ee_ExpiresAt e1) t1) = Inr True"
    "st1 = Some (fst (consume st (envelope_scope e1) d (ee_ExpiresAt e1) t1))"
    by auto
  then have "held (fst (consume st (envelope_scope e1) d (ee_ExpiresAt e1) t1)) (envelope_scope e1) =
      Some (ee_ExpiresAt e1)"
    using accept_holds by (metis prod.collapse)
  from run_keeps_held [OF this assms(2)] c(2) obtain st3 where
    st3: "verify_run consume cr pk st1 calls = Some st3" "held st3 (envelope_scope e1) = Some (ee_ExpiresAt e1)"
    by blast
  obtain s4 err where r: "VerifyAndConsumeSignedEnvelope consume cr (Some e2) pk t2 (Some st3) = (s4, err)" by fastforce
  have "err \<noteq> None"
    using accept_cases [OF r] held_refuses [OF st3(2) assms(4)] assms(3) by auto
  with st3(1) r show ?thesis by simp
qed

end

subsection \<open>The in-memory store keeps the contract\<close>

definition store_held :: "replay_store \<Rightarrow> EnvelopeReplayScope \<Rightarrow> gotime option" where
  "store_held s scope = map_option re_expiresAt (map_of (rs_entries s) scope)"

lemma map_of_filter_live:
  "map_of xs k = Some v \<Longrightarrow> P (k, v) \<Longrightarrow> map_of (filter P xs) k = Some v"
  by (induction xs) (auto split: if_splits)

lemma cleanup_keeps_live:
  assumes "store_held s scope = Some expiry" and "now < expiry"
  shows "store_held (cleanupExpiredLocked now (ensureInitializedLocked s)) scope = Some expiry"
proof -
  obtain v where v: "map_of (rs_entries s) scope = Some v" "re_expiresAt v = expiry"
    using assms(1) by (auto simp: store_held_def)
  then have "map_of (filter (\<lambda>(scope, entry). After (re_expiresAt entry) now) (rs_entries s)) scope = Some v"
    using map_of_filter_live [OF v(1), of "\<lambda>(scope, entry). After (re_expiresAt entry) now"] assms(2)
    by (simp add: After_def)
  with v(2) show ?thesis
    by (simp add: store_held_def cleanupExpiredLocked_def ensureInitializedLocked_def)
qed

lemma Consume_cases:
  assumes "Consume s scope d expiry now = (s', r)"
  obtains (rejected) err where "s' = s" "r = Inl err"
  | (replay) "s' = cleanupExpiredLocked now (ensureInitializedLocked s)" "r = Inr False"
      "store_held s' scope \<noteq> None"
  | (full) "s' = cleanupExpiredLocked now (ensureInitializedLocked s)" "r = Inl ErrEnvelopeReplayStoreFull"
      "rs_capacity s' \<le> int (length (rs_entries s'))"
  | (accepted) s1 where "s1 = cleanupExpiredLocked now (ensureInitializedLocked s)" "r = Inr True"
      "map_of (rs_entries s1) scope = None" "int (length (rs_entries s1)) < rs_capacity s1"
      "s' = s1\<lparr>rs_entries := (scope, \<lparr>re_digest = d, re_expiresAt = expiry\<rparr>) # rs_entries s1\<rparr>"
proof (cases "validateEnvelopeReplayScope scope = None \<and> validDigest d \<and> \<not> IsZero expiry \<and> After expiry now")
  case False
  with assms have "s' = s \<and> (\<exists>err. r = Inl err)"
    by (cases "validateEnvelopeReplayScope scope") (auto simp: Consume_def split: if_splits)
  then show ?thesis using rejected by blast
next
  case True
  let ?s1 = "cleanupExpiredLocked now (ensureInitializedLocked s)"
  show ?thesis
  proof (cases "map_of (rs_entries ?s1) scope")
    case None
    show ?thesis
    proof (cases "rs_capacity ?s1 \<le> int (length (rs_entries ?s1))")
      case le: True
      then have "s' = ?s1 \<and> r = Inl ErrEnvelopeReplayStoreFull"
        using assms True None by (simp add: Consume_def Let_def)
      then show ?thesis using full le by blast
    next
      case less: False
      then have "s' = ?s1\<lparr>rs_entries := (scope, \<lparr>re_digest = d, re_expiresAt = expiry\<rparr>) # rs_entries ?s1\<rparr>
          \<and> r = Inr True"
        using assms True None by (simp add: Consume_def Let_def)
      then show ?thesis using accepted [OF refl _ None] less by (simp add: not_le)
    qed
  next
    case (Some v)
    then have "s' = ?s1 \<and> r = Inr False" using assms True by (simp add: Consume_def Let_def)
    moreover have "store_held ?s1 scope \<noteq> None" using Some by (simp add: store_held_def)
    ultimately show ?thesis using replay by blast
  qed
qed

interpretation memory_store: replay_authority Consume store_held
proof
  fix st st' scope d expiry now
  assume "Consume st scope d expiry now = (st', Inr True)"
  then show "store_held st' scope = Some expiry"
    by (cases rule: Consume_cases) (auto simp: store_held_def)
next
  fix st scope scope' d expiry expiry' now
  assume h: "store_held st scope = Some expiry" "now < expiry"
  note live = cleanup_keeps_live [OF h]
  obtain s2 r where c: "Consume st scope d expiry' now = (s2, r)" by fastforce
  from c show "snd (Consume st scope d expiry' now) \<noteq> Inr True"
    using live c by (cases rule: Consume_cases) (auto simp: store_held_def)
  obtain s3 r' where c': "Consume st scope' d expiry' now = (s3, r')" by fastforce
  from c' show "store_held (fst (Consume st scope' d expiry' now)) scope = Some expiry"
    using h(1) live c' by (cases rule: Consume_cases) (auto simp: store_held_def)
qed

text \<open>
  C30: a nonce is single-use. Once the verifier has accepted an envelope, it refuses every
  envelope with the same audience, role and nonce (whatever its body, digest or own expiry)
  until the accepted one has expired, no matter which envelopes it was given in between.
\<close>

theorem replay_never_accepted_twice:
  assumes "VerifyAndConsumeSignedEnvelope Consume cr (Some e1) pk t1 (Some st) = (st1, None)"
    and "\<forall>(env, now) \<in> set calls. now < ee_ExpiresAt e1"
    and "envelope_scope e2 = envelope_scope e1" and "t2 < ee_ExpiresAt e1"
  shows "snd (VerifyAndConsumeSignedEnvelope Consume cr (Some e2) pk t2
    (verify_run Consume cr pk st1 calls)) \<noteq> None"
  by (rule memory_store.no_second_accept [OF assms])

lemma toy_accepted:
  assumes "BuildSignedEnvelope toy_crypto toy_digest ''r'' ''a'' ''n'' 100 ''b'' (replicate 64 CHR ''k'') 50
     = Inr env"
  shows "snd (VerifyAndConsumeSignedEnvelope Consume toy_crypto (Some env)
      (cr_public toy_crypto (replicate 64 CHR ''k'')) 60 (Some (NewInMemoryEnvelopeReplayStore None))) = None"
    and "ee_ExpiresAt env = 100"
proof -
  let ?u = "unsigned_envelope toy_crypto toy_digest ''r'' ''a'' ''n'' 100 ''b''"
  have be: "build_error toy_digest ''r'' ''a'' ''n'' 100 ''b'' (replicate 64 CHR ''k'') 50 = None"
    using assms by (cases "build_error toy_digest ''r'' ''a'' ''n'' 100 ''b'' (replicate 64 CHR ''k'') 50")
      (simp_all add: BuildSignedEnvelope_def)
  note u = unsigned_envelope_valid [OF toy_crypto_ok be]
  with assms be obtain sig where env: "env = ?u\<lparr>ee_Signature := sig\<rparr>"
    by (auto simp: BuildSignedEnvelope_def CanonicalSigningBytes_def Let_def)
  show exp: "ee_ExpiresAt env = 100" by (simp add: env unsigned_envelope_def)
  have v: "VerifySignedEnvelope toy_crypto (Some env) (cr_public toy_crypto (replicate 64 CHR ''k'')) 60 = None"
    by (rule build_verifies [OF toy_crypto_ok assms]) simp_all
  have "validateEnvelopeReplayScope (envelope_scope env) = None"
    using be by (simp add: env unsigned_envelope_def envelope_scope_def validateEnvelopeReplayScope_def
        build_error_def split: if_splits)
  then have "snd (Consume (NewInMemoryEnvelopeReplayStore None) (envelope_scope env)
      (digestBytes toy_crypto b) 100 60) = Inr True" for b
    using digestBytes_valid(1) [OF toy_crypto_ok, of b]
    by (simp add: Consume_def IsZero_def After_def NewInMemoryEnvelopeReplayStore_def
        cleanupExpiredLocked_def ensureInitializedLocked_def defaultEnvelopeReplayStoreCapacity_def Let_def)
  then show "snd (VerifyAndConsumeSignedEnvelope Consume toy_crypto (Some env)
      (cr_public toy_crypto (replicate 64 CHR ''k'')) 60 (Some (NewInMemoryEnvelopeReplayStore None))) = None"
    using v u exp by (simp add: VerifyAndConsumeSignedEnvelope_def CanonicalSigningBytes_def env
        validateEnvelopeFields_signature case_prod_beta split: sum.split)
qed

theorem replay_never_accepted_twice_witness:
  "\<exists>env st1. VerifyAndConsumeSignedEnvelope Consume toy_crypto (Some env)
      (cr_public toy_crypto (replicate 64 CHR ''k'')) 60 (Some (NewInMemoryEnvelopeReplayStore None)) = (st1, None)
    \<and> snd (VerifyAndConsumeSignedEnvelope Consume toy_crypto (Some env)
        (cr_public toy_crypto (replicate 64 CHR ''k'')) 61 st1) \<noteq> None"
proof -
  obtain env where b: "BuildSignedEnvelope toy_crypto toy_digest ''r'' ''a'' ''n'' 100 ''b''
      (replicate 64 CHR ''k'') 50 = Inr env" using toy_build by blast
  obtain st1 where a: "VerifyAndConsumeSignedEnvelope Consume toy_crypto (Some env)
      (cr_public toy_crypto (replicate 64 CHR ''k'')) 60 (Some (NewInMemoryEnvelopeReplayStore None)) = (st1, None)"
    using toy_accepted(1) [OF b] by (metis prod.collapse)
  with replay_never_accepted_twice [OF a, of "[]" env 61] toy_accepted(2) [OF b] show ?thesis by auto
qed

subsection \<open>The store is bounded\<close>

inductive store_step :: "replay_store \<Rightarrow> replay_store \<Rightarrow> bool" where
  "store_step s (fst (Consume s scope d expiry now))"

definition store_ok :: "replay_store \<Rightarrow> bool" where
  "store_ok s \<longleftrightarrow> 0 < rs_capacity s \<and> int (length (rs_entries s)) \<le> rs_capacity s
     \<and> distinct (map fst (rs_entries s))"

lemma cleanup_ok: "store_ok s \<Longrightarrow> store_ok (cleanupExpiredLocked now (ensureInitializedLocked s))"
proof -
  assume ok: "store_ok s"
  have "int (length (filter P (rs_entries s))) \<le> rs_capacity s" for P
  proof -
    have "length (filter P (rs_entries s)) \<le> length (rs_entries s)" by (rule length_filter_le)
    then show ?thesis using ok unfolding store_ok_def by linarith
  qed
  with ok show ?thesis
    by (simp add: store_ok_def cleanupExpiredLocked_def ensureInitializedLocked_def distinct_map_filter)
qed

lemma Consume_ok: "store_ok s \<Longrightarrow> store_ok (fst (Consume s scope d expiry now))"
proof -
  assume ok: "store_ok s"
  obtain s' r where c: "Consume s scope d expiry now = (s', r)" by fastforce
  from c have "store_ok s'"
  proof (cases rule: Consume_cases)
    case (accepted s1)
    with cleanup_ok [OF ok, of now] show ?thesis by (auto simp: store_ok_def map_of_eq_None_iff)
  qed (use ok cleanup_ok in auto)
  with c show ?thesis by simp
qed

interpretation memory_bound: safe_system "\<lambda>s. \<exists>c. s = NewInMemoryEnvelopeReplayStore c" store_step store_ok
proof
  fix s
  assume "\<exists>c. s = NewInMemoryEnvelopeReplayStore c"
  then show "store_ok s"
    by (auto simp: store_ok_def NewInMemoryEnvelopeReplayStore_def defaultEnvelopeReplayStoreCapacity_def
        split: option.split)
next
  fix s s'
  assume "store_ok s" "store_step s s'"
  then show "store_ok s'" using Consume_ok by (auto elim: store_step.cases)
qed

text \<open>
  The store never holds more scopes than its capacity, and expired scopes never block a
  fresh one: once every held scope has expired, a valid request is accepted.
\<close>

lemma replay_store_bounded_and_live:
  assumes "store_step\<^sup>*\<^sup>* (NewInMemoryEnvelopeReplayStore c) s"
  shows "int (store_Len s) \<le> rs_capacity s
    \<and> ((\<forall>(scope, entry) \<in> set (rs_entries s). re_expiresAt entry \<le> now) \<longrightarrow>
       validateEnvelopeReplayScope scope = None \<longrightarrow> validDigest d \<longrightarrow> now < expiry \<longrightarrow> \<not> IsZero expiry \<longrightarrow>
       snd (Consume s scope d expiry now) = Inr True)"
proof -
  have ok: "store_ok s" using memory_bound.reachable_good assms by blast
  have "filter (\<lambda>(scope, entry). After (re_expiresAt entry) now) (rs_entries s) = []"
    if "\<forall>(scope, entry) \<in> set (rs_entries s). re_expiresAt entry \<le> now"
    using that by (auto simp: filter_empty_conv After_def)
  with ok show ?thesis
    by (auto simp: store_ok_def store_Len_def Consume_def Let_def cleanupExpiredLocked_def
        ensureInitializedLocked_def After_def)
qed

lemma replay_store_bounded_and_live_example:
  "int (store_Len (fst (Consume (NewInMemoryEnvelopeReplayStore (Some 1))
      \<lparr>rp_Audience = ''a'', rp_Role = ''r'', rp_Nonce = ''n''\<rparr> toy_digest 100 50))) \<le> 1"
proof -
  let ?s = "fst (Consume (NewInMemoryEnvelopeReplayStore (Some 1))
      \<lparr>rp_Audience = ''a'', rp_Role = ''r'', rp_Nonce = ''n''\<rparr> toy_digest 100 50)"
  have "store_step\<^sup>*\<^sup>* (NewInMemoryEnvelopeReplayStore (Some 1)) ?s"
    by (blast intro: store_step.intros)
  from replay_store_bounded_and_live [OF this] have "int (store_Len ?s) \<le> rs_capacity ?s" by blast
  moreover have "rs_capacity (fst (Consume (NewInMemoryEnvelopeReplayStore (Some 1)) sc d e n)) = 1" for sc d e n
    by (cases "Consume (NewInMemoryEnvelopeReplayStore (Some 1)) sc d e n" rule: prod.exhaust,
        frule Consume_cases)
      (auto simp: NewInMemoryEnvelopeReplayStore_def cleanupExpiredLocked_def ensureInitializedLocked_def)
  ultimately show ?thesis by simp
qed

end
