(* ===== verification/Http_Retry.thy ===== *)
theory Http_Retry
  imports Go_Prelude
begin

text \<open>
  The two ways the sync targets talk to a provider, \<open>src/internal/syncer/retry.go\<close>: reads are
  retried (\<open>doWithRetry\<close>), mutations are sent once (\<open>doMutation\<close>), because a failed mutation may
  have had its effect.

  The outside world is a script: what the context, the request factory, the transport and the
  timer do at each attempt. A result comes with the number of requests that were sent.
\<close>

datatype http_error =
    CtxError
  | RequestError
  | TransportError
  | HTTPStatusError int
  | MutationNeedsReconciliation "int option" http_error

text \<open>
  One attempt: is the context done before it, does the request factory fail, the response (a
  status, or \<open>None\<close> for a transport failure), is the context done when the transport fails, and
  does the context end the wait after it.
\<close>

record attempt =
  at_ctxDone :: bool
  at_requestFails :: bool
  at_response :: "int option"
  at_ctxDoneAfter :: bool
  at_waitAborted :: bool

definition maxHTTPAttempts :: nat where
  "maxHTTPAttempts = 3"

definition transient_statuses :: "int list" where
  "transient_statuses = [408, 425, 429, 500, 502, 503, 504]"

definition isTransientHTTPStatus :: "int \<Rightarrow> bool" where
  "isTransientHTTPStatus status \<longleftrightarrow> status \<in> set transient_statuses"

definition statusAllowed :: "int \<Rightarrow> int list \<Rightarrow> bool" where
  "statusAllowed status successStatuses \<longleftrightarrow> list_ex (\<lambda>s. status = s) successStatuses"

fun retry_loop ::
    "(nat \<Rightarrow> attempt) \<Rightarrow> int list \<Rightarrow> nat \<Rightarrow> nat \<Rightarrow> nat \<Rightarrow> (http_error + int) \<times> nat" where
  "retry_loop w ok i 0 sent = (Inl CtxError, sent)"
| "retry_loop w ok i (Suc left) sent =
     (if at_ctxDone (w i) then (Inl CtxError, sent)
      else if at_requestFails (w i) then (Inl RequestError, sent)
      else case at_response (w i) of
          None \<Rightarrow> (Inl (if at_ctxDoneAfter (w i) then CtxError else TransportError), Suc sent)
        | Some status \<Rightarrow>
            if statusAllowed status ok then (Inr status, Suc sent)
            else if \<not> isTransientHTTPStatus status \<or> i = maxHTTPAttempts - 1
            then (Inl (HTTPStatusError status), Suc sent)
            else if at_waitAborted (w i) then (Inl CtxError, Suc sent)
            else retry_loop w ok (Suc i) left (Suc sent))"

definition doWithRetry :: "(nat \<Rightarrow> attempt) \<Rightarrow> int list \<Rightarrow> (http_error + int) \<times> nat" where
  "doWithRetry w ok = retry_loop w ok 0 maxHTTPAttempts 0"

definition doMutation :: "attempt \<Rightarrow> int list \<Rightarrow> (http_error + int) \<times> nat" where
  "doMutation a ok =
     (if at_ctxDone a then (Inl CtxError, 0)
      else if at_requestFails a then (Inl RequestError, 0)
      else case at_response a of
          None \<Rightarrow> (Inl (MutationNeedsReconciliation None
                     (if at_ctxDoneAfter a then CtxError else TransportError)), 1)
        | Some status \<Rightarrow>
            if statusAllowed status ok then (Inr status, 1)
            else (Inl (MutationNeedsReconciliation (Some status) (HTTPStatusError status)), 1))"

lemma retry_loop_sent:
  "sent \<le> snd (retry_loop w ok i n sent) \<and> snd (retry_loop w ok i n sent) \<le> sent + n"
proof (induction w ok i n sent rule: retry_loop.induct)
  case (2 w ok i left sent)
  then show ?case by (cases "at_response (w i)") auto
qed simp

text \<open>Which attempt settles the call: none before it was final.\<close>

lemma retry_loop_result:
  assumes "i + n = maxHTTPAttempts" and "0 < n" and "retry_loop w ok i n sent = (r, sent')"
  shows "(\<forall>status. r = Inr status \<longrightarrow> statusAllowed status ok)
    \<and> (\<forall>status. r = Inl (HTTPStatusError status) \<longrightarrow> \<not> statusAllowed status ok
         \<and> (isTransientHTTPStatus status \<longrightarrow> sent' = sent + n))
    \<and> (\<forall>j. i \<le> j \<longrightarrow> Suc j < i + (sent' - sent) \<longrightarrow>
         (\<exists>status. at_response (w j) = Some status \<and> isTransientHTTPStatus status
            \<and> \<not> statusAllowed status ok))"
  using assms
proof (induction w ok i n sent rule: retry_loop.induct)
  case (2 w ok i left sent)
  show ?case
  proof (cases "\<exists>status. at_response (w i) = Some status \<and> \<not> at_ctxDone (w i) \<and> \<not> at_requestFails (w i)
      \<and> \<not> statusAllowed status ok \<and> isTransientHTTPStatus status \<and> i \<noteq> maxHTTPAttempts - 1
      \<and> \<not> at_waitAborted (w i)")
    case False
    with "2.prems" show ?thesis
      by (cases "at_response (w i)") (auto split: if_splits)
  next
    case True
    then obtain status where st: "at_response (w i) = Some status" "\<not> at_ctxDone (w i)"
      "\<not> at_requestFails (w i)" "\<not> statusAllowed status ok" "isTransientHTTPStatus status"
      "i \<noteq> maxHTTPAttempts - 1" "\<not> at_waitAborted (w i)" by blast
    then have next_step: "retry_loop w ok (Suc i) left (Suc sent) = (r, sent')"
      using "2.prems"(3) by simp
    have left: "Suc i + left = maxHTTPAttempts" "0 < left" using "2.prems"(1) st(6) by auto
    have "\<not> (\<not> isTransientHTTPStatus status \<or> i = maxHTTPAttempts - 1)" using st by simp
    note IH = "2.IH" [OF st(2,3,1,4) this st(7) left next_step]
    have "Suc sent \<le> sent'" using retry_loop_sent [of "Suc sent" w ok "Suc i" left] next_step by simp
    moreover have "\<exists>status. at_response (w j) = Some status \<and> isTransientHTTPStatus status
        \<and> \<not> statusAllowed status ok" if "i \<le> j" "Suc j < i + (sent' - sent)" for j
    proof (cases "j = i")
      case True
      with st show ?thesis by blast
    next
      case False
      with that \<open>Suc sent \<le> sent'\<close> have "Suc i \<le> j" "Suc j < Suc i + (sent' - Suc sent)" by auto
      with IH show ?thesis by blast
    qed
    ultimately show ?thesis using IH by auto
  qed
qed simp

text \<open>
  C38: reads are retried at most twice and only after transient answers; mutations are sent at
  most once. A read that succeeds has an allowed status, a read that gives up on a transient
  status has made all three attempts, and a mutation whose request was sent without an allowed
  answer is always reported as needing reconciliation.
\<close>

theorem retry_discipline:
  "snd (doWithRetry w ok) \<le> maxHTTPAttempts
   \<and> (\<forall>status. fst (doWithRetry w ok) = Inr status \<longrightarrow> statusAllowed status ok)
   \<and> (\<forall>status. fst (doWithRetry w ok) = Inl (HTTPStatusError status) \<longrightarrow> isTransientHTTPStatus status \<longrightarrow>
        snd (doWithRetry w ok) = maxHTTPAttempts)
   \<and> (\<forall>j. Suc j < snd (doWithRetry w ok) \<longrightarrow>
        (\<exists>status. at_response (w j) = Some status \<and> isTransientHTTPStatus status))
   \<and> snd (doMutation a ok) \<le> 1
   \<and> (snd (doMutation a ok) = 1 \<longrightarrow>
        (\<exists>status. fst (doMutation a ok) = Inr status \<and> statusAllowed status ok)
        \<or> (\<exists>status cause. fst (doMutation a ok) = Inl (MutationNeedsReconciliation status cause)))"
proof -
  obtain r sent where r: "doWithRetry w ok = (r, sent)" by fastforce
  have "sent \<le> maxHTTPAttempts"
    using retry_loop_sent [of 0 w ok 0 maxHTTPAttempts] r by (simp add: doWithRetry_def)
  moreover note retry_loop_result [of 0 maxHTTPAttempts w ok 0 r sent]
  ultimately have "sent \<le> maxHTTPAttempts" "\<forall>status. r = Inr status \<longrightarrow> statusAllowed status ok"
    "\<forall>status. r = Inl (HTTPStatusError status) \<longrightarrow> isTransientHTTPStatus status \<longrightarrow> sent = maxHTTPAttempts"
    "\<forall>j. Suc j < sent \<longrightarrow> (\<exists>status. at_response (w j) = Some status \<and> isTransientHTTPStatus status)"
    using r by (auto simp: doWithRetry_def maxHTTPAttempts_def)
  then show ?thesis
    unfolding r by (auto simp: doMutation_def split: option.split)
qed

theorem retry_discipline_witness:
  "snd (doWithRetry (\<lambda>_. \<lparr>at_ctxDone = False, at_requestFails = False, at_response = Some 503,
      at_ctxDoneAfter = False, at_waitAborted = False\<rparr>) [200]) = 3"
proof -
  let ?w = "\<lambda>_ :: nat. \<lparr>at_ctxDone = False, at_requestFails = False, at_response = Some 503,
      at_ctxDoneAfter = False, at_waitAborted = False\<rparr>"
  have "fst (doWithRetry ?w [200]) = Inl (HTTPStatusError 503)"
    by (simp add: doWithRetry_def maxHTTPAttempts_def numeral_3_eq_3 statusAllowed_def
        isTransientHTTPStatus_def transient_statuses_def)
  then show ?thesis
    using retry_discipline [of ?w "[200]"]
    by (simp add: isTransientHTTPStatus_def transient_statuses_def maxHTTPAttempts_def)
qed

end
