(* ===== verification/Go_Path.thy ===== *)
theory Go_Path
  imports Go_Prelude
begin

text \<open>
  The lexical part of Go's \<open>path/filepath\<close> on Unix that the modelled code calls: \<open>Clean\<close>,
  \<open>Join\<close>, \<open>Abs\<close>, \<open>Dir\<close> and \<open>Base\<close>. A path is split at its slashes; \<open>Clean\<close> keeps a stack of
  the elements that remain (top first), drops empty elements and \<open>.\<close>, and lets \<open>..\<close> remove
  the element before it.
\<close>

text \<open>\<open>strings.Split\<close> at a one-byte separator.\<close>

fun Split :: "char \<Rightarrow> string \<Rightarrow> string list" where
  "Split sep [] = [[]]"
| "Split sep (c # s) =
     (if c = sep then [] # Split sep s
      else case Split sep s of [] \<Rightarrow> [[c]] | x # xs \<Rightarrow> (c # x) # xs)"

definition rooted :: "string \<Rightarrow> bool" where
  "rooted path \<longleftrightarrow> HasPrefix path ''/''"

definition clean_step :: "bool \<Rightarrow> string list \<Rightarrow> string \<Rightarrow> string list" where
  "clean_step r stack elem =
     (if elem = [] \<or> elem = ''.'' then stack
      else if elem = ''..''
      then (case stack of
              [] \<Rightarrow> if r then [] else [''..'']
            | e # rest \<Rightarrow> if e = ''..'' then ''..'' # stack else rest)
      else elem # stack)"

definition clean_elems :: "string \<Rightarrow> string list" where
  "clean_elems path = rev (foldl (clean_step (rooted path)) [] (Split (CHR ''/'') path))"

definition filepath_Clean :: "string \<Rightarrow> string" where
  "filepath_Clean path =
     (let out = (if rooted path then ''/'' else []) @ Join (clean_elems path) ''/''
      in if out = [] then ''.'' else out)"

definition filepath_Join :: "string list \<Rightarrow> string" where
  "filepath_Join elems = (case dropWhile (\<lambda>e. e = []) elems of
      [] \<Rightarrow> [] | es \<Rightarrow> filepath_Clean (Join es ''/''))"

text \<open>\<open>wd\<close> is what \<open>os.Getwd\<close> returns, \<open>None\<close> when it fails.\<close>

definition filepath_Abs :: "string option \<Rightarrow> string \<Rightarrow> string option" where
  "filepath_Abs wd path =
     (if rooted path then Some (filepath_Clean path)
      else map_option (\<lambda>d. filepath_Join [d, path]) wd)"

definition filepath_Dir :: "string \<Rightarrow> string" where
  "filepath_Dir path = filepath_Clean (rev (dropWhile (\<lambda>c. c \<noteq> CHR ''/'') (rev path)))"

text \<open>\<open>Base\<close> of a path that does not end in a slash.\<close>

definition filepath_Base :: "string \<Rightarrow> string" where
  "filepath_Base path = rev (takeWhile (\<lambda>c. c \<noteq> CHR ''/'') (rev path))"

text \<open>
  A path and the directories above it, as the loops that go from \<open>current\<close> to \<open>filepath.Dir(current)\<close> until
  nothing changes. A clean rooted path has fewer directories above it than characters.
\<close>

fun dir_chain :: "nat \<Rightarrow> string \<Rightarrow> string list" where
  "dir_chain 0 current = []"
| "dir_chain (Suc n) current =
     current # (if filepath_Dir current = current then [] else dir_chain n (filepath_Dir current))"

definition ancestors :: "string \<Rightarrow> string list" where
  "ancestors path = dir_chain (length path) path"

text \<open>\<open>filepath.Rel\<close>: \<open>None\<close> when the target cannot be made relative to the base.\<close>

fun common_tail :: "string list \<Rightarrow> string list \<Rightarrow> string list \<times> string list" where
  "common_tail (x # xs) (y # ys) = (if x = y then common_tail xs ys else (x # xs, y # ys))"
| "common_tail xs ys = (xs, ys)"

definition filepath_Rel :: "string \<Rightarrow> string \<Rightarrow> string option" where
  "filepath_Rel base targ =
     (if rooted base \<noteq> rooted targ then None
      else case common_tail (clean_elems base) (clean_elems targ) of (bs, ts) \<Rightarrow>
        if bs \<noteq> [] \<and> hd bs = ''..'' then None
        else if bs = [] \<and> ts = [] then Some ''.''
        else Some (Join (replicate (length bs) ''..'' @ ts) ''/''))"

subsection \<open>Splitting and joining\<close>

lemma Split_not_Nil [simp]: "Split sep s \<noteq> []"
  by (cases s) (auto split: list.split)

lemma Split_no_sep: "sep \<notin> set s \<Longrightarrow> Split sep s = [s]"
  by (induction s) auto

lemma Split_append: "sep \<notin> set s \<Longrightarrow> Split sep (s @ sep # t) = s # Split sep t"
  by (induction s) auto

lemma Split_elems: "e \<in> set (Split sep s) \<Longrightarrow> sep \<notin> set e"
  by (induction sep s arbitrary: e rule: Split.induct) (auto split: if_splits list.splits)

lemma Split_Join:
  "es \<noteq> [] \<Longrightarrow> \<forall>e \<in> set es. sep \<notin> set e \<Longrightarrow> Split sep (Join es [sep]) = es"
  by (induction es "[sep]" rule: Join.induct) (auto simp: Split_no_sep Split_append)

lemma Join_append:
  "xs \<noteq> [] \<Longrightarrow> ys \<noteq> [] \<Longrightarrow> Join (xs @ ys) sep = Join xs sep @ sep @ Join ys sep"
proof (induction xs sep rule: Join.induct)
  case (2 x sep)
  then show ?case by (cases ys) auto
qed auto

lemma Split_append_Split:
  "Split sep (s @ sep # t) = Split sep s @ Split sep t"
  by (induction s) (auto split: list.split)

subsection \<open>Clean paths\<close>

text \<open>An element that \<open>Clean\<close> keeps wherever it stands.\<close>

definition plain_elem :: "string \<Rightarrow> bool" where
  "plain_elem e \<longleftrightarrow> e \<noteq> [] \<and> e \<noteq> ''.'' \<and> e \<noteq> ''..'' \<and> CHR ''/'' \<notin> set e"

lemma clean_step_plain: "plain_elem e \<Longrightarrow> clean_step r st e = e # st"
  by (simp add: clean_step_def plain_elem_def)

lemma clean_fold_plain:
  "\<forall>e \<in> set es. plain_elem e \<Longrightarrow> foldl (clean_step r) st es = rev es @ st"
  by (induction es arbitrary: st) (simp_all add: clean_step_plain)

lemma rooted_append: "p \<noteq> [] \<Longrightarrow> rooted (p @ q) = rooted p"
  by (cases p) (auto simp: rooted_def HasPrefix_def)

text \<open>Plain elements joined to a path stay below the clean path.\<close>

lemma clean_elems_Join:
  assumes "p \<noteq> []" and "es \<noteq> []" and "\<forall>e \<in> set es. plain_elem e"
  shows "clean_elems (Join (p # es) ''/'') = clean_elems p @ es"
proof -
  obtain e es' where es: "es = e # es'" using assms(2) by (cases es) auto
  have J: "Join (p # es) ''/'' = p @ CHR ''/'' # Join es ''/''" by (simp add: es)
  have "Split (CHR ''/'') (Join es ''/'') = es"
    using Split_Join [of es "CHR ''/''"] assms by (simp add: plain_elem_def)
  then have "Split (CHR ''/'') (Join (p # es) ''/'') = Split (CHR ''/'') p @ es"
    by (simp add: J Split_append_Split)
  moreover have "rooted (Join (p # es) ''/'') = rooted p" using assms(1) by (simp add: J rooted_append)
  ultimately show ?thesis
    using assms(3) by (simp add: clean_elems_def clean_fold_plain)
qed

text \<open>The shape of what \<open>Clean\<close> keeps: \<open>..\<close> only at the front of an unrooted path.\<close>

definition clean_list :: "bool \<Rightarrow> string list \<Rightarrow> bool" where
  "clean_list r es \<longleftrightarrow> (\<exists>k ps. es = replicate k ''..'' @ ps \<and> (\<forall>p \<in> set ps. plain_elem p) \<and> (r \<longrightarrow> k = 0))"

lemma clean_list_snoc: "clean_list r es \<Longrightarrow> plain_elem e \<Longrightarrow> clean_list r (es @ [e])"
proof -
  assume "clean_list r es" and e: "plain_elem e"
  then obtain k ps where "es = replicate k ''..'' @ ps" "\<forall>p \<in> set ps. plain_elem p" "r \<longrightarrow> k = 0"
    by (auto simp: clean_list_def)
  with e have "es @ [e] = replicate k ''..'' @ (ps @ [e])" "\<forall>p \<in> set (ps @ [e]). plain_elem p" "r \<longrightarrow> k = 0"
    by auto
  then show "clean_list r (es @ [e])" unfolding clean_list_def by blast
qed

lemma clean_step_clean:
  assumes "clean_list r (rev st)" and "CHR ''/'' \<notin> set e"
  shows "clean_list r (rev (clean_step r st e))"
proof -
  obtain k ps where kp: "rev st = replicate k ''..'' @ ps" "\<forall>p \<in> set ps. plain_elem p" "r \<longrightarrow> k = 0"
    using assms(1) by (auto simp: clean_list_def)
  consider "e = [] \<or> e = ''.''" | "e = ''..''" | "plain_elem e"
    using assms(2) by (auto simp: plain_elem_def)
  then show ?thesis
  proof cases
    case 1
    then show ?thesis using assms(1) by (auto simp: clean_step_def)
  next
    case 2
    show ?thesis
    proof (cases ps rule: rev_cases)
      case Nil
      then have st: "st = replicate k ''..''" using kp(1) by (metis append_Nil2 rev_replicate rev_rev_ident)
      then have "rev (clean_step r st e) = (if r then [] else replicate (Suc k) ''..'')"
        using 2 kp(3) by (cases k) (auto simp: clean_step_def rev_replicate replicate_append_same)
      then show ?thesis unfolding clean_list_def by (metis append_Nil2 empty_iff empty_set replicate_0)
    next
      case (snoc qs q)
      then have st: "st = q # rev (replicate k ''..'' @ qs)"
        using kp(1) by (metis append_assoc rev_append rev_rev_ident rev.simps append_Cons append_Nil)
      have "q \<noteq> ''..''" using kp(2) snoc by (simp add: plain_elem_def)
      then have "rev (clean_step r st e) = replicate k ''..'' @ qs"
        using 2 st by (simp add: clean_step_def)
      then show ?thesis using kp snoc unfolding clean_list_def by auto
    qed
  next
    case 3
    then show ?thesis using assms(1) by (simp add: clean_step_plain clean_list_snoc)
  qed
qed

lemma clean_elems_clean: "clean_list (rooted p) (clean_elems p)"
proof -
  have "clean_list r (rev st) \<Longrightarrow> \<forall>e \<in> set es. CHR ''/'' \<notin> set e \<Longrightarrow>
      clean_list r (rev (foldl (clean_step r) st es))" for r st es
    by (induction es arbitrary: st) (simp_all add: clean_step_clean)
  moreover have "clean_list r (rev [])" for r by (simp add: clean_list_def)
  moreover have "\<forall>e \<in> set (Split (CHR ''/'') p). CHR ''/'' \<notin> set e" by (simp add: Split_elems)
  ultimately show ?thesis by (simp add: clean_elems_def)
qed

lemma clean_fold_clean:
  assumes "clean_list r es" shows "foldl (clean_step r) [] es = rev es"
proof -
  obtain k ps where kp: "es = replicate k ''..'' @ ps" "\<forall>p \<in> set ps. plain_elem p" "r \<longrightarrow> k = 0"
    using assms by (auto simp: clean_list_def)
  have "\<not> r \<Longrightarrow> foldl (clean_step r) (replicate n ''..'') (replicate k ''..'') = replicate (k + n) ''..''" for n
  proof (induction k arbitrary: n)
    case (Suc k)
    have "clean_step r (replicate n ''..'') ''..'' = replicate (Suc n) ''..''"
      using Suc.prems by (cases n) (simp_all add: clean_step_def)
    with Suc.IH [of "Suc n"] Suc.prems show ?case by simp
  qed simp
  from this [of 0] kp(3) have "foldl (clean_step r) [] (replicate k ''..'') = replicate k ''..''" by auto
  with kp show ?thesis by (simp add: clean_fold_plain rev_replicate)
qed

text \<open>A clean list of elements is what its path is made of.\<close>

definition elems_path :: "bool \<Rightarrow> string list \<Rightarrow> string" where
  "elems_path r es = (if r then ''/'' else []) @ Join es ''/''"

lemma clean_list_elem: "clean_list r es \<Longrightarrow> e \<in> set es \<Longrightarrow> e \<noteq> [] \<and> CHR ''/'' \<notin> set e"
proof -
  assume "clean_list r es" "e \<in> set es"
  then obtain k ps where "e \<in> set (replicate k ''..'') \<union> set ps" "\<forall>p \<in> set ps. plain_elem p"
    unfolding clean_list_def by (metis set_append)
  then have "e = ''..'' \<or> plain_elem e" by (auto simp: in_set_replicate)
  then show "e \<noteq> [] \<and> CHR ''/'' \<notin> set e" by (auto simp: plain_elem_def)
qed

lemma Split_elems_path:
  assumes "clean_list r es" and "es \<noteq> []"
  shows "Split (CHR ''/'') (elems_path r es) = (if r then [[]] else []) @ es"
proof -
  have "\<forall>e \<in> set es. CHR ''/'' \<notin> set e" using clean_list_elem [OF assms(1)] by blast
  with Split_Join [OF assms(2)] have "Split (CHR ''/'') (Join es ''/'') = es" by blast
  then show ?thesis by (cases r) (simp_all add: elems_path_def)
qed

lemma rooted_elems_path:
  assumes "clean_list r es" and "es \<noteq> []" shows "rooted (elems_path r es) = r"
proof (cases r)
  case False
  obtain e es' where es: "es = e # es'" using assms(2) by (cases es) auto
  then obtain c s where "e = c # s" "c \<noteq> CHR ''/''" using clean_list_elem [OF assms(1), of e] by (cases e) auto
  with es False show ?thesis by (cases es') (auto simp: elems_path_def rooted_def HasPrefix_def)
qed (simp add: elems_path_def rooted_def HasPrefix_def)

lemma clean_elems_path:
  assumes "clean_list r es" and "es \<noteq> []" shows "clean_elems (elems_path r es) = es"
proof -
  have "foldl (clean_step r) [] ((if r then [[]] else []) @ es) = rev es"
    using clean_fold_clean [OF assms(1)] by (cases r) (simp_all add: clean_step_def)
  then show ?thesis
    by (simp add: clean_elems_def rooted_elems_path [OF assms] Split_elems_path [OF assms])
qed

lemma filepath_Clean_elems: "clean_elems p \<noteq> [] \<Longrightarrow> filepath_Clean p = elems_path (rooted p) (clean_elems p)"
proof -
  assume "clean_elems p \<noteq> []"
  moreover have "\<forall>e \<in> set (clean_elems p). e \<noteq> []" using clean_list_elem [OF clean_elems_clean] by blast
  ultimately have "Join (clean_elems p) ''/'' \<noteq> []"
    by (cases "clean_elems p"; cases "tl (clean_elems p)") auto
  then show ?thesis by (simp add: filepath_Clean_def elems_path_def Let_def)
qed

subsection \<open>The directories above a path\<close>

lemma clean_list_butlast: "clean_list r es \<Longrightarrow> r \<Longrightarrow> clean_list r (butlast es)"
  by (auto simp: clean_list_def dest: in_set_butlastD)

lemma elems_path_snoc: "es \<noteq> [] \<Longrightarrow> elems_path True (es @ [e]) = elems_path True es @ CHR ''/'' # e"
  using Join_append [of es "[e]"] by (simp add: elems_path_def)

lemma Clean_slash:
  assumes "clean_list True es"
  shows "filepath_Clean (elems_path True es @ ''/'') = elems_path True es"
proof (cases "es = []")
  case True
  have "filepath_Clean (elems_path True [] @ ''/'') = elems_path True []" by code_simp
  then show ?thesis using True by simp
next
  case False
  let ?p = "elems_path True es"
  have p: "?p \<noteq> []" "rooted (?p @ ''/'')" by (simp_all add: elems_path_def rooted_def HasPrefix_def)
  have "Split (CHR ''/'') (?p @ ''/'') = ([] # es) @ [[]]"
    using Split_append_Split [of "CHR ''/''" ?p "[]"] Split_elems_path [OF assms False] by simp
  then have "clean_elems (?p @ ''/'') = es"
    using clean_fold_clean [OF assms] p(2) by (simp add: clean_elems_def clean_step_def)
  then show ?thesis using filepath_Clean_elems [of "?p @ ''/''"] False p(2) by simp
qed

lemma Dir_elems:
  assumes "clean_list True es"
  shows "filepath_Dir (elems_path True es) = elems_path True (butlast es)"
proof (cases es rule: rev_cases)
  case Nil
  have "filepath_Dir (elems_path True []) = elems_path True (butlast [])" by code_simp
  then show ?thesis using Nil by simp
next
  case (snoc ds e)
  have e: "CHR ''/'' \<notin> set e" using clean_list_elem [OF assms] snoc by simp
  have p: "elems_path True es = (if ds = [] then ''/'' else elems_path True ds @ ''/'') @ e"
    using elems_path_snoc [of ds e] snoc by (simp add: elems_path_def)
  have "dropWhile (\<lambda>c. c \<noteq> CHR ''/'') (rev e @ CHR ''/'' # xs) = CHR ''/'' # xs" for xs
    using e by (subst dropWhile_append2) auto
  then have "rev (dropWhile (\<lambda>c. c \<noteq> CHR ''/'') (rev (elems_path True es))) =
      (if ds = [] then ''/'' else elems_path True ds @ ''/'')"
    unfolding p by simp
  moreover have "clean_list True ds" using clean_list_butlast [OF assms] snoc by simp
  moreover have "filepath_Clean ''/'' = ''/''" by code_simp
  ultimately show ?thesis using Clean_slash [of ds] snoc by (simp add: filepath_Dir_def elems_path_def)
qed

lemma elems_path_inj:
  assumes "clean_list True es" and "clean_list True es'" and "elems_path True es = elems_path True es'"
  shows "es = es'"
proof (cases "es = [] \<or> es' = []")
  case True
  have "Join xs ''/'' = [] \<Longrightarrow> clean_list True xs \<Longrightarrow> xs = []" for xs
    using clean_list_elem [of True xs "hd xs"] by (cases xs; cases "tl xs") auto
  from this [of es] this [of es'] show ?thesis using True assms by (auto simp: elems_path_def)
next
  case False
  then show ?thesis using clean_elems_path assms by metis
qed

lemma dir_chain_elems:
  assumes "clean_list True es" and "length es < n"
  shows "dir_chain n (elems_path True es) = map (\<lambda>k. elems_path True (take k es)) (rev [0..<Suc (length es)])"
  using assms
proof (induction es arbitrary: n rule: rev_induct)
  case Nil
  then obtain m where "n = Suc m" by (cases n) auto
  then show ?case using Dir_elems [OF Nil(1)] by simp
next
  case (snoc e es)
  obtain m where n: "n = Suc m" "length es < m" using snoc.prems(2) by (cases n) auto
  have c: "clean_list True es" using clean_list_butlast [OF snoc.prems(1)] by simp
  have "filepath_Dir (elems_path True (es @ [e])) = elems_path True es" using Dir_elems [OF snoc.prems(1)] by simp
  moreover have "elems_path True es \<noteq> elems_path True (es @ [e])"
    using elems_path_inj [OF c snoc.prems(1)] by auto
  moreover have "map (\<lambda>k. elems_path True (take k (es @ [e]))) (rev [0..<Suc (length es)])
      = map (\<lambda>k. elems_path True (take k es)) (rev [0..<Suc (length es)])" by (rule map_cong) auto
  ultimately show ?case using snoc.IH [OF c n(2)] n(1) by simp
qed

lemma length_elems_path: "clean_list True es \<Longrightarrow> length es < length (elems_path True es)"
proof -
  assume "clean_list True es"
  then have ne: "\<forall>e \<in> set es. e \<noteq> []" using clean_list_elem by blast
  have "(\<forall>e \<in> set xs. e \<noteq> []) \<Longrightarrow> length xs \<le> length (Join xs ''/'')" for xs
  proof (induction xs "''/''" rule: Join.induct)
    case (2 x)
    then show ?case by (cases x) simp_all
  qed auto
  with ne show ?thesis by (simp add: elems_path_def le_imp_less_Suc)
qed

text \<open>The loop reaches the root: the ancestors of a clean rooted path are all its initial parts.\<close>

lemma ancestors_complete:
  assumes "rooted p" and "filepath_Clean p = p"
  shows "\<exists>es. clean_list True es \<and> p = elems_path True es
    \<and> ancestors p = map (\<lambda>k. elems_path True (take k es)) (rev [0..<Suc (length es)])"
proof -
  have c: "clean_list True (clean_elems p)" using clean_elems_clean [of p] assms(1) by simp
  have "p = elems_path True (clean_elems p)"
  proof (cases "clean_elems p = []")
    case True
    then have "filepath_Clean p = ''/''" using assms(1) by (simp add: filepath_Clean_def)
    then show ?thesis using True assms(2) by (simp add: elems_path_def)
  next
    case False
    then show ?thesis using filepath_Clean_elems assms by metis
  qed
  then show ?thesis using c dir_chain_elems [OF c length_elems_path [OF c]] by (metis ancestors_def)
qed

text \<open>Joining plain elements to a path.\<close>

lemma filepath_Join_plain:
  assumes "p \<noteq> []" and "es \<noteq> []" and "\<forall>e \<in> set es. plain_elem e"
  shows "filepath_Join (p # es) = elems_path (rooted p) (clean_elems p @ es)"
proof -
  obtain e es' where es: "es = e # es'" using assms(2) by (cases es) auto
  have J: "clean_elems (Join (p # es) ''/'') = clean_elems p @ es"
    by (rule clean_elems_Join [OF assms])
  moreover have "rooted (Join (p # es) ''/'') = rooted p" using assms(1) by (simp add: es rooted_append)
  ultimately have "filepath_Clean (Join (p # es) ''/'') = elems_path (rooted p) (clean_elems p @ es)"
    using filepath_Clean_elems [of "Join (p # es) ''/''"] assms(2) by simp
  with assms(1) show ?thesis by (simp add: filepath_Join_def)
qed

end
