(* ===== verification/Sync_Targets.thy ===== *)
theory Sync_Targets
  imports Go_Path Name_Collisions
begin

text \<open>
  The sync destinations: \<open>src/internal/syncer/registry.go\<close> (target configurations, their
  canonical identities and the factories that build a syncer), \<open>FilterAbsent\<close> of
  \<open>src/internal/syncer/syncer.go\<close>, and the functions of \<open>src/internal/cli/sync.go\<close> that turn flags
  and the configuration file into targets and name each target's journal.

  \<open>os_env\<close> holds what the code asks the process and the libraries for: environment variables,
  the working directory, Unicode normalization (\<open>norm.NFC\<close>) and case tables, and
  \<open>net/url\<close>'s \<open>Parse\<close> and \<open>String\<close>.
\<close>

subsection \<open>Data\<close>

record TargetConfig =
  tc_Type :: string
  tc_Fields :: "string \<rightharpoonup> string"
  tc_Token :: string
  tc_NoOverwrite :: bool

text \<open>The fields of a \<open>url.URL\<close> the code reads or sets, and the rest of it.\<close>

record URL =
  url_Scheme :: string
  url_Host :: string
  url_Path :: string
  url_RawPath :: string
  url_rest :: string

record os_env =
  os_Getenv :: "string \<Rightarrow> string"
  os_ExpandEnv :: "string \<Rightarrow> string"
  os_Getwd :: "string option"
  os_nfc :: "string \<Rightarrow> string"
  os_lower :: "string \<Rightarrow> string"
  os_upper :: "string \<Rightarrow> string"
  os_urlParse :: "string \<Rightarrow> URL option"
  os_urlString :: "URL \<Rightarrow> string"

record GitHubSyncer =
  gh_owner :: string
  gh_repo :: string
  gh_token :: string
  gh_baseURL :: string

record GitLabSyncer =
  gl_projectID :: string
  gl_token :: string
  gl_baseURL :: string
  gl_masked :: bool
  gl_protected :: bool

record CloudflareSyncer =
  cf_accountID :: string
  cf_worker :: string
  cf_pages :: string
  cf_token :: string
  cf_baseURL :: string

record K8sSyncer =
  k8_filePath :: string
  k8_secretName :: string
  k8_namespace :: string

datatype Syncer =
    DotenvTarget string
  | TerraformTarget string
  | K8sTarget K8sSyncer
  | GitHubTarget GitHubSyncer
  | GitLabTarget GitLabSyncer
  | CloudflareTarget CloudflareSyncer
  | CloudflareWorkerTarget CloudflareSyncer

datatype target_error =
    ErrPath string
  | ErrRepoFormat string
  | ErrEndpoint
  | ErrRequired string
  | ErrWorkerOrPages
  | ErrNotCanonicalizable string
  | ErrUnknownType string
  | ErrDNSName string
  | ErrTargetAt nat target_error
  | ErrIdentityCollision nat nat string
  | ErrCannotEnumerate string
  | ErrListExisting string
  | ErrMisconfigured "target_error list"
  | ErrNeedsDeclaration string

definition K8sManifestAlias :: string where
  "K8sManifestAlias = ''k8s-manifest''"

text \<open>\<open>field(tc, k)\<close> and \<open>tc.Fields[k]\<close>: a missing key reads as the empty string.\<close>

definition tc_field :: "TargetConfig \<Rightarrow> string \<Rightarrow> string" where
  "tc_field tc k = (case tc_Fields tc k of None \<Rightarrow> [] | Some v \<Rightarrow> v)"

subsection \<open>Canonical identities\<close>

definition canonicalTargetPart :: "os_env \<Rightarrow> string \<Rightarrow> string" where
  "canonicalTargetPart env val = ToLower (os_lower env) (os_nfc env (TrimSpace val))"

text \<open>\<open>strings.TrimRight(s, "/")\<close>\<close>

definition trim_slashes :: "string \<Rightarrow> string" where
  "trim_slashes s = rev (dropWhile (\<lambda>c. c = CHR ''/'') (rev s))"

definition canonicalEndpoint :: "os_env \<Rightarrow> string \<Rightarrow> string \<Rightarrow> target_error + string" where
  "canonicalEndpoint env val defaultURL =
     (let raw = (if TrimSpace val = [] then defaultURL else TrimSpace val)
      in case os_urlParse env raw of
           None \<Rightarrow> Inl ErrEndpoint
         | Some parsed \<Rightarrow>
             if url_Scheme parsed = [] \<or> url_Host parsed = []
             then Inr (trim_slashes (canonicalTargetPart env raw))
             else Inr (trim_slashes (os_urlString env
               (parsed\<lparr>url_Scheme := ToLower (os_lower env) (url_Scheme parsed),
                       url_Host := ToLower (os_lower env) (os_nfc env (url_Host parsed)),
                       url_Path := trim_slashes (os_nfc env (url_Path parsed)),
                       url_RawPath := []\<rparr>))))"

text \<open>\<open>filepath.Abs(filepath.Clean(file))\<close> with the prefix of a file target.\<close>

definition file_identity :: "os_env \<Rightarrow> string \<Rightarrow> string \<Rightarrow> target_error + string" where
  "file_identity env kind file = (case filepath_Abs (os_Getwd env) (filepath_Clean file) of
      None \<Rightarrow> Inl (ErrPath file)
    | Some absPath \<Rightarrow> Inr (kind @ canonicalTargetPart env absPath))"

definition github_identity :: "os_env \<Rightarrow> TargetConfig \<Rightarrow> target_error + string" where
  "github_identity env tc =
     (let repo = canonicalTargetPart env (tc_field tc ''repo'')
      in case Cut repo (CHR ''/'') of (owner, name, found) \<Rightarrow>
           if \<not> found \<or> owner = [] \<or> name = [] \<or> CHR ''/'' \<in> set name
           then Inl (ErrRepoFormat (tc_field tc ''repo''))
           else (case canonicalEndpoint env (tc_field tc ''base_url'') ''https://api.github.com'' of
               Inl e \<Rightarrow> Inl e
             | Inr baseURL \<Rightarrow> Inr (''github|'' @ baseURL @ ''|'' @ repo)))"

definition cloudflare_identity :: "os_env \<Rightarrow> TargetConfig \<Rightarrow> target_error + string" where
  "cloudflare_identity env tc =
     (let account = canonicalTargetPart env (tc_field tc ''account'');
          worker = canonicalTargetPart env (tc_field tc ''worker'');
          pages = canonicalTargetPart env (tc_field tc ''pages'')
      in case canonicalEndpoint env (tc_field tc ''base_url'')
                ''https://api.cloudflare.com/client/v4'' of
           Inl e \<Rightarrow> Inl e
         | Inr baseURL \<Rightarrow>
             if account = [] then Inl (ErrRequired ''account'')
             else if (worker = []) = (pages = []) then Inl ErrWorkerOrPages
             else if worker \<noteq> []
             then Inr (''cloudflare|'' @ baseURL @ ''|'' @ account @ ''|worker|'' @ worker)
             else Inr (''cloudflare|'' @ baseURL @ ''|'' @ account @ ''|pages|'' @ pages))"

definition gitlab_identity :: "os_env \<Rightarrow> TargetConfig \<Rightarrow> target_error + string" where
  "gitlab_identity env tc =
     (let project = canonicalTargetPart env (tc_field tc ''project'')
      in if project = [] then Inl (ErrRequired ''project'')
         else case canonicalEndpoint env (tc_field tc ''base_url'') ''https://gitlab.com'' of
             Inl e \<Rightarrow> Inl e
           | Inr baseURL \<Rightarrow> Inr (''gitlab|'' @ baseURL @ ''|'' @ project))"

definition or_default :: "string \<Rightarrow> string \<Rightarrow> string" where
  "or_default s d = (if s = [] then d else s)"

definition CanonicalTargetIdentity :: "os_env \<Rightarrow> TargetConfig \<Rightarrow> target_error + string" where
  "CanonicalTargetIdentity env tc =
     (let typ = canonicalTargetPart env (tc_Type tc); file = tc_field tc ''file''
      in if typ = ''dotenv'' then file_identity env ''dotenv|'' (or_default file ''.env'')
         else if typ = ''github'' then github_identity env tc
         else if typ = ''cloudflare'' then cloudflare_identity env tc
         else if typ = ''gitlab'' then gitlab_identity env tc
         else if typ = ''terraform''
         then file_identity env ''terraform|'' (or_default file ''terraform.tfvars'')
         else if typ = ''k8s'' \<or> typ = K8sManifestAlias
         then if file = [] \<or> file = ''-'' then Inr ''k8s|stdout''
              else file_identity env ''k8s|'' file
         else Inl (ErrNotCanonicalizable (tc_Type tc)))"

fun identities_loop ::
    "os_env \<Rightarrow> nat \<Rightarrow> (string \<rightharpoonup> nat) \<Rightarrow> TargetConfig list \<Rightarrow> target_error option" where
  "identities_loop env i seen [] = None"
| "identities_loop env i seen (tc # tcs) =
     (case CanonicalTargetIdentity env tc of
        Inl e \<Rightarrow> Some (ErrTargetAt i e)
      | Inr ident \<Rightarrow> (case seen ident of
            Some prev \<Rightarrow> Some (ErrIdentityCollision prev i ident)
          | None \<Rightarrow> identities_loop env (Suc i) (seen(ident \<mapsto> i)) tcs))"

definition ValidateTargetIdentities :: "os_env \<Rightarrow> TargetConfig list \<Rightarrow> target_error option" where
  "ValidateTargetIdentities env targets = identities_loop env 0 Map.empty targets"

subsection \<open>Factories\<close>

definition newDotenvFromConfig :: "TargetConfig \<Rightarrow> target_error + Syncer" where
  "newDotenvFromConfig tc = Inr (DotenvTarget (or_default (tc_field tc ''file'') ''.env''))"

definition newTerraformFromConfig :: "TargetConfig \<Rightarrow> target_error + Syncer" where
  "newTerraformFromConfig tc =
     Inr (TerraformTarget (or_default (tc_field tc ''file'') ''terraform.tfvars''))"

definition NewGitHub :: "string \<Rightarrow> string \<Rightarrow> string \<Rightarrow> string \<Rightarrow> Syncer" where
  "NewGitHub owner repo token baseURL =
     GitHubTarget \<lparr>gh_owner = owner, gh_repo = repo, gh_token = token,
       gh_baseURL = or_default baseURL ''https://api.github.com''\<rparr>"

definition newGitHubFromConfig :: "TargetConfig \<Rightarrow> target_error + Syncer" where
  "newGitHubFromConfig tc =
     (let repo = tc_field tc ''repo''
      in if repo = [] then Inl (ErrRequired ''repo'')
         else case Cut repo (CHR ''/'') of (owner, repoName, found) \<Rightarrow>
           if \<not> found \<or> owner = [] \<or> repoName = [] then Inl (ErrRepoFormat repo)
           else if tc_Token tc = [] then Inl (ErrRequired ''GITHUB_TOKEN'')
           else Inr (NewGitHub owner repoName (tc_Token tc) (tc_field tc ''base_url'')))"

definition NewGitLab :: "string \<Rightarrow> string \<Rightarrow> string \<Rightarrow> bool \<Rightarrow> bool \<Rightarrow> Syncer" where
  "NewGitLab projectID token baseURL masked protected =
     GitLabTarget \<lparr>gl_projectID = projectID, gl_token = token,
       gl_baseURL = or_default baseURL ''https://gitlab.com'',
       gl_masked = masked, gl_protected = protected\<rparr>"

definition newGitLabFromConfig :: "TargetConfig \<Rightarrow> target_error + Syncer" where
  "newGitLabFromConfig tc =
     (if tc_field tc ''project'' = [] then Inl (ErrRequired ''project'')
      else if tc_Token tc = [] then Inl (ErrRequired ''GITLAB_TOKEN'')
      else Inr (NewGitLab (tc_field tc ''project'') (tc_Token tc) (tc_field tc ''base_url'')
                  (tc_field tc ''masked'' = ''true'') (tc_field tc ''protected'' = ''true'')))"

definition NewCloudflare ::
    "string \<Rightarrow> string \<Rightarrow> string \<Rightarrow> string \<Rightarrow> string \<Rightarrow> CloudflareSyncer" where
  "NewCloudflare accountID worker pages token baseURL =
     \<lparr>cf_accountID = accountID, cf_worker = worker, cf_pages = pages, cf_token = token,
      cf_baseURL = or_default baseURL ''https://api.cloudflare.com/client/v4''\<rparr>"

definition newCloudflareFromConfig :: "TargetConfig \<Rightarrow> target_error + Syncer" where
  "newCloudflareFromConfig tc =
     (let worker = tc_field tc ''worker''; pages = tc_field tc ''pages'';
          account = tc_field tc ''account''
      in if worker = [] \<and> pages = [] then Inl ErrWorkerOrPages
         else if account = [] then Inl (ErrRequired ''account'')
         else if tc_Token tc = [] then Inl (ErrRequired ''CLOUDFLARE_API_TOKEN'')
         else let target = NewCloudflare account worker pages (tc_Token tc) (tc_field tc ''base_url'')
              in Inr (if worker \<noteq> [] then CloudflareWorkerTarget target
                      else CloudflareTarget target))"

text \<open>RFC 1123 subdomains, for the name and namespace of a manifest (\<open>k8s.go\<close>).\<close>

definition validDNSLabel :: "string \<Rightarrow> bool" where
  "validDNSLabel label \<longleftrightarrow>
     \<not> (hd label = CHR ''-'' \<or> last label = CHR ''-'')
     \<and> list_all (\<lambda>c. is_lower c \<or> is_digit c \<or> c = CHR ''-'') label"

definition validDNSSubdomain :: "string \<Rightarrow> bool" where
  "validDNSSubdomain name \<longleftrightarrow>
     name \<noteq> [] \<and> length name \<le> 253
     \<and> list_all (\<lambda>label. label \<noteq> [] \<and> length label \<le> 63 \<and> validDNSLabel label)
         (Split (CHR ''.'') name)"

definition NewK8s :: "string \<Rightarrow> string \<Rightarrow> string \<Rightarrow> Syncer" where
  "NewK8s filePath secretName namespace =
     K8sTarget \<lparr>k8_filePath = or_default filePath ''-'',
       k8_secretName = or_default secretName ''skret-secrets'', k8_namespace = namespace\<rparr>"

definition newK8sFromConfig :: "TargetConfig \<Rightarrow> target_error + Syncer" where
  "newK8sFromConfig tc =
     (let name = or_default (tc_field tc ''name'') ''skret-secrets''; ns = tc_field tc ''namespace''
      in if \<not> validDNSSubdomain name then Inl (ErrDNSName name)
         else if ns \<noteq> [] \<and> \<not> validDNSSubdomain ns then Inl (ErrDNSName ns)
         else Inr (NewK8s (tc_field tc ''file'') name ns))"

text \<open>The map the targets' \<open>init\<close> functions fill through \<open>Register\<close>.\<close>

definition registry :: "(string \<times> (TargetConfig \<Rightarrow> target_error + Syncer)) list" where
  "registry =
     [(''dotenv'', newDotenvFromConfig), (''terraform'', newTerraformFromConfig),
      (''k8s'', newK8sFromConfig), (K8sManifestAlias, newK8sFromConfig),
      (''github'', newGitHubFromConfig), (''gitlab'', newGitLabFromConfig),
      (''cloudflare'', newCloudflareFromConfig)]"

fun build_loop :: "nat \<Rightarrow> TargetConfig list \<Rightarrow> target_error + Syncer list" where
  "build_loop i [] = Inr []"
| "build_loop i (tc # tcs) =
     (case map_of registry (tc_Type tc) of
        None \<Rightarrow> Inl (ErrTargetAt i (ErrUnknownType (tc_Type tc)))
      | Some f \<Rightarrow> (case f tc of
            Inl e \<Rightarrow> Inl (ErrTargetAt i e)
          | Inr s \<Rightarrow> (case build_loop (Suc i) tcs of Inl e \<Rightarrow> Inl e | Inr ss \<Rightarrow> Inr (s # ss))))"

definition Build :: "TargetConfig list \<Rightarrow> target_error + Syncer list" where
  "Build targets = build_loop 0 targets"

subsection \<open>What a target can do\<close>

fun syncer_Name :: "Syncer \<Rightarrow> string" where
  "syncer_Name (DotenvTarget _) = ''dotenv''"
| "syncer_Name (TerraformTarget _) = ''terraform''"
| "syncer_Name (K8sTarget _) = ''k8s''"
| "syncer_Name (GitHubTarget _) = ''github''"
| "syncer_Name (GitLabTarget _) = ''gitlab''"
| "syncer_Name (CloudflareTarget _) = ''cloudflare''"
| "syncer_Name (CloudflareWorkerTarget _) = ''cloudflare''"

text \<open>The types that implement \<open>PerKeySyncer\<close> and \<open>ExistingLister\<close>.\<close>

fun is_PerKeySyncer :: "Syncer \<Rightarrow> bool" where
  "is_PerKeySyncer (GitHubTarget _) = True"
| "is_PerKeySyncer (GitLabTarget _) = True"
| "is_PerKeySyncer (CloudflareWorkerTarget _) = True"
| "is_PerKeySyncer _ = False"

fun is_ExistingLister :: "Syncer \<Rightarrow> bool" where
  "is_ExistingLister (GitHubTarget _) = True"
| "is_ExistingLister (GitLabTarget _) = True"
| "is_ExistingLister (CloudflareTarget _) = True"
| "is_ExistingLister (CloudflareWorkerTarget _) = True"
| "is_ExistingLister _ = False"

text \<open>
  \<open>FilterAbsent\<close>; \<open>names\<close> is what the target's \<open>ExistingKeys\<close> returns, \<open>None\<close> when it fails.
\<close>

definition FilterAbsent ::
    "(string \<Rightarrow> string) \<Rightarrow> Syncer \<Rightarrow> string list option \<Rightarrow> Secret list
      \<Rightarrow> target_error + Secret list \<times> nat" where
  "FilterAbsent uni s names secrets =
     (if \<not> is_ExistingLister s then Inl (ErrCannotEnumerate (syncer_Name s))
      else case names of
          None \<Rightarrow> Inl (ErrListExisting (syncer_Name s))
        | Some ns \<Rightarrow>
            let existing = set (map (ToUpper uni) ns);
                kept = filter (\<lambda>sec. ToUpper uni (SecretName (sec_Key sec)) \<notin> existing) secrets
            in Inr (kept, length secrets - length kept))"

subsection \<open>Targets from flags and configuration\<close>

text \<open>A \<open>sync.targets\<close> entry of the configuration file (\<open>config/schema.go\<close>).\<close>

record SyncTarget =
  st_Type :: string
  st_Repo :: string
  st_Worker :: string
  st_Pages :: string
  st_Account :: string
  st_File :: string
  st_BaseURL :: string
  st_NoOverwrite :: bool
  st_Project :: string
  st_Masked :: bool
  st_Protected :: bool
  st_Name :: string
  st_Namespace :: string

text \<open>The flags of the sync command that choose and shape targets.\<close>

record sync_flags =
  sf_to :: string
  sf_file :: string
  sf_githubRepo :: string
  sf_declaredOnly :: bool

definition FormatBool :: "bool \<Rightarrow> string" where
  "FormatBool b = (if b then ''true'' else ''false'')"

definition tokenForType :: "os_env \<Rightarrow> string \<Rightarrow> string" where
  "tokenForType env typ =
     (if typ = ''github'' then os_Getenv env ''GITHUB_TOKEN''
      else if typ = ''cloudflare'' then os_Getenv env ''CLOUDFLARE_API_TOKEN''
      else if typ = ''gitlab'' then os_Getenv env ''GITLAB_TOKEN''
      else [])"

definition targetFromConfig :: "os_env \<Rightarrow> SyncTarget \<Rightarrow> TargetConfig" where
  "targetFromConfig env t =
     \<lparr>tc_Type = st_Type t,
      tc_Fields = map_of
        [(''repo'', st_Repo t), (''worker'', st_Worker t), (''pages'', st_Pages t),
         (''account'', os_ExpandEnv env (st_Account t)), (''file'', st_File t),
         (''base_url'', st_BaseURL t), (''project'', st_Project t),
         (''masked'', FormatBool (st_Masked t)), (''protected'', FormatBool (st_Protected t)),
         (''name'', st_Name t), (''namespace'', st_Namespace t)],
      tc_Token = tokenForType env (st_Type t), tc_NoOverwrite = st_NoOverwrite t\<rparr>"

definition file_target :: "string \<Rightarrow> string \<Rightarrow> TargetConfig" where
  "file_target typ file =
     \<lparr>tc_Type = typ, tc_Fields = [''file'' \<mapsto> file], tc_Token = [], tc_NoOverwrite = False\<rparr>"

text \<open>The loop over \<open>--github-repo\<close>: the targets, the errors.\<close>

fun repo_loop :: "string \<Rightarrow> string list \<Rightarrow> TargetConfig list \<times> target_error list" where
  "repo_loop token [] = ([], [])"
| "repo_loop token (r # rs) =
     (case repo_loop token rs of (tcs, errs) \<Rightarrow>
        let r' = TrimSpace r
        in if r' = [] then (tcs, errs)
           else case Cut r' (CHR ''/'') of (owner, repo, found) \<Rightarrow>
             if \<not> found \<or> owner = [] \<or> repo = [] then (tcs, ErrRepoFormat r' # errs)
             else (\<lparr>tc_Type = ''github'', tc_Fields = [''repo'' \<mapsto> r'], tc_Token = token,
                    tc_NoOverwrite = False\<rparr> # tcs, errs))"

definition targetFromFlags ::
    "os_env \<Rightarrow> sync_flags \<Rightarrow> string \<Rightarrow> target_error + TargetConfig list" where
  "targetFromFlags env opt typ =
     (if typ \<in> {''dotenv'', ''terraform'', ''k8s'', K8sManifestAlias}
      then Inr [file_target typ (sf_file opt)]
      else if typ = ''github''
      then (let token = os_Getenv env ''GITHUB_TOKEN''
            in case repo_loop token (Split (CHR '','') (sf_githubRepo opt)) of (tcs, repoErrs) \<Rightarrow>
                 let errs = (if token = [] then [ErrRequired ''GITHUB_TOKEN''] else []) @ repoErrs
                       @ (if tcs = [] \<and> repoErrs = [] then [ErrRequired ''github-repo''] else [])
                 in if errs \<noteq> [] then Inl (ErrMisconfigured errs) else Inr tcs)
      else if typ = ''cloudflare'' \<or> typ = ''gitlab'' then Inl (ErrNeedsDeclaration typ)
      else Inl (ErrUnknownType typ))"

text \<open>The types in \<open>--to\<close>, trimmed, in order, each once.\<close>

definition wantOrder :: "string \<Rightarrow> string list" where
  "wantOrder to =
     foldl (\<lambda>ws t. if TrimSpace t = [] \<or> TrimSpace t \<in> set ws then ws else ws @ [TrimSpace t])
       [] (if to = [] then [] else Split (CHR '','') to)"

definition declared_targets :: "SyncTarget list option \<Rightarrow> string \<Rightarrow> SyncTarget list" where
  "declared_targets sc typ = filter (\<lambda>t. st_Type t = typ) (case sc of None \<Rightarrow> [] | Some ts \<Rightarrow> ts)"

fun want_loop ::
    "os_env \<Rightarrow> sync_flags \<Rightarrow> SyncTarget list option \<Rightarrow> string list
      \<Rightarrow> target_error + TargetConfig list" where
  "want_loop env opt sc [] = Inr []"
| "want_loop env opt sc (typ # typs) =
     (case (if declared_targets sc typ \<noteq> []
            then Inr (map (targetFromConfig env) (declared_targets sc typ))
            else targetFromFlags env opt typ) of
        Inl e \<Rightarrow> Inl e
      | Inr tcs \<Rightarrow> (case want_loop env opt sc typs of Inl e \<Rightarrow> Inl e | Inr rest \<Rightarrow> Inr (tcs @ rest)))"

definition resolveTargets ::
    "os_env \<Rightarrow> sync_flags \<Rightarrow> SyncTarget list option \<Rightarrow> target_error + TargetConfig list" where
  "resolveTargets env opt sc =
     (case (if wantOrder (sf_to opt) \<noteq> [] then want_loop env opt sc (wantOrder (sf_to opt))
            else Inr (case sc of None \<Rightarrow> [] | Some ts \<Rightarrow> map (targetFromConfig env) ts)) of
        Inl e \<Rightarrow> Inl e
      | Inr out \<Rightarrow>
          Inr (if out = [] \<and> \<not> sf_declaredOnly opt then [file_target ''dotenv'' (sf_file opt)] else out))"

definition mutationMethod :: "Syncer \<Rightarrow> TargetConfig \<Rightarrow> string" where
  "mutationMethod s tc =
     (if syncer_Name s \<in> {''github'', ''gitlab''} then ''PUT''
      else if syncer_Name s = ''cloudflare''
      then if tc_field tc ''pages'' \<noteq> [] then ''PATCH'' else ''PUT''
      else [])"

definition targetStateID :: "os_env \<Rightarrow> Syncer \<Rightarrow> TargetConfig \<Rightarrow> string" where
  "targetStateID env s tc =
     (let file = tc_field tc ''file''
      in if syncer_Name s = ''dotenv'' then or_default file ''.env''
         else if syncer_Name s = ''terraform'' then or_default file ''terraform.tfvars''
         else if syncer_Name s = ''k8s''
         then if file \<noteq> [] \<and> file \<noteq> ''-'' then file else ''k8s:stdout''
         else case CanonicalTargetIdentity env tc of Inr ident \<Rightarrow> ident | Inl _ \<Rightarrow> [])"

subsection \<open>Identities of an accepted set of targets\<close>

lemma identities_loop_None:
  "identities_loop env i seen tcs = None \<longleftrightarrow>
     (\<exists>ids. map (CanonicalTargetIdentity env) tcs = map Inr ids \<and> distinct ids
        \<and> set ids \<inter> dom seen = {})"
proof (induction env i seen tcs rule: identities_loop.induct)
  case (2 env i seen tc tcs)
  show ?case
  proof (cases "CanonicalTargetIdentity env tc")
    case (Inl e)
    then show ?thesis by (auto simp: Cons_eq_map_conv)
  next
    case (Inr ident)
    show ?thesis
    proof (cases "seen ident")
      case None
      have "identities_loop env i seen (tc # tcs) = None \<longleftrightarrow>
          identities_loop env (Suc i) (seen(ident \<mapsto> i)) tcs = None"
        using Inr None by simp
      also have "\<dots> \<longleftrightarrow> (\<exists>ids. map (CanonicalTargetIdentity env) tcs = map Inr ids \<and> distinct ids
          \<and> set ids \<inter> dom (seen(ident \<mapsto> i)) = {})"
        using "2.IH" [OF Inr None] .
      also have "\<dots> \<longleftrightarrow> (\<exists>ids. map (CanonicalTargetIdentity env) (tc # tcs) = map Inr ids
          \<and> distinct ids \<and> set ids \<inter> dom seen = {})"
        using Inr None by (auto simp: Cons_eq_map_conv)
      finally show ?thesis .
    next
      case (Some prev)
      with Inr show ?thesis by (auto simp: Cons_eq_map_conv)
    qed
  qed
qed simp

lemma build_loop_nth:
  assumes "build_loop n tcs = Inr ss" and "i < length tcs"
  shows "length ss = length tcs
    \<and> (\<exists>f. map_of registry (tc_Type (tcs ! i)) = Some f \<and> f (tcs ! i) = Inr (ss ! i))"
  using assms
proof (induction n tcs arbitrary: i ss rule: build_loop.induct)
  case (2 n tc tcs)
  then obtain f s ss' where f: "map_of registry (tc_Type tc) = Some f" "f tc = Inr s"
    "build_loop (Suc n) tcs = Inr ss'" "ss = s # ss'"
    by (auto split: option.splits sum.splits)
  have len: "length ss' = length tcs"
  proof (cases tcs)
    case (Cons a list)
    then show ?thesis using "2.IH" [OF f(1,2,3), of 0] by simp
  qed (use f(3) in simp)
  show ?case
  proof (cases i)
    case (Suc k)
    then show ?thesis using "2.IH" [OF f(1,2,3), of k] f(4) "2.prems"(2) by simp
  qed (use f len in simp)
qed simp

text \<open>What \<open>norm.NFC\<close> promises: an ASCII string is already normalized.\<close>

definition nfc_keeps_ascii :: "os_env \<Rightarrow> bool" where
  "nfc_keeps_ascii env \<longleftrightarrow> (\<forall>s. list_all is_ascii s \<longrightarrow> os_nfc env s = s)"

definition target_types :: "string list" where
  "target_types =
     [''dotenv'', ''terraform'', ''k8s'', ''k8s-manifest'', ''github'', ''gitlab'', ''cloudflare'']"

lemma target_types_canonical:
  "list_all (\<lambda>t. TrimSpace t = t \<and> list_all is_ascii t \<and> map lower_byte t = t) target_types"
  by code_simp

lemma canonicalTargetPart_type:
  "nfc_keeps_ascii env \<Longrightarrow> t \<in> set target_types \<Longrightarrow> canonicalTargetPart env t = t"
  using target_types_canonical
  by (auto simp: list_all_iff canonicalTargetPart_def nfc_keeps_ascii_def ToLower_def)

text \<open>A registered type, the factory's result and the name of what it builds.\<close>

lemma factory_cases:
  assumes "map_of registry typ = Some f" and "f tc = Inr s"
  shows "typ \<in> set target_types
    \<and> syncer_Name s = (if typ = K8sManifestAlias then ''k8s'' else typ)"
  using assms
  by (auto simp: registry_def target_types_def K8sManifestAlias_def newDotenvFromConfig_def
      newTerraformFromConfig_def newK8sFromConfig_def newGitHubFromConfig_def
      newGitLabFromConfig_def newCloudflareFromConfig_def NewK8s_def NewGitHub_def NewGitLab_def
      Let_def split: if_splits prod.splits)

text \<open>The canonical identity is a function of the name and the journal's id.\<close>

definition identity_via :: "os_env \<Rightarrow> string \<Rightarrow> string \<Rightarrow> target_error + string" where
  "identity_via env name sid =
     (if name = ''dotenv'' then file_identity env ''dotenv|'' sid
      else if name = ''terraform'' then file_identity env ''terraform|'' sid
      else if name = ''k8s''
      then if sid = ''k8s:stdout'' then Inr ''k8s|stdout'' else file_identity env ''k8s|'' sid
      else Inr sid)"

lemma identity_via_state:
  assumes "nfc_keeps_ascii env" and "map_of registry (tc_Type tc) = Some f" and "f tc = Inr s"
    and "tc_field tc ''file'' \<noteq> ''k8s:stdout''" and "CanonicalTargetIdentity env tc = Inr ident"
  shows "identity_via env (syncer_Name s) (targetStateID env s tc) = Inr ident"
proof -
  have t: "tc_Type tc \<in> set target_types"
      "syncer_Name s = (if tc_Type tc = K8sManifestAlias then ''k8s'' else tc_Type tc)"
    using factory_cases [OF assms(2,3)] by auto
  have c: "canonicalTargetPart env (tc_Type tc) = tc_Type tc"
    by (rule canonicalTargetPart_type [OF assms(1) t(1)])
  note ident = assms(5) [unfolded CanonicalTargetIdentity_def c Let_def]
  show ?thesis
    using t(1) ident assms(4,5)
    by (auto simp: t(2) target_types_def K8sManifestAlias_def identity_via_def targetStateID_def
        or_default_def Let_def)
qed

lemma journal_ids_distinct:
  assumes "nfc_keeps_ascii env" and "Build targets = Inr syncers"
    and "ValidateTargetIdentities env targets = None"
    and "\<forall>tc \<in> set targets. tc_field tc ''file'' \<noteq> ''k8s:stdout''"
    and "i < j" and "j < length targets"
  shows "(syncer_Name (syncers ! i), targetStateID env (syncers ! i) (targets ! i)) \<noteq>
         (syncer_Name (syncers ! j), targetStateID env (syncers ! j) (targets ! j))"
proof
  assume same: "(syncer_Name (syncers ! i), targetStateID env (syncers ! i) (targets ! i)) =
         (syncer_Name (syncers ! j), targetStateID env (syncers ! j) (targets ! j))"
  obtain ids where ids: "map (CanonicalTargetIdentity env) targets = map Inr ids" "distinct ids"
    using assms(3) by (auto simp: ValidateTargetIdentities_def identities_loop_None)
  have len: "length ids = length targets" using ids(1) by (metis length_map)
  have via: "identity_via env (syncer_Name (syncers ! k)) (targetStateID env (syncers ! k) (targets ! k))
      = Inr (ids ! k)" if k: "k < length targets" for k
  proof -
    obtain f where f: "map_of registry (tc_Type (targets ! k)) = Some f"
        "f (targets ! k) = Inr (syncers ! k)"
      using build_loop_nth [of 0 targets syncers k] assms(2) k by (auto simp: Build_def)
    have "CanonicalTargetIdentity env (targets ! k) = Inr (ids ! k)"
      using arg_cong [OF ids(1), of "\<lambda>xs. xs ! k"] k len by simp
    then show ?thesis using identity_via_state [OF assms(1) f] assms(4) k by simp
  qed
  from via [of i] via [of j] same assms(5,6) have "ids ! i = ids ! j" by simp
  with ids(2) assms(5,6) len show False by (simp add: nth_eq_iff_index_eq)
qed

subsection \<open>Requested targets\<close>

lemma want_fold_set:
  "set (foldl (\<lambda>ws t. if TrimSpace t = [] \<or> TrimSpace t \<in> set ws then ws else ws @ [TrimSpace t])
      acc ts) = set acc \<union> (TrimSpace ` set ts - {[]})"
  by (induction ts arbitrary: acc) auto

lemma set_wantOrder:
  "to \<noteq> [] \<Longrightarrow> set (wantOrder to) = TrimSpace ` set (Split (CHR '','') to) - {[]}"
  by (simp add: wantOrder_def want_fold_set)

lemma repo_loop_github: "tc \<in> set (fst (repo_loop token rs)) \<Longrightarrow> tc_Type tc = ''github''"
  by (induction token rs rule: repo_loop.induct) (auto simp: Let_def split: prod.splits if_splits)

lemma targetFromFlags_type:
  assumes "targetFromFlags env opt typ = Inr tcs"
  shows "tcs \<noteq> [] \<and> (\<forall>tc \<in> set tcs. tc_Type tc = typ)"
proof (cases "typ = ''github''")
  case True
  let ?token = "os_Getenv env ''GITHUB_TOKEN''"
  let ?r = "repo_loop ?token (Split (CHR '','') (sf_githubRepo opt))"
  have "fst ?r = tcs" "tcs \<noteq> []"
    using assms True
    by (auto simp: targetFromFlags_def Let_def K8sManifestAlias_def split: prod.splits if_splits)
  with True show ?thesis using repo_loop_github [of _ ?token "Split (CHR '','') (sf_githubRepo opt)"]
    by auto
next
  case False
  with assms show ?thesis by (auto simp: targetFromFlags_def file_target_def split: if_splits)
qed

lemma targetFromConfig_type [simp]: "tc_Type (targetFromConfig env t) = st_Type t"
  by (simp add: targetFromConfig_def)

lemma want_loop_types:
  assumes "want_loop env opt sc typs = Inr out"
  shows "tc_Type ` set out = set typs
    \<and> (\<forall>typ \<in> set typs. \<forall>t \<in> set (declared_targets sc typ). targetFromConfig env t \<in> set out)
    \<and> (\<forall>tc \<in> set out. declared_targets sc (tc_Type tc) \<noteq> []
         \<longrightarrow> tc \<in> targetFromConfig env ` set (declared_targets sc (tc_Type tc)))"
  using assms
proof (induction typs arbitrary: out)
  case (Cons ty typs)
  let ?one = "if declared_targets sc ty \<noteq> []
            then Inr (map (targetFromConfig env) (declared_targets sc ty))
            else targetFromFlags env opt ty"
  obtain tcs rest where tcs: "?one = Inr tcs" "want_loop env opt sc typs = Inr rest"
    "out = tcs @ rest"
    using Cons.prems by (auto split: sum.splits if_splits)
  have decl: "t \<in> set (declared_targets sc ty) \<Longrightarrow> st_Type t = ty" for t ty
    by (simp add: declared_targets_def)
  have "tcs \<noteq> [] \<and> (\<forall>tc \<in> set tcs. tc_Type tc = ty)"
    using tcs(1) targetFromFlags_type [of env opt ty tcs] decl by (auto split: if_splits)
  then have types: "tc_Type ` set tcs = {ty}" by (cases tcs) auto
  have "declared_targets sc ty \<noteq> [] \<longrightarrow> set tcs = targetFromConfig env ` set (declared_targets sc ty)"
    using tcs(1) by auto
  with types Cons.IH [OF tcs(2)] tcs(3) show ?case
    by (auto dest: decl intro!: imageI)
qed simp

text \<open>
  When \<open>--to\<close> names targets, exactly the named types are synced: every trimmed, non-empty
  entry of the list contributes at least one target and no other type does. A type with
  entries in the configuration file gets all of them and only them, so flags never shadow or
  duplicate a declared target.
\<close>

lemma resolve_targets_exact:
  assumes "resolveTargets env opt sc = Inr out" and "sf_to opt \<noteq> []"
    and "wantOrder (sf_to opt) \<noteq> []"
  shows "tc_Type ` set out = TrimSpace ` set (Split (CHR '','') (sf_to opt)) - {[]}
    \<and> (\<forall>tc \<in> set out. declared_targets sc (tc_Type tc) \<noteq> [] \<longrightarrow>
         tc \<in> targetFromConfig env ` set (declared_targets sc (tc_Type tc)))
    \<and> (\<forall>typ \<in> tc_Type ` set out. targetFromConfig env ` set (declared_targets sc typ) \<subseteq> set out)"
proof -
  obtain out' where w: "want_loop env opt sc (wantOrder (sf_to opt)) = Inr out'"
    "out = (if out' = [] \<and> \<not> sf_declaredOnly opt then [file_target ''dotenv'' (sf_file opt)] else out')"
    using assms(1,3) by (auto simp: resolveTargets_def split: sum.splits)
  note types = want_loop_types [OF w(1)]
  then have "out' \<noteq> []" using assms(3) by auto
  with w(2) have "out = out'" by simp
  with types set_wantOrder [OF assms(2)] show ?thesis by (simp add: image_subset_iff)
qed

definition example_env :: os_env where
  "example_env = \<lparr>os_Getenv = (\<lambda>_. ''token''), os_ExpandEnv = id, os_Getwd = Some ''/work'',
     os_nfc = id, os_lower = id, os_upper = id,
     os_urlParse = (\<lambda>s. Some \<lparr>url_Scheme = ''https'', url_Host = drop 8 s, url_Path = [],
                              url_RawPath = [], url_rest = []\<rparr>),
     os_urlString = (\<lambda>u. url_Scheme u @ ''://'' @ url_Host u @ url_Path u)\<rparr>"

definition example_flags :: sync_flags where
  "example_flags = \<lparr>sf_to = ''github, dotenv'', sf_file = ''.env'', sf_githubRepo = ''o/r'',
     sf_declaredOnly = False\<rparr>"

lemma resolve_targets_exact_example:
  "tc_Type ` set (case resolveTargets example_env example_flags None of Inr out \<Rightarrow> out | Inl _ \<Rightarrow> [])
     = {''github'', ''dotenv''}"
proof -
  have "Split (CHR '','') ''github, dotenv'' = [''github'', '' dotenv'']" by code_simp
  moreover have "TrimSpace ''github'' = ''github''" "TrimSpace '' dotenv'' = ''dotenv''"
    by code_simp+
  moreover have "wantOrder (sf_to example_flags) \<noteq> []" by code_simp
  moreover have "case resolveTargets example_env example_flags None of Inr _ \<Rightarrow> True | Inl _ \<Rightarrow> False"
    by code_simp
  ultimately show ?thesis
    using resolve_targets_exact [of example_env example_flags None]
    by (auto simp: example_flags_def split: sum.splits)
qed

end
