(* ===== verification/Http_Targets.thy ===== *)
theory Http_Targets
  imports Http_Retry Sync_Targets
begin

text \<open>
  The targets behind an HTTP API: \<open>src/internal/syncer/github.go\<close>, \<open>gitlab.go\<close> and
  \<open>cloudflare.go\<close>. The requests go through \<open>doWithRetry\<close> and \<open>doMutation\<close>; a call returns the
  mutations it sent beside its error.

  What the outside does is an argument: \<open>http_world\<close> says whether the base URL parses, how each
  read and each mutation fares, what a read's body decodes to, and whether sealing a value
  (\<open>nacl/box\<close>, which draws random bytes) fails. JSON encoding of a request body cannot fail for
  the values the code passes and is not a branch here.
\<close>

datatype call_error =
    CallNilSecret
  | CallMapping mapping_error
  | CallBadURL
  | CallHTTP http_error
  | CallDecode
  | CallKeyLength nat
  | CallSeal string
  | CallCtx
  | CallKeyName string
  | CallUnsupported

text \<open>
  A request that changes the provider: one secret under a name with its value (GitHub gets it
  sealed), or the environment variables of a Pages project.
\<close>

datatype mutation =
    SendSecret string string string
  | SendPatch string "string \<rightharpoonup> string"

record http_world =
  hw_urlOk :: bool
  hw_keyRead :: "nat \<Rightarrow> attempt"
  hw_publicKey :: "string option"
  hw_decode64 :: "string \<Rightarrow> string option"
  hw_sealFails :: "string \<Rightarrow> bool"
  hw_ctxDone :: "string \<Rightarrow> bool"
  hw_mutate :: "string \<Rightarrow> string \<Rightarrow> attempt"

text \<open>A request through \<open>doMutation\<close>; \<open>hw_mutate\<close> says how the request for a name fares.\<close>

definition send_mutation ::
    "http_world \<Rightarrow> string \<Rightarrow> string \<Rightarrow> mutation \<Rightarrow> int list \<Rightarrow> mutation list \<times> call_error option" where
  "send_mutation w verb name m ok =
     (if \<not> hw_urlOk w then ([], Some CallBadURL)
      else case doMutation (hw_mutate w verb name) ok of
          (Inl e, n) \<Rightarrow> (replicate n m, Some (CallHTTP e))
        | (Inr _, n) \<Rightarrow> (replicate n m, None))"

subsection \<open>GitHub\<close>

text \<open>The deduplication of \<open>Sync\<close>: the last secret of each key.\<close>

definition last_by_key :: "Secret list \<Rightarrow> string \<rightharpoonup> Secret" where
  "last_by_key secrets = foldl (\<lambda>m s. m(sec_Key s \<mapsto> s)) Map.empty secrets"

text \<open>\<open>uniqueSecrets\<close>, up to the order in which the map is ranged over.\<close>

definition unique_secrets :: "Secret list \<Rightarrow> Secret list" where
  "unique_secrets secs = map (the \<circ> last_by_key secs) (remdups (map sec_Key secs))"

definition getPublicKey :: "http_world \<Rightarrow> call_error + string" where
  "getPublicKey w =
     (if \<not> hw_urlOk w then Inl CallBadURL
      else case fst (doWithRetry (hw_keyRead w) [200]) of
          Inl e \<Rightarrow> Inl (CallHTTP e)
        | Inr _ \<Rightarrow> (case hw_publicKey w of None \<Rightarrow> Inl CallDecode | Some k \<Rightarrow> Inr k))"

definition putSecret ::
    "http_world \<Rightarrow> string \<Rightarrow> string \<Rightarrow> mutation list \<times> call_error option" where
  "putSecret w name val =
     (if hw_sealFails w name then ([], Some (CallSeal name))
      else send_mutation w ''PUT'' name (SendSecret ''PUT'' name val) [201, 204])"

text \<open>One goroutine of a batch: it waits for a slot unless the context ends first.\<close>

definition worker :: "(http_world \<Rightarrow> string \<Rightarrow> string \<Rightarrow> mutation list \<times> call_error option)
    \<Rightarrow> http_world \<Rightarrow> Secret \<Rightarrow> mutation list \<times> call_error option" where
  "worker put w s =
     (let name = SecretName (sec_Key s)
      in if hw_ctxDone w name then ([], Some CallCtx) else put w name (sec_Value s))"

text \<open>
  The goroutines run concurrently; \<open>order\<close> is the order in which they finish, so that the
  error read from the channel is the first in that order.
\<close>

fun run_workers ::
    "(http_world \<Rightarrow> string \<Rightarrow> string \<Rightarrow> mutation list \<times> call_error option) \<Rightarrow> http_world \<Rightarrow> Secret list
      \<Rightarrow> mutation list \<times> call_error option" where
  "run_workers put w [] = ([], None)"
| "run_workers put w (s # order) =
     (case (worker put w s, run_workers put w order) of
        ((sent, e), (sent', e')) \<Rightarrow> (sent @ sent', first_err e e'))"

definition github_Sync ::
    "(Secret list \<Rightarrow> Secret list) \<Rightarrow> http_world \<Rightarrow> Secret option list
      \<Rightarrow> mutation list \<times> call_error option" where
  "github_Sync order w secrets =
     (if secrets = [] then ([], None)
      else case ValidateDestinationMapping ''github'' secrets of
          Some e \<Rightarrow> ([], Some (CallMapping e))
        | None \<Rightarrow>
            (case getPublicKey w of
                  Inl e \<Rightarrow> ([], Some e)
                | Inr b64 \<Rightarrow> (case hw_decode64 w b64 of
                      None \<Rightarrow> ([], Some CallDecode)
                    | Some key \<Rightarrow>
                        if length key \<noteq> 32 then ([], Some (CallKeyLength (length key)))
                        else run_workers putSecret w
                          (order (unique_secrets (map the secrets))))))"

definition github_SyncKey :: "http_world \<Rightarrow> Secret option \<Rightarrow> mutation list \<times> call_error option" where
  "github_SyncKey w secret = (case secret of
      None \<Rightarrow> ([], Some CallNilSecret)
    | Some s \<Rightarrow> github_Sync id w [Some s])"

subsection \<open>GitLab\<close>

definition validGitLabVariableKey :: "string \<Rightarrow> bool" where
  "validGitLabVariableKey name \<longleftrightarrow>
     name \<noteq> [] \<and> length name \<le> 255
     \<and> list_all (\<lambda>c. is_upper c \<or> is_lower c \<or> is_digit c \<or> c = CHR ''_'') name"

text \<open>\<open>errors.As(err, &status)\<close> for an \<open>HTTPStatusError\<close> anywhere in the chain.\<close>

fun status_of :: "call_error option \<Rightarrow> int option" where
  "status_of (Some (CallHTTP (HTTPStatusError st))) = Some st"
| "status_of (Some (CallHTTP (MutationNeedsReconciliation _ (HTTPStatusError st)))) = Some st"
| "status_of _ = None"

definition putVariable ::
    "http_world \<Rightarrow> string \<Rightarrow> string \<Rightarrow> mutation list \<times> call_error option" where
  "putVariable w name val = send_mutation w ''PUT'' name (SendSecret ''PUT'' name val) [200]"

definition createVariable ::
    "http_world \<Rightarrow> string \<Rightarrow> string \<Rightarrow> mutation list \<times> call_error option" where
  "createVariable w name val = send_mutation w ''POST'' name (SendSecret ''POST'' name val) [201]"

definition gitlab_SyncKey :: "http_world \<Rightarrow> Secret option \<Rightarrow> mutation list \<times> call_error option" where
  "gitlab_SyncKey w secret = (case secret of
      None \<Rightarrow> ([], Some CallNilSecret)
    | Some s \<Rightarrow>
        let name = SecretName (sec_Key s)
        in if \<not> validGitLabVariableKey name then ([], Some (CallKeyName name))
           else case putVariable w name (sec_Value s) of
               (sent, None) \<Rightarrow> (sent, None)
             | (sent, Some e) \<Rightarrow>
                 if status_of (Some e) \<in> {Some 404, Some 400}
                 then (case createVariable w name (sec_Value s) of (sent', r) \<Rightarrow> (sent @ sent', r))
                 else (sent, Some e))"

text \<open>The loop of \<open>Sync\<close>: one secret at a time, up to the first failure.\<close>

fun key_loop ::
    "(Secret option \<Rightarrow> mutation list \<times> call_error option) \<Rightarrow> Secret option list
      \<Rightarrow> mutation list \<times> call_error option" where
  "key_loop f [] = ([], None)"
| "key_loop f (s # ss) = (case f s of
      (sent, Some e) \<Rightarrow> (sent, Some e)
    | (sent, None) \<Rightarrow> (case key_loop f ss of (sent', r) \<Rightarrow> (sent @ sent', r)))"

definition gitlab_Sync :: "http_world \<Rightarrow> Secret option list \<Rightarrow> mutation list \<times> call_error option" where
  "gitlab_Sync w secrets =
     (if secrets = [] then ([], None)
      else case ValidateDestinationMapping ''gitlab'' secrets of
          Some e \<Rightarrow> ([], Some (CallMapping e)) | None \<Rightarrow> key_loop (gitlab_SyncKey w) secrets)"

subsection \<open>Cloudflare\<close>

definition putWorkerSecret ::
    "http_world \<Rightarrow> string \<Rightarrow> string \<Rightarrow> mutation list \<times> call_error option" where
  "putWorkerSecret w name val = send_mutation w ''PUT'' name (SendSecret ''PUT'' name val) [200]"

definition worker_SyncKey :: "http_world \<Rightarrow> Secret option \<Rightarrow> mutation list \<times> call_error option" where
  "worker_SyncKey w secret = (case secret of
      None \<Rightarrow> ([], Some CallNilSecret)
    | Some s \<Rightarrow> putWorkerSecret w (SecretName (sec_Key s)) (sec_Value s))"

text \<open>
  A Pages project takes one PATCH for the whole batch; it carries the last value of every
  destination name.
\<close>

definition pages_env :: "Secret list \<Rightarrow> string \<rightharpoonup> string" where
  "pages_env secrets = foldl (\<lambda>m s. m(SecretName (sec_Key s) \<mapsto> sec_Value s)) Map.empty secrets"

definition syncPages ::
    "http_world \<Rightarrow> CloudflareSyncer \<Rightarrow> Secret option list \<Rightarrow> mutation list \<times> call_error option" where
  "syncPages w c secrets = (case ValidateDestinationMapping ''cloudflare'' secrets of
      Some e \<Rightarrow> ([], Some (CallMapping e))
    | None \<Rightarrow> send_mutation w ''PATCH'' (cf_pages c)
        (SendPatch (cf_pages c) (pages_env (map the secrets))) [200])"

definition cloudflare_Sync ::
    "(Secret list \<Rightarrow> Secret list) \<Rightarrow> http_world \<Rightarrow> CloudflareSyncer \<Rightarrow> Secret option list
      \<Rightarrow> mutation list \<times> call_error option" where
  "cloudflare_Sync order w c secrets =
     (if secrets = [] then ([], None)
      else case ValidateDestinationMapping ''cloudflare'' secrets of
          Some e \<Rightarrow> ([], Some (CallMapping e))
        | None \<Rightarrow>
            if cf_pages c \<noteq> [] then syncPages w c secrets
            else run_workers putWorkerSecret w (order (map the secrets)))"

subsection \<open>Existing names\<close>

text \<open>
  The listings. A page of the answer is the attempts its request takes and what its body
  decodes to. The loops over pages have no bound of their own, so they take fuel and return
  \<open>None\<close> when it runs out.
\<close>

type_synonym 'a page = "(nat \<Rightarrow> attempt) \<times> 'a option"

definition read_page :: "bool \<Rightarrow> 'a page \<Rightarrow> call_error + 'a" where
  "read_page urlOk p =
     (if \<not> urlOk then Inl CallBadURL
      else case fst (doWithRetry (fst p) [200]) of
          Inl e \<Rightarrow> Inl (CallHTTP e)
        | Inr _ \<Rightarrow> (case snd p of None \<Rightarrow> Inl CallDecode | Some b \<Rightarrow> Inr b))"

fun github_pages ::
    "nat \<Rightarrow> bool \<Rightarrow> (nat \<Rightarrow> (int \<times> string list) page) \<Rightarrow> nat \<Rightarrow> string list
      \<Rightarrow> (call_error + string list) option" where
  "github_pages 0 urlOk srv page names = None"
| "github_pages (Suc fuel) urlOk srv page names = (case read_page urlOk (srv page) of
      Inl e \<Rightarrow> Some (Inl e)
    | Inr (totalCount, batch) \<Rightarrow>
        if totalCount \<le> int page * 100 then Some (Inr (names @ batch))
        else github_pages fuel urlOk srv (Suc page) (names @ batch))"

definition github_ExistingKeys ::
    "nat \<Rightarrow> bool \<Rightarrow> (nat \<Rightarrow> (int \<times> string list) page) \<Rightarrow> (call_error + string list) option" where
  "github_ExistingKeys fuel urlOk srv = github_pages fuel urlOk srv 1 []"

fun gitlab_pages ::
    "nat \<Rightarrow> bool \<Rightarrow> (nat \<Rightarrow> string list page) \<Rightarrow> nat \<Rightarrow> string list
      \<Rightarrow> (call_error + string list) option" where
  "gitlab_pages 0 urlOk srv page names = None"
| "gitlab_pages (Suc fuel) urlOk srv page names = (case read_page urlOk (srv page) of
      Inl e \<Rightarrow> Some (Inl e)
    | Inr batch \<Rightarrow>
        if length batch < 100 then Some (Inr (names @ batch))
        else gitlab_pages fuel urlOk srv (Suc page) (names @ batch))"

definition gitlab_ExistingKeys ::
    "nat \<Rightarrow> bool \<Rightarrow> (nat \<Rightarrow> string list page) \<Rightarrow> (call_error + string list) option" where
  "gitlab_ExistingKeys fuel urlOk srv = gitlab_pages fuel urlOk srv 1 []"

definition cloudflare_ExistingKeys ::
    "bool \<Rightarrow> CloudflareSyncer \<Rightarrow> string list page \<Rightarrow> call_error + string list" where
  "cloudflare_ExistingKeys urlOk c p =
     (if cf_pages c \<noteq> [] then Inl CallUnsupported else read_page urlOk p)"

subsection \<open>One mutation\<close>

definition needs_reconciliation :: "call_error \<Rightarrow> bool" where
  "needs_reconciliation e = (case e of CallHTTP (MutationNeedsReconciliation _ _) \<Rightarrow> True | _ \<Rightarrow> False)"

lemma send_mutation_cases:
  assumes "send_mutation w verb name m ok = (sent, r)"
  obtains (accepted) st where "r = None" "sent = [m]" "at_response (hw_mutate w verb name) = Some st"
      "st \<in> set ok"
    | (unsent) e where "r = Some e" "sent = []" "status_of (Some e) = None"
    | (unclear) e where "r = Some e" "sent = [m]" "needs_reconciliation e"
        "status_of (Some e) = at_response (hw_mutate w verb name)"
proof -
  let ?a = "hw_mutate w verb name"
  show thesis
  proof (cases "\<not> hw_urlOk w \<or> at_ctxDone ?a \<or> at_requestFails ?a")
    case True
    with assms have "sent = []" "r \<in> {Some CallBadURL, Some (CallHTTP CtxError), Some (CallHTTP RequestError)}"
      by (auto simp: send_mutation_def doMutation_def split: if_splits)
    then show ?thesis by (auto intro: unsent)
  next
    case False
    show ?thesis
    proof (cases "\<exists>st. at_response ?a = Some st \<and> statusAllowed st ok")
      case True
      then obtain st where st: "at_response ?a = Some st" "st \<in> set ok"
        by (auto simp: statusAllowed_def list_ex_iff)
      then have "statusAllowed st ok" by (auto simp: statusAllowed_def list_ex_iff)
      with assms False st(1) have "r = None" "sent = [m]" by (auto simp: send_mutation_def doMutation_def)
      with st show ?thesis by (rule_tac accepted)
    next
      case refused: False
      have "\<exists>e. r = Some e \<and> sent = [m] \<and> needs_reconciliation e \<and> status_of (Some e) = at_response ?a"
        using assms False refused
        by (cases "at_response ?a")
          (auto simp: send_mutation_def doMutation_def needs_reconciliation_def split: if_splits)
      then show ?thesis by (auto intro: unclear)
    qed
  qed
qed

subsection \<open>The contract of a per-key target\<close>

text \<open>
  What the journal relies on when it calls \<open>SyncKey\<close>: every mutation a call sends is about that
  secret, and a call that reports success ended with a mutation the provider accepted.
\<close>

definition own_mutation :: "Secret \<Rightarrow> mutation \<Rightarrow> bool" where
  "own_mutation s m \<longleftrightarrow> (\<exists>verb. m = SendSecret verb (SecretName (sec_Key s)) (sec_Value s))"

locale per_key_target =
  fixes sync_key :: "http_world \<Rightarrow> Secret option \<Rightarrow> mutation list \<times> call_error option"
    and bound :: nat
  assumes nil_secret: "sync_key w None = ([], Some CallNilSecret)"
    and own: "sync_key w (Some s) = (sent, r) \<Longrightarrow> m \<in> set sent \<Longrightarrow> own_mutation s m"
    and bounded: "length (fst (sync_key w secret)) \<le> bound"
    and acknowledged: "sync_key w (Some s) = (sent, None) \<Longrightarrow> sent \<noteq> []"
begin

text \<open>A sequence of calls that succeeds has written every secret, and nothing else.\<close>

lemma key_loop_complete:
  "key_loop (sync_key w) secrets = (sent, None) \<Longrightarrow>
     (\<forall>s. Some s \<in> set secrets \<longrightarrow> (\<exists>m \<in> set sent. own_mutation s m)) \<and> None \<notin> set secrets"
proof (induction secrets arbitrary: sent)
  case (Cons a ss)
  obtain s1 s2 where s: "sync_key w a = (s1, None)" "key_loop (sync_key w) ss = (s2, None)" "sent = s1 @ s2"
    using Cons.prems by (auto split: prod.splits option.splits)
  obtain x where x: "a = Some x" using s(1) nil_secret by (cases a) auto
  then have "s1 \<noteq> []" using acknowledged s(1) by blast
  then obtain m where "m \<in> set s1" "own_mutation x m" using own [of w x s1 None] s(1) x by (cases s1) auto
  with Cons.IH [OF s(2)] s(3) x show ?case by auto
qed simp

lemma key_loop_own:
  "m \<in> set (fst (key_loop (sync_key w) secrets)) \<Longrightarrow> \<exists>s. Some s \<in> set secrets \<and> own_mutation s m"
proof (induction secrets)
  case (Cons a ss)
  obtain s1 r1 where s1: "sync_key w a = (s1, r1)" by fastforce
  have "m \<in> set s1 \<or> m \<in> set (fst (key_loop (sync_key w) ss))"
    using Cons.prems s1 by (auto split: option.splits prod.splits)
  then show ?case
  proof
    assume m: "m \<in> set s1"
    then obtain x where "a = Some x" using s1 nil_secret by (cases a) auto
    with own [of w x s1 r1 m] s1 m show ?thesis by auto
  qed (use Cons.IH in auto)
qed simp

lemma key_loop_bounded: "length (fst (key_loop (sync_key w) secrets)) \<le> bound * length secrets"
proof (induction secrets)
  case (Cons a ss)
  have "length (fst (key_loop (sync_key w) (a # ss))) \<le>
      length (fst (sync_key w a)) + length (fst (key_loop (sync_key w) ss))"
    by (auto split: prod.splits option.splits)
  with Cons.IH bounded [of w a] show ?case by simp
qed simp

end

lemma putSecret_cases:
  assumes "putSecret w name val = (sent, r)"
  shows "set sent \<subseteq> {SendSecret ''PUT'' name val} \<and> length sent \<le> 1 \<and> (r = None \<longrightarrow> sent \<noteq> [])
    \<and> (\<forall>e. r = Some e \<longrightarrow> sent \<noteq> [] \<longrightarrow> needs_reconciliation e)"
proof (cases "hw_sealFails w name")
  case False
  with assms have "send_mutation w ''PUT'' name (SendSecret ''PUT'' name val) [201, 204] = (sent, r)"
    by (simp add: putSecret_def)
  then show ?thesis by (cases rule: send_mutation_cases) auto
qed (use assms in \<open>auto simp: putSecret_def\<close>)

lemma github_SyncKey_cases:
  assumes "github_SyncKey w (Some s) = (sent, r)"
  shows "(sent = [] \<and> r \<noteq> None)
    \<or> putSecret w (SecretName (sec_Key s)) (sec_Value s) = (sent, r)"
proof -
  have "ValidateDestinationMapping ''github'' [Some s] = None"
    by (simp add: ValidateDestinationMapping_def)
  moreover have "unique_secrets [s] = [s]" by (simp add: unique_secrets_def last_by_key_def)
  ultimately have eq: "github_SyncKey w (Some s) = (case getPublicKey w of
        Inl e \<Rightarrow> ([], Some e)
      | Inr b64 \<Rightarrow> (case hw_decode64 w b64 of None \<Rightarrow> ([], Some CallDecode)
          | Some key \<Rightarrow> if length key \<noteq> 32 then ([], Some (CallKeyLength (length key)))
              else run_workers putSecret w [s]))"
    by (simp add: github_SyncKey_def github_Sync_def Let_def cong: sum.case_cong option.case_cong if_cong)
  have one: "run_workers putSecret w [s] = worker putSecret w s"
    by (cases "worker putSecret w s"; cases "snd (worker putSecret w s)") auto
  show ?thesis
    using assms unfolding eq one
    by (auto simp: worker_def Let_def split: sum.splits option.splits if_splits)
qed

interpretation github: per_key_target github_SyncKey 1
proof
  fix w s sent r m secret
  show "github_SyncKey w None = ([], Some CallNilSecret)" by (simp add: github_SyncKey_def)
  show "own_mutation s m" if "github_SyncKey w (Some s) = (sent, r)" "m \<in> set sent"
    using github_SyncKey_cases [OF that(1)] putSecret_cases that(2)
    by (fastforce simp: own_mutation_def)
  show "sent \<noteq> []" if "github_SyncKey w (Some s) = (sent, None)"
    using github_SyncKey_cases [OF that] putSecret_cases by fastforce
  show "length (fst (github_SyncKey w secret)) \<le> 1"
  proof (cases secret)
    case None
    then show ?thesis by (simp add: github_SyncKey_def)
  next
    case (Some x)
    obtain a b where "github_SyncKey w (Some x) = (a, b)" by fastforce
    with Some github_SyncKey_cases [OF this] putSecret_cases show ?thesis by fastforce
  qed
qed

interpretation cloudflare_worker: per_key_target worker_SyncKey 1
proof
  fix w s sent r m secret
  show "worker_SyncKey w None = ([], Some CallNilSecret)" by (simp add: worker_SyncKey_def)
  have c: "set a \<subseteq> {SendSecret ''PUT'' (SecretName (sec_Key x)) (sec_Value x)} \<and> length a \<le> 1
      \<and> (b = None \<longrightarrow> a \<noteq> [])" if "worker_SyncKey w (Some x) = (a, b)" for x a b
    using that unfolding worker_SyncKey_def putWorkerSecret_def option.case
    by (cases rule: send_mutation_cases) auto
  show "own_mutation s m" if "worker_SyncKey w (Some s) = (sent, r)" "m \<in> set sent"
    using c [OF that(1)] that(2) by (auto simp: own_mutation_def)
  show "sent \<noteq> []" if "worker_SyncKey w (Some s) = (sent, None)" using c [OF that] by auto
  show "length (fst (worker_SyncKey w secret)) \<le> 1"
  proof (cases secret)
    case None
    then show ?thesis by (simp add: worker_SyncKey_def)
  next
    case (Some x)
    obtain a b where "worker_SyncKey w (Some x) = (a, b)" by fastforce
    with Some c [OF this] show ?thesis by simp
  qed
qed

lemma gitlab_SyncKey_cases:
  assumes "gitlab_SyncKey w (Some s) = (sent, r)" and "name = SecretName (sec_Key s)"
  obtains (refused) "sent = []" "r \<noteq> None"
    | (put) "putVariable w name (sec_Value s) = (sent, r)"
    | (create) sent1 sent2 e where "putVariable w name (sec_Value s) = (sent1, Some e)"
        "status_of (Some e) \<in> {Some 404, Some 400}"
        "createVariable w name (sec_Value s) = (sent2, r)" "sent = sent1 @ sent2"
proof (cases "validGitLabVariableKey name")
  case True
  obtain sent1 r1 where p: "putVariable w name (sec_Value s) = (sent1, r1)" by fastforce
  show ?thesis
  proof (cases "\<exists>e. r1 = Some e \<and> status_of (Some e) \<in> {Some 404, Some 400}")
    case create': True
    then obtain e sent2 r2 where "r1 = Some e" "status_of (Some e) \<in> {Some 404, Some 400}"
      "createVariable w name (sec_Value s) = (sent2, r2)" by fastforce
    with assms True p show ?thesis by (intro create) (auto simp: gitlab_SyncKey_def Let_def)
  next
    case False
    with assms True p show ?thesis
      by (intro put) (auto simp: gitlab_SyncKey_def Let_def split: option.splits)
  qed
qed (use assms refused in \<open>auto simp: gitlab_SyncKey_def\<close>)

lemma variable_cases:
  assumes "putVariable w name val = (sent, r) \<or> createVariable w name val = (sent, r)"
  shows "(\<forall>m \<in> set sent. \<exists>verb. m = SendSecret verb name val) \<and> length sent \<le> 1 \<and> (r = None \<longrightarrow> sent \<noteq> [])
    \<and> (\<forall>e. r = Some e \<longrightarrow> sent \<noteq> [] \<longrightarrow> needs_reconciliation e)"
proof -
  from assms obtain verb ok where
    "send_mutation w verb name (SendSecret verb name val) ok = (sent, r)"
    by (auto simp: putVariable_def createVariable_def)
  then show ?thesis by (cases rule: send_mutation_cases) auto
qed

lemma gitlab_SyncKey_facts:
  assumes "gitlab_SyncKey w (Some s) = (sent, r)"
  shows "(\<forall>m \<in> set sent. own_mutation s m) \<and> length sent \<le> 2 \<and> (r = None \<longrightarrow> sent \<noteq> [])"
  using assms refl
proof (cases rule: gitlab_SyncKey_cases)
  case put
  with variable_cases show ?thesis by (fastforce simp: own_mutation_def)
next
  case (create sent1 sent2 e)
  with variable_cases [of w _ _ sent1] variable_cases [of w _ _ sent2] show ?thesis
    by (fastforce simp: own_mutation_def)
qed simp

interpretation gitlab: per_key_target gitlab_SyncKey 2
proof
  fix w s sent r m secret
  show "gitlab_SyncKey w None = ([], Some CallNilSecret)" by (simp add: gitlab_SyncKey_def)
  show "own_mutation s m" if "gitlab_SyncKey w (Some s) = (sent, r)" "m \<in> set sent"
    using gitlab_SyncKey_facts [OF that(1)] that(2) by blast
  show "sent \<noteq> []" if "gitlab_SyncKey w (Some s) = (sent, None)"
    using gitlab_SyncKey_facts [OF that] by blast
  show "length (fst (gitlab_SyncKey w secret)) \<le> 2"
  proof (cases secret)
    case None
    then show ?thesis by (simp add: gitlab_SyncKey_def)
  next
    case (Some x)
    obtain a b where "gitlab_SyncKey w (Some x) = (a, b)" by fastforce
    with Some gitlab_SyncKey_facts [OF this] show ?thesis by simp
  qed
qed

subsection \<open>Properties\<close>

lemma gitlab_create_after_absent:
  assumes "gitlab_SyncKey w (Some s) = (sent, r)" and "length sent = 2"
  shows "at_response (hw_mutate w ''PUT'' (SecretName (sec_Key s))) \<in> {Some 404, Some 400}"
  using assms(1) refl
proof (cases rule: gitlab_SyncKey_cases)
  case put
  with variable_cases assms(2) show ?thesis by fastforce
next
  case (create sent1 sent2 e)
  from create(1) [unfolded putVariable_def] show ?thesis
    by (cases rule: send_mutation_cases) (use create(2) in auto)
qed (use assms(2) in simp)

lemma gitlab_accepted:
  assumes "gitlab_SyncKey w (Some s) = (sent, None)"
  shows "\<exists>verb st. last sent = SendSecret verb (SecretName (sec_Key s)) (sec_Value s)
    \<and> at_response (hw_mutate w verb (SecretName (sec_Key s))) = Some st \<and> st \<in> {200, 201}"
  using assms refl
proof (cases rule: gitlab_SyncKey_cases)
  case put
  from this [unfolded putVariable_def] show ?thesis by (cases rule: send_mutation_cases) auto
next
  case (create sent1 sent2 e)
  from create(3) [unfolded createVariable_def] create(4) show ?thesis
    by (cases rule: send_mutation_cases) auto
qed simp

text \<open>
  A GitLab variable is written by at most two requests, all of them for that secret's own
  name and value. The create is sent only after the update was answered 404 or 400, and
  success is reported only when the last request was answered 200 or 201.
\<close>

lemma gitlab_sync_key_safe:
  assumes "gitlab_SyncKey w (Some s) = (sent, r)"
  shows "(\<forall>m \<in> set sent. own_mutation s m) \<and> length sent \<le> 2
    \<and> (length sent = 2 \<longrightarrow>
         at_response (hw_mutate w ''PUT'' (SecretName (sec_Key s))) \<in> {Some 404, Some 400})
    \<and> (r = None \<longrightarrow> (\<exists>verb st. last sent = SendSecret verb (SecretName (sec_Key s)) (sec_Value s)
         \<and> at_response (hw_mutate w verb (SecretName (sec_Key s))) = Some st \<and> st \<in> {200, 201}))"
  using gitlab_SyncKey_facts [OF assms] gitlab_create_after_absent [OF assms] gitlab_accepted assms
  by blast

definition answers :: "int \<Rightarrow> attempt" where
  "answers st = \<lparr>at_ctxDone = False, at_requestFails = False, at_response = Some st,
     at_ctxDoneAfter = False, at_waitAborted = False\<rparr>"

definition example_world :: http_world where
  "example_world = \<lparr>hw_urlOk = True, hw_keyRead = (\<lambda>_. answers 200), hw_publicKey = Some ''key'',
     hw_decode64 = (\<lambda>_. Some (replicate 32 (CHR ''k''))), hw_sealFails = (\<lambda>_. False),
     hw_ctxDone = (\<lambda>_. False),
     hw_mutate = (\<lambda>verb name. answers (if verb = ''PUT'' then 404 else 201))\<rparr>"

lemma gitlab_sync_key_safe_example:
  "length (fst (gitlab_SyncKey example_world (Some (mk_Secret ''/p/KEY'' ''v'')))) = 2
   \<and> at_response (hw_mutate example_world ''PUT'' (SecretName ''/p/KEY'')) \<in> {Some 404, Some 400}"
proof -
  let ?s = "mk_Secret ''/p/KEY'' ''v''"
  obtain sent r where g: "gitlab_SyncKey example_world (Some ?s) = (sent, r)" by fastforce
  have "length (fst (gitlab_SyncKey example_world (Some ?s))) = 2" by code_simp
  with gitlab_sync_key_safe [OF g] g show ?thesis by simp
qed

text \<open>
  A GitLab batch that succeeds has written every secret of the batch and nothing else,
  with at most two requests each; a batch that fails has sent requests for secrets of the
  batch only.
\<close>

lemma gitlab_batch_complete:
  assumes "gitlab_Sync w secrets = (sent, r)"
  shows "(\<forall>m \<in> set sent. \<exists>s. Some s \<in> set secrets \<and> own_mutation s m)
    \<and> length sent \<le> 2 * length secrets
    \<and> (r = None \<longrightarrow> (\<forall>s. Some s \<in> set secrets \<longrightarrow> (\<exists>m \<in> set sent. own_mutation s m)))"
proof (cases "key_loop (gitlab_SyncKey w) secrets = (sent, r)")
  case True
  then show ?thesis
    using gitlab.key_loop_complete [of w secrets sent] gitlab.key_loop_own [of _ w secrets]
      gitlab.key_loop_bounded [of w secrets] by auto
next
  case False
  with assms have "sent = []" "r = None \<longrightarrow> secrets = []"
    by (auto simp: gitlab_Sync_def split: if_splits option.splits)
  then show ?thesis by auto
qed

lemma gitlab_batch_complete_example:
  "\<exists>m \<in> set (fst (gitlab_Sync example_world [Some (mk_Secret ''/p/KEY'' ''v'')])).
     own_mutation (mk_Secret ''/p/KEY'' ''v'') m"
proof -
  let ?ss = "[Some (mk_Secret ''/p/KEY'' ''v'')]"
  obtain sent r where g: "gitlab_Sync example_world ?ss = (sent, r)" by fastforce
  have "snd (gitlab_Sync example_world ?ss) = None" by code_simp
  with gitlab_batch_complete [OF g] g show ?thesis by auto
qed

subsection \<open>Concurrent batches\<close>

abbreviation put_of :: "Secret \<Rightarrow> mutation" where
  "put_of s \<equiv> SendSecret ''PUT'' (SecretName (sec_Key s)) (sec_Value s)"

lemma worker_sent:
  assumes "worker putSecret w s = (sent, r)"
  shows "sent \<in> {[], [put_of s]} \<and> (r = None \<longrightarrow> sent = [put_of s])
    \<and> (\<forall>e. r = Some e \<longrightarrow> sent \<noteq> [] \<longrightarrow> needs_reconciliation e)"
proof (cases "hw_ctxDone w (SecretName (sec_Key s))")
  case False
  with assms have "putSecret w (SecretName (sec_Key s)) (sec_Value s) = (sent, r)"
    by (simp add: worker_def)
  from putSecret_cases [OF this] show ?thesis by (cases sent) auto
qed (use assms in \<open>auto simp: worker_def\<close>)

lemma run_workers_sent:
  "\<exists>done. fst (run_workers putSecret w order) = map put_of done
     \<and> subseq done order \<and> (snd (run_workers putSecret w order) = None \<longrightarrow> done = order)"
proof (induction order)
  case (Cons s order)
  obtain sent r where s: "worker putSecret w s = (sent, r)" by fastforce
  obtain sent' r' where o: "run_workers putSecret w order = (sent', r')" by fastforce
  from Cons.IH o obtain dn where dn: "sent' = map put_of dn" "subseq dn order" "r' = None \<longrightarrow> dn = order"
    by auto
  have run: "run_workers putSecret w (s # order) = (sent @ sent', first_err r r')" by (simp add: s o)
  from worker_sent [OF s] consider "sent = []" "r \<noteq> None" | "sent = [put_of s]" by auto
  then show ?case
  proof cases
    case 1
    then show ?thesis using dn by (intro exI [of _ dn]) (auto simp: run simp del: run_workers.simps)
  next
    case 2
    then show ?thesis using dn by (intro exI [of _ "s # dn"]) (auto simp: run simp del: run_workers.simps)
  qed
qed simp

lemma last_by_key_Some:
  "last_by_key secs k = Some s \<Longrightarrow> s \<in> set secs \<and> sec_Key s = k"
  by (induction secs rule: rev_induct) (auto simp: last_by_key_def split: if_splits)

lemma last_by_key_dom: "dom (last_by_key secs) = set (map sec_Key secs)"
proof (induction secs rule: rev_induct)
  case (snoc x xs)
  have "last_by_key (xs @ [x]) = (last_by_key xs)(sec_Key x \<mapsto> x)" by (simp add: last_by_key_def)
  then show ?case by (simp only: dom_fun_upd snoc) simp
qed (simp add: last_by_key_def)

lemma unique_secrets_keys: "map sec_Key (unique_secrets secs) = remdups (map sec_Key secs)"
proof -
  have "sec_Key (the (last_by_key secs k)) = k" if "k \<in> set (map sec_Key secs)" for k
    using that last_by_key_dom [of secs] last_by_key_Some [of secs k] by (metis domD option.sel)
  then have "map (\<lambda>k. sec_Key (the (last_by_key secs k))) ks = ks" if "set ks \<subseteq> set (map sec_Key secs)" for ks
    using that by (intro map_idI) blast
  from this [of "remdups (map sec_Key secs)"] show ?thesis by (simp add: unique_secrets_def comp_def)
qed

lemma unique_secrets_set: "set (unique_secrets secs) = ran (last_by_key secs)"
proof -
  have "set (unique_secrets secs) = (the \<circ> last_by_key secs) ` dom (last_by_key secs)"
    by (simp add: unique_secrets_def last_by_key_dom)
  also have "\<dots> = ran (last_by_key secs)" by (force simp: ran_def image_iff dom_def)
  finally show ?thesis .
qed

lemma github_Sync_sent:
  assumes "github_Sync order w (map Some secs) = (sent, r)" and "secs \<noteq> []"
  shows "(sent = [] \<and> r \<noteq> None) \<or> (inj_on SecretName (set (map sec_Key secs))
    \<and> run_workers putSecret w (order (unique_secrets secs)) = (sent, r))"
proof (cases "ValidateDestinationMapping ''github'' (map Some secs)")
  case (Some e)
  with assms show ?thesis by (auto simp: github_Sync_def)
next
  case None
  then have "inj_on SecretName (set (map sec_Key secs))"
    by (simp add: ValidateDestinationMapping_def keyed_targets_def mapping_loop_collision
        collision_loop_correct)
  moreover have "map the (map Some secs) = secs" by (simp add: comp_def)
  ultimately show ?thesis
    using assms None
    by (auto simp: github_Sync_def simp del: map_map split: sum.splits option.splits if_splits)
qed

fun mutation_name :: "mutation \<Rightarrow> string" where
  "mutation_name (SendSecret _ name _) = name"
| "mutation_name (SendPatch project _) = project"

text \<open>
  A GitHub batch never writes one destination name twice, whatever the order in which its
  concurrent requests finish: of several secrets with one key only the last is sent, and
  distinct keys have distinct names. When it reports success, every secret was sent.
\<close>

lemma github_batch_writes_once:
  assumes "github_Sync order w (map Some secs) = (sent, r)" and "secs \<noteq> []"
    and "\<forall>xs. mset (order xs) = mset xs"
  shows "distinct (map mutation_name sent)
    \<and> set sent \<subseteq> put_of ` ran (last_by_key secs)
    \<and> (r = None \<longrightarrow> set sent = put_of ` ran (last_by_key secs))"
  using github_Sync_sent [OF assms(1,2)]
proof (elim disjE conjE)
  assume inj: "inj_on SecretName (set (map sec_Key secs))"
    and run: "run_workers putSecret w (order (unique_secrets secs)) = (sent, r)"
  let ?ord = "order (unique_secrets secs)"
  have perm: "mset ?ord = mset (unique_secrets secs)" using assms(3) by blast
  then have set_ord: "set ?ord = ran (last_by_key secs)" by (metis set_mset_mset unique_secrets_set)
  have "mset (map (\<lambda>s. SecretName (sec_Key s)) ?ord) =
      mset (map SecretName (map sec_Key (unique_secrets secs)))"
    using perm by (simp add: comp_def)
  moreover have "distinct (map SecretName (map sec_Key (unique_secrets secs)))"
    unfolding unique_secrets_keys using inj by (simp add: distinct_map)
  ultimately have "distinct (map (\<lambda>s. SecretName (sec_Key s)) ?ord)"
    by (metis mset_eq_imp_distinct_iff)
  moreover obtain dn where dn: "sent = map put_of dn" "subseq dn ?ord" "r = None \<longrightarrow> dn = ?ord"
    using run_workers_sent [of w ?ord] run by auto
  moreover have "map mutation_name (map put_of dn) = map (\<lambda>s. SecretName (sec_Key s)) dn" by simp
  ultimately have "distinct (map mutation_name sent)"
    by (metis subseq_map subseq_conv_nths distinct_nthsI)
  moreover have "set dn \<subseteq> set ?ord" using dn(2) by (metis notin_set_nthsI subseq_conv_nths subsetI)
  ultimately show ?thesis using dn set_ord by auto
qed auto

lemma github_batch_writes_once_example:
  "distinct (map mutation_name (fst (github_Sync id example_world
     (map Some [mk_Secret ''/a/K'' ''1'', mk_Secret ''/a/K'' ''2'']))))"
  using github_batch_writes_once [of id example_world "[mk_Secret ''/a/K'' ''1'', mk_Secret ''/a/K'' ''2'']"]
  by (cases "github_Sync id example_world (map Some [mk_Secret ''/a/K'' ''1'', mk_Secret ''/a/K'' ''2''])") simp

subsection \<open>Listings\<close>

text \<open>
  A server that answers every page: at the first attempt with status 200, the page of a
  hundred names that the request asks for.
\<close>

definition page_of :: "string list \<Rightarrow> nat \<Rightarrow> string list" where
  "page_of names p = take 100 (drop (100 * (p - 1)) names)"

lemma read_page_ok: "read_page True (\<lambda>_. answers 200, Some b) = Inr b"
proof -
  have "fst (doWithRetry (\<lambda>_. answers 200) [200]) = Inr 200"
    by (simp add: doWithRetry_def maxHTTPAttempts_def numeral_3_eq_3 answers_def statusAllowed_def)
  then show ?thesis by (simp add: read_page_def)
qed

lemma pages_step: "take (100 * p) names @ page_of names (Suc p) = take (100 * Suc p) names"
  by (simp add: page_of_def take_add [symmetric] add.commute)

lemma github_pages_complete:
  assumes "length names \<le> 100 * (p + fuel)" and "0 < fuel"
    and "p = 0 \<or> 100 * p < length names"
  shows "github_pages fuel True (\<lambda>q. (\<lambda>_. answers 200, Some (int (length names), page_of names q)))
      (Suc p) (take (100 * p) names) = Some (Inr names)"
  using assms
proof (induction fuel arbitrary: p)
  case (Suc fuel)
  have cond: "int (length names) \<le> int (Suc p) * 100 \<longleftrightarrow> length names \<le> 100 * Suc p" by linarith
  show ?case
  proof (cases "length names \<le> 100 * Suc p")
    case True
    then show ?thesis by (simp add: read_page_ok cond pages_step del: of_nat_Suc mult_Suc_right)
  next
    case False
    with Suc.prems have "0 < fuel" by (cases fuel) auto
    with Suc.IH [of "Suc p"] Suc.prems False show ?thesis
      by (simp add: read_page_ok cond pages_step del: of_nat_Suc mult_Suc_right)
  qed
qed simp

lemma gitlab_pages_complete:
  assumes "length names < 100 * (p + fuel)" and "100 * p \<le> length names"
  shows "gitlab_pages fuel True (\<lambda>q. (\<lambda>_. answers 200, Some (page_of names q)))
      (Suc p) (take (100 * p) names) = Some (Inr names)"
  using assms
proof (induction fuel arbitrary: p)
  case (Suc fuel)
  have len: "length (page_of names (Suc p)) < 100 \<longleftrightarrow> length names < 100 * Suc p"
    using Suc.prems(2) by (auto simp: page_of_def)
  show ?case
  proof (cases "length names < 100 * Suc p")
    case True
    then show ?thesis by (simp add: read_page_ok len pages_step del: mult_Suc_right)
  next
    case False
    with Suc.IH [of "Suc p"] Suc.prems show ?thesis
      by (simp add: read_page_ok len pages_step del: mult_Suc_right)
  qed
qed simp

text \<open>
  No-overwrite never overwrites. Against a server that answers, the paginated listings of
  GitHub and GitLab end and return every existing name, so \<open>FilterAbsent\<close> keeps exactly the
  secrets whose destination name, compared without case, is not there yet.
\<close>

lemma no_overwrite_keeps_existing:
  fixes names :: "string list" and extra :: nat
  defines "fuel \<equiv> Suc (length names div 100) + extra"
  defines "gh \<equiv> github_ExistingKeys fuel True
      (\<lambda>q. (\<lambda>_. answers 200, Some (int (length names), page_of names q)))"
  defines "gl \<equiv> gitlab_ExistingKeys fuel True (\<lambda>q. (\<lambda>_. answers 200, Some (page_of names q)))"
  shows "gh = Some (Inr names) \<and> gl = Some (Inr names)
    \<and> (\<exists>kept. FilterAbsent uni (GitHubTarget g) (Some names) secrets
              = Inr (kept, length secrets - length kept)
         \<and> (\<forall>sec. sec \<in> set kept \<longleftrightarrow> sec \<in> set secrets
              \<and> (\<forall>n \<in> set names. ToUpper uni n \<noteq> ToUpper uni (SecretName (sec_Key sec)))))"
proof -
  have "length names < 100 * fuel" unfolding fuel_def by (simp add: div_add1_eq)
  then have "gl = Some (Inr names)" "gh = Some (Inr names)"
    using gitlab_pages_complete [of names 0 fuel] github_pages_complete [of names 0 fuel]
    by (simp_all add: gl_def gh_def gitlab_ExistingKeys_def github_ExistingKeys_def fuel_def)
  moreover have "\<exists>kept. FilterAbsent uni (GitHubTarget g) (Some names) secrets
              = Inr (kept, length secrets - length kept)
         \<and> (\<forall>sec. sec \<in> set kept \<longleftrightarrow> sec \<in> set secrets
              \<and> (\<forall>n \<in> set names. ToUpper uni n \<noteq> ToUpper uni (SecretName (sec_Key sec))))"
    by (auto simp: FilterAbsent_def Let_def image_iff)
  ultimately show ?thesis by blast
qed

lemma no_overwrite_keeps_existing_example:
  "\<exists>kept. FilterAbsent id (GitHubTarget \<lparr>gh_owner = ''o'', gh_repo = ''r'', gh_token = ''t'', gh_baseURL = ''u''\<rparr>)
      (Some [''A'']) [mk_Secret ''/p/a'' ''1'', mk_Secret ''/p/b'' ''2''] = Inr (kept, 2 - length kept)
    \<and> mk_Secret ''/p/b'' ''2'' \<in> set kept \<and> mk_Secret ''/p/a'' ''1'' \<notin> set kept"
proof -
  let ?g = "\<lparr>gh_owner = ''o'', gh_repo = ''r'', gh_token = ''t'', gh_baseURL = ''u''\<rparr>"
  let ?a = "mk_Secret ''/p/a'' ''1''" and ?b = "mk_Secret ''/p/b'' ''2''"
  have u: "ToUpper id ''A'' = ToUpper id (SecretName ''/p/a'')" "ToUpper id ''A'' \<noteq> ToUpper id (SecretName ''/p/b'')"
    by code_simp+
  from no_overwrite_keeps_existing [of "[''A'']" 0 id ?g "[?a, ?b]"]
  obtain kept where k: "FilterAbsent id (GitHubTarget ?g) (Some [''A'']) [?a, ?b] = Inr (kept, length [?a, ?b] - length kept)"
    and m: "\<forall>sec. sec \<in> set kept \<longleftrightarrow> sec \<in> set [?a, ?b] \<and> (\<forall>n \<in> set [''A'']. ToUpper id n \<noteq> ToUpper id (SecretName (sec_Key sec)))"
    by blast
  from m [rule_format, of ?a] m [rule_format, of ?b] u have "?b \<in> set kept" "?a \<notin> set kept"
    by simp_all
  with k show ?thesis by (intro exI [of _ kept]) simp
qed

end
