(* ===== verification/Go_Utf8.thy ===== *)
theory Go_Utf8
  imports Go_Prelude
begin

text \<open>
  UTF-8 as Go's \<open>range\<close> over a string and \<open>unicode/utf8\<close> read it: a string is a sequence of
  runes, and a byte that does not begin a valid encoding is a rune of its own
  (\<open>utf8.RuneError\<close> of width one).
\<close>

definition byte_in :: "nat \<Rightarrow> nat \<Rightarrow> string \<Rightarrow> nat \<Rightarrow> bool" where
  "byte_in lo hi s i \<longleftrightarrow> i < length s \<and> lo \<le> of_char (s ! i) \<and> of_char (s ! i) \<le> hi"

text \<open>The width of the valid encoding at the head of a string, 0 when there is none.\<close>

fun utf8_width :: "string \<Rightarrow> nat" where
  "utf8_width [] = 0"
| "utf8_width (c # s) =
     (let n = of_char c :: nat
      in if n < 0x80 then 1
         else if 0xC2 \<le> n \<and> n \<le> 0xDF then if byte_in 0x80 0xBF s 0 then 2 else 0
         else if 0xE0 \<le> n \<and> n \<le> 0xEF
         then if byte_in (if n = 0xE0 then 0xA0 else 0x80) (if n = 0xED then 0x9F else 0xBF) s 0
                 \<and> byte_in 0x80 0xBF s 1 then 3 else 0
         else if 0xF0 \<le> n \<and> n \<le> 0xF4
         then if byte_in (if n = 0xF0 then 0x90 else 0x80) (if n = 0xF4 then 0x8F else 0xBF) s 0
                 \<and> byte_in 0x80 0xBF s 1 \<and> byte_in 0x80 0xBF s 2 then 4 else 0
         else 0)"

text \<open>The runes of a string: the bytes of each and whether they are a valid encoding.\<close>

function runes :: "string \<Rightarrow> (string \<times> bool) list" where
  "runes [] = []"
| "runes (c # s) =
     (if utf8_width (c # s) = 0 then ([c], False) # runes s
      else (take (utf8_width (c # s)) (c # s), True) # runes (drop (utf8_width (c # s) - 1) s))"
  by pat_completeness auto
termination by (relation "measure length") auto

definition valid_utf8 :: "string \<Rightarrow> bool" where
  "valid_utf8 s \<longleftrightarrow> list_all snd (runes s)"

lemma concat_runes: "concat (map fst (runes s)) = s"
proof (induction s rule: runes.induct)
  case (2 c s)
  have "take w (c # s) @ drop (w - 1) s = c # s" if "w \<noteq> 0" for w using that by (cases w) auto
  with 2 show ?case by (simp del: utf8_width.simps)
qed simp

text \<open>A valid rune is one ASCII byte, or several bytes none of which is ASCII.\<close>

definition wide_rune :: "string \<Rightarrow> bool" where
  "wide_rune r \<longleftrightarrow> 2 \<le> length r \<and> list_all (\<lambda>c. 128 \<le> (of_char c :: nat)) r"

abbreviation high_byte :: "string \<Rightarrow> nat \<Rightarrow> bool" where
  "high_byte s i \<equiv> i < length s \<and> 128 \<le> (of_char (s ! i) :: nat)"

lemma byte_in_high: "byte_in lo hi s i \<Longrightarrow> 128 \<le> lo \<Longrightarrow> high_byte s i"
  by (auto simp: byte_in_def)

lemma utf8_width_wide:
  assumes "\<not> (of_char c :: nat) < 128" and "utf8_width (c # s) \<noteq> 0"
  shows "(utf8_width (c # s) = 2 \<and> high_byte s 0)
    \<or> (utf8_width (c # s) = 3 \<and> high_byte s 0 \<and> high_byte s 1)
    \<or> (utf8_width (c # s) = 4 \<and> high_byte s 0 \<and> high_byte s 1 \<and> high_byte s 2)"
proof -
  define n where "n = (of_char c :: nat)"
  define lo3 hi3 lo4 hi4 where "lo3 = (if n = 0xE0 then 0xA0 else 0x80 :: nat)"
    and "hi3 = (if n = 0xED then 0x9F else 0xBF :: nat)"
    and "lo4 = (if n = 0xF0 then 0x90 else 0x80 :: nat)"
    and "hi4 = (if n = 0xF4 then 0x8F else 0xBF :: nat)"
  have "128 \<le> lo3" "128 \<le> lo4" by (simp_all add: lo3_def lo4_def)
  moreover have "utf8_width (c # s) =
     (if 0xC2 \<le> n \<and> n \<le> 0xDF then if byte_in 0x80 0xBF s 0 then 2 else 0
      else if 0xE0 \<le> n \<and> n \<le> 0xEF
      then if byte_in lo3 hi3 s 0 \<and> byte_in 0x80 0xBF s 1 then 3 else 0
      else if 0xF0 \<le> n \<and> n \<le> 0xF4
      then if byte_in lo4 hi4 s 0 \<and> byte_in 0x80 0xBF s 1 \<and> byte_in 0x80 0xBF s 2 then 4 else 0
      else 0)"
    using assms(1) by (simp add: Let_def n_def lo3_def hi3_def lo4_def hi4_def)
  ultimately show ?thesis
    using assms(2) byte_in_high [of lo3 hi3 s 0] byte_in_high [of lo4 hi4 s 0]
      byte_in_high [of "0x80" "0xBF" s 0] byte_in_high [of "0x80" "0xBF" s 1]
      byte_in_high [of "0x80" "0xBF" s 2]
    by (auto simp del: utf8_width.simps split: if_splits)
qed

lemma utf8_width_cases:
  assumes "utf8_width (c # s) \<noteq> 0"
  shows "(utf8_width (c # s) = 1 \<and> is_ascii c) \<or> wide_rune (take (utf8_width (c # s)) (c # s))"
proof (cases "(of_char c :: nat) < 128")
  case True
  with assms show ?thesis by (simp add: is_ascii_def)
next
  case False
  have head: "take (Suc n) (c # s) = c # take n s" for n by simp
  have rest: "wide_rune (c # take n s)" if "0 < n" "\<forall>i < n. high_byte s i" for n
  proof -
    have "n \<le> length s" using that by (metis Suc_pred lessI Suc_le_eq)
    moreover have "list_all (\<lambda>c. 128 \<le> (of_char c :: nat)) (take n s)"
      using that by (simp add: list_all_length)
    ultimately show ?thesis using that(1) False by (simp add: wide_rune_def min_def)
  qed
  from utf8_width_wide [OF False assms] show ?thesis
  proof (elim disjE conjE)
    assume "utf8_width (c # s) = 2" "0 < length s" "128 \<le> (of_char (s ! 0) :: nat)"
    then show ?thesis using rest [of 1] head [of 1] by (simp add: numeral_2_eq_2 del: utf8_width.simps)
  next
    assume w: "utf8_width (c # s) = 3" and h: "0 < length s" "128 \<le> (of_char (s ! 0) :: nat)"
      "1 < length s" "128 \<le> (of_char (s ! 1) :: nat)"
    have "\<forall>i < 2. high_byte s i" using h by (simp add: less_2_cases_iff)
    then show ?thesis using rest [of 2] head [of 2] w by (simp del: utf8_width.simps)
  next
    assume w: "utf8_width (c # s) = 4" and h: "0 < length s" "128 \<le> (of_char (s ! 0) :: nat)"
      "1 < length s" "128 \<le> (of_char (s ! 1) :: nat)" "2 < length s" "128 \<le> (of_char (s ! 2) :: nat)"
    have "\<forall>i < 3. high_byte s i"
    proof (intro allI impI)
      fix i :: nat
      assume "i < 3"
      then have "i = 0 \<or> i = 1 \<or> i = 2" by auto
      with h show "high_byte s i" by auto
    qed
    then show ?thesis using rest [of 3] head [of 3] w by (simp del: utf8_width.simps)
  qed
qed

lemma valid_rune_cases:
  "(r, True) \<in> set (runes s) \<Longrightarrow> (\<exists>c. r = [c] \<and> is_ascii c) \<or> wide_rune r"
proof (induction s rule: runes.induct)
  case (2 c s)
  show ?case
  proof (cases "utf8_width (c # s) = 0")
    case True
    with 2 show ?thesis by simp
  next
    case False
    then consider "r = take (utf8_width (c # s)) (c # s)"
      | "(r, True) \<in> set (runes (drop (utf8_width (c # s) - 1) s))"
      using "2.prems" by (auto simp del: utf8_width.simps)
    then show ?thesis
    proof cases
      case 1
      from utf8_width_cases [OF False] show ?thesis
        by (auto simp: 1 simp del: utf8_width.simps)
    qed (use 2 False in blast)
  qed
qed simp

lemma runes_ascii: "list_all is_ascii s \<Longrightarrow> runes s = map (\<lambda>c. ([c], True)) s"
  by (induction s) (simp_all add: is_ascii_def)

lemma valid_utf8_ascii: "list_all is_ascii s \<Longrightarrow> valid_utf8 s"
  by (simp add: valid_utf8_def runes_ascii list_all_iff)

end
