(* ===== verification/Go_Json.thy ===== *)
theory Go_Json
  imports Go_Utf8
begin

text \<open>
  Strings in Go's \<open>encoding/json\<close>: what \<open>json.Marshal\<close> writes for a string, and that a reader gets
  back every string that is valid UTF-8. Bytes that are not are all written as the same escape.
\<close>

subsection \<open>JSON strings\<close>

definition quote :: char where "quote = CHR 0x22"
definition backslash :: char where "backslash = CHR 0x5C"

text \<open>\<open>json.Marshal\<close> of one ASCII byte of a string, with HTML escaping as is the default.\<close>

definition json_ascii :: "char \<Rightarrow> string" where
  "json_ascii c =
     (if c = quote \<or> c = backslash then [backslash, c]
      else if c = CHR 0x08 then [backslash, CHR ''b'']
      else if c = CHR 0x0C then [backslash, CHR ''f'']
      else if c = CHR 0x0A then [backslash, CHR ''n'']
      else if c = CHR 0x0D then [backslash, CHR ''r'']
      else if c = CHR 0x09 then [backslash, CHR ''t'']
      else if (of_char c :: nat) < 0x20 \<or> c \<in> set ''<>&''
      then backslash # ''u00'' @ [hex_digit (of_char c div 16), hex_digit (of_char c mod 16)]
      else [c])"

definition json_rune :: "string \<times> bool \<Rightarrow> string" where
  "json_rune rv = (case rv of (r, valid) \<Rightarrow>
     if \<not> valid then backslash # ''ufffd''
     else if r = [CHR 0xE2, CHR 0x80, CHR 0xA8] then backslash # ''u2028''
     else if r = [CHR 0xE2, CHR 0x80, CHR 0xA9] then backslash # ''u2029''
     else case r of [c] \<Rightarrow> json_ascii c | _ \<Rightarrow> r)"

definition json_string :: "string \<Rightarrow> string" where
  "json_string s = quote # concat (map json_rune (runes s)) @ [quote]"

definition json_pair :: "string \<Rightarrow> string \<Rightarrow> string" where
  "json_pair a b = CHR ''['' # json_string a @ CHR '','' # json_string b @ '']''"

subsection \<open>JSON loses nothing on valid UTF-8\<close>

text \<open>A reader of JSON strings: the bytes up to the closing quote, and what follows it.\<close>

definition hex_val :: "char \<Rightarrow> nat" where
  "hex_val c = (if is_digit c then of_char c - 48 else of_char c - 87)"

definition simple_escape :: "char \<Rightarrow> char" where
  "simple_escape e =
     (if e = CHR ''b'' then CHR 0x08 else if e = CHR ''f'' then CHR 0x0C
      else if e = CHR ''n'' then CHR 0x0A else if e = CHR ''r'' then CHR 0x0D
      else if e = CHR ''t'' then CHR 0x09 else e)"

definition read_escape :: "string \<Rightarrow> string \<times> string" where
  "read_escape s = (case s of
      [] \<Rightarrow> ([], [])
    | e # r \<Rightarrow>
        if e \<noteq> CHR ''u'' then ([simple_escape e], r)
        else if take 4 r = ''2028'' then ([CHR 0xE2, CHR 0x80, CHR 0xA8], drop 4 r)
        else if take 4 r = ''2029'' then ([CHR 0xE2, CHR 0x80, CHR 0xA9], drop 4 r)
        else ([char_of (16 * hex_val (r ! 2) + hex_val (r ! 3))], drop 4 r))"

lemma length_read_escape: "length (snd (read_escape s)) \<le> length s"
  by (auto simp: read_escape_def split: list.split)

function read_json :: "string \<Rightarrow> string \<times> string" where
  "read_json [] = ([], [])"
| "read_json (c # s) =
     (if c = quote then ([], s)
      else if c = backslash
      then (fst (read_escape s) @ fst (read_json (snd (read_escape s))),
            snd (read_json (snd (read_escape s))))
      else (c # fst (read_json s), snd (read_json s)))"
  by pat_completeness auto
termination
  by (relation "measure length") (auto simp: le_imp_less_Suc length_read_escape)

lemma read_json_quote: "read_json (quote # s) = ([], s)"
  by simp

lemma read_json_escape:
  "read_escape s = (bs, rest) \<Longrightarrow>
     read_json (backslash # s) = (bs @ fst (read_json rest), snd (read_json rest))"
  by (simp add: quote_def backslash_def)

lemma read_json_copy:
  "c \<noteq> quote \<Longrightarrow> c \<noteq> backslash \<Longrightarrow> read_json (c # s) = (c # fst (read_json s), snd (read_json s))"
  by simp

declare read_json.simps [simp del]

lemma hex_val_digit: "n < 16 \<Longrightarrow> hex_val (hex_digit n) = n"
  by (drule less_16_cases) (auto simp: hex_digit_def hex_val_def is_digit_def less_eq_char_def)

lemma read_json_u00:
  assumes "n < 256"
  shows "read_json (backslash # ''u00'' @ [hex_digit (n div 16), hex_digit (n mod 16)] @ rest)
    = (char_of n # fst (read_json rest), snd (read_json rest))"
proof -
  have d: "n div 16 < 16" "n mod 16 < 16" using assms by (simp_all add: less_mult_imp_div_less)
  have "read_escape (CHR ''u'' # CHR ''0'' # CHR ''0'' # x # y # rest)
      = ([char_of (16 * hex_val x + hex_val y)], rest)" for x y
    by (simp add: read_escape_def)
  from this [of "hex_digit (n div 16)" "hex_digit (n mod 16)"]
  have "read_escape (''u00'' @ [hex_digit (n div 16), hex_digit (n mod 16)] @ rest) = ([char_of n], rest)"
    by (simp add: hex_val_digit d)
  from read_json_escape [OF this] show ?thesis by simp
qed

lemma read_json_simple:
  "e \<noteq> CHR ''u'' \<Longrightarrow>
     read_json (backslash # e # rest) = (simple_escape e # fst (read_json rest), snd (read_json rest))"
  by (subst read_json_escape [of _ "[simple_escape e]" rest]) (simp_all add: read_escape_def)

definition short_escapes :: "(char \<times> char) list" where
  "short_escapes = [(quote, quote), (backslash, backslash), (CHR 0x08, CHR ''b''), (CHR 0x0C, CHR ''f''),
     (CHR 0x0A, CHR ''n''), (CHR 0x0D, CHR ''r''), (CHR 0x09, CHR ''t'')]"

lemma short_escapes_table:
  "list_all (\<lambda>(c, e). json_ascii c = [backslash, e] \<and> e \<noteq> CHR ''u'' \<and> simple_escape e = c) short_escapes"
  by code_simp

lemma short_escapes_ok:
  "(c, e) \<in> set short_escapes \<Longrightarrow> json_ascii c = [backslash, e] \<and> e \<noteq> CHR ''u'' \<and> simple_escape e = c"
  using short_escapes_table by (auto simp: list_all_iff)

lemma json_ascii_cases:
  "c \<in> fst ` set short_escapes
   \<or> json_ascii c = backslash # ''u00'' @ [hex_digit (of_char c div 16), hex_digit (of_char c mod 16)]
   \<or> (json_ascii c = [c] \<and> c \<noteq> quote \<and> c \<noteq> backslash)"
proof (cases "c \<in> fst ` set short_escapes")
  case False
  then show ?thesis unfolding json_ascii_def by (simp add: short_escapes_def)
qed simp

lemma read_json_ascii:
  "read_json (json_ascii c @ rest) = (c # fst (read_json rest), snd (read_json rest))"
  using json_ascii_cases [of c]
proof (elim disjE conjE)
  assume "c \<in> fst ` set short_escapes"
  then obtain e where "(c, e) \<in> set short_escapes" by auto
  with short_escapes_ok [OF this] show ?thesis by (simp add: read_json_simple)
next
  assume "json_ascii c = backslash # ''u00'' @ [hex_digit (of_char c div 16), hex_digit (of_char c mod 16)]"
  then show ?thesis using read_json_u00 [of "of_char c" rest] by simp
qed (simp add: read_json_copy)

lemma read_json_wide:
  "list_all (\<lambda>c. 128 \<le> (of_char c :: nat)) r \<Longrightarrow>
     read_json (r @ rest) = (r @ fst (read_json rest), snd (read_json rest))"
proof (induction r)
  case (Cons c r)
  then have "c \<noteq> quote" "c \<noteq> backslash" by (auto simp: quote_def backslash_def)
  with Cons show ?case by (simp add: read_json_copy)
qed simp

lemma read_json_special:
  "read_json (backslash # ''u2028'' @ rest)
     = ([CHR 0xE2, CHR 0x80, CHR 0xA8] @ fst (read_json rest), snd (read_json rest))"
  "read_json (backslash # ''u2029'' @ rest)
     = ([CHR 0xE2, CHR 0x80, CHR 0xA9] @ fst (read_json rest), snd (read_json rest))"
  by (subst read_json_escape [of _ _ rest]; simp add: read_escape_def)+

lemma read_json_rune:
  assumes "(\<exists>c. r = [c] \<and> is_ascii c) \<or> wide_rune r"
  shows "read_json (json_rune (r, True) @ rest) = (r @ fst (read_json rest), snd (read_json rest))"
proof (cases "\<exists>c. r = [c] \<and> is_ascii c")
  case True
  then obtain c where "r = [c]" "is_ascii c" by blast
  then show ?thesis using read_json_ascii [of c rest] by (simp add: json_rune_def)
next
  case False
  with assms have w: "wide_rune r" by blast
  then have "(case r of [c] \<Rightarrow> json_ascii c | _ \<Rightarrow> r) = r"
    by (auto simp: wide_rune_def split: list.split)
  then show ?thesis using w read_json_special [of rest] read_json_wide [of r rest]
    by (simp add: json_rune_def wide_rune_def)
qed

lemma read_json_string:
  assumes "valid_utf8 s"
  shows "read_json (concat (map json_rune (runes s)) @ quote # rest) = (s, rest)"
proof -
  have "\<forall>rv \<in> set rs. snd rv \<and> ((\<exists>c. fst rv = [c] \<and> is_ascii c) \<or> wide_rune (fst rv)) \<Longrightarrow>
      read_json (concat (map json_rune rs) @ quote # rest) = (concat (map fst rs), rest)" for rs
  proof (induction rs)
    case (Cons rv rs)
    obtain r where rv: "rv = (r, True)" using Cons.prems by (cases rv) auto
    with Cons show ?case
      using read_json_rune [of r "concat (map json_rune rs) @ quote # rest"] by simp
  qed (simp add: read_json_quote)
  moreover have "\<forall>rv \<in> set (runes s). snd rv \<and> ((\<exists>c. fst rv = [c] \<and> is_ascii c) \<or> wide_rune (fst rv))"
    using assms valid_rune_cases [of _ s] unfolding valid_utf8_def list_all_iff
    by (metis prod.collapse)
  ultimately show ?thesis using concat_runes [of s] by simp
qed

lemma json_pair_inj:
  assumes "valid_utf8 a" "valid_utf8 b" "valid_utf8 a'" "valid_utf8 b'"
    and "json_pair a b = json_pair a' b'"
  shows "a = a' \<and> b = b'"
proof -
  let ?j = "\<lambda>s. concat (map json_rune (runes s))"
  have eq: "?j a @ quote # CHR '','' # quote # ?j b @ quote # '']'' =
      ?j a' @ quote # CHR '','' # quote # ?j b' @ quote # '']''"
    using assms(5) by (simp add: json_pair_def json_string_def)
  have "(a, CHR '','' # quote # ?j b @ quote # '']'') = (a', CHR '','' # quote # ?j b' @ quote # '']'')"
    using arg_cong [OF eq, of read_json] read_json_string assms(1,3) by metis
  then have "a = a'" and b: "?j b @ quote # '']'' = ?j b' @ quote # '']''" by simp_all
  have "(b, '']'') = (b', '']'')"
    using arg_cong [OF b, of read_json] read_json_string assms(2,4) by metis
  with \<open>a = a'\<close> show ?thesis by simp
qed

subsection \<open>One line\<close>

text \<open>No marshalled string holds a control character, so a marshalled value is one line.\<close>

lemma json_ascii_line: "\<forall>x \<in> set (json_ascii c). 32 \<le> (of_char x :: nat)"
proof -
  have h: "32 \<le> (of_char (hex_digit n) :: nat)" if "n < 16" for n
    using less_16_cases [OF that] by (auto simp: hex_digit_def)
  show ?thesis
  proof (cases "c = quote \<or> c = backslash \<or> c = CHR 0x08 \<or> c = CHR 0x0C \<or> c = CHR 0x0A \<or> c = CHR 0x0D \<or> c = CHR 0x09")
    case True
    then show ?thesis by (elim disjE) (simp_all add: json_ascii_def quote_def backslash_def)
  next
    case False
    then show ?thesis using h [of "of_char c div 16"] h [of "of_char c mod 16"]
      by (auto simp: json_ascii_def backslash_def less_mult_imp_div_less)
  qed
qed

lemma json_rune_line:
  assumes "(r, v) \<in> set (runes s)"
  shows "\<forall>x \<in> set (json_rune (r, v)). 32 \<le> (of_char x :: nat)"
proof (cases v)
  case False
  then show ?thesis by (simp add: json_rune_def backslash_def)
next
  case True
  have sp: "\<forall>x \<in> set (backslash # ''u2028''). 32 \<le> (of_char x :: nat)"
    "\<forall>x \<in> set (backslash # ''u2029''). 32 \<le> (of_char x :: nat)" by (simp_all add: backslash_def)
  have "(\<exists>c. r = [c] \<and> is_ascii c) \<or> wide_rune r" using valid_rune_cases [of r s] assms True by simp
  then consider c where "r = [c]" | "wide_rune r" by blast
  then show ?thesis
  proof cases
    case 1
    then show ?thesis using True json_ascii_line [of c] by (simp add: json_rune_def)
  next
    case 2
    then have "(case r of [c] \<Rightarrow> json_ascii c | _ \<Rightarrow> r) = r" "\<forall>x \<in> set r. 32 \<le> (of_char x :: nat)"
      by (auto simp: wide_rune_def list_all_iff split: list.split)
    then show ?thesis using True sp by (simp add: json_rune_def)
  qed
qed

lemma json_string_line: "\<forall>x \<in> set (json_string s). 32 \<le> (of_char x :: nat)"
proof -
  have "32 \<le> (of_char x :: nat)" if "rv \<in> set (runes s)" "x \<in> set (json_rune rv)" for rv x
    using that json_rune_line [of "fst rv" "snd rv" s] by simp
  then show ?thesis by (auto simp: json_string_def quote_def)
qed

end
