(* ===== verification/State_Path.thy ===== *)
theory State_Path
  imports Go_Json Go_Path Sync_Targets
begin

text \<open>
  Where a journal is stored, \<open>StatePathFor\<close> and \<open>encodeStatePath\<close> of
  \<open>src/internal/syncer/state.go\<close>, with the piece of \<open>encoding/base64\<close> they
  use. Two targets must never share a journal, and no identity may lead outside the state
  directory.
\<close>

subsection \<open>Base64\<close>

definition url_alphabet :: string where
  "url_alphabet = ''ABCDEFGHIJKLMNOPQRSTUVWXYZabcdefghijklmnopqrstuvwxyz0123456789-_''"

definition sextet :: "nat \<Rightarrow> char" where
  "sextet n = url_alphabet ! n"

text \<open>\<open>base64.RawURLEncoding.EncodeToString\<close>\<close>

fun base64_raw_url :: "string \<Rightarrow> string" where
  "base64_raw_url [] = []"
| "base64_raw_url [a] = [sextet (of_char a div 4), sextet (of_char a mod 4 * 16)]"
| "base64_raw_url [a, b] =
     [sextet (of_char a div 4), sextet (of_char a mod 4 * 16 + of_char b div 16),
      sextet (of_char b mod 16 * 4)]"
| "base64_raw_url (a # b # c # s) =
     sextet (of_char a div 4) # sextet (of_char a mod 4 * 16 + of_char b div 16)
     # sextet (of_char b mod 16 * 4 + of_char c div 64) # sextet (of_char c mod 64)
     # base64_raw_url s"

subsection \<open>The path\<close>

definition encodeStatePath :: "string \<Rightarrow> string \<Rightarrow> string" where
  "encodeStatePath target ident = base64_raw_url (json_pair target ident)"

text \<open>\<open>filepath.Rel\<close> on the elements of two clean paths, and \<open>filepath.Base\<close>.\<close>

fun strip_common :: "string list \<Rightarrow> string list \<Rightarrow> string list \<times> string list" where
  "strip_common (x # xs) (y # ys) = (if x = y then strip_common xs ys else (x # xs, y # ys))"
| "strip_common xs ys = (xs, ys)"

definition rel_elems :: "string \<Rightarrow> string list" where
  "rel_elems p = filter (\<lambda>e. e \<noteq> []) (Split (CHR ''/'') p)"

definition filepath_Rel :: "string \<Rightarrow> string \<Rightarrow> string option" where
  "filepath_Rel basepath targpath =
     (let base = filepath_Clean basepath; targ = filepath_Clean targpath
      in if base = targ then Some ''.''
         else let base' = (if base = ''.'' then [] else base)
              in if rooted base' \<noteq> rooted targ then None
                 else case strip_common (rel_elems base') (rel_elems targ) of (bs, ts) \<Rightarrow>
                   if bs \<noteq> [] \<and> hd bs = ''..'' then None
                   else Some (Join (replicate (length bs) ''..'' @ ts) ''/''))"

definition filepath_Base :: "string \<Rightarrow> string" where
  "filepath_Base path =
     (if path = [] then ''.''
      else let p = trim_slashes path
           in if p = [] then ''/'' else rev (takeWhile (\<lambda>c. c \<noteq> CHR ''/'') (rev p)))"

text \<open>\<open>home\<close> is what \<open>os.UserHomeDir\<close> returns: it fails on an empty home.\<close>

datatype path_error = ErrNoHome | ErrTraversal

definition state_dir :: "string \<Rightarrow> string" where
  "state_dir home = filepath_Join [home, ''.skret'', ''sync-state'']"

definition state_file :: "string \<Rightarrow> string \<Rightarrow> string" where
  "state_file target ident = ''v1-'' @ encodeStatePath target ident @ ''.json''"

definition StatePathFor :: "string \<Rightarrow> string \<Rightarrow> string \<Rightarrow> path_error + string" where
  "StatePathFor home target ident =
     (if home = [] then Inl ErrNoHome
      else let baseDir = state_dir home; expectedName = state_file target ident;
               constructedPath = filepath_Join [baseDir, expectedName]
           in case filepath_Rel baseDir constructedPath of
                None \<Rightarrow> Inl ErrTraversal
              | Some rel \<Rightarrow>
                  if rel \<noteq> expectedName \<or> filepath_Base rel \<noteq> rel then Inl ErrTraversal
                  else Inr constructedPath)"

definition lock_path :: "string \<Rightarrow> string" where
  "lock_path statePath = statePath @ ''.lock''"

subsection \<open>Base64 loses nothing\<close>

lemma sextet_inj: "m < 64 \<Longrightarrow> n < 64 \<Longrightarrow> sextet m = sextet n \<longleftrightarrow> m = n"
proof -
  have "distinct url_alphabet \<and> length url_alphabet = 64" by code_simp
  then show "m < 64 \<Longrightarrow> n < 64 \<Longrightarrow> sextet m = sextet n \<longleftrightarrow> m = n"
    by (simp add: sextet_def nth_eq_iff_index_eq)
qed

lemma pair_unique:
  fixes q :: nat
  assumes "y < q" and "y' < q"
  shows "x * q + y = x' * q + y' \<longleftrightarrow> x = x' \<and> y = y'"
proof
  assume eq: "x * q + y = x' * q + y'"
  have "x = (x * q + y) div q" "x' = (x' * q + y') div q" using assms by simp_all
  with eq have "x = x'" by simp
  with eq show "x = x' \<and> y = y'" by simp
qed simp

lemma of_char_nat_inject: "(of_char a :: nat) = of_char b \<longleftrightarrow> a = b"
  by simp

lemma byte_split: "(of_char a :: nat) div q = of_char b div q \<Longrightarrow> (of_char a :: nat) mod q = of_char b mod q \<Longrightarrow> a = b"
  by (metis div_mult_mod_eq of_char_nat_inject)

lemma sextet_bounds:
  "(of_char a :: nat) div 4 < 64" "(of_char a :: nat) mod 4 * 16 + of_char b div 16 < 64"
  "(of_char b :: nat) mod 16 * 4 + of_char c div 64 < 64" "(of_char c :: nat) mod 64 < 64"
  "(of_char a :: nat) mod 4 * 16 < 64" "(of_char b :: nat) mod 16 * 4 < 64"
proof -
  have d: "(of_char x :: nat) div 4 < 64" "(of_char x :: nat) div 16 < 16"
    "(of_char x :: nat) div 64 < 4" for x by (simp_all add: less_mult_imp_div_less)
  have m: "n mod 4 < 4" "n mod 16 < 16" for n :: nat by simp_all
  show "(of_char a :: nat) div 4 < 64" "(of_char c :: nat) mod 64 < 64" by (simp_all add: d)
  show "(of_char a :: nat) mod 4 * 16 + of_char b div 16 < 64"
    using m(1) [of "of_char a"] d(2) [of b] by linarith
  show "(of_char b :: nat) mod 16 * 4 + of_char c div 64 < 64"
    using m(2) [of "of_char b"] d(3) [of c] by linarith
  show "(of_char a :: nat) mod 4 * 16 < 64" using m(1) [of "of_char a"] by linarith
  show "(of_char b :: nat) mod 16 * 4 < 64" using m(2) [of "of_char b"] by linarith
qed

lemma sextets_inject:
  "sextet (of_char a div 4) = sextet (of_char a' div 4) \<longleftrightarrow> (of_char a :: nat) div 4 = of_char a' div 4"
  "sextet (of_char a mod 4 * 16) = sextet (of_char a' mod 4 * 16)
     \<longleftrightarrow> (of_char a :: nat) mod 4 = of_char a' mod 4"
  "sextet (of_char b mod 16 * 4) = sextet (of_char b' mod 16 * 4)
     \<longleftrightarrow> (of_char b :: nat) mod 16 = of_char b' mod 16"
  "sextet (of_char a mod 4 * 16 + of_char b div 16) = sextet (of_char a' mod 4 * 16 + of_char b' div 16)
     \<longleftrightarrow> (of_char a :: nat) mod 4 = of_char a' mod 4 \<and> (of_char b :: nat) div 16 = of_char b' div 16"
  "sextet (of_char b mod 16 * 4 + of_char c div 64) = sextet (of_char b' mod 16 * 4 + of_char c' div 64)
     \<longleftrightarrow> (of_char b :: nat) mod 16 = of_char b' mod 16 \<and> (of_char c :: nat) div 64 = of_char c' div 64"
  "sextet (of_char c mod 64) = sextet (of_char c' mod 64) \<longleftrightarrow> (of_char c :: nat) mod 64 = of_char c' mod 64"
  by (simp_all add: sextet_inj sextet_bounds pair_unique less_mult_imp_div_less)

lemma base64_inj: "base64_raw_url x = base64_raw_url y \<Longrightarrow> x = y"
proof (induction x arbitrary: y rule: base64_raw_url.induct)
  case 1
  then show ?case by (cases y rule: base64_raw_url.cases) simp_all
next
  case (2 a)
  then show ?case
    by (cases y rule: base64_raw_url.cases) (auto simp: sextets_inject dest: byte_split)
next
  case (3 a b)
  then show ?case
    by (cases y rule: base64_raw_url.cases) (auto simp: sextets_inject dest: byte_split)
next
  case (4 a b c s)
  then show ?case
    by (cases y rule: base64_raw_url.cases) (auto simp: sextets_inject dest: byte_split)
qed

lemma sextet_in_alphabet: "n < 64 \<Longrightarrow> sextet n \<in> set url_alphabet"
proof -
  have "length url_alphabet = 64" by code_simp
  then show "n < 64 \<Longrightarrow> sextet n \<in> set url_alphabet" by (simp add: sextet_def)
qed

lemma base64_alphabet: "set (base64_raw_url s) \<subseteq> set url_alphabet"
  by (induction s rule: base64_raw_url.induct) (simp_all add: sextet_in_alphabet sextet_bounds)

subsection \<open>Paths stay in the state directory\<close>

lemma state_file_plain: "plain_elem (state_file target ident)"
proof -
  have "CHR ''/'' \<notin> set url_alphabet" by code_simp
  then have "CHR ''/'' \<notin> set (encodeStatePath target ident)"
    using base64_alphabet by (auto simp: encodeStatePath_def)
  then show ?thesis by (simp add: plain_elem_def state_file_def)
qed

abbreviation dir_elems :: "string \<Rightarrow> string list" where
  "dir_elems home \<equiv> clean_elems home @ [''.skret'', ''sync-state'']"

lemma dir_elems_clean: "clean_list (rooted home) (dir_elems home)"
proof -
  have "plain_elem ''.skret''" "plain_elem ''sync-state''" by (simp_all add: plain_elem_def)
  then show ?thesis
    using clean_list_snoc [OF clean_list_snoc [OF clean_elems_clean]] by fastforce
qed

lemma state_dir_elems:
  "home \<noteq> [] \<Longrightarrow> state_dir home = elems_path (rooted home) (dir_elems home)"
  unfolding state_dir_def by (rule filepath_Join_plain) (simp_all add: plain_elem_def)

lemma state_dir_facts:
  assumes "home \<noteq> []"
  shows "clean_elems (state_dir home) = dir_elems home"
    and "rooted (state_dir home) = rooted home"
    and "rel_elems (state_dir home) = dir_elems home"
    and "filepath_Clean (state_dir home) = state_dir home"
    and "state_dir home \<noteq> []" and "state_dir home \<noteq> ''.''"
proof -
  have D: "dir_elems home \<noteq> []" by simp
  show el: "clean_elems (state_dir home) = dir_elems home"
    and ro: "rooted (state_dir home) = rooted home"
    by (simp_all add: state_dir_elems assms clean_elems_path [OF dir_elems_clean]
        rooted_elems_path [OF dir_elems_clean])
  have "\<forall>e \<in> set (dir_elems home). e \<noteq> []" using clean_list_elem [OF dir_elems_clean] by blast
  then show "rel_elems (state_dir home) = dir_elems home"
    by (simp add: rel_elems_def state_dir_elems assms Split_elems_path [OF dir_elems_clean D] filter_id_conv)
  show "filepath_Clean (state_dir home) = state_dir home"
    using filepath_Clean_elems [of "state_dir home"] by (simp add: el ro) (simp add: state_dir_elems assms)
  have "clean_elems [] = []" "clean_elems ''.'' = []" by code_simp+
  with el show "state_dir home \<noteq> []" "state_dir home \<noteq> ''.''" by auto
qed

lemma constructed_path:
  assumes "home \<noteq> []" and "plain_elem name"
  shows "filepath_Join [state_dir home, name] = elems_path (rooted home) (dir_elems home @ [name])"
    and "filepath_Join [state_dir home, name] = state_dir home @ ''/'' @ name"
proof -
  show "filepath_Join [state_dir home, name] = elems_path (rooted home) (dir_elems home @ [name])"
    using filepath_Join_plain [of "state_dir home" "[name]"] assms by (simp add: state_dir_facts)
  also have "\<dots> = state_dir home @ ''/'' @ name"
    using Join_append [of "dir_elems home" "[name]" "''/''"]
    by (simp add: state_dir_elems assms(1) elems_path_def)
  finally show "filepath_Join [state_dir home, name] = state_dir home @ ''/'' @ name" .
qed

lemma strip_common_append: "strip_common xs (xs @ ys) = ([], ys)"
  by (induction xs) (auto intro: strip_common.simps(2))

lemma rel_of_constructed:
  assumes "home \<noteq> []" and "plain_elem name"
  shows "filepath_Rel (state_dir home) (filepath_Join [state_dir home, name]) = Some name"
proof -
  let ?es = "dir_elems home @ [name]"
  have cl: "clean_list (rooted home) ?es" using clean_list_snoc [OF dir_elems_clean assms(2)] .
  have ne: "?es \<noteq> []" by simp
  let ?p = "elems_path (rooted home) ?es"
  have p: "clean_elems ?p = ?es" "rooted ?p = rooted home"
    by (rule clean_elems_path [OF cl ne], rule rooted_elems_path [OF cl ne])
  have clean: "filepath_Clean ?p = ?p" using filepath_Clean_elems [of ?p] unfolding p by simp
  have "\<forall>e \<in> set ?es. e \<noteq> []" using clean_list_elem [OF cl] by blast
  then have rel: "rel_elems ?p = ?es"
    unfolding rel_elems_def Split_elems_path [OF cl ne] by (simp add: filter_id_conv)
  have "state_dir home \<noteq> ?p" using p(1) state_dir_facts(1) [OF assms(1)] by auto
  then show ?thesis
    unfolding constructed_path(1) [OF assms] filepath_Rel_def
    using strip_common_append [of "dir_elems home" "[name]"]
    by (simp only: clean state_dir_facts [OF assms(1)] p rel Let_def if_False)
      (simp add: state_dir_facts [OF assms(1)])
qed

lemma filepath_Base_plain: "plain_elem name \<Longrightarrow> filepath_Base name = name"
proof -
  assume n: "plain_elem name"
  then have "CHR ''/'' \<notin> set (rev name)" by (simp add: plain_elem_def)
  then have "dropWhile (\<lambda>c. c = CHR ''/'') (rev name) = rev name"
    by (cases "rev name") auto
  moreover have "rev (takeWhile (\<lambda>c. c \<noteq> CHR ''/'') (rev name)) = name"
    using SecretName_plain [of name] n unfolding SecretName_def plain_elem_def by blast
  ultimately show ?thesis
    using n unfolding filepath_Base_def trim_slashes_def plain_elem_def Let_def by (simp only:) simp
qed

lemma StatePathFor_ok:
  assumes "home \<noteq> []"
  shows "StatePathFor home target ident = Inr (state_dir home @ ''/'' @ state_file target ident)"
proof -
  note n = state_file_plain [of target ident]
  show ?thesis
    using assms rel_of_constructed [OF assms n] filepath_Base_plain [OF n]
      constructed_path(2) [OF assms n]
    by (simp add: StatePathFor_def Let_def)
qed

lemma state_file_inj:
  assumes "valid_utf8 t" "valid_utf8 i" "valid_utf8 t'" "valid_utf8 i'"
    and "state_file t i = state_file t' i'"
  shows "t = t' \<and> i = i'"
  using assms(5) json_pair_inj [OF assms(1-4)] base64_inj
  by (simp add: state_file_def encodeStatePath_def)

lemma state_path_no_lock: "lock_path (d @ ''/'' @ state_file t i) \<noteq> d @ ''/'' @ state_file t' i'"
proof
  assume "lock_path (d @ ''/'' @ state_file t i) = d @ ''/'' @ state_file t' i'"
  then have "last (state_file t i @ ''.lock'') = last (state_file t' i')"
    by (simp add: lock_path_def)
  then show False by (simp add: state_file_def)
qed

subsection \<open>Properties\<close>

lemma syncer_Name_valid: "valid_utf8 (syncer_Name s)"
proof -
  have "list_all is_ascii (syncer_Name s)" by (cases s) (simp_all add: is_ascii_def)
  then show ?thesis by (rule valid_utf8_ascii)
qed

text \<open>
  With a home directory, every target identity, whatever bytes it holds, names a file
  directly inside the state directory: the traversal check never refuses, and the file name
  has no separator.
\<close>

lemma state_path_confined:
  assumes "home \<noteq> []"
  shows "StatePathFor home target ident = Inr (state_dir home @ ''/'' @ state_file target ident)
    \<and> CHR ''/'' \<notin> set (state_file target ident)"
  using StatePathFor_ok [OF assms] state_file_plain [of target ident] by (simp add: plain_elem_def)

lemma state_path_confined_example:
  "StatePathFor ''/home/u'' ''dotenv'' ''../../etc/passwd''
     = Inr (state_dir ''/home/u'' @ ''/'' @ state_file ''dotenv'' ''../../etc/passwd'')"
  using state_path_confined [of "''/home/u''" "''dotenv''" "''../../etc/passwd''"] by simp

text \<open>
  The targets of one accepted run never share a journal. If the targets were built and
  their identities validated, two of them have different state files, and the lock file of
  one is neither the lock nor the state file of another. Hypotheses: identities are valid
  UTF-8, no manifest file is called \<open>k8s:stdout\<close>, and \<open>norm.NFC\<close> leaves ASCII alone.
\<close>

lemma targets_never_share_a_journal:
  assumes "nfc_keeps_ascii env" and "Build targets = Inr syncers"
    and "ValidateTargetIdentities env targets = None"
    and "\<forall>tc \<in> set targets. tc_field tc ''file'' \<noteq> ''k8s:stdout''"
    and "\<forall>k < length targets. valid_utf8 (targetStateID env (syncers ! k) (targets ! k))"
    and "home \<noteq> []" and "i < j" and "j < length targets"
    and "StatePathFor home (syncer_Name (syncers ! i)) (targetStateID env (syncers ! i) (targets ! i)) = Inr p"
    and "StatePathFor home (syncer_Name (syncers ! j)) (targetStateID env (syncers ! j) (targets ! j)) = Inr q"
  shows "p \<noteq> q \<and> lock_path p \<noteq> lock_path q \<and> lock_path p \<noteq> q \<and> lock_path q \<noteq> p"
proof -
  have "i < length targets" using assms(7,8) by simp
  then have "valid_utf8 (targetStateID env (syncers ! i) (targets ! i))"
    "valid_utf8 (targetStateID env (syncers ! j) (targets ! j))" using assms(5,8) by blast+
  from state_file_inj [OF syncer_Name_valid this(1) syncer_Name_valid this(2)]
    journal_ids_distinct [OF assms(1-4,7,8)]
  have "state_file (syncer_Name (syncers ! i)) (targetStateID env (syncers ! i) (targets ! i)) \<noteq>
      state_file (syncer_Name (syncers ! j)) (targetStateID env (syncers ! j) (targets ! j))" by blast
  moreover have "p = state_dir home @ ''/'' @
      state_file (syncer_Name (syncers ! i)) (targetStateID env (syncers ! i) (targets ! i))"
    "q = state_dir home @ ''/'' @
      state_file (syncer_Name (syncers ! j)) (targetStateID env (syncers ! j) (targets ! j))"
    using assms(9,10) by (simp_all add: StatePathFor_ok [OF assms(6)])
  ultimately show ?thesis using state_path_no_lock by (simp add: lock_path_def)
qed

definition example_targets :: "TargetConfig list" where
  "example_targets = [file_target ''dotenv'' ''.env'', file_target ''dotenv'' ''b/.env'']"

lemma example_targets_accepted:
  "Build example_targets = Inr [DotenvTarget ''.env'', DotenvTarget ''b/.env'']"
  "ValidateTargetIdentities example_env example_targets = None"
  "nfc_keeps_ascii example_env"
  "\<forall>tc \<in> set example_targets. tc_field tc ''file'' \<noteq> ''k8s:stdout''"
proof -
  show "Build example_targets = Inr [DotenvTarget ''.env'', DotenvTarget ''b/.env'']"
    by (simp add: Build_def example_targets_def registry_def newDotenvFromConfig_def tc_field_def
        file_target_def or_default_def)
  show "ValidateTargetIdentities example_env example_targets = None" by code_simp
  show "nfc_keeps_ascii example_env" by (simp add: nfc_keeps_ascii_def example_env_def)
  show "\<forall>tc \<in> set example_targets. tc_field tc ''file'' \<noteq> ''k8s:stdout''"
    by (simp add: example_targets_def tc_field_def file_target_def)
qed

lemma example_targets_ids:
  "targetStateID example_env (DotenvTarget ''.env'') (file_target ''dotenv'' ''.env'') = ''.env''"
  "targetStateID example_env (DotenvTarget ''b/.env'') (file_target ''dotenv'' ''b/.env'') = ''b/.env''"
  by (simp_all add: targetStateID_def tc_field_def file_target_def or_default_def)

lemma targets_never_share_a_journal_example:
  "lock_path (state_dir ''/h'' @ ''/'' @ state_file ''dotenv'' ''.env'')
     \<noteq> state_dir ''/h'' @ ''/'' @ state_file ''dotenv'' ''b/.env''"
proof -
  let ?ss = "[DotenvTarget ''.env'', DotenvTarget ''b/.env'']"
  have "valid_utf8 ''.env''" "valid_utf8 ''b/.env''" by code_simp+
  then have v: "\<forall>k < length example_targets. valid_utf8 (targetStateID example_env (?ss ! k) (example_targets ! k))"
    using example_targets_ids by (simp add: example_targets_def less_Suc_eq nth_Cons')
  have sp: "StatePathFor ''/h'' (syncer_Name (?ss ! 0)) (targetStateID example_env (?ss ! 0) (example_targets ! 0))
        = Inr (state_dir ''/h'' @ ''/'' @ state_file ''dotenv'' ''.env'')"
      "StatePathFor ''/h'' (syncer_Name (?ss ! 1)) (targetStateID example_env (?ss ! 1) (example_targets ! 1))
        = Inr (state_dir ''/h'' @ ''/'' @ state_file ''dotenv'' ''b/.env'')"
    using StatePathFor_ok [of "''/h''"] example_targets_ids by (simp_all add: example_targets_def)
  have "1 < length example_targets" "(0 :: nat) < 1" "''/h'' \<noteq> []" by (simp_all add: example_targets_def)
  from targets_never_share_a_journal [OF example_targets_accepted(3,1,2,4) v this(3,2,1) sp]
  show ?thesis by blast
qed

text \<open>
  Outside valid UTF-8 the encoding of a journal's identity is not injective: JSON replaces
  every invalid byte by the same escape, so two file targets whose paths differ in such a byte
  share one journal.
\<close>

lemma state_path_collides_on_invalid_utf8:
  "StatePathFor home ''dotenv'' [CHR 0xFE] = StatePathFor home ''dotenv'' [CHR 0xFF]"
proof -
  have "json_pair ''dotenv'' [CHR 0xFE] = json_pair ''dotenv'' [CHR 0xFF]" by code_simp
  then show ?thesis by (simp add: StatePathFor_def state_file_def encodeStatePath_def)
qed

end
