(* ===== verification/Sync_Command.thy ===== *)
theory Sync_Command
  imports Sync_Journal_Theorems Http_Targets Exec_Env
begin

text \<open>
  \<open>skret sync\<close> for one target, the body of the loop in \<open>run\<close> of \<open>src/internal/cli/sync.go\<close> with
  \<open>syncPerKeyOperation\<close> and \<open>syncStateNeedsRecovery\<close>: which secrets are written, when the journal
  is saved, and what is left on disk when a provider call, a save or the process fails.

  \<open>sync_world\<close> is what outlives the process: the target's journal file, and the trace of what
  was done to the outside, in order. A request is traced with the journal that was on disk when
  it was sent, which is what a crash at that moment would leave behind.

  \<open>sync_env\<close> is everything the code asks for: the hash key, the order in which each \<open>range\<close> over the
  journal's outcomes runs, the clock, the result of each save, the answers of the providers, the
  lock, a fresh operation id. What depends on the moment takes the length of the trace.
  Messages, the JSON report and the notification's delivery are outside the model.
\<close>

subsection \<open>Data\<close>

record sync_opts =
  so_skipUnchanged :: bool
  so_noOverwrite :: bool
  so_rotate :: bool
  so_dryRun :: bool
  so_suppressNotify :: bool

datatype sync_event =
    EvRequest "string list" "SyncState option"
  | EvSave "SyncState option"
  | EvNotify "string list"

record sync_world =
  sw_disk :: "SyncState option"
  sw_trace :: "sync_event list"

record sync_env =
  en_hash :: hash_ctx
  en_ord :: "nat \<Rightarrow> SyncState \<Rightarrow> string list"
  en_now :: "nat \<Rightarrow> gotime"
  en_io :: "nat \<Rightarrow> save_io"
  en_http :: "nat \<Rightarrow> http_world"
  en_order :: "nat \<Rightarrow> Secret list \<Rightarrow> Secret list"
  en_file :: "nat \<Rightarrow> Secret list \<Rightarrow> call_error option"
  en_lockOk :: bool
  en_operationID :: "string option"
  en_existing :: "string list option"
  en_upper :: "string \<Rightarrow> string"
  en_notifyOk :: bool
  en_source :: string

datatype sync_failure =
    FailMapping mapping_error
  | FailLock
  | FailLoad SyncError
  | FailFilter target_error
  | FailReconcile
  | FailRecover SyncError
  | FailOperationID
  | FailBegin SyncError
  | FailSave SyncError
  | FailJournal SyncError
  | FailProvider call_error
  | FailRecord SyncError
  | FailNotify

subsection \<open>Calling the target\<close>

fun target_SyncKey :: "http_world \<Rightarrow> Syncer \<Rightarrow> Secret option \<Rightarrow> mutation list \<times> call_error option" where
  "target_SyncKey w (GitHubTarget _) sec = github_SyncKey w sec"
| "target_SyncKey w (GitLabTarget _) sec = gitlab_SyncKey w sec"
| "target_SyncKey w (CloudflareWorkerTarget _) sec = worker_SyncKey w sec"
| "target_SyncKey w _ sec = ([], Some CallUnsupported)"

text \<open>\<open>en_file\<close> is the outcome of the writers of the file targets.\<close>

fun target_Sync :: "sync_env \<Rightarrow> nat \<Rightarrow> Syncer \<Rightarrow> Secret list \<Rightarrow> call_error option" where
  "target_Sync en n (GitHubTarget _) secs = snd (github_Sync (en_order en n) (en_http en n) (map Some secs))"
| "target_Sync en n (GitLabTarget _) secs = snd (gitlab_Sync (en_http en n) (map Some secs))"
| "target_Sync en n (CloudflareTarget c) secs =
     snd (cloudflare_Sync (en_order en n) (en_http en n) c (map Some secs))"
| "target_Sync en n (CloudflareWorkerTarget c) secs =
     snd (cloudflare_Sync (en_order en n) (en_http en n) c (map Some secs))"
| "target_Sync en n _ secs = en_file en n secs"

subsection \<open>Steps on the world\<close>

abbreviation moment :: "sync_world \<Rightarrow> nat" where
  "moment w \<equiv> length (sw_trace w)"

definition emit :: "sync_event \<Rightarrow> sync_world \<Rightarrow> sync_world" where
  "emit ev w = w\<lparr>sw_trace := sw_trace w @ [ev]\<rparr>"

definition request :: "string list \<Rightarrow> sync_world \<Rightarrow> sync_world" where
  "request keys w = emit (EvRequest keys (sw_disk w)) w"

definition saveSyncState ::
    "sync_env \<Rightarrow> SyncState \<Rightarrow> sync_world \<Rightarrow> (SyncState \<times> sync_world) \<times> SyncError option" where
  "saveSyncState en s w =
     (case SaveSyncState (en_hash en) (en_ord en (moment w) s) (en_now en (moment w)) (en_io en (moment w))
             s (sw_disk w) of
        ((s', disk), e) \<Rightarrow> ((s', emit (EvSave disk) (w\<lparr>sw_disk := disk\<rparr>)), e))"

definition syncStateNeedsRecovery :: "string list \<Rightarrow> SyncState \<Rightarrow> bool" where
  "syncStateNeedsRecovery ord s =
     (if ss_OperationID s = [] then False
      else if ss_Phase s \<noteq> OperationPhasePending
              \<and> (ss_Phase s \<noteq> OperationPhaseUnset \<or> ss_CompletedAt s \<noteq> None) then False
      else list_all (\<lambda>k. outcome_test (\<lambda>oc. ko_Status oc = OutcomeSucceeded) s k)
             (owned_keys (ss_OperationID s) s ord)
           \<and> owned_keys (ss_OperationID s) s ord \<noteq> [])"

fun syncPerKeyLoop ::
    "sync_env \<Rightarrow> Syncer \<Rightarrow> string \<Rightarrow> Secret list \<Rightarrow> SyncState \<Rightarrow> sync_world
      \<Rightarrow> (SyncState \<times> sync_world) \<times> sync_failure option" where
  "syncPerKeyLoop en tgt op [] s w = ((s, w), None)"
| "syncPerKeyLoop en tgt op (sec # secs) s w =
     (let w1 = request [sec_Key sec] w
      in case snd (target_SyncKey (en_http en (moment w)) tgt (Some sec)) of
           Some err \<Rightarrow>
             (case RecordKeyNeedsReconciliation s op (Some sec) (en_now en (moment w1)) of
                (s1, Some e) \<Rightarrow> ((s1, w1), Some (FailJournal e))
              | (s1, None) \<Rightarrow> (case saveSyncState en s1 w1 of
                    (sw, Some e) \<Rightarrow> (sw, Some (FailJournal e))
                  | (sw, None) \<Rightarrow> (sw, Some (FailProvider err))))
         | None \<Rightarrow>
             (case RecordKeySuccess (en_hash en) s op (Some sec) (en_now en (moment w1)) of
                (s1, Some e) \<Rightarrow> ((s1, w1), Some (FailJournal e))
              | (s1, None) \<Rightarrow> (case saveSyncState en s1 w1 of
                    (sw, Some e) \<Rightarrow> (sw, Some (FailJournal e))
                  | ((s2, w2), None) \<Rightarrow> syncPerKeyLoop en tgt op secs s2 w2)))"

text \<open>\<open>FinalizeOperation\<close> followed by the save, the end of \<open>syncPerKeyOperation\<close>.\<close>

definition finalize_and_save ::
    "sync_env \<Rightarrow> string \<Rightarrow> SyncState \<Rightarrow> sync_world \<Rightarrow> (SyncState \<times> sync_world) \<times> SyncError option" where
  "finalize_and_save en op s w =
     (case FinalizeOperation (en_ord en (moment w) s) s op (en_now en (moment w)) of
        (s1, Some e) \<Rightarrow> ((s1, w), Some e)
      | (s1, None) \<Rightarrow> saveSyncState en s1 w)"

definition syncPerKeyOperation ::
    "sync_env \<Rightarrow> Syncer \<Rightarrow> string \<Rightarrow> Secret list \<Rightarrow> SyncState \<Rightarrow> sync_world
      \<Rightarrow> (SyncState \<times> sync_world) \<times> sync_failure option" where
  "syncPerKeyOperation en tgt op secs s w =
     (case syncPerKeyLoop en tgt op secs s w of
        (sw, Some f) \<Rightarrow> (sw, Some f)
      | ((s1, w1), None) \<Rightarrow> (case finalize_and_save en op s1 w1 of
            (sw, e) \<Rightarrow> (sw, map_option FailJournal e)))"

subsection \<open>One target\<close>

definition filterExcluded :: "(string \<Rightarrow> string) \<Rightarrow> string \<Rightarrow> string list \<Rightarrow> Secret list \<Rightarrow> Secret list" where
  "filterExcluded uni pathPrefix exclude secrets =
     (if exclude = [] then secrets
      else filter (\<lambda>s. \<not> excludeSet uni exclude (KeyToEnvName (sec_Key s) pathPrefix)) secrets)"

definition no_overwrite :: "sync_opts \<Rightarrow> TargetConfig \<Rightarrow> bool" where
  "no_overwrite opt tc \<longleftrightarrow> \<not> so_rotate opt \<and> (tc_NoOverwrite tc \<or> so_noOverwrite opt)"

definition journalByDefault :: "Syncer \<Rightarrow> bool" where
  "journalByDefault s \<longleftrightarrow> syncer_Name s \<in> {''github'', ''cloudflare'', ''gitlab''}"

definition uses_journal :: "sync_opts \<Rightarrow> Syncer \<Rightarrow> TargetConfig \<Rightarrow> bool" where
  "uses_journal opt s tc \<longleftrightarrow>
     journalByDefault s \<or> so_rotate opt \<or> (so_skipUnchanged opt \<and> \<not> no_overwrite opt tc)"

text \<open>The first part: guards, lock, journal and filters. Nothing has been written yet.\<close>

definition sync_prepare ::
    "sync_env \<Rightarrow> sync_opts \<Rightarrow> Syncer \<Rightarrow> TargetConfig \<Rightarrow> string \<Rightarrow> Secret list \<Rightarrow> sync_world
      \<Rightarrow> sync_failure + SyncState option \<times> Secret list" where
  "sync_prepare en opt s tc stateID secrets w =
     (case ValidateDestinationMapping (syncer_Name s) (map Some secrets) of
        Some e \<Rightarrow> Inl (FailMapping e)
      | None \<Rightarrow>
          let loaded =
            (if \<not> uses_journal opt s tc then Inr (None, secrets)
             else if \<not> so_dryRun opt \<and> \<not> en_lockOk en then Inl FailLock
             else case LoadSyncState (en_hash en)
                    (case sw_disk w of None \<Rightarrow> []
                     | Some j \<Rightarrow> en_ord en (moment w) (reset_hash_domain (en_hash en) j))
                    (syncer_Name s) stateID (sw_disk w) of
                 Inl e \<Rightarrow> Inl (FailLoad e)
               | Inr j \<Rightarrow> Inr (Some j,
                   if so_skipUnchanged opt \<and> \<not> so_rotate opt \<and> \<not> no_overwrite opt tc
                   then FilterUnchanged (en_hash en) j secrets else secrets))
          in case loaded of
               Inl f \<Rightarrow> Inl f
             | Inr (st, toSync) \<Rightarrow>
                 if no_overwrite opt tc
                 then (case FilterAbsent (en_upper en) s (en_existing en) toSync of
                         Inl e \<Rightarrow> Inl (FailFilter e) | Inr (kept, _) \<Rightarrow> Inr (st, kept))
                 else Inr (st, toSync))"

text \<open>
  Recovery: an operation whose keys were all acknowledged before the process died is finalized
  without talking to the provider. The flag is \<open>recoveredState\<close>.
\<close>

definition sync_recover ::
    "sync_env \<Rightarrow> Syncer \<Rightarrow> SyncState option \<Rightarrow> Secret list \<Rightarrow> sync_world
      \<Rightarrow> sync_world \<times> (sync_failure + SyncState option \<times> Secret list \<times> bool)" where
  "sync_recover en s st toSync w = (case st of
      None \<Rightarrow> (w, Inr (None, toSync, False))
    | Some j \<Rightarrow>
        if journalByDefault s \<and> RequiresReconciliation (en_ord en (moment w) j) j
        then (w, Inl FailReconcile)
        else if syncStateNeedsRecovery (en_ord en (moment w) j) j
        then (case FinalizeOperation (en_ord en (moment w) j) j (ss_OperationID j) (en_now en (moment w)) of
                (_, Some e) \<Rightarrow> (w, Inl (FailRecover e))
              | (j1, None) \<Rightarrow> (case saveSyncState en j1 w of
                    ((_, w1), Some e) \<Rightarrow> (w1, Inl (FailSave e))
                  | ((j2, w1), None) \<Rightarrow>
                      (w1, Inr (Some j2, if journalByDefault s
                         then FilterUnchanged (en_hash en) j2 toSync else toSync, True))))
        else (w, Inr (st, toSync, False)))"

text \<open>Opening an operation: every key pending, its origin described, all of it on disk.\<close>

definition describe ::
    "sync_env \<Rightarrow> Syncer \<Rightarrow> TargetConfig \<Rightarrow> Secret list \<Rightarrow> SyncState \<Rightarrow> SyncState" where
  "describe en s tc toSync j =
     j\<lparr>ss_OperationMethod := mutationMethod s tc, ss_SourceIdentity := en_source en,
       ss_SourceDigest := SourceDigest (en_hash en) (map Some toSync)\<rparr>"

definition sync_open ::
    "sync_env \<Rightarrow> sync_opts \<Rightarrow> Syncer \<Rightarrow> TargetConfig \<Rightarrow> SyncState \<Rightarrow> Secret list \<Rightarrow> sync_world
      \<Rightarrow> sync_world \<times> (sync_failure + SyncState \<times> string)" where
  "sync_open en opt s tc j toSync w =
     (if journalByDefault s \<and> RequiresReconciliation (en_ord en (moment w) j) j
      then (w, Inl FailReconcile)
      else case en_operationID en of
          None \<Rightarrow> (w, Inl FailOperationID)
        | Some op \<Rightarrow>
            (case (if so_rotate opt
                   then BeginOperationWithIntent (en_ord en (moment w) j) j op OperationIntentRotate
                          (map Some toSync) (en_now en (moment w))
                   else BeginOperation (en_ord en (moment w) j) j op (map Some toSync)
                          (en_now en (moment w))) of
               (_, Some e) \<Rightarrow> (w, Inl (FailBegin e))
             | (j1, None) \<Rightarrow> (case saveSyncState en (describe en s tc toSync j1) w of
                   ((_, w1), Some e) \<Rightarrow> (w1, Inl (FailSave e))
                 | ((j2, w1), None) \<Rightarrow> (w1, Inr (j2, op)))))"

text \<open>
  A whole-batch write. A failure is journaled for every key of the batch; a success is
  recorded for every key, and the journal saved, also when there was nothing to record.
\<close>

definition sync_batch ::
    "sync_env \<Rightarrow> Syncer \<Rightarrow> SyncState option \<Rightarrow> string \<Rightarrow> bool \<Rightarrow> Secret list \<Rightarrow> sync_world
      \<Rightarrow> sync_world \<times> sync_failure option" where
  "sync_batch en s st op recovered toSync w =
     (let w1 = request (map sec_Key toSync) w
      in case target_Sync en (moment w) s toSync of
           Some err \<Rightarrow>
             (case st of
                Some j \<Rightarrow>
                  if op = [] then (w1, Some (FailProvider err))
                  else (case RecordNeedsReconciliation j op (map Some toSync) (en_now en (moment w1)) of
                      (_, Some e) \<Rightarrow> (w1, Some (FailJournal e))
                    | (j1, None) \<Rightarrow> (case saveSyncState en j1 w1 of
                          ((_, w2), Some e) \<Rightarrow> (w2, Some (FailJournal e))
                        | ((_, w2), None) \<Rightarrow> (w2, Some (FailProvider err))))
              | None \<Rightarrow> (w1, Some (FailProvider err)))
         | None \<Rightarrow>
             (case st of
                None \<Rightarrow> (w1, None)
              | Some j \<Rightarrow>
                  (case (if op \<noteq> [] then RecordSuccess (en_hash en) (en_ord en (moment w1) j) j op
                              (map Some toSync) (en_now en (moment w1)) else (j, None)) of
                     (_, Some e) \<Rightarrow> (w1, Some (FailRecord e))
                   | (j1, None) \<Rightarrow>
                       if recovered then (w1, None)
                       else (case saveSyncState en j1 w1 of
                           ((_, w2), e) \<Rightarrow> (w2, map_option FailSave e)))))"

definition sync_deliver ::
    "sync_env \<Rightarrow> Syncer \<Rightarrow> SyncState option \<Rightarrow> string \<Rightarrow> bool \<Rightarrow> Secret list \<Rightarrow> sync_world
      \<Rightarrow> sync_world \<times> sync_failure option" where
  "sync_deliver en s st op recovered toSync w =
     (case st of
        Some j \<Rightarrow>
          if op \<noteq> [] \<and> is_PerKeySyncer s
          then (case syncPerKeyOperation en s op toSync j w of ((_, w1), f) \<Rightarrow> (w1, f))
          else sync_batch en s st op recovered toSync w
      | None \<Rightarrow> sync_batch en s None op recovered toSync w)"

definition sync_notify ::
    "sync_env \<Rightarrow> sync_opts \<Rightarrow> Secret list \<Rightarrow> sync_world \<Rightarrow> sync_world \<times> sync_failure option" where
  "sync_notify en opt toSync w =
     (if so_suppressNotify opt then (w, None)
      else (emit (EvNotify (map sec_Key toSync)) w, if en_notifyOk en then None else Some FailNotify))"

definition sync_target ::
    "sync_env \<Rightarrow> sync_opts \<Rightarrow> Syncer \<Rightarrow> TargetConfig \<Rightarrow> string \<Rightarrow> Secret list \<Rightarrow> sync_world
      \<Rightarrow> sync_world \<times> sync_failure option" where
  "sync_target en opt s tc stateID secrets w =
     (case sync_prepare en opt s tc stateID secrets w of
        Inl f \<Rightarrow> (w, Some f)
      | Inr (st, toSync) \<Rightarrow>
          if so_dryRun opt then (w, None)
          else (case sync_recover en s st toSync w of
              (w1, Inl f) \<Rightarrow> (w1, Some f)
            | (w1, Inr (st1, toSync1, recovered)) \<Rightarrow>
                (case st1 of
                   Some j \<Rightarrow>
                     if toSync1 = []
                     then and_then (sync_deliver en s st1 [] recovered toSync1 w1)
                            (sync_notify en opt toSync1)
                     else (case sync_open en opt s tc j toSync1 w1 of
                         (w2, Inl f) \<Rightarrow> (w2, Some f)
                       | (w2, Inr (j2, op)) \<Rightarrow>
                           and_then (sync_deliver en s (Some j2) op False toSync1 w2)
                             (sync_notify en opt toSync1))
                 | None \<Rightarrow>
                     and_then (sync_deliver en s None [] recovered toSync1 w1)
                       (sync_notify en opt toSync1))))"

end
