(* ===== verification/Sync_Command_Steps.thy ===== *)
theory Sync_Command_Steps
  imports Sync_Command
begin

text \<open>
  The stages of \<open>skret sync\<close> one by one: what a save, the opening of an operation, the per-key loop,
  a batch write and the recovery leave in the journal, and which requests they send.
\<close>

subsection \<open>Saving\<close>

lemma stamp_SyncState_simps [simp]:
  "ss_Outcomes (stamp_SyncState hc t s) = ss_Outcomes s"
  "ss_OperationID (stamp_SyncState hc t s) = ss_OperationID s"
  "ss_Phase (stamp_SyncState hc t s) = ss_Phase s"
  "ss_Hashes (stamp_SyncState hc t s) = ss_Hashes s"
  "ss_CompletedAt (stamp_SyncState hc t s) = ss_CompletedAt s"
  "ss_Target (stamp_SyncState hc t s) = ss_Target s"
  "ss_ID (stamp_SyncState hc t s) = ss_ID s"
  "ss_HashDomain (stamp_SyncState hc t s) = currentHashDomain hc"
  by (simp_all add: stamp_SyncState_def)

lemma emit_simps [simp]:
  "sw_disk (emit ev w) = sw_disk w" "sw_trace (emit ev w) = sw_trace w @ [ev]"
  by (simp_all add: emit_def)

lemma request_simps [simp]:
  "sw_disk (request ks w) = sw_disk w"
  "sw_trace (request ks w) = sw_trace w @ [EvRequest ks (sw_disk w)]"
  by (simp_all add: request_def)

lemma saveSyncState_trace:
  assumes "saveSyncState en s w = ((s', w'), e)"
  shows "sw_trace w' = sw_trace w @ [EvSave (sw_disk w')]"
  using assms by (auto simp: saveSyncState_def split: prod.splits)

lemma saveSyncState_ok:
  assumes "saveSyncState en s w = ((s', w'), None)"
  shows "s' = stamp_SyncState (en_hash en) (en_now en (moment w)) s" and "sw_disk w' = Some s'"
  using assms
  by (auto simp: saveSyncState_def SaveSyncState_def Let_def split: prod.splits option.splits save_io.splits)

subsection \<open>Pending keys\<close>

definition pending_key :: "SyncState \<Rightarrow> string \<Rightarrow> bool" where
  "pending_key j k \<longleftrightarrow> (\<exists>oc. ss_Outcomes j k = Some oc \<and> ko_OperationID oc = ss_OperationID j
     \<and> ko_Status oc = OutcomePending \<and> ko_Metadata oc = None)"

text \<open>A journal with an open operation in which the keys \<open>ks\<close> are still to be written.\<close>

definition opened :: "hash_ctx \<Rightarrow> string \<Rightarrow> string list \<Rightarrow> SyncState \<Rightarrow> bool" where
  "opened hc op ks j \<longleftrightarrow> ss_OperationID j = op \<and> op \<noteq> [] \<and> ss_Phase j = OperationPhasePending
     \<and> ss_HashDomain j = currentHashDomain hc \<and> finite (dom (ss_Outcomes j))
     \<and> (\<forall>k \<in> set ks. pending_key j k)"

text \<open>A request is guarded if the journal on disk says that its keys are pending.\<close>

fun guarded :: "hash_ctx \<Rightarrow> sync_event \<Rightarrow> bool" where
  "guarded hc (EvRequest keys disk) \<longleftrightarrow>
     keys = [] \<or> (\<exists>j. disk = Some j \<and> opened hc (ss_OperationID j) keys j)"
| "guarded hc _ \<longleftrightarrow> True"

text \<open>From one world to a later one by guarded events only.\<close>

definition extends :: "hash_ctx \<Rightarrow> sync_world \<Rightarrow> sync_world \<Rightarrow> bool" where
  "extends hc w w' \<longleftrightarrow> (\<exists>evs. sw_trace w' = sw_trace w @ evs \<and> list_all (guarded hc) evs)"

lemma extends_refl: "extends hc w w"
  by (simp add: extends_def)

lemma extends_trans: "extends hc w w1 \<Longrightarrow> extends hc w1 w2 \<Longrightarrow> extends hc w w2"
  by (fastforce simp: extends_def)

lemma extends_save: "saveSyncState en s w = ((s', w'), e) \<Longrightarrow> extends hc w w'"
  using saveSyncState_trace by (fastforce simp: extends_def)

lemma extends_request: "guarded hc (EvRequest ks (sw_disk w)) \<Longrightarrow> extends hc w (request ks w)"
  by (auto simp: extends_def)

lemma extends_emit: "guarded hc ev \<Longrightarrow> extends hc w (emit ev w)"
  by (auto simp: extends_def)

lemma RecordKeySuccess_pending:
  assumes "RecordKeySuccess hc s op (Some sec) t = (s1, None)" and "pending_key s (sec_Key sec)"
  obtains oc where "ss_Outcomes s (sec_Key sec) = Some oc" "ko_OperationID oc = ss_OperationID s"
    "ko_Metadata oc = None"
    "s1 = put_outcome (state_Update hc s [sec]) (sec_Key sec)
            (oc\<lparr>ko_Status := OutcomeSucceeded, ko_UpdatedAt := t\<rparr>)"
proof -
  obtain oc where oc: "ss_Outcomes s (sec_Key sec) = Some oc" "ko_OperationID oc = ss_OperationID s"
    "ko_Status oc = OutcomePending" "ko_Metadata oc = None"
    using assms(2) by (auto simp: pending_key_def)
  have "checkOperation s op = None" using assms(1) by (auto simp: RecordKeySuccess_def split: option.splits)
  moreover have "ownedOutcome s op (Some sec) = Inr oc"
    using assms(1) \<open>checkOperation s op = None\<close> oc(1)
    by (auto simp: RecordKeySuccess_def recordKeySuccess_def ownedOutcome_def split: sum.splits if_splits)
  ultimately have "s1 = acknowledge hc s sec oc t"
    using assms(1) oc
    by (simp add: RecordKeySuccess_def recordKeySuccess_def metadata_error_def success_rejection_def)
  then show thesis using that oc by (simp add: acknowledge_def)
qed

lemma state_Update_frame [simp]:
  "ss_HashDomain (state_Update hc s secs) = ss_HashDomain s"
  "ss_Target (state_Update hc s secs) = ss_Target s" "ss_ID (state_Update hc s secs) = ss_ID s"
  by (simp_all add: state_Update_def)

lemma opened_after_success:
  assumes "opened hc op (k # ks) s" and "k \<notin> set ks"
    and "ss_Outcomes s1 = (ss_Outcomes s)(k \<mapsto> x)" and "ss_OperationID s1 = ss_OperationID s"
    and "ss_Phase s1 = ss_Phase s"
  shows "opened hc op ks (stamp_SyncState hc t s1)"
  using assms unfolding opened_def pending_key_def by auto

lemma syncPerKeyLoop_guarded:
  assumes "opened (en_hash en) op (map sec_Key secs) s" and "sw_disk w = Some s"
    and "distinct (map sec_Key secs)" and "syncPerKeyLoop en tgt op secs s w = ((s', w'), f)"
  shows "extends (en_hash en) w w'"
  using assms
proof (induction secs arbitrary: s w)
  case (Cons sec secs)
  let ?w1 = "request [sec_Key sec] w"
  have "guarded (en_hash en) (EvRequest [sec_Key sec] (sw_disk w))"
    using Cons.prems(1,2) by (auto simp: opened_def)
  then have g: "extends (en_hash en) w ?w1" by (rule extends_request)
  show ?case
  proof (cases "snd (target_SyncKey (en_http en (moment w)) tgt (Some sec))")
    case (Some err)
    obtain s1 e1 where r: "RecordKeyNeedsReconciliation s op (Some sec) (en_now en (moment ?w1)) = (s1, e1)"
      by fastforce
    obtain s2 w2 e2 where sv: "saveSyncState en s1 ?w1 = ((s2, w2), e2)" by (metis prod.exhaust)
    have "w' = ?w1 \<or> w' = w2"
      using Cons.prems(4) Some r sv by (auto simp: Let_def split: option.splits)
    with extends_trans [OF g extends_save [OF sv]] g show ?thesis by auto
  next
    case None
    obtain s1 e1 where r: "RecordKeySuccess (en_hash en) s op (Some sec) (en_now en (moment ?w1)) = (s1, e1)"
      by fastforce
    obtain s2 w2 e2 where sv: "saveSyncState en s1 ?w1 = ((s2, w2), e2)" by (metis prod.exhaust)
    show ?thesis
    proof (cases "e1 = None \<and> e2 = None")
      case False
      then have "w' = ?w1 \<or> w' = w2"
        using Cons.prems(4) None r sv by (auto simp: Let_def split: option.splits)
      with extends_trans [OF g extends_save [OF sv]] g show ?thesis by auto
    next
      case True
      then have rest: "syncPerKeyLoop en tgt op secs s2 w2 = ((s', w'), f)"
        using Cons.prems(4) None r sv by (simp add: Let_def)
      have "pending_key s (sec_Key sec)" using Cons.prems(1) by (simp add: opened_def)
      moreover have "RecordKeySuccess (en_hash en) s op (Some sec) (en_now en (moment ?w1)) = (s1, None)"
        using r True by simp
      ultimately obtain oc where "s1 = put_outcome (state_Update (en_hash en) s [sec]) (sec_Key sec)
            (oc\<lparr>ko_Status := OutcomeSucceeded, ko_UpdatedAt := en_now en (moment ?w1)\<rparr>)"
        by (elim RecordKeySuccess_pending) blast
      moreover have s2: "s2 = stamp_SyncState (en_hash en) (en_now en (moment ?w1)) s1" "sw_disk w2 = Some s2"
        using saveSyncState_ok sv True by blast+
      ultimately have "opened (en_hash en) op (map sec_Key secs) s2"
        using opened_after_success [of "en_hash en" op "sec_Key sec" "map sec_Key secs" s s1] Cons.prems(1,3)
        by simp
      from Cons.IH [OF this s2(2) _ rest] Cons.prems(3) have "extends (en_hash en) w2 w'" by simp
      with extends_trans [OF g extends_save [OF sv]] show ?thesis by (rule extends_trans)
    qed
  qed
qed (simp add: extends_refl)

subsection \<open>Opening an operation\<close>

lemma describe_simps [simp]:
  "ss_Outcomes (describe en s tc secs j) = ss_Outcomes j"
  "ss_OperationID (describe en s tc secs j) = ss_OperationID j"
  "ss_Phase (describe en s tc secs j) = ss_Phase j"
  "ss_Hashes (describe en s tc secs j) = ss_Hashes j"
  by (simp_all add: describe_def)

lemma open_operation_simps [simp]:
  "ss_OperationID (open_operation s op intent secrets started md) = op"
  "ss_Phase (open_operation s op intent secrets started md) = OperationPhasePending"
  "ss_Hashes (open_operation s op intent secrets started md) = ss_Hashes s"
  by (simp_all add: open_operation_def)

lemma retire_pending_Hashes [simp]: "ss_Hashes (retire_pending ord s t) = ss_Hashes s"
  by (simp add: retire_pending_def)

lemma sync_open_begun:
  assumes "sync_open en opt s tc j toSync w = (w', Inr (j2, op))"
  obtains intent j1 where "j1 = open_operation (retire_pending (en_ord en (moment w) j) j (en_now en (moment w)))
        op intent (map Some toSync) (en_now en (moment w)) None"
    "saveSyncState en (describe en s tc toSync j1) w = ((j2, w'), None)" "op \<noteq> []"
    "\<not> hasRetainedMetadataOperation (en_ord en (moment w) j) j"
proof -
  let ?ord = "en_ord en (moment w) j" and ?t = "en_now en (moment w)"
  let ?b = "if so_rotate opt then BeginOperationWithIntent ?ord j op OperationIntentRotate (map Some toSync) ?t
      else BeginOperation ?ord j op (map Some toSync) ?t"
  have "en_operationID en = Some op \<and> snd ?b = None
      \<and> saveSyncState en (describe en s tc toSync (fst ?b)) w = ((j2, w'), None)"
    using assms unfolding sync_open_def
    by (auto split: if_splits option.splits prod.splits)
  then have b: "snd ?b = None" "saveSyncState en (describe en s tc toSync (fst ?b)) w = ((j2, w'), None)"
    by blast+
  define intent where "intent = (if so_rotate opt then OperationIntentRotate else [])"
  have "?b = beginOperation ?ord j op intent (map Some toSync) ?t None"
    by (simp add: BeginOperation_def BeginOperationWithIntent_def intent_def)
  then have "\<not> hasRetainedMetadataOperation ?ord j \<and> TrimSpace op \<noteq> []
      \<and> fst ?b = open_operation (retire_pending ?ord j ?t) op intent (map Some toSync) ?t None"
    using b(1) by (auto simp: beginOperation_def Let_def split: if_splits)
  then show thesis using that [OF _ b(2)] TrimSpace_Nil by metis
qed

lemma sync_open_opened:
  assumes "sync_open en opt s tc j toSync w = (w', Inr (j2, op))" and "finite (dom (ss_Outcomes j))"
  shows "opened (en_hash en) op (map sec_Key toSync) j2" "sw_disk w' = Some j2"
    "sw_trace w' = sw_trace w @ [EvSave (Some j2)]" "ss_Hashes j2 = ss_Hashes j"
proof -
  obtain intent j1 where j1: "j1 = open_operation (retire_pending (en_ord en (moment w) j) j (en_now en (moment w)))
        op intent (map Some toSync) (en_now en (moment w)) None"
    "saveSyncState en (describe en s tc toSync j1) w = ((j2, w'), None)" "op \<noteq> []"
    using sync_open_begun [OF assms(1)] by metis
  note sv = saveSyncState_ok [OF j1(2)]
  have "k \<in> batch_keys (map Some toSync)" if "k \<in> set (map sec_Key toSync)" for k
    using that by (auto simp: batch_keys_def)
  moreover have "finite (dom (ss_Outcomes j1))"
  proof -
    have "dom (ss_Outcomes j1) \<subseteq> batch_keys (map Some toSync) \<union> dom (ss_Outcomes j)"
      by (auto simp: j1(1) open_operation_Outcomes retire_pending_Outcomes split: if_splits)
    then show ?thesis by (rule finite_subset) (simp add: assms(2))
  qed
  ultimately show "opened (en_hash en) op (map sec_Key toSync) j2"
    unfolding opened_def pending_key_def using j1(3)
    by (auto simp: sv(1) j1(1) open_operation_Outcomes pending_outcome_def)
  show "sw_disk w' = Some j2" "ss_Hashes j2 = ss_Hashes j" using sv by (simp_all add: j1(1))
  then show "sw_trace w' = sw_trace w @ [EvSave (Some j2)]" using saveSyncState_trace [OF j1(2)] by simp
qed

lemma sync_open_trace:
  assumes "sync_open en opt s tc j toSync w = (w', r)"
  shows "extends hc w w'"
proof -
  have "w' = w \<or> (\<exists>a b e. saveSyncState en a w = ((b, w'), e))"
    using assms unfolding sync_open_def by (auto split: if_splits option.splits prod.splits)
  then show ?thesis using extends_save extends_refl by blast
qed

subsection \<open>The whole run\<close>

lemma sync_recover_trace:
  assumes "sync_recover en s st toSync w = (w', r)"
  shows "extends hc w w'"
proof -
  have "w' = w \<or> (\<exists>a b e. saveSyncState en a w = ((b, w'), e))"
    using assms unfolding sync_recover_def by (auto split: if_splits option.splits prod.splits)
  then show ?thesis using extends_save extends_refl by blast
qed

lemma finalize_and_save_trace:
  assumes "finalize_and_save en op s w = ((s', w'), e)"
  shows "extends hc w w'"
proof -
  have "w' = w \<or> (\<exists>a b e. saveSyncState en a w = ((b, w'), e))"
    using assms unfolding finalize_and_save_def by (auto split: option.splits prod.splits)
  then show ?thesis using extends_save extends_refl by blast
qed

lemma syncPerKeyOperation_guarded:
  assumes "opened (en_hash en) op (map sec_Key secs) s" and "sw_disk w = Some s"
    and "distinct (map sec_Key secs)" and "syncPerKeyOperation en tgt op secs s w = ((s', w'), f)"
  shows "extends (en_hash en) w w'"
proof -
  obtain s1 w1 f1 where l: "syncPerKeyLoop en tgt op secs s w = ((s1, w1), f1)" by (metis prod.exhaust)
  note g = syncPerKeyLoop_guarded [OF assms(1-3) l]
  have "w' = w1 \<or> (\<exists>a e. finalize_and_save en op s1 w1 = ((a, w'), e))"
    using assms(4) l by (auto simp: syncPerKeyOperation_def split: option.splits prod.splits)
  then show ?thesis using g finalize_and_save_trace extends_trans by metis
qed

lemma sync_batch_guarded:
  assumes "guarded hc (EvRequest (map sec_Key toSync) (sw_disk w))"
    and "sync_batch en s st op recovered toSync w = (w', f)"
  shows "extends hc w w'"
proof -
  let ?w1 = "request (map sec_Key toSync) w"
  have "w' = ?w1 \<or> (\<exists>a b e. saveSyncState en a ?w1 = ((b, w'), e))"
    using assms(2) unfolding sync_batch_def Let_def
    by (auto split: if_splits option.splits prod.splits)
  moreover have "extends hc w ?w1" using assms(1) by (rule extends_request)
  ultimately show ?thesis using extends_save extends_trans by metis
qed

lemma sync_deliver_guarded:
  assumes "toSync = [] \<and> op = [] \<or> (\<exists>j. st = Some j \<and> sw_disk w = Some j
      \<and> opened (en_hash en) op (map sec_Key toSync) j)"
    and "distinct (map sec_Key toSync)" and "sync_deliver en s st op recovered toSync w = (w', f)"
  shows "extends (en_hash en) w w'"
proof (cases "\<exists>j s1. op \<noteq> [] \<and> st = Some j \<and> syncPerKeyOperation en s op toSync j w = ((s1, w'), f)")
  case True
  with assms(1,2) syncPerKeyOperation_guarded show ?thesis by fastforce
next
  case False
  then have "sync_batch en s st op recovered toSync w = (w', f)"
    using assms(3) by (auto simp: sync_deliver_def split: option.splits if_splits prod.splits)
  moreover have "guarded (en_hash en) (EvRequest (map sec_Key toSync) (sw_disk w))"
    using assms(1) by (auto simp: opened_def)
  ultimately show ?thesis using sync_batch_guarded by blast
qed

lemma and_then_notify_trace:
  assumes "and_then (w1, f1) (sync_notify en opt toSync) = (w', f)"
  shows "extends hc w1 w'"
  using assms by (cases f1) (auto simp: sync_notify_def intro: extends_refl extends_emit split: if_splits)

text \<open>Every filter of the command selects among the secrets it is given.\<close>

definition picks :: "Secret list \<Rightarrow> Secret list \<Rightarrow> bool" where
  "picks xs ys \<longleftrightarrow> (\<exists>P. xs = filter P ys)"

lemma picks_refl: "picks xs xs"
  unfolding picks_def by (rule exI [of _ "\<lambda>_. True"]) simp

lemma picks_trans: "picks xs ys \<Longrightarrow> picks ys zs \<Longrightarrow> picks xs zs"
  unfolding picks_def by (metis filter_filter)

lemma picks_distinct: "picks xs ys \<Longrightarrow> distinct (map sec_Key ys) \<Longrightarrow> distinct (map sec_Key xs)"
  unfolding picks_def by (metis distinct_map_filter)

lemma picks_subset: "picks xs ys \<Longrightarrow> set xs \<subseteq> set ys"
  by (auto simp: picks_def)

lemma picks_unchanged: "picks (FilterUnchanged hc j secs) secs"
  by (auto simp: FilterUnchanged_def picks_def)

lemma picks_absent: "FilterAbsent uni s names secs = Inr (kept, n) \<Longrightarrow> picks kept secs"
  by (auto simp: FilterAbsent_def Let_def picks_def split: if_splits option.splits)

text \<open>What \<open>sync_prepare\<close> hands on: the journal it loaded, and a selection of the secrets.\<close>

lemma sync_prepare_cases:
  assumes "sync_prepare en opt s tc stateID secrets w = Inr (st, toSync)"
  obtains mid where
    "no_overwrite opt tc \<and> (\<exists>n. FilterAbsent (en_upper en) s (en_existing en) mid = Inr (toSync, n))
      \<or> \<not> no_overwrite opt tc \<and> toSync = mid"
    "(\<not> uses_journal opt s tc \<and> st = None \<and> mid = secrets) \<or>
     (uses_journal opt s tc \<and> (\<exists>j ord. LoadSyncState (en_hash en) ord (syncer_Name s) stateID (sw_disk w) = Inr j
        \<and> st = Some j \<and> mid = (if so_skipUnchanged opt \<and> \<not> so_rotate opt \<and> \<not> no_overwrite opt tc
             then FilterUnchanged (en_hash en) j secrets else secrets)))"
proof -
  let ?ord = "case sw_disk w of None \<Rightarrow> [] | Some j \<Rightarrow> en_ord en (moment w) (reset_hash_domain (en_hash en) j)"
  let ?load = "LoadSyncState (en_hash en) ?ord (syncer_Name s) stateID (sw_disk w)"
  define loaded where "loaded =
     (if \<not> uses_journal opt s tc then Inr (None, secrets)
      else if \<not> so_dryRun opt \<and> \<not> en_lockOk en then Inl FailLock
      else case ?load of
          Inl e \<Rightarrow> Inl (FailLoad e)
        | Inr j \<Rightarrow> Inr (Some j,
            if so_skipUnchanged opt \<and> \<not> so_rotate opt \<and> \<not> no_overwrite opt tc
            then FilterUnchanged (en_hash en) j secrets else secrets))"
  obtain mid where l: "loaded = Inr (st, mid)"
    and m: "no_overwrite opt tc \<and> (\<exists>n. FilterAbsent (en_upper en) s (en_existing en) mid = Inr (toSync, n))
      \<or> \<not> no_overwrite opt tc \<and> toSync = mid"
    using assms unfolding sync_prepare_def Let_def loaded_def [symmetric]
    by (auto split: option.splits if_splits sum.splits prod.splits)
  have "(\<not> uses_journal opt s tc \<and> st = None \<and> mid = secrets) \<or>
     (uses_journal opt s tc \<and> (\<exists>j. ?load = Inr j \<and> st = Some j
        \<and> mid = (if so_skipUnchanged opt \<and> \<not> so_rotate opt \<and> \<not> no_overwrite opt tc
             then FilterUnchanged (en_hash en) j secrets else secrets)))"
    using l unfolding loaded_def by (cases ?load) (auto split: if_splits)
  then show thesis using that [OF m] by blast
qed

lemma sync_prepare_Inr:
  assumes "sync_prepare en opt s tc stateID secrets w = Inr (st, toSync)"
  shows "picks toSync secrets" and "uses_journal opt s tc \<longleftrightarrow> st \<noteq> None"
    and "st = Some j \<Longrightarrow> \<exists>ord. LoadSyncState (en_hash en) ord (syncer_Name s) stateID (sw_disk w) = Inr j"
proof -
  obtain mid where m: "no_overwrite opt tc \<and> (\<exists>n. FilterAbsent (en_upper en) s (en_existing en) mid = Inr (toSync, n))
      \<or> \<not> no_overwrite opt tc \<and> toSync = mid"
    "(\<not> uses_journal opt s tc \<and> st = None \<and> mid = secrets) \<or>
     (uses_journal opt s tc \<and> (\<exists>j ord. LoadSyncState (en_hash en) ord (syncer_Name s) stateID (sw_disk w) = Inr j
        \<and> st = Some j \<and> mid = (if so_skipUnchanged opt \<and> \<not> so_rotate opt \<and> \<not> no_overwrite opt tc
             then FilterUnchanged (en_hash en) j secrets else secrets)))"
    by (rule sync_prepare_cases [OF assms])
  have "picks mid secrets" using m(2) picks_refl picks_unchanged by auto
  then show "picks toSync secrets" using m(1) picks_absent picks_trans by blast
  show "uses_journal opt s tc \<longleftrightarrow> st \<noteq> None" using m(2) by auto
  show "st = Some j \<Longrightarrow> \<exists>ord. LoadSyncState (en_hash en) ord (syncer_Name s) stateID (sw_disk w) = Inr j"
    using m(2) by auto
qed

lemma sync_recover_Inr:
  assumes "sync_recover en s st toSync w = (w', Inr (st1, toSync1, recovered))"
  shows "picks toSync1 toSync" and "(st = None) = (st1 = None)"
proof -
  have "(toSync1 = toSync \<or> (\<exists>j. toSync1 = FilterUnchanged (en_hash en) j toSync)) \<and> (st = None) = (st1 = None)"
    using assms unfolding sync_recover_def by (auto split: if_splits option.splits prod.splits)
  then show "picks toSync1 toSync" "(st = None) = (st1 = None)" using picks_refl picks_unchanged by auto
qed

text \<open>What the map iteration of the Go runtime guarantees: each key once, in some order.\<close>

definition env_ok :: "sync_env \<Rightarrow> bool" where
  "env_ok en \<longleftrightarrow> hash_ok (en_hash en)
     \<and> (\<forall>n s. finite (dom (ss_Outcomes s)) \<longrightarrow> visits (en_ord en n s) s) \<and> (\<forall>n. 0 \<le> en_now en n)"

lemma env_ok_visits: "env_ok en \<Longrightarrow> journal_inv j \<Longrightarrow> visits (en_ord en n j) j"
  by (simp add: env_ok_def journal_inv_def)

definition journal_disk :: "sync_world \<Rightarrow> bool" where
  "journal_disk w \<longleftrightarrow> (\<forall>j. sw_disk w = Some j \<longrightarrow> journal_inv j)"

lemma stamp_inv [simp]: "journal_inv (stamp_SyncState hc t j) = journal_inv j"
  by (simp add: stamp_SyncState_def journal_inv_def outcomes_ok_def metadata_uniform_def wait_ok_def header_ok_def)

lemma LoadSyncState_inv:
  "LoadSyncState hc ord target ident disk = Inr j \<Longrightarrow> \<forall>d. disk = Some d \<longrightarrow> journal_inv d \<Longrightarrow> journal_inv j"
  by (auto simp: LoadSyncState_def Let_def empty_SyncState_inv reset_hash_domain_inv
      split: option.splits if_splits)

lemma sync_prepare_inv:
  assumes "sync_prepare en opt s tc stateID secrets w = Inr (Some j, toSync)" and "journal_disk w"
  shows "journal_inv j"
  using sync_prepare_Inr(3) [OF assms(1)] LoadSyncState_inv assms(2) by (metis journal_disk_def)

lemma sync_recover_inv:
  assumes "env_ok en" and "journal_inv j"
    and "sync_recover en s (Some j) toSync w = (w', Inr (Some j1, toSync1, recovered))"
  shows "journal_inv j1"
proof (cases "syncStateNeedsRecovery (en_ord en (moment w) j) j")
  case True
  let ?f = "FinalizeOperation (en_ord en (moment w) j) j (ss_OperationID j) (en_now en (moment w))"
  have "\<exists>w'. saveSyncState en (fst ?f) w = ((j1, w'), None)"
    using assms(3) True unfolding sync_recover_def
    by (auto split: if_splits option.splits prod.splits)
  then have "j1 = stamp_SyncState (en_hash en) (en_now en (moment w)) (fst ?f)"
    using saveSyncState_ok(1) by blast
  with FinalizeOperation_inv [OF assms(2) env_ok_visits [OF assms(1,2)]] show ?thesis by simp
next
  case False
  with assms(2,3) show ?thesis by (auto simp: sync_recover_def split: if_splits)
qed

lemma sync_target_guarded:
  assumes "env_ok en" and "journal_disk w" and "uses_journal opt s tc" and "distinct (map sec_Key secrets)"
    and "sync_target en opt s tc stateID secrets w = (w', f)"
  shows "extends (en_hash en) w w'"
proof (cases "sync_prepare en opt s tc stateID secrets w")
  case (Inl e)
  with assms(5) show ?thesis by (simp add: sync_target_def extends_refl)
next
  case (Inr p)
  obtain st toSync where p: "p = (st, toSync)" by fastforce
  note prep = sync_prepare_Inr [OF Inr [unfolded p]]
  obtain w1 r where r: "sync_recover en s st toSync w = (w1, r)" by fastforce
  note t1 = sync_recover_trace [OF r, of "en_hash en"]
  consider "w' = w" | "w' = w1" | st1 toSync1 recovered where "r = Inr (st1, toSync1, recovered)" "\<not> so_dryRun opt"
    using assms(5) Inr p r by (auto simp: sync_target_def split: if_splits sum.splits)
  then show ?thesis
  proof cases
    case 3
    obtain j where j: "st1 = Some j" using sync_recover_Inr(2) prep(2) assms(3) r 3(1) by fastforce
    obtain j0 where j0: "st = Some j0" using prep(2) assms(3) by auto
    have "journal_inv j" using sync_recover_inv [OF assms(1)] sync_prepare_inv assms(2) Inr p r 3(1) j j0 by metis
    then have fin: "finite (dom (ss_Outcomes j))" by (simp add: journal_inv_def)
    have d: "distinct (map sec_Key toSync1)"
      using sync_recover_Inr(1) prep(1) assms(4) r 3(1) picks_distinct by metis
    show ?thesis
    proof (cases "toSync1 = []")
      case True
      obtain w2 f2 where del: "sync_deliver en s st1 [] recovered toSync1 w1 = (w2, f2)" by fastforce
      with assms(5) Inr p r 3 j True have "and_then (w2, f2) (sync_notify en opt toSync1) = (w', f)"
        by (simp add: sync_target_def)
      moreover have "extends (en_hash en) w1 w2" using sync_deliver_guarded [OF _ d del] True by simp
      ultimately show ?thesis using t1 and_then_notify_trace extends_trans by metis
    next
      case False
      obtain w2 r2 where op: "sync_open en opt s tc j toSync1 w1 = (w2, r2)" by fastforce
      note t2 = extends_trans [OF t1 sync_open_trace [OF op]]
      show ?thesis
      proof (cases r2)
        case (Inl e)
        with assms(5) Inr p r 3 j False op t2 show ?thesis by (simp add: sync_target_def)
      next
        case inr2: (Inr jo)
        obtain j2 opid where jo: "jo = (j2, opid)" by fastforce
        note o = sync_open_opened [OF op [unfolded inr2 jo] fin]
        obtain w3 f3 where del: "sync_deliver en s (Some j2) opid False toSync1 w2 = (w3, f3)" by fastforce
        with assms(5) Inr p r 3 j False op inr2 jo have "and_then (w3, f3) (sync_notify en opt toSync1) = (w', f)"
          by (simp add: sync_target_def)
        moreover have "extends (en_hash en) w2 w3" using sync_deliver_guarded [OF _ d del] o by simp
        ultimately show ?thesis using t2 and_then_notify_trace extends_trans by metis
      qed
    qed
  qed (use t1 extends_refl in simp_all)
qed

subsection \<open>Crash safety\<close>

lemma opened_requires_reconciliation:
  assumes "opened hc op (k # ks) j" and "visits ord j"
  shows "RequiresReconciliation ord j"
proof -
  obtain oc where "ss_Outcomes j k = Some oc" "ko_OperationID oc = ss_OperationID j" "ko_Status oc = OutcomePending"
    using assms(1) by (auto simp: opened_def pending_key_def)
  then have "\<exists>k oc. ss_Outcomes j k = Some oc \<and> ko_OperationID oc = ss_OperationID j
      \<and> ko_Status oc \<noteq> OutcomeSucceeded" by (intro exI conjI) auto
  with assms show ?thesis by (simp add: RequiresReconciliation_def opened_def visits_ex)
qed

text \<open>A run that finds such a journal sends nothing and changes nothing.\<close>

lemma sync_target_refuses:
  assumes "env_ok en" and "journalByDefault s" and "opened (en_hash en) op (k # ks) j"
    and "sw_disk w = Some j" and "sync_target en opt s tc stateID secrets w = (w', f)"
  shows "w' = w \<and> (so_dryRun opt \<or> f \<noteq> None)"
proof (cases "sync_prepare en opt s tc stateID secrets w")
  case (Inl e)
  with assms(5) show ?thesis by (auto simp: sync_target_def)
next
  case (Inr p)
  obtain st toSync where p: "p = (st, toSync)" by fastforce
  have "uses_journal opt s tc" using assms(2) by (simp add: uses_journal_def)
  then obtain j' ord where st: "st = Some j'"
    and l: "LoadSyncState (en_hash en) ord (syncer_Name s) stateID (sw_disk w) = Inr j'"
    using sync_prepare_Inr(2,3) [OF Inr [unfolded p]] by blast
  have "reset_hash_domain (en_hash en) j = j" using assms(3) by (simp add: reset_hash_domain_def opened_def)
  with l assms(4) have "j' = j" by (auto simp: LoadSyncState_def Let_def split: if_splits option.splits)
  moreover have "visits (en_ord en (moment w) j) j" using assms(1,3) by (simp add: env_ok_def opened_def)
  ultimately have "sync_recover en s st toSync w = (w, Inl FailReconcile)"
    using opened_requires_reconciliation [OF assms(3)] assms(2) st by (simp add: sync_recover_def)
  with assms(5) Inr p show ?thesis by (auto simp: sync_target_def split: if_splits)
qed

lemma opened_nonempty: "opened hc op ks j \<Longrightarrow> ks \<noteq> [] \<Longrightarrow> \<exists>k. opened hc op [k] j"
  by (cases ks) (auto simp: opened_def)

subsection \<open>The account of a per-key operation\<close>

definition key_status :: "SyncState \<Rightarrow> string \<Rightarrow> OutcomeStatus \<Rightarrow> bool" where
  "key_status j k st \<longleftrightarrow> (\<exists>oc. ss_Outcomes j k = Some oc \<and> ko_OperationID oc = ss_OperationID j
     \<and> ko_Status oc = st \<and> ko_Metadata oc = None)"

lemma pending_key_status: "pending_key j k = key_status j k OutcomePending"
  by (simp add: pending_key_def key_status_def)

lemma key_status_cong:
  "ss_Outcomes j k = ss_Outcomes j' k \<Longrightarrow> ss_OperationID j = ss_OperationID j' \<Longrightarrow>
     key_status j k st = key_status j' k st"
  by (simp add: key_status_def)

lemma RecordKeyNeedsReconciliation_pending:
  assumes "RecordKeyNeedsReconciliation s op (Some sec) t = (s1, None)" and "pending_key s (sec_Key sec)"
  shows "ss_OperationID s1 = ss_OperationID s \<and> ss_Phase s1 = OperationPhaseNeedsReconciliation
    \<and> key_status s1 (sec_Key sec) OutcomeNeedsReconciliation
    \<and> (\<forall>k. k \<noteq> sec_Key sec \<longrightarrow> ss_Outcomes s1 k = ss_Outcomes s k) \<and> ss_Hashes s1 = ss_Hashes s"
proof -
  obtain oc where oc: "ss_Outcomes s (sec_Key sec) = Some oc" "ko_OperationID oc = ss_OperationID s"
    "ko_Status oc = OutcomePending" "ko_Metadata oc = None"
    using assms(2) by (auto simp: pending_key_def)
  have c: "checkOperation s op = None"
    using assms(1) by (auto simp: RecordKeyNeedsReconciliation_def split: option.splits)
  moreover have "ownedOutcome s op (Some sec) = Inr oc"
    using assms(1) c oc(1)
    by (auto simp: RecordKeyNeedsReconciliation_def recordKeyNeedsReconciliation_def ownedOutcome_def
        split: sum.splits if_splits)
  ultimately have "s1 = (put_outcome s (sec_Key sec) (to_reconciliation t oc))
      \<lparr>ss_Phase := OperationPhaseNeedsReconciliation, ss_CompletedAt := Some t\<rparr>"
    using assms(1) oc
    by (simp add: RecordKeyNeedsReconciliation_def recordKeyNeedsReconciliation_def metadata_error_def)
  then show ?thesis using oc by (simp add: key_status_def)
qed

text \<open>
  What the loop has done when it ends without a journal failure: the secrets \<open>dn\<close> written and
  acknowledged, then either none left, or one the provider refused and the rest untouched.
\<close>

definition per_key_account ::
    "hash_ctx \<Rightarrow> SyncState \<Rightarrow> Secret list \<Rightarrow> SyncState \<Rightarrow> sync_failure option \<Rightarrow> Secret list \<Rightarrow> bool" where
  "per_key_account hc s secs s' f dn \<longleftrightarrow>
     ss_OperationID s' = ss_OperationID s
     \<and> (\<forall>x \<in> set dn. ss_Hashes s' (sec_Key x) = Some (hashSecret hc (sec_Value x))
           \<and> key_status s' (sec_Key x) OutcomeSucceeded)
     \<and> (\<forall>k. k \<notin> sec_Key ` set dn \<longrightarrow> ss_Hashes s' k = ss_Hashes s k)
     \<and> (\<forall>k. k \<notin> sec_Key ` set secs \<longrightarrow> ss_Outcomes s' k = ss_Outcomes s k)
     \<and> (if f = None then secs = dn \<and> ss_Phase s' = ss_Phase s
        else \<exists>x post. secs = dn @ x # post \<and> key_status s' (sec_Key x) OutcomeNeedsReconciliation
          \<and> ss_Phase s' = OperationPhaseNeedsReconciliation
          \<and> (\<forall>y \<in> set post. key_status s' (sec_Key y) OutcomePending))"

text \<open>The keys requested from the provider between two worlds.\<close>

fun event_keys :: "sync_event \<Rightarrow> string list" where
  "event_keys (EvRequest ks _) = ks"
| "event_keys _ = []"

definition requested :: "sync_world \<Rightarrow> sync_world \<Rightarrow> string list \<Rightarrow> bool" where
  "requested w w' ks \<longleftrightarrow> (\<exists>evs. sw_trace w' = sw_trace w @ evs \<and> concat (map event_keys evs) = ks)"

lemma requested_refl: "requested w w []"
  by (simp add: requested_def)

lemma requested_trans: "requested w w1 ks \<Longrightarrow> requested w1 w2 ks' \<Longrightarrow> requested w w2 (ks @ ks')"
  by (fastforce simp: requested_def)

lemma requested_request: "requested w (request ks w) ks"
  by (simp add: requested_def)

lemma requested_save: "saveSyncState en s w = ((s', w'), e) \<Longrightarrow> requested w w' []"
  using saveSyncState_trace by (fastforce simp: requested_def)

lemma requested_notify:
  "and_then (w1, f1) (sync_notify en opt toSync) = (w', f) \<Longrightarrow> requested w1 w' [] \<and> sw_disk w' = sw_disk w1"
  by (cases f1) (auto simp: sync_notify_def requested_def split: if_splits)

lemma per_key_account_Cons:
  assumes acc: "per_key_account hc s1 secs s' f dn"
    and d: "sec_Key sec \<notin> sec_Key ` set secs" and dn: "set dn \<subseteq> set secs"
    and s1: "ss_OperationID s1 = ss_OperationID s" "ss_Phase s1 = ss_Phase s"
      "ss_Hashes s1 = (ss_Hashes s)(sec_Key sec \<mapsto> hashSecret hc (sec_Value sec))"
      "key_status s1 (sec_Key sec) OutcomeSucceeded"
      "\<forall>k. k \<noteq> sec_Key sec \<longrightarrow> ss_Outcomes s1 k = ss_Outcomes s k"
  shows "per_key_account hc s (sec # secs) s' f (sec # dn)"
proof -
  have nd: "sec_Key sec \<notin> sec_Key ` set dn" using d dn by blast
  have out: "ss_Outcomes s' (sec_Key sec) = ss_Outcomes s1 (sec_Key sec)"
    and op: "ss_OperationID s' = ss_OperationID s1"
    and h: "ss_Hashes s' (sec_Key sec) = ss_Hashes s1 (sec_Key sec)"
    using acc d nd by (simp_all add: per_key_account_def)
  have "key_status s' (sec_Key sec) OutcomeSucceeded"
    using s1(4) key_status_cong [OF out op] by simp
  with acc s1(1,2,3,5) h show ?thesis
    unfolding per_key_account_def by (auto split: if_splits)
qed

lemma syncPerKeyLoop_account:
  assumes "opened (en_hash en) op (map sec_Key secs) s" and "sw_disk w = Some s"
    and "distinct (map sec_Key secs)" and "syncPerKeyLoop en tgt op secs s w = ((s', w'), f)"
    and "f = None \<or> (\<exists>err. f = Some (FailProvider err))"
  shows "sw_disk w' = Some s' \<and> (\<exists>dn. set dn \<subseteq> set secs \<and> per_key_account (en_hash en) s secs s' f dn
    \<and> requested w w' (map sec_Key (take (Suc (length dn)) secs)))"
  using assms
proof (induction secs arbitrary: s w)
  case Nil
  then show ?case by (auto simp: per_key_account_def requested_refl)
next
  case (Cons sec secs)
  let ?w1 = "request [sec_Key sec] w"
  have pend: "pending_key s (sec_Key sec)" using Cons.prems(1) by (simp add: opened_def)
  have posts: "\<forall>y \<in> set secs. key_status s (sec_Key y) OutcomePending"
    using Cons.prems(1) by (simp add: opened_def pending_key_status)
  show ?case
  proof (cases "snd (target_SyncKey (en_http en (moment w)) tgt (Some sec))")
    case (Some err)
    obtain s1 e1 where r: "RecordKeyNeedsReconciliation s op (Some sec) (en_now en (moment ?w1)) = (s1, e1)"
      by fastforce
    obtain s2 w2 e2 where sv: "saveSyncState en s1 ?w1 = ((s2, w2), e2)" by (metis prod.exhaust)
    have e: "e1 = None" "e2 = None" "w' = w2" "s' = s2" "f = Some (FailProvider err)"
      using Cons.prems(4,5) Some r sv by (auto simp: Let_def split: option.splits)
    note rec = RecordKeyNeedsReconciliation_pending [OF r [unfolded e(1)] pend]
    note save = saveSyncState_ok [OF sv [unfolded e(2)]]
    have "key_status s2 (sec_Key y) OutcomePending" if "y \<in> set secs" for y
      using posts that rec save(1) Cons.prems(3) key_status_cong [of s2 "sec_Key y" s] by (metis (no_types, lifting)
        distinct.simps(2) image_eqI list.set_map list.simps(9) stamp_SyncState_simps(1,2))
    moreover have "key_status s2 (sec_Key sec) OutcomeNeedsReconciliation"
      using rec save(1) key_status_cong [of s2 "sec_Key sec" s1] by simp
    ultimately have "per_key_account (en_hash en) s (sec # secs) s2 f []"
      unfolding per_key_account_def using rec save(1) e(5) by auto
    moreover have "requested w w2 [sec_Key sec]"
      using requested_trans [OF requested_request requested_save [OF sv]] by simp
    ultimately show ?thesis using save(2) e by (intro conjI exI [of _ "[]"]) auto
  next
    case None
    obtain s1 e1 where r: "RecordKeySuccess (en_hash en) s op (Some sec) (en_now en (moment ?w1)) = (s1, e1)"
      by fastforce
    obtain s2 w2 e2 where sv: "saveSyncState en s1 ?w1 = ((s2, w2), e2)" by (metis prod.exhaust)
    have e: "e1 = None" "e2 = None"
      using Cons.prems(4,5) None r sv by (auto simp: Let_def split: option.splits)
    then have rest: "syncPerKeyLoop en tgt op secs s2 w2 = ((s', w'), f)"
      using Cons.prems(4) None r sv by (simp add: Let_def)
    obtain oc where oc: "ko_OperationID oc = ss_OperationID s" "ko_Metadata oc = None"
      "s1 = put_outcome (state_Update (en_hash en) s [sec]) (sec_Key sec)
            (oc\<lparr>ko_Status := OutcomeSucceeded, ko_UpdatedAt := en_now en (moment ?w1)\<rparr>)"
      using RecordKeySuccess_pending [OF r [unfolded e(1)] pend] by blast
    note save = saveSyncState_ok [OF sv [unfolded e(2)]]
    have op2: "opened (en_hash en) op (map sec_Key secs) s2"
      using opened_after_success [of "en_hash en" op "sec_Key sec" "map sec_Key secs" s s1] Cons.prems(1,3) oc(3) save(1)
      by simp
    from Cons.IH [OF op2 save(2) _ rest Cons.prems(5)] Cons.prems(3) obtain dn where
      dn: "sw_disk w' = Some s'" "set dn \<subseteq> set secs" "per_key_account (en_hash en) s2 secs s' f dn"
        "requested w2 w' (map sec_Key (take (Suc (length dn)) secs))" by auto
    have "per_key_account (en_hash en) s (sec # secs) s' f (sec # dn)"
      by (rule per_key_account_Cons [OF dn(3) _ dn(2)])
        (use Cons.prems(3) oc save(1) in \<open>auto simp: key_status_def state_Update_def\<close>)
    moreover have "requested w w' (sec_Key sec # map sec_Key (take (Suc (length dn)) secs))"
      using requested_trans [OF requested_trans [OF requested_request requested_save [OF sv]] dn(4)] by simp
    ultimately show ?thesis using dn by (intro conjI exI [of _ "sec # dn"]) auto
  qed
qed

subsection \<open>Finishing a plain operation\<close>

lemma recordKeySuccess_step:
  assumes "RecordKeySuccess hc s op (Some sec) t = (s1, None)" and "pending_key s (sec_Key sec)"
  shows "ss_OperationID s1 = ss_OperationID s" "ss_Phase s1 = ss_Phase s"
    "ss_Hashes s1 = (ss_Hashes s)(sec_Key sec \<mapsto> hashSecret hc (sec_Value sec))"
    "key_status s1 (sec_Key sec) OutcomeSucceeded"
    "\<forall>k. k \<noteq> sec_Key sec \<longrightarrow> ss_Outcomes s1 k = ss_Outcomes s k"
proof -
  obtain oc where "ko_OperationID oc = ss_OperationID s" "ko_Metadata oc = None"
      "s1 = put_outcome (state_Update hc s [sec]) (sec_Key sec)
            (oc\<lparr>ko_Status := OutcomeSucceeded, ko_UpdatedAt := t\<rparr>)"
    using RecordKeySuccess_pending [OF assms] by blast
  then show "ss_OperationID s1 = ss_OperationID s" "ss_Phase s1 = ss_Phase s"
    "ss_Hashes s1 = (ss_Hashes s)(sec_Key sec \<mapsto> hashSecret hc (sec_Value sec))"
    "key_status s1 (sec_Key sec) OutcomeSucceeded"
    "\<forall>k. k \<noteq> sec_Key sec \<longrightarrow> ss_Outcomes s1 k = ss_Outcomes s k"
    by (auto simp: key_status_def state_Update_def)
qed

text \<open>\<open>RecordSuccess\<close> acknowledges a batch key by key, like the loop.\<close>

lemma record_loop_account:
  assumes "ss_OperationID s = op" and "op \<noteq> []" and "\<forall>x \<in> set secs. pending_key s (sec_Key x)"
    and "distinct (map sec_Key secs)"
    and "loop_err (\<lambda>s sec. recordKeySuccess hc s op sec t) s (map Some secs) = (s1, None)"
  shows "per_key_account hc s secs s1 None secs"
  using assms
proof (induction secs arbitrary: s)
  case (Cons sec secs)
  obtain s2 where r: "recordKeySuccess hc s op (Some sec) t = (s2, None)"
    and rest: "loop_err (\<lambda>s sec. recordKeySuccess hc s op sec t) s2 (map Some secs) = (s1, None)"
    using Cons.prems(5) by (auto split: prod.splits option.splits)
  have "RecordKeySuccess hc s op (Some sec) t = (s2, None)"
    using r Cons.prems(1,2) by (simp add: RecordKeySuccess_def checkOperation_def)
  moreover have "pending_key s (sec_Key sec)" using Cons.prems(3) by simp
  ultimately have st: "ss_OperationID s2 = ss_OperationID s" "ss_Phase s2 = ss_Phase s"
    "ss_Hashes s2 = (ss_Hashes s)(sec_Key sec \<mapsto> hashSecret hc (sec_Value sec))"
    "key_status s2 (sec_Key sec) OutcomeSucceeded"
    "\<forall>k. k \<noteq> sec_Key sec \<longrightarrow> ss_Outcomes s2 k = ss_Outcomes s k"
    by (rule recordKeySuccess_step)+
  have "pending_key s2 (sec_Key x)" if "x \<in> set secs" for x
  proof -
    have "sec_Key x \<noteq> sec_Key sec" using that Cons.prems(4) by (metis distinct.simps(2) image_eqI list.set_map list.simps(9))
    with st(1,5) Cons.prems(3) that show ?thesis by (simp add: pending_key_def)
  qed
  with Cons.IH [OF _ Cons.prems(2) _ _ rest] st(1) Cons.prems(1,4)
  have "per_key_account hc s2 secs s1 None secs" by simp
  then show ?case by (rule per_key_account_Cons [OF _ _ _ st]) (use Cons.prems(4) in auto)
qed (simp add: per_key_account_def)

text \<open>Finalizing when every key of the operation was acknowledged without metadata.\<close>

lemma finalize_plain:
  assumes inv: "journal_inv s" and vis: "visits ord s" and op: "ss_OperationID s = op" "op \<noteq> []"
    and ne: "ks \<noteq> []" and ks: "\<forall>k \<in> set ks. key_status s k OutcomeSucceeded"
    and own: "\<forall>k. owned_by op s k \<longrightarrow> k \<in> set ks" and ph: "ss_Phase s = OperationPhasePending"
    and fin: "FinalizeOperation ord s op t = (s', e)"
  shows "e = None" "ss_Phase s' = OperationPhaseSucceeded" "ss_Hashes s' = ss_Hashes s"
    "ss_Outcomes s' = ss_Outcomes s" "ss_OperationID s' = op"
proof -
  let ?S = "op_outcome_set op s"
  have S: "\<forall>oc \<in> ?S. ko_Status oc = OutcomeSucceeded \<and> ko_Metadata oc = None"
  proof
    fix oc
    assume "oc \<in> ?S"
    then obtain k where k: "ss_Outcomes s k = Some oc" "ko_OperationID oc = op"
      by (auto simp: op_outcome_set_def)
    then have "k \<in> set ks" using own by (simp add: owned_by_def)
    with ks k(1) show "ko_Status oc = OutcomeSucceeded \<and> ko_Metadata oc = None"
      by (auto simp: key_status_def)
  qed
  have "?S \<noteq> {}" using ks ne op(1) by (cases ks) (auto simp: op_outcome_set_def key_status_def)
  moreover have "\<not> (\<exists>oc \<in> ?S. ko_Status oc = OutcomeNeedsReconciliation \<or> failed_verification oc)"
    "\<not> (\<exists>oc \<in> ?S. ko_Status oc \<noteq> OutcomeSucceeded)" "\<not> (\<exists>oc \<in> ?S. unverified oc)"
    using S by (auto simp: failed_verification_def unverified_def)
  ultimately have "(s', e) = (succeeded_state op t s, None)"
    using fin ph op unfolding FinalizeOperation_spec [OF inv vis]
    by (simp add: checkOperation_def finalize_spec_def)
  moreover have "promote_all op K s = s" for K
  proof -
    have "\<not> promotes op oc" if "ss_Outcomes s k = Some oc" for k oc
      using S that by (auto simp: promotes_def op_outcome_set_def)
    then show ?thesis unfolding promote_all_def by (auto split: option.splits intro!: SyncState.equality ext)
  qed
  ultimately show "e = None" "ss_Phase s' = OperationPhaseSucceeded" "ss_Hashes s' = ss_Hashes s"
    "ss_Outcomes s' = ss_Outcomes s" "ss_OperationID s' = op"
    using op(1) by (auto simp: succeeded_state_def)
qed

subsection \<open>A successful delivery\<close>

lemma syncPerKeyLoop_inv:
  assumes "opened (en_hash en) op (map sec_Key secs) s" and "sw_disk w = Some s"
    and "distinct (map sec_Key secs)" and "syncPerKeyLoop en tgt op secs s w = ((s', w'), None)"
    and "hash_ok (en_hash en)" and "journal_inv s"
  shows "journal_inv s'"
  using assms
proof (induction secs arbitrary: s w)
  case (Cons sec secs)
  let ?w1 = "request [sec_Key sec] w"
  have ok: "snd (target_SyncKey (en_http en (moment w)) tgt (Some sec)) = None"
    using Cons.prems(4) by (auto simp: Let_def split: option.splits prod.splits)
  obtain s1 e1 where r: "RecordKeySuccess (en_hash en) s op (Some sec) (en_now en (moment ?w1)) = (s1, e1)"
    by fastforce
  obtain s2 w2 e2 where sv: "saveSyncState en s1 ?w1 = ((s2, w2), e2)" by (metis prod.exhaust)
  have e: "e1 = None" "e2 = None"
    using Cons.prems(4) ok r sv by (auto simp: Let_def split: option.splits)
  then have rest: "syncPerKeyLoop en tgt op secs s2 w2 = ((s', w'), None)"
    using Cons.prems(4) ok r sv by (simp add: Let_def)
  have ph: "ss_Phase s = OperationPhasePending" and pend: "pending_key s (sec_Key sec)"
    using Cons.prems(1) by (simp_all add: opened_def)
  then have inv1: "journal_inv s1"
    using key_success.keeps_inv [OF Cons.prems(6), of "en_hash en" op "Some sec" "en_now en (moment ?w1)"]
      Cons.prems(5) r by simp
  note save = saveSyncState_ok [OF sv [unfolded e(2)]]
  note st = RecordKeySuccess_pending [OF r [unfolded e(1)] pend]
  have "opened (en_hash en) op (map sec_Key secs) s2"
    using st opened_after_success [of "en_hash en" op "sec_Key sec" "map sec_Key secs" s s1]
      Cons.prems(1,3) save(1) by (metis distinct.simps(2) list.simps(9) put_outcome_simps(1,2,3)
        state_Update_simps(1,2,3))
  from Cons.IH [OF this save(2) _ rest Cons.prems(5)] Cons.prems(3) inv1 save(1) show ?case by simp
qed simp

definition recorded :: "hash_ctx \<Rightarrow> SyncState \<Rightarrow> Secret list \<Rightarrow> bool" where
  "recorded hc j xs \<longleftrightarrow> (\<forall>x \<in> set xs. ss_Hashes j (sec_Key x) = Some (hashSecret hc (sec_Value x))
     \<and> key_status j (sec_Key x) OutcomeSucceeded)"

lemma account_owned:
  assumes "per_key_account hc s secs s' None dn" and "\<forall>k. owned_by op s k \<longrightarrow> k \<in> sec_Key ` set secs"
  shows "\<forall>k. owned_by op s' k \<longrightarrow> k \<in> set (map sec_Key secs)"
proof (intro allI impI)
  fix k
  assume k: "owned_by op s' k"
  show "k \<in> set (map sec_Key secs)"
  proof (rule ccontr)
    assume n: "k \<notin> set (map sec_Key secs)"
    then have "ss_Outcomes s' k = ss_Outcomes s k" using assms(1) by (simp add: per_key_account_def)
    with k have "owned_by op s k" by (simp add: owned_by_def)
    with assms(2) n show False by simp
  qed
qed

text \<open>The state after all keys were acknowledged, finalized.\<close>

lemma account_finalized:
  assumes acc: "per_key_account hc s secs s1 None dn" and ne: "secs \<noteq> []"
    and op: "ss_OperationID s = op" "op \<noteq> []" "ss_Phase s = OperationPhasePending"
    and own: "\<forall>k. owned_by op s k \<longrightarrow> k \<in> sec_Key ` set secs"
    and inv: "journal_inv s1" and vis: "visits ord s1"
    and fin: "FinalizeOperation ord s1 op t = (s2, e)"
  shows "e = None" "ss_Phase s2 = OperationPhaseSucceeded" "recorded hc s2 secs"
    "\<forall>k. k \<notin> sec_Key ` set secs \<longrightarrow> ss_Hashes s2 k = ss_Hashes s k"
proof -
  have acc': "dn = secs" "ss_OperationID s1 = op" "ss_Phase s1 = OperationPhasePending"
    using acc op by (simp_all add: per_key_account_def)
  have ne': "map sec_Key secs \<noteq> []" using ne by simp
  have ks: "\<forall>k \<in> set (map sec_Key secs). key_status s1 k OutcomeSucceeded"
    using acc acc'(1) by (simp add: per_key_account_def)
  note f = finalize_plain [OF inv vis acc'(2) op(2) ne' ks account_owned [OF acc own] acc'(3) fin]
  show "e = None" "ss_Phase s2 = OperationPhaseSucceeded" by fact+
  have "key_status s2 k st = key_status s1 k st" for k st
    using f(4,5) acc'(2) by (simp add: key_status_def)
  then show "recorded hc s2 secs"
    using acc acc'(1) f(3) by (simp add: recorded_def per_key_account_def)
  show "\<forall>k. k \<notin> sec_Key ` set secs \<longrightarrow> ss_Hashes s2 k = ss_Hashes s k"
    using acc acc'(1) f(3) by (simp add: per_key_account_def)
qed

lemma per_key_delivered:
  assumes "env_ok en" and "journal_inv j" and "opened (en_hash en) op (map sec_Key secs) j"
    and "sw_disk w = Some j" and "distinct (map sec_Key secs)" and "secs \<noteq> []"
    and "\<forall>k. owned_by op j k \<longrightarrow> k \<in> sec_Key ` set secs"
    and "syncPerKeyOperation en s op secs j w = ((j', w'), None)"
  shows "sw_disk w' = Some j' \<and> ss_Phase j' = OperationPhaseSucceeded \<and> recorded (en_hash en) j' secs
    \<and> (\<forall>k. k \<notin> sec_Key ` set secs \<longrightarrow> ss_Hashes j' k = ss_Hashes j k) \<and> requested w w' (map sec_Key secs)"
proof -
  obtain s1 w1 f1 where l: "syncPerKeyLoop en s op secs j w = ((s1, w1), f1)" by (metis prod.exhaust)
  have f1: "f1 = None" and fs: "finalize_and_save en op s1 w1 = ((j', w'), None)"
    using assms(8) l by (auto simp: syncPerKeyOperation_def split: option.splits prod.splits)
  from syncPerKeyLoop_account [OF assms(3,4,5) l] f1 obtain dn where
    dn: "sw_disk w1 = Some s1" "per_key_account (en_hash en) j secs s1 None dn"
      "requested w w1 (map sec_Key (take (Suc (length dn)) secs))" by auto
  then have dn': "dn = secs" "requested w w1 (map sec_Key secs)" by (auto simp: per_key_account_def)
  have hok: "hash_ok (en_hash en)" using assms(1) by (simp add: env_ok_def)
  have inv: "journal_inv s1" by (rule syncPerKeyLoop_inv [OF assms(3,4,5) l [unfolded f1] hok assms(2)])
  obtain s2 e where fin: "FinalizeOperation (en_ord en (moment w1) s1) s1 op (en_now en (moment w1)) = (s2, e)"
    by fastforce
  have "saveSyncState en s2 w1 = ((j', w'), None)"
    using fs fin by (auto simp: finalize_and_save_def split: option.splits)
  note save = saveSyncState_ok [OF this] requested_save [OF this]
  have o: "ss_OperationID j = op" "op \<noteq> []" "ss_Phase j = OperationPhasePending"
    using assms(3) by (simp_all add: opened_def)
  note a = account_finalized [OF dn(2) assms(6) o assms(7) inv env_ok_visits [OF assms(1) inv] fin]
  have "requested w w' (map sec_Key secs)" using requested_trans [OF dn'(2) save(3)] by simp
  with save a show ?thesis by (simp add: recorded_def key_status_def)
qed

lemma record_loop_inv:
  assumes "journal_inv s" and "hash_ok hc" and "ss_OperationID s = op" and "ss_Phase s = OperationPhasePending"
  shows "journal_inv (fst (loop_err (\<lambda>s sec. recordKeySuccess hc s op sec t) s secs))"
proof -
  let ?P = "\<lambda>s. journal_inv s \<and> ss_OperationID s = op \<and> ss_Phase s \<noteq> OperationPhaseSucceeded"
  have "?P (fst (loop_err (\<lambda>s sec. recordKeySuccess hc s op sec t) s secs))"
  proof (rule loop_err_inv)
    fix s x
    assume p: "?P s"
    have "same_operation s (fst (recordKeySuccess hc s op x t))" by (rule recordKeySuccess_frame)
    with p show "?P (fst (recordKeySuccess hc s op x t))"
      using recordKeySuccess_inv [of s hc op x t] assms(2) by (auto simp: same_operation_def)
  qed (use assms in simp)
  then show ?thesis by simp
qed

lemma batch_delivered:
  assumes "env_ok en" and "journal_inv j" and "opened (en_hash en) op (map sec_Key secs) j"
    and "distinct (map sec_Key secs)" and "secs \<noteq> []"
    and "\<forall>k. owned_by op j k \<longrightarrow> k \<in> sec_Key ` set secs"
    and "sync_batch en s (Some j) op False secs w = (w', None)"
  shows "\<exists>j'. sw_disk w' = Some j' \<and> ss_Phase j' = OperationPhaseSucceeded \<and> recorded (en_hash en) j' secs
    \<and> (\<forall>k. k \<notin> sec_Key ` set secs \<longrightarrow> ss_Hashes j' k = ss_Hashes j k) \<and> requested w w' (map sec_Key secs)"
proof -
  let ?w1 = "request (map sec_Key secs) w"
  let ?t = "en_now en (moment ?w1)"
  have o: "ss_OperationID j = op" "op \<noteq> []" "ss_Phase j = OperationPhasePending"
    "\<forall>x \<in> set secs. pending_key j (sec_Key x)" and hok: "hash_ok (en_hash en)"
    using assms(1,3) by (simp_all add: opened_def env_ok_def)
  obtain j1 b where r: "RecordSuccess (en_hash en) (en_ord en (moment ?w1) j) j op (map Some secs) ?t = (j1, None)"
    and sv: "saveSyncState en j1 ?w1 = ((b, w'), None)"
    using assms(7) o(2) unfolding sync_batch_def Let_def
    by (auto split: option.splits prod.splits)
  obtain s1 where lp: "loop_err (\<lambda>s sec. recordKeySuccess (en_hash en) s op sec ?t) j (map Some secs) = (s1, None)"
    and fin: "FinalizeOperation (en_ord en (moment ?w1) j) s1 op ?t = (j1, None)"
    using r by (auto simp: RecordSuccess_def and_then_eq_None split: option.splits)
  note acc = record_loop_account [OF o(1,2,4) assms(4) lp]
  have inv: "journal_inv s1" using record_loop_inv [OF assms(2) hok o(1,3), of ?t "map Some secs"] lp by simp
  have "k \<in> dom (ss_Outcomes s1) \<longleftrightarrow> k \<in> dom (ss_Outcomes j)" for k
  proof (cases "k \<in> sec_Key ` set secs")
    case True
    then have "key_status s1 k OutcomeSucceeded" "pending_key j k"
      using acc o(4) by (auto simp: per_key_account_def)
    then show ?thesis by (auto simp: key_status_def pending_key_def)
  next
    case False
    then show ?thesis using acc by (auto simp: per_key_account_def dom_def)
  qed
  then have "visits (en_ord en (moment ?w1) j) s1"
    using env_ok_visits [OF assms(1,2), of "moment ?w1"] visits_cong [of s1 j] by blast
  note a = account_finalized [OF acc assms(5) o(1,2,3) assms(6) inv this fin]
  note save = saveSyncState_ok [OF sv]
  have "requested w w' (map sec_Key secs)"
    using requested_trans [OF requested_request requested_save [OF sv]] by simp
  moreover have "recorded (en_hash en) b secs"
    using a(3) save(1) by (simp add: recorded_def key_status_def)
  ultimately show ?thesis using save a by auto
qed

lemma delivered:
  assumes "env_ok en" and "journal_inv j" and "opened (en_hash en) op (map sec_Key secs) j"
    and "sw_disk w = Some j" and "distinct (map sec_Key secs)" and "secs \<noteq> []"
    and "\<forall>k. owned_by op j k \<longrightarrow> k \<in> sec_Key ` set secs"
    and "sync_deliver en s (Some j) op False secs w = (w', None)"
  shows "\<exists>j'. sw_disk w' = Some j' \<and> ss_Phase j' = OperationPhaseSucceeded \<and> recorded (en_hash en) j' secs
    \<and> (\<forall>k. k \<notin> sec_Key ` set secs \<longrightarrow> ss_Hashes j' k = ss_Hashes j k) \<and> requested w w' (map sec_Key secs)"
proof (cases "op \<noteq> [] \<and> is_PerKeySyncer s")
  case True
  then obtain j' where "syncPerKeyOperation en s op secs j w = ((j', w'), None)"
    using assms(8) by (auto simp: sync_deliver_def split: prod.splits)
  from per_key_delivered [OF assms(1-7) this] show ?thesis by blast
next
  case False
  then have "sync_batch en s (Some j) op False secs w = (w', None)"
    using assms(8) by (auto simp: sync_deliver_def)
  from batch_delivered [OF assms(1-3,5-7) this] show ?thesis .
qed

lemma open_described_inv:
  assumes "env_ok en" and "journal_inv j" and "fresh_op op j" and "TrimSpace op \<noteq> []"
    and "\<not> hasRetainedMetadataOperation (en_ord en n j) j" and "\<not> 512 < length (en_source en)"
  shows "journal_inv (describe en s tc secs (open_operation (retire_pending (en_ord en n j) j (en_now en n))
           op intent (map Some secs) (en_now en n) None))"
proof -
  have "list_all (\<lambda>m. m = [] \<or> validOperationReference m) [[], ''PUT'', ''PATCH'']" by code_simp
  then have "mutationMethod s tc = [] \<or> validOperationReference (mutationMethod s tc)"
    by (auto simp: mutationMethod_def)
  moreover have hok: "hash_ok (en_hash en)" "0 \<le> en_now en n" using assms(1) by (simp_all add: env_ok_def)
  moreover have "journal_inv (fst (beginOperation (en_ord en n j) j op intent (map Some secs) (en_now en n) None))"
    by (rule beginOperation_inv [OF assms(2) env_ok_visits [OF assms(1,2)] assms(3) hok(2)])
  then have "journal_inv (open_operation (retire_pending (en_ord en n j) j (en_now en n))
           op intent (map Some secs) (en_now en n) None)"
    using assms(4,5) by (auto simp: beginOperation_def)
  ultimately show ?thesis
    using assms(6) unfolding describe_def by (auto intro: journal_step_inv [OF step_describe])
qed

lemma sync_open_inv:
  assumes "sync_open en opt s tc j secs w = (w', Inr (j2, op))" and "env_ok en" and "journal_inv j"
    and "fresh_op op j"
  shows "journal_inv j2" and "\<forall>k. owned_by op j2 k \<longrightarrow> k \<in> sec_Key ` set secs"
proof -
  let ?ord = "en_ord en (moment w) j" and ?t = "en_now en (moment w)"
  obtain intent j1 where j1: "j1 = open_operation (retire_pending ?ord j ?t) op intent (map Some secs) ?t None"
    "saveSyncState en (describe en s tc secs j1) w = ((j2, w'), None)" "op \<noteq> []"
    "\<not> hasRetainedMetadataOperation ?ord j"
    using sync_open_begun [OF assms(1)] by metis
  have src: "\<not> 512 < length (en_source en)"
    using j1(2) by (auto simp: saveSyncState_def SaveSyncState_def validatePersistedOperationMetadata_def
        describe_def Let_def split: prod.splits if_splits option.splits save_io.splits)
  have "TrimSpace op \<noteq> []"
    using assms(1) by (auto simp: sync_open_def BeginOperation_def BeginOperationWithIntent_def beginOperation_def
        Let_def split: if_splits option.splits prod.splits)
  from open_described_inv [OF assms(2,3,4) this j1(4) src] show "journal_inv j2"
    using saveSyncState_ok(1) [OF j1(2)] j1(1) by simp
  show "\<forall>k. owned_by op j2 k \<longrightarrow> k \<in> sec_Key ` set secs"
    using saveSyncState_ok(1) [OF j1(2)] retired_not_fresh [OF assms(4), of ?ord ?t]
    by (auto simp: owned_by_def j1(1) open_operation_Outcomes batch_keys_def split: option.splits if_splits)
qed

subsection \<open>A healthy environment\<close>

text \<open>With a disk that works, a journal with the invariant is saved.\<close>

lemma saveSyncState_works:
  assumes "env_ok en" and "journal_inv s" and "en_io en (moment w) = SaveOK"
  shows "snd (saveSyncState en s w) = None"
  using journal_inv_saveable [OF assms(2) env_ok_visits [OF assms(1,2)]] assms(3)
  by (simp add: saveSyncState_def SaveSyncState_def Let_def)

lemma RecordKeySuccess_works:
  assumes "ss_OperationID s = op" and "op \<noteq> []" and "pending_key s (sec_Key sec)" and "TrimSpace (sec_Key sec) \<noteq> []"
  shows "snd (RecordKeySuccess hc s op (Some sec) t) = None"
  using assms
  by (auto simp: RecordKeySuccess_def recordKeySuccess_def checkOperation_def ownedOutcome_def pending_key_def
      metadata_error_def success_rejection_def)

lemma syncPerKeyLoop_works:
  assumes "opened (en_hash en) op (map sec_Key secs) s" and "sw_disk w = Some s"
    and "distinct (map sec_Key secs)" and "env_ok en" and "journal_inv s"
    and "\<forall>n. en_io en n = SaveOK" and "\<forall>x \<in> set secs. TrimSpace (sec_Key x) \<noteq> []"
    and "\<forall>n. \<forall>x \<in> set secs. snd (target_SyncKey (en_http en n) tgt (Some x)) = None"
  shows "snd (syncPerKeyLoop en tgt op secs s w) = None"
  using assms
proof (induction secs arbitrary: s w)
  case (Cons sec secs)
  let ?w1 = "request [sec_Key sec] w" and ?t = "en_now en (Suc (moment w))"
  have ph: "ss_OperationID s = op" "op \<noteq> []" "ss_Phase s = OperationPhasePending"
    and pend: "pending_key s (sec_Key sec)"
    using Cons.prems(1) by (simp_all add: opened_def)
  obtain s1 where r: "RecordKeySuccess (en_hash en) s op (Some sec) ?t = (s1, None)"
    using RecordKeySuccess_works [OF ph(1,2) pend] Cons.prems(7) by (metis list.set_intros(1) prod.collapse)
  have inv1: "journal_inv s1"
    using key_success.keeps_inv [OF Cons.prems(5), of "en_hash en" op "Some sec" ?t] Cons.prems(4) r ph(3)
    by (simp add: env_ok_def)
  obtain s2 w2 where sv: "saveSyncState en s1 ?w1 = ((s2, w2), None)"
    using saveSyncState_works [OF Cons.prems(4) inv1] Cons.prems(6) by (metis prod.collapse)
  note save = saveSyncState_ok [OF sv]
  note st = recordKeySuccess_step [OF r pend]
  have "ss_Outcomes s1 = (ss_Outcomes s)(sec_Key sec \<mapsto> the (ss_Outcomes s1 (sec_Key sec)))"
    using st(4,5) by (auto simp: fun_eq_iff key_status_def)
  from opened_after_success [OF Cons.prems(1) [unfolded list.map] _ this st(1,2), of "en_now en (moment ?w1)"] Cons.prems(3) save(1)
  have op2: "opened (en_hash en) op (map sec_Key secs) s2" by simp
  have "snd (syncPerKeyLoop en tgt op secs s2 w2) = None"
    by (rule Cons.IH [OF op2 save(2) _ Cons.prems(4)]) (use Cons.prems(3,6,7,8) inv1 save(1) in simp_all)
  with Cons.prems(8) r sv show ?case by (simp add: Let_def)
qed simp

end
