(* ===== verification/Sync_Command_Theorems.thy ===== *)
theory Sync_Command_Theorems
  imports Sync_Command_Steps "HOL-Library.List_Lexorder" "HOL-Library.Char_ord"
begin

text \<open>
  What \<open>skret sync\<close> guarantees about its journal: nothing is requested from a provider before the
  request is on disk as pending, so that a crash at any moment makes the next run stop and ask
  for reconciliation; a dry run changes nothing; a run that reports success has everything it
  wrote recorded; a failing key leaves an exact account of what was done.
\<close>

subsection \<open>A successful run\<close>

lemma fresh_op_cong:
  assumes "fresh_op op s" and "ss_OperationID s' = ss_OperationID s"
    and "\<And>k x. ss_Outcomes s' k = Some x \<Longrightarrow> \<exists>y. ss_Outcomes s k = Some y \<and> ko_OperationID y = ko_OperationID x"
  shows "fresh_op op s'"
  unfolding fresh_op_def
proof (intro conjI allI impI)
  show "op \<noteq> ss_OperationID s'" using assms(1,2) by (simp add: fresh_op_def)
  fix k x
  assume "ss_Outcomes s' k = Some x"
  from assms(3) [OF this] assms(1) show "ko_OperationID x \<noteq> op" by (auto simp: fresh_op_def)
qed

lemma finalize_keeps_fresh:
  assumes "journal_inv s" and "visits ord s" and "fresh_op op s"
  shows "fresh_op op (fst (FinalizeOperation ord s o' t))"
proof -
  have S: "fresh_op op (succeeded_state o' t s)"
    by (rule fresh_op_cong [OF assms(3)])
      (auto simp: succeeded_state_def [of o' t s] succeeded_state_Outcomes promote_all_def split: if_splits option.splits)
  moreover have "fresh_op op (fst (finalize_spec S o' t s))" for S
    using assms(3) S by (simp add: finalize_spec_def fresh_op_def)
  ultimately show ?thesis using assms(3) unfolding FinalizeOperation_spec [OF assms(1,2)]
    by (simp split: option.split)
qed

lemma sync_recover_cases:
  assumes "sync_recover en s (Some j) toSync w = (w', Inr (Some j1, toSync1, recovered))"
  obtains "\<not> recovered" "j1 = j" "w' = w"
  | "recovered" "saveSyncState en (fst (FinalizeOperation (en_ord en (moment w) j) j (ss_OperationID j)
        (en_now en (moment w)))) w = ((j1, w'), None)"
  using assms unfolding sync_recover_def by (auto split: if_splits option.splits prod.splits)

lemma sync_recover_requested:
  assumes "sync_recover en s (Some j) toSync w = (w', Inr (Some j1, toSync1, recovered))"
  shows "requested w w' []" and "recovered \<Longrightarrow> sw_disk w' = Some j1"
  by (rule sync_recover_cases [OF assms]; (simp add: requested_refl requested_save saveSyncState_ok)?)+

lemma sync_recover_fresh:
  assumes "env_ok en" and "journal_inv j" and "fresh_op op j"
    and "sync_recover en s (Some j) toSync w = (w', Inr (Some j1, toSync1, recovered))"
  shows "fresh_op op j1"
proof (rule sync_recover_cases [OF assms(4)])
  let ?f = "fst (FinalizeOperation (en_ord en (moment w) j) j (ss_OperationID j) (en_now en (moment w)))"
  assume "saveSyncState en ?f w = ((j1, w'), None)"
  then have "j1 = stamp_SyncState (en_hash en) (en_now en (moment w)) ?f" by (rule saveSyncState_ok)
  moreover have "fresh_op op ?f"
    by (rule finalize_keeps_fresh [OF assms(2) env_ok_visits [OF assms(1,2)] assms(3)])
  ultimately show ?thesis by (simp add: fresh_op_def)
qed (use assms(3) in simp)

lemma idle_delivery:
  assumes "sync_deliver en s (Some j) [] recovered [] w = (w', None)"
    and "recovered \<Longrightarrow> sw_disk w = Some j"
  shows "(\<exists>j'. sw_disk w' = Some j' \<and> ss_Hashes j' = ss_Hashes j) \<and> requested w w' []"
proof -
  let ?w1 = "request [] w"
  have "(recovered \<and> w' = ?w1) \<or> (\<not> recovered \<and> (\<exists>b. saveSyncState en j ?w1 = ((b, w'), None)))"
    using assms(1) by (auto simp: sync_deliver_def sync_batch_def Let_def split: option.splits if_splits prod.splits)
  then show ?thesis
    using assms(2) requested_request [of w "[]"] requested_trans [OF requested_request [of w "[]"] requested_save]
      saveSyncState_ok by fastforce
qed

text \<open>
  A secret is left out only by the no-overwrite filter, or when the journal that was there before the run
  has its hash, as written or as acknowledged in the operation that recovery finished.
\<close>

definition settled :: "hash_ctx \<Rightarrow> sync_world \<Rightarrow> Secret \<Rightarrow> bool" where
  "settled hc w x \<longleftrightarrow> (\<exists>d. sw_disk w = Some d \<and>
     (ss_Hashes d (sec_Key x) = Some (hashSecret hc (sec_Value x))
      \<or> (\<exists>oc. ss_Outcomes d (sec_Key x) = Some oc \<and> ko_Status oc = OutcomeSucceeded
            \<and> ko_AcknowledgedHash oc = hashSecret hc (sec_Value x))))"

lemma FilterUnchanged_dropped:
  assumes "hash_ok hc" and "x \<in> set secs" and "x \<notin> set (FilterUnchanged hc j secs)"
  shows "ss_Hashes j (sec_Key x) = Some (hashSecret hc (sec_Value x))"
proof -
  have "hashSecret hc (sec_Value x) \<noteq> []"
    using hashSecret_valid [OF assms(1), of "sec_Value x"] by (auto simp: validAcknowledgedHash_def)
  with assms(2,3) show ?thesis by (auto simp: FilterUnchanged_def split: option.splits)
qed

lemma loaded_hash:
  "LoadSyncState hc ord target ident disk = Inr j \<Longrightarrow> ss_Hashes j k = Some h \<Longrightarrow>
     \<exists>d. disk = Some d \<and> ss_Hashes d k = Some h"
  "LoadSyncState hc ord target ident disk = Inr j \<Longrightarrow> ss_Outcomes j k = Some oc \<Longrightarrow>
     \<exists>d. disk = Some d \<and> ss_Outcomes d k = Some oc"
  by (auto simp: LoadSyncState_def Let_def empty_SyncState_def reset_hash_domain_def
      split: option.splits if_splits)

lemma finalize_hash:
  assumes "journal_inv s" and "visits ord s" and "ss_Hashes (fst (FinalizeOperation ord s op t)) k = Some h"
  shows "ss_Hashes s k = Some h
    \<or> (\<exists>oc. ss_Outcomes s k = Some oc \<and> ko_Status oc = OutcomeSucceeded \<and> ko_AcknowledgedHash oc = h)"
proof -
  have "ss_Hashes s k = Some h \<or> ss_Hashes (succeeded_state op t s) k = Some h"
    using assms(3) unfolding FinalizeOperation_spec [OF assms(1,2)]
    by (auto simp: finalize_spec_def split: option.splits if_splits)
  then show ?thesis by (auto simp: succeeded_state_def promote_all_def promotes_def split: option.splits if_splits)
qed

lemma sync_prepare_dropped:
  assumes "sync_prepare en opt s tc stateID secrets w = Inr (st, toSync)" and "env_ok en"
    and "x \<in> set secrets" and "x \<notin> set toSync" and "\<not> no_overwrite opt tc"
  shows "settled (en_hash en) w x"
proof (rule sync_prepare_cases [OF assms(1)])
  fix mid
  assume "no_overwrite opt tc \<and> (\<exists>n. FilterAbsent (en_upper en) s (en_existing en) mid = Inr (toSync, n))
      \<or> \<not> no_overwrite opt tc \<and> toSync = mid"
    and m: "(\<not> uses_journal opt s tc \<and> st = None \<and> mid = secrets) \<or>
     (uses_journal opt s tc \<and> (\<exists>j ord. LoadSyncState (en_hash en) ord (syncer_Name s) stateID (sw_disk w) = Inr j
        \<and> st = Some j \<and> mid = (if so_skipUnchanged opt \<and> \<not> so_rotate opt \<and> \<not> no_overwrite opt tc
             then FilterUnchanged (en_hash en) j secrets else secrets)))"
  then have "mid = toSync" using assms(5) by blast
  with m assms(3,4) obtain j ord
    where l: "LoadSyncState (en_hash en) ord (syncer_Name s) stateID (sw_disk w) = Inr j"
      and d: "x \<notin> set (FilterUnchanged (en_hash en) j secrets)" by (auto split: if_splits)
  have "hash_ok (en_hash en)" using assms(2) by (simp add: env_ok_def)
  from loaded_hash(1) [OF l FilterUnchanged_dropped [OF this assms(3) d]] show ?thesis
    unfolding settled_def by blast
qed

lemma sync_recover_dropped:
  assumes "sync_recover en s (Some j0) toSync w = (w1, Inr (Some j, toSync1, rv))" and "env_ok en"
    and "journal_inv j0" and "x \<in> set toSync" and "x \<notin> set toSync1"
    and "LoadSyncState (en_hash en) ord target ident (sw_disk w) = Inr j0"
  shows "settled (en_hash en) w x"
proof (rule sync_recover_cases [OF assms(1)])
  let ?h = "hashSecret (en_hash en) (sec_Value x)"
  assume "saveSyncState en (fst (FinalizeOperation (en_ord en (moment w) j0) j0 (ss_OperationID j0)
        (en_now en (moment w)))) w = ((j, w1), None)"
  note save = saveSyncState_ok(1) [OF this]
  have "toSync1 = FilterUnchanged (en_hash en) j toSync"
    using assms(1,4,5) unfolding sync_recover_def by (auto split: if_splits option.splits prod.splits)
  moreover have "hash_ok (en_hash en)" using assms(2) by (simp add: env_ok_def)
  ultimately have "ss_Hashes j (sec_Key x) = Some ?h" using FilterUnchanged_dropped [OF _ assms(4)] assms(5) by blast
  with finalize_hash [OF assms(3) env_ok_visits [OF assms(2,3)]] save
  have "ss_Hashes j0 (sec_Key x) = Some ?h \<or> (\<exists>oc. ss_Outcomes j0 (sec_Key x) = Some oc
      \<and> ko_Status oc = OutcomeSucceeded \<and> ko_AcknowledgedHash oc = ?h)" by simp
  then show ?thesis using loaded_hash [OF assms(6)] unfolding settled_def by metis
next
  assume "\<not> rv" "j = j0" "w1 = w"
  then have "toSync1 = toSync" using assms(1) by (auto simp: sync_recover_def split: if_splits option.splits prod.splits)
  with assms(4,5) show ?thesis by simp
qed

lemma loaded_fresh:
  assumes "LoadSyncState hc ord target ident disk = Inr j" and "op \<noteq> []"
    and "\<forall>d. disk = Some d \<longrightarrow> fresh_op op d"
  shows "fresh_op op j"
  using assms
  by (auto simp: LoadSyncState_def Let_def empty_SyncState_def reset_hash_domain_def fresh_op_def
      split: option.splits if_splits)

lemma sync_open_operationID:
  "sync_open en opt s tc j secs w = (w', Inr (j2, op)) \<Longrightarrow> en_operationID en = Some op"
  by (auto simp: sync_open_def split: if_splits option.splits prod.splits)

lemma sync_open_requested:
  assumes "sync_open en opt s tc j toSync w = (w', Inr (j2, op))"
  shows "requested w w' []"
  using sync_open_begun [OF assms] requested_save by metis

text \<open>The stages of a run that got past its guards and ends well.\<close>

lemma sync_target_success_cases:
  assumes "uses_journal opt s tc" and "\<not> so_dryRun opt"
    and "sync_target en opt s tc stateID secrets w = (w', None)"
  obtains j0 toSync w1 j toSync1 rv where
    "sync_prepare en opt s tc stateID secrets w = Inr (Some j0, toSync)"
    "sync_recover en s (Some j0) toSync w = (w1, Inr (Some j, toSync1, rv))"
    "(toSync1 = [] \<and> (\<exists>w2. sync_deliver en s (Some j) [] rv [] w1 = (w2, None)
         \<and> sync_notify en opt [] w2 = (w', None)))
     \<or> (toSync1 \<noteq> [] \<and> (\<exists>w2 j2 op w3. sync_open en opt s tc j toSync1 w1 = (w2, Inr (j2, op))
         \<and> sync_deliver en s (Some j2) op False toSync1 w2 = (w3, None)
         \<and> sync_notify en opt toSync1 w3 = (w', None)))"
proof -
  obtain st toSync where p: "sync_prepare en opt s tc stateID secrets w = Inr (st, toSync)"
    using assms(3) by (auto simp: sync_target_def split: sum.splits)
  obtain j0 where j0: "st = Some j0" using sync_prepare_Inr(2) [OF p] assms(1) by blast
  obtain w1 st1 toSync1 rv where r: "sync_recover en s st toSync w = (w1, Inr (st1, toSync1, rv))"
    using assms(2,3) p by (auto simp: sync_target_def split: sum.splits prod.splits)
  obtain j where j: "st1 = Some j" using sync_recover_Inr(2) [OF r] j0 by blast
  have t: "(if toSync1 = [] then and_then (sync_deliver en s (Some j) [] rv toSync1 w1) (sync_notify en opt toSync1)
     else (case sync_open en opt s tc j toSync1 w1 of (w2, Inl f) \<Rightarrow> (w2, Some f)
        | (w2, Inr (j2, op)) \<Rightarrow> and_then (sync_deliver en s (Some j2) op False toSync1 w2)
              (sync_notify en opt toSync1))) = (w', None)"
    using assms(2,3) p r j by (simp add: sync_target_def)
  show thesis
    by (rule that [OF p [unfolded j0] r [unfolded j0 j]])
      (use t in \<open>auto simp: and_then_eq_None split: if_splits prod.splits sum.splits\<close>)
qed

lemma success_recorded:
  assumes "env_ok en" and "journal_disk w" and "uses_journal opt s tc" and "\<not> so_dryRun opt"
    and "distinct (map sec_Key secrets)"
    and "\<forall>op d. en_operationID en = Some op \<longrightarrow> sw_disk w = Some d \<longrightarrow> fresh_op op d"
    and "sync_target en opt s tc stateID secrets w = (w', None)"
  shows "\<exists>j toSync. sw_disk w' = Some j \<and> picks toSync secrets \<and> requested w w' (map sec_Key toSync)
    \<and> recorded (en_hash en) j toSync \<and> (toSync \<noteq> [] \<longrightarrow> ss_Phase j = OperationPhaseSucceeded)
    \<and> (\<forall>x \<in> set secrets. x \<in> set toSync \<or> no_overwrite opt tc \<or> settled (en_hash en) w x)"
proof (rule sync_target_success_cases [OF assms(3,4,7)])
  fix j0 toSync w1 j toSync1 rv
  assume p: "sync_prepare en opt s tc stateID secrets w = Inr (Some j0, toSync)"
    and r: "sync_recover en s (Some j0) toSync w = (w1, Inr (Some j, toSync1, rv))"
    and c: "(toSync1 = [] \<and> (\<exists>w2. sync_deliver en s (Some j) [] rv [] w1 = (w2, None)
         \<and> sync_notify en opt [] w2 = (w', None)))
     \<or> (toSync1 \<noteq> [] \<and> (\<exists>w2 j2 op w3. sync_open en opt s tc j toSync1 w1 = (w2, Inr (j2, op))
         \<and> sync_deliver en s (Some j2) op False toSync1 w2 = (w3, None)
         \<and> sync_notify en opt toSync1 w3 = (w', None)))"
  note prep = sync_prepare_Inr [OF p]
  have inv0: "journal_inv j0" using sync_prepare_inv [OF p assms(2)] .
  have inv: "journal_inv j" by (rule sync_recover_inv [OF assms(1) inv0 r])
  have pk: "picks toSync1 secrets" using sync_recover_Inr(1) [OF r] prep(1) by (rule picks_trans)
  note req = sync_recover_requested [OF r]
  have note_req: "sync_notify en opt xs w2 = (w', None) \<Longrightarrow> requested w2 w' [] \<and> sw_disk w' = sw_disk w2" for xs w2
    using requested_notify [of w2 None en opt xs w' None] by simp
  obtain ord where l: "LoadSyncState (en_hash en) ord (syncer_Name s) stateID (sw_disk w) = Inr j0"
    using prep(3) by blast
  have left: "\<forall>x \<in> set secrets. x \<in> set toSync1 \<or> no_overwrite opt tc \<or> settled (en_hash en) w x"
    using sync_prepare_dropped [OF p assms(1)] sync_recover_dropped [OF r assms(1) inv0 _ _ l] by blast
  from c show ?thesis
  proof (elim disjE conjE exE)
    fix w2
    assume e: "toSync1 = []" and d: "sync_deliver en s (Some j) [] rv [] w1 = (w2, None)"
      and n: "sync_notify en opt [] w2 = (w', None)"
    obtain j' where "sw_disk w2 = Some j'" "requested w1 w2 []"
      using idle_delivery [OF d req(2)] by auto
    moreover have "requested w w' []"
      using requested_trans [OF requested_trans [OF req(1) \<open>requested w1 w2 []\<close>]] note_req [OF n] by fastforce
    ultimately show ?thesis using note_req [OF n] pk e left
      by (intro exI [of _ j'] exI [of _ "[]"]) (simp add: recorded_def)
  next
    fix w2 j2 op w3
    assume ne: "toSync1 \<noteq> []" and o: "sync_open en opt s tc j toSync1 w1 = (w2, Inr (j2, op))"
      and d: "sync_deliver en s (Some j2) op False toSync1 w2 = (w3, None)"
      and n: "sync_notify en opt toSync1 w3 = (w', None)"
    have op: "en_operationID en = Some op" "op \<noteq> []"
      using sync_open_operationID [OF o] sync_open_begun [OF o] by metis+
    have "fresh_op op j0" by (rule loaded_fresh [OF l op(2)]) (use assms(6) op(1) in blast)
    then have fr: "fresh_op op j" by (rule sync_recover_fresh [OF assms(1) inv0 _ r])
    note oi = sync_open_inv [OF o assms(1) inv fr]
    have "finite (dom (ss_Outcomes j))" using inv by (simp add: journal_inv_def)
    note oo = sync_open_opened [OF o this]
    from delivered [OF assms(1) oi(1) oo(1,2) picks_distinct [OF pk assms(5)] ne oi(2) d] obtain j'
      where j': "sw_disk w3 = Some j'" "ss_Phase j' = OperationPhaseSucceeded"
        "recorded (en_hash en) j' toSync1" "requested w2 w3 (map sec_Key toSync1)" by blast
    have "requested w w' (map sec_Key toSync1)"
      using requested_trans [OF requested_trans [OF requested_trans [OF req(1) sync_open_requested [OF o]] j'(4)]]
        note_req [OF n] by fastforce
    then show ?thesis using left j' note_req [OF n] pk by (intro exI [of _ j'] exI [of _ toSync1]) simp
  qed
qed

subsection \<open>A failing key\<close>

text \<open>The keys written and acknowledged, the key the provider refused, and the rest.\<close>

definition failed_at :: "hash_ctx \<Rightarrow> SyncState \<Rightarrow> Secret list \<Rightarrow> Secret \<Rightarrow> Secret list \<Rightarrow> bool" where
  "failed_at hc j dn x post \<longleftrightarrow> ss_Phase j = OperationPhaseNeedsReconciliation \<and> recorded hc j dn
     \<and> key_status j (sec_Key x) OutcomeNeedsReconciliation
     \<and> (\<forall>y \<in> set post. key_status j (sec_Key y) OutcomePending)"

lemma per_key_failure:
  assumes "opened (en_hash en) op (map sec_Key secs) j" and "sw_disk w = Some j"
    and "distinct (map sec_Key secs)"
    and "syncPerKeyOperation en s op secs j w = ((j', w'), Some (FailProvider err))"
  shows "\<exists>dn x post. secs = dn @ x # post \<and> sw_disk w' = Some j' \<and> failed_at (en_hash en) j' dn x post
    \<and> requested w w' (map sec_Key (dn @ [x]))"
proof -
  have l: "syncPerKeyLoop en s op secs j w = ((j', w'), Some (FailProvider err))"
    using assms(4) by (auto simp: syncPerKeyOperation_def split: option.splits prod.splits)
  from syncPerKeyLoop_account [OF assms(1-3) l] obtain dn
    where d: "sw_disk w' = Some j'" "per_key_account (en_hash en) j secs j' (Some (FailProvider err)) dn"
      "requested w w' (map sec_Key (take (Suc (length dn)) secs))" by auto
  then obtain x post where x: "secs = dn @ x # post" by (auto simp: per_key_account_def)
  with d(2) have "failed_at (en_hash en) j' dn x post"
    by (auto simp: per_key_account_def failed_at_def recorded_def)
  with d(1,3) x show ?thesis by auto
qed

lemma sync_target_failure_cases:
  assumes "uses_journal opt s tc" and "sync_target en opt s tc stateID secrets w = (w', Some (FailProvider err))"
  obtains j0 toSync w1 j toSync1 rv where
    "sync_prepare en opt s tc stateID secrets w = Inr (Some j0, toSync)"
    "sync_recover en s (Some j0) toSync w = (w1, Inr (Some j, toSync1, rv))"
    "(toSync1 = [] \<and> sync_deliver en s (Some j) [] rv [] w1 = (w', Some (FailProvider err)))
     \<or> (toSync1 \<noteq> [] \<and> (\<exists>w2 j2 op. sync_open en opt s tc j toSync1 w1 = (w2, Inr (j2, op))
         \<and> sync_deliver en s (Some j2) op False toSync1 w2 = (w', Some (FailProvider err))))"
proof -
  have "sync_prepare en opt s tc stateID secrets w \<noteq> Inl (FailProvider err)"
    by (auto simp: sync_prepare_def Let_def split: option.splits if_splits sum.splits prod.splits)
  then obtain st toSync where p: "sync_prepare en opt s tc stateID secrets w = Inr (st, toSync)"
    using assms(2) by (auto simp: sync_target_def split: sum.splits)
  obtain j0 where j0: "st = Some j0" using sync_prepare_Inr(2) [OF p] assms(1) by blast
  have "snd (sync_recover en s st toSync w) \<noteq> Inl (FailProvider err)"
    by (auto simp: sync_recover_def split: option.splits if_splits prod.splits)
  then obtain w1 st1 toSync1 rv where r: "sync_recover en s st toSync w = (w1, Inr (st1, toSync1, rv))"
    using assms(2) p by (auto simp: sync_target_def split: sum.splits prod.splits if_splits)
  obtain j where j: "st1 = Some j" using sync_recover_Inr(2) [OF r] j0 by blast
  have nf: "snd (sync_notify en opt xs w2) \<noteq> Some (FailProvider err)" for xs w2
    by (simp add: sync_notify_def)
  have an: "fst a = w' \<and> snd a = Some (FailProvider err)"
    if "and_then a (sync_notify en opt xs) = (w', Some (FailProvider err))" for a xs
    using that nf by (cases a; cases "snd a") (auto split: option.splits, metis snd_conv)
  have no: "snd (sync_open en opt s tc j toSync1 w1) \<noteq> Inl (FailProvider err)"
    by (auto simp: sync_open_def split: option.splits if_splits prod.splits)
  have t: "(if toSync1 = [] then and_then (sync_deliver en s (Some j) [] rv toSync1 w1) (sync_notify en opt toSync1)
     else (case sync_open en opt s tc j toSync1 w1 of (w2, Inl f) \<Rightarrow> (w2, Some f)
        | (w2, Inr (j2, op)) \<Rightarrow> and_then (sync_deliver en s (Some j2) op False toSync1 w2)
              (sync_notify en opt toSync1))) = (w', Some (FailProvider err))"
    using assms(2) p r j by (auto simp: sync_target_def split: if_splits)
  show thesis
  proof (rule that [OF p [unfolded j0] r [unfolded j0 j]], cases "toSync1 = []")
    case True
    with t an [of "sync_deliver en s (Some j) [] rv toSync1 w1" toSync1]
    show "(toSync1 = [] \<and> sync_deliver en s (Some j) [] rv [] w1 = (w', Some (FailProvider err)))
     \<or> (toSync1 \<noteq> [] \<and> (\<exists>w2 j2 op. sync_open en opt s tc j toSync1 w1 = (w2, Inr (j2, op))
         \<and> sync_deliver en s (Some j2) op False toSync1 w2 = (w', Some (FailProvider err))))"
      by (simp add: prod_eq_iff)
  next
    case False
    then obtain w2 j2 op where o: "sync_open en opt s tc j toSync1 w1 = (w2, Inr (j2, op))"
      using t no by (auto split: prod.splits sum.splits)
    with t False an [of "sync_deliver en s (Some j2) op False toSync1 w2" toSync1]
    show "(toSync1 = [] \<and> sync_deliver en s (Some j) [] rv [] w1 = (w', Some (FailProvider err)))
     \<or> (toSync1 \<noteq> [] \<and> (\<exists>w2 j2 op. sync_open en opt s tc j toSync1 w1 = (w2, Inr (j2, op))
         \<and> sync_deliver en s (Some j2) op False toSync1 w2 = (w', Some (FailProvider err))))"
      by (simp add: prod_eq_iff)
  qed
qed

lemma failure_accounted:
  assumes "env_ok en" and "journal_disk w" and "uses_journal opt s tc" and "is_PerKeySyncer s"
    and "distinct (map sec_Key secrets)"
    and "sync_target en opt s tc stateID secrets w = (w', Some (FailProvider err))"
  shows "requested w w' [] \<or> (\<exists>j dn x post. picks (dn @ x # post) secrets \<and> sw_disk w' = Some j
    \<and> failed_at (en_hash en) j dn x post \<and> requested w w' (map sec_Key (dn @ [x])))"
proof (rule sync_target_failure_cases [OF assms(3,6)])
  fix j0 toSync w1 j toSync1 rv
  assume p: "sync_prepare en opt s tc stateID secrets w = Inr (Some j0, toSync)"
    and r: "sync_recover en s (Some j0) toSync w = (w1, Inr (Some j, toSync1, rv))"
    and c: "(toSync1 = [] \<and> sync_deliver en s (Some j) [] rv [] w1 = (w', Some (FailProvider err)))
     \<or> (toSync1 \<noteq> [] \<and> (\<exists>w2 j2 op. sync_open en opt s tc j toSync1 w1 = (w2, Inr (j2, op))
         \<and> sync_deliver en s (Some j2) op False toSync1 w2 = (w', Some (FailProvider err))))"
  note req = sync_recover_requested(1) [OF r]
  have pk: "picks toSync1 secrets" using sync_recover_Inr(1) [OF r] sync_prepare_Inr(1) [OF p] by (rule picks_trans)
  have inv: "journal_inv j" by (rule sync_recover_inv [OF assms(1) sync_prepare_inv [OF p assms(2)] r])
  then have fin: "finite (dom (ss_Outcomes j))" by (simp add: journal_inv_def)
  from c show ?thesis
  proof (elim disjE conjE exE)
    assume "sync_deliver en s (Some j) [] rv [] w1 = (w', Some (FailProvider err))"
    then have "w' = request [] w1"
      by (auto simp: sync_deliver_def sync_batch_def Let_def split: option.splits if_splits prod.splits)
    then show ?thesis using requested_trans [OF req requested_request [of w1 "[]"]] by simp
  next
    fix w2 j2 op
    assume o: "sync_open en opt s tc j toSync1 w1 = (w2, Inr (j2, op))"
      and d: "sync_deliver en s (Some j2) op False toSync1 w2 = (w', Some (FailProvider err))"
    note oo = sync_open_opened [OF o fin]
    have "op \<noteq> []" using oo(1) by (simp add: opened_def)
    with d assms(4) obtain j' where
      "syncPerKeyOperation en s op toSync1 j2 w2 = ((j', w'), Some (FailProvider err))"
      by (auto simp: sync_deliver_def split: prod.splits)
    from per_key_failure [OF oo(1,2) picks_distinct [OF pk assms(5)] this] obtain dn x post where
      f: "toSync1 = dn @ x # post" "sw_disk w' = Some j'" "failed_at (en_hash en) j' dn x post"
        "requested w2 w' (map sec_Key (dn @ [x]))" by blast
    have "requested w w' (map sec_Key (dn @ [x]))"
      using requested_trans [OF requested_trans [OF req sync_open_requested [OF o]] f(4)] by simp
    with f pk show ?thesis by blast
  qed
qed

subsection \<open>A healthy run\<close>

text \<open>
  The disk works, the lock is free, the provider takes every key, and the id is a new one.
\<close>

definition healthy :: "sync_env \<Rightarrow> Syncer \<Rightarrow> Secret list \<Rightarrow> bool" where
  "healthy en s secrets \<longleftrightarrow> (\<forall>n. en_io en n = SaveOK) \<and> en_lockOk en \<and> en_notifyOk en
     \<and> (\<exists>op. en_operationID en = Some op \<and> TrimSpace op \<noteq> []) \<and> length (en_source en) \<le> 512
     \<and> (\<forall>n. \<forall>x \<in> set secrets. snd (target_SyncKey (en_http en n) s (Some x)) = None)"

text \<open>No journal, or one whose last operation is finished and whose ids are older.\<close>

definition clean_journal :: "sync_env \<Rightarrow> string \<Rightarrow> string \<Rightarrow> sync_world \<Rightarrow> bool" where
  "clean_journal en target stateID w \<longleftrightarrow> (\<forall>d. sw_disk w = Some d \<longrightarrow> journal_inv d
     \<and> ss_Target d = target \<and> ss_ID d = stateID \<and> ss_Phase d = OperationPhaseSucceeded
     \<and> (\<forall>op. en_operationID en = Some op \<longrightarrow> fresh_op op d))"

lemma clean_prepare:
  assumes "env_ok en" and "clean_journal en (syncer_Name s) stateID w" and "en_lockOk en"
    and "journalByDefault s" and "\<not> no_overwrite opt tc" and "\<not> so_skipUnchanged opt"
    and "ValidateDestinationMapping (syncer_Name s) (map Some secrets) = None"
  obtains j where "sync_prepare en opt s tc stateID secrets w = Inr (Some j, secrets)" "journal_inv j"
    "ss_OperationID j = [] \<or> ss_Phase j = OperationPhaseSucceeded"
proof (cases "sw_disk w")
  case None
  show thesis
    by (rule that [of "empty_SyncState (syncer_Name s) stateID"])
      (use assms None in \<open>simp_all add: sync_prepare_def uses_journal_def LoadSyncState_def empty_SyncState_inv,
        simp add: empty_SyncState_def\<close>)
next
  case (Some d)
  let ?j = "reset_hash_domain (en_hash en) d"
  have d: "journal_inv d" "ss_Target d = syncer_Name s" "ss_ID d = stateID" "ss_Phase d = OperationPhaseSucceeded"
    using assms(2) Some by (simp_all add: clean_journal_def)
  have inv: "journal_inv ?j" using d(1) by (rule reset_hash_domain_inv)
  show thesis
  proof (rule that [OF _ inv])
    show "sync_prepare en opt s tc stateID secrets w = Inr (Some ?j, secrets)"
      using assms(3-7) Some d journal_inv_saveable [OF inv env_ok_visits [OF assms(1) inv]]
      by (simp add: sync_prepare_def uses_journal_def LoadSyncState_def Let_def)
    show "ss_OperationID ?j = [] \<or> ss_Phase ?j = OperationPhaseSucceeded"
      using d(4) by (simp add: reset_hash_domain_def)
  qed
qed

lemma settled_idle:
  assumes "ss_OperationID j = [] \<or> ss_Phase j = OperationPhaseSucceeded"
  shows "\<not> RequiresReconciliation ord j" and "\<not> syncStateNeedsRecovery ord j"
    and "\<not> hasRetainedMetadataOperation ord j"
  using assms by (auto simp: RequiresReconciliation_def syncStateNeedsRecovery_def hasRetainedMetadataOperation_def)

lemma sync_open_works:
  assumes "env_ok en" and "healthy en s accepted" and "journal_inv j"
    and "ss_OperationID j = [] \<or> ss_Phase j = OperationPhaseSucceeded"
    and "\<forall>op. en_operationID en = Some op \<longrightarrow> fresh_op op j"
  obtains w2 j2 op where "sync_open en opt s tc j secs w = (w2, Inr (j2, op))"
    "en_operationID en = Some op" "fresh_op op j"
proof -
  obtain op where op: "en_operationID en = Some op" "TrimSpace op \<noteq> []"
    and src: "\<not> 512 < length (en_source en)" and io: "en_io en (moment w) = SaveOK"
    using assms(2) by (auto simp: healthy_def)
  have fr: "fresh_op op j" using assms(5) op(1) by blast
  let ?ord = "en_ord en (moment w) j" and ?t = "en_now en (moment w)"
  let ?j = "\<lambda>i. open_operation (retire_pending ?ord j ?t) op i (map Some secs) ?t None"
  note idle = settled_idle [OF assms(4)]
  have sv: "snd (saveSyncState en (describe en s tc secs (?j i)) w) = None" for i
    by (rule saveSyncState_works [OF assms(1) open_described_inv [OF assms(1,3) fr op(2) idle(3) src] io])
  have "beginOperation ?ord j op i (map Some secs) ?t None = (?j i, None)" for i
    using idle(3) op(2) by (auto simp: beginOperation_def)
  then have "\<exists>w2 j2. sync_open en opt s tc j secs w = (w2, Inr (j2, op))"
    using sv [of "[]"] sv [of OperationIntentRotate] idle(1) op(1)
    by (auto simp: sync_open_def BeginOperation_def BeginOperationWithIntent_def split: prod.splits)
  then show thesis using that op(1) fr by blast
qed

lemma per_key_works:
  assumes "env_ok en" and "healthy en s secrets" and "journal_inv j" and "opened (en_hash en) op (map sec_Key secrets) j"
    and "sw_disk w = Some j" and "distinct (map sec_Key secrets)" and "secrets \<noteq> []"
    and "\<forall>x \<in> set secrets. TrimSpace (sec_Key x) \<noteq> []"
    and "\<forall>k. owned_by op j k \<longrightarrow> k \<in> sec_Key ` set secrets"
  shows "snd (syncPerKeyOperation en s op secrets j w) = None"
proof -
  have io: "\<forall>n. en_io en n = SaveOK" and acc: "\<forall>n. \<forall>x \<in> set secrets. snd (target_SyncKey (en_http en n) s (Some x)) = None"
    using assms(2) by (auto simp: healthy_def)
  obtain s1 w1 where l: "syncPerKeyLoop en s op secrets j w = ((s1, w1), None)"
    using syncPerKeyLoop_works [OF assms(4,5,6,1,3) io assms(8) acc] by (metis prod.collapse)
  from syncPerKeyLoop_account [OF assms(4,5,6) l] obtain dn where
    dn: "per_key_account (en_hash en) j secrets s1 None dn" by auto
  have o: "ss_OperationID j = op" "op \<noteq> []" "ss_Phase j = OperationPhasePending" and hok: "hash_ok (en_hash en)"
    using assms(1,4) by (simp_all add: opened_def env_ok_def)
  have inv: "journal_inv s1" by (rule syncPerKeyLoop_inv [OF assms(4-6) l hok assms(3)])
  obtain s2 e where fin: "FinalizeOperation (en_ord en (moment w1) s1) s1 op (en_now en (moment w1)) = (s2, e)"
    by fastforce
  note a = account_finalized [OF dn assms(7) o assms(9) inv env_ok_visits [OF assms(1) inv] fin]
  have "journal_inv s2" using FinalizeOperation_inv [OF inv env_ok_visits [OF assms(1) inv]] fin by (metis fst_conv)
  from saveSyncState_works [OF assms(1) this] io have "snd (saveSyncState en s2 w1) = None" by blast
  with l fin a(1) show ?thesis
    by (auto simp: syncPerKeyOperation_def finalize_and_save_def split: prod.splits)
qed

lemma healthy_run:
  assumes "env_ok en" and "healthy en s secrets" and "clean_journal en (syncer_Name s) stateID w"
    and "is_PerKeySyncer s" and "distinct (map sec_Key secrets)" and "secrets \<noteq> []"
    and "\<forall>x \<in> set secrets. TrimSpace (sec_Key x) \<noteq> []"
    and "ValidateDestinationMapping (syncer_Name s) (map Some secrets) = None"
    and "\<not> no_overwrite opt tc" and "\<not> so_skipUnchanged opt"
  shows "snd (sync_target en opt s tc stateID secrets w) = None"
proof -
  have jd: "journalByDefault s" using assms(4) by (cases s) (simp_all add: journalByDefault_def)
  have h: "en_lockOk en" "en_notifyOk en" using assms(2) by (auto simp: healthy_def)
  show ?thesis
  proof (cases "so_dryRun opt")
    case False
    obtain j where p: "sync_prepare en opt s tc stateID secrets w = Inr (Some j, secrets)" and inv: "journal_inv j"
      and idle: "ss_OperationID j = [] \<or> ss_Phase j = OperationPhaseSucceeded"
      by (rule clean_prepare [OF assms(1,3) h(1) jd assms(9,10,8)])
    obtain ord where l: "LoadSyncState (en_hash en) ord (syncer_Name s) stateID (sw_disk w) = Inr j"
      using sync_prepare_Inr(3) [OF p] by blast
    have "\<forall>op. en_operationID en = Some op \<longrightarrow> fresh_op op j"
    proof (intro allI impI)
      fix op
      assume op: "en_operationID en = Some op"
      then have "op \<noteq> []" using assms(2) TrimSpace_Nil by (auto simp: healthy_def)
      then show "fresh_op op j" by (rule loaded_fresh [OF l]) (use assms(3) op in \<open>auto simp: clean_journal_def\<close>)
    qed
    from sync_open_works [OF assms(1,2) inv idle this] obtain w2 j2 op where
      o: "sync_open en opt s tc j secrets w = (w2, Inr (j2, op))" and fr: "fresh_op op j" by metis
    note oi = sync_open_inv [OF o assms(1) inv fr]
    have "finite (dom (ss_Outcomes j))" using inv by (simp add: journal_inv_def)
    note oo = sync_open_opened [OF o this]
    have "op \<noteq> []" using oo(1) by (simp add: opened_def)
    then have "snd (sync_deliver en s (Some j2) op False secrets w2) = None"
      using per_key_works [OF assms(1,2) oi(1) oo(1,2) assms(5-7) oi(2)] assms(4)
      by (auto simp: sync_deliver_def split: prod.splits)
    then obtain w3 where "sync_deliver en s (Some j2) op False secrets w2 = (w3, None)" by (metis prod.collapse)
    then show ?thesis
      using p o False assms(6) h(2) settled_idle [OF idle] jd
      by (simp add: sync_target_def sync_recover_def sync_notify_def)
  next
    case True
    obtain j where "sync_prepare en opt s tc stateID secrets w = Inr (Some j, secrets)"
      using clean_prepare [OF assms(1,3) h(1) jd assms(9,10,8)] by metis
    with True show ?thesis by (simp add: sync_target_def)
  qed
qed

subsection \<open>Properties\<close>

lemma crash_refused:
  assumes "env_ok en" and "journal_disk w" and "journalByDefault s"
    and "distinct (map sec_Key secrets)"
    and "sync_target en opt s tc stateID secrets w = (w', f)"
    and "EvRequest keys disk \<in> set (drop (length (sw_trace w)) (sw_trace w'))" and "keys \<noteq> []"
    and "env_ok en'" and "currentHashDomain (en_hash en') = currentHashDomain (en_hash en)"
    and "sync_target en' opt' s tc' stateID' secrets' \<lparr>sw_disk = disk, sw_trace = []\<rparr> = (w'', f')"
  shows "(\<exists>j. disk = Some j \<and> (\<forall>k \<in> set keys. pending_key j k))
    \<and> w'' = \<lparr>sw_disk = disk, sw_trace = []\<rparr> \<and> (so_dryRun opt' \<or> f' \<noteq> None)"
proof -
  have "uses_journal opt s tc" using assms(3) by (simp add: uses_journal_def)
  from sync_target_guarded [OF assms(1,2) this assms(4,5)]
  obtain evs where "sw_trace w' = sw_trace w @ evs" "list_all (guarded (en_hash en)) evs"
    by (auto simp: extends_def)
  then have "guarded (en_hash en) (EvRequest keys disk)"
    using assms(6) unfolding list_all_iff by (simp del: guarded.simps)
  then obtain j where j: "disk = Some j" "opened (en_hash en) (ss_OperationID j) keys j"
    using assms(7) by auto
  then obtain k where "opened (en_hash en) (ss_OperationID j) [k] j" using opened_nonempty assms(7) by blast
  then have "opened (en_hash en') (ss_OperationID j) [k] j" using assms(9) by (simp add: opened_def)
  with sync_target_refuses [OF assms(8,3) this _ assms(10)] j show ?thesis by (auto simp: opened_def)
qed

text \<open>
  C1: a crash at any request is caught. Whenever \<open>skret sync\<close> sends a request to a provider, the
  journal on disk already lists the keys of that request as pending; and a later run that
  finds this journal, whatever its flags and secrets, sends nothing, changes nothing, and fails
  unless it is a dry run. The hash key must still be the same: a journal written under another
  one is discarded.
\<close>

theorem crash_requires_reconciliation:
  assumes "env_ok en" and "journal_disk w" and "journalByDefault s"
    and "distinct (map sec_Key secrets)"
    and "sync_target en opt s tc stateID secrets w = (w', f)"
    and "EvRequest keys disk \<in> set (drop (length (sw_trace w)) (sw_trace w'))" and "keys \<noteq> []"
    and "env_ok en'" and "currentHashDomain (en_hash en') = currentHashDomain (en_hash en)"
    and "sync_target en' opt' s tc' stateID' secrets' \<lparr>sw_disk = disk, sw_trace = []\<rparr> = (w'', f')"
  shows "(\<exists>j. disk = Some j \<and> (\<forall>k \<in> set keys. pending_key j k))
    \<and> w'' = \<lparr>sw_disk = disk, sw_trace = []\<rparr> \<and> (so_dryRun opt' \<or> f' \<noteq> None)"
  by (rule crash_refused [OF assms])


text \<open>
  C2: success means recorded. When a journaled run ends without an error, the journal is on disk; the
  keys requested from the provider, in this order and each once, are those of a selection of the secrets, and every
  one of them is acknowledged in the journal with the hash of its current value; and a secret
  that was not requested was excluded by no-overwrite, or the journal found at the start had its hash.
\<close>

theorem success_means_recorded:
  assumes "env_ok en" and "journal_disk w" and "uses_journal opt s tc" and "\<not> so_dryRun opt"
    and "distinct (map sec_Key secrets)"
    and "\<forall>op d. en_operationID en = Some op \<longrightarrow> sw_disk w = Some d \<longrightarrow> fresh_op op d"
    and "sync_target en opt s tc stateID secrets w = (w', None)"
  shows "\<exists>j toSync. sw_disk w' = Some j \<and> picks toSync secrets \<and> requested w w' (map sec_Key toSync)
    \<and> recorded (en_hash en) j toSync \<and> (toSync \<noteq> [] \<longrightarrow> ss_Phase j = OperationPhaseSucceeded)
    \<and> (\<forall>x \<in> set secrets. x \<in> set toSync \<or> no_overwrite opt tc \<or> settled (en_hash en) w x)"
  by (rule success_recorded [OF assms])

text \<open>
  C3: a refused key leaves an exact account. When a per-key target refuses a write, the run has
  requested the keys up to the refused one and no further, and the journal on disk has the earlier
  ones acknowledged, the refused one needing reconciliation, and every later one pending.
\<close>

theorem refused_key_is_accounted:
  assumes "env_ok en" and "journal_disk w" and "uses_journal opt s tc" and "is_PerKeySyncer s"
    and "distinct (map sec_Key secrets)"
    and "sync_target en opt s tc stateID secrets w = (w', Some (FailProvider err))"
  shows "requested w w' [] \<or> (\<exists>j dn x post. picks (dn @ x # post) secrets \<and> sw_disk w' = Some j
    \<and> failed_at (en_hash en) j dn x post \<and> requested w w' (map sec_Key (dn @ [x])))"
  by (rule failure_accounted [OF assms])

text \<open>
  C4: nothing in the journaling stops a healthy run. With a working disk, a free lock, a provider that takes
  every key and no unfinished operation in the journal, the run over any number of secrets ends
  without an error.
\<close>

theorem healthy_sync_succeeds:
  assumes "env_ok en" and "healthy en s secrets" and "clean_journal en (syncer_Name s) stateID w"
    and "is_PerKeySyncer s" and "distinct (map sec_Key secrets)" and "secrets \<noteq> []"
    and "\<forall>x \<in> set secrets. TrimSpace (sec_Key x) \<noteq> []"
    and "ValidateDestinationMapping (syncer_Name s) (map Some secrets) = None"
    and "\<not> no_overwrite opt tc" and "\<not> so_skipUnchanged opt"
  shows "snd (sync_target en opt s tc stateID secrets w) = None"
  by (rule healthy_run [OF assms])

subsection \<open>An example\<close>

text \<open>A GitLab project, an empty state directory, and a provider that answers \<open>code\<close> to writes.\<close>

definition example_sync :: "int \<Rightarrow> sync_env" where
  "example_sync code = \<lparr>en_hash = demo_hash, en_ord = (\<lambda>n s. sorted_list_of_set (dom (ss_Outcomes s))),
     en_now = (\<lambda>n. 7), en_io = (\<lambda>n. SaveOK),
     en_http = (\<lambda>n. example_world\<lparr>hw_mutate := (\<lambda>verb name. answers code)\<rparr>),
     en_order = (\<lambda>n. id), en_file = (\<lambda>n secs. None), en_lockOk = True,
     en_operationID = Some ''op1'', en_existing = None, en_upper = id, en_notifyOk = True,
     en_source = ''local:/p''\<rparr>"

definition example_opts :: sync_opts where
  "example_opts = \<lparr>so_skipUnchanged = False, so_noOverwrite = False, so_rotate = False, so_dryRun = False,
     so_suppressNotify = True\<rparr>"

definition gitlab_target :: Syncer where
  "gitlab_target = GitLabTarget \<lparr>gl_projectID = ''7'', gl_token = ''t'', gl_baseURL = ''u'', gl_masked = False,
     gl_protected = False\<rparr>"

definition gitlab_config :: TargetConfig where
  "gitlab_config = \<lparr>tc_Type = ''gitlab'', tc_Fields = Map.empty, tc_Token = ''t'', tc_NoOverwrite = False\<rparr>"

definition no_journal :: sync_world where
  "no_journal = \<lparr>sw_disk = None, sw_trace = []\<rparr>"

definition example_secrets :: "Secret list" where
  "example_secrets = [mk_Secret ''/p/A'' ''1'', mk_Secret ''/p/B'' ''2'']"

abbreviation example_run :: "int \<Rightarrow> sync_world \<times> sync_failure option" where
  "example_run code \<equiv>
     sync_target (example_sync code) example_opts gitlab_target gitlab_config ''id'' example_secrets no_journal"

lemma example_sync_ok: "env_ok (example_sync code)"
  by (simp add: env_ok_def example_sync_def demo_hash_ok visits_def)

lemma example_target:
  "journalByDefault gitlab_target" "uses_journal opt gitlab_target tc" "is_PerKeySyncer gitlab_target"
  by (simp_all add: gitlab_target_def journalByDefault_def uses_journal_def)

lemma example_no_journal: "journal_disk no_journal" "sw_disk no_journal = None" "sw_trace no_journal = []"
  "clean_journal en t i no_journal"
  by (simp_all add: no_journal_def journal_disk_def clean_journal_def)

lemma example_options: "\<not> so_dryRun example_opts" "\<not> so_skipUnchanged example_opts"
    "\<not> no_overwrite example_opts gitlab_config"
  by (simp_all add: example_opts_def gitlab_config_def no_overwrite_def)

lemma example_secrets_ok:
  "distinct (map sec_Key example_secrets)" "example_secrets \<noteq> []"
  "list_all (\<lambda>x. TrimSpace (sec_Key x) \<noteq> []) example_secrets"
  "ValidateDestinationMapping ''gitlab'' (map Some example_secrets) = None"
  by code_simp+

lemma example_accepts:
  "list_all (\<lambda>x. snd (target_SyncKey (en_http (example_sync 200) n) gitlab_target (Some x)) = None) example_secrets"
proof -
  have "list_all (\<lambda>x. snd (target_SyncKey (example_world\<lparr>hw_mutate := (\<lambda>verb name. answers 200)\<rparr>)
      gitlab_target (Some x)) = None) example_secrets" by code_simp
  then show ?thesis by (simp add: example_sync_def)
qed

lemma example_healthy: "healthy (example_sync 200) gitlab_target example_secrets"
proof -
  let ?en = "example_sync 200"
  have "TrimSpace ''op1'' \<noteq> []" by code_simp
  then have "\<exists>op. en_operationID ?en = Some op \<and> TrimSpace op \<noteq> []" by (simp add: example_sync_def)
  moreover have "\<forall>n. \<forall>x \<in> set example_secrets. snd (target_SyncKey (en_http ?en n) gitlab_target (Some x)) = None"
    using example_accepts unfolding list_all_iff by blast
  moreover have "\<forall>n. en_io ?en n = SaveOK" "en_lockOk ?en" "en_notifyOk ?en" "length (en_source ?en) \<le> 512"
    by (simp_all add: example_sync_def)
  ultimately show ?thesis unfolding healthy_def by blast
qed

theorem healthy_sync_succeeds_witness: "snd (example_run 200) = None"
proof (rule healthy_sync_succeeds [OF example_sync_ok example_healthy _ example_target(3) example_secrets_ok(1,2) _ _
      example_options(3,2)])
  show "clean_journal (example_sync 200) (syncer_Name gitlab_target) ''id'' no_journal" by (rule example_no_journal)
  show "\<forall>x \<in> set example_secrets. TrimSpace (sec_Key x) \<noteq> []"
    using example_secrets_ok(3) by (simp add: list_all_iff)
  show "ValidateDestinationMapping (syncer_Name gitlab_target) (map Some example_secrets) = None"
    using example_secrets_ok(4) by (simp add: gitlab_target_def)
qed

lemma example_success: "snd (example_run 200) = None"
  by (rule healthy_run [OF example_sync_ok example_healthy _ example_target(3) example_secrets_ok(1,2) _ _
      example_options(3,2)])
    (use example_no_journal example_secrets_ok in \<open>simp_all add: list_all_iff gitlab_target_def\<close>)

theorem success_means_recorded_witness:
  "\<exists>j. sw_disk (fst (example_run 200)) = Some j \<and> ss_Phase j = OperationPhaseSucceeded
     \<and> key_status j ''/p/B'' OutcomeSucceeded"
proof -
  obtain w' where r: "example_run 200 = (w', None)" using example_success by (metis prod.collapse)
  have fresh: "\<forall>op d. en_operationID (example_sync 200) = Some op \<longrightarrow> sw_disk no_journal = Some d \<longrightarrow> fresh_op op d"
    by (simp add: no_journal_def)
  from success_means_recorded [OF example_sync_ok example_no_journal(1) example_target(2) example_options(1)
      example_secrets_ok(1) fresh r]
  obtain j xs where j: "sw_disk w' = Some j" "recorded (en_hash (example_sync 200)) j xs"
    "xs \<noteq> [] \<longrightarrow> ss_Phase j = OperationPhaseSucceeded"
    "\<forall>x \<in> set example_secrets. x \<in> set xs \<or> settled (en_hash (example_sync 200)) no_journal x"
    using example_options(3) by blast
  then have "mk_Secret ''/p/B'' ''2'' \<in> set xs"
    by (simp add: example_secrets_def settled_def example_no_journal)
  with j r show ?thesis by (force simp: recorded_def)
qed

lemma requested_event:
  assumes "requested w w' ks" and "ks \<noteq> []"
  obtains keys disk where "EvRequest keys disk \<in> set (drop (length (sw_trace w)) (sw_trace w'))" "keys \<noteq> []"
proof -
  obtain evs where e: "sw_trace w' = sw_trace w @ evs" "concat (map event_keys evs) = ks"
    using assms(1) by (auto simp: requested_def)
  then obtain ev where ev: "ev \<in> set evs" "event_keys ev \<noteq> []" using assms(2) by force
  from ev(2) obtain keys disk where "ev = EvRequest keys disk" by (cases ev) auto
  then show thesis using that [of keys disk] e(1) ev by simp
qed

theorem crash_requires_reconciliation_witness:
  "\<exists>keys disk. EvRequest keys disk \<in> set (sw_trace (fst (example_run 200))) \<and> keys \<noteq> []
     \<and> snd (sync_target (example_sync 200) example_opts gitlab_target gitlab_config ''id'' example_secrets
              \<lparr>sw_disk = disk, sw_trace = []\<rparr>) \<noteq> None"
proof -
  let ?en = "example_sync 200"
  obtain w' where r: "example_run 200 = (w', None)" using example_success by (metis prod.collapse)
  have "\<forall>op d. en_operationID ?en = Some op \<longrightarrow> sw_disk no_journal = Some d \<longrightarrow> fresh_op op d"
    by (simp add: no_journal_def)
  from success_recorded [OF example_sync_ok example_no_journal(1) example_target(2) example_options(1)
      example_secrets_ok(1) this r]
  obtain xs where xs: "requested no_journal w' (map sec_Key xs)"
    "\<forall>x \<in> set example_secrets. x \<in> set xs \<or> settled (en_hash ?en) no_journal x"
    using example_options(3) by blast
  then have "map sec_Key xs \<noteq> []" by (auto simp: example_secrets_def settled_def example_no_journal)
  from requested_event [OF xs(1) this] obtain keys disk
    where ev: "EvRequest keys disk \<in> set (drop (length (sw_trace no_journal)) (sw_trace w'))" "keys \<noteq> []" .
  obtain w'' f' where r2: "sync_target ?en example_opts gitlab_target gitlab_config ''id'' example_secrets
              \<lparr>sw_disk = disk, sw_trace = []\<rparr> = (w'', f')" by fastforce
  from crash_requires_reconciliation [OF example_sync_ok example_no_journal(1) example_target(1) example_secrets_ok(1)
      r ev example_sync_ok refl r2]
  have "f' \<noteq> None" using example_options(1) by blast
  with r2 have "snd (sync_target ?en example_opts gitlab_target gitlab_config ''id'' example_secrets
              \<lparr>sw_disk = disk, sw_trace = []\<rparr>) \<noteq> None" by simp
  moreover have "EvRequest keys disk \<in> set (sw_trace (fst (example_run 200)))"
    using ev(1) r by (simp add: example_no_journal)
  ultimately show ?thesis using ev(2) by blast
qed


lemma RecordKeyNeedsReconciliation_works:
  assumes "ss_OperationID s = op" and "op \<noteq> []" and "pending_key s (sec_Key sec)" and "TrimSpace (sec_Key sec) \<noteq> []"
  shows "snd (RecordKeyNeedsReconciliation s op (Some sec) t) = None"
  using assms
  by (auto simp: RecordKeyNeedsReconciliation_def recordKeyNeedsReconciliation_def checkOperation_def
      ownedOutcome_def pending_key_def metadata_error_def)

text \<open>The first write is refused and the disk works.\<close>

lemma refused_first_key:
  assumes "env_ok en" and "opened (en_hash en) op (map sec_Key (x # xs)) j" and "journal_inv j"
    and "\<forall>n. en_io en n = SaveOK" and "TrimSpace (sec_Key x) \<noteq> []"
    and "snd (target_SyncKey (en_http en (moment w)) s (Some x)) = Some err"
  shows "snd (syncPerKeyOperation en s op (x # xs) j w) = Some (FailProvider err)"
proof -
  let ?w1 = "request [sec_Key x] w" and ?t = "en_now en (Suc (moment w))"
  have o: "ss_OperationID j = op" "op \<noteq> []" "pending_key j (sec_Key x)"
    using assms(2) by (simp_all add: opened_def)
  obtain j1 where r: "RecordKeyNeedsReconciliation j op (Some x) ?t = (j1, None)"
    using RecordKeyNeedsReconciliation_works [OF o assms(5)] by (metis prod.collapse)
  have "journal_inv j1" using key_reconcile.keeps_inv [OF assms(3), of op "Some x" ?t] r by simp
  from saveSyncState_works [OF assms(1) this] assms(4) obtain j2 w2 where
    "saveSyncState en j1 ?w1 = ((j2, w2), None)" by (metis prod.collapse)
  with r assms(6) show ?thesis by (simp add: syncPerKeyOperation_def Let_def)
qed

lemma example_refusal: "\<exists>err. snd (example_run 500) = Some (FailProvider err)"
proof -
  let ?en = "example_sync 500"
  let ?j0 = "empty_SyncState (syncer_Name gitlab_target) ''id''"
  have lock: "en_lockOk ?en" "\<forall>n. en_io ?en n = SaveOK" by (simp_all add: example_sync_def)
  have "ValidateDestinationMapping (syncer_Name gitlab_target) (map Some example_secrets) = None"
    using example_secrets_ok(4) by (simp add: gitlab_target_def)
  then have p: "sync_prepare ?en example_opts gitlab_target gitlab_config ''id'' example_secrets no_journal =
      Inr (Some ?j0, example_secrets)"
    using lock example_target example_options by (simp add: sync_prepare_def example_no_journal LoadSyncState_def)
  have inv: "journal_inv ?j0" by (rule empty_SyncState_inv)
  have idle: "ss_OperationID ?j0 = [] \<or> ss_Phase ?j0 = OperationPhaseSucceeded" by (simp add: empty_SyncState_def)
  have fr: "\<forall>op. en_operationID ?en = Some op \<longrightarrow> fresh_op op ?j0"
    by (simp add: example_sync_def fresh_op_def empty_SyncState_def)
  have "TrimSpace ''op1'' \<noteq> []" by code_simp
  then have "healthy ?en gitlab_target []" by (simp add: healthy_def) (simp add: example_sync_def)
  from sync_open_works [OF example_sync_ok this inv idle fr] obtain w2 j2 op where
    o: "sync_open ?en example_opts gitlab_target gitlab_config ?j0 example_secrets no_journal = (w2, Inr (j2, op))"
    and fo: "fresh_op op ?j0" by metis
  note oi = sync_open_inv [OF o example_sync_ok inv fo]
  have "finite (dom (ss_Outcomes ?j0))" by (simp add: empty_SyncState_def)
  note oo = sync_open_opened [OF o this]
  obtain x xs where xs: "example_secrets = x # xs" by (simp add: example_secrets_def)
  then have x: "x = mk_Secret ''/p/A'' ''1''" by (simp add: example_secrets_def)
  have "snd (target_SyncKey (example_world\<lparr>hw_mutate := (\<lambda>verb name. answers 500)\<rparr>) gitlab_target
      (Some (mk_Secret ''/p/A'' ''1''))) \<noteq> None" by code_simp
  then obtain err where "snd (target_SyncKey (en_http ?en (moment w2)) gitlab_target (Some x)) = Some err"
    by (auto simp: x example_sync_def)
  moreover have "TrimSpace (sec_Key x) \<noteq> []" using example_secrets_ok(3) unfolding xs by simp
  ultimately have "snd (syncPerKeyOperation ?en gitlab_target op example_secrets j2 w2) = Some (FailProvider err)"
    using refused_first_key [OF example_sync_ok oo(1) [unfolded xs] oi(1) lock(2)] xs by simp
  moreover have "op \<noteq> []" using oo(1) by (simp add: opened_def)
  ultimately have "snd (sync_deliver ?en gitlab_target (Some j2) op False example_secrets w2) = Some (FailProvider err)"
    using example_target(3) by (auto simp: sync_deliver_def split: prod.splits)
  then obtain w3 where "sync_deliver ?en gitlab_target (Some j2) op False example_secrets w2 = (w3, Some (FailProvider err))"
    by (metis prod.collapse)
  then show ?thesis
    using p o example_options(1) settled_idle [OF idle] example_secrets_ok(2)
    by (auto simp: sync_target_def sync_recover_def)
qed

theorem refused_key_is_accounted_witness:
  "\<exists>err. snd (example_run 500) = Some (FailProvider err)
     \<and> (requested no_journal (fst (example_run 500)) [] \<or> (\<exists>j dn x post.
          sw_disk (fst (example_run 500)) = Some j \<and> failed_at demo_hash j dn x post
          \<and> requested no_journal (fst (example_run 500)) (map sec_Key (dn @ [x]))))"
proof -
  obtain err w' where r: "example_run 500 = (w', Some (FailProvider err))"
    using example_refusal by (metis prod.collapse)
  have h: "en_hash (example_sync 500) = demo_hash" by (simp add: example_sync_def)
  from refused_key_is_accounted [OF example_sync_ok example_no_journal(1) example_target(2,3) example_secrets_ok(1) r]
  show ?thesis unfolding r h by auto
qed

end
