(* ===== verification/Go_Base64.thy ===== *)
theory Go_Base64
  imports Go_Prelude
begin

text \<open>
  \<open>base64.StdEncoding\<close> of Go's \<open>encoding/base64\<close>, both ways. \<open>DecodeString\<close> skips line feeds and
  carriage returns, wants the padding, and (the encoding is not strict) ignores the bits of the
  last digit that no byte uses.
\<close>

subsection \<open>Encoding and decoding\<close>

definition std_alphabet :: string where
  "std_alphabet = ''ABCDEFGHIJKLMNOPQRSTUVWXYZabcdefghijklmnopqrstuvwxyz0123456789+/''"

definition std_digit :: "nat \<Rightarrow> char" where
  "std_digit n = std_alphabet ! n"

fun digit_index :: "string \<Rightarrow> char \<Rightarrow> nat option" where
  "digit_index [] c = None"
| "digit_index (a # as) c = (if a = c then Some 0 else map_option Suc (digit_index as c))"

definition std_value :: "char \<Rightarrow> nat option" where
  "std_value c = digit_index std_alphabet c"

fun base64_EncodeToString :: "string \<Rightarrow> string" where
  "base64_EncodeToString [] = []"
| "base64_EncodeToString [a] = [std_digit (of_char a div 4), std_digit (of_char a mod 4 * 16), CHR ''='', CHR ''='']"
| "base64_EncodeToString [a, b] =
     [std_digit (of_char a div 4), std_digit (of_char a mod 4 * 16 + of_char b div 16),
      std_digit (of_char b mod 16 * 4), CHR ''='']"
| "base64_EncodeToString (a # b # c # s) =
     std_digit (of_char a div 4) # std_digit (of_char a mod 4 * 16 + of_char b div 16)
     # std_digit (of_char b mod 16 * 4 + of_char c div 64) # std_digit (of_char c mod 64)
     # base64_EncodeToString s"

definition first_byte :: "nat \<Rightarrow> nat \<Rightarrow> char" where
  "first_byte w x = char_of (w * 4 + x div 16)"

definition second_byte :: "nat \<Rightarrow> nat \<Rightarrow> char" where
  "second_byte x y = char_of (x mod 16 * 16 + y div 4)"

definition third_byte :: "nat \<Rightarrow> nat \<Rightarrow> char" where
  "third_byte y z = char_of (y mod 4 * 64 + z)"

fun decode_quanta :: "string \<Rightarrow> string option" where
  "decode_quanta [] = Some []"
| "decode_quanta (p # q # r # s # rest) =
     (case (std_value p, std_value q) of
        (Some w, Some x) \<Rightarrow>
          if r = CHR ''='' then if s = CHR ''='' \<and> rest = [] then Some [first_byte w x] else None
          else (case std_value r of
              None \<Rightarrow> None
            | Some y \<Rightarrow>
                if s = CHR ''='' then if rest = [] then Some [first_byte w x, second_byte x y] else None
                else (case std_value s of
                    None \<Rightarrow> None
                  | Some z \<Rightarrow> map_option (\<lambda>bs. first_byte w x # second_byte x y # third_byte y z # bs)
                                (decode_quanta rest)))
      | _ \<Rightarrow> None)"
| "decode_quanta _ = None"

definition base64_DecodeString :: "string \<Rightarrow> string option" where
  "base64_DecodeString s = decode_quanta (filter (\<lambda>c. c \<noteq> CHR 0x0A \<and> c \<noteq> CHR 0x0D) s)"

subsection \<open>Decoding undoes encoding\<close>

lemma std_value_digit: "n < 64 \<Longrightarrow> std_value (std_digit n) = Some n"
proof -
  have "list_all (\<lambda>n. std_value (std_digit n) = Some n) [0..<64]" by code_simp
  then show "n < 64 \<Longrightarrow> std_value (std_digit n) = Some n" by (simp add: list_all_iff)
qed

lemma std_digit_plain:
  "n < 64 \<Longrightarrow> std_digit n \<in> set std_alphabet" "CHR ''='' \<notin> set std_alphabet" "CHR '':'' \<notin> set std_alphabet"
  "CHR 0x0A \<notin> set std_alphabet" "CHR 0x0D \<notin> set std_alphabet"
proof -
  have "length std_alphabet = 64" by code_simp
  then show "n < 64 \<Longrightarrow> std_digit n \<in> set std_alphabet" by (simp add: std_digit_def)
  have "list_all (\<lambda>c. c \<noteq> CHR ''='' \<and> c \<noteq> CHR '':'' \<and> c \<noteq> CHR 0x0A \<and> c \<noteq> CHR 0x0D) std_alphabet" by code_simp
  then show "CHR ''='' \<notin> set std_alphabet" "CHR '':'' \<notin> set std_alphabet"
    "CHR 0x0A \<notin> set std_alphabet" "CHR 0x0D \<notin> set std_alphabet" by (auto simp: list_all_iff)
qed

lemma digit_bounds:
  "(of_char a :: nat) div 4 < 64" "(of_char a :: nat) mod 4 * 16 + of_char b div 16 < 64"
  "(of_char b :: nat) mod 16 * 4 + of_char c div 64 < 64" "(of_char c :: nat) mod 64 < 64"
  "(of_char a :: nat) mod 4 * 16 < 64" "(of_char b :: nat) mod 16 * 4 < 64"
proof -
  have d: "(of_char x :: nat) div 4 < 64" "(of_char x :: nat) div 16 < 16"
    "(of_char x :: nat) div 64 < 4" for x by (simp_all add: less_mult_imp_div_less)
  have m: "n mod 4 < 4" "n mod 16 < 16" for n :: nat by simp_all
  show "(of_char a :: nat) div 4 < 64" "(of_char c :: nat) mod 64 < 64" by (simp_all add: d)
  show "(of_char a :: nat) mod 4 * 16 + of_char b div 16 < 64"
    using m(1) [of "of_char a"] d(2) [of b] by linarith
  show "(of_char b :: nat) mod 16 * 4 + of_char c div 64 < 64"
    using m(2) [of "of_char b"] d(3) [of c] by linarith
  show "(of_char a :: nat) mod 4 * 16 < 64" using m(1) [of "of_char a"] by linarith
  show "(of_char b :: nat) mod 16 * 4 < 64" using m(2) [of "of_char b"] by linarith
qed

lemma std_digit_not_pad: "n < 64 \<Longrightarrow> std_digit n \<noteq> CHR ''=''"
  using std_digit_plain(1,2) by metis

lemma bytes_of_digits:
  "first_byte (of_char a div 4) (of_char a mod 4 * 16) = a"
  "first_byte (of_char a div 4) (of_char a mod 4 * 16 + of_char b div 16) = a"
  "second_byte (of_char a mod 4 * 16 + of_char b div 16) (of_char b mod 16 * 4) = b"
  "second_byte (of_char a mod 4 * 16 + of_char b div 16) (of_char b mod 16 * 4 + of_char c div 64) = b"
  "third_byte (of_char b mod 16 * 4 + of_char c div 64) (of_char c mod 64) = c"
proof -
  have d: "(of_char x :: nat) div 16 < 16" "(of_char x :: nat) div 64 < 4" for x
    by (simp_all add: less_mult_imp_div_less)
  show "first_byte (of_char a div 4) (of_char a mod 4 * 16) = a"
    by (simp add: first_byte_def)
  show "first_byte (of_char a div 4) (of_char a mod 4 * 16 + of_char b div 16) = a"
    using d(1) [of b] by (simp add: first_byte_def)
  show "second_byte (of_char a mod 4 * 16 + of_char b div 16) (of_char b mod 16 * 4) = b"
    using d(1) [of b] by (simp add: second_byte_def)
  show "second_byte (of_char a mod 4 * 16 + of_char b div 16) (of_char b mod 16 * 4 + of_char c div 64) = b"
    using d(1) [of b] d(2) [of c] by (simp add: second_byte_def)
  show "third_byte (of_char b mod 16 * 4 + of_char c div 64) (of_char c mod 64) = c"
    using d(2) [of c] by (simp add: third_byte_def)
qed

lemma decode_encode: "decode_quanta (base64_EncodeToString s) = Some s"
  by (induction s rule: base64_EncodeToString.induct)
    (simp_all add: std_value_digit digit_bounds std_digit_not_pad bytes_of_digits)

lemma encoded_alphabet: "set (base64_EncodeToString s) \<subseteq> insert (CHR ''='') (set std_alphabet)"
  by (induction s rule: base64_EncodeToString.induct) (simp_all add: std_digit_plain digit_bounds)

lemma base64_round_trip: "base64_DecodeString (base64_EncodeToString s) = Some s"
proof -
  have "c \<noteq> CHR 0x0A \<and> c \<noteq> CHR 0x0D" if "c \<in> set (base64_EncodeToString s)" for c
    using that encoded_alphabet [of s] std_digit_plain(4,5) by auto
  then have "filter (\<lambda>c. c \<noteq> CHR 0x0A \<and> c \<noteq> CHR 0x0D) (base64_EncodeToString s) = base64_EncodeToString s"
    by (simp add: filter_id_conv)
  then show ?thesis by (simp add: base64_DecodeString_def decode_encode)
qed

lemma encoded_no_colon: "CHR '':'' \<notin> set (base64_EncodeToString s)"
  using encoded_alphabet [of s] std_digit_plain(3) by auto

lemma encoded_Nil: "base64_EncodeToString s = [] \<longleftrightarrow> s = []"
  by (cases s rule: base64_EncodeToString.cases) simp_all

end
