(* ===== verification/Keystore.thy ===== *)
theory Keystore
  imports Go_Base64 "HOL-Library.Word" "HOL-Library.Countable"
begin

text \<open>
  Package \<open>src/internal/keystore\<close>: the encrypted forms of the local secrets file (a standard age
  envelope, and the older per-value \<open>skret-encrypted-v1\<close> envelope), and where the key material comes from.

  The age library, the YAML codec, argon2id and XChaCha20-Poly1305 are not part of the repository. They
  are the fields of \<open>key_libs\<close>, with what the code relies on as the predicates \<open>age_laws\<close>,
  \<open>yaml_laws\<close> and \<open>aead_laws\<close>. A nil Go map is an empty map.
\<close>

subsection \<open>Data\<close>

type_synonym str_map = "string \<rightharpoonup> string"

text \<open>The plaintext file, and the payload of an age envelope: they have the same shape.\<close>

record localFile =
  lf_Version :: string
  lf_Secrets :: str_map
  lf_Meta :: str_map

record kdfParams =
  kd_Algorithm :: string
  kd_Salt :: string
  kd_Time :: "32 word"
  kd_MemoryKiB :: "32 word"
  kd_Parallelism :: "8 word"

record legacyEnvelope =
  le_Version :: string
  le_Format :: string
  le_KDF :: kdfParams
  le_Secrets :: str_map
  le_Meta :: str_map

datatype age_recipient = X25519Recipient string | ScryptRecipient string
datatype age_identity = X25519Identity string | ScryptIdentity string

text \<open>An error with its exit code, or a panic of the Go runtime.\<close>

datatype key_error = KeyError nat string | KeyPanic string

abbreviation CodeGenericError :: nat where "CodeGenericError \<equiv> 1"
abbreviation CodeConfigError :: nat where "CodeConfigError \<equiv> 2"
abbreviation CodeAuthError :: nat where "CodeAuthError \<equiv> 4"
abbreviation CodeValidationError :: nat where "CodeValidationError \<equiv> 8"

record key_libs =
  age_ParseX25519Identity :: "string \<Rightarrow> string option"
  age_ParseX25519Recipient :: "string \<Rightarrow> string option"
  age_Recipient :: "string \<Rightarrow> string"
  age_ScryptOk :: "string \<Rightarrow> bool"
  age_Encrypt :: "age_recipient \<Rightarrow> string \<Rightarrow> string option"
  age_Decrypt :: "age_identity \<Rightarrow> string \<Rightarrow> string option"
  yaml_Marshal :: "localFile \<Rightarrow> string option"
  yaml_Unmarshal :: "string \<Rightarrow> localFile \<Rightarrow> localFile option"
  yaml_MarshalEnvelope :: "legacyEnvelope \<Rightarrow> string option"
  yaml_UnmarshalEnvelope :: "string \<Rightarrow> legacyEnvelope option"
  yaml_Format :: "string \<Rightarrow> string option"
  argon2_IDKey :: "string \<Rightarrow> string \<Rightarrow> 32 word \<Rightarrow> 32 word \<Rightarrow> 8 word \<Rightarrow> string"
  aead_Seal :: "string \<Rightarrow> string \<Rightarrow> string \<Rightarrow> string \<Rightarrow> string"
  aead_Open :: "string \<Rightarrow> string \<Rightarrow> string \<Rightarrow> string \<Rightarrow> string option"

definition empty_localFile :: localFile where
  "empty_localFile = \<lparr>lf_Version = [], lf_Secrets = Map.empty, lf_Meta = Map.empty\<rparr>"

definition finite_file :: "localFile \<Rightarrow> bool" where
  "finite_file d \<longleftrightarrow> finite (dom (lf_Secrets d)) \<and> finite (dom (lf_Meta d))"

subsection \<open>The age envelope\<close>

definition Format :: string where
  "Format = ''age-encryption.org/v1''"

definition Detect :: "string \<Rightarrow> bool" where
  "Detect raw = HasPrefix raw Format"

definition recipientFor :: "key_libs \<Rightarrow> string \<Rightarrow> key_error + age_recipient" where
  "recipientFor L material = (case age_ParseX25519Identity L material of
      Some i \<Rightarrow> Inr (X25519Recipient (age_Recipient L i))
    | None \<Rightarrow> (case age_ParseX25519Recipient L material of
          Some r \<Rightarrow> Inr (X25519Recipient r)
        | None \<Rightarrow> if age_ScryptOk L material then Inr (ScryptRecipient material)
                  else Inl (KeyError CodeValidationError ''keys: build encryption recipient'')))"

definition identityFor :: "key_libs \<Rightarrow> string \<Rightarrow> key_error + age_identity" where
  "identityFor L material = (case age_ParseX25519Identity L material of
      Some i \<Rightarrow> Inr (X25519Identity i)
    | None \<Rightarrow> if age_ScryptOk L material then Inr (ScryptIdentity material)
              else Inl (KeyError CodeValidationError ''keys: build decryption identity''))"

definition SealWithMeta :: "key_libs \<Rightarrow> str_map \<Rightarrow> str_map \<Rightarrow> string \<Rightarrow> key_error + string" where
  "SealWithMeta L secrets meta keyMaterial =
     (if keyMaterial = [] then Inl (KeyError CodeValidationError ''keystore: key material is empty'')
      else case recipientFor L keyMaterial of
          Inl e \<Rightarrow> Inl e
        | Inr rec \<Rightarrow>
            (case yaml_Marshal L \<lparr>lf_Version = ''1'', lf_Secrets = secrets, lf_Meta = meta\<rparr> of
               None \<Rightarrow> Inl (KeyError CodeGenericError ''keystore: marshal payload'')
             | Some plaintext \<Rightarrow> (case age_Encrypt L rec plaintext of
                   None \<Rightarrow> Inl (KeyError CodeGenericError ''keystore: open age envelope'')
                 | Some raw \<Rightarrow> Inr raw)))"

definition decrypt_failed :: key_error where
  "decrypt_failed = KeyError CodeAuthError ''keystore: decrypt failed (wrong key material or tampered file)''"

definition OpenWithMeta :: "key_libs \<Rightarrow> string \<Rightarrow> string \<Rightarrow> key_error + str_map \<times> str_map" where
  "OpenWithMeta L raw keyMaterial =
     (if keyMaterial = [] then Inl (KeyError CodeValidationError ''keystore: key material is empty'')
      else case identityFor L keyMaterial of
          Inl e \<Rightarrow> Inl e
        | Inr i \<Rightarrow> (case age_Decrypt L i raw of
              None \<Rightarrow> Inl decrypt_failed
            | Some plaintext \<Rightarrow> (case yaml_Unmarshal L plaintext empty_localFile of
                  None \<Rightarrow> Inl (KeyError CodeConfigError ''keystore: parse age payload'')
                | Some p \<Rightarrow> Inr (lf_Secrets p, lf_Meta p))))"

definition Seal :: "key_libs \<Rightarrow> str_map \<Rightarrow> string \<Rightarrow> key_error + string" where
  "Seal L secrets keyMaterial = SealWithMeta L secrets Map.empty keyMaterial"

definition Open :: "key_libs \<Rightarrow> string \<Rightarrow> string \<Rightarrow> key_error + str_map" where
  "Open L raw keyMaterial = map_sum id fst (OpenWithMeta L raw keyMaterial)"

definition RecipientKind :: "key_libs \<Rightarrow> string \<Rightarrow> string" where
  "RecipientKind L material =
     (if age_ParseX25519Identity L material \<noteq> None \<or> age_ParseX25519Recipient L material \<noteq> None
      then ''X25519'' else ''scrypt'')"

subsection \<open>The legacy envelope\<close>

definition FormatLegacy :: string where
  "FormatLegacy = ''skret-encrypted-v1''"

definition DetectLegacy :: "key_libs \<Rightarrow> string \<Rightarrow> bool" where
  "DetectLegacy L raw = (yaml_Format L raw = Some FormatLegacy)"

definition defaultKDFParams :: kdfParams where
  "defaultKDFParams = \<lparr>kd_Algorithm = ''argon2id'', kd_Salt = [], kd_Time = 3,
     kd_MemoryKiB = 64 * 1024, kd_Parallelism = 4\<rparr>"

text \<open>
  The key of the legacy cipher. \<open>argon2.IDKey\<close> panics on zero rounds or zero threads, which come from
  the header of the file.
\<close>

definition legacyAeadFor :: "key_libs \<Rightarrow> string \<Rightarrow> kdfParams \<Rightarrow> key_error + string" where
  "legacyAeadFor L keyMaterial p =
     (if kd_Algorithm p \<noteq> ''argon2id'' \<and> kd_Algorithm p \<noteq> []
      then Inl (KeyError CodeConfigError ''keystore: unsupported kdf algorithm'')
      else case base64_DecodeString (kd_Salt p) of
          None \<Rightarrow> Inl (KeyError CodeConfigError ''keystore: invalid kdf salt'')
        | Some salt \<Rightarrow>
            if length salt < 8 then Inl (KeyError CodeConfigError ''keystore: invalid kdf salt'')
            else if kd_Time p = 0 then Inl (KeyPanic ''argon2: number of rounds too small'')
            else if kd_Parallelism p = 0 then Inl (KeyPanic ''argon2: parallelism degree too low'')
            else Inr (argon2_IDKey L keyMaterial salt (kd_Time p) (kd_MemoryKiB p) (kd_Parallelism p)))"

definition seal_blob :: "key_libs \<Rightarrow> string \<Rightarrow> string \<Rightarrow> string \<Rightarrow> string \<Rightarrow> string" where
  "seal_blob L key nonce k v =
     ''v1:'' @ base64_EncodeToString nonce @ '':'' @ base64_EncodeToString (aead_Seal L key nonce v k)"

text \<open>
  \<open>salt\<close> and \<open>nonce\<close> are what \<open>crypto/rand\<close> returns: 16 bytes for a fresh salt, 24 bytes for each
  secret; it does not fail (since Go 1.24 \<open>rand.Read\<close> never returns an error).
\<close>

definition SealLegacyWithMeta ::
    "key_libs \<Rightarrow> string \<Rightarrow> (string \<Rightarrow> string) \<Rightarrow> str_map \<Rightarrow> str_map \<Rightarrow> string \<Rightarrow> kdfParams option
      \<Rightarrow> key_error + string" where
  "SealLegacyWithMeta L salt nonce secrets meta keyMaterial params =
     (if keyMaterial = [] then Inl (KeyError CodeValidationError ''keystore: key material is empty'')
      else let p0 = (case params of None \<Rightarrow> defaultKDFParams | Some q \<Rightarrow> q);
               p = (if kd_Salt p0 = [] then p0\<lparr>kd_Salt := base64_EncodeToString salt\<rparr> else p0)
           in case legacyAeadFor L keyMaterial p of
                Inl e \<Rightarrow> Inl e
              | Inr key \<Rightarrow>
                  (case yaml_MarshalEnvelope L
                      \<lparr>le_Version = ''1'', le_Format = FormatLegacy, le_KDF = p,
                       le_Secrets = (\<lambda>k. map_option (seal_blob L key (nonce k) k) (secrets k)),
                       le_Meta = meta\<rparr> of
                     None \<Rightarrow> Inl (KeyError CodeGenericError ''keystore: marshal envelope'')
                   | Some raw \<Rightarrow> Inr raw))"

text \<open>
  One value of the envelope. \<open>Open\<close> of the AEAD panics on a nonce that is not 24 bytes long.
\<close>

definition malformed :: key_error where
  "malformed = KeyError CodeConfigError ''keystore: malformed ciphertext''"

definition open_blob :: "key_libs \<Rightarrow> string \<Rightarrow> string \<Rightarrow> string \<Rightarrow> key_error + string" where
  "open_blob L key k blob =
     (let (version, rest, found1) = Cut blob (CHR '':'')
      in if \<not> found1 \<or> version \<noteq> ''v1'' then Inl malformed
         else let (nonceStr, ctStr, found2) = Cut rest (CHR '':'')
         in if \<not> found2 \<or> ctStr = [] then Inl malformed
            else case base64_DecodeString nonceStr of
                None \<Rightarrow> Inl (KeyError CodeConfigError ''keystore: nonce'')
              | Some nonce \<Rightarrow> (case base64_DecodeString ctStr of
                    None \<Rightarrow> Inl (KeyError CodeConfigError ''keystore: ciphertext'')
                  | Some ct \<Rightarrow>
                      if length nonce \<noteq> 24
                      then Inl (KeyPanic ''chacha20poly1305: bad nonce length passed to Open'')
                      else (case aead_Open L key nonce ct k of
                          None \<Rightarrow> Inl decrypt_failed
                        | Some pt \<Rightarrow> Inr pt)))"

text \<open>The loop over the map visits the keys in the order \<open>ord\<close>.\<close>

fun open_values :: "key_libs \<Rightarrow> string \<Rightarrow> str_map \<Rightarrow> string list \<Rightarrow> str_map \<Rightarrow> key_error + str_map" where
  "open_values L key m [] acc = Inr acc"
| "open_values L key m (k # ks) acc = (case open_blob L key k (the (m k)) of
      Inl e \<Rightarrow> Inl e
    | Inr pt \<Rightarrow> open_values L key m ks (acc(k \<mapsto> pt)))"

definition OpenLegacyWithMeta ::
    "key_libs \<Rightarrow> (str_map \<Rightarrow> string list) \<Rightarrow> string \<Rightarrow> string \<Rightarrow> key_error + str_map \<times> str_map" where
  "OpenLegacyWithMeta L ord raw keyMaterial = (case yaml_UnmarshalEnvelope L raw of
      None \<Rightarrow> Inl (KeyError CodeConfigError ''keystore: parse envelope'')
    | Some env \<Rightarrow>
        if le_Format env \<noteq> FormatLegacy
        then Inl (KeyError CodeConfigError ''keystore: unsupported envelope format'')
        else case legacyAeadFor L keyMaterial (le_KDF env) of
            Inl e \<Rightarrow> Inl e
          | Inr key \<Rightarrow>
              (case open_values L key (le_Secrets env) (ord (le_Secrets env)) Map.empty of
                 Inl e \<Rightarrow> Inl e
               | Inr secrets \<Rightarrow> Inr (secrets, le_Meta env)))"

definition SealLegacy ::
    "key_libs \<Rightarrow> string \<Rightarrow> (string \<Rightarrow> string) \<Rightarrow> str_map \<Rightarrow> string \<Rightarrow> kdfParams option \<Rightarrow> key_error + string" where
  "SealLegacy L salt nonce secrets keyMaterial params =
     SealLegacyWithMeta L salt nonce secrets Map.empty keyMaterial params"

definition OpenLegacy :: "key_libs \<Rightarrow> (str_map \<Rightarrow> string list) \<Rightarrow> string \<Rightarrow> string \<Rightarrow> key_error + str_map" where
  "OpenLegacy L ord raw keyMaterial = map_sum id fst (OpenLegacyWithMeta L ord raw keyMaterial)"

subsection \<open>Key material\<close>

text \<open>What the resolver asks: the environment, the keyring (an error is \<open>None\<close>), the two prompts.\<close>

record key_world =
  kw_Getenv :: "string \<Rightarrow> string"
  kw_keyring :: "string option"
  kw_readPassword :: "string option \<times> string option"

record key_result =
  kr_Material :: string
  kr_Source :: string

definition EnvKeyPrimary :: string where "EnvKeyPrimary = ''SKRET_AGE_KEY''"
definition EnvKeyFallback :: string where "EnvKeyFallback = ''SKRET_LOCAL_KEY''"

definition promptPassphraseConfirm :: "key_world \<Rightarrow> key_error + string" where
  "promptPassphraseConfirm w = (case fst (kw_readPassword w) of
      None \<Rightarrow> Inl (KeyError CodeAuthError ''keys: read passphrase'')
    | Some a \<Rightarrow>
        if a = [] then Inl (KeyError CodeValidationError ''keys: passphrase must not be empty'')
        else (case snd (kw_readPassword w) of
            None \<Rightarrow> Inl (KeyError CodeAuthError ''keys: read passphrase confirmation'')
          | Some b \<Rightarrow>
              if a \<noteq> b then Inl (KeyError CodeValidationError ''keys: passphrases do not match'')
              else Inr a))"

definition KeyringMaterial :: "key_world \<Rightarrow> string option" where
  "KeyringMaterial w = (case kw_keyring w of None \<Rightarrow> None | Some v \<Rightarrow> if v = [] then None else Some v)"

fun env_material :: "key_world \<Rightarrow> string list \<Rightarrow> key_result option" where
  "env_material w [] = None"
| "env_material w (name # names) =
     (if kw_Getenv w name \<noteq> []
      then Some \<lparr>kr_Material = kw_Getenv w name, kr_Source = ''env:'' @ name\<rparr>
      else env_material w names)"

definition noKeyMaterial :: key_error where
  "noKeyMaterial = KeyError CodeAuthError ''keys: no key material available''"

definition ResolveKeyMaterial :: "key_world \<Rightarrow> bool \<Rightarrow> key_error + key_result" where
  "ResolveKeyMaterial w interactive = (case env_material w [EnvKeyPrimary, EnvKeyFallback] of
      Some r \<Rightarrow> Inr r
    | None \<Rightarrow> (case KeyringMaterial w of
          Some v \<Rightarrow> Inr \<lparr>kr_Material = v, kr_Source = ''keyring''\<rparr>
        | None \<Rightarrow>
            if \<not> interactive then Inl noKeyMaterial
            else (case promptPassphraseConfirm w of
                Inl e \<Rightarrow> Inl e
              | Inr pw \<Rightarrow> Inr \<lparr>kr_Material = pw, kr_Source = ''passphrase''\<rparr>)))"

definition ResolveIdentity :: "key_world \<Rightarrow> bool \<Rightarrow> key_error + key_result" where
  "ResolveIdentity w interactive = (case ResolveKeyMaterial w interactive of
      Inr r \<Rightarrow> Inr r
    | Inl (KeyError code msg) \<Rightarrow>
        if code = CodeAuthError then Inl noKeyMaterial else Inl (KeyError code msg)
    | Inl (KeyPanic m) \<Rightarrow> Inl (KeyPanic m))"

definition IsAgeIdentity :: "key_libs \<Rightarrow> string \<Rightarrow> bool" where
  "IsAgeIdentity L s \<longleftrightarrow> age_ParseX25519Identity L s \<noteq> None"

definition ParseIdentity :: "key_libs \<Rightarrow> string \<Rightarrow> key_error + string" where
  "ParseIdentity L s = (case age_ParseX25519Identity L s of
      None \<Rightarrow> Inl (KeyError CodeValidationError ''keys: SKRET_AGE_KEY must be an age private key'')
    | Some i \<Rightarrow> Inr i)"

text \<open>Storing: \<open>accepts\<close> is whether the keyring takes the write, \<open>after\<close> what it returns afterwards.\<close>

definition StoreKeyring :: "bool \<Rightarrow> string option \<Rightarrow> string \<Rightarrow> key_error option" where
  "StoreKeyring accepts after material =
     (if \<not> accepts then Some (KeyError CodeAuthError ''keys: store key in OS keyring'')
      else if after \<noteq> Some material
      then Some (KeyError CodeAuthError ''keys: OS keyring did not round-trip the key'')
      else None)"

subsection \<open>What the code relies on\<close>

text \<open>An age file decrypts with the identity that belongs to its recipient, and starts with the magic line.\<close>

definition age_laws :: "key_libs \<Rightarrow> bool" where
  "age_laws L \<longleftrightarrow>
     (\<forall>i x c. age_Encrypt L (X25519Recipient (age_Recipient L i)) x = Some c \<longrightarrow> age_Decrypt L (X25519Identity i) c = Some x)
     \<and> (\<forall>m x c. age_Encrypt L (ScryptRecipient m) x = Some c \<longrightarrow> age_Decrypt L (ScryptIdentity m) c = Some x)
     \<and> (\<forall>r x c. age_Encrypt L r x = Some c \<longrightarrow> HasPrefix c Format)"

text \<open>
  YAML loses nothing, a marshalled struct has its own fields at the top level only, and does not
  start with the magic line of age; a document is finite.
\<close>

definition yaml_laws :: "key_libs \<Rightarrow> bool" where
  "yaml_laws L \<longleftrightarrow>
     (\<forall>d raw. yaml_Marshal L d = Some raw \<longrightarrow> yaml_Unmarshal L raw empty_localFile = Some d
        \<and> yaml_Format L raw = Some [] \<and> \<not> HasPrefix raw Format)
     \<and> (\<forall>e raw. yaml_MarshalEnvelope L e = Some raw \<longrightarrow> yaml_UnmarshalEnvelope L raw = Some e
        \<and> yaml_Format L raw = Some (le_Format e) \<and> \<not> HasPrefix raw Format)
     \<and> (\<forall>raw d d'. yaml_Unmarshal L raw d = Some d' \<longrightarrow> finite_file d \<longrightarrow> finite_file d')
     \<and> (\<forall>raw e. yaml_UnmarshalEnvelope L raw = Some e \<longrightarrow> finite (dom (le_Secrets e)) \<and> finite (dom (le_Meta e)))"

text \<open>XChaCha20-Poly1305 opens what it sealed under the same key, nonce and additional data; the tag has 16 bytes.\<close>

definition aead_laws :: "key_libs \<Rightarrow> bool" where
  "aead_laws L \<longleftrightarrow> (\<forall>key nonce v k. length nonce = 24 \<longrightarrow>
     aead_Open L key nonce (aead_Seal L key nonce v k) k = Some v
     \<and> length (aead_Seal L key nonce v k) = length v + 16)"

text \<open>Key material that opens what it seals: not an age public key.\<close>

definition opens_own :: "key_libs \<Rightarrow> string \<Rightarrow> bool" where
  "opens_own L material \<longleftrightarrow>
     age_ParseX25519Identity L material \<noteq> None \<or> age_ParseX25519Recipient L material = None"

subsection \<open>Opening what was sealed\<close>

lemma age_lawsD:
  assumes "age_laws L"
  shows "age_Encrypt L (X25519Recipient (age_Recipient L i)) x = Some c \<Longrightarrow> age_Decrypt L (X25519Identity i) c = Some x"
    and "age_Encrypt L (ScryptRecipient m) x = Some c \<Longrightarrow> age_Decrypt L (ScryptIdentity m) c = Some x"
    and "age_Encrypt L r x = Some c \<Longrightarrow> HasPrefix c Format"
  using assms unfolding age_laws_def by blast+

lemma yaml_lawsD:
  assumes "yaml_laws L"
  shows "yaml_Marshal L d = Some raw \<Longrightarrow> yaml_Unmarshal L raw empty_localFile = Some d
        \<and> yaml_Format L raw = Some [] \<and> \<not> HasPrefix raw Format"
    and "yaml_MarshalEnvelope L e = Some raw \<Longrightarrow> yaml_UnmarshalEnvelope L raw = Some e
        \<and> yaml_Format L raw = Some (le_Format e) \<and> \<not> HasPrefix raw Format"
    and "yaml_Unmarshal L raw f = Some f' \<Longrightarrow> finite_file f \<Longrightarrow> finite_file f'"
    and "yaml_UnmarshalEnvelope L raw = Some e \<Longrightarrow> finite (dom (le_Secrets e)) \<and> finite (dom (le_Meta e))"
  using assms unfolding yaml_laws_def by blast+

lemma SealWithMeta_Inr:
  assumes "SealWithMeta L secrets meta material = Inr raw"
  obtains r plain where "material \<noteq> []" "recipientFor L material = Inr r"
    "yaml_Marshal L \<lparr>lf_Version = ''1'', lf_Secrets = secrets, lf_Meta = meta\<rparr> = Some plain"
    "age_Encrypt L r plain = Some raw"
  using assms unfolding SealWithMeta_def by (auto split: if_splits sum.splits option.splits)

lemma age_sealed:
  assumes "age_laws L" and "yaml_laws L" and "opens_own L material"
    and "SealWithMeta L secrets meta material = Inr raw"
  shows "Detect raw" and "OpenWithMeta L raw material = Inr (secrets, meta)"
proof -
  let ?d = "\<lparr>lf_Version = ''1'', lf_Secrets = secrets, lf_Meta = meta\<rparr>"
  obtain r plain where r: "material \<noteq> []" "recipientFor L material = Inr r" "yaml_Marshal L ?d = Some plain"
    "age_Encrypt L r plain = Some raw"
    by (rule SealWithMeta_Inr [OF assms(4)])
  show "Detect raw" unfolding Detect_def by (rule age_lawsD(3) [OF assms(1) r(4)])
  have y: "yaml_Unmarshal L plain empty_localFile = Some ?d" using yaml_lawsD(1) [OF assms(2) r(3)] by blast
  obtain i where i: "identityFor L material = Inr i" "age_Decrypt L i raw = Some plain"
  proof (cases "age_ParseX25519Identity L material")
    case (Some k)
    then have "r = X25519Recipient (age_Recipient L k)" using r(2) by (simp add: recipientFor_def)
    then have "age_Decrypt L (X25519Identity k) raw = Some plain" using age_lawsD(1) [OF assms(1)] r(4) by blast
    then show thesis using that [of "X25519Identity k"] Some by (simp add: identityFor_def)
  next
    case None
    then have s: "r = ScryptRecipient material" "age_ScryptOk L material"
      using r(2) assms(3) by (simp_all add: recipientFor_def opens_own_def split: if_splits)
    then have "age_Decrypt L (ScryptIdentity material) raw = Some plain"
      using age_lawsD(2) [OF assms(1)] r(4) by blast
    then show thesis using that [of "ScryptIdentity material"] None s(2) by (simp add: identityFor_def)
  qed
  with r(1) y show "OpenWithMeta L raw material = Inr (secrets, meta)" by (simp add: OpenWithMeta_def)
qed

lemma open_seal_blob:
  assumes "aead_laws L" and "length nonce = 24"
  shows "open_blob L key k (seal_blob L key nonce k v) = Inr v"
proof -
  let ?ct = "aead_Seal L key nonce v k"
  have "aead_Open L key nonce ?ct k = Some v \<and> length ?ct = length v + 16"
    using assms unfolding aead_laws_def by blast
  then have ct: "?ct \<noteq> []" "aead_Open L key nonce ?ct k = Some v" by auto
  have "Cut (seal_blob L key nonce k v) (CHR '':'') =
      (''v1'', base64_EncodeToString nonce @ '':'' @ base64_EncodeToString ?ct, True)"
    using Cut_at_first [of "CHR '':''" "''v1''"] by (simp add: seal_blob_def)
  moreover have "Cut (base64_EncodeToString nonce @ '':'' @ base64_EncodeToString ?ct) (CHR '':'') =
      (base64_EncodeToString nonce, base64_EncodeToString ?ct, True)"
    using Cut_at_first [OF encoded_no_colon] by simp
  ultimately show ?thesis
    using ct assms(2) by (simp add: open_blob_def base64_round_trip encoded_Nil)
qed

lemma open_values_sealed:
  assumes "aead_laws L" and "\<forall>k. length (nonce k) = 24" and "set ks \<subseteq> dom s"
  shows "open_values L key (\<lambda>k. map_option (seal_blob L key (nonce k) k) (s k)) ks acc
    = Inr (acc ++ (s |` set ks))"
  using assms(3)
proof (induction ks arbitrary: acc)
  case (Cons k ks)
  then obtain v where v: "s k = Some v" by auto
  then have "open_blob L key k (seal_blob L key (nonce k) k v) = Inr v"
    using open_seal_blob [OF assms(1)] assms(2) by simp
  then have "open_values L key (\<lambda>k. map_option (seal_blob L key (nonce k) k) (s k)) (k # ks) acc =
      Inr (acc(k \<mapsto> v) ++ (s |` set ks))"
    using Cons v by simp
  also have "acc(k \<mapsto> v) ++ (s |` set ks) = acc ++ (s |` set (k # ks))"
    using v by (auto simp: map_add_def restrict_map_def fun_eq_iff split: option.splits)
  finally show ?case .
qed simp

lemma legacy_sealed:
  assumes "yaml_laws L" and "aead_laws L" and "\<forall>k. length (nonce k) = 24"
    and "\<forall>m. finite (dom m) \<longrightarrow> set (ord m) = dom m" and "finite (dom secrets)"
    and "SealLegacyWithMeta L salt nonce secrets meta material params = Inr raw"
  shows "\<not> Detect raw" and "DetectLegacy L raw" and "OpenLegacyWithMeta L ord raw material = Inr (secrets, meta)"
proof -
  define p0 where "p0 = (case params of None \<Rightarrow> defaultKDFParams | Some q \<Rightarrow> q)"
  define p where "p = (if kd_Salt p0 = [] then p0\<lparr>kd_Salt := base64_EncodeToString salt\<rparr> else p0)"
  obtain key where p: "legacyAeadFor L material p = Inr key"
    "yaml_MarshalEnvelope L \<lparr>le_Version = ''1'', le_Format = FormatLegacy, le_KDF = p,
       le_Secrets = (\<lambda>k. map_option (seal_blob L key (nonce k) k) (secrets k)), le_Meta = meta\<rparr> = Some raw"
    using assms(6) unfolding SealLegacyWithMeta_def Let_def p0_def [symmetric] p_def [symmetric]
    by (simp split: if_splits sum.splits option.splits)
  let ?e = "\<lparr>le_Version = ''1'', le_Format = FormatLegacy, le_KDF = p,
       le_Secrets = (\<lambda>k. map_option (seal_blob L key (nonce k) k) (secrets k)), le_Meta = meta\<rparr>"
  have y: "yaml_UnmarshalEnvelope L raw = Some ?e" "yaml_Format L raw = Some FormatLegacy" "\<not> HasPrefix raw Format"
    using yaml_lawsD(2) [OF assms(1) p(2)] by simp_all
  then show "\<not> Detect raw" "DetectLegacy L raw" by (simp_all add: Detect_def DetectLegacy_def)
  have "dom (le_Secrets ?e) = dom secrets" by (auto simp: dom_def)
  then have o: "set (ord (le_Secrets ?e)) = dom secrets" using assms(4) [rule_format, of "le_Secrets ?e"] assms(5) by simp
  have "open_values L key (le_Secrets ?e) (ord (le_Secrets ?e)) Map.empty = Inr (secrets |` dom secrets)"
    using open_values_sealed [OF assms(2,3), of "ord (le_Secrets ?e)" secrets] o by simp
  moreover have "secrets |` dom secrets = secrets" by (rule ext) (simp add: restrict_map_def dom_def)
  ultimately show "OpenLegacyWithMeta L ord raw material = Inr (secrets, meta)"
    using y p(1) by (simp add: OpenLegacyWithMeta_def)
qed

text \<open>
  What the local provider relies on, in whichever format the file is: under the conditions \<open>ok\<close> a sealed file is
  recognized, is not taken for another format, and opens to what was sealed. Then a file
  has one content per key.
\<close>

locale sealed_format =
  fixes ok :: "'c \<Rightarrow> string \<Rightarrow> bool"
    and seal :: "'c \<Rightarrow> str_map \<Rightarrow> str_map \<Rightarrow> string \<Rightarrow> key_error + string"
    and unseal :: "'c \<Rightarrow> string \<Rightarrow> string \<Rightarrow> key_error + str_map \<times> str_map"
    and recognized :: "'c \<Rightarrow> string \<Rightarrow> bool"
  assumes sealed_recognized: "ok c m \<Longrightarrow> seal c s meta m = Inr raw \<Longrightarrow> finite (dom s) \<Longrightarrow> recognized c raw"
    and sealed_opens: "ok c m \<Longrightarrow> seal c s meta m = Inr raw \<Longrightarrow> finite (dom s) \<Longrightarrow> unseal c raw m = Inr (s, meta)"
begin

lemma one_content:
  assumes "ok c m" and "seal c s meta m = Inr raw" and "seal c s' meta' m = Inr raw"
    and "finite (dom s)" and "finite (dom s')"
  shows "s = s' \<and> meta = meta'"
proof -
  have "Inr (s, meta) = (Inr (s', meta') :: key_error + str_map \<times> str_map)"
    using sealed_opens [OF assms(1,2,4)] sealed_opens [OF assms(1,3,5)] by simp
  then show ?thesis by simp
qed

end

definition age_ok :: "key_libs \<Rightarrow> string \<Rightarrow> bool" where
  "age_ok L m \<longleftrightarrow> age_laws L \<and> yaml_laws L \<and> opens_own L m"

interpretation age_format: sealed_format age_ok SealWithMeta OpenWithMeta "\<lambda>L. Detect"
  unfolding age_ok_def by unfold_locales (blast intro: age_sealed)+

record legacy_setting =
  ls_libs :: key_libs
  ls_salt :: string
  ls_nonce :: "string \<Rightarrow> string"
  ls_ord :: "str_map \<Rightarrow> string list"
  ls_params :: "kdfParams option"

definition legacy_ok :: "legacy_setting \<Rightarrow> string \<Rightarrow> bool" where
  "legacy_ok c m \<longleftrightarrow> yaml_laws (ls_libs c) \<and> aead_laws (ls_libs c) \<and> (\<forall>k. length (ls_nonce c k) = 24)
     \<and> (\<forall>s. finite (dom s) \<longrightarrow> set (ls_ord c s) = dom s)"

interpretation legacy_format: sealed_format legacy_ok
  "\<lambda>c s meta m. SealLegacyWithMeta (ls_libs c) (ls_salt c) (ls_nonce c) s meta m (ls_params c)"
  "\<lambda>c. OpenLegacyWithMeta (ls_libs c) (ls_ord c)"
  "\<lambda>c raw. \<not> Detect raw \<and> DetectLegacy (ls_libs c) raw"
proof unfold_locales
  fix c :: legacy_setting and m s meta raw
  assume "legacy_ok c m" "finite (dom s)"
    "SealLegacyWithMeta (ls_libs c) (ls_salt c) (ls_nonce c) s meta m (ls_params c) = Inr raw"
  then have a: "yaml_laws (ls_libs c)" "aead_laws (ls_libs c)" "\<forall>k. length (ls_nonce c k) = 24"
    "\<forall>s. finite (dom s) \<longrightarrow> set (ls_ord c s) = dom s" "finite (dom s)"
    "SealLegacyWithMeta (ls_libs c) (ls_salt c) (ls_nonce c) s meta m (ls_params c) = Inr raw"
    by (simp_all add: legacy_ok_def)
  show "\<not> Detect raw \<and> DetectLegacy (ls_libs c) raw" using legacy_sealed(1,2) [OF a] by simp
  show "OpenLegacyWithMeta (ls_libs c) (ls_ord c) raw m = Inr (s, meta)" by (rule legacy_sealed(3) [OF a])
qed

text \<open>The order in which the values are opened does not matter.\<close>

lemma open_values_result:
  "open_values L key m ks acc = Inr r \<longleftrightarrow>
     (\<forall>k \<in> set ks. \<exists>pt. open_blob L key k (the (m k)) = Inr pt)
     \<and> r = (\<lambda>k. if k \<in> set ks then Some (projr (open_blob L key k (the (m k)))) else acc k)"
proof (induction ks arbitrary: acc)
  case (Cons k ks)
  show ?case
  proof (cases "open_blob L key k (the (m k))")
    case (Inl e)
    then show ?thesis by simp
  next
    case (Inr pt)
    then show ?thesis unfolding open_values.simps Inr sum.case Cons.IH using Inr by (auto simp: fun_eq_iff)
  qed
qed auto

lemma OpenLegacy_order:
  assumes "yaml_laws L" and "\<forall>m. finite (dom m) \<longrightarrow> set (ord m) = dom m"
    and "\<forall>m. finite (dom m) \<longrightarrow> set (ord' m) = dom m"
    and "OpenLegacyWithMeta L ord raw material = Inr x"
  shows "OpenLegacyWithMeta L ord' raw material = Inr x"
proof -
  obtain e key secrets where e: "yaml_UnmarshalEnvelope L raw = Some e" "le_Format e = FormatLegacy"
    "legacyAeadFor L material (le_KDF e) = Inr key" "x = (secrets, le_Meta e)"
    "open_values L key (le_Secrets e) (ord (le_Secrets e)) Map.empty = Inr secrets"
    using assms(4) by (auto simp: OpenLegacyWithMeta_def split: option.splits if_splits sum.splits)
  have "finite (dom (le_Secrets e))" using yaml_lawsD(4) [OF assms(1) e(1)] by blast
  then have "set (ord' (le_Secrets e)) = set (ord (le_Secrets e))" using assms(2,3) by simp
  then have "open_values L key (le_Secrets e) (ord' (le_Secrets e)) Map.empty = Inr secrets"
    using e(5) unfolding open_values_result by simp
  with e show ?thesis by (simp add: OpenLegacyWithMeta_def)
qed

subsection \<open>Resolving\<close>

lemma ResolveIdentity_Inr: "ResolveIdentity w i = Inr r \<longleftrightarrow> ResolveKeyMaterial w i = Inr r"
  by (auto simp: ResolveIdentity_def split: sum.splits key_error.splits if_splits)

lemma env_material_nonempty: "env_material w names = Some r \<Longrightarrow> kr_Material r \<noteq> []"
  by (induction names) (auto split: if_splits)

lemma resolved_nonempty: "ResolveKeyMaterial w i = Inr r \<Longrightarrow> kr_Material r \<noteq> []"
  by (auto simp: ResolveKeyMaterial_def KeyringMaterial_def promptPassphraseConfirm_def
      dest: env_material_nonempty split: option.splits if_splits sum.splits)

text \<open>A key that was stored without error is the one a later process finds in the keyring.\<close>

lemma stored_key_resolves:
  assumes "StoreKeyring accepts (kw_keyring w) material = None" and "material \<noteq> []"
    and "kw_Getenv w EnvKeyPrimary = []" and "kw_Getenv w EnvKeyFallback = []"
  shows "ResolveKeyMaterial w interactive = Inr \<lparr>kr_Material = material, kr_Source = ''keyring''\<rparr>"
  using assms by (simp add: StoreKeyring_def ResolveKeyMaterial_def KeyringMaterial_def split: if_splits)

lemma default_key_works:
  "8 \<le> length salt \<Longrightarrow>
     \<exists>key. legacyAeadFor L m (defaultKDFParams\<lparr>kd_Salt := base64_EncodeToString salt\<rparr>) = Inr key"
  by (simp add: legacyAeadFor_def defaultKDFParams_def base64_round_trip)

lemma SealLegacy_default:
  assumes "legacyAeadFor L material (defaultKDFParams\<lparr>kd_Salt := base64_EncodeToString salt\<rparr>) = Inr key"
    and "material \<noteq> []"
  shows "SealLegacyWithMeta L salt nonce secrets meta material None =
    (case yaml_MarshalEnvelope L \<lparr>le_Version = ''1'', le_Format = FormatLegacy,
        le_KDF = defaultKDFParams\<lparr>kd_Salt := base64_EncodeToString salt\<rparr>,
        le_Secrets = (\<lambda>k. map_option (seal_blob L key (nonce k) k) (secrets k)), le_Meta = meta\<rparr> of
       None \<Rightarrow> Inl (KeyError CodeGenericError ''keystore: marshal envelope'') | Some raw \<Rightarrow> Inr raw)"
proof -
  have "kd_Salt defaultKDFParams = []" by (simp add: defaultKDFParams_def)
  then show ?thesis using assms by (simp add: SealLegacyWithMeta_def)
qed

subsection \<open>Round trips\<close>

text \<open>
  C6: what is sealed opens again. With the same key material an age envelope and a legacy envelope give back
  exactly the secrets and the metadata they were made from, and each is recognised as what it is.
\<close>

theorem sealed_secrets_open:
  assumes "age_laws L" and "yaml_laws L" and "aead_laws L" and "opens_own L material"
    and "\<forall>k. length (nonce k) = 24" and "\<forall>m. finite (dom m) \<longrightarrow> set (ord m) = dom m" and "finite (dom secrets)"
  shows "(\<forall>raw. SealWithMeta L secrets meta material = Inr raw \<longrightarrow>
       Detect raw \<and> OpenWithMeta L raw material = Inr (secrets, meta))
    \<and> (\<forall>raw. SealLegacyWithMeta L salt nonce secrets meta material params = Inr raw \<longrightarrow>
       \<not> Detect raw \<and> DetectLegacy L raw \<and> OpenLegacyWithMeta L ord raw material = Inr (secrets, meta))"
  by (intro conjI allI impI)
    (rule age_sealed [OF assms(1,2,4)] legacy_sealed [OF assms(2,3,5,6,7)], assumption)+

subsection \<open>Libraries that keep the laws\<close>

text \<open>
  A model of the libraries: a document is a number, in unary, behind a letter that tells the two kinds
  apart; the ciphers put their mark on the text.
\<close>

abbreviation codes :: "string \<Rightarrow> nat list" where
  "codes s \<equiv> map of_char s"

definition uncodes :: "nat list \<Rightarrow> string" where
  "uncodes ns = map char_of ns"

lemma uncodes_codes [simp]: "uncodes (codes s) = s"
  by (induction s) (simp_all add: uncodes_def)

definition pairs_of :: "str_map \<Rightarrow> (nat list \<times> nat list) list" where
  "pairs_of m = map (\<lambda>k. (codes k, codes (the (m k)))) (sorted_list_of_set (dom m))"

definition map_of_pairs :: "(nat list \<times> nat list) list \<Rightarrow> str_map" where
  "map_of_pairs ps = map_of (map (\<lambda>(k, v). (uncodes k, uncodes v)) ps)"

lemma map_of_pairs_of: "finite (dom m) \<Longrightarrow> map_of_pairs (pairs_of m) = m"
proof -
  assume f: "finite (dom m)"
  have "map (\<lambda>(k, v). (uncodes k, uncodes v)) (pairs_of m) = map (\<lambda>k. (k, the (m k))) (sorted_list_of_set (dom m))"
    by (simp add: pairs_of_def o_def)
  moreover have "map_of (map (\<lambda>k. (k, the (m k))) ks) k = (if k \<in> set ks then Some (the (m k)) else None)" for ks k
    by (induction ks) auto
  ultimately show ?thesis using f by (auto simp: map_of_pairs_def fun_eq_iff dom_def)
qed

lemma finite_map_of_pairs: "finite (dom (map_of_pairs ps))"
  by (simp add: map_of_pairs_def finite_dom_map_of)

definition unary :: "char \<Rightarrow> nat \<Rightarrow> string" where
  "unary c n = c # replicate n (CHR ''x'')"

type_synonym envelope_code =
  "nat list \<times> nat list \<times> (nat list \<times> nat list \<times> nat \<times> nat \<times> nat) \<times> (nat list \<times> nat list) list \<times> (nat list \<times> nat list) list"

definition envelope_code :: "legacyEnvelope \<Rightarrow> envelope_code" where
  "envelope_code e = (codes (le_Version e), codes (le_Format e),
     (codes (kd_Algorithm (le_KDF e)), codes (kd_Salt (le_KDF e)), unat (kd_Time (le_KDF e)),
      unat (kd_MemoryKiB (le_KDF e)), unat (kd_Parallelism (le_KDF e))),
     pairs_of (le_Secrets e), pairs_of (le_Meta e))"

fun envelope_of :: "envelope_code \<Rightarrow> legacyEnvelope" where
  "envelope_of (v, f, (a, st, t, m, p), ss, ms) =
     \<lparr>le_Version = uncodes v, le_Format = uncodes f,
      le_KDF = \<lparr>kd_Algorithm = uncodes a, kd_Salt = uncodes st, kd_Time = of_nat t, kd_MemoryKiB = of_nat m,
        kd_Parallelism = of_nat p\<rparr>, le_Secrets = map_of_pairs ss, le_Meta = map_of_pairs ms\<rparr>"

definition model_libs :: key_libs where
  "model_libs =
     \<lparr>age_ParseX25519Identity = (\<lambda>s. None), age_ParseX25519Recipient = (\<lambda>s. None), age_Recipient = id,
      age_ScryptOk = (\<lambda>s. True), age_Encrypt = (\<lambda>r x. Some (Format @ x)),
      age_Decrypt = (\<lambda>i c. if HasPrefix c Format then Some (drop (length Format) c) else None),
      yaml_Marshal = (\<lambda>d. if finite_file d
        then Some (unary (CHR ''y'') (to_nat (codes (lf_Version d), pairs_of (lf_Secrets d), pairs_of (lf_Meta d)))) else None),
      yaml_Unmarshal = (\<lambda>raw d. if raw \<noteq> [] \<and> hd raw = CHR ''y''
        then (case from_nat (length raw - 1) of (v, ss, ms) \<Rightarrow>
          Some \<lparr>lf_Version = uncodes v, lf_Secrets = map_of_pairs ss, lf_Meta = map_of_pairs ms\<rparr>) else None),
      yaml_MarshalEnvelope = (\<lambda>e. if finite (dom (le_Secrets e)) \<and> finite (dom (le_Meta e))
        then Some (unary (CHR ''l'') (to_nat (envelope_code e))) else None),
      yaml_UnmarshalEnvelope = (\<lambda>raw. if raw \<noteq> [] \<and> hd raw = CHR ''l''
        then Some (envelope_of (from_nat (length raw - 1))) else None),
      yaml_Format = (\<lambda>raw. if raw \<noteq> [] \<and> hd raw = CHR ''l''
        then Some (le_Format (envelope_of (from_nat (length raw - 1)))) else Some []),
      argon2_IDKey = (\<lambda>k s t m p. k), aead_Seal = (\<lambda>key n v k. v @ replicate 16 (CHR ''x'')),
      aead_Open = (\<lambda>key n c k. Some (take (length c - 16) c))\<rparr>"

lemma unary_simps [simp]: "unary c n \<noteq> []" "hd (unary c n) = c" "length (unary c n) = Suc n"
  by (simp_all add: unary_def)

lemma unary_not_age: "c \<noteq> CHR ''a'' \<Longrightarrow> \<not> HasPrefix (unary c n) Format"
  by (simp add: HasPrefix_def unary_def Format_def)

lemma envelope_of_code:
  "finite (dom (le_Secrets e)) \<Longrightarrow> finite (dom (le_Meta e)) \<Longrightarrow> envelope_of (envelope_code e) = e"
  by (simp add: envelope_code_def map_of_pairs_of)

lemma envelope_of_finite: "finite (dom (le_Secrets (envelope_of c))) \<and> finite (dom (le_Meta (envelope_of c)))"
  by (cases c rule: envelope_of.cases) (simp add: finite_map_of_pairs)

lemma model_age: "age_laws model_libs"
  by (simp add: age_laws_def model_libs_def HasPrefix_def)

lemma model_aead: "aead_laws model_libs"
  by (simp add: aead_laws_def model_libs_def)

lemma model_yaml: "yaml_laws model_libs"
proof -
  have "yaml_Unmarshal model_libs raw empty_localFile = Some d \<and> yaml_Format model_libs raw = Some []
      \<and> \<not> HasPrefix raw Format" if "yaml_Marshal model_libs d = Some raw" for d raw
  proof -
    have f: "finite_file d" and r: "raw = unary (CHR ''y'') (to_nat (codes (lf_Version d), pairs_of (lf_Secrets d), pairs_of (lf_Meta d)))"
      using that by (auto simp: model_libs_def split: if_splits)
    then show ?thesis by (simp add: model_libs_def unary_not_age map_of_pairs_of finite_file_def)
  qed
  moreover have "yaml_UnmarshalEnvelope model_libs raw = Some e \<and> yaml_Format model_libs raw = Some (le_Format e)
      \<and> \<not> HasPrefix raw Format" if "yaml_MarshalEnvelope model_libs e = Some raw" for e raw
  proof -
    have f: "finite (dom (le_Secrets e))" "finite (dom (le_Meta e))" and r: "raw = unary (CHR ''l'') (to_nat (envelope_code e))"
      using that by (auto simp: model_libs_def split: if_splits)
    then show ?thesis by (simp add: model_libs_def unary_not_age envelope_of_code)
  qed
  moreover have "finite_file d'" if "yaml_Unmarshal model_libs raw d = Some d'" for raw d d'
    using that by (auto simp: model_libs_def finite_file_def finite_map_of_pairs split: if_splits prod.splits)
  moreover have "finite (dom (le_Secrets e)) \<and> finite (dom (le_Meta e))" if "yaml_UnmarshalEnvelope model_libs raw = Some e" for raw e
  proof -
    have "e = envelope_of (from_nat (length raw - 1))" using that by (simp add: model_libs_def split: if_splits)
    then show ?thesis by (simp only: envelope_of_finite)
  qed
  ultimately show ?thesis unfolding yaml_laws_def by blast
qed

theorem sealed_secrets_open_witness:
  "\<exists>raw. SealLegacyWithMeta model_libs (replicate 16 (CHR ''s'')) (\<lambda>k. replicate 24 (CHR ''n''))
       [''K'' \<mapsto> ''v''] Map.empty ''pw'' None = Inr raw
     \<and> OpenLegacyWithMeta model_libs (\<lambda>m. sorted_list_of_set (dom m)) raw ''pw'' = Inr ([''K'' \<mapsto> ''v''], Map.empty)"
proof -
  let ?seal = "SealLegacyWithMeta model_libs (replicate 16 (CHR ''s'')) (\<lambda>k. replicate 24 (CHR ''n''))
       [''K'' \<mapsto> ''v''] Map.empty ''pw'' None"
  let ?p = "defaultKDFParams\<lparr>kd_Salt := base64_EncodeToString (replicate 16 (CHR ''s''))\<rparr>"
  obtain key where k: "legacyAeadFor model_libs ''pw'' ?p = Inr key"
    using default_key_works [of "replicate 16 (CHR ''s'')"] by auto
  define blobs where "blobs = (\<lambda>k. map_option (seal_blob model_libs key (replicate 24 (CHR ''n'')) k) ([''K'' \<mapsto> ''v''] k))"
  have "dom blobs = {''K''}" by (auto simp: blobs_def split: if_splits)
  moreover have "?seal = (case yaml_MarshalEnvelope model_libs \<lparr>le_Version = ''1'', le_Format = FormatLegacy, le_KDF = ?p,
        le_Secrets = blobs, le_Meta = Map.empty\<rparr> of
      None \<Rightarrow> Inl (KeyError CodeGenericError ''keystore: marshal envelope'') | Some raw \<Rightarrow> Inr raw)"
    unfolding blobs_def by (rule SealLegacy_default [OF k]) simp
  ultimately have "\<exists>raw. ?seal = Inr raw" by (simp add: model_libs_def)
  then obtain raw where r: "?seal = Inr raw" by blast
  moreover have "opens_own model_libs ''pw''" by (simp add: opens_own_def model_libs_def)
  ultimately show ?thesis
    using sealed_secrets_open [OF model_age model_yaml model_aead, of "''pw''" "\<lambda>k. replicate 24 (CHR ''n'')"
        "\<lambda>m. sorted_list_of_set (dom m)" "[''K'' \<mapsto> ''v'']"] by auto
qed

end
