(* ===== verification/Audit_Log.thy ===== *)
theory Audit_Log
  imports Go_Json Go_Path
begin

text \<open>
  The audit trail of the local provider, \<open>src/internal/provider/local/audit.go\<close>: one JSON line per
  mutation, appended to a file that is renamed to \<open>.1\<close> when it has reached 1 MiB.

  A file system is a map from paths to contents. \<open>audit_io\<close> says which system calls of one append
  fail; \<open>ai_write\<close> is the number of bytes a failing write got out. \<open>json.Unmarshal\<close> is a parameter.
\<close>

subsection \<open>Entries\<close>

record AuditEntry =
  ae_Timestamp :: string
  ae_Op :: string
  ae_KeyNames :: "string list"
  ae_Env :: string
  ae_Actor :: string

definition AuditOpSet :: string where "AuditOpSet = ''set''"
definition AuditOpDelete :: string where "AuditOpDelete = ''delete''"

definition AuditFileName :: string where "AuditFileName = ''.skret-audit.log''"

definition AuditRotateBytes :: nat where "AuditRotateBytes = 2 ^ 20"

text \<open>\<open>json.Marshal\<close> of an entry: the fields in declaration order, under their tags.\<close>

definition json_field :: "string \<Rightarrow> string \<Rightarrow> string" where
  "json_field name val = json_string name @ '':'' @ val"

definition json_array :: "string list \<Rightarrow> string" where
  "json_array vals = ''['' @ Join vals '','' @ '']''"

definition json_Marshal_entry :: "AuditEntry \<Rightarrow> string" where
  "json_Marshal_entry e =
     ''{'' @ Join
       [json_field ''timestamp'' (json_string (ae_Timestamp e)), json_field ''op'' (json_string (ae_Op e)),
        json_field ''key_names'' (json_array (map json_string (ae_KeyNames e))),
        json_field ''env'' (json_string (ae_Env e)), json_field ''actor'' (json_string (ae_Actor e))] '',''
     @ ''}''"

text \<open>\<open>auditOpFromCtx\<close>: the operation stamped on the context, or \<open>set\<close>.\<close>

definition auditOpFromCtx :: "string option \<Rightarrow> string" where
  "auditOpFromCtx stamped = (case stamped of None \<Rightarrow> AuditOpSet | Some op \<Rightarrow> if op \<noteq> [] then op else AuditOpSet)"

subsection \<open>Reading\<close>

definition trimCR :: "string \<Rightarrow> string" where
  "trimCR s = (if s \<noteq> [] \<and> last s = CHR 0x0D then butlast s else s)"

definition splitLines :: "string \<Rightarrow> string list" where
  "splitLines s = map trimCR (Split (CHR 0x0A) s)"

text \<open>\<open>unmarshal\<close> is \<open>json.Unmarshal\<close> into an \<open>AuditEntry\<close>, \<open>None\<close> for an error.\<close>

fun read_lines ::
    "(string \<Rightarrow> AuditEntry option) \<Rightarrow> string list \<Rightarrow> AuditEntry list \<times> nat" where
  "read_lines unmarshal [] = ([], 0)"
| "read_lines unmarshal (line # rest) =
     (let (entries, skipped) = read_lines unmarshal rest
      in if line = [] then (entries, skipped)
         else (case unmarshal line of
             None \<Rightarrow> (entries, Suc skipped)
           | Some e \<Rightarrow> if ae_Op e = [] then (entries, Suc skipped) else (e # entries, skipped)))"

definition ReadAuditLog ::
    "(string \<Rightarrow> AuditEntry option) \<Rightarrow> string option \<Rightarrow> (AuditEntry list \<times> nat) option" where
  "ReadAuditLog unmarshal file = map_option (\<lambda>raw. read_lines unmarshal (splitLines raw)) file"

subsection \<open>Appending\<close>

type_synonym files = "string \<rightharpoonup> string"

record audit_io =
  ai_stat :: bool
  ai_rename :: bool
  ai_mkdir :: bool
  ai_open :: bool
  ai_write :: "nat option"
  ai_close :: bool

datatype audit_error = AuditRotate | AuditDir | AuditOpen | AuditAppend | AuditClose

definition rotateAuditLog :: "audit_io \<Rightarrow> string \<Rightarrow> files \<Rightarrow> files \<times> audit_error option" where
  "rotateAuditLog io path fs =
     (if ai_stat io then (fs, Some AuditRotate)
      else case fs path of
          None \<Rightarrow> (fs, None)
        | Some content \<Rightarrow>
            if length content < AuditRotateBytes then (fs, None)
            else if ai_rename io then (fs, Some AuditRotate)
            else (fs(path @ ''.1'' \<mapsto> content, path := None), None))"

definition append_file :: "audit_io \<Rightarrow> string \<Rightarrow> string \<Rightarrow> files \<Rightarrow> files \<times> audit_error option" where
  "append_file io path text fs =
     (let old = (case fs path of None \<Rightarrow> [] | Some c \<Rightarrow> c)
      in case ai_write io of
           Some n \<Rightarrow> (fs(path \<mapsto> old @ take n text), Some AuditAppend)
         | None \<Rightarrow> (fs(path \<mapsto> old @ text), if ai_close io then Some AuditClose else None))"

definition AppendAuditEntry :: "audit_io \<Rightarrow> string \<Rightarrow> AuditEntry \<Rightarrow> files \<Rightarrow> files \<times> audit_error option" where
  "AppendAuditEntry io path entry fs =
     and_then (rotateAuditLog io path fs)
       (\<lambda>fs1. if ai_mkdir io then (fs1, Some AuditDir)
              else if ai_open io then (fs1, Some AuditOpen)
              else append_file io path (json_Marshal_entry entry @ [CHR 0x0A]) fs1)"

subsection \<open>Who\<close>

text \<open>\<open>strings.Fields\<close> and \<open>strings.LastIndex\<close> of a byte.\<close>

definition space_at :: "string \<Rightarrow> string option" where
  "space_at s = find (\<lambda>r. HasPrefix s r) space_runes"

function fields_from :: "string \<Rightarrow> string \<Rightarrow> string list" where
  "fields_from cur [] = (if cur = [] then [] else [cur])"
| "fields_from cur (c # s) = (case space_at (c # s) of
      None \<Rightarrow> fields_from (cur @ [c]) s
    | Some r \<Rightarrow> (if cur = [] then [] else [cur]) @ fields_from [] (drop (length r - 1) s))"
  by pat_completeness auto
termination
  by (relation "measure (\<lambda>(_, s). length s)") auto

definition Fields :: "string \<Rightarrow> string list" where
  "Fields s = fields_from [] s"

definition after_last :: "char \<Rightarrow> string \<Rightarrow> string" where
  "after_last c s = (if c \<in> set s then rev (takeWhile (\<lambda>x. x \<noteq> c) (rev s)) else s)"

definition sanitizeActor :: "string \<Rightarrow> string" where
  "sanitizeActor s =
     (let fields = Fields (after_last (CHR 0x5C) s)
      in if fields = [] then ''unknown'' else Join fields ''-'')"

text \<open>\<open>AuditActor\<close> asks the environment and \<open>user.Current\<close> (\<open>None\<close> for an error).\<close>

definition AuditActor :: "(string \<Rightarrow> string) \<Rightarrow> string option \<Rightarrow> string" where
  "AuditActor getenv current =
     (if getenv ''SKRET_ACTOR'' \<noteq> [] then sanitizeActor (getenv ''SKRET_ACTOR'')
      else if current \<noteq> None \<and> current \<noteq> Some [] then sanitizeActor (the current)
      else if getenv ''USER'' \<noteq> [] then sanitizeActor (getenv ''USER'')
      else if getenv ''USERNAME'' \<noteq> [] then sanitizeActor (getenv ''USERNAME'')
      else ''unknown'')"

subsection \<open>Lines\<close>

text \<open>A trail of whole lines: empty, or ending in a line feed.\<close>

definition whole_lines :: "string \<Rightarrow> bool" where
  "whole_lines c \<longleftrightarrow> c = [] \<or> last c = CHR 0x0A"

lemma read_lines_append:
  "read_lines u (xs @ ys) = (fst (read_lines u xs) @ fst (read_lines u ys), snd (read_lines u xs) + snd (read_lines u ys))"
  by (induction xs) (auto simp: case_prod_beta Let_def split: option.split)

lemma read_lines_empty: "read_lines u (xs @ [[]]) = read_lines u xs"
  by (simp add: read_lines_append)

lemma splitLines_append: "splitLines (a @ CHR 0x0A # b) = splitLines a @ splitLines b"
  by (simp add: splitLines_def Split_append_Split)

lemma read_whole:
  assumes "whole_lines c"
  shows "read_lines u (splitLines (c @ s)) =
    (fst (read_lines u (splitLines c)) @ fst (read_lines u (splitLines s)),
     snd (read_lines u (splitLines c)) + snd (read_lines u (splitLines s)))"
proof (cases "c = []")
  case True
  have "read_lines u (splitLines []) = ([], 0)" by (simp add: splitLines_def trimCR_def)
  then show ?thesis using True by simp
next
  case False
  define c' where "c' = butlast c"
  have c: "c = c' @ [CHR 0x0A]" using False assms append_butlast_last_id unfolding c'_def whole_lines_def by metis
  have "splitLines [] = [[]]" by (simp add: splitLines_def trimCR_def)
  then have "read_lines u (splitLines c) = read_lines u (splitLines c')"
    using splitLines_append [of c' "[]"] read_lines_empty by (simp add: c)
  then show ?thesis using splitLines_append [of c' s] by (simp add: c read_lines_append)
qed

text \<open>A marshalled entry is one line and ends in a brace.\<close>

lemma Join_mem: "x \<in> set (Join xs sep) \<Longrightarrow> x \<in> set sep \<or> (\<exists>y \<in> set xs. x \<in> set y)"
  by (induction xs sep rule: Join.induct) auto

lemma json_line_mem: "x \<in> set (json_string s) \<Longrightarrow> 32 \<le> (of_char x :: nat)"
  using json_string_line by blast

lemma json_field_line: "x \<in> set (json_field n v) \<Longrightarrow> \<forall>y \<in> set v. 32 \<le> (of_char y :: nat) \<Longrightarrow> 32 \<le> (of_char x :: nat)"
  by (auto simp: json_field_def dest: json_line_mem)

lemma json_array_line: "x \<in> set (json_array (map json_string ss)) \<Longrightarrow> 32 \<le> (of_char x :: nat)"
  by (auto simp: json_array_def dest!: Join_mem json_line_mem)

lemma entry_line: "x \<in> set (json_Marshal_entry e) \<Longrightarrow> 32 \<le> (of_char x :: nat)"
  unfolding json_Marshal_entry_def
  by (auto dest!: Join_mem dest: json_field_line json_line_mem json_array_line
      simp: json_line_mem json_array_line elim!: json_field_line)

lemma entry_lines: "splitLines (json_Marshal_entry e @ [CHR 0x0A]) = [json_Marshal_entry e, []]"
proof -
  have "CHR 0x0A \<notin> set (json_Marshal_entry e)" using entry_line [of "CHR 0x0A" e] by auto
  moreover have "last (json_Marshal_entry e) = CHR ''}''" by (simp add: json_Marshal_entry_def)
  ultimately show ?thesis using Split_append [of "CHR 0x0A" "json_Marshal_entry e" "[]"]
    by (simp add: splitLines_def trimCR_def)
qed

lemma entry_not_Nil: "json_Marshal_entry e \<noteq> []"
  by (simp add: json_Marshal_entry_def)

subsection \<open>What an append does to the trail\<close>

lemma rotateAuditLog_ok:
  assumes "rotateAuditLog io path fs = (fs1, None)"
  shows "(fs1 = fs \<and> (\<forall>c. fs path = Some c \<longrightarrow> length c < AuditRotateBytes))
    \<or> (\<exists>c. fs path = Some c \<and> AuditRotateBytes \<le> length c \<and> fs1 = fs(path @ ''.1'' \<mapsto> c, path := None))"
  using assms by (auto simp: rotateAuditLog_def split: if_splits option.splits)

abbreviation trail :: "(string \<Rightarrow> AuditEntry option) \<Rightarrow> files \<Rightarrow> string \<Rightarrow> AuditEntry list \<times> nat" where
  "trail u fs path \<equiv> (case ReadAuditLog u (fs path) of None \<Rightarrow> ([], 0) | Some r \<Rightarrow> r)"

lemma appended_trail:
  assumes "whole_lines (case fs path of None \<Rightarrow> [] | Some c \<Rightarrow> c)" and "u (json_Marshal_entry e) = Some e"
    and "ae_Op e \<noteq> []" and "append_file io path (json_Marshal_entry e @ [CHR 0x0A]) fs = (fs', None)"
  shows "trail u fs' path = (fst (trail u fs path) @ [e], snd (trail u fs path))"
    and "\<exists>c. fs' path = Some c \<and> whole_lines c"
    and "\<And>q. q \<noteq> path \<Longrightarrow> fs' q = fs q"
proof -
  define old where "old = (case fs path of None \<Rightarrow> [] | Some c \<Rightarrow> c)"
  have fs': "fs' = fs(path \<mapsto> old @ json_Marshal_entry e @ [CHR 0x0A])"
    using assms(4) by (auto simp: append_file_def old_def Let_def split: option.splits if_splits)
  have "read_lines u (splitLines (json_Marshal_entry e @ [CHR 0x0A])) = ([e], 0)"
    using assms(2,3) by (simp add: entry_lines entry_not_Nil)
  then have "read_lines u (splitLines (old @ json_Marshal_entry e @ [CHR 0x0A])) =
      (fst (read_lines u (splitLines old)) @ [e], snd (read_lines u (splitLines old)))"
    using read_whole [of old u "json_Marshal_entry e @ [CHR 0x0A]"] assms(1) by (simp add: old_def)
  moreover have "trail u fs path = read_lines u (splitLines old)"
    by (auto simp: ReadAuditLog_def old_def splitLines_def trimCR_def split: option.split)
  ultimately show "trail u fs' path = (fst (trail u fs path) @ [e], snd (trail u fs path))"
    by (simp add: fs' ReadAuditLog_def)
  show "\<exists>c. fs' path = Some c \<and> whole_lines c" by (simp add: fs' whole_lines_def)
  show "fs' q = fs q" if "q \<noteq> path" for q using that by (simp add: fs')
qed

lemma append_rotated:
  assumes "AppendAuditEntry io path e fs = (fs', None)"
  obtains fs1 where "rotateAuditLog io path fs = (fs1, None)"
    "append_file io path (json_Marshal_entry e @ [CHR 0x0A]) fs1 = (fs', None)"
  using assms by (auto simp: AppendAuditEntry_def and_then_eq_None split: if_splits)

definition at_threshold :: "files \<Rightarrow> string \<Rightarrow> bool" where
  "at_threshold fs path \<longleftrightarrow> (case fs path of None \<Rightarrow> False | Some c \<Rightarrow> AuditRotateBytes \<le> length c)"

text \<open>
  C8: an append that reports success adds exactly its entry at the end of the trail and touches no other
  file, except that a trail which has reached the threshold first becomes the backup and the
  new trail starts with the entry. The trail stays a sequence of whole lines, and shorter than the
  threshold plus one line.
\<close>

theorem audit_append_exact:
  assumes "AppendAuditEntry io path e fs = (fs', None)"
    and "whole_lines (case fs path of None \<Rightarrow> [] | Some c \<Rightarrow> c)"
    and "u (json_Marshal_entry e) = Some e" and "ae_Op e \<noteq> []"
  shows "trail u fs' path = (if at_threshold fs path then ([e], 0) else (fst (trail u fs path) @ [e], snd (trail u fs path)))
    \<and> (\<forall>q. q \<noteq> path \<longrightarrow> fs' q = (if at_threshold fs path \<and> q = path @ ''.1'' then fs path else fs q))
    \<and> (\<exists>c. fs' path = Some c \<and> whole_lines c
          \<and> length c \<le> AuditRotateBytes + length (json_Marshal_entry e))"
proof -
  obtain fs1 where r: "rotateAuditLog io path fs = (fs1, None)"
    and ap: "append_file io path (json_Marshal_entry e @ [CHR 0x0A]) fs1 = (fs', None)"
    by (rule append_rotated [OF assms(1)])
  have size: "length (case fs1 path of None \<Rightarrow> [] | Some c \<Rightarrow> c) < AuditRotateBytes"
    and one: "whole_lines (case fs1 path of None \<Rightarrow> [] | Some c \<Rightarrow> c)"
    using rotateAuditLog_ok [OF r] assms(2) by (auto simp: AuditRotateBytes_def whole_lines_def split: option.splits)
  note a = appended_trail [where u = u, OF one assms(3,4) ap]
  have "fs' path = Some ((case fs1 path of None \<Rightarrow> [] | Some c \<Rightarrow> c) @ json_Marshal_entry e @ [CHR 0x0A])"
    using ap by (auto simp: append_file_def Let_def split: option.splits if_splits)
  with size a(2) have c: "\<exists>c. fs' path = Some c \<and> whole_lines c \<and> length c \<le> AuditRotateBytes + length (json_Marshal_entry e)"
    by auto
  show ?thesis
  proof (cases "at_threshold fs path")
    case True
    then obtain c0 where c0: "fs path = Some c0" "fs1 = fs(path @ ''.1'' \<mapsto> c0, path := None)"
      using rotateAuditLog_ok [OF r] by (auto simp: at_threshold_def split: option.splits)
    then have "trail u fs1 path = ([], 0)" by (simp add: ReadAuditLog_def)
    then show ?thesis using a(1,3) c c0 True by auto
  next
    case False
    then have "fs1 = fs" using rotateAuditLog_ok [OF r] by (auto simp: at_threshold_def split: option.splits)
    then show ?thesis using a(1,3) c False by auto
  qed
qed

text \<open>
  A line that a crash cut short swallows the entry of the next append, which reports success: the two
  are one line for the reader.
\<close>

lemma torn_line_swallows_next:
  assumes "fs path = Some (c @ torn)" and "whole_lines c" and "torn \<noteq> []" and "CHR 0x0A \<notin> set torn"
    and "u (torn @ json_Marshal_entry e) = None" and "u (trimCR torn) = None" and "trimCR torn \<noteq> []"
    and "AppendAuditEntry io path e fs = (fs', None)" and "\<not> at_threshold fs path"
  shows "trail u fs' path = trail u fs path"
proof -
  obtain fs1 where r: "rotateAuditLog io path fs = (fs1, None)"
    and ap: "append_file io path (json_Marshal_entry e @ [CHR 0x0A]) fs1 = (fs', None)"
    by (rule append_rotated [OF assms(8)])
  have "fs1 = fs" using rotateAuditLog_ok [OF r] assms(9) by (auto simp: at_threshold_def split: option.splits)
  then have f: "fs' path = Some (c @ torn @ json_Marshal_entry e @ [CHR 0x0A])"
    using ap assms(1) by (auto simp: append_file_def Let_def split: option.splits if_splits)
  have "CHR 0x0A \<notin> set (torn @ json_Marshal_entry e)"
    using assms(4) entry_line [of "CHR 0x0A" e] by auto
  from Split_append [OF this, of "[]"]
  have "splitLines (torn @ json_Marshal_entry e @ [CHR 0x0A]) = [torn @ json_Marshal_entry e, []]"
    by (simp add: splitLines_def trimCR_def json_Marshal_entry_def)
  then have "read_lines u (splitLines (torn @ json_Marshal_entry e @ [CHR 0x0A])) = ([], 1)"
    using assms(5) entry_not_Nil by simp
  moreover have "read_lines u (splitLines torn) = ([], 1)"
    using assms(6,7) by (simp add: splitLines_def Split_no_sep [OF assms(4)])
  ultimately show ?thesis
    by (simp add: f assms(1) ReadAuditLog_def read_whole [OF assms(2)])
qed

subsection \<open>Actors\<close>

text \<open>An actor is one token: not empty, and no white space in it.\<close>

lemma fields_from_tokens:
  "f \<in> set (fields_from cur s) \<Longrightarrow> \<forall>x \<in> set cur. is_ascii x \<longrightarrow> [x] \<notin> set space_runes \<Longrightarrow>
     f \<noteq> [] \<and> (\<forall>x \<in> set f. is_ascii x \<longrightarrow> [x] \<notin> set space_runes)"
proof (induction cur s rule: fields_from.induct)
  case (2 cur c s)
  show ?case
  proof (cases "space_at (c # s)")
    case None
    then have "[c] \<notin> set space_runes" by (auto simp: space_at_def find_None_iff HasPrefix_def)
    with 2 None show ?thesis by auto
  next
    case (Some r)
    with 2 show ?thesis by (auto split: if_splits)
  qed
qed (auto split: if_splits)

lemma Join_nonempty: "xs \<noteq> [] \<Longrightarrow> \<forall>x \<in> set xs. x \<noteq> [] \<Longrightarrow> Join xs sep \<noteq> []"
  by (induction xs sep rule: Join.induct) auto

lemma sanitizeActor_token:
  "sanitizeActor s \<noteq> [] \<and> (\<forall>x \<in> set (sanitizeActor s). is_ascii x \<longrightarrow> [x] \<notin> set space_runes)"
proof (cases "Fields (after_last (CHR 0x5C) s) = []")
  case True
  then show ?thesis by (simp add: sanitizeActor_def space_runes_def)
next
  case False
  let ?f = "Fields (after_last (CHR 0x5C) s)"
  have t: "f \<noteq> [] \<and> (\<forall>x \<in> set f. is_ascii x \<longrightarrow> [x] \<notin> set space_runes)" if "f \<in> set ?f" for f
    using that fields_from_tokens [of f "[]"] by (simp add: Fields_def)
  have "[CHR ''-''] \<notin> set space_runes" by (simp add: space_runes_def)
  then show ?thesis using False t Join_nonempty [of ?f] by (auto simp: sanitizeActor_def dest!: Join_mem)
qed

definition example_entry :: AuditEntry where
  "example_entry = \<lparr>ae_Timestamp = ''t'', ae_Op = ''set'', ae_KeyNames = [''K''], ae_Env = ''dev'', ae_Actor = ''me''\<rparr>"

definition example_unmarshal :: "string \<Rightarrow> AuditEntry option" where
  "example_unmarshal line = (if line = json_Marshal_entry example_entry then Some example_entry else None)"

abbreviation audit_works :: audit_io where
  "audit_works \<equiv> \<lparr>ai_stat = False, ai_rename = False, ai_mkdir = False, ai_open = False, ai_write = None, ai_close = False\<rparr>"

theorem audit_append_exact_witness:
  "\<exists>fs'. AppendAuditEntry audit_works ''log'' example_entry [''log'' \<mapsto> json_Marshal_entry example_entry @ [CHR 0x0A]] = (fs', None)
     \<and> trail example_unmarshal fs' ''log'' = ([example_entry, example_entry], 0)"
proof -
  let ?line = "json_Marshal_entry example_entry"
  let ?fs = "[''log'' \<mapsto> ?line @ [CHR 0x0A]]"
  have "length (?line @ [CHR 0x0A]) \<le> 1000" by code_simp
  then have small: "\<not> at_threshold ?fs ''log''" by (simp add: at_threshold_def AuditRotateBytes_def)
  obtain fs' where r: "AppendAuditEntry audit_works ''log'' example_entry ?fs = (fs', None)"
    using small by (simp add: AppendAuditEntry_def rotateAuditLog_def append_file_def at_threshold_def)
  have u: "example_unmarshal ?line = Some example_entry" by (simp add: example_unmarshal_def)
  have op: "ae_Op example_entry \<noteq> []" by (simp add: example_entry_def)
  have "read_lines example_unmarshal (splitLines (?line @ [CHR 0x0A])) = ([example_entry], 0)"
    using op by (simp add: entry_lines entry_not_Nil u)
  with audit_append_exact [where u = example_unmarshal, OF r _ u op] small r show ?thesis
    by (simp add: whole_lines_def ReadAuditLog_def)
qed

end
