(* ===== verification/Local_Provider.thy ===== *)
theory Local_Provider
  imports Keystore Audit_Log Durable_File Provider_Types
begin

text \<open>
  The provider that keeps secrets in a local file, \<open>src/internal/provider/local/local.go\<close>: loading the file in
  whichever of its three formats it is, serving and changing it, and writing it back through a
  temporary file, with an entry in the audit trail after every change.

  \<open>local_env\<close> is what a call asks of its surroundings: libraries, key sources, the random bytes, the order in
  which a \<open>range\<close> visits a map, the name \<open>os.CreateTemp\<close> picks, failing system calls, the clock.
  The mutex is not modelled: each method runs alone, as the lock makes it.
\<close>

subsection \<open>Data\<close>

record Provider =
  lp_filePath :: string
  lp_data :: localFile
  lp_encCfg :: bool
  lp_encDisk :: bool
  lp_encLegacy :: bool
  lp_keyMat :: string
  lp_keySrc :: string
  lp_keyLegacy :: bool
  lp_auditPath :: string
  lp_envName :: string

record local_config =
  lc_File :: string
  lc_Encrypted :: bool
  lc_EnvName :: string
  lc_AuditLog :: string

record local_env =
  lv_libs :: key_libs
  lv_keys :: key_world
  lv_interactive :: bool
  lv_cwd :: "string option"
  lv_readFails :: bool
  lv_salt :: string
  lv_nonce :: "string \<Rightarrow> string"
  lv_ord :: "str_map \<Rightarrow> string list"
  lv_tmp :: "files \<Rightarrow> string"
  lv_disk :: disk_faults
  lv_audit :: audit_io
  lv_now :: string
  lv_actor :: string
  lv_formatTime :: "gotime \<Rightarrow> string"
  lv_parseTime :: "string \<Rightarrow> gotime option"

datatype local_error =
    LocalPath
  | LocalRead
  | LocalParse
  | LocalKey key_error
  | LocalMarshal
  | LocalWrite string
  | LocalAudit audit_error
  | LocalNotFound
  | LocalUnsupported

subsection \<open>Loading\<close>

definition ensureKey :: "local_env \<Rightarrow> bool \<Rightarrow> Provider \<Rightarrow> Provider \<times> local_error option" where
  "ensureKey env legacy p =
     (if lp_keyMat p \<noteq> [] \<and> lp_keyLegacy p = legacy then (p, None)
      else case (if legacy then ResolveKeyMaterial else ResolveIdentity) (lv_keys env) (lv_interactive env) of
          Inl e \<Rightarrow> (p, Some (LocalKey e))
        | Inr r \<Rightarrow> (p\<lparr>lp_keyMat := kr_Material r, lp_keySrc := kr_Source r, lp_keyLegacy := legacy\<rparr>, None))"

definition version_one :: "str_map \<times> str_map \<Rightarrow> localFile" where
  "version_one sm = \<lparr>lf_Version = ''1'', lf_Secrets = fst sm, lf_Meta = snd sm\<rparr>"

definition set_data :: "Provider \<Rightarrow> key_error + str_map \<times> str_map \<Rightarrow> Provider \<times> local_error option" where
  "set_data p opened = (case opened of
      Inl e \<Rightarrow> (p, Some (LocalKey e))
    | Inr sm \<Rightarrow> (p\<lparr>lp_data := version_one sm\<rparr>, None))"

definition load :: "local_env \<Rightarrow> files \<Rightarrow> Provider \<Rightarrow> Provider \<times> local_error option" where
  "load env fs p =
     (if lv_readFails env then (p, Some LocalRead)
      else case fs (lp_filePath p) of
          None \<Rightarrow> (p\<lparr>lp_data := version_one (Map.empty, Map.empty)\<rparr>, None)
        | Some raw \<Rightarrow>
            if Detect raw
            then and_then (ensureKey env False (p\<lparr>lp_encDisk := True, lp_encLegacy := False\<rparr>))
                   (\<lambda>p1. set_data p1 (OpenWithMeta (lv_libs env) raw (lp_keyMat p1)))
            else if DetectLegacy (lv_libs env) raw
            then and_then (ensureKey env True (p\<lparr>lp_encDisk := True, lp_encLegacy := True\<rparr>))
                   (\<lambda>p1. set_data p1 (OpenLegacyWithMeta (lv_libs env) (lv_ord env) raw (lp_keyMat p1)))
            else let p1 = p\<lparr>lp_encDisk := False, lp_encLegacy := False\<rparr>
                 in (case yaml_Unmarshal (lv_libs env) raw (lp_data p1) of
                       None \<Rightarrow> (p1, Some LocalParse)
                     | Some d \<Rightarrow> (p1\<lparr>lp_data := d\<rparr>, None)))"

definition new_provider :: "string \<Rightarrow> local_config \<Rightarrow> string \<Rightarrow> Provider" where
  "new_provider absPath cfg auditAbs =
     \<lparr>lp_filePath = absPath, lp_data = empty_localFile, lp_encCfg = lc_Encrypted cfg, lp_encDisk = False,
      lp_encLegacy = False, lp_keyMat = [], lp_keySrc = [], lp_keyLegacy = False,
      lp_auditPath = auditAbs, lp_envName = lc_EnvName cfg\<rparr>"

definition New :: "local_env \<Rightarrow> local_config \<Rightarrow> files \<Rightarrow> local_error + Provider" where
  "New env cfg fs = (case filepath_Abs (lv_cwd env) (lc_File cfg) of
      None \<Rightarrow> Inl LocalPath
    | Some absPath \<Rightarrow>
        (case (if lc_AuditLog cfg \<noteq> [] then filepath_Abs (lv_cwd env) (lc_AuditLog cfg) else Some []) of
           None \<Rightarrow> Inl LocalPath
         | Some auditAbs \<Rightarrow>
             (case load env fs (new_provider absPath cfg auditAbs) of
                (p, None) \<Rightarrow> Inr p
              | (p, Some e) \<Rightarrow> Inl e)))"

subsection \<open>Reading\<close>

definition expiryFor :: "local_env \<Rightarrow> str_map \<Rightarrow> string \<Rightarrow> gotime option" where
  "expiryFor env meta key = (case meta key of None \<Rightarrow> None | Some raw \<Rightarrow> lv_parseTime env raw)"

definition secret_of :: "local_env \<Rightarrow> str_map \<Rightarrow> string \<Rightarrow> string \<Rightarrow> Secret" where
  "secret_of env meta key val =
     (let s = mk_Secret key val
      in case expiryFor env meta key of
           None \<Rightarrow> s
         | Some ts \<Rightarrow> s\<lparr>sec_Meta := (sec_Meta s)\<lparr>sm_ExpiresAt := ts\<rparr>\<rparr>)"

definition provider_Get :: "local_env \<Rightarrow> Provider \<Rightarrow> string \<Rightarrow> local_error + Secret" where
  "provider_Get env p key = (case lf_Secrets (lp_data p) key of
      None \<Rightarrow> Inl LocalNotFound
    | Some val \<Rightarrow> Inr (secret_of env (lf_Meta (lp_data p)) key val))"

definition GetBatch :: "local_env \<Rightarrow> Provider \<Rightarrow> string list \<Rightarrow> Secret list" where
  "GetBatch env p keys =
     map (\<lambda>k. secret_of env (lf_Meta (lp_data p)) k (the (lf_Secrets (lp_data p) k)))
       (filter (\<lambda>k. lf_Secrets (lp_data p) k \<noteq> None) keys)"

definition provider_List :: "local_env \<Rightarrow> Provider \<Rightarrow> Secret list" where
  "provider_List env p =
     sort_key sec_Key (map (\<lambda>k. secret_of env (lf_Meta (lp_data p)) k (the (lf_Secrets (lp_data p) k)))
       (lv_ord env (lf_Secrets (lp_data p))))"

definition ListNames :: "local_env \<Rightarrow> Provider \<Rightarrow> string list" where
  "ListNames env p = sort (lv_ord env (lf_Secrets (lp_data p)))"

text \<open>\<open>Fingerprint\<close> re-reads the file into the provider; \<open>sha\<close> is SHA-256 in hexadecimal.\<close>

definition hashLines :: "(string \<Rightarrow> string) \<Rightarrow> string list \<Rightarrow> string" where
  "hashLines sha lines = sha (Join (sort lines) [CHR 0x0A])"

definition Fingerprint ::
    "(string \<Rightarrow> string) \<Rightarrow> local_env \<Rightarrow> files \<Rightarrow> Provider \<Rightarrow> Provider \<times> (local_error + string)" where
  "Fingerprint sha env fs p = (case load env fs p of
      (p1, Some e) \<Rightarrow> (p1, Inl e)
    | (p1, None) \<Rightarrow> (p1, Inr (hashLines sha
        (map (\<lambda>k. k @ ''='' @ the (lf_Secrets (lp_data p1) k)) (lv_ord env (lf_Secrets (lp_data p1)))))))"

subsection \<open>Writing\<close>

text \<open>The file systems after each system call of \<open>save\<close>, oldest first.\<close>

definition write_temp :: "disk_faults \<Rightarrow> files \<Rightarrow> string \<Rightarrow> string \<Rightarrow> string \<Rightarrow> files list \<times> string option" where
  "write_temp f d tmp target content =
     (if df_create f then ([], Some ''create temp'')
      else case df_write f of
          Some n \<Rightarrow> ([d(tmp \<mapsto> []), d(tmp \<mapsto> take n content), d(tmp := None)], Some ''write temp'')
        | None \<Rightarrow>
            let d2 = d(tmp \<mapsto> content); ds = [d(tmp \<mapsto> []), d2]
            in if df_chmod f then (ds @ [d(tmp := None)], Some ''chmod temp'')
               else if df_close f then (ds @ [d(tmp := None)], Some ''close temp'')
               else if df_rename f then (ds @ [d(tmp := None)], Some ''rename'')
               else (ds @ [d2(target := d2 tmp, tmp := None)], None))"

text \<open>The bytes to write: sealed when the configuration or the file on disk says so.\<close>

definition encode_data :: "local_env \<Rightarrow> Provider \<Rightarrow> Provider \<times> (local_error + string)" where
  "encode_data env p =
     (if lp_encCfg p \<or> lp_encDisk p
      then (case ensureKey env (lp_encLegacy p) p of
          (p1, Some e) \<Rightarrow> (p1, Inl e)
        | (p1, None) \<Rightarrow>
            (p1, map_sum LocalKey id
               (if lp_encLegacy p
                then SealLegacyWithMeta (lv_libs env) (lv_salt env) (lv_nonce env)
                       (lf_Secrets (lp_data p)) (lf_Meta (lp_data p)) (lp_keyMat p1) None
                else SealWithMeta (lv_libs env) (lf_Secrets (lp_data p)) (lf_Meta (lp_data p)) (lp_keyMat p1))))
      else (case yaml_Marshal (lv_libs env) (lp_data p) of
          None \<Rightarrow> (p, Inl LocalMarshal)
        | Some raw \<Rightarrow> (p, Inr raw)))"

definition save :: "local_env \<Rightarrow> files \<Rightarrow> Provider \<Rightarrow> (Provider \<times> files list) \<times> local_error option" where
  "save env fs p = (case encode_data env p of
      (p1, Inl e) \<Rightarrow> ((p1, []), Some e)
    | (p1, Inr raw) \<Rightarrow>
        (case write_temp (lv_disk env) fs (lv_tmp env fs) (lp_filePath p) raw of
           (ds, e) \<Rightarrow> ((p1, ds), map_option LocalWrite e)))"

definition auditLogPath :: "Provider \<Rightarrow> string" where
  "auditLogPath p =
     (if lp_auditPath p \<noteq> [] then lp_auditPath p
      else filepath_Join [filepath_Dir (lp_filePath p), AuditFileName])"

definition AuditLogPathFor :: "local_config \<Rightarrow> string" where
  "AuditLogPathFor cfg =
     (if lc_AuditLog cfg \<noteq> [] then lc_AuditLog cfg
      else filepath_Join [filepath_Dir (lc_File cfg), AuditFileName])"

definition appendAudit :: "local_env \<Rightarrow> Provider \<Rightarrow> string \<Rightarrow> string list \<Rightarrow> files \<Rightarrow> files \<times> local_error option" where
  "appendAudit env p op keyNames fs =
     (case AppendAuditEntry (lv_audit env) (auditLogPath p)
             \<lparr>ae_Timestamp = lv_now env, ae_Op = op, ae_KeyNames = keyNames, ae_Env = lp_envName p,
              ae_Actor = lv_actor env\<rparr> fs of
        (fs', e) \<Rightarrow> (fs', map_option LocalAudit e))"

definition save_and_audit ::
    "local_env \<Rightarrow> string \<Rightarrow> string \<Rightarrow> files \<Rightarrow> Provider \<Rightarrow> (Provider \<times> files) \<times> local_error option" where
  "save_and_audit env op key fs p = (case save env fs p of
      ((p1, ds), Some e) \<Rightarrow> ((p1, last (fs # ds)), Some e)
    | ((p1, ds), None) \<Rightarrow> (case appendAudit env p1 op [key] (last (fs # ds)) of
          (fs', e) \<Rightarrow> ((p1, fs'), e)))"

definition provider_Set ::
    "local_env \<Rightarrow> string option \<Rightarrow> files \<Rightarrow> Provider \<Rightarrow> string \<Rightarrow> string \<Rightarrow> gotime
      \<Rightarrow> (Provider \<times> files) \<times> local_error option" where
  "provider_Set env stamped fs p key val expiresAt =
     (let d = lp_data p;
          d1 = d\<lparr>lf_Secrets := (lf_Secrets d)(key \<mapsto> val)\<rparr>;
          d2 = (if IsZero expiresAt then d1
                else d1\<lparr>lf_Meta := (lf_Meta d1)(key \<mapsto> lv_formatTime env expiresAt)\<rparr>)
      in save_and_audit env (auditOpFromCtx stamped) key fs (p\<lparr>lp_data := d2\<rparr>))"

definition provider_Delete ::
    "local_env \<Rightarrow> files \<Rightarrow> Provider \<Rightarrow> string \<Rightarrow> (Provider \<times> files) \<times> local_error option" where
  "provider_Delete env fs p key =
     (if lf_Secrets (lp_data p) key = None then ((p, fs), Some LocalNotFound)
      else let d = lp_data p
           in save_and_audit env AuditOpDelete key fs
                (p\<lparr>lp_data := d\<lparr>lf_Secrets := (lf_Secrets d)(key := None)\<rparr>\<rparr>))"

definition GetHistory :: "Provider \<Rightarrow> string \<Rightarrow> local_error + Secret list" where
  "GetHistory p key = Inl LocalUnsupported"

definition Rollback :: "Provider \<Rightarrow> string \<Rightarrow> int \<Rightarrow> local_error option" where
  "Rollback p key version = Some LocalUnsupported"

end
