(* ===== verification/Local_Provider_Theorems.thy ===== *)
theory Local_Provider_Theorems
  imports Local_Provider
begin

text \<open>
  The local provider as a store: what one process writes the next one reads back, in whichever format
  the file is; a failed write changes nothing; a file that is encrypted stays encrypted.
\<close>

subsection \<open>Key material\<close>

definition material :: "local_env \<Rightarrow> string option" where
  "material env = (case ResolveKeyMaterial (lv_keys env) (lv_interactive env) of
     Inl _ \<Rightarrow> None | Inr r \<Rightarrow> Some (kr_Material r))"

lemma material_nonempty: "material env = Some m \<Longrightarrow> m \<noteq> []"
  by (auto simp: material_def dest: resolved_nonempty split: sum.splits)

text \<open>A provider whose cached key, if it has one, is the one of the environment.\<close>

definition keyed :: "local_env \<Rightarrow> Provider \<Rightarrow> bool" where
  "keyed env p \<longleftrightarrow> lp_keyMat p = [] \<or> material env = Some (lp_keyMat p)"

lemma ensureKey_frame:
  assumes "ensureKey env legacy p = (p1, e)"
  shows "lp_data p1 = lp_data p" "lp_filePath p1 = lp_filePath p" "lp_encCfg p1 = lp_encCfg p"
    "lp_encDisk p1 = lp_encDisk p" "lp_encLegacy p1 = lp_encLegacy p" "lp_auditPath p1 = lp_auditPath p"
    "lp_envName p1 = lp_envName p"
  using assms by (auto simp: ensureKey_def split: if_splits sum.splits)

lemma ensureKey_keyed:
  assumes "ensureKey env legacy p = (p1, None)" and "keyed env p"
  shows "material env = Some (lp_keyMat p1)"
proof (cases "lp_keyMat p \<noteq> [] \<and> lp_keyLegacy p = legacy")
  case True
  then show ?thesis using assms by (simp add: ensureKey_def keyed_def)
next
  case False
  then obtain r where r: "(if legacy then ResolveKeyMaterial else ResolveIdentity) (lv_keys env) (lv_interactive env) = Inr r"
    and p1: "p1 = p\<lparr>lp_keyMat := kr_Material r, lp_keySrc := kr_Source r, lp_keyLegacy := legacy\<rparr>"
    using assms(1) by (auto simp: ensureKey_def split: sum.splits)
  then have "ResolveKeyMaterial (lv_keys env) (lv_interactive env) = Inr r"
    using ResolveIdentity_Inr by (auto split: if_splits)
  then show ?thesis by (simp add: p1 material_def)
qed

lemma ensureKey_works:
  assumes "material env = Some m" and "lp_keyMat p = []"
  obtains p1 where "ensureKey env legacy p = (p1, None)" "lp_keyMat p1 = m"
proof -
  obtain r where r: "ResolveKeyMaterial (lv_keys env) (lv_interactive env) = Inr r" "kr_Material r = m"
    using assms(1) by (auto simp: material_def split: sum.splits)
  then have "(if legacy then ResolveKeyMaterial else ResolveIdentity) (lv_keys env) (lv_interactive env) = Inr r"
    using ResolveIdentity_Inr by simp
  then show thesis using that assms(2) r(2) by (simp add: ensureKey_def)
qed

subsection \<open>The surroundings\<close>

text \<open>What the libraries and the runtime guarantee, and key material that can read what it wrote.\<close>

definition reliable :: "local_env \<Rightarrow> bool" where
  "reliable env \<longleftrightarrow> \<not> lv_readFails env \<and> age_laws (lv_libs env) \<and> yaml_laws (lv_libs env) \<and> aead_laws (lv_libs env)
     \<and> (\<forall>k. length (lv_nonce env k) = 24)
     \<and> (\<forall>m. finite (dom m) \<longrightarrow> distinct (lv_ord env m) \<and> set (lv_ord env m) = dom m)
     \<and> (\<forall>m. material env = Some m \<longrightarrow> opens_own (lv_libs env) m)"

text \<open>Two processes on one machine: the same libraries, key sources and working directory.\<close>

definition same_machine :: "local_env \<Rightarrow> local_env \<Rightarrow> bool" where
  "same_machine env env' \<longleftrightarrow> lv_libs env' = lv_libs env \<and> lv_keys env' = lv_keys env
     \<and> lv_interactive env' = lv_interactive env \<and> lv_cwd env' = lv_cwd env"

lemma same_machine_material: "same_machine env env' \<Longrightarrow> material env' = material env"
  by (simp add: same_machine_def material_def)

lemma reliableD:
  assumes "reliable env"
  shows "\<not> lv_readFails env" "age_laws (lv_libs env)" "yaml_laws (lv_libs env)" "aead_laws (lv_libs env)"
    "\<forall>k. length (lv_nonce env k) = 24" "\<forall>m. finite (dom m) \<longrightarrow> set (lv_ord env m) = dom m"
    "finite (dom m) \<Longrightarrow> distinct (lv_ord env m)"
    "material env = Some k \<Longrightarrow> opens_own (lv_libs env) k"
  using assms unfolding reliable_def by blast+

subsection \<open>Loading what was encoded\<close>

definition blank :: "Provider \<Rightarrow> bool" where
  "blank q \<longleftrightarrow> lp_keyMat q = [] \<and> lp_data q = empty_localFile"

lemma load_plain:
  assumes "reliable env" and "yaml_Marshal (lv_libs env) d = Some raw" and "blank q"
    and "fs (lp_filePath q) = Some raw"
  shows "\<exists>q'. load env fs q = (q', None) \<and> lp_data q' = d"
proof -
  note y = yaml_lawsD(1) [OF reliableD(3) [OF assms(1)] assms(2)]
  then have "\<not> Detect raw" "\<not> DetectLegacy (lv_libs env) raw"
    by (simp_all add: Detect_def DetectLegacy_def FormatLegacy_def)
  then show ?thesis using y reliableD(1) [OF assms(1)] assms(3,4) by (simp add: load_def blank_def Let_def)
qed

lemma load_age:
  assumes "reliable env" and "material env = Some m" and "blank q" and "fs (lp_filePath q) = Some raw"
    and "SealWithMeta (lv_libs env) s meta m = Inr raw" and "finite (dom s)"
  shows "\<exists>q'. load env fs q = (q', None) \<and> lp_data q' = version_one (s, meta)"
proof -
  have "age_ok (lv_libs env) m" using reliableD(2,3,8) [OF assms(1)] assms(2) by (simp add: age_ok_def)
  note a = age_format.sealed_recognized [OF this assms(5,6)] age_format.sealed_opens [OF this assms(5,6)]
  let ?q = "q\<lparr>lp_encDisk := True, lp_encLegacy := False\<rparr>"
  obtain q1 where "ensureKey env False ?q = (q1, None)" "lp_keyMat q1 = m"
    by (rule ensureKey_works [OF assms(2), of ?q]) (use assms(3) in \<open>simp_all add: blank_def\<close>)
  then show ?thesis using a reliableD(1) [OF assms(1)] assms(4)
    by (simp add: load_def and_then_def set_data_def)
qed

lemma load_legacy:
  assumes "reliable env" and "material env = Some m" and "blank q" and "fs (lp_filePath q) = Some raw"
    and "finite (dom s)" and "\<forall>k. length (nonce k) = 24"
    and "SealLegacyWithMeta (lv_libs env) salt nonce s meta m params = Inr raw"
  shows "\<exists>q'. load env fs q = (q', None) \<and> lp_data q' = version_one (s, meta)"
proof -
  define c where "c = \<lparr>ls_libs = lv_libs env, ls_salt = salt, ls_nonce = nonce, ls_ord = lv_ord env, ls_params = params\<rparr>"
  have c: "legacy_ok c m" "SealLegacyWithMeta (ls_libs c) (ls_salt c) (ls_nonce c) s meta m (ls_params c) = Inr raw"
    using reliableD(3,4,6) [OF assms(1)] assms(6,7) by (simp_all add: c_def legacy_ok_def)
  note a = legacy_format.sealed_recognized [OF c assms(5), unfolded c_def, simplified]
    legacy_format.sealed_opens [OF c assms(5), unfolded c_def, simplified]
  let ?q = "q\<lparr>lp_encDisk := True, lp_encLegacy := True\<rparr>"
  obtain q1 where "ensureKey env True ?q = (q1, None)" "lp_keyMat q1 = m"
    by (rule ensureKey_works [OF assms(2), of ?q]) (use assms(3) in \<open>simp_all add: blank_def\<close>)
  then show ?thesis using a reliableD(1) [OF assms(1)] assms(4)
    by (simp add: load_def and_then_def set_data_def)
qed

lemma encode_plain:
  assumes "encode_data env p = (p1, Inr raw)" and "\<not> (lp_encCfg p \<or> lp_encDisk p)"
  shows "p1 = p" and "yaml_Marshal (lv_libs env) (lp_data p) = Some raw"
  using assms by (simp_all add: encode_data_def split: option.splits)

definition seal_data :: "local_env \<Rightarrow> Provider \<Rightarrow> string \<Rightarrow> key_error + string" where
  "seal_data env p m =
     (if lp_encLegacy p
      then SealLegacyWithMeta (lv_libs env) (lv_salt env) (lv_nonce env)
             (lf_Secrets (lp_data p)) (lf_Meta (lp_data p)) m None
      else SealWithMeta (lv_libs env) (lf_Secrets (lp_data p)) (lf_Meta (lp_data p)) m)"

lemma encode_sealed:
  assumes "encode_data env p = (p1, Inr raw)" and "lp_encCfg p \<or> lp_encDisk p"
  shows "ensureKey env (lp_encLegacy p) p = (p1, None)" and "seal_data env p (lp_keyMat p1) = Inr raw"
proof -
  obtain p2 e where k: "ensureKey env (lp_encLegacy p) p = (p2, e)" by fastforce
  have "encode_data env p = (case e of Some e \<Rightarrow> (p2, Inl e)
      | None \<Rightarrow> (p2, map_sum LocalKey id (seal_data env p (lp_keyMat p2))))"
    using assms(2) by (cases e) (simp_all add: encode_data_def k seal_data_def)
  with assms(1) have "e = None \<and> p1 = p2 \<and> map_sum LocalKey id (seal_data env p (lp_keyMat p2)) = Inr raw"
    by (cases e) auto
  then show "ensureKey env (lp_encLegacy p) p = (p1, None)" "seal_data env p (lp_keyMat p1) = Inr raw"
    using k by (cases "seal_data env p (lp_keyMat p2)"; simp)+
qed

text \<open>What one process encodes, a new one loads.\<close>

lemma load_sealed:
  assumes "reliable env" and "reliable env'" and "lv_libs env' = lv_libs env" and "material env' = Some m"
    and "seal_data env p m = Inr raw" and "finite (dom (lf_Secrets (lp_data p)))"
    and "blank q" and "fs (lp_filePath q) = Some raw"
  shows "\<exists>q'. load env' fs q = (q', None)
    \<and> lp_data q' = version_one (lf_Secrets (lp_data p), lf_Meta (lp_data p))"
proof (cases "lp_encLegacy p")
  case False
  then have "SealWithMeta (lv_libs env') (lf_Secrets (lp_data p)) (lf_Meta (lp_data p)) m = Inr raw"
    using assms(3,5) by (simp add: seal_data_def)
  then show ?thesis by (rule load_age [where fs = fs, OF assms(2,4,7,8) _ assms(6)])
next
  case True
  then have "SealLegacyWithMeta (lv_libs env') (lv_salt env) (lv_nonce env) (lf_Secrets (lp_data p))
        (lf_Meta (lp_data p)) m None = Inr raw"
    using assms(3,5) by (simp add: seal_data_def)
  then show ?thesis
    by (rule load_legacy [where fs = fs, OF assms(2,4,7,8,6) reliableD(5) [OF assms(1)]])
qed

lemma load_encoded:
  assumes "reliable env" and "reliable env'" and "same_machine env env'" and "keyed env p"
    and "encode_data env p = (p1, Inr raw)" and "finite (dom (lf_Secrets (lp_data p)))"
    and "blank q" and "fs (lp_filePath q) = Some raw"
  shows "\<exists>q'. load env' fs q = (q', None) \<and> lf_Secrets (lp_data q') = lf_Secrets (lp_data p)
    \<and> lf_Meta (lp_data q') = lf_Meta (lp_data p)"
proof (cases "lp_encCfg p \<or> lp_encDisk p")
  case False
  have L: "lv_libs env' = lv_libs env" using assms(3) by (simp add: same_machine_def)
  from load_plain [where fs = fs, OF assms(2) encode_plain(2) [OF assms(5) False, folded L] assms(7,8)]
  obtain q' where "load env' fs q = (q', None)" "lp_data q' = lp_data p" by (elim exE conjE)
  then show ?thesis by (intro exI [of _ q']) simp
next
  case True
  have L: "lv_libs env' = lv_libs env" using assms(3) by (simp add: same_machine_def)
  note e = encode_sealed [OF assms(5) True]
  have "material env' = Some (lp_keyMat p1)"
    using ensureKey_keyed [OF e(1) assms(4)] same_machine_material [OF assms(3)] by simp
  from load_sealed [where fs = fs, OF assms(1,2) L this e(2) assms(6,7,8)]
  obtain q' where "load env' fs q = (q', None)"
    "lp_data q' = version_one (lf_Secrets (lp_data p), lf_Meta (lp_data p))" by (elim exE conjE)
  then show ?thesis by (intro exI [of _ q']) (simp add: version_one_def)
qed


subsection \<open>Writing the file\<close>

lemma write_temp_trace:
  assumes "d tmp = None" and "tmp \<noteq> target" and "write_temp f d tmp target content = (ds, e)"
  shows "last (d # ds) = (if e = None then d(target \<mapsto> content) else d)"
    and "d' \<in> set ds \<Longrightarrow> d' target \<in> {d target, Some content}"
proof -
  have same: "d(tmp := None) = d" using assms(1) by auto
  have new: "d(tmp \<mapsto> content, target \<mapsto> content, tmp := None) = d(target \<mapsto> content)"
    using assms(1,2) by (auto simp: fun_eq_iff)
  show "last (d # ds) = (if e = None then d(target \<mapsto> content) else d)"
    using assms(3) same new by (auto simp: write_temp_def Let_def split: if_splits option.splits)
  show "d' \<in> set ds \<Longrightarrow> d' target \<in> {d target, Some content}"
    using assms(2,3) by (auto simp: write_temp_def Let_def split: if_splits option.splits)
qed

lemma append_other_files:
  assumes "AppendAuditEntry io path entry fs = (fs', e)" and "q \<noteq> path" and "q \<noteq> path @ ''.1''"
  shows "fs' q = fs q"
proof -
  obtain fs1 e1 where r: "rotateAuditLog io path fs = (fs1, e1)" by fastforce
  then have "fs1 q = fs q" using assms(2,3) by (auto simp: rotateAuditLog_def split: if_splits option.splits)
  moreover have "fs' q = fs1 q"
    using assms(1,2) r by (cases e1) (auto simp: AppendAuditEntry_def append_file_def Let_def
        split: if_splits option.splits)
  ultimately show ?thesis by simp
qed

lemma appendAudit_other:
  assumes "appendAudit env p op names fs = (fs', e)" and "q \<noteq> auditLogPath p" and "q \<noteq> auditLogPath p @ ''.1''"
  shows "fs' q = fs q" and "e = None \<or> (\<exists>a. e = Some (LocalAudit a))"
proof -
  let ?e = "\<lparr>ae_Timestamp = lv_now env, ae_Op = op, ae_KeyNames = names, ae_Env = lp_envName p,
              ae_Actor = lv_actor env\<rparr>"
  obtain fs1 e1 where a: "AppendAuditEntry (lv_audit env) (auditLogPath p) ?e fs = (fs1, e1)" by fastforce
  then have "fs' = fs1 \<and> e = map_option LocalAudit e1" using assms(1) by (simp add: appendAudit_def)
  then show "fs' q = fs q" "e = None \<or> (\<exists>a. e = Some (LocalAudit a))"
    using append_other_files [OF a assms(2,3)] by (cases e1; simp)+
qed

subsection \<open>Loading\<close>

lemma set_data_cases: "set_data p r = (p1, e) \<Longrightarrow>
    (e \<noteq> None \<and> p1 = p) \<or> (\<exists>sm. r = Inr sm \<and> e = None \<and> p1 = p\<lparr>lp_data := version_one sm\<rparr>)"
  by (auto simp: set_data_def split: sum.splits)

text \<open>The four ways a load succeeds.\<close>

lemma load_cases:
  assumes "load env fs q = (p, None)"
  obtains (missing) "fs (lp_filePath q) = None" "p = q\<lparr>lp_data := version_one (Map.empty, Map.empty)\<rparr>"
  | (age) raw p1 sm where "fs (lp_filePath q) = Some raw" "Detect raw"
      "ensureKey env False (q\<lparr>lp_encDisk := True, lp_encLegacy := False\<rparr>) = (p1, None)"
      "OpenWithMeta (lv_libs env) raw (lp_keyMat p1) = Inr sm" "p = p1\<lparr>lp_data := version_one sm\<rparr>"
  | (legacy) raw p1 sm where "fs (lp_filePath q) = Some raw" "\<not> Detect raw" "DetectLegacy (lv_libs env) raw"
      "ensureKey env True (q\<lparr>lp_encDisk := True, lp_encLegacy := True\<rparr>) = (p1, None)"
      "OpenLegacyWithMeta (lv_libs env) (lv_ord env) raw (lp_keyMat p1) = Inr sm" "p = p1\<lparr>lp_data := version_one sm\<rparr>"
  | (plain) raw d where "fs (lp_filePath q) = Some raw" "\<not> Detect raw" "\<not> DetectLegacy (lv_libs env) raw"
      "yaml_Unmarshal (lv_libs env) raw (lp_data q) = Some d"
      "p = q\<lparr>lp_encDisk := False, lp_encLegacy := False, lp_data := d\<rparr>"
proof (cases "fs (lp_filePath q)")
  case None
  then show thesis using assms missing by (simp add: load_def split: if_splits)
next
  case (Some raw)
  show thesis
  proof (cases "Detect raw")
    case d: True
    let ?q = "q\<lparr>lp_encDisk := True, lp_encLegacy := False\<rparr>"
    obtain p1 e where k: "ensureKey env False ?q = (p1, e)" by fastforce
    have "e = None \<and> set_data p1 (OpenWithMeta (lv_libs env) raw (lp_keyMat p1)) = (p, None)"
      using assms Some d k by (cases e) (simp_all add: load_def and_then_def split: if_splits)
    then show thesis using age [OF Some d] k set_data_cases by blast
  next
    case nd: False
    show thesis
    proof (cases "DetectLegacy (lv_libs env) raw")
      case d: True
      let ?q = "q\<lparr>lp_encDisk := True, lp_encLegacy := True\<rparr>"
      obtain p1 e where k: "ensureKey env True ?q = (p1, e)" by fastforce
      have "e = None \<and> set_data p1 (OpenLegacyWithMeta (lv_libs env) (lv_ord env) raw (lp_keyMat p1)) = (p, None)"
        using assms Some nd d k by (cases e) (simp_all add: load_def and_then_def split: if_splits)
      then show thesis using legacy [OF Some nd d] k set_data_cases by blast
    next
      case False
      then show thesis
        using assms Some nd plain by (simp add: load_def Let_def split: if_splits option.splits)
    qed
  qed
qed

lemma load_frame:
  assumes "load env fs q = (p, None)"
  shows "lp_filePath p = lp_filePath q \<and> lp_encCfg p = lp_encCfg q \<and> lp_auditPath p = lp_auditPath q
    \<and> lp_envName p = lp_envName q"
  using assms by (cases rule: load_cases) (auto dest: ensureKey_frame)

lemma load_keyed:
  assumes "load env fs q = (p, None)" and "blank q"
  shows "keyed env p"
  using assms(1)
proof (cases rule: load_cases)
  case (age raw p1 sm)
  have "keyed env (q\<lparr>lp_encDisk := True, lp_encLegacy := False\<rparr>)" using assms(2) by (simp add: keyed_def blank_def)
  from ensureKey_keyed [OF age(3) this] show ?thesis by (simp add: age(5) keyed_def)
next
  case (legacy raw p1 sm)
  have "keyed env (q\<lparr>lp_encDisk := True, lp_encLegacy := True\<rparr>)" using assms(2) by (simp add: keyed_def blank_def)
  from ensureKey_keyed [OF legacy(4) this] show ?thesis by (simp add: legacy(6) keyed_def)
qed (use assms(2) in \<open>simp_all add: keyed_def blank_def\<close>)

definition encrypted_file :: "key_libs \<Rightarrow> string \<Rightarrow> bool" where
  "encrypted_file L raw \<longleftrightarrow> Detect raw \<or> DetectLegacy L raw"

lemma load_encDisk:
  assumes "load env fs q = (p, None)" and "\<not> lp_encDisk q"
  shows "lp_encDisk p \<longleftrightarrow> (\<exists>raw. fs (lp_filePath q) = Some raw \<and> encrypted_file (lv_libs env) raw)"
  using assms(1)
  by (cases rule: load_cases) (use assms(2) in \<open>auto simp: encrypted_file_def dest: ensureKey_frame\<close>)

lemma empty_localFile_simps [simp]: "lf_Secrets empty_localFile = Map.empty"
  by (simp add: empty_localFile_def)

lemma OpenWithMeta_finite:
  assumes "yaml_laws L" and "OpenWithMeta L raw k = Inr sm"
  shows "finite_file (version_one sm)"
proof -
  obtain plain d where "yaml_Unmarshal L plain empty_localFile = Some d" "sm = (lf_Secrets d, lf_Meta d)"
    using assms(2) by (auto simp: OpenWithMeta_def split: if_splits sum.splits option.splits)
  moreover have "finite_file empty_localFile" by (simp add: finite_file_def empty_localFile_def)
  ultimately show ?thesis using yaml_lawsD(3) [OF assms(1)] by (simp add: finite_file_def version_one_def)
qed

lemma OpenLegacy_finite:
  assumes "yaml_laws L" and "\<forall>m. finite (dom m) \<longrightarrow> set (ord m) = dom m" and "OpenLegacyWithMeta L ord raw k = Inr sm"
  shows "finite_file (version_one sm)"
proof -
  obtain e key secrets where e: "yaml_UnmarshalEnvelope L raw = Some e" "sm = (secrets, le_Meta e)"
    "open_values L key (le_Secrets e) (ord (le_Secrets e)) Map.empty = Inr secrets"
    using assms(3) by (auto simp: OpenLegacyWithMeta_def split: option.splits if_splits sum.splits)
  then have "dom secrets \<subseteq> set (ord (le_Secrets e))"
    unfolding open_values_result by (auto split: if_splits)
  then have "finite (dom secrets)" by (rule finite_subset) simp
  then show ?thesis using e(2) yaml_lawsD(4) [OF assms(1) e(1)] by (simp add: finite_file_def version_one_def)
qed

lemma load_finite:
  assumes "load env fs q = (p, None)" and "blank q" and "reliable env"
  shows "finite_file (lp_data p)"
  using assms(1)
proof (cases rule: load_cases)
  case (age raw p1 sm)
  then show ?thesis using OpenWithMeta_finite [OF reliableD(3) [OF assms(3)]] by simp
next
  case (legacy raw p1 sm)
  then show ?thesis using OpenLegacy_finite [OF reliableD(3,6) [OF assms(3)]] by simp
next
  case (plain raw d)
  then show ?thesis using yaml_lawsD(3) [OF reliableD(3) [OF assms(3)] plain(4)] assms(2)
    by (simp add: blank_def finite_file_def empty_localFile_def)
qed (simp add: version_one_def finite_file_def)

lemma ensureKey_machine: "same_machine env env' \<Longrightarrow> ensureKey env' l p = ensureKey env l p"
  by (simp add: same_machine_def ensureKey_def)

text \<open>Another process on the same machine loads the same.\<close>

lemma load_machine:
  assumes "load env fs q = (p, None)" and "reliable env" and "reliable env'" and "same_machine env env'"
  shows "load env' fs q = (p, None)"
proof -
  have L: "lv_libs env' = lv_libs env" using assms(4) by (simp add: same_machine_def)
  have nr: "\<not> lv_readFails env'" by (rule reliableD(1) [OF assms(3)])
  from assms(1) show ?thesis
  proof (cases rule: load_cases)
    case (legacy raw p1 sm)
    have "OpenLegacyWithMeta (lv_libs env') (lv_ord env') raw (lp_keyMat p1) = Inr sm"
      using OpenLegacy_order [OF reliableD(3,6) [OF assms(2)] reliableD(6) [OF assms(3)] legacy(5)] L by simp
    then show ?thesis using legacy nr L
      by (simp add: load_def ensureKey_machine [OF assms(4)] and_then_def set_data_def)
  qed (use nr L in \<open>simp_all add: load_def ensureKey_machine [OF assms(4)] and_then_def set_data_def Let_def\<close>)
qed

subsection \<open>One process\<close>

text \<open>A command opens the store, performs one operation and exits.\<close>

datatype store_op = OpGet string | OpList | OpSet "string option" string string gotime | OpDelete string

datatype store_result = RSecret Secret | RSecrets "Secret list" | RDone | RError local_error

definition result_of :: "local_error option \<Rightarrow> store_result" where
  "result_of e = (case e of None \<Rightarrow> RDone | Some err \<Rightarrow> RError err)"

definition local_step :: "local_env \<Rightarrow> local_config \<Rightarrow> store_op \<Rightarrow> files \<Rightarrow> files \<times> store_result" where
  "local_step env cfg op fs = (case New env cfg fs of
      Inl e \<Rightarrow> (fs, RError e)
    | Inr p \<Rightarrow> (case op of
          OpGet k \<Rightarrow> (fs, case provider_Get env p k of Inl e \<Rightarrow> RError e | Inr s \<Rightarrow> RSecret s)
        | OpList \<Rightarrow> (fs, RSecrets (provider_List env p))
        | OpSet stamped k v t \<Rightarrow> (case provider_Set env stamped fs p k v t of ((_, fs'), e) \<Rightarrow> (fs', result_of e))
        | OpDelete k \<Rightarrow> (case provider_Delete env fs p k of ((_, fs'), e) \<Rightarrow> (fs', result_of e))))"

text \<open>What a new process sees: the secrets and the recorded expiry times.\<close>

definition view :: "local_env \<Rightarrow> local_config \<Rightarrow> files \<Rightarrow> (str_map \<times> str_map) option" where
  "view env cfg fs = (case New env cfg fs of
     Inl _ \<Rightarrow> None | Inr p \<Rightarrow> Some (lf_Secrets (lp_data p), lf_Meta (lp_data p)))"

definition layout :: "local_env \<Rightarrow> local_config \<Rightarrow> string \<Rightarrow> string \<Rightarrow> bool" where
  "layout env cfg path aud \<longleftrightarrow> filepath_Abs (lv_cwd env) (lc_File cfg) = Some path
     \<and> (if lc_AuditLog cfg \<noteq> [] then filepath_Abs (lv_cwd env) (lc_AuditLog cfg) else Some []) = Some aud"

text \<open>The trail and its backup are other files, and \<open>os.CreateTemp\<close> makes a new one.\<close>

definition apart :: "local_env \<Rightarrow> local_config \<Rightarrow> bool" where
  "apart env cfg \<longleftrightarrow> (\<forall>path aud. layout env cfg path aud \<longrightarrow>
     path \<noteq> auditLogPath (new_provider path cfg aud) \<and> path \<noteq> auditLogPath (new_provider path cfg aud) @ ''.1''
     \<and> (\<forall>fs. finite (dom fs) \<longrightarrow> fs (lv_tmp env fs) = None \<and> lv_tmp env fs \<noteq> path))"

lemma New_Inr:
  "New env cfg fs = Inr p \<longleftrightarrow>
     (\<exists>path aud. layout env cfg path aud \<and> load env fs (new_provider path cfg aud) = (p, None))"
  by (auto simp: New_def layout_def split: option.splits prod.splits)

lemma layout_machine: "same_machine env env' \<Longrightarrow> layout env' cfg path aud = layout env cfg path aud"
  by (simp add: layout_def same_machine_def)

lemma new_provider_blank: "blank (new_provider path cfg aud)" "lp_filePath (new_provider path cfg aud) = path"
  "lp_encCfg (new_provider path cfg aud) = lc_Encrypted cfg" "\<not> lp_encDisk (new_provider path cfg aud)"
  by (simp_all add: new_provider_def blank_def)

lemma loaded_provider:
  assumes "load env fs (new_provider path cfg aud) = (p, None)" and "reliable env"
  shows "lp_filePath p = path" "auditLogPath p = auditLogPath (new_provider path cfg aud)" "keyed env p"
    "finite (dom (lf_Secrets (lp_data p)))" "lp_encCfg p = lc_Encrypted cfg" "finite_file (lp_data p)"
  using load_frame [OF assms(1)] load_keyed [OF assms(1) new_provider_blank(1)]
    load_finite [OF assms(1) new_provider_blank(1) assms(2)]
  by (simp_all add: new_provider_blank auditLogPath_def finite_file_def)

lemma view_machine:
  assumes "view env cfg fs = Some v" and "reliable env" and "reliable env'" and "same_machine env env'"
  shows "view env' cfg fs = Some v"
proof -
  obtain p where p: "New env cfg fs = Inr p" "v = (lf_Secrets (lp_data p), lf_Meta (lp_data p))"
    using assms(1) by (auto simp: view_def split: sum.splits)
  then have "New env' cfg fs = Inr p"
    unfolding New_Inr using load_machine [OF _ assms(2-4)] layout_machine [OF assms(4)] by blast
  with p(2) show ?thesis by (simp add: view_def)
qed

subsection \<open>Saving\<close>

text \<open>
  Either the file has the encoded data and at most the trail failed, or nothing changed.
\<close>

lemma save_and_audit_cases:
  assumes "save_and_audit env op key fs p = ((p2, fs'), e)"
    and "fs (lv_tmp env fs) = None" "lv_tmp env fs \<noteq> lp_filePath p"
    and "lp_filePath p \<noteq> auditLogPath p" "lp_filePath p \<noteq> auditLogPath p @ ''.1''"
  obtains (saved) p1 raw where "encode_data env p = (p1, Inr raw)" "fs' (lp_filePath p) = Some raw"
      "e = None \<or> (\<exists>a. e = Some (LocalAudit a))"
  | (failed) "fs' = fs" "e \<noteq> None" "\<And>a. e \<noteq> Some (LocalAudit a)" "e \<noteq> Some LocalNotFound"
proof (cases "encode_data env p")
  case (Pair p1 r)
  show thesis
  proof (cases r)
    case (Inl err)
    then have "save env fs p = ((p1, []), Some err)" by (simp add: save_def Pair)
    then have "fs' = fs" "e = Some err" using assms(1) by (simp_all add: save_and_audit_def)
    moreover have "err \<noteq> LocalAudit a \<and> err \<noteq> LocalNotFound" for a
    proof (rule ccontr)
      assume "\<not> ?thesis"
      then show False using Pair Inl
        by (cases "ensureKey env (lp_encLegacy p) p") (auto simp: encode_data_def ensureKey_def map_sum_def
            split: if_splits sum.splits option.splits)
    qed
    ultimately show thesis using failed by simp
  next
    case (Inr raw)
    obtain ds we where w: "write_temp (lv_disk env) fs (lv_tmp env fs) (lp_filePath p) raw = (ds, we)" by fastforce
    then have s: "save env fs p = ((p1, ds), map_option LocalWrite we)" by (simp add: save_def Pair Inr)
    note tr = write_temp_trace(1) [OF assms(2,3) w]
    show thesis
    proof (cases we)
      case None
      have "lp_auditPath p1 = lp_auditPath p \<and> lp_filePath p1 = lp_filePath p"
        using Pair Inr by (cases "ensureKey env (lp_encLegacy p) p")
          (auto simp: encode_data_def dest: ensureKey_frame split: if_splits option.splits)
      then have same: "auditLogPath p1 = auditLogPath p" by (simp add: auditLogPath_def)
      obtain fs2 ae where a: "appendAudit env p1 op [key] (last (fs # ds)) = (fs2, ae)" by fastforce
      then have r: "fs' = fs2" "e = ae" using assms(1) s None by (simp_all add: save_and_audit_def)
      have "fs2 (lp_filePath p) = last (fs # ds) (lp_filePath p)"
        by (rule appendAudit_other(1) [OF a]) (use assms(4,5) same in simp_all)
      moreover have "ae = None \<or> (\<exists>x. ae = Some (LocalAudit x))"
        by (rule appendAudit_other(2) [OF a, of "lp_filePath p"]) (use assms(4,5) same in simp_all)
      ultimately show thesis using saved [of p1 raw] Pair Inr r tr None by simp
    next
      case (Some x)
      then have "fs' = fs" "e = Some (LocalWrite x)" using assms(1) s tr by (simp_all add: save_and_audit_def)
      then show thesis using failed by simp
    qed
  qed
qed

text \<open>A change that was saved is what every later process sees.\<close>

lemma change_seen:
  assumes "reliable env" and "reliable env'" and "same_machine env env'" and "apart env cfg"
    and "layout env cfg path aud" and "load env fs (new_provider path cfg aud) = (p, None)"
    and "finite (dom (lf_Secrets d))" and "save_and_audit env op key fs (p\<lparr>lp_data := d\<rparr>) = ((p2, fs'), e)"
    and "finite (dom fs)"
  shows "(fs' = fs \<and> e \<noteq> None \<and> (\<forall>a. e \<noteq> Some (LocalAudit a)) \<and> e \<noteq> Some LocalNotFound)
    \<or> (view env' cfg fs' = Some (lf_Secrets d, lf_Meta d) \<and> (e = None \<or> (\<exists>a. e = Some (LocalAudit a))))"
proof -
  let ?p = "p\<lparr>lp_data := d\<rparr>"
  note lp = loaded_provider [OF assms(6,1)]
  have ap: "auditLogPath ?p = auditLogPath p" by (simp add: auditLogPath_def)
  have fresh: "fs (lv_tmp env fs) = None" "lv_tmp env fs \<noteq> lp_filePath ?p"
    "lp_filePath ?p \<noteq> auditLogPath ?p" "lp_filePath ?p \<noteq> auditLogPath ?p @ ''.1''"
    using assms(4,5,9) lp(1,2) unfolding apart_def ap by simp_all
  from assms(8) fresh show ?thesis
  proof (cases rule: save_and_audit_cases)
    case (saved p1 raw)
    have k: "keyed env ?p" using lp(3) by (simp add: keyed_def)
    have f: "finite (dom (lf_Secrets (lp_data ?p)))" using assms(7) by simp
    have "fs' (lp_filePath (new_provider path cfg aud)) = Some raw"
      using saved(2) lp(1) by (simp add: new_provider_blank)
    from load_encoded [where fs = fs', OF assms(1-3) k saved(1) f new_provider_blank(1) this] obtain q' where
      "load env' fs' (new_provider path cfg aud) = (q', None)" "lf_Secrets (lp_data q') = lf_Secrets d"
      "lf_Meta (lp_data q') = lf_Meta d" by auto
    moreover from this(1) have "New env' cfg fs' = Inr q'"
      unfolding New_Inr using assms(5) layout_machine [OF assms(3)] by blast
    ultimately show ?thesis using saved(3) by (simp add: view_def)
  qed auto
qed

subsection \<open>The store as a map\<close>

text \<open>
  What the provider promises: a finite map from names to values, with expiry times beside it. A change that
  cannot be written leaves the map as it was; one that is written stays written even when the trail fails.
\<close>

definition stored :: "local_env \<Rightarrow> str_map \<Rightarrow> string \<Rightarrow> gotime \<Rightarrow> str_map" where
  "stored env M k t = (if IsZero t then M else M(k \<mapsto> lv_formatTime env t))"

definition changed :: "str_map \<times> str_map \<Rightarrow> str_map \<times> str_map \<Rightarrow> str_map \<times> str_map \<Rightarrow> store_result \<Rightarrow> bool" where
  "changed old new now r \<longleftrightarrow>
     (now = new \<and> (r = RDone \<or> (\<exists>a. r = RError (LocalAudit a))))
     \<or> (now = old \<and> (\<exists>e. r = RError e \<and> e \<noteq> LocalNotFound \<and> (\<forall>a. e \<noteq> LocalAudit a)))"

fun map_step :: "local_env \<Rightarrow> store_op \<Rightarrow> str_map \<times> str_map \<Rightarrow> str_map \<times> str_map \<Rightarrow> store_result \<Rightarrow> bool" where
  "map_step env (OpGet k) (S, M) now r \<longleftrightarrow> now = (S, M) \<and>
     r = (case S k of None \<Rightarrow> RError LocalNotFound | Some v \<Rightarrow> RSecret (secret_of env M k v))"
| "map_step env OpList (S, M) now r \<longleftrightarrow> now = (S, M) \<and>
     r = RSecrets (map (\<lambda>k. secret_of env M k (the (S k))) (sorted_list_of_set (dom S)))"
| "map_step env (OpSet _ k v t) (S, M) now r \<longleftrightarrow> changed (S, M) (S(k \<mapsto> v), stored env M k t) now r"
| "map_step env (OpDelete k) (S, M) now r \<longleftrightarrow>
     (if S k = None then now = (S, M) \<and> r = RError LocalNotFound
      else changed (S, M) (S(k := None), M) now r)"

lemma secret_of_Key [simp]: "sec_Key (secret_of env M k v) = k"
  by (simp add: secret_of_def Let_def split: option.split)

lemma sorted_by_key:
  assumes "distinct ks" and "\<And>k. sec_Key (f k) = k"
  shows "sort_key sec_Key (map f ks) = map f (sorted_list_of_set (set ks))"
proof (rule map_sorted_distinct_set_unique)
  have m: "map sec_Key (map f xs) = xs" for xs using assms(2) by (induction xs) auto
  have i: "inj_on sec_Key (f ` A)" for A using assms(2) by (auto simp: inj_on_def)
  show "inj_on sec_Key (set (sort_key sec_Key (map f ks)) \<union> set (map f (sorted_list_of_set (set ks))))"
    using i by (simp add: image_Un [symmetric])
  show "sorted (map sec_Key (sort_key sec_Key (map f ks)))" by simp
  show "sorted (map sec_Key (map f (sorted_list_of_set (set ks))))" by (simp only: m) simp
  show "distinct (map sec_Key (sort_key sec_Key (map f ks)))"
    using assms(1) i [of "set ks"] inj_on_inverseI [of "set ks" sec_Key f] assms(2) by (simp add: distinct_map)
  show "distinct (map sec_Key (map f (sorted_list_of_set (set ks))))" by (simp only: m) simp
  show "set (sort_key sec_Key (map f ks)) = set (map f (sorted_list_of_set (set ks)))" by simp
qed

lemma List_sorted:
  assumes "reliable env" and "finite (dom (lf_Secrets (lp_data p)))"
  shows "provider_List env p = map (\<lambda>k. secret_of env (lf_Meta (lp_data p)) k (the (lf_Secrets (lp_data p) k)))
    (sorted_list_of_set (dom (lf_Secrets (lp_data p))))"
  unfolding provider_List_def
  using sorted_by_key [OF reliableD(7) [OF assms],
      of "\<lambda>k. secret_of env (lf_Meta (lp_data p)) k (the (lf_Secrets (lp_data p) k))"]
    reliableD(6) [OF assms(1)] assms(2) by simp

lemma change_step:
  assumes "reliable env" and "reliable env'" and "same_machine env env'" and "apart env cfg"
    and "layout env cfg path aud" and "load env fs (new_provider path cfg aud) = (p, None)"
    and "view env cfg fs = Some old"
    and "finite (dom (lf_Secrets d))" and "save_and_audit env op key fs (p\<lparr>lp_data := d\<rparr>) = ((p2, fs'), e)"
    and "finite (dom fs)"
  shows "\<exists>now. view env' cfg fs' = Some now \<and> changed old (lf_Secrets d, lf_Meta d) now (result_of e)"
  using change_seen [OF assms(1-6,8,9,10)]
proof (elim disjE conjE)
  assume "fs' = fs" "e \<noteq> None" "\<forall>a. e \<noteq> Some (LocalAudit a)" "e \<noteq> Some LocalNotFound"
  then show ?thesis using view_machine [OF assms(7,1-3)] by (auto simp: changed_def result_of_def)
next
  assume v: "view env' cfg fs' = Some (lf_Secrets d, lf_Meta d)"
  assume "e = None"
  with v show ?thesis by (simp add: changed_def result_of_def)
next
  assume v: "view env' cfg fs' = Some (lf_Secrets d, lf_Meta d)"
  assume "\<exists>a. e = Some (LocalAudit a)"
  with v show ?thesis by (auto simp: changed_def result_of_def)
qed

lemma local_step_refines:
  assumes "reliable env" and "reliable env'" and "same_machine env env'" and "apart env cfg"
    and "view env cfg fs = Some st" and "local_step env cfg op fs = (fs', r)" and "finite (dom fs)"
  shows "\<exists>now. view env' cfg fs' = Some now \<and> map_step env op st now r"
proof -
  obtain p where n: "New env cfg fs = Inr p" and st: "st = (lf_Secrets (lp_data p), lf_Meta (lp_data p))"
    using assms(5) by (auto simp: view_def split: sum.splits)
  obtain path aud where l: "layout env cfg path aud" and ld: "load env fs (new_provider path cfg aud) = (p, None)"
    using n unfolding New_Inr by blast
  note lp = loaded_provider [OF ld assms(1)]
  note keep = view_machine [OF assms(5,1-3)]
  let ?S = "lf_Secrets (lp_data p)" and ?M = "lf_Meta (lp_data p)"
  show ?thesis
  proof (cases op)
    case (OpGet k)
    then have "fs' = fs" "r = (case ?S k of None \<Rightarrow> RError LocalNotFound | Some v \<Rightarrow> RSecret (secret_of env ?M k v))"
      using assms(6) n by (auto simp: local_step_def provider_Get_def split: option.splits)
    then show ?thesis using keep OpGet st by (intro exI [of _ st]) simp
  next
    case OpList
    then have "fs' = fs" "r = RSecrets (provider_List env p)" using assms(6) n by (simp_all add: local_step_def)
    then show ?thesis using keep OpList st List_sorted [OF assms(1) lp(4)] by (intro exI [of _ st]) simp
  next
    case (OpSet stamped k v t)
    define d where "d = (lp_data p)\<lparr>lf_Secrets := ?S(k \<mapsto> v), lf_Meta := stored env ?M k t\<rparr>"
    obtain p2 fs2 e where s: "provider_Set env stamped fs p k v t = ((p2, fs2), e)" by (metis prod.exhaust)
    then have sv: "save_and_audit env (auditOpFromCtx stamped) k fs (p\<lparr>lp_data := d\<rparr>) = ((p2, fs2), e)"
      by (cases "lp_data p") (auto simp: provider_Set_def Let_def d_def stored_def split: if_splits)
    have f: "finite (dom (lf_Secrets d))" using lp(4) by (simp add: d_def)
    have "fs' = fs2" "r = result_of e" using assms(6) n OpSet s by (simp_all add: local_step_def)
    then show ?thesis using change_step [OF assms(1-4) l ld assms(5) f sv assms(7)] OpSet st by (simp add: d_def)
  next
    case (OpDelete k)
    define d where "d = (lp_data p)\<lparr>lf_Secrets := ?S(k := None)\<rparr>"
    obtain p2 fs2 e where s: "provider_Delete env fs p k = ((p2, fs2), e)" by (metis prod.exhaust)
    then have r: "fs' = fs2" "r = result_of e" using assms(6) n OpDelete by (simp_all add: local_step_def)
    show ?thesis
    proof (cases "?S k = None")
      case True
      then have "fs2 = fs" "e = Some LocalNotFound" using s by (simp_all add: provider_Delete_def)
      then show ?thesis using keep OpDelete st True r by (intro exI [of _ st]) (simp add: result_of_def)
    next
      case False
      then have "provider_Delete env fs p k = save_and_audit env AuditOpDelete k fs (p\<lparr>lp_data := d\<rparr>)"
        by (auto simp: provider_Delete_def Let_def d_def)
      then have sv: "save_and_audit env AuditOpDelete k fs (p\<lparr>lp_data := d\<rparr>) = ((p2, fs2), e)" using s by simp
      have f: "finite (dom (lf_Secrets d))" using lp(4) by (simp add: d_def)
      from change_step [OF assms(1-4) l ld assms(5) f sv assms(7)] obtain now where "view env' cfg fs2 = Some now"
        "changed (?S, ?M) (?S(k := None), ?M) now (result_of e)" by (auto simp: d_def st)
      then show ?thesis using OpDelete st False r by (intro exI [of _ now]) auto
    qed
  qed
qed

subsection \<open>Nothing fails by itself\<close>

text \<open>No system call and no library call fails (on the finite maps there are), and there is key material.\<close>

definition undisturbed :: "local_env \<Rightarrow> bool" where
  "undisturbed env \<longleftrightarrow> lv_disk env = no_faults \<and> lv_audit env = audit_works
     \<and> (\<forall>d. finite_file d \<longrightarrow> yaml_Marshal (lv_libs env) d \<noteq> None)
     \<and> (\<forall>e. finite (dom (le_Secrets e)) \<and> finite (dom (le_Meta e)) \<longrightarrow> yaml_MarshalEnvelope (lv_libs env) e \<noteq> None)
     \<and> (\<forall>r x. age_Encrypt (lv_libs env) r x \<noteq> None) \<and> (\<forall>m. m \<noteq> [] \<longrightarrow> age_ScryptOk (lv_libs env) m)
     \<and> material env \<noteq> None \<and> 8 \<le> length (lv_salt env)"

lemma undisturbedD:
  assumes "undisturbed env"
  shows "lv_disk env = no_faults" "lv_audit env = audit_works"
    "finite_file d \<Longrightarrow> yaml_Marshal (lv_libs env) d \<noteq> None"
    "finite (dom (le_Secrets e)) \<Longrightarrow> finite (dom (le_Meta e)) \<Longrightarrow> yaml_MarshalEnvelope (lv_libs env) e \<noteq> None"
    "age_Encrypt (lv_libs env) r x \<noteq> None"
    "m \<noteq> [] \<Longrightarrow> age_ScryptOk (lv_libs env) m" "material env \<noteq> None" "8 \<le> length (lv_salt env)"
  using assms unfolding undisturbed_def by blast+

lemma seal_works:
  assumes "undisturbed env" and "m \<noteq> []" and "finite_file (lp_data p)"
  shows "\<exists>raw. seal_data env p m = Inr raw"
proof (cases "lp_encLegacy p")
  case False
  have "\<exists>r. recipientFor (lv_libs env) m = Inr r"
    using undisturbedD(6) [OF assms(1,2)] by (auto simp: recipientFor_def split: option.splits)
  then obtain r where "recipientFor (lv_libs env) m = Inr r" by blast
  moreover obtain plain where "yaml_Marshal (lv_libs env)
      \<lparr>lf_Version = ''1'', lf_Secrets = lf_Secrets (lp_data p), lf_Meta = lf_Meta (lp_data p)\<rparr> = Some plain"
    using undisturbedD(3) [OF assms(1)] assms(3) by (metis finite_file_def localFile.select_convs(2,3) option.exhaust)
  moreover obtain raw where "age_Encrypt (lv_libs env) r plain = Some raw" using undisturbedD(5) [OF assms(1)] by blast
  ultimately show ?thesis using False assms(2) by (simp add: seal_data_def SealWithMeta_def)
next
  case True
  let ?p = "defaultKDFParams\<lparr>kd_Salt := base64_EncodeToString (lv_salt env)\<rparr>"
  obtain key where k: "legacyAeadFor (lv_libs env) m ?p = Inr key"
    using default_key_works [OF undisturbedD(8) [OF assms(1)]] by blast
  let ?e = "\<lparr>le_Version = ''1'', le_Format = FormatLegacy, le_KDF = ?p,
      le_Secrets = (\<lambda>n. map_option (seal_blob (lv_libs env) key (lv_nonce env n) n) (lf_Secrets (lp_data p) n)),
      le_Meta = lf_Meta (lp_data p)\<rparr>"
  have "dom (le_Secrets ?e) = dom (lf_Secrets (lp_data p))" by (auto simp: dom_def)
  then have "yaml_MarshalEnvelope (lv_libs env) ?e \<noteq> None"
    using undisturbedD(4) [OF assms(1), of ?e] assms(3) by (simp add: finite_file_def)
  then show ?thesis using True SealLegacy_default [OF k assms(2)] by (auto simp: seal_data_def)
qed

lemma ensureKey_resolves:
  assumes "material env \<noteq> None" and "keyed env p"
  obtains p1 where "ensureKey env legacy p = (p1, None)" "lp_keyMat p1 \<noteq> []"
proof -
  obtain r where "ResolveKeyMaterial (lv_keys env) (lv_interactive env) = Inr r"
    using assms(1) by (auto simp: material_def split: sum.splits)
  then have "(if legacy then ResolveKeyMaterial else ResolveIdentity) (lv_keys env) (lv_interactive env) = Inr r"
    using ResolveIdentity_Inr by simp
  then have "\<exists>p1. ensureKey env legacy p = (p1, None)"
    by (cases "lp_keyMat p \<noteq> [] \<and> lp_keyLegacy p = legacy") (simp_all add: ensureKey_def)
  then obtain p1 where p1: "ensureKey env legacy p = (p1, None)" by blast
  with ensureKey_keyed [OF p1 assms(2)] material_nonempty show thesis using that by blast
qed

lemma encode_works:
  assumes "undisturbed env" and "keyed env p" and "finite_file (lp_data p)"
  shows "\<exists>p1 raw. encode_data env p = (p1, Inr raw)"
proof (cases "lp_encCfg p \<or> lp_encDisk p")
  case False
  then show ?thesis using undisturbedD(3) [OF assms(1,3)] by (auto simp: encode_data_def split: option.splits)
next
  case True
  obtain p1 where p1: "ensureKey env (lp_encLegacy p) p = (p1, None)" "lp_keyMat p1 \<noteq> []"
    by (rule ensureKey_resolves [OF undisturbedD(7) [OF assms(1)] assms(2)])
  obtain raw where "seal_data env p (lp_keyMat p1) = Inr raw" using seal_works [OF assms(1) p1(2) assms(3)] by blast
  then show ?thesis using True p1(1) by (auto simp: encode_data_def seal_data_def)
qed

lemma save_works:
  assumes "undisturbed env" and "keyed env p" and "finite_file (lp_data p)"
  shows "snd (save_and_audit env op key fs p) = None"
proof -
  obtain p1 raw where e: "encode_data env p = (p1, Inr raw)" using encode_works [OF assms] by blast
  obtain ds where "write_temp (lv_disk env) fs (lv_tmp env fs) (lp_filePath p) raw = (ds, None)"
    by (simp add: undisturbedD(1) [OF assms(1)] write_temp_def no_faults_def Let_def)
  then have "save env fs p = ((p1, ds), None)" by (simp add: save_def e)
  moreover have "snd (AppendAuditEntry audit_works path entry fs1) = None" for path entry fs1
    by (auto simp: AppendAuditEntry_def rotateAuditLog_def append_file_def Let_def and_then_def split: option.splits)
  then have "snd (appendAudit env p1 op [key] fs1) = None" for fs1
    by (simp add: appendAudit_def undisturbedD(2) [OF assms(1)] split: prod.splits) (metis snd_conv)
  ultimately show ?thesis by (simp add: save_and_audit_def split: prod.splits) (metis snd_conv)
qed

lemma local_step_works:
  assumes "reliable env" and "undisturbed env" and "view env cfg fs = Some st"
    and "local_step env cfg op fs = (fs', RError e)"
  shows "e = LocalNotFound"
proof -
  obtain p where n: "New env cfg fs = Inr p" using assms(3) by (auto simp: view_def split: sum.splits)
  then obtain path aud where ld: "load env fs (new_provider path cfg aud) = (p, None)" unfolding New_Inr by blast
  have k: "keyed env (p\<lparr>lp_data := d\<rparr>)" for d using loaded_provider(3) [OF ld assms(1)] by (simp add: keyed_def)
  have w: "save_and_audit env o' key fs (p\<lparr>lp_data := d\<rparr>) = (x, y) \<Longrightarrow> finite_file d \<Longrightarrow> y = None" for o' key d x y
    using save_works [OF assms(2) k, of d o' key fs] by simp
  have fin: "finite_file (lp_data p)" by (rule loaded_provider(6) [OF ld assms(1)])
  show ?thesis
  proof (cases op)
    case (OpSet stamped key v t)
    obtain d where d: "provider_Set env stamped fs p key v t = save_and_audit env (auditOpFromCtx stamped) key fs (p\<lparr>lp_data := d\<rparr>)"
      and f: "finite_file d"
      using fin by (auto simp: provider_Set_def Let_def finite_file_def)
    obtain x y where s: "provider_Set env stamped fs p key v t = (x, y)" by fastforce
    have "y = None" by (rule w [OF s [unfolded d] f])
    then show ?thesis using assms(4) n OpSet s by (auto simp: local_step_def result_of_def split: prod.splits)
  next
    case (OpDelete key)
    define d where "d = (lp_data p)\<lparr>lf_Secrets := (lf_Secrets (lp_data p))(key := None)\<rparr>"
    obtain x y where s: "provider_Delete env fs p key = (x, y)" by fastforce
    have "y = None \<or> y = Some LocalNotFound"
    proof (cases "lf_Secrets (lp_data p) key = None")
      case False
      then have "provider_Delete env fs p key = save_and_audit env AuditOpDelete key fs (p\<lparr>lp_data := d\<rparr>)"
        by (auto simp: provider_Delete_def Let_def d_def)
      moreover have "finite_file d" using fin by (simp add: d_def finite_file_def)
      ultimately show ?thesis using w s by metis
    qed (use s in \<open>simp add: provider_Delete_def\<close>)
    then show ?thesis using assms(4) n OpDelete s by (auto simp: local_step_def result_of_def split: prod.splits)
  qed (use assms(4) n in \<open>auto simp: local_step_def provider_Get_def split: option.splits sum.splits\<close>)
qed

subsection \<open>Encryption\<close>

lemma encoded_encrypted:
  assumes "reliable env" and "encode_data env p = (p1, Inr raw)" and "lp_encCfg p \<or> lp_encDisk p" and "keyed env p"
    and "finite (dom (lf_Secrets (lp_data p)))"
  shows "encrypted_file (lv_libs env) raw"
proof -
  note e = encode_sealed [OF assms(2,3)]
  have m: "material env = Some (lp_keyMat p1)" by (rule ensureKey_keyed [OF e(1) assms(4)])
  show ?thesis
  proof (cases "lp_encLegacy p")
    case False
    then show ?thesis
      using age_sealed(1) [OF reliableD(2,3) [OF assms(1)] reliableD(8) [OF assms(1) m]] e(2)
      by (simp add: encrypted_file_def seal_data_def)
  next
    case True
    then show ?thesis
      using legacy_sealed(2) [OF reliableD(3,4,5,6) [OF assms(1)] assms(5)] e(2)
      by (simp add: encrypted_file_def seal_data_def)
  qed
qed

lemma save_trace_encrypted:
  assumes "reliable env" and "apart env cfg" and "layout env cfg path aud"
    and "load env fs (new_provider path cfg aud) = (p, None)"
    and "lc_Encrypted cfg \<or> (\<exists>raw. fs path = Some raw \<and> encrypted_file (lv_libs env) raw)"
    and "finite (dom (lf_Secrets d))" and "save env fs (p\<lparr>lp_data := d\<rparr>) = ((p1, ds), e)" and "fs' \<in> set ds"
    and "finite (dom fs)"
  shows "fs' path = fs path \<or> (\<exists>raw. fs' path = Some raw \<and> encrypted_file (lv_libs env) raw)"
proof -
  let ?p = "p\<lparr>lp_data := d\<rparr>"
  note lp = loaded_provider [OF assms(4,1)]
  have enc: "lp_encCfg ?p \<or> lp_encDisk ?p"
    using assms(5) lp(5) load_encDisk [OF assms(4) new_provider_blank(4)] by (auto simp: new_provider_blank)
  obtain r where r: "encode_data env ?p = (p1, r)" using assms(7)
    by (auto simp: save_def split: prod.splits sum.splits)
  show ?thesis
  proof (cases r)
    case (Inl x)
    then show ?thesis using assms(7,8) r by (simp add: save_def)
  next
    case (Inr raw)
    have k: "keyed env ?p" and f: "finite (dom (lf_Secrets (lp_data ?p)))"
      using lp(3) assms(6) by (simp_all add: keyed_def)
    have "encrypted_file (lv_libs env) raw" by (rule encoded_encrypted [OF assms(1) r [unfolded Inr] enc k f])
    moreover obtain we where w: "write_temp (lv_disk env) fs (lv_tmp env fs) path raw = (ds, we)"
      using assms(7) r Inr lp(1) by (auto simp: save_def split: prod.splits)
    have "fs (lv_tmp env fs) = None" "lv_tmp env fs \<noteq> path" using assms(2,3,9) by (simp_all add: apart_def)
    from write_temp_trace(2) [OF this w assms(8)] have "fs' path = fs path \<or> fs' path = Some raw" by auto
    ultimately show ?thesis by auto
  qed
qed

subsection \<open>Properties\<close>

fun local_run :: "local_config \<Rightarrow> (local_env \<times> store_op) list \<Rightarrow> files \<Rightarrow> files \<times> store_result list" where
  "local_run cfg [] fs = (fs, [])"
| "local_run cfg ((env, op) # rest) fs =
     (let (fs1, r) = local_step env cfg op fs; (fs2, rs) = local_run cfg rest fs1 in (fs2, r # rs))"

fun map_run :: "(local_env \<times> store_op) list \<Rightarrow> str_map \<times> str_map \<Rightarrow> str_map \<times> str_map \<Rightarrow> store_result list \<Rightarrow> bool" where
  "map_run [] st now rs \<longleftrightarrow> now = st \<and> rs = []"
| "map_run ((env, op) # rest) st now rs \<longleftrightarrow>
     (\<exists>mid. rs \<noteq> [] \<and> map_step env op st mid (hd rs) \<and> map_run rest mid now (tl rs))"

definition process_ok :: "local_env \<Rightarrow> local_config \<Rightarrow> local_env \<Rightarrow> bool" where
  "process_ok env0 cfg env \<longleftrightarrow> reliable env \<and> same_machine env0 env \<and> apart env cfg"

lemma same_machine_eq: "same_machine a b \<Longrightarrow> same_machine a c \<Longrightarrow> same_machine b c"
  by (simp add: same_machine_def)

lemma same_machine_sym: "same_machine a b \<Longrightarrow> same_machine b a"
  by (simp add: same_machine_def)

lemma local_step_finite:
  assumes "finite (dom fs)" and "local_step env cfg op fs = (fs', r)"
  shows "finite (dom fs')"
proof -
  have w: "write_temp f fs tmp target c = (ds, e) \<Longrightarrow> finite (dom (last (fs # ds)))" for f tmp target c ds e
    using assms(1) by (auto simp: write_temp_def Let_def split: if_splits option.splits)
  have s: "save env fs p = ((p1, ds), e) \<Longrightarrow> finite (dom (last (fs # ds)))" for p p1 ds e
    using assms(1) w by (fastforce simp: save_def split: prod.splits sum.splits)
  have a: "finite (dom d) \<Longrightarrow> AppendAuditEntry io path entry d = (d', e) \<Longrightarrow> finite (dom d')" for d d' io path entry e
    by (cases "rotateAuditLog io path d"; cases "snd (rotateAuditLog io path d)")
      (auto simp: AppendAuditEntry_def rotateAuditLog_def append_file_def Let_def and_then_def split: if_splits option.splits)
  have sa: "save_and_audit env o' key fs p = ((p1, d'), e) \<Longrightarrow> finite (dom d')" for o' key p p1 d' e
  proof -
    assume r: "save_and_audit env o' key fs p = ((p1, d'), e)"
    obtain p2 ds e2 where sv: "save env fs p = ((p2, ds), e2)" by (metis prod.exhaust)
    have "d' = last (fs # ds) \<or> (\<exists>io path entry e. AppendAuditEntry io path entry (last (fs # ds)) = (d', e))"
      using r sv by (cases e2) (auto simp: save_and_audit_def appendAudit_def split: prod.splits)
    then show ?thesis using s [OF sv] a by blast
  qed
  show ?thesis
    using assms sa by (cases "New env cfg fs"; cases op)
      (auto simp: local_step_def provider_Set_def provider_Delete_def Let_def split: prod.splits if_splits)
qed

lemma run_refines:
  assumes "reliable env0" and "list_all (\<lambda>(env, op). process_ok env0 cfg env) xs"
    and "view env0 cfg fs = Some st" and "local_run cfg xs fs = (fs', rs)" and "finite (dom fs)"
  shows "(\<exists>now. view env0 cfg fs' = Some now \<and> map_run xs st now rs)
    \<and> (list_all (\<lambda>(env, op). undisturbed env) xs \<longrightarrow> (\<forall>e. RError e \<in> set rs \<longrightarrow> e = LocalNotFound))"
  using assms(2-5)
proof (induction xs arbitrary: fs st rs)
  case (Cons x xs)
  obtain env op where x: "x = (env, op)" by fastforce
  have ok: "reliable env" "same_machine env0 env" "apart env cfg" using Cons.prems(1) x by (simp_all add: process_ok_def)
  obtain fs1 r where s: "local_step env cfg op fs = (fs1, r)" by fastforce
  obtain fs2 rs2 where t: "local_run cfg xs fs1 = (fs2, rs2)" by fastforce
  have rs: "fs' = fs2" "rs = r # rs2" using Cons.prems(3) x s t by simp_all
  have v: "view env cfg fs = Some st" by (rule view_machine [OF Cons.prems(2) assms(1) ok(1,2)])
  from local_step_refines [OF ok(1) assms(1) same_machine_sym [OF ok(2)] ok(3) v s Cons.prems(4)] obtain mid
    where mid: "view env0 cfg fs1 = Some mid" "map_step env op st mid r" by blast
  note ih = Cons.IH [OF _ mid(1) t [folded rs(1)] local_step_finite [OF Cons.prems(4) s]]
  have all: "list_all (\<lambda>(env, op). process_ok env0 cfg env) xs" using Cons.prems(1) by simp
  have "RError e \<in> set rs \<Longrightarrow> undisturbed env \<Longrightarrow> (\<forall>e. RError e \<in> set rs2 \<longrightarrow> e = LocalNotFound) \<Longrightarrow> e = LocalNotFound" for e
    using local_step_works [OF ok(1) _ v] s rs(2) by auto
  moreover obtain now where "view env0 cfg fs' = Some now" "map_run xs mid now rs2" using ih [OF all] by blast
  then have "\<exists>now. view env0 cfg fs' = Some now \<and> map_run (x # xs) st now rs"
    using mid(2) unfolding x rs(2) map_run.simps by (metis list.sel(1,3) list.distinct(1))
  ultimately show ?case using ih [OF all] x by auto
qed simp

text \<open>
  C5: the local provider implements a map. A sequence of commands, each a process of its own that opens the file,
  reads or changes it and exits, gives the results of the same operations on a map from names to values; a
  change that could not be written leaves the map alone. And when no system or library
  call fails, no command fails, except for a name that is not there.
\<close>

theorem local_store_refines_map:
  assumes "reliable env0" and "list_all (\<lambda>(env, op). process_ok env0 cfg env) xs"
    and "view env0 cfg fs = Some st" and "local_run cfg xs fs = (fs', rs)" and "finite (dom fs)"
  shows "(\<exists>now. view env0 cfg fs' = Some now \<and> map_run xs st now rs)
    \<and> (list_all (\<lambda>(env, op). undisturbed env) xs \<longrightarrow> (\<forall>e. RError e \<in> set rs \<longrightarrow> e = LocalNotFound))"
  by (rule run_refines [OF assms])

text \<open>
  C7: encryption is sticky. When the configuration asks for encryption or the file is encrypted already, then
  after every system call of a save the file is the one that was there before or an encrypted one, never a
  plaintext one, also when the save fails half way.
\<close>

theorem encryption_is_sticky:
  assumes "reliable env" and "apart env cfg" and "New env cfg fs = Inr p"
    and "lc_Encrypted cfg \<or> (\<exists>raw. fs (lp_filePath p) = Some raw \<and> encrypted_file (lv_libs env) raw)"
    and "finite_file d" and "save env fs (p\<lparr>lp_data := d\<rparr>) = ((p1, ds), e)" and "fs' \<in> set ds"
    and "finite (dom fs)"
  shows "fs' (lp_filePath p) = fs (lp_filePath p)
    \<or> (\<exists>raw. fs' (lp_filePath p) = Some raw \<and> encrypted_file (lv_libs env) raw)"
proof -
  obtain path aud where l: "layout env cfg path aud" "load env fs (new_provider path cfg aud) = (p, None)"
    using assms(3) unfolding New_Inr by blast
  then have "lp_filePath p = path" using loaded_provider(1) assms(1) by blast
  moreover have "finite (dom (lf_Secrets d))" using assms(5) by (simp add: finite_file_def)
  ultimately show ?thesis using save_trace_encrypted [OF assms(1,2) l _ _ assms(6,7,8)] assms(4) by blast
qed

subsection \<open>An example\<close>

definition local_example_env :: local_env where
  "local_example_env = \<lparr>lv_libs = model_libs,
     lv_keys = \<lparr>kw_Getenv = (\<lambda>n. if n = EnvKeyPrimary then ''pw'' else []), kw_keyring = None, kw_readPassword = (None, None)\<rparr>,
     lv_interactive = False, lv_cwd = Some ''/w'', lv_readFails = False, lv_salt = replicate 16 (CHR ''s''),
     lv_nonce = (\<lambda>k. replicate 24 (CHR ''n'')), lv_ord = (\<lambda>m. sorted_list_of_set (dom m)),
     lv_tmp = (\<lambda>fs. replicate (Suc (Max (insert 20 (length ` dom fs)))) (CHR ''t'')), lv_disk = no_faults, lv_audit = audit_works,
     lv_now = ''t'', lv_actor = ''me'', lv_formatTime = (\<lambda>t. ''2030''), lv_parseTime = (\<lambda>s. Some 7)\<rparr>"

definition local_example_config :: local_config where
  "local_example_config = \<lparr>lc_File = ''/w/s.yaml'', lc_Encrypted = True, lc_EnvName = ''dev'', lc_AuditLog = ''/w/audit.log''\<rparr>"

lemma example_material: "material local_example_env = Some ''pw''"
  by (simp add: material_def local_example_env_def ResolveKeyMaterial_def)

lemma example_reliable: "reliable local_example_env"
  using model_age model_yaml model_aead example_material
  by (simp add: reliable_def) (simp add: local_example_env_def opens_own_def model_libs_def)

lemma example_undisturbed: "undisturbed local_example_env"
  using example_material by (simp add: undisturbed_def) (simp add: local_example_env_def model_libs_def)

lemma example_layout: "layout local_example_env local_example_config path aud \<longleftrightarrow> path = ''/w/s.yaml'' \<and> aud = ''/w/audit.log''"
proof -
  have "filepath_Abs (Some ''/w'') ''/w/s.yaml'' = Some ''/w/s.yaml''" "filepath_Abs (Some ''/w'') ''/w/audit.log'' = Some ''/w/audit.log''"
    by code_simp+
  then show ?thesis by (auto simp: layout_def local_example_env_def local_example_config_def)
qed

lemma example_tmp_fresh:
  assumes "finite (dom fs)"
  shows "fs (lv_tmp local_example_env fs) = None" and "lv_tmp local_example_env fs \<noteq> ''/w/s.yaml''"
proof -
  let ?n = "Max (insert 20 (length ` dom fs))"
  have "length t \<le> ?n" if "t \<in> dom fs" for t using assms that by (intro Max_ge) auto
  moreover have "20 \<le> ?n" using assms by (intro Max_ge) auto
  moreover have "length (lv_tmp local_example_env fs) = Suc ?n" by (simp add: local_example_env_def)
  ultimately show "fs (lv_tmp local_example_env fs) = None" "lv_tmp local_example_env fs \<noteq> ''/w/s.yaml''"
    by (metis domIff not_less_eq_eq order_refl) (use \<open>20 \<le> ?n\<close> \<open>length (lv_tmp local_example_env fs) = Suc ?n\<close> in auto)
qed

lemma example_apart: "apart local_example_env local_example_config"
  using example_tmp_fresh by (simp add: apart_def example_layout new_provider_def auditLogPath_def)

lemma example_New:
  "\<exists>p. New local_example_env local_example_config Map.empty = Inr p \<and> lp_data p = version_one (Map.empty, Map.empty)
     \<and> lp_filePath p = ''/w/s.yaml''"
proof -
  let ?q = "new_provider ''/w/s.yaml'' local_example_config ''/w/audit.log''"
  have "load local_example_env Map.empty ?q = (?q\<lparr>lp_data := version_one (Map.empty, Map.empty)\<rparr>, None)"
    by (simp add: load_def local_example_env_def)
  moreover have "layout local_example_env local_example_config ''/w/s.yaml'' ''/w/audit.log''" by (simp add: example_layout)
  ultimately have "New local_example_env local_example_config Map.empty = Inr (?q\<lparr>lp_data := version_one (Map.empty, Map.empty)\<rparr>)"
    unfolding New_Inr by blast
  then show ?thesis by (simp add: new_provider_def)
qed

theorem local_store_refines_map_witness:
  "snd (local_run local_example_config [(local_example_env, OpSet None ''K'' ''v'' 0), (local_example_env, OpGet ''K'')] Map.empty)
     = [RDone, RSecret (mk_Secret ''K'' ''v'')]"
proof -
  let ?xs = "[(local_example_env, OpSet None ''K'' ''v'' 0), (local_example_env, OpGet ''K'')]"
  obtain fs' rs where r: "local_run local_example_config ?xs Map.empty = (fs', rs)" by fastforce
  have v: "view local_example_env local_example_config Map.empty = Some (Map.empty, Map.empty)"
    using example_New by (auto simp: view_def version_one_def)
  have "process_ok local_example_env local_example_config local_example_env"
    using example_reliable example_apart by (simp add: process_ok_def same_machine_def)
  then have ok: "list_all (\<lambda>(env, op). process_ok local_example_env local_example_config env) ?xs" by simp
  from local_store_refines_map [OF example_reliable ok v r] example_undisturbed obtain now
    where m: "map_run ?xs (Map.empty, Map.empty) now rs" and e: "\<forall>e. RError e \<in> set rs \<longrightarrow> e = LocalNotFound" by auto
  from m obtain r1 r2 where rs: "rs = [r1, r2]" by (cases rs; cases "tl rs") auto
  have "r1 = RDone \<and> r2 = RSecret (secret_of local_example_env Map.empty ''K'' ''v'')"
    using m e unfolding rs by (auto simp: changed_def stored_def IsZero_def)
  moreover have "secret_of local_example_env Map.empty ''K'' ''v'' = mk_Secret ''K'' ''v''"
    by (simp add: secret_of_def expiryFor_def)
  ultimately show ?thesis using r rs by simp
qed

theorem encryption_is_sticky_witness:
  "\<exists>p p1 ds. New local_example_env local_example_config Map.empty = Inr p
     \<and> save local_example_env Map.empty (p\<lparr>lp_data := version_one ([''K'' \<mapsto> ''v''], Map.empty)\<rparr>) = ((p1, ds), None)
     \<and> ds \<noteq> [] \<and> list_all (\<lambda>fs'. fs' ''/w/s.yaml'' = None
         \<or> (\<exists>raw. fs' ''/w/s.yaml'' = Some raw \<and> encrypted_file model_libs raw)) ds"
proof -
  let ?d = "version_one ([''K'' \<mapsto> ''v''], Map.empty)"
  obtain p where n: "New local_example_env local_example_config Map.empty = Inr p" and path: "lp_filePath p = ''/w/s.yaml''"
    using example_New by blast
  then obtain q where "load local_example_env Map.empty q = (p, None)" "blank q"
    unfolding New_Inr using new_provider_blank(1) by blast
  then have k: "keyed local_example_env (p\<lparr>lp_data := ?d\<rparr>)" using load_keyed by (fastforce simp: keyed_def)
  have f: "finite_file ?d" by (simp add: finite_file_def version_one_def)
  obtain p1 raw where "encode_data local_example_env (p\<lparr>lp_data := ?d\<rparr>) = (p1, Inr raw)"
    using encode_works [OF example_undisturbed k] f by auto
  then obtain ds where s: "save local_example_env Map.empty (p\<lparr>lp_data := ?d\<rparr>) = ((p1, ds), None)" "ds \<noteq> []"
    using undisturbedD(1) [OF example_undisturbed]
    by (simp add: save_def write_temp_def no_faults_def Let_def)
  have L: "lv_libs local_example_env = model_libs" by (simp add: local_example_env_def)
  have "lc_Encrypted local_example_config" by (simp add: local_example_config_def)
  then have "fs' ''/w/s.yaml'' = None \<or> (\<exists>raw. fs' ''/w/s.yaml'' = Some raw \<and> encrypted_file model_libs raw)"
    if "fs' \<in> set ds" for fs'
    using encryption_is_sticky [OF example_reliable example_apart n _ f s(1) that] path L by simp
  with n s show ?thesis unfolding list_all_iff by blast
qed

end
