(* ===== verification/File_Targets.thy ===== *)
theory File_Targets
  imports Dotenv_Codec Sync_Targets Go_Utf8
begin

text \<open>
  The sync targets that write a file for another tool: \<open>src/internal/syncer/terraform.go\<close> (variable
  definitions in HCL) and \<open>src/internal/syncer/k8s.go\<close> (a Kubernetes \<open>Secret\<close> manifest). The dotenv target is in
  \<open>Dotenv_Codec\<close>, the factories that read the configuration in \<open>Sync_Targets\<close>. The YAML
  encoder is a parameter of the manifest.
\<close>

subsection \<open>Names at the destination\<close>

datatype file_error =
    BadName string
  | NameClash string string string
  | ManifestMarshal
  | FileWrite string
  | StdoutWrite

text \<open>The loop both targets begin with: each name must be one the tool accepts, and belong to one key.\<close>

fun name_loop :: "(string \<Rightarrow> bool) \<Rightarrow> (string \<rightharpoonup> string) \<Rightarrow> string list \<Rightarrow> file_error option" where
  "name_loop valid nameToKey [] = None"
| "name_loop valid nameToKey (key # keys) =
     (let name = SecretName key
      in if \<not> valid name then Some (BadName name)
         else case nameToKey name of
             Some prev \<Rightarrow> if prev \<noteq> key then Some (NameClash name prev key)
                          else name_loop valid (nameToKey(name \<mapsto> key)) keys
           | None \<Rightarrow> name_loop valid (nameToKey(name \<mapsto> key)) keys)"

lemma name_loop_None:
  "name_loop valid m keys = None \<longleftrightarrow>
     list_all (\<lambda>k. valid (SecretName k)) keys \<and> collision_loop SecretName m keys = None"
  by (induction keys arbitrary: m) (auto simp: Let_def split: option.splits if_splits)

lemma name_loop_correct:
  "name_loop valid Map.empty keys = None \<longleftrightarrow>
     list_all (\<lambda>k. valid (SecretName k)) keys \<and> inj_on SecretName (set keys)"
  by (simp add: name_loop_None collision_loop_correct)

subsection \<open>Terraform variables\<close>

text \<open>
  The source ranges over runes; a rune that is not ASCII is refused, and so is each of its bytes.
\<close>

definition ident_start :: "char \<Rightarrow> bool" where
  "ident_start c \<longleftrightarrow> is_lower c \<or> is_upper c \<or> c = CHR ''_''"

definition validHCLIdentifier :: "string \<Rightarrow> bool" where
  "validHCLIdentifier name \<longleftrightarrow>
     name \<noteq> [] \<and> ident_start (hd name)
     \<and> list_all (\<lambda>c. ident_start c \<or> is_digit c \<or> c = CHR ''-'') (tl name)"

definition hcl_ascii :: "char \<Rightarrow> string" where
  "hcl_ascii c =
     (if c = dquote then [backslash, dquote]
      else if c = backslash then [backslash, backslash]
      else if c = newline then [backslash, CHR ''n'']
      else if c = carriage then [backslash, CHR ''r'']
      else if c = tab then [backslash, CHR ''t'']
      else if (of_char c :: nat) < 0x20 \<or> c = CHR 0x7F
      then backslash # ''u00'' @ [hex_digit (of_char c div 16), hex_digit (of_char c mod 16)]
      else [c])"

text \<open>\<open>WriteRune\<close> of \<open>utf8.RuneError\<close>, for a byte that is not valid, writes the three bytes of U+FFFD.\<close>

definition hcl_rune :: "string \<times> bool \<Rightarrow> string" where
  "hcl_rune rv = (case rv of (r, valid) \<Rightarrow>
     if \<not> valid then [CHR 0xEF, CHR 0xBF, CHR 0xBD]
     else case r of [c] \<Rightarrow> hcl_ascii c | _ \<Rightarrow> r)"

definition hclQuote :: "string \<Rightarrow> string" where
  "hclQuote s = dquote # concat (map hcl_rune (runes s)) @ [dquote]"

definition tfvars_content :: "(string \<times> string) list \<Rightarrow> string" where
  "tfvars_content assignments = concat (map (\<lambda>(name, val). name @ '' = '' @ hclQuote val @ [newline]) assignments)"

definition TerraformSyncer_Sync ::
    "((string \<times> string) list \<Rightarrow> (string \<times> string) list) \<Rightarrow> disk_faults \<Rightarrow> directory \<Rightarrow> string \<Rightarrow> string
      \<Rightarrow> Secret list \<Rightarrow> directory list \<times> file_error option" where
  "TerraformSyncer_Sync srt f d tmp filePath secrets =
     (case name_loop validHCLIdentifier Map.empty (map sec_Key secrets) of
        Some e \<Rightarrow> ([], Some e)
      | None \<Rightarrow>
          (case atomicWrite f d tmp filePath
                  (tfvars_content (srt (map (\<lambda>s. (SecretName (sec_Key s), sec_Value s)) secrets))) of
             (ds, e) \<Rightarrow> (ds, map_option FileWrite e)))"

subsection \<open>Kubernetes manifests\<close>

definition validK8sSecretKey :: "string \<Rightarrow> bool" where
  "validK8sSecretKey name \<longleftrightarrow>
     name \<noteq> [] \<and> list_all (\<lambda>c. is_lower c \<or> is_upper c \<or> is_digit c \<or> c \<in> set ''-_.'') name"

record k8sObjectMeta =
  km_Name :: string
  km_Namespace :: string

record k8sSecretManifest =
  ks_APIVersion :: string
  ks_Kind :: string
  ks_Metadata :: k8sObjectMeta
  ks_Type :: string
  ks_StringData :: "string \<rightharpoonup> string"

definition k8s_manifest :: "K8sSyncer \<Rightarrow> Secret list \<Rightarrow> k8sSecretManifest" where
  "k8s_manifest k secrets =
     \<lparr>ks_APIVersion = ''v1'', ks_Kind = ''Secret'',
      ks_Metadata = \<lparr>km_Name = k8_secretName k, km_Namespace = k8_namespace k\<rparr>, ks_Type = ''Opaque'',
      ks_StringData = fold (\<lambda>s m. m(SecretName (sec_Key s) \<mapsto> sec_Value s)) secrets Map.empty\<rparr>"

definition k8s_render ::
    "(k8sSecretManifest \<Rightarrow> string option) \<Rightarrow> K8sSyncer \<Rightarrow> Secret list \<Rightarrow> file_error + string" where
  "k8s_render yaml k secrets =
     (case name_loop validK8sSecretKey Map.empty (map sec_Key secrets) of
        Some e \<Rightarrow> Inl e
      | None \<Rightarrow> (case yaml (k8s_manifest k secrets) of
            None \<Rightarrow> Inl ManifestMarshal
          | Some bytes \<Rightarrow> Inr bytes))"

text \<open>
  \<open>so\<close> says after how many bytes a write to the standard output fails, if it does. The result is the trace of
  directories and what went to the standard output.
\<close>

definition K8sSyncer_Sync ::
    "(k8sSecretManifest \<Rightarrow> string option) \<Rightarrow> disk_faults \<Rightarrow> nat option \<Rightarrow> directory \<Rightarrow> string \<Rightarrow> K8sSyncer
      \<Rightarrow> Secret list \<Rightarrow> (directory list \<times> string) \<times> file_error option" where
  "K8sSyncer_Sync yaml f so d tmp k secrets = (case k8s_render yaml k secrets of
      Inl e \<Rightarrow> (([], []), Some e)
    | Inr bytes \<Rightarrow>
        if k8_filePath k = ''-''
        then (case so of None \<Rightarrow> (([], bytes), None) | Some n \<Rightarrow> (([], take n bytes), Some StdoutWrite))
        else (case atomicWrite f d tmp (k8_filePath k) bytes of
                (ds, e) \<Rightarrow> ((ds, []), map_option FileWrite e)))"

subsection \<open>Reading HCL strings\<close>

text \<open>
  The literals of the HCL specification without template sequences: the value of a quoted string up
  to its closing quote, which must be the end of the line. \<open>${\<close> and \<open>%{\<close> begin a template, which is not a literal.
\<close>

definition hcl_hex :: "char \<Rightarrow> nat option" where
  "hcl_hex c =
     (if is_digit c then Some (of_char c - 48)
      else if CHR ''a'' \<le> c \<and> c \<le> CHR ''f'' then Some (of_char c - 87)
      else if CHR ''A'' \<le> c \<and> c \<le> CHR ''F'' then Some (of_char c - 55)
      else None)"

definition utf8_encode :: "nat \<Rightarrow> string" where
  "utf8_encode n =
     (if n < 0x80 then [char_of n]
      else if n < 0x800 then [char_of (0xC0 + n div 64), char_of (0x80 + n mod 64)]
      else if 0xD800 \<le> n \<and> n \<le> 0xDFFF then [CHR 0xEF, CHR 0xBF, CHR 0xBD]
      else [char_of (0xE0 + n div 4096), char_of (0x80 + n div 64 mod 64), char_of (0x80 + n mod 64)])"

fun read_hcl :: "string \<Rightarrow> string option" where
  "read_hcl [] = None"
| "read_hcl (c # s) =
     (if c = dquote then if s = [] then Some [] else None
      else if c = backslash
      then (case s of
          [] \<Rightarrow> None
        | e # r \<Rightarrow>
            if e = CHR ''n'' then map_option ((#) newline) (read_hcl r)
            else if e = CHR ''r'' then map_option ((#) carriage) (read_hcl r)
            else if e = CHR ''t'' then map_option ((#) tab) (read_hcl r)
            else if e = dquote \<or> e = backslash then map_option ((#) e) (read_hcl r)
            else if e = CHR ''u''
            then (case r of
                h1 # h2 # h3 # h4 # t \<Rightarrow>
                  (case (hcl_hex h1, hcl_hex h2, hcl_hex h3, hcl_hex h4) of
                     (Some a1, Some a2, Some a3, Some a4) \<Rightarrow>
                       map_option ((@) (utf8_encode (4096 * a1 + 256 * a2 + 16 * a3 + a4))) (read_hcl t)
                   | _ \<Rightarrow> None)
              | _ \<Rightarrow> None)
            else None)
      else if (c = CHR ''$'' \<or> c = CHR ''%'') \<and> s \<noteq> [] \<and> hd s = CHR ''{'' then None
      else map_option ((#) c) (read_hcl s))"

definition read_assignment :: "string \<Rightarrow> (string \<times> string) option" where
  "read_assignment l = (case Cut l (CHR '' '') of (name, rest, found) \<Rightarrow>
     if found \<and> HasPrefix rest [CHR ''='', CHR '' '', dquote]
     then map_option (Pair name) (read_hcl (drop 3 rest)) else None)"

definition read_tfvars :: "string \<Rightarrow> (string \<times> string) list option" where
  "read_tfvars content = those (map read_assignment (scan_lines content))"

fun has_template :: "string \<Rightarrow> bool" where
  "has_template [] = False"
| "has_template (c # s) \<longleftrightarrow> ((c = CHR ''$'' \<or> c = CHR ''%'') \<and> s \<noteq> [] \<and> hd s = CHR ''{'') \<or> has_template s"

subsection \<open>The bytes of a literal\<close>

text \<open>On valid UTF-8 the quoting works byte by byte.\<close>

lemma hcl_ascii_high: "128 \<le> (of_char c :: nat) \<Longrightarrow> hcl_ascii c = [c]"
proof -
  assume high: "128 \<le> (of_char c :: nat)"
  then have "c \<noteq> dquote" "c \<noteq> backslash" "c \<noteq> newline" "c \<noteq> carriage" "c \<noteq> tab" "c \<noteq> CHR 0x7F" by auto
  with high show ?thesis by (simp add: hcl_ascii_def)
qed

lemma hcl_wide: "list_all (\<lambda>c. 128 \<le> (of_char c :: nat)) r \<Longrightarrow> concat (map hcl_ascii r) = r"
  by (induction r) (simp_all add: hcl_ascii_high)

lemma hcl_bytes:
  assumes "valid_utf8 s"
  shows "concat (map hcl_rune (runes s)) = concat (map hcl_ascii s)"
proof -
  have "hcl_rune rv = concat (map hcl_ascii (fst rv))" if "rv \<in> set (runes s)" for rv
  proof -
    have "snd rv" using that assms by (simp add: valid_utf8_def list_all_iff)
    then obtain r where rv: "rv = (r, True)" by (cases rv) simp
    from valid_rune_cases [of r s] that rv consider c where "r = [c]" | "wide_rune r" by auto
    then show ?thesis
    proof cases
      case 2
      then have "(case r of [c] \<Rightarrow> hcl_ascii c | _ \<Rightarrow> r) = r" by (auto simp: wide_rune_def split: list.split)
      then show ?thesis using 2 rv by (simp add: hcl_rune_def wide_rune_def hcl_wide)
    qed (simp add: rv hcl_rune_def)
  qed
  then have "concat (map hcl_rune (runes s)) = concat (map (\<lambda>rv. concat (map hcl_ascii (fst rv))) (runes s))"
    by (metis (no_types, lifting) map_eq_conv)
  also have "\<dots> = concat (map hcl_ascii (concat (map fst (runes s))))"
  proof -
    have "concat (map (\<lambda>rv. concat (map hcl_ascii (fst rv))) rs) = concat (map hcl_ascii (concat (map fst rs)))"
      for rs :: "(string \<times> bool) list" by (induction rs) simp_all
    then show ?thesis .
  qed
  finally show ?thesis by (simp add: concat_runes)
qed

lemma hcl_hex_digit: "n < 16 \<Longrightarrow> hcl_hex (hex_digit n) = Some n"
  by (drule less_16_cases) (auto simp: hex_digit_def hcl_hex_def is_digit_def less_eq_char_def)

lemma hcl_hex_zero: "hcl_hex CHR ''0'' = Some 0"
  using hcl_hex_digit [of 0] by (simp add: hex_digit_def)

lemma read_hcl_control:
  assumes "(of_char c :: nat) < 128"
  shows "read_hcl (backslash # ''u00'' @ [hex_digit (of_char c div 16), hex_digit (of_char c mod 16)] @ rest)
    = map_option ((#) c) (read_hcl rest)"
proof -
  have d: "(of_char c :: nat) div 16 < 16" "(of_char c :: nat) mod 16 < 16" using assms by simp_all
  have "(@) [c] = (#) c" by (rule ext) simp
  then show ?thesis using assms by (simp add: hcl_hex_digit [OF d(1)] hcl_hex_digit [OF d(2)] hcl_hex_zero utf8_encode_def)
qed

lemma read_hcl_ascii:
  assumes "\<not> ((c = CHR ''$'' \<or> c = CHR ''%'') \<and> rest \<noteq> [] \<and> hd rest = CHR ''{'')"
  shows "read_hcl (hcl_ascii c @ rest) = map_option ((#) c) (read_hcl rest)"
proof (cases "c = dquote \<or> c = backslash \<or> c = newline \<or> c = carriage \<or> c = tab")
  case True
  then show ?thesis by (elim disjE) (simp_all add: hcl_ascii_def)
next
  case False
  show ?thesis
  proof (cases "(of_char c :: nat) < 0x20 \<or> c = CHR 0x7F")
    case True
    then have "(of_char c :: nat) < 128" by auto
    from read_hcl_control [OF this, of rest] True False show ?thesis by (simp add: hcl_ascii_def)
  next
    case no: False
    with False have "hcl_ascii c = [c]" by (simp add: hcl_ascii_def)
    with False assms show ?thesis by auto
  qed
qed

declare read_hcl.simps [simp del]

lemma read_hcl_template: "c = CHR ''$'' \<or> c = CHR ''%'' \<Longrightarrow> read_hcl (c # CHR ''{'' # s) = None"
  by (elim disjE) (simp_all add: read_hcl.simps)

lemma hcl_ascii_head: "hcl_ascii c \<noteq> [] \<and> (hd (hcl_ascii c) = CHR ''{'' \<longrightarrow> c = CHR ''{'')"
  by (simp add: hcl_ascii_def)

lemma read_hcl_literal:
  "\<not> has_template s \<Longrightarrow> read_hcl (concat (map hcl_ascii s) @ [dquote]) = Some s"
proof (induction s)
  case (Cons c s)
  have "\<not> ((c = CHR ''$'' \<or> c = CHR ''%'') \<and> hd (concat (map hcl_ascii s) @ [dquote]) = CHR ''{'')"
    using Cons.prems hcl_ascii_head by (cases s) auto
  then show ?case using Cons read_hcl_ascii [of c "concat (map hcl_ascii s) @ [dquote]"] by auto
qed (simp add: read_hcl.simps)

lemma hclQuote_line: "newline \<notin> set (concat (map hcl_ascii s))"
proof -
  have "newline \<noteq> hex_digit n" if "n < 16" for n
    using less_16_cases [OF that] by (auto simp: hex_digit_def)
  then have "newline \<notin> set (hcl_ascii c)" for c
    by (cases "(of_char c :: nat) < 128") (auto simp: hcl_ascii_def less_mult_imp_div_less)
  then show ?thesis by auto
qed

subsection \<open>What Terraform reads back\<close>

lemma HCL_name_plain:
  assumes "validHCLIdentifier n"
  shows "CHR '' '' \<notin> set n" and "newline \<notin> set n"
proof -
  have "list_all (\<lambda>c. ident_start c \<or> is_digit c \<or> c = CHR ''-'') n"
    using assms by (cases n) (auto simp: validHCLIdentifier_def)
  then show "CHR '' '' \<notin> set n" "newline \<notin> set n"
    by (auto simp: list_all_iff ident_start_def is_lower_def is_upper_def is_digit_def less_eq_char_def)
qed

definition hcl_plain :: "string \<Rightarrow> bool" where
  "hcl_plain v \<longleftrightarrow> valid_utf8 v \<and> \<not> has_template v"

lemma hclQuote_plain: "hcl_plain v \<Longrightarrow> hclQuote v = dquote # concat (map hcl_ascii v) @ [dquote]"
  by (simp add: hclQuote_def hcl_plain_def hcl_bytes)

lemma read_assignment_line:
  assumes "validHCLIdentifier n" and "hcl_plain v"
  shows "read_assignment (n @ '' = '' @ hclQuote v) = Some (n, v)"
proof -
  have "Cut (n @ CHR '' '' # [CHR ''='', CHR '' ''] @ hclQuote v) (CHR '' '')
      = (n, [CHR ''='', CHR '' ''] @ hclQuote v, True)"
    by (rule Cut_at_first [OF HCL_name_plain(1) [OF assms(1)]])
  then show ?thesis
    using assms(2) by (simp add: read_assignment_def hclQuote_plain HasPrefix_def read_hcl_literal hcl_plain_def)
qed

lemma read_tfvars_content:
  assumes "\<forall>(n, v) \<in> set kvs. validHCLIdentifier n \<and> hcl_plain v"
  shows "read_tfvars (tfvars_content kvs) = Some kvs"
  using assms
proof (induction kvs)
  case (Cons a kvs)
  obtain n v where a: "a = (n, v)" by fastforce
  with Cons.prems have ok: "validHCLIdentifier n" "hcl_plain v" by auto
  have "newline \<notin> set (n @ '' = '' @ hclQuote v)"
    using HCL_name_plain(2) [OF ok(1)] hclQuote_line [of v] by (simp add: hclQuote_plain [OF ok(2)])
  from scan_lines_line [OF this, of "tfvars_content kvs"]
  have "scan_lines (tfvars_content (a # kvs)) = (n @ '' = '' @ hclQuote v) # scan_lines (tfvars_content kvs)"
    by (simp add: tfvars_content_def a)
  then show ?case using Cons ok read_assignment_line [OF ok] by (simp add: read_tfvars_def a)
qed (simp add: read_tfvars_def tfvars_content_def)

lemma TerraformSync_ok:
  assumes "TerraformSyncer_Sync srt f d tmp path secrets = (ds, None)"
  shows "name_loop validHCLIdentifier Map.empty (map sec_Key secrets) = None"
    and "atomicWrite f d tmp path (tfvars_content (srt (map (\<lambda>s. (SecretName (sec_Key s), sec_Value s)) secrets))) = (ds, None)"
  using assms by (auto simp: TerraformSyncer_Sync_def split: option.splits prod.splits)


text \<open>A value with a template sequence is written as it is, so what Terraform reads is not a literal.\<close>

lemma template_not_escaped:
  assumes "valid_utf8 v" and "has_template v"
  shows "read_hcl (tl (hclQuote v)) = None"
proof -
  have "has_template s \<Longrightarrow> read_hcl (concat (map hcl_ascii s) @ [dquote]) = None" for s
  proof (induction s)
    case (Cons c s)
    show ?case
    proof (cases "(c = CHR ''$'' \<or> c = CHR ''%'') \<and> s \<noteq> [] \<and> hd s = CHR ''{''")
      case True
      then obtain u where "s = CHR ''{'' # u" by (cases s) auto
      then have "concat (map hcl_ascii (c # s)) @ [dquote] = c # CHR ''{'' # concat (map hcl_ascii u) @ [dquote]"
        using True by (elim conjE disjE) (simp_all add: hcl_ascii_def)
      then show ?thesis using True by (simp only: read_hcl_template)
    next
      case False
      then have "\<not> ((c = CHR ''$'' \<or> c = CHR ''%'') \<and> hd (concat (map hcl_ascii s) @ [dquote]) = CHR ''{'')"
        using hcl_ascii_head by (cases s) auto
      then have "read_hcl (hcl_ascii c @ concat (map hcl_ascii s) @ [dquote]) =
          map_option ((#) c) (read_hcl (concat (map hcl_ascii s) @ [dquote]))"
        by (intro read_hcl_ascii) blast
      moreover have "has_template s" using Cons.prems False by auto
      ultimately show ?thesis using Cons.IH by simp
    qed
  qed simp
  then show ?thesis using assms by (simp add: hclQuote_def hcl_bytes)
qed


subsection \<open>What Kubernetes is given\<close>

definition manifest_ok :: "k8sSecretManifest \<Rightarrow> bool" where
  "manifest_ok m \<longleftrightarrow> ks_APIVersion m = ''v1'' \<and> ks_Kind m = ''Secret'' \<and> ks_Type m = ''Opaque''
     \<and> validDNSSubdomain (km_Name (ks_Metadata m))
     \<and> (km_Namespace (ks_Metadata m) = [] \<or> validDNSSubdomain (km_Namespace (ks_Metadata m)))
     \<and> (\<forall>n \<in> dom (ks_StringData m). validK8sSecretKey n)"

lemma fold_data:
  "fold (\<lambda>s m. m(SecretName (sec_Key s) \<mapsto> sec_Value s)) secrets m
     = m ++ map_of (rev (map (\<lambda>s. (SecretName (sec_Key s), sec_Value s)) secrets))"
  by (induction secrets arbitrary: m) (simp_all add: map_add_upd_left fun_upd_def map_add_def fun_eq_iff split: option.splits)

lemma manifest_data:
  assumes "name_loop validK8sSecretKey Map.empty (map sec_Key secrets) = None"
  shows "\<forall>n \<in> dom (ks_StringData (k8s_manifest k secrets)). validK8sSecretKey n"
    and "distinct (map sec_Key secrets) \<Longrightarrow>
      ks_StringData (k8s_manifest k secrets) = map_of (map (\<lambda>s. (SecretName (sec_Key s), sec_Value s)) secrets)"
proof -
  let ?kvs = "map (\<lambda>s. (SecretName (sec_Key s), sec_Value s)) secrets"
  have data: "ks_StringData (k8s_manifest k secrets) = map_of (rev ?kvs)"
    by (simp add: k8s_manifest_def fold_data)
  show "\<forall>n \<in> dom (ks_StringData (k8s_manifest k secrets)). validK8sSecretKey n"
    using assms by (auto simp: data name_loop_correct list_all_iff dom_map_of_conv_image_fst)
  assume "distinct (map sec_Key secrets)"
  then have "distinct (map fst ?kvs)"
    using dotenv_guard.distinct_names [of "map sec_Key secrets"] assms by (simp add: name_loop_None comp_def)
  then show "ks_StringData (k8s_manifest k secrets) = map_of ?kvs"
    unfolding data using map_of_inject_set [of "rev ?kvs" ?kvs] by (simp add: rev_map [symmetric])
qed

lemma newK8s_valid:
  assumes "newK8sFromConfig tc = Inr (K8sTarget k)"
  shows "validDNSSubdomain (k8_secretName k) \<and> (k8_namespace k = [] \<or> validDNSSubdomain (k8_namespace k))"
  using assms by (auto simp: newK8sFromConfig_def NewK8s_def or_default_def Let_def split: if_splits)


definition k8s_example :: TargetConfig where
  "k8s_example = \<lparr>tc_Type = ''k8s'', tc_Fields = [''namespace'' \<mapsto> ''prod''], tc_Token = [], tc_NoOverwrite = False\<rparr>"


end
