(* ===== verification/File_Sync.thy ===== *)
theory File_Sync
  imports File_Targets Sync_Command
begin

text \<open>
  The sync command over a file target. The file is replaced as a whole by what the run selected, while
  \<open>--skip-unchanged\<close> selects what has changed since the last run: the two do not fit together.
\<close>

subsection \<open>What a run hands to the file\<close>

lemma file_run_unchanged:
  assumes "so_skipUnchanged opt" and "\<not> so_rotate opt" and "\<not> so_noOverwrite opt" and "\<not> so_dryRun opt"
    and "\<not> tc_NoOverwrite tc" and "en_lockOk en"
    and "LoadSyncState (en_hash en)
        (case sw_disk w of None \<Rightarrow> [] | Some j \<Rightarrow> en_ord en (moment w) (reset_hash_domain (en_hash en) j))
        ''dotenv'' stateID (sw_disk w) = Inr j"
    and "\<not> syncStateNeedsRecovery (en_ord en (moment w) j) j"
    and "FilterUnchanged (en_hash en) j secrets = []"
  shows "sync_target en opt (DotenvTarget path) tc stateID secrets w =
    and_then (sync_batch en (DotenvTarget path) (Some j) [] False [] w) (sync_notify en opt [])"
proof -
  have name: "syncer_Name (DotenvTarget path) = ''dotenv''" by simp
  have "ValidateDestinationMapping ''dotenv'' (map Some secrets) = None"
    by (simp add: ValidateDestinationMapping_def keyed_targets_def)
  then have "sync_prepare en opt (DotenvTarget path) tc stateID secrets w = Inr (Some j, [])"
    using assms by (simp add: sync_prepare_def name uses_journal_def no_overwrite_def)
  moreover have "sync_recover en (DotenvTarget path) (Some j) [] w = (w, Inr (Some j, [], False))"
    using assms(8) by (simp add: sync_recover_def journalByDefault_def)
  ultimately show ?thesis using assms(4) by (simp add: sync_target_def sync_deliver_def)
qed

lemma empty_file_run:
  "\<exists>w'. fst (sync_batch en s st op recovered [] w) = w' \<and> EvRequest [] (sw_disk w) \<in> set (sw_trace w')"
  by (auto simp: sync_batch_def request_def emit_def saveSyncState_def Let_def
      split: option.splits prod.splits if_splits)

text \<open>
  With \<open>--skip-unchanged\<close> and nothing changed, the run hands the empty batch to the dotenv target, and the write of
  an empty batch that succeeds leaves an empty file in place of the one with all the secrets.
\<close>

lemma empty_batch_truncates:
  assumes "sorts_by_name srt" and "d tmp = None" and "tmp \<noteq> path"
    and "DotenvSyncer_Sync srt f d tmp path [] = (ds, None)"
  shows "last (d # ds) = d(path \<mapsto> [])"
proof -
  have "mset (srt []) = mset []" using assms(1) unfolding sorts_by_name_def by blast
  then have "srt [] = []" by simp
  then have "atomicWrite f d tmp path [] = (ds, None)"
    using assms(4) by (simp add: DotenvSyncer_Sync_def dotenv_content_def case_prod_beta prod_eq_iff)
  from atomicWrite_trace(2) [OF assms(2,3) this] show ?thesis by simp
qed

lemma skip_unchanged_empties_dotenv:
  assumes "so_skipUnchanged opt" and "\<not> so_rotate opt" and "\<not> so_noOverwrite opt" and "\<not> so_dryRun opt"
    and "\<not> tc_NoOverwrite tc" and "en_lockOk en"
    and "LoadSyncState (en_hash en)
        (case sw_disk w of None \<Rightarrow> [] | Some j \<Rightarrow> en_ord en (moment w) (reset_hash_domain (en_hash en) j))
        ''dotenv'' stateID (sw_disk w) = Inr j"
    and "\<not> syncStateNeedsRecovery (en_ord en (moment w) j) j"
    and "FilterUnchanged (en_hash en) j secrets = []"
    and "\<forall>n secs. en_file en n secs = None \<longrightarrow> (\<exists>ds. DotenvSyncer_Sync srt f d tmp path secs = (ds, None))"
    and "sorts_by_name srt" and "d tmp = None" and "tmp \<noteq> path"
    and "sync_target en opt (DotenvTarget path) tc stateID secrets w = (w', None)"
  shows "EvRequest [] (sw_disk w) \<in> set (sw_trace w')
    \<and> (\<exists>ds. DotenvSyncer_Sync srt f d tmp path [] = (ds, None) \<and> last (d # ds) = d(path \<mapsto> []))"
proof -
  have run: "and_then (sync_batch en (DotenvTarget path) (Some j) [] False [] w) (sync_notify en opt []) = (w', None)"
    using file_run_unchanged [OF assms(1-9), of path] assms(14) by simp
  obtain w1 e where b: "sync_batch en (DotenvTarget path) (Some j) [] False [] w = (w1, e)" by fastforce
  with run have "e = None" and n: "sync_notify en opt [] w1 = (w', None)" by (cases e; simp)+
  with b have "en_file en (moment w) [] = None" by (auto simp: sync_batch_def Let_def split: option.splits)
  then obtain ds where "DotenvSyncer_Sync srt f d tmp path [] = (ds, None)" using assms(10) by blast
  moreover have "set (sw_trace w1) \<subseteq> set (sw_trace w')"
    using n by (auto simp: sync_notify_def emit_def split: if_splits)
  moreover have "EvRequest [] (sw_disk w) \<in> set (sw_trace w1)"
    using empty_file_run [of en "DotenvTarget path" "Some j" "[]" False w] b by simp
  ultimately show ?thesis using empty_batch_truncates [where d = d and f = f, OF assms(11-13)] by blast
qed

end
