(* ===== verification/State_Manifest.thy ===== *)
theory State_Manifest
  imports Go_Path Go_Utf8 Signed_Envelope "HOL-Library.List_Lexorder" "HOL-Library.Char_ord"
begin

text \<open>
  Signed inventories of a state directory, \<open>src/internal/syncer/migration_manifest.go\<close>, with the scan of
  \<open>migration_manifest_scan_other.go\<close> (every system but Windows).

  \<open>manifest_env\<close> holds SHA-256 in hexadecimal, Ed25519, the JSON encoding of the signed document, and what
  the operating system answers: the working directory, the resolution of symbolic links, \<open>Lstat\<close>, the entries
  \<open>filepath.WalkDir\<close> visits in its order, and whether a directory is still the same one after the scan.
\<close>

subsection \<open>Data\<close>

record StateManifestFile =
  sf_Path :: string
  sf_Size :: int
  sf_SHA256 :: string

record StateManifest =
  mf_Version :: int
  mf_Role :: string
  mf_Audience :: string
  mf_SourceRoot :: string
  mf_Files :: "StateManifestFile list"
  mf_Nonce :: string
  mf_ExpiresAt :: gotime
  mf_Signature :: string

text \<open>What \<open>Lstat\<close> says; unsafe modes are symbolic links and irregular files.\<close>

datatype file_kind = KindDir | KindRegular | KindUnsafe | KindOther

text \<open>\<open>we_Content\<close>: the bytes read, \<open>None\<close> when opening, the identity check or reading fails.\<close>

record walk_entry =
  we_Path :: string
  we_Failed :: bool
  we_Type :: file_kind
  we_Info :: "file_kind option"
  we_Content :: "string option"

record manifest_env =
  mn_sha :: "string \<Rightarrow> string"
  mn_json :: "StateManifest \<Rightarrow> string"
  mn_sign :: "string \<Rightarrow> string \<Rightarrow> string"
  mn_verify :: "string \<Rightarrow> string \<Rightarrow> string \<Rightarrow> bool"
  mn_public :: "string \<Rightarrow> string"
  mn_cwd :: "string option"
  mn_EvalSymlinks :: "string \<Rightarrow> string option"
  mn_Lstat :: "string \<Rightarrow> file_kind option"
  mn_walk :: "string \<Rightarrow> walk_entry list"
  mn_sameDir :: "string \<Rightarrow> bool"

definition StateManifestVersion :: int where
  "StateManifestVersion = 1"

definition MaxStateManifestTTL :: int where
  "MaxStateManifestTTL = 15 * 60 * second"

subsection \<open>Validation\<close>

definition validateStateManifestRequired :: "string \<Rightarrow> string \<Rightarrow> string option" where
  "validateStateManifestRequired val name =
     (if TrimSpace val = [] then Some (name @ '' is required'')
      else if \<not> valid_utf8 val \<or> CHR 0x00 \<in> set val then Some (''invalid '' @ name)
      else None)"

definition validateStateManifestRootField :: "string \<Rightarrow> string option" where
  "validateStateManifestRootField root =
     first_err (validateStateManifestRequired root ''source root'')
       (if \<not> rooted root \<or> filepath_Clean root \<noteq> root then Some ''source root is not canonical'' else None)"

definition validateStateManifestTimestamp :: "gotime \<Rightarrow> string option" where
  "validateStateManifestTimestamp expiresAt =
     (if IsZero expiresAt then Some ''expiry is required''
      else if \<not> marshals expiresAt then Some ''invalid expiry'' else None)"

definition validateStateManifestExpiry :: "gotime \<Rightarrow> gotime \<Rightarrow> string option" where
  "validateStateManifestExpiry expiresAt now =
     first_err (validateStateManifestTimestamp expiresAt)
       (if \<not> After expiresAt now then Some ''expiry is not in the future''
        else if MaxStateManifestTTL < expiresAt - now then Some ''expiry exceeds maximum TTL'' else None)"

definition validStateManifestPath :: "string \<Rightarrow> bool" where
  "validStateManifestPath val \<longleftrightarrow>
     val \<noteq> [] \<and> val \<noteq> ''.'' \<and> valid_utf8 val \<and> CHR 0x00 \<notin> set val
     \<and> CHR 0x5C \<notin> set val \<and> CHR '':'' \<notin> set val \<and> \<not> rooted val
     \<and> filepath_Clean val = val
     \<and> list_all (\<lambda>part. part \<noteq> [] \<and> part \<noteq> ''.'' \<and> part \<noteq> ''..'') (Split (CHR ''/'') val)"

definition validStateManifestSHA256 :: "string \<Rightarrow> bool" where
  "validStateManifestSHA256 val \<longleftrightarrow> length val = 64 \<and> list_all is_lower_hex val"

definition validateStateManifestFile :: "StateManifestFile \<Rightarrow> string option" where
  "validateStateManifestFile file =
     (if \<not> validStateManifestPath (sf_Path file) then Some ''invalid file path''
      else if sf_Size file < 0 then Some ''invalid file size''
      else if \<not> validStateManifestSHA256 (sf_SHA256 file) then Some ''invalid file digest''
      else None)"

text \<open>The loop over the rows; \<open>previous\<close> is \<open>None\<close> before the first.\<close>

fun validate_rows :: "string option \<Rightarrow> StateManifestFile list \<Rightarrow> string option" where
  "validate_rows previous [] = None"
| "validate_rows previous (file # files) =
     first_err (validateStateManifestFile file)
       (if previous \<noteq> None \<and> sf_Path file \<le> the previous then Some ''file rows are not strictly sorted''
        else validate_rows (Some (sf_Path file)) files)"

definition validateStateManifestFields :: "StateManifest \<Rightarrow> string option" where
  "validateStateManifestFields m =
     (if mf_Version m \<noteq> StateManifestVersion then Some ''unsupported version''
      else first_err (validateStateManifestRequired (mf_Role m) ''role'')
        (first_err (validateStateManifestRequired (mf_Audience m) ''audience'')
        (first_err (validateStateManifestRequired (mf_Nonce m) ''nonce'')
        (first_err (validateStateManifestRootField (mf_SourceRoot m))
        (first_err (validateStateManifestTimestamp (mf_ExpiresAt m))
        (if mf_Files m = [] then Some ''file set is empty''
         else validate_rows None (mf_Files m)))))))"

text \<open>The bytes that are signed: every field but the signature.\<close>

definition manifest_CanonicalSigningBytes :: "manifest_env \<Rightarrow> StateManifest \<Rightarrow> string + string" where
  "manifest_CanonicalSigningBytes env m = (case validateStateManifestFields m of
      Some e \<Rightarrow> Inl e
    | None \<Rightarrow> Inr (mn_json env (m\<lparr>mf_Signature := []\<rparr>)))"

subsection \<open>Scanning\<close>

text \<open>The directories from the root of the scan up must be there and safe.\<close>

definition rejectStateManifestUnsafeAncestors :: "manifest_env \<Rightarrow> string \<Rightarrow> string option" where
  "rejectStateManifestUnsafeAncestors env root =
     check_all (\<lambda>current. case mn_Lstat env current of
         None \<Rightarrow> Some ''invalid source root''
       | Some k \<Rightarrow> if k = KindUnsafe then Some ''unsafe source roots are not allowed'' else None)
       (ancestors root)"

definition canonicalizeStateManifestRoot :: "manifest_env \<Rightarrow> string \<Rightarrow> string + string" where
  "canonicalizeStateManifestRoot env raw =
     (if TrimSpace raw = [] \<or> \<not> valid_utf8 raw \<or> CHR 0x00 \<in> set raw then Inl ''invalid source root''
      else case filepath_Abs (mn_cwd env) raw of
          None \<Rightarrow> Inl ''invalid source root''
        | Some absolute \<Rightarrow>
            (case map_option filepath_Clean (mn_EvalSymlinks env (filepath_Clean absolute)) of
               None \<Rightarrow> Inl ''invalid source root''
             | Some canonical \<Rightarrow>
                 if \<not> rooted canonical then Inl ''invalid source root''
                 else (case rejectStateManifestUnsafeAncestors env canonical of
                     Some e \<Rightarrow> Inl e
                   | None \<Rightarrow> if mn_Lstat env canonical = Some KindDir then Inr canonical
                             else Inl ''invalid source root'')))"

definition reservedStateManifestNames :: "string list" where
  "reservedStateManifestNames = [''state-manifest.json'', ''state-public-key'']"

definition isReservedStateManifestName :: "string \<Rightarrow> bool" where
  "isReservedStateManifestName normalizedPath \<longleftrightarrow> normalizedPath \<in> set reservedStateManifestNames"

definition hashStateManifestFile :: "manifest_env \<Rightarrow> file_kind \<Rightarrow> string option \<Rightarrow> string + int \<times> string" where
  "hashStateManifestFile env expected content =
     (if expected \<noteq> KindRegular then Inl ''file changed during scan''
      else case content of
          None \<Rightarrow> Inl ''file read failed''
        | Some data \<Rightarrow> Inr (int (length data), mn_sha env data))"

text \<open>The function \<open>WalkDir\<close> calls on each entry, which collects files and directories.\<close>

definition scan_entry ::
    "manifest_env \<Rightarrow> string \<Rightarrow> walk_entry \<Rightarrow> StateManifestFile list \<times> string list
      \<Rightarrow> string + StateManifestFile list \<times> string list" where
  "scan_entry env root e acc = (case acc of (files, dirs) \<Rightarrow>
     if we_Failed e then Inl ''source root scan failed''
     else case we_Info e of
         None \<Rightarrow> Inl ''source root scan failed''
       | Some info \<Rightarrow>
           if we_Type e = KindUnsafe \<or> info = KindUnsafe then Inl ''unsafe source entries are not allowed''
           else if we_Path e = root
           then if info \<noteq> KindDir then Inl ''invalid source root'' else Inr (files, dirs @ [we_Path e])
           else if info = KindDir then Inr (files, dirs @ [we_Path e])
           else if info \<noteq> KindRegular then Inl ''non-regular entries are not allowed''
           else (case filepath_Rel root (we_Path e) of
               None \<Rightarrow> Inl ''source path resolution failed''
             | Some normalized \<Rightarrow>
                 if \<not> validStateManifestPath normalized then Inl ''invalid file path''
                 else if isReservedStateManifestName normalized then Inr (files, dirs)
                 else (case hashStateManifestFile env info (we_Content e) of
                     Inl er \<Rightarrow> Inl er
                   | Inr (n, digest) \<Rightarrow>
                       Inr (files @ [\<lparr>sf_Path = normalized, sf_Size = n, sf_SHA256 = digest\<rparr>], dirs))))"

fun scan_walk ::
    "manifest_env \<Rightarrow> string \<Rightarrow> walk_entry list \<Rightarrow> StateManifestFile list \<times> string list
      \<Rightarrow> string + StateManifestFile list \<times> string list" where
  "scan_walk env root [] acc = Inr acc"
| "scan_walk env root (e # es) acc = (case scan_entry env root e acc of
      Inl er \<Rightarrow> Inl er
    | Inr acc' \<Rightarrow> scan_walk env root es acc')"

definition revalidateStateManifestDirectories :: "manifest_env \<Rightarrow> string list \<Rightarrow> string option" where
  "revalidateStateManifestDirectories env directories =
     (if list_all (mn_sameDir env) directories then None else Some ''source directories changed during scan'')"

definition scanStateManifestRoot :: "manifest_env \<Rightarrow> string \<Rightarrow> string + StateManifestFile list" where
  "scanStateManifestRoot env root = (case scan_walk env root (mn_walk env root) ([], []) of
      Inl e \<Rightarrow> Inl e
    | Inr (files, directories) \<Rightarrow>
        (case revalidateStateManifestDirectories env directories of
           Some e \<Rightarrow> Inl e
         | None \<Rightarrow> if files = [] then Inl ''source root is empty'' else Inr (sort_key sf_Path files)))"

definition sameStateManifestFiles :: "StateManifestFile list \<Rightarrow> StateManifestFile list \<Rightarrow> bool" where
  "sameStateManifestFiles expected actual \<longleftrightarrow>
     length expected = length actual \<and> list_all (\<lambda>(x, y). x = y) (zip expected actual)"

subsection \<open>Building and verifying\<close>

definition unsigned_manifest ::
    "string \<Rightarrow> string \<Rightarrow> string \<Rightarrow> StateManifestFile list \<Rightarrow> string \<Rightarrow> gotime \<Rightarrow> StateManifest" where
  "unsigned_manifest role audience root files nonce expiresAt =
     \<lparr>mf_Version = StateManifestVersion, mf_Role = role, mf_Audience = audience, mf_SourceRoot = root,
      mf_Files = files, mf_Nonce = nonce, mf_ExpiresAt = expiresAt, mf_Signature = []\<rparr>"

definition BuildStateManifest ::
    "manifest_env \<Rightarrow> string \<Rightarrow> string \<Rightarrow> string \<Rightarrow> string \<Rightarrow> gotime \<Rightarrow> string \<Rightarrow> gotime \<Rightarrow> string + StateManifest" where
  "BuildStateManifest env root role audience nonce expiresAt signer now =
     (case first_err (validateStateManifestRequired role ''role'')
          (first_err (validateStateManifestRequired audience ''audience'')
          (first_err (validateStateManifestRequired nonce ''nonce'')
          (first_err (if length signer \<noteq> 64 then Some ''invalid signer'' else None)
            (validateStateManifestExpiry expiresAt now)))) of
        Some e \<Rightarrow> Inl e
      | None \<Rightarrow> (case canonicalizeStateManifestRoot env root of
            Inl e \<Rightarrow> Inl e
          | Inr canonicalRoot \<Rightarrow> (case scanStateManifestRoot env canonicalRoot of
                Inl e \<Rightarrow> Inl e
              | Inr files \<Rightarrow>
                  let m = unsigned_manifest role audience canonicalRoot files nonce expiresAt
                  in (case manifest_CanonicalSigningBytes env m of
                        Inl e \<Rightarrow> Inl e
                      | Inr canonical \<Rightarrow> Inr (m\<lparr>mf_Signature := mn_sign env signer canonical\<rparr>)))))"

definition VerifyStateManifest ::
    "manifest_env \<Rightarrow> StateManifest option \<Rightarrow> string \<Rightarrow> string \<Rightarrow> string \<Rightarrow> string \<Rightarrow> gotime \<Rightarrow> string option" where
  "VerifyStateManifest env manifest root role audience publicKey now = (case manifest of
      None \<Rightarrow> Some ''missing manifest''
    | Some m \<Rightarrow>
        first_err (validateStateManifestFields m)
       (first_err (validateStateManifestRequired role ''role'')
       (first_err (validateStateManifestRequired audience ''audience'')
       (first_err (validateStateManifestExpiry (mf_ExpiresAt m) now)
       (if length publicKey \<noteq> 32 then Some ''invalid verifier key''
        else case canonicalizeStateManifestRoot env root of
            Inl e \<Rightarrow> Some e
          | Inr canonicalRoot \<Rightarrow>
              if mf_SourceRoot m \<noteq> canonicalRoot then Some ''source root mismatch''
              else if mf_Role m \<noteq> role then Some ''role mismatch''
              else if mf_Audience m \<noteq> audience then Some ''audience mismatch''
              else if length (mf_Signature m) \<noteq> 64 then Some ''invalid signature''
              else case manifest_CanonicalSigningBytes env m of
                  Inl e \<Rightarrow> Some e
                | Inr canonical \<Rightarrow>
                    if \<not> mn_verify env publicKey canonical (mf_Signature m) then Some ''invalid signature''
                    else case scanStateManifestRoot env canonicalRoot of
                        Inl e \<Rightarrow> Some e
                      | Inr actualFiles \<Rightarrow>
                          if sameStateManifestFiles (mf_Files m) actualFiles then None
                          else Some ''source files do not match manifest'')))))"

subsection \<open>What a verified manifest says\<close>

definition manifest_crypto_ok :: "manifest_env \<Rightarrow> bool" where
  "manifest_crypto_ok env \<longleftrightarrow> (\<forall>k m. length k = 64 \<longrightarrow>
     length (mn_sign env k m) = 64 \<and> length (mn_public env k) = 32
     \<and> mn_verify env (mn_public env k) m (mn_sign env k m))"

lemma same_files_eq: "sameStateManifestFiles xs ys \<longleftrightarrow> xs = ys"
  by (auto simp: sameStateManifestFiles_def list_all_length intro: nth_equalityI)

lemma rows_sorted:
  "validate_rows previous files = None \<Longrightarrow>
     sorted_wrt (<) (map sf_Path files) \<and> list_all (\<lambda>f. validateStateManifestFile f = None) files
     \<and> (\<forall>p f. previous = Some p \<longrightarrow> f \<in> set files \<longrightarrow> p < sf_Path f)"
proof (induction previous files rule: validate_rows.induct)
  case (2 previous row rows)
  then have f: "validateStateManifestFile row = None" "\<not> (previous \<noteq> None \<and> sf_Path row \<le> the previous)"
    "validate_rows (Some (sf_Path row)) rows = None" by (auto split: if_splits)
  note ih = "2.IH" [OF f(2,3)]
  have "p < sf_Path g" if "previous = Some p" "g \<in> set (row # rows)" for p g
  proof -
    have "p < sf_Path row" using f(2) that(1) by auto
    moreover have "g \<in> set rows \<Longrightarrow> sf_Path row < sf_Path g" using ih by blast
    ultimately show ?thesis using that(2) by auto
  qed
  then show ?case using ih f(1) by auto
qed simp

lemma fields_signature: "validateStateManifestFields (m\<lparr>mf_Signature := s\<rparr>) = validateStateManifestFields m"
  by (simp add: validateStateManifestFields_def)

lemma Build_Inr:
  assumes "BuildStateManifest env root role audience nonce expiresAt signer now = Inr m"
  obtains cr files where "validateStateManifestRequired role ''role'' = None"
    "validateStateManifestRequired audience ''audience'' = None" "length signer = 64"
    "validateStateManifestExpiry expiresAt now = None" "canonicalizeStateManifestRoot env root = Inr cr"
    "scanStateManifestRoot env cr = Inr files"
    "validateStateManifestFields (unsigned_manifest role audience cr files nonce expiresAt) = None"
    "m = (unsigned_manifest role audience cr files nonce expiresAt)\<lparr>mf_Signature :=
       mn_sign env signer (mn_json env (unsigned_manifest role audience cr files nonce expiresAt))\<rparr>"
proof -
  define c where "c = first_err (validateStateManifestRequired role ''role'')
          (first_err (validateStateManifestRequired audience ''audience'')
          (first_err (validateStateManifestRequired nonce ''nonce'')
          (first_err (if length signer \<noteq> 64 then Some ''invalid signer'' else None)
            (validateStateManifestExpiry expiresAt now))))"
  note B = assms [unfolded BuildStateManifest_def c_def [symmetric] Let_def manifest_CanonicalSigningBytes_def]
  have c: "c = None" using B by (cases c) simp_all
  note B1 = B [unfolded c option.case]
  obtain cr where cr: "canonicalizeStateManifestRoot env root = Inr cr"
    using B1 by (cases "canonicalizeStateManifestRoot env root") simp_all
  note B2 = B1 [unfolded cr sum.case]
  obtain files where f: "scanStateManifestRoot env cr = Inr files"
    using B2 by (cases "scanStateManifestRoot env cr") simp_all
  note B3 = B2 [unfolded f sum.case]
  let ?u = "unsigned_manifest role audience cr files nonce expiresAt"
  have sig: "?u\<lparr>mf_Signature := []\<rparr> = ?u" by (simp add: unsigned_manifest_def)
  have v: "validateStateManifestFields ?u = None" using B3 by (cases "validateStateManifestFields ?u") simp_all
  have m: "m = ?u\<lparr>mf_Signature := mn_sign env signer (mn_json env ?u)\<rparr>" using B3 by (simp add: v sig)
  have "length signer = 64" using c by (simp add: c_def split: if_splits)
  with c show thesis by (intro that [OF _ _ _ _ cr f v m]) (simp_all add: c_def)
qed

text \<open>The root a scan starts from is in the form that it takes itself to.\<close>

definition stable_root :: "manifest_env \<Rightarrow> manifest_env \<Rightarrow> string \<Rightarrow> bool" where
  "stable_root env env' root \<longleftrightarrow>
     (\<forall>cr. canonicalizeStateManifestRoot env root = Inr cr \<longrightarrow> canonicalizeStateManifestRoot env' cr = Inr cr)"

text \<open>
  C29: a signed manifest vouches for exactly one set of files. Until it expires, and with the directory still in its
  place, a manifest that was built verifies under the public key of its signer if and only if a new
  scan finds the very files of the scan it was built from: the same paths, sizes and digests.
\<close>

theorem manifest_verifies_exactly:
  assumes "manifest_crypto_ok env" and "mn_json env' = mn_json env" and "mn_verify env' = mn_verify env"
    and "BuildStateManifest env root role audience nonce expiresAt signer now = Inr m"
    and "stable_root env env' root" and "now \<le> now'" and "now' < expiresAt"
  shows "(VerifyStateManifest env' (Some m) (mf_SourceRoot m) role audience (mn_public env signer) now' = None
      \<longleftrightarrow> scanStateManifestRoot env' (mf_SourceRoot m) = Inr (mf_Files m))
    \<and> scanStateManifestRoot env (mf_SourceRoot m) = Inr (mf_Files m)
    \<and> sorted_wrt (<) (map sf_Path (mf_Files m))"
proof -
  obtain cr files where b: "validateStateManifestRequired role ''role'' = None"
    "validateStateManifestRequired audience ''audience'' = None" "length signer = 64"
    "validateStateManifestExpiry expiresAt now = None" "canonicalizeStateManifestRoot env root = Inr cr"
    "scanStateManifestRoot env cr = Inr files"
    "validateStateManifestFields (unsigned_manifest role audience cr files nonce expiresAt) = None"
    "m = (unsigned_manifest role audience cr files nonce expiresAt)\<lparr>mf_Signature :=
       mn_sign env signer (mn_json env (unsigned_manifest role audience cr files nonce expiresAt))\<rparr>"
    by (rule Build_Inr [OF assms(4)])
  let ?u = "unsigned_manifest role audience cr files nonce expiresAt"
  have f: "mf_SourceRoot m = cr" "mf_Files m = files" "mf_Role m = role" "mf_Audience m = audience"
    "mf_ExpiresAt m = expiresAt" "mf_Signature m = mn_sign env signer (mn_json env ?u)"
    "m\<lparr>mf_Signature := []\<rparr> = ?u"
    using b(8) by (simp_all add: unsigned_manifest_def)
  have v: "validateStateManifestFields m = None" using b(7,8) by (simp add: fields_signature)
  have cr: "canonicalizeStateManifestRoot env' cr = Inr cr" using assms(5) b(5) by (simp add: stable_root_def)
  have ex: "validateStateManifestExpiry expiresAt now' = None"
    using b(4) assms(6,7) by (auto simp: validateStateManifestExpiry_def After_def split: if_splits)
  have sig: "length (mf_Signature m) = 64" "length (mn_public env signer) = 32"
    "mn_verify env (mn_public env signer) (mn_json env ?u) (mf_Signature m)"
    using assms(1) b(3) f(6) by (simp_all add: manifest_crypto_ok_def)
  have "VerifyStateManifest env' (Some m) cr role audience (mn_public env signer) now' = None
      \<longleftrightarrow> scanStateManifestRoot env' cr = Inr files"
    using v b(1,2) ex cr sig f assms(2,3)
    by (cases "scanStateManifestRoot env' cr")
      (auto simp: VerifyStateManifest_def manifest_CanonicalSigningBytes_def same_files_eq)
  moreover have "files \<noteq> []" "validate_rows None files = None"
    using b(7) by (auto simp: validateStateManifestFields_def unsigned_manifest_def split: if_splits)
  then have "sorted_wrt (<) (map sf_Path files)" using rows_sorted by blast
  ultimately show ?thesis using b(6) f(1,2) by simp
qed

subsection \<open>An example\<close>

definition example_scan :: "string \<Rightarrow> manifest_env" where
  "example_scan content = \<lparr>mn_sha = (\<lambda>d. replicate 64 (if d = ''x'' then CHR ''a'' else CHR ''b'')), mn_json = mf_Nonce,
     mn_sign = (\<lambda>k m. replicate 64 CHR ''s''), mn_verify = (\<lambda>p m s. s = replicate 64 CHR ''s''),
     mn_public = (\<lambda>k. replicate 32 CHR ''p''), mn_cwd = None, mn_EvalSymlinks = Some,
     mn_Lstat = (\<lambda>p. Some KindDir),
     mn_walk = (\<lambda>r. [\<lparr>we_Path = ''/s'', we_Failed = False, we_Type = KindDir, we_Info = Some KindDir, we_Content = None\<rparr>,
        \<lparr>we_Path = ''/s/a.json'', we_Failed = False, we_Type = KindRegular, we_Info = Some KindRegular, we_Content = Some content\<rparr>]),
     mn_sameDir = (\<lambda>p. True)\<rparr>"

definition example_built :: "string + StateManifest" where
  "example_built = BuildStateManifest (example_scan ''x'') ''/s'' ''r'' ''a'' ''n'' 100 (replicate 64 CHR ''k'') 50"

lemma example_built_ok: "case example_built of Inl _ \<Rightarrow> False
    | Inr m \<Rightarrow> mf_SourceRoot m = ''/s'' \<and> mf_Files m = [\<lparr>sf_Path = ''a.json'', sf_Size = 1, sf_SHA256 = replicate 64 CHR ''a''\<rparr>]"
  unfolding example_built_def by code_simp

lemma example_rescan:
  "scanStateManifestRoot (example_scan ''x'') ''/s'' = Inr [\<lparr>sf_Path = ''a.json'', sf_Size = 1, sf_SHA256 = replicate 64 CHR ''a''\<rparr>]"
  "scanStateManifestRoot (example_scan ''y'') ''/s'' \<noteq> Inr [\<lparr>sf_Path = ''a.json'', sf_Size = 1, sf_SHA256 = replicate 64 CHR ''a''\<rparr>]"
  by code_simp+

lemma example_root: "canonicalizeStateManifestRoot (example_scan c) ''/s'' = Inr ''/s''"
  unfolding example_scan_def by code_simp

theorem manifest_verifies_exactly_witness:
  "\<exists>m. example_built = Inr m
     \<and> VerifyStateManifest (example_scan ''x'') (Some m) ''/s'' ''r'' ''a'' (replicate 32 CHR ''p'') 60 = None
     \<and> VerifyStateManifest (example_scan ''y'') (Some m) ''/s'' ''r'' ''a'' (replicate 32 CHR ''p'') 60 \<noteq> None"
proof -
  obtain m where m: "example_built = Inr m" "mf_SourceRoot m = ''/s''"
    "mf_Files m = [\<lparr>sf_Path = ''a.json'', sf_Size = 1, sf_SHA256 = replicate 64 CHR ''a''\<rparr>]"
    using example_built_ok by (auto split: sum.splits)
  have c: "manifest_crypto_ok (example_scan ''x'')" by (simp add: manifest_crypto_ok_def example_scan_def)
  have s: "stable_root (example_scan ''x'') (example_scan y) ''/s''" for y by (simp add: stable_root_def example_root)
  have p: "mn_public (example_scan ''x'') k = replicate 32 CHR ''p''" "mn_json (example_scan y) = mn_json (example_scan ''x'')"
    "mn_verify (example_scan y) = mn_verify (example_scan ''x'')" for k y by (simp_all add: example_scan_def)
  have "VerifyStateManifest (example_scan y) (Some m) ''/s'' ''r'' ''a'' (replicate 32 CHR ''p'') 60 = None
      \<longleftrightarrow> scanStateManifestRoot (example_scan y) ''/s'' = Inr (mf_Files m)" for y
    using manifest_verifies_exactly [OF c p(2,3) m(1) [unfolded example_built_def] s, of 60 y] m(2) by (simp add: p)
  then show ?thesis using m(3) example_rescan by (intro exI [of _ m] conjI m(1)) (simp_all only: simp_thms)
qed

end
