(* ===== verification/Migration_Fs.thy ===== *)
theory Migration_Fs
  imports Go_Prelude
begin

text \<open>
  A file system for programs that must survive being interrupted. A computation takes a \<open>mig_world\<close> and returns
  an error or a value, and the world it left: the files, the file systems after each call that changed one
  (oldest first), and the number of system calls so far. \<open>flt n\<close> is \<open>Some k\<close> when the \<open>n\<close>-th system call fails, a write
  after \<open>k\<close> bytes. A crash leaves one of the recorded file systems.

  Two names of one file are two entries with the same content: the modelled code never writes to
  a file after it has linked it, so the names cannot be told from copies.
\<close>

subsection \<open>Computations\<close>

datatype node = RegularFile string | Directory | OtherFile

type_synonym fsys = "string \<rightharpoonup> node"

record mig_world =
  mw_fs :: fsys
  mw_trace :: "fsys list"
  mw_calls :: nat

datatype mig_error =
    MigError string
  | ErrStateMigrationNeedsReconciliation
  | ErrStateMigrationInvalidJournal

type_synonym 'a mig = "mig_world \<Rightarrow> (mig_error + 'a) \<times> mig_world"
type_synonym faults = "nat \<Rightarrow> nat option"

definition mret :: "'a \<Rightarrow> 'a mig" where
  "mret x w = (Inr x, w)"

definition mfail :: "mig_error \<Rightarrow> 'a mig" where
  "mfail e w = (Inl e, w)"

definition mbind :: "'a mig \<Rightarrow> ('a \<Rightarrow> 'b mig) \<Rightarrow> 'b mig" where
  "mbind m f w = (case m w of (Inl e, w') \<Rightarrow> (Inl e, w') | (Inr x, w') \<Rightarrow> f x w')"

definition mguard :: "mig_error option \<Rightarrow> unit mig" where
  "mguard e = (case e of None \<Rightarrow> mret () | Some e \<Rightarrow> mfail e)"

text \<open>A deferred clean-up that runs when the function returns an error; its own errors are dropped.\<close>

definition on_error :: "'a mig \<Rightarrow> 'b mig \<Rightarrow> 'a mig" where
  "on_error m cleanup w = (case m w of (Inl e, w') \<Rightarrow> (Inl e, snd (cleanup w')) | (Inr x, w') \<Rightarrow> (Inr x, w'))"

subsection \<open>System calls\<close>

definition tick :: "mig_world \<Rightarrow> mig_world" where
  "tick w = w\<lparr>mw_calls := Suc (mw_calls w)\<rparr>"

definition put :: "fsys \<Rightarrow> mig_world \<Rightarrow> mig_world" where
  "put fs w = w\<lparr>mw_fs := fs, mw_trace := mw_trace w @ [fs]\<rparr>"

text \<open>A call that looks at the files, and one that changes them: \<open>g\<close> gives the new files, or an error.\<close>

definition look :: "faults \<Rightarrow> string \<Rightarrow> (fsys \<Rightarrow> mig_error + 'a) \<Rightarrow> 'a mig" where
  "look flt what g w = (if flt (mw_calls w) \<noteq> None then (Inl (MigError what), tick w) else (g (mw_fs w), tick w))"

definition change :: "faults \<Rightarrow> string \<Rightarrow> (fsys \<Rightarrow> fsys option) \<Rightarrow> unit mig" where
  "change flt what g w =
     (if flt (mw_calls w) \<noteq> None then (Inl (MigError what), tick w)
      else case g (mw_fs w) of
          None \<Rightarrow> (Inl (MigError what), tick w)
        | Some fs \<Rightarrow> (Inr (), put fs (tick w)))"

definition os_Lstat :: "faults \<Rightarrow> string \<Rightarrow> node option mig" where
  "os_Lstat flt path = look flt ''inspect path'' (\<lambda>fs. Inr (fs path))"

definition os_ReadFile :: "faults \<Rightarrow> string \<Rightarrow> string mig" where
  "os_ReadFile flt path = look flt ''read file'' (\<lambda>fs. case fs path of
      Some (RegularFile c) \<Rightarrow> Inr c
    | _ \<Rightarrow> Inl (MigError ''read file''))"

text \<open>Calls on an open file that do not change its content (\<open>Chmod\<close>, \<open>Sync\<close>, \<open>Close\<close>).\<close>

definition fd_call :: "faults \<Rightarrow> string \<Rightarrow> unit mig" where
  "fd_call flt what = look flt what (\<lambda>fs. Inr ())"

definition os_Chmod :: "faults \<Rightarrow> string \<Rightarrow> unit mig" where
  "os_Chmod flt path = look flt ''secure file'' (\<lambda>fs. if fs path = None then Inl (MigError ''secure file'') else Inr ())"

text \<open>\<open>os.CreateTemp\<close>: an empty file under a name that was free; \<open>name\<close> picks it.\<close>

definition os_CreateTemp :: "faults \<Rightarrow> (fsys \<Rightarrow> string) \<Rightarrow> string mig" where
  "os_CreateTemp flt name w =
     (if flt (mw_calls w) \<noteq> None then (Inl (MigError ''create temporary file''), tick w)
      else let p = name (mw_fs w) in (Inr p, put ((mw_fs w)(p \<mapsto> RegularFile [])) (tick w)))"

definition file_Write :: "faults \<Rightarrow> string \<Rightarrow> string \<Rightarrow> unit mig" where
  "file_Write flt path content w = (case flt (mw_calls w) of
      Some k \<Rightarrow> (Inl (MigError ''write temporary file''),
                  put ((mw_fs w)(path \<mapsto> RegularFile (take k content))) (tick w))
    | None \<Rightarrow> (Inr (), put ((mw_fs w)(path \<mapsto> RegularFile content)) (tick w)))"

text \<open>\<open>os.Link\<close> does not replace an existing destination; \<open>os.Rename\<close> does.\<close>

definition os_Link :: "faults \<Rightarrow> string \<Rightarrow> string \<Rightarrow> unit mig" where
  "os_Link flt source destination = change flt ''exclusive link'' (\<lambda>fs.
     if fs source = None \<or> fs source = Some Directory \<or> fs destination \<noteq> None then None
     else Some (fs(destination := fs source)))"

definition os_Rename :: "faults \<Rightarrow> string \<Rightarrow> string \<Rightarrow> unit mig" where
  "os_Rename flt source destination = change flt ''rename'' (\<lambda>fs.
     if fs source = None \<or> fs destination = Some Directory then None
     else Some (fs(destination := fs source, source := None)))"

definition os_Remove :: "faults \<Rightarrow> string \<Rightarrow> unit mig" where
  "os_Remove flt path = change flt ''remove'' (\<lambda>fs.
     if fs path = None \<or> fs path = Some Directory then None else Some (fs(path := None)))"

subsection \<open>Triples\<close>

text \<open>
  \<open>triple I P m Q E\<close>: from files with \<open>P\<close>, every file system \<open>m\<close> leaves behind on its way satisfies \<open>I\<close>, and it ends
  with a value and files in \<open>Q\<close>, or with an error and files in \<open>E\<close>, whatever calls fail.
\<close>

definition triple ::
    "(fsys \<Rightarrow> bool) \<Rightarrow> (fsys \<Rightarrow> bool) \<Rightarrow> 'a mig \<Rightarrow> ('a \<Rightarrow> fsys \<Rightarrow> bool) \<Rightarrow> (fsys \<Rightarrow> bool) \<Rightarrow> bool" where
  "triple I P m Q E \<longleftrightarrow> (\<forall>w. P (mw_fs w) \<longrightarrow>
     (\<exists>tr. mw_trace (snd (m w)) = mw_trace w @ tr \<and> list_all I tr)
     \<and> (case fst (m w) of Inr x \<Rightarrow> Q x (mw_fs (snd (m w))) | Inl e \<Rightarrow> E (mw_fs (snd (m w)))))"

named_theorems triples \<open>rules for the system calls and the functions built from them\<close>

lemma tripleI:
  assumes "\<And>(w :: mig_world) r w'. m w = (r, w') \<Longrightarrow> P (mw_fs w) \<Longrightarrow>
      (\<exists>tr. mw_trace w' = mw_trace w @ tr \<and> list_all I tr)
      \<and> (case r of Inr x \<Rightarrow> Q x (mw_fs w') | Inl e \<Rightarrow> E (mw_fs w'))"
  shows "triple I P m Q E"
  unfolding triple_def
proof (intro allI impI)
  fix w :: mig_world assume "P (mw_fs w)"
  moreover obtain r w' where "m w = (r, w')" by (cases "m w")
  ultimately show "(\<exists>tr. mw_trace (snd (m w)) = mw_trace w @ tr \<and> list_all I tr)
     \<and> (case fst (m w) of Inr x \<Rightarrow> Q x (mw_fs (snd (m w))) | Inl e \<Rightarrow> E (mw_fs (snd (m w))))"
    using assms [of w r w'] by (cases r) simp_all
qed

lemma tripleD:
  assumes "triple I P m Q E" and "m w = (r, w')" and "P (mw_fs w)"
  shows "\<exists>tr. mw_trace w' = mw_trace w @ tr \<and> list_all I tr"
    and "r = Inr x \<Longrightarrow> Q x (mw_fs w')" and "r = Inl e \<Longrightarrow> E (mw_fs w')"
proof -
  have "(\<exists>tr. mw_trace w' = mw_trace w @ tr \<and> list_all I tr)
      \<and> (case r of Inr x \<Rightarrow> Q x (mw_fs w') | Inl e \<Rightarrow> E (mw_fs w'))"
    using assms unfolding triple_def by (metis fst_conv snd_conv)
  then show "\<exists>tr. mw_trace w' = mw_trace w @ tr \<and> list_all I tr"
    and "r = Inr x \<Longrightarrow> Q x (mw_fs w')" and "r = Inl e \<Longrightarrow> E (mw_fs w')" by auto
qed

lemma triple_weaken:
  assumes "triple I P m Q E"
    and "\<And>fs. P' fs \<Longrightarrow> P fs" and "\<And>x fs. Q x fs \<Longrightarrow> Q' x fs" and "\<And>fs. E fs \<Longrightarrow> E' fs"
  shows "triple I P' m Q' E'"
proof (rule tripleI)
  fix w :: mig_world and r w' assume m: "m w = (r, w')" and "P' (mw_fs w)"
  then have p: "P (mw_fs w)" using assms(2) by blast
  show "(\<exists>tr. mw_trace w' = mw_trace w @ tr \<and> list_all I tr)
      \<and> (case r of Inr x \<Rightarrow> Q' x (mw_fs w') | Inl e \<Rightarrow> E' (mw_fs w'))"
    using tripleD [OF assms(1) m p] assms(3,4) by (cases r) auto
qed

lemma triple_pre: "triple I P m Q E \<Longrightarrow> (\<And>fs. P' fs \<Longrightarrow> P fs) \<Longrightarrow> triple I P' m Q E"
  by (erule triple_weaken)

lemma triple_mono: "triple I P m Q E \<Longrightarrow> (\<And>fs. I fs \<Longrightarrow> I' fs) \<Longrightarrow> triple I' P m Q E"
  unfolding triple_def by (fastforce simp: list_all_iff)

lemma triple_ret [triples]: "triple I (Q x) (mret x) Q E"
  by (rule tripleI) (auto simp: mret_def)

lemma triple_fail [triples]: "triple I E (mfail e) Q E"
  by (rule tripleI) (auto simp: mfail_def)

lemma triple_bind:
  assumes "triple I P m R E" and "\<And>x. triple I (R x) (f x) Q E"
  shows "triple I P (mbind m f) Q E"
proof (rule tripleI)
  fix w :: mig_world and r w' assume b: "mbind m f w = (r, w')" and p: "P (mw_fs w)"
  obtain r1 w1 where m: "m w = (r1, w1)" by (cases "m w")
  obtain tr1 where t1: "mw_trace w1 = mw_trace w @ tr1" "list_all I tr1"
    using tripleD(1) [OF assms(1) m p] by blast
  show "(\<exists>tr. mw_trace w' = mw_trace w @ tr \<and> list_all I tr)
      \<and> (case r of Inr x \<Rightarrow> Q x (mw_fs w') | Inl e \<Rightarrow> E (mw_fs w'))"
  proof (cases r1)
    case (Inl e)
    then have "r = Inl e" "w' = w1" using b m by (simp_all add: mbind_def)
    then show ?thesis using t1 tripleD(3) [OF assms(1) m p Inl] by auto
  next
    case (Inr x)
    then have f: "f x w1 = (r, w')" using b m by (simp add: mbind_def)
    have q: "R x (mw_fs w1)" by (rule tripleD(2) [OF assms(1) m p Inr])
    obtain tr2 where "mw_trace w' = mw_trace w1 @ tr2" "list_all I tr2"
      using tripleD(1) [OF assms(2) f q] by blast
    then have "mw_trace w' = mw_trace w @ (tr1 @ tr2)" "list_all I (tr1 @ tr2)" using t1 by simp_all
    then show ?thesis using tripleD(2,3) [OF assms(2) f q] by (cases r) auto
  qed
qed

lemma triple_on_error:
  assumes "triple I P m Q E'" and "triple I E' c (\<lambda>_. E) E"
  shows "triple I P (on_error m c) Q E"
proof (rule tripleI)
  fix w :: mig_world and r w' assume b: "on_error m c w = (r, w')" and p: "P (mw_fs w)"
  obtain r1 w1 where m: "m w = (r1, w1)" by (cases "m w")
  obtain tr1 where t1: "mw_trace w1 = mw_trace w @ tr1" "list_all I tr1"
    using tripleD(1) [OF assms(1) m p] by blast
  show "(\<exists>tr. mw_trace w' = mw_trace w @ tr \<and> list_all I tr)
      \<and> (case r of Inr x \<Rightarrow> Q x (mw_fs w') | Inl e \<Rightarrow> E (mw_fs w'))"
  proof (cases r1)
    case (Inr x)
    then have "r = Inr x" "w' = w1" using b m by (simp_all add: on_error_def)
    then show ?thesis using t1 tripleD(2) [OF assms(1) m p Inr] by auto
  next
    case (Inl e)
    obtain r2 w2 where c: "c w1 = (r2, w2)" by (cases "c w1")
    have r: "r = Inl e" "w' = w2" using b m Inl c by (simp_all add: on_error_def)
    have e: "E' (mw_fs w1)" by (rule tripleD(3) [OF assms(1) m p Inl])
    obtain tr2 where "mw_trace w2 = mw_trace w1 @ tr2" "list_all I tr2"
      using tripleD(1) [OF assms(2) c e] by blast
    then have "mw_trace w' = mw_trace w @ (tr1 @ tr2)" "list_all I (tr1 @ tr2)" using t1 r by simp_all
    moreover have "E (mw_fs w2)" using tripleD(2,3) [OF assms(2) c e] by (cases r2) auto
    ultimately show ?thesis using r by auto
  qed
qed

lemma triple_guard [triples]: "triple I (\<lambda>fs. if e = None then Q () fs else E fs) (mguard e) Q E"
  by (rule tripleI) (auto simp: mguard_def mret_def mfail_def split: option.splits)

lemma triple_look [triples]:
  "triple I (\<lambda>fs. E fs \<and> (\<forall>x. g fs = Inr x \<longrightarrow> Q x fs)) (look flt what g) Q E"
  by (rule tripleI) (auto simp: look_def tick_def split: if_splits sum.splits)

lemma triple_change [triples]:
  "triple I (\<lambda>fs. E fs \<and> (\<forall>fs'. g fs = Some fs' \<longrightarrow> I fs' \<and> Q () fs')) (change flt what g) Q E"
  by (rule tripleI) (auto simp: change_def tick_def put_def split: if_splits option.splits)

lemma triple_CreateTemp [triples]:
  "triple I (\<lambda>fs. E fs \<and> I (fs(name fs \<mapsto> RegularFile [])) \<and> Q (name fs) (fs(name fs \<mapsto> RegularFile [])))
     (os_CreateTemp flt name) Q E"
  by (rule tripleI) (auto simp: os_CreateTemp_def tick_def put_def Let_def split: if_splits)

lemma triple_Write [triples]:
  "triple I (\<lambda>fs. I (fs(path \<mapsto> RegularFile content)) \<and> Q () (fs(path \<mapsto> RegularFile content))
       \<and> (\<forall>k. I (fs(path \<mapsto> RegularFile (take k content))) \<and> E (fs(path \<mapsto> RegularFile (take k content)))))
     (file_Write flt path content) Q E"
  by (rule tripleI) (auto simp: file_Write_def tick_def put_def split: option.splits)

subsection \<open>Computations that only look\<close>

text \<open>\<open>reads m R\<close>: the files stay as they are, and a value \<open>m\<close> returns is related to them by \<open>R\<close>.\<close>

definition reads :: "'a mig \<Rightarrow> ('a \<Rightarrow> fsys \<Rightarrow> bool) \<Rightarrow> bool" where
  "reads m R \<longleftrightarrow> (\<forall>w. mw_fs (snd (m w)) = mw_fs w \<and> mw_trace (snd (m w)) = mw_trace w
     \<and> (\<forall>x. fst (m w) = Inr x \<longrightarrow> R x (mw_fs w)))"

lemma reads_weaken: "reads m R \<Longrightarrow> (\<And>x fs. R x fs \<Longrightarrow> R' x fs) \<Longrightarrow> reads m R'"
  unfolding reads_def by blast

lemma reads_ret: "(\<And>fs. R x fs) \<Longrightarrow> reads (mret x) R"
  by (simp add: reads_def mret_def)

lemma reads_fail: "reads (mfail e) R"
  by (simp add: reads_def mfail_def)

lemma reads_guard: "reads (mguard e) (\<lambda>_ _. e = None)"
  by (cases e) (simp_all add: mguard_def reads_ret reads_fail)

lemma reads_look: "(\<And>fs x. g fs = Inr x \<Longrightarrow> R x fs) \<Longrightarrow> reads (look flt what g) R"
  by (auto simp: reads_def look_def tick_def)

lemma reads_bind:
  assumes "reads m R" and "\<And>x. reads (f x) (\<lambda>y fs. R x fs \<longrightarrow> R' y fs)"
  shows "reads (mbind m f) R'"
  unfolding reads_def
proof (intro allI)
  fix w :: mig_world
  obtain r w1 where m: "m w = (r, w1)" by (cases "m w")
  have w1: "mw_fs w1 = mw_fs w" "mw_trace w1 = mw_trace w" "\<And>x. r = Inr x \<Longrightarrow> R x (mw_fs w)"
    using assms(1) [unfolded reads_def, rule_format, of w] m by simp_all
  show "mw_fs (snd (mbind m f w)) = mw_fs w \<and> mw_trace (snd (mbind m f w)) = mw_trace w
     \<and> (\<forall>y. fst (mbind m f w) = Inr y \<longrightarrow> R' y (mw_fs w))"
  proof (cases r)
    case (Inl e)
    then show ?thesis using m w1 by (simp add: mbind_def)
  next
    case (Inr x)
    then have "mbind m f w = f x w1" using m by (simp add: mbind_def)
    then show ?thesis using assms(2) [unfolded reads_def, rule_format, of x w1] w1 Inr by simp
  qed
qed

lemma reads_triple:
  assumes "reads m R" and "\<And>fs. P fs \<Longrightarrow> E fs"
  shows "triple I P m (\<lambda>x fs. P fs \<and> R x fs) E"
proof (rule tripleI)
  fix w :: mig_world and r w' assume "m w = (r, w')" "P (mw_fs w)"
  then show "(\<exists>tr. mw_trace w' = mw_trace w @ tr \<and> list_all I tr)
      \<and> (case r of Inr x \<Rightarrow> P (mw_fs w') \<and> R x (mw_fs w') | Inl e \<Rightarrow> E (mw_fs w'))"
    using assms(1) [unfolded reads_def, rule_format, of w] assms(2) by (cases r) auto
qed

subsection \<open>Undisturbed runs\<close>

text \<open>
  No system call fails. \<open>ok P m Q\<close>: from files with \<open>P\<close> the computation returns a value, with \<open>Q\<close> of it and the files;
  \<open>ends P m Q\<close> is the same with an error as a possible result.
\<close>

definition calm :: faults where
  "calm n = None"

definition ends :: "(fsys \<Rightarrow> bool) \<Rightarrow> 'a mig \<Rightarrow> (mig_error + 'a \<Rightarrow> fsys \<Rightarrow> bool) \<Rightarrow> bool" where
  "ends P m Q \<longleftrightarrow> (\<forall>w. P (mw_fs w) \<longrightarrow> Q (fst (m w)) (mw_fs (snd (m w))))"

definition ok :: "(fsys \<Rightarrow> bool) \<Rightarrow> 'a mig \<Rightarrow> ('a \<Rightarrow> fsys \<Rightarrow> bool) \<Rightarrow> bool" where
  "ok P m Q = ends P m (\<lambda>r fs. \<exists>x. r = Inr x \<and> Q x fs)"

lemma endsD: "ends P m Q \<Longrightarrow> P (mw_fs w) \<Longrightarrow> m w = (r, w') \<Longrightarrow> Q r (mw_fs w')"
  unfolding ends_def by (metis fst_conv snd_conv)

lemma okD: "ok P m Q \<Longrightarrow> P (mw_fs w) \<Longrightarrow> \<exists>x w'. m w = (Inr x, w') \<and> Q x (mw_fs w')"
  unfolding ok_def ends_def by (metis prod.collapse)

lemma ends_weaken:
  "ends P m Q \<Longrightarrow> (\<And>fs. P' fs \<Longrightarrow> P fs) \<Longrightarrow> (\<And>r fs. Q r fs \<Longrightarrow> Q' r fs) \<Longrightarrow> ends P' m Q'"
  unfolding ends_def by blast

lemma ok_weaken:
  "ok P m Q \<Longrightarrow> (\<And>fs. P' fs \<Longrightarrow> P fs) \<Longrightarrow> (\<And>x fs. Q x fs \<Longrightarrow> Q' x fs) \<Longrightarrow> ok P' m Q'"
  unfolding ok_def by (erule ends_weaken) blast+

lemma ends_fail: "(\<And>fs. P fs \<Longrightarrow> Q (Inl e) fs) \<Longrightarrow> ends P (mfail e) Q"
  by (simp add: ends_def mfail_def)

lemma ok_ret: "(\<And>fs. P fs \<Longrightarrow> Q x fs) \<Longrightarrow> ok P (mret x) Q"
  by (simp add: ok_def ends_def mret_def)

lemma ends_ok: "ok P m Q \<Longrightarrow> (\<And>x fs. Q x fs \<Longrightarrow> Q' (Inr x) fs) \<Longrightarrow> ends P m Q'"
  unfolding ok_def by (erule ends_weaken) blast+

lemma ends_bind:
  assumes "ok P m R" and "\<And>x. ends (R x) (f x) Q"
  shows "ends P (mbind m f) Q"
  unfolding ends_def
proof (intro allI impI)
  fix w :: mig_world assume "P (mw_fs w)"
  then obtain x w1 where "m w = (Inr x, w1)" "R x (mw_fs w1)" using okD [OF assms(1)] by blast
  then show "Q (fst (mbind m f w)) (mw_fs (snd (mbind m f w)))"
    using assms(2) by (simp add: mbind_def ends_def)
qed

lemma ok_bind: "ok P m R \<Longrightarrow> (\<And>x. ok (R x) (f x) Q) \<Longrightarrow> ok P (mbind m f) Q"
  unfolding ok_def by (rule ends_bind) (simp_all add: ok_def)

lemma ok_on_error: "ok P m Q \<Longrightarrow> ok P (on_error m c) Q"
  unfolding ok_def ends_def on_error_def by (fastforce split: prod.splits sum.splits)

lemma ok_guard: "(\<And>fs. P fs \<Longrightarrow> e = None) \<Longrightarrow> ok P (mguard e) (\<lambda>_. P)"
  by (auto simp: ok_def ends_def mguard_def mret_def mfail_def split: option.splits)

lemma ok_look: "(\<And>fs. P fs \<Longrightarrow> \<exists>x. g fs = Inr x \<and> Q x fs) \<Longrightarrow> ok P (look calm what g) Q"
  by (auto simp: ok_def ends_def look_def calm_def tick_def)

lemma ok_change: "(\<And>fs. P fs \<Longrightarrow> \<exists>fs'. g fs = Some fs' \<and> Q () fs') \<Longrightarrow> ok P (change calm what g) Q"
  by (fastforce simp: ok_def ends_def change_def calm_def tick_def put_def)

lemma ok_CreateTemp:
  "(\<And>fs. P fs \<Longrightarrow> Q (name fs) (fs(name fs \<mapsto> RegularFile []))) \<Longrightarrow> ok P (os_CreateTemp calm name) Q"
  by (simp add: ok_def ends_def os_CreateTemp_def calm_def tick_def put_def Let_def)

lemma ok_Write:
  "(\<And>fs. P fs \<Longrightarrow> Q () (fs(path \<mapsto> RegularFile content))) \<Longrightarrow> ok P (file_Write calm path content) Q"
  by (simp add: ok_def ends_def file_Write_def calm_def tick_def put_def)

text \<open>A computation that only looks and is known to return.\<close>

lemma ok_reads:
  assumes "ok P m (\<lambda>_ _. True)" and "reads m R"
  shows "ok P m (\<lambda>x fs. P fs \<and> R x fs)"
  unfolding ok_def ends_def
proof (intro allI impI)
  fix w :: mig_world assume p: "P (mw_fs w)"
  obtain x w1 where m: "m w = (Inr x, w1)" using okD [OF assms(1) p] by blast
  then show "\<exists>x. fst (m w) = Inr x \<and> P (mw_fs (snd (m w))) \<and> R x (mw_fs (snd (m w)))"
    using assms(2) [unfolded reads_def, rule_format, of w] p by simp
qed

end
