(* ===== verification/State_Migration.thy ===== *)
theory State_Migration
  imports State_Manifest Migration_Fs
begin

text \<open>
  The upgrade of a sync-state file from version 1 to version 2 and its recovery after an interruption,
  \<open>src/internal/syncer/state_migration.go\<close>. The file is linked to a backup, unlinked, and replaced by the upgraded one; a journal
  beside it says how far the migration came.

  \<open>mig_env\<close> holds the JSON codecs of the journal and of the state object (package \<open>encoding/json\<close>), SHA-256 and the rest of
  the manifest's environment, and the names \<open>os.CreateTemp\<close> picks for a directory and a prefix. The process-wide mutex makes the
  functions run one at a time, and the test hooks are not set. A write that returns no error has
  written everything.
\<close>

subsection \<open>Data\<close>

datatype StateMigrationPhase =
    PhasePrepared
  | PhaseBackupRenamed
  | PhaseCommitted
  | PhaseNeedsReconciliation
  | PhaseOther string

record StateMigrationJournal =
  mj_Version :: int
  mj_OperationID :: string
  mj_ManifestDigest :: string
  mj_SourcePath :: string
  mj_BackupPath :: string
  mj_TempPath :: string
  mj_JournalPath :: string
  mj_SourceHash :: string
  mj_SourceSize :: int
  mj_DesiredHash :: string
  mj_DesiredSize :: int
  mj_Phase :: StateMigrationPhase
  mj_CreatedAt :: gotime
  mj_UpdatedAt :: gotime

text \<open>What reading a state file as JSON gives: not JSON, \<open>null\<close>, a value with more behind it, or an object.\<close>

datatype json_state = NotJson | JsonNull | JsonTrailing | JsonObject "string \<rightharpoonup> string"

record mig_env =
  me_manifest :: "fsys \<Rightarrow> manifest_env"
  me_sha :: "string \<Rightarrow> string"
  me_encodeJournal :: "StateMigrationJournal \<Rightarrow> string"
  me_decodeJournal :: "string \<Rightarrow> StateMigrationJournal option"
  me_decodeState :: "string \<Rightarrow> json_state"
  me_decodeInt :: "string \<Rightarrow> int option"
  me_encodeString :: "string \<Rightarrow> string"
  me_encodeState :: "(string \<rightharpoonup> string) \<Rightarrow> string"
  me_temp :: "string \<Rightarrow> string \<Rightarrow> fsys \<Rightarrow> string"

definition StateMigrationJournalVersion :: int where
  "StateMigrationJournalVersion = 1"

definition migrationHash :: "mig_env \<Rightarrow> string \<Rightarrow> string" where
  "migrationHash en data = me_sha en data"

subsection \<open>Paths and identifiers\<close>

definition validateStateMigrationOperationID :: "string \<Rightarrow> mig_error option" where
  "validateStateMigrationOperationID operationID =
     (if operationID = [] \<or> operationID = ''.'' \<or> operationID = ''..'' \<or> 128 < length operationID
         \<or> TrimSpace operationID \<noteq> operationID
         \<or> \<not> list_all (\<lambda>c. is_lower c \<or> is_upper c \<or> is_digit c \<or> c \<in> set ''-_.'') operationID
      then Some (MigError ''invalid operation id'') else None)"

text \<open>The parts of a path between slashes and backslashes.\<close>

definition path_parts :: "string \<Rightarrow> string list" where
  "path_parts path = concat (map (Split (CHR 0x5C)) (Split (CHR ''/'') path))"

definition validateMigrationPath :: "string \<Rightarrow> mig_error option" where
  "validateMigrationPath path =
     (if path = [] \<or> CHR 0x00 \<in> set path \<or> \<not> rooted path \<or> filepath_Clean path \<noteq> path
      then Some (MigError ''invalid path'')
      else if list_ex (\<lambda>part. part = ''.'' \<or> part = ''..'') (path_parts path)
      then Some (MigError ''path traversal rejected'') else None)"

definition validateMigrationPaths :: "string \<Rightarrow> string \<Rightarrow> string \<Rightarrow> string \<Rightarrow> mig_error option" where
  "validateMigrationPaths sourcePath backupPath tempPath journalPath =
     first_err (check_all validateMigrationPath [sourcePath, backupPath, journalPath])
    (if backupPath \<noteq> sourcePath @ ''.v1'' then Some (MigError ''invalid backup path'')
     else first_err
       (if tempPath = [] then None
        else first_err (validateMigrationPath tempPath)
          (if filepath_Dir tempPath \<noteq> filepath_Dir sourcePath
           then Some (MigError ''temporary path escapes source directory'')
           else if tempPath = sourcePath \<or> tempPath = backupPath
           then Some (MigError ''temporary path aliases state path'') else None))
       (if journalPath = sourcePath \<or> journalPath = backupPath \<or> journalPath = tempPath
        then Some (MigError ''journal path aliases state path'') else None))"

definition validateMigrationRequestPaths :: "string \<Rightarrow> string \<Rightarrow> mig_error option" where
  "validateMigrationRequestPaths statePath journalPath =
     first_err (validateMigrationPath statePath)
    (first_err (validateMigrationPath journalPath)
      (validateMigrationPaths statePath (statePath @ ''.v1'') [] journalPath))"

definition validStateMigrationHash :: "string \<Rightarrow> bool" where
  "validStateMigrationHash val \<longleftrightarrow> length val = 64 \<and> list_all is_lower_hex val"

definition validStateMigrationDigest :: "string \<Rightarrow> bool" where
  "validStateMigrationDigest val \<longleftrightarrow>
     HasPrefix val ''sha256:'' \<and> validStateMigrationHash (TrimPrefix val ''sha256:'')"

definition validateMigrationJournal :: "StateMigrationJournal \<Rightarrow> string \<Rightarrow> mig_error option" where
  "validateMigrationJournal j expectedPath =
     (if mj_Version j \<noteq> StateMigrationJournalVersion \<or> mj_OperationID j = [] \<or> mj_ManifestDigest j = []
         \<or> validateStateMigrationOperationID (mj_OperationID j) \<noteq> None
         \<or> \<not> validStateMigrationDigest (mj_ManifestDigest j)
         \<or> \<not> validStateMigrationHash (mj_SourceHash j) \<or> \<not> validStateMigrationHash (mj_DesiredHash j)
         \<or> mj_SourceSize j < 0 \<or> mj_DesiredSize j < 0
         \<or> IsZero (mj_CreatedAt j) \<or> IsZero (mj_UpdatedAt j)
         \<or> (case mj_Phase j of PhaseOther _ \<Rightarrow> True | _ \<Rightarrow> False)
         \<or> validateMigrationPaths (mj_SourcePath j) (mj_BackupPath j) (mj_TempPath j) (mj_JournalPath j) \<noteq> None
         \<or> (expectedPath \<noteq> [] \<and> mj_JournalPath j \<noteq> expectedPath)
      then Some ErrStateMigrationInvalidJournal else None)"

subsection \<open>Looking at files\<close>

text \<open>The directories above the paths, each looked at once; a walk up ends at one already seen.\<close>

fun check_chain :: "faults \<Rightarrow> string list \<Rightarrow> string list \<Rightarrow> string list mig" where
  "check_chain flt seen [] = mret seen"
| "check_chain flt seen (current # chain) =
     (if current \<in> set seen then mret seen
      else mbind (look flt ''unsafe path ancestor'' (\<lambda>fs.
              if fs current = Some Directory then Inr () else Inl (MigError ''unsafe path ancestor'')))
        (\<lambda>_. check_chain flt (current # seen) chain))"

fun check_paths :: "faults \<Rightarrow> string list \<Rightarrow> string list \<Rightarrow> unit mig" where
  "check_paths flt seen [] = mret ()"
| "check_paths flt seen (path # paths) =
     mbind (check_chain flt seen (ancestors (filepath_Dir path))) (\<lambda>seen'. check_paths flt seen' paths)"

definition validateMigrationMutationAncestors :: "faults \<Rightarrow> string list \<Rightarrow> unit mig" where
  "validateMigrationMutationAncestors flt paths = check_paths flt [] paths"

definition migrationPathExists :: "faults \<Rightarrow> string \<Rightarrow> bool mig" where
  "migrationPathExists flt path = mbind (os_Lstat flt path) (\<lambda>n. case n of
      None \<Rightarrow> mret False
    | Some (RegularFile _) \<Rightarrow> mret True
    | Some _ \<Rightarrow> mfail (MigError ''path is not a regular file''))"

definition readRegularMigrationFile :: "faults \<Rightarrow> string \<Rightarrow> string mig" where
  "readRegularMigrationFile flt path = mbind (os_Lstat flt path) (\<lambda>n. case n of
      None \<Rightarrow> mfail (MigError ''read source'')
    | Some (RegularFile _) \<Rightarrow> os_ReadFile flt path
    | Some _ \<Rightarrow> mfail (MigError ''source is not a regular file''))"

text \<open>\<open>migrationFileInfo\<close>: the file's content when it exists; \<open>info_matches\<close> compares size and hash.\<close>

definition inspectMigrationFile :: "faults \<Rightarrow> string \<Rightarrow> string option mig" where
  "inspectMigrationFile flt path = mbind (os_Lstat flt path) (\<lambda>n. case n of
      None \<Rightarrow> mret None
    | Some (RegularFile _) \<Rightarrow> mbind (os_ReadFile flt path) (\<lambda>data. mret (Some data))
    | Some _ \<Rightarrow> mfail (MigError ''recovery path is not a regular file''))"

definition info_matches :: "mig_env \<Rightarrow> string option \<Rightarrow> string \<Rightarrow> int \<Rightarrow> bool" where
  "info_matches en info hash n \<longleftrightarrow> (case info of
      None \<Rightarrow> False
    | Some data \<Rightarrow> int (length data) = n \<and> migrationHash en data = hash)"

definition is_source :: "mig_env \<Rightarrow> StateMigrationJournal \<Rightarrow> string option \<Rightarrow> bool" where
  "is_source en j info = info_matches en info (mj_SourceHash j) (mj_SourceSize j)"

definition is_desired :: "mig_env \<Rightarrow> StateMigrationJournal \<Rightarrow> string option \<Rightarrow> bool" where
  "is_desired en j info = info_matches en info (mj_DesiredHash j) (mj_DesiredSize j)"

text \<open>The source, the backup and the temporary file, in this order.\<close>

definition inspect_all :: "faults \<Rightarrow> StateMigrationJournal \<Rightarrow> (string option \<times> string option \<times> string option) mig" where
  "inspect_all flt j =
     mbind (inspectMigrationFile flt (mj_SourcePath j)) (\<lambda>source.
     mbind (inspectMigrationFile flt (mj_BackupPath j)) (\<lambda>backup.
     mbind (inspectMigrationFile flt (mj_TempPath j)) (\<lambda>temp.
     mret (source, backup, temp))))"

definition state_paths :: "StateMigrationJournal \<Rightarrow> string list" where
  "state_paths j = [mj_SourcePath j, mj_BackupPath j, mj_TempPath j]"

definition inputs_match ::
    "faults \<Rightarrow> StateMigrationJournal \<Rightarrow> (string option \<Rightarrow> string option \<Rightarrow> string option \<Rightarrow> bool) \<Rightarrow> bool mig" where
  "inputs_match flt j test =
     mbind (validateMigrationMutationAncestors flt (state_paths j)) (\<lambda>_.
     mbind (inspect_all flt j) (\<lambda>(source, backup, temp). mret (test source backup temp)))"

definition migrationCommittedInputsMatch :: "mig_env \<Rightarrow> faults \<Rightarrow> StateMigrationJournal \<Rightarrow> bool mig" where
  "migrationCommittedInputsMatch en flt j = inputs_match flt j
     (\<lambda>source backup temp. is_desired en j source \<and> is_source en j backup \<and> is_desired en j temp)"

definition migrationRecoveryCommitInputsMatch :: "mig_env \<Rightarrow> faults \<Rightarrow> StateMigrationJournal \<Rightarrow> bool mig" where
  "migrationRecoveryCommitInputsMatch en flt j = inputs_match flt j
     (\<lambda>source backup temp. source = None \<and> is_source en j backup \<and> is_desired en j temp)"

definition migrationRollbackInputsMatch :: "mig_env \<Rightarrow> faults \<Rightarrow> StateMigrationJournal \<Rightarrow> bool mig" where
  "migrationRollbackInputsMatch en flt j = inputs_match flt j
     (\<lambda>source backup temp. is_source en j source \<and> backup = None \<and> is_desired en j temp)"

definition migrationCommittedStateMatches :: "mig_env \<Rightarrow> faults \<Rightarrow> StateMigrationJournal \<Rightarrow> bool mig" where
  "migrationCommittedStateMatches en flt j = inputs_match flt j
     (\<lambda>source backup temp. is_desired en j source \<and> is_source en j backup \<and> temp = None)"

definition committedMigrationMatchesJournal :: "mig_env \<Rightarrow> faults \<Rightarrow> StateMigrationJournal \<Rightarrow> bool mig" where
  "committedMigrationMatchesJournal en flt j =
     (if mj_Phase j \<noteq> PhaseCommitted then mret False
      else mbind (inspect_all flt j) (\<lambda>(source, backup, temp).
        mret (is_desired en j source \<and> is_source en j backup \<and> temp = None)))"

definition validateCommittedMigrationFiles :: "mig_env \<Rightarrow> faults \<Rightarrow> StateMigrationJournal \<Rightarrow> unit mig" where
  "validateCommittedMigrationFiles en flt j =
     mbind (validateMigrationMutationAncestors flt (state_paths j)) (\<lambda>_.
     mbind (inspectMigrationFile flt (mj_SourcePath j)) (\<lambda>source.
     mbind (mguard (if is_desired en j source then None else Some (MigError ''committed source changed''))) (\<lambda>_.
     mbind (inspectMigrationFile flt (mj_BackupPath j)) (\<lambda>backup.
     mbind (mguard (if is_source en j backup then None else Some (MigError ''preserved v1 changed''))) (\<lambda>_.
     mbind (inspectMigrationFile flt (mj_TempPath j)) (\<lambda>temp.
     mguard (if temp = None then None else Some (MigError ''committed temporary file remains''))))))))"

subsection \<open>Changing files\<close>

definition secureMigrationFile :: "faults \<Rightarrow> string \<Rightarrow> unit mig" where
  "secureMigrationFile flt path = os_Chmod flt path"

text \<open>A file under a temporary name, written, synced and closed; \<open>final\<close> puts it in its place.\<close>

definition write_temporary :: "faults \<Rightarrow> string \<Rightarrow> string \<Rightarrow> unit mig" where
  "write_temporary flt path content =
     mbind (fd_call flt ''chmod temporary file'') (\<lambda>_.
     mbind (file_Write flt path content) (\<lambda>_.
     mbind (fd_call flt ''sync temporary file'') (\<lambda>_.
     mbind (fd_call flt ''close temporary file'') (\<lambda>_.
     secureMigrationFile flt path))))"

definition via_temporary :: "faults \<Rightarrow> (fsys \<Rightarrow> string) \<Rightarrow> string \<Rightarrow> (string \<Rightarrow> unit mig) \<Rightarrow> unit mig" where
  "via_temporary flt name content final =
     mbind (os_CreateTemp flt name) (\<lambda>path.
       on_error (mbind (write_temporary flt path content) (\<lambda>_. final path)) (os_Remove flt path))"

definition persistMigrationJournal :: "mig_env \<Rightarrow> faults \<Rightarrow> StateMigrationJournal \<Rightarrow> unit mig" where
  "persistMigrationJournal en flt j =
     mbind (mguard (validateMigrationJournal j (mj_JournalPath j))) (\<lambda>_.
       via_temporary flt
         (me_temp en (filepath_Dir (mj_JournalPath j)) (''.'' @ filepath_Base (mj_JournalPath j) @ ''.tmp-''))
         (me_encodeJournal en j) (\<lambda>path. os_Rename flt path (mj_JournalPath j)))"

definition loadMigrationJournal :: "mig_env \<Rightarrow> faults \<Rightarrow> string \<Rightarrow> StateMigrationJournal mig" where
  "loadMigrationJournal en flt path = mbind (os_Lstat flt path) (\<lambda>n. case n of
      None \<Rightarrow> mfail (MigError ''read journal'')
    | Some (RegularFile _) \<Rightarrow> mbind (os_ReadFile flt path) (\<lambda>data. case me_decodeJournal en data of
          None \<Rightarrow> mfail ErrStateMigrationInvalidJournal
        | Some j \<Rightarrow> mret j)
    | Some _ \<Rightarrow> mfail ErrStateMigrationInvalidJournal)"

definition loadMigrationJournalIfPresent :: "mig_env \<Rightarrow> faults \<Rightarrow> string \<Rightarrow> StateMigrationJournal option mig" where
  "loadMigrationJournalIfPresent en flt path = mbind (os_Lstat flt path) (\<lambda>n. case n of
      None \<Rightarrow> mret None
    | Some _ \<Rightarrow> mbind (loadMigrationJournal en flt path) (\<lambda>j. mret (Some j)))"

definition removeMigrationFileIfExact :: "mig_env \<Rightarrow> faults \<Rightarrow> string \<Rightarrow> string \<Rightarrow> int \<Rightarrow> unit mig" where
  "removeMigrationFileIfExact en flt path expectedHash expectedSize =
     mbind (validateMigrationMutationAncestors flt [path]) (\<lambda>_.
     mbind (inspectMigrationFile flt path) (\<lambda>info.
     mbind (mguard (if info_matches en info expectedHash expectedSize then None
                    else Some (MigError ''temporary file changed during recovery''))) (\<lambda>_.
     os_Remove flt path)))"

definition linkMigrationExclusively :: "faults \<Rightarrow> string \<Rightarrow> string \<Rightarrow> unit mig" where
  "linkMigrationExclusively flt sourcePath destinationPath =
     mbind (validateMigrationMutationAncestors flt [sourcePath, destinationPath]) (\<lambda>_.
     os_Link flt sourcePath destinationPath)"

definition commitMigrationTempExclusively :: "faults \<Rightarrow> string \<Rightarrow> string \<Rightarrow> unit mig" where
  "commitMigrationTempExclusively flt tempPath sourcePath =
     mbind (linkMigrationExclusively flt tempPath sourcePath) (\<lambda>_. os_Remove flt tempPath)"

text \<open>The source must still be the file the journal describes.\<close>

definition expect_source :: "mig_env \<Rightarrow> faults \<Rightarrow> StateMigrationJournal \<Rightarrow> string \<Rightarrow> unit mig" where
  "expect_source en flt j message =
     mbind (inspectMigrationFile flt (mj_SourcePath j)) (\<lambda>info.
     mguard (if is_source en j info then None else Some (MigError message)))"

definition preserveMigrationSourceExclusively :: "mig_env \<Rightarrow> faults \<Rightarrow> StateMigrationJournal \<Rightarrow> unit mig" where
  "preserveMigrationSourceExclusively en flt j =
     mbind (validateMigrationMutationAncestors flt [mj_SourcePath j, mj_BackupPath j]) (\<lambda>_.
     mbind (expect_source en flt j ''source changed before preservation'') (\<lambda>_.
     mbind (migrationPathExists flt (mj_BackupPath j)) (\<lambda>exists.
     mbind (mguard (if exists then Some (MigError ''v1 backup already exists'') else None)) (\<lambda>_.
     mbind (linkMigrationExclusively flt (mj_SourcePath j) (mj_BackupPath j)) (\<lambda>_.
     mbind (expect_source en flt j ''source changed during preservation'') (\<lambda>_.
     mbind (validateMigrationMutationAncestors flt [mj_SourcePath j]) (\<lambda>_.
     mbind (expect_source en flt j ''source changed before removal'') (\<lambda>_.
     os_Remove flt (mj_SourcePath j)))))))))"

definition validateMigrationBackupAfterRename :: "mig_env \<Rightarrow> faults \<Rightarrow> StateMigrationJournal \<Rightarrow> unit mig" where
  "validateMigrationBackupAfterRename en flt j =
     mbind (validateMigrationMutationAncestors flt (state_paths j)) (\<lambda>_.
     mbind (inspectMigrationFile flt (mj_BackupPath j)) (\<lambda>backup.
     if is_source en j backup then mret ()
     else mbind (migrationPathExists flt (mj_SourcePath j)) (\<lambda>exists.
          mbind (if exists then mret () else linkMigrationExclusively flt (mj_BackupPath j) (mj_SourcePath j)) (\<lambda>_.
          mfail (MigError ''source or backup changed during migration'')))))"

definition restoreMigrationSourceFromBackup :: "mig_env \<Rightarrow> faults \<Rightarrow> StateMigrationJournal \<Rightarrow> unit mig" where
  "restoreMigrationSourceFromBackup en flt j =
     mbind (migrationPathExists flt (mj_SourcePath j)) (\<lambda>exists.
     mbind (mguard (if exists then Some (MigError ''source appeared during recovery'') else None)) (\<lambda>_.
     mbind (secureMigrationFile flt (mj_BackupPath j)) (\<lambda>_.
     mbind (readRegularMigrationFile flt (mj_BackupPath j)) (\<lambda>backup.
     mbind (mguard (if is_source en j (Some backup) then None
                    else Some (MigError ''preserved v1 hash or size mismatch''))) (\<lambda>_.
     via_temporary flt
       (me_temp en (filepath_Dir (mj_SourcePath j)) (''.'' @ filepath_Base (mj_SourcePath j) @ ''.restore-''))
       backup (\<lambda>path. commitMigrationTempExclusively flt path (mj_SourcePath j)))))))"

subsection \<open>Recovery\<close>

definition at_phase :: "StateMigrationPhase \<Rightarrow> gotime \<Rightarrow> StateMigrationJournal \<Rightarrow> StateMigrationJournal" where
  "at_phase ph now j = j\<lparr>mj_Phase := ph, mj_UpdatedAt := now\<rparr>"

definition markMigrationNeedsReconciliation :: "mig_env \<Rightarrow> faults \<Rightarrow> StateMigrationJournal \<Rightarrow> gotime \<Rightarrow> unit mig" where
  "markMigrationNeedsReconciliation en flt j now =
     mbind (persistMigrationJournal en flt (at_phase PhaseNeedsReconciliation now j)) (\<lambda>_.
     mfail ErrStateMigrationNeedsReconciliation)"

text \<open>
  A branch of the recovery: the files are looked at again, and if they are no longer what the branch
  was chosen for, the migration is left to a person.
\<close>

definition if_current :: "mig_env \<Rightarrow> faults \<Rightarrow> StateMigrationJournal \<Rightarrow> gotime \<Rightarrow> bool mig \<Rightarrow> unit mig \<Rightarrow> unit mig" where
  "if_current en flt j now check body =
     mbind check (\<lambda>current. if current then body else markMigrationNeedsReconciliation en flt j now)"

definition secure_both :: "faults \<Rightarrow> StateMigrationJournal \<Rightarrow> unit mig" where
  "secure_both flt j =
     mbind (secureMigrationFile flt (mj_SourcePath j)) (\<lambda>_. secureMigrationFile flt (mj_BackupPath j))"

definition record_committed :: "mig_env \<Rightarrow> faults \<Rightarrow> StateMigrationJournal \<Rightarrow> gotime \<Rightarrow> unit mig" where
  "record_committed en flt j now =
     mbind (validateCommittedMigrationFiles en flt j) (\<lambda>_.
     persistMigrationJournal en flt (at_phase PhaseCommitted now j))"

definition remove_temp :: "mig_env \<Rightarrow> faults \<Rightarrow> StateMigrationJournal \<Rightarrow> unit mig" where
  "remove_temp en flt j = removeMigrationFileIfExact en flt (mj_TempPath j) (mj_DesiredHash j) (mj_DesiredSize j)"

definition recover_prepared ::
    "mig_env \<Rightarrow> faults \<Rightarrow> StateMigrationJournal \<Rightarrow> gotime \<Rightarrow> string option \<times> string option \<times> string option \<Rightarrow> unit mig" where
  "recover_prepared en flt j now files = (case files of (source, backup, temp) \<Rightarrow>
     if is_desired en j source \<and> is_source en j backup \<and> temp = None
     then if_current en flt j now (migrationCommittedStateMatches en flt j)
            (mbind (secure_both flt j) (\<lambda>_. record_committed en flt j now))
     else if is_source en j source \<and> backup = None \<and> is_desired en j temp
     then if_current en flt j now (migrationRollbackInputsMatch en flt j)
            (mbind (secureMigrationFile flt (mj_SourcePath j)) (\<lambda>_.
             mbind (remove_temp en flt j) (\<lambda>_.
             markMigrationNeedsReconciliation en flt j now)))
     else if source = None \<and> is_source en j backup \<and> is_desired en j temp
     then if_current en flt j now (migrationRecoveryCommitInputsMatch en flt j)
            (mbind (restoreMigrationSourceFromBackup en flt j) (\<lambda>_.
             mbind (remove_temp en flt j) (\<lambda>_.
             markMigrationNeedsReconciliation en flt j now)))
     else markMigrationNeedsReconciliation en flt j now)"

definition recover_renamed ::
    "mig_env \<Rightarrow> faults \<Rightarrow> StateMigrationJournal \<Rightarrow> gotime \<Rightarrow> string option \<times> string option \<times> string option \<Rightarrow> unit mig" where
  "recover_renamed en flt j now files = (case files of (source, backup, temp) \<Rightarrow>
     if is_desired en j source \<and> is_source en j backup \<and> temp = None
     then if_current en flt j now (migrationCommittedStateMatches en flt j)
            (mbind (secure_both flt j) (\<lambda>_. record_committed en flt j now))
     else if is_desired en j source \<and> is_source en j backup \<and> is_desired en j temp
     then if_current en flt j now (migrationCommittedInputsMatch en flt j)
            (mbind (secure_both flt j) (\<lambda>_.
             mbind (remove_temp en flt j) (\<lambda>_.
             record_committed en flt j now)))
     else if source = None \<and> is_source en j backup \<and> is_desired en j temp
     then if_current en flt j now (migrationRecoveryCommitInputsMatch en flt j)
            (mbind (secureMigrationFile flt (mj_BackupPath j)) (\<lambda>_.
             mbind (commitMigrationTempExclusively flt (mj_TempPath j) (mj_SourcePath j)) (\<lambda>_.
             record_committed en flt j now)))
     else markMigrationNeedsReconciliation en flt j now)"

definition recover_committed ::
    "mig_env \<Rightarrow> faults \<Rightarrow> StateMigrationJournal \<Rightarrow> gotime \<Rightarrow> string option \<times> string option \<times> string option \<Rightarrow> unit mig" where
  "recover_committed en flt j now files = (case files of (source, backup, temp) \<Rightarrow>
     if is_desired en j source \<and> is_source en j backup \<and> temp = None
     then if_current en flt j now (migrationCommittedStateMatches en flt j)
            (mbind (secure_both flt j) (\<lambda>_. validateCommittedMigrationFiles en flt j))
     else markMigrationNeedsReconciliation en flt j now)"

definition recover_phase ::
    "mig_env \<Rightarrow> faults \<Rightarrow> StateMigrationJournal \<Rightarrow> gotime \<Rightarrow> string option \<times> string option \<times> string option \<Rightarrow> unit mig" where
  "recover_phase en flt j now files = (case mj_Phase j of
      PhasePrepared \<Rightarrow> recover_prepared en flt j now files
    | PhaseBackupRenamed \<Rightarrow> recover_renamed en flt j now files
    | PhaseCommitted \<Rightarrow> recover_committed en flt j now files
    | _ \<Rightarrow> markMigrationNeedsReconciliation en flt j now)"

definition RecoverStateMigration :: "mig_env \<Rightarrow> faults \<Rightarrow> string \<Rightarrow> gotime \<Rightarrow> unit mig" where
  "RecoverStateMigration en flt journalPath now =
     mbind (mguard (validateMigrationPath journalPath)) (\<lambda>_.
     mbind (loadMigrationJournal en flt journalPath) (\<lambda>j.
     mbind (mguard (validateMigrationJournal j journalPath)) (\<lambda>_.
     mbind (validateMigrationMutationAncestors flt (state_paths j @ [mj_JournalPath j])) (\<lambda>_.
     if mj_Phase j = PhaseNeedsReconciliation then mfail ErrStateMigrationNeedsReconciliation
     else mbind (inspect_all flt j) (\<lambda>files. recover_phase en flt j now files)))))"

subsection \<open>Migration\<close>

definition peek :: "(fsys \<Rightarrow> 'a) \<Rightarrow> 'a mig" where
  "peek g w = (Inr (g (mw_fs w)), w)"

definition caught :: "'a mig \<Rightarrow> (mig_error + 'a) mig" where
  "caught m w = (case m w of (r, w') \<Rightarrow> (Inr r, w'))"

definition lift_sum :: "string + 'a \<Rightarrow> 'a mig" where
  "lift_sum r = (case r of Inl e \<Rightarrow> mfail (MigError e) | Inr x \<Rightarrow> mret x)"

definition manifestSourceRoot :: "StateManifest option \<Rightarrow> string" where
  "manifestSourceRoot m = (case m of None \<Rightarrow> [] | Some m \<Rightarrow> mf_SourceRoot m)"

definition migrationManifestDigest :: "mig_env \<Rightarrow> manifest_env \<Rightarrow> StateManifest option \<Rightarrow> string + string" where
  "migrationManifestDigest en env m = (case m of
      None \<Rightarrow> Inl ''missing manifest''
    | Some m \<Rightarrow> map_sum id (\<lambda>canonical. ''sha256:'' @ me_sha en canonical) (manifest_CanonicalSigningBytes env m))"

definition stateManifestRowForPath :: "manifest_env \<Rightarrow> StateManifest \<Rightarrow> string \<Rightarrow> string + StateManifestFile" where
  "stateManifestRowForPath env m statePath = (case canonicalizeStateManifestRoot env (mf_SourceRoot m) of
      Inl e \<Rightarrow> Inl e
    | Inr root \<Rightarrow>
        if filepath_Clean statePath \<noteq> statePath then Inl ''invalid source path''
        else (case filepath_Rel root statePath of
            None \<Rightarrow> Inl ''source path escapes manifest root''
          | Some rel \<Rightarrow>
              if rel = ''.'' \<or> rel = ''..'' \<or> HasPrefix rel ''../'' then Inl ''source path escapes manifest root''
              else (case find (\<lambda>row. sf_Path row = rel) (mf_Files m) of
                  None \<Rightarrow> Inl ''source file is not in manifest''
                | Some row \<Rightarrow> Inr row)))"

definition decodeV1StateObject :: "mig_env \<Rightarrow> string \<Rightarrow> string + (string \<rightharpoonup> string)" where
  "decodeV1StateObject en data = (case me_decodeState en data of
      NotJson \<Rightarrow> Inl ''source is not valid v1 JSON object''
    | JsonNull \<Rightarrow> Inl ''source is not a v1 JSON object''
    | JsonTrailing \<Rightarrow> Inl ''source contains trailing data''
    | JsonObject obj \<Rightarrow>
        if obj ''schema_version'' \<noteq> None \<and> me_decodeInt en (the (obj ''schema_version'')) \<noteq> Some 1
        then Inl ''source is not v1'' else Inr obj)"

definition upgraded :: "mig_env \<Rightarrow> string \<Rightarrow> (string \<rightharpoonup> string) \<Rightarrow> string" where
  "upgraded en manifestDigest obj =
     me_encodeState en (obj(''schema_version'' \<mapsto> ''2'', ''manifest_digest'' \<mapsto> me_encodeString en manifestDigest))"

definition committedMigrationMatches :: "mig_env \<Rightarrow> faults \<Rightarrow> string \<Rightarrow> string \<Rightarrow> string \<Rightarrow> string \<Rightarrow> bool mig" where
  "committedMigrationMatches en flt path statePath operationID manifestDigest =
     mbind (loadMigrationJournalIfPresent en flt path) (\<lambda>found. case found of
         None \<Rightarrow> mret False
       | Some j \<Rightarrow> mbind (mguard (validateMigrationJournal j path)) (\<lambda>_.
           if mj_OperationID j \<noteq> operationID \<or> mj_ManifestDigest j \<noteq> manifestDigest
              \<or> mj_SourcePath j \<noteq> statePath \<or> mj_Phase j \<noteq> PhaseCommitted
           then mret False else committedMigrationMatchesJournal en flt j))"

text \<open>A journal is there already: only a migration that is complete and the same one counts as done.\<close>

definition existing_journal ::
    "mig_env \<Rightarrow> faults \<Rightarrow> StateMigrationJournal \<Rightarrow> string \<Rightarrow> string \<Rightarrow> string \<Rightarrow> string \<Rightarrow> unit mig" where
  "existing_journal en flt j journalPath statePath operationID manifestDigest =
     mbind (mguard (first_err (validateMigrationJournal j journalPath)
       (if mj_OperationID j \<noteq> operationID then Some (MigError ''journal operation mismatch'')
        else if mj_ManifestDigest j \<noteq> manifestDigest then Some (MigError ''journal manifest mismatch'')
        else if mj_SourcePath j \<noteq> statePath \<or> mj_BackupPath j \<noteq> statePath @ ''.v1''
        then Some (MigError ''journal path mismatch'') else None))) (\<lambda>_.
     mbind (if mj_Phase j = PhaseCommitted then committedMigrationMatchesJournal en flt j else mret False) (\<lambda>matched.
     if matched then mret () else mfail (MigError ''existing journal requires recovery'')))"

definition new_journal ::
    "mig_env \<Rightarrow> string \<Rightarrow> string \<Rightarrow> string \<Rightarrow> string \<Rightarrow> string \<Rightarrow> string \<Rightarrow> string \<Rightarrow> gotime \<Rightarrow> StateMigrationJournal" where
  "new_journal en operationID manifestDigest statePath tempPath journalPath raw desired now =
     \<lparr>mj_Version = StateMigrationJournalVersion, mj_OperationID = operationID, mj_ManifestDigest = manifestDigest,
      mj_SourcePath = statePath, mj_BackupPath = statePath @ ''.v1'', mj_TempPath = tempPath, mj_JournalPath = journalPath,
      mj_SourceHash = migrationHash en raw, mj_SourceSize = int (length raw),
      mj_DesiredHash = migrationHash en desired, mj_DesiredSize = int (length desired),
      mj_Phase = PhasePrepared, mj_CreatedAt = now, mj_UpdatedAt = now\<rparr>"

text \<open>The steps after the journal is on disk: the backup, then the commit.\<close>

definition replace_state :: "mig_env \<Rightarrow> faults \<Rightarrow> StateMigrationJournal \<Rightarrow> gotime \<Rightarrow> unit mig" where
  "replace_state en flt j now =
     mbind (preserveMigrationSourceExclusively en flt j) (\<lambda>_.
     mbind (secureMigrationFile flt (mj_BackupPath j)) (\<lambda>_.
     mbind (persistMigrationJournal en flt (at_phase PhaseBackupRenamed now j)) (\<lambda>_.
     mbind (validateMigrationBackupAfterRename en flt j) (\<lambda>_.
     mbind (commitMigrationTempExclusively flt (mj_TempPath j) (mj_SourcePath j)) (\<lambda>_.
     record_committed en flt j now)))))"

definition fresh_migration ::
    "mig_env \<Rightarrow> faults \<Rightarrow> string \<Rightarrow> string \<Rightarrow> string \<Rightarrow> string \<Rightarrow> string \<Rightarrow> string \<Rightarrow> gotime \<Rightarrow> unit mig" where
  "fresh_migration en flt statePath journalPath operationID manifestDigest raw desired now =
     mbind (migrationPathExists flt (statePath @ ''.v1'')) (\<lambda>exists.
     mbind (mguard (if exists then Some (MigError ''v1 backup already exists'') else None)) (\<lambda>_.
     mbind (os_CreateTemp flt (me_temp en (filepath_Dir statePath) (''.'' @ filepath_Base statePath @ ''.v2-''))) (\<lambda>tempPath.
     let j = new_journal en operationID manifestDigest statePath tempPath journalPath raw desired now
     in mbind (on_error (mbind (write_temporary flt tempPath desired) (\<lambda>_.
                mbind (persistMigrationJournal en flt j) (\<lambda>_. secureMigrationFile flt statePath)))
              (os_Remove flt tempPath)) (\<lambda>_.
        replace_state en flt j now))))"

definition migrate_verified ::
    "mig_env \<Rightarrow> faults \<Rightarrow> string \<Rightarrow> string \<Rightarrow> StateManifest \<Rightarrow> string \<Rightarrow> string \<Rightarrow> gotime \<Rightarrow> unit mig" where
  "migrate_verified en flt statePath journalPath m manifestDigest operationID now =
     mbind (mguard (first_err (validateMigrationRequestPaths statePath journalPath)
              (validateStateMigrationOperationID operationID))) (\<lambda>_.
     mbind (validateMigrationMutationAncestors flt [statePath, statePath @ ''.v1'', journalPath]) (\<lambda>_.
     mbind (readRegularMigrationFile flt statePath) (\<lambda>raw.
     mbind (peek (\<lambda>fs. stateManifestRowForPath (me_manifest en fs) m statePath)) (\<lambda>found.
     mbind (lift_sum found) (\<lambda>row.
     mbind (mguard (if int (length raw) \<noteq> sf_Size row \<or> migrationHash en raw \<noteq> sf_SHA256 row
              then Some (MigError ''source hash or size does not match manifest'') else None)) (\<lambda>_.
     mbind (lift_sum (decodeV1StateObject en raw)) (\<lambda>obj.
     mbind (mguard (validateMigrationPaths statePath (statePath @ ''.v1'') [] journalPath)) (\<lambda>_.
     mbind (loadMigrationJournalIfPresent en flt journalPath) (\<lambda>existing. case existing of
         Some j \<Rightarrow> existing_journal en flt j journalPath statePath operationID manifestDigest
       | None \<Rightarrow> fresh_migration en flt statePath journalPath operationID manifestDigest raw
                   (upgraded en manifestDigest obj) now)))))))))"

definition MigrateStateFileV1ToV2 ::
    "mig_env \<Rightarrow> faults \<Rightarrow> string \<Rightarrow> string \<Rightarrow> StateManifest option \<Rightarrow> string \<Rightarrow> string \<Rightarrow> string \<Rightarrow> string \<Rightarrow> gotime
      \<Rightarrow> unit mig" where
  "MigrateStateFileV1ToV2 en flt statePath journalPath manifest publicKey expectedRole expectedAudience operationID now =
     mbind (peek (\<lambda>fs. (VerifyStateManifest (me_manifest en fs) manifest (manifestSourceRoot manifest)
                expectedRole expectedAudience publicKey now,
              migrationManifestDigest en (me_manifest en fs) manifest))) (\<lambda>(manifestErr, digest).
     case (manifestErr, digest) of
         (Some e, Inr manifestDigest) \<Rightarrow>
           mbind (caught (committedMigrationMatches en flt journalPath statePath operationID manifestDigest)) (\<lambda>r.
           if r = Inr True then mret () else mfail (MigError e))
       | (Some e, Inl _) \<Rightarrow> mfail (MigError e)
       | (None, Inl e) \<Rightarrow> mfail (MigError e)
       | (None, Inr manifestDigest) \<Rightarrow>
           migrate_verified en flt statePath journalPath (the manifest) manifestDigest operationID now)"

end
