(* ===== verification/State_Migration_Theorems.thy ===== *)
theory State_Migration_Theorems
  imports State_Migration
begin

text \<open>
  What the migration of a state file guarantees when it is interrupted at any system call: the version 1 bytes are
  always in the file or in its backup, and a recovery that is not itself interrupted ends the
  migration, forwards or back.
\<close>

subsection \<open>Looking\<close>

definition content :: "fsys \<Rightarrow> string \<Rightarrow> string option" where
  "content fs p = (case fs p of Some (RegularFile c) \<Rightarrow> Some c | _ \<Rightarrow> None)"

definition plain :: "fsys \<Rightarrow> string \<Rightarrow> bool" where
  "plain fs p \<longleftrightarrow> fs p = map_option RegularFile (content fs p)"

lemma plain_cases: "plain fs p \<longleftrightarrow> (case fs p of None \<Rightarrow> True | Some (RegularFile c) \<Rightarrow> True | _ \<Rightarrow> False)"
  by (simp add: plain_def content_def split: option.splits node.splits)

lemma plain_None: "plain fs p \<Longrightarrow> (content fs p = None) = (fs p = None)"
  by (simp add: plain_cases content_def split: option.splits node.splits)

lemma content_simps [simp]:
  "fs p = None \<Longrightarrow> content fs p = None" "fs p = Some (RegularFile c) \<Longrightarrow> content fs p = Some c"
  by (simp_all add: content_def)

lemma reads_chain: "reads (check_chain flt seen ps) (\<lambda>_ _. True)"
proof (induction ps arbitrary: seen)
  case (Cons p ps)
  then show ?case by (auto intro!: reads_ret reads_bind reads_look reads_weaken [OF Cons])
qed (simp add: reads_ret)

lemma reads_ancestors: "reads (validateMigrationMutationAncestors flt paths) (\<lambda>_ _. True)"
proof -
  have "reads (check_paths flt seen paths) (\<lambda>_ _. True)" for seen
  proof (induction paths arbitrary: seen)
    case (Cons p ps)
    then show ?case by (auto intro!: reads_bind reads_chain reads_weaken [OF Cons])
  qed (simp add: reads_ret)
  then show ?thesis by (simp add: validateMigrationMutationAncestors_def)
qed

lemma reads_Lstat: "reads (os_Lstat flt p) (\<lambda>x fs. x = fs p)"
  by (auto simp: os_Lstat_def intro: reads_look)

lemma reads_exists: "reads (migrationPathExists flt p) (\<lambda>x fs. plain fs p \<and> x = (fs p \<noteq> None))"
  unfolding migrationPathExists_def
  by (rule reads_bind [OF reads_Lstat]) (auto simp: plain_cases intro!: reads_ret reads_fail split: option.splits node.splits)

lemma reads_ReadFile: "reads (os_ReadFile flt p) (\<lambda>x fs. fs p = Some (RegularFile x))"
  unfolding os_ReadFile_def by (rule reads_look) (auto split: option.splits node.splits)

lemma reads_inspect: "reads (inspectMigrationFile flt p) (\<lambda>x fs. plain fs p \<and> x = content fs p)"
  unfolding inspectMigrationFile_def
proof (rule reads_bind [OF reads_Lstat])
  fix n
  show "reads (case n of None \<Rightarrow> mret None
      | Some (RegularFile _) \<Rightarrow> mbind (os_ReadFile flt p) (\<lambda>data. mret (Some data))
      | Some _ \<Rightarrow> mfail (MigError ''recovery path is not a regular file''))
      (\<lambda>x fs. n = fs p \<longrightarrow> plain fs p \<and> x = content fs p)"
    by (auto simp: plain_cases intro!: reads_ret reads_fail reads_bind [OF reads_ReadFile] split: option.splits node.splits)
qed

lemma reads_readRegular: "reads (readRegularMigrationFile flt p) (\<lambda>x fs. fs p = Some (RegularFile x))"
  unfolding readRegularMigrationFile_def
  by (rule reads_bind [OF reads_Lstat])
    (auto intro!: reads_fail reads_weaken [OF reads_ReadFile] split: option.splits node.splits)

lemma reads_inspect_all:
  "reads (inspect_all flt j) (\<lambda>x fs. x = (content fs (mj_SourcePath j), content fs (mj_BackupPath j), content fs (mj_TempPath j))
     \<and> list_all (plain fs) (state_paths j))"
  unfolding inspect_all_def state_paths_def
  by (rule reads_bind [OF reads_inspect], rule reads_bind [OF reads_inspect], rule reads_bind [OF reads_inspect])
    (auto intro!: reads_ret)

lemma reads_inputs:
  "reads (inputs_match flt j test) (\<lambda>x fs. x = test (content fs (mj_SourcePath j)) (content fs (mj_BackupPath j)) (content fs (mj_TempPath j)))"
  unfolding inputs_match_def
  by (rule reads_bind [OF reads_ancestors], rule reads_bind [OF reads_inspect_all]) (auto intro!: reads_ret split: prod.splits)

lemma reads_secure: "reads (secureMigrationFile flt p) (\<lambda>_ _. True)"
  unfolding secureMigrationFile_def os_Chmod_def by (rule reads_look) simp

lemma reads_committed_files:
  "reads (validateCommittedMigrationFiles en flt j) (\<lambda>_ fs. is_desired en j (content fs (mj_SourcePath j))
     \<and> is_source en j (content fs (mj_BackupPath j)) \<and> fs (mj_TempPath j) = None)"
  unfolding validateCommittedMigrationFiles_def
  by (rule reads_bind [OF reads_ancestors], rule reads_bind [OF reads_inspect], rule reads_bind [OF reads_guard],
      rule reads_bind [OF reads_inspect], rule reads_bind [OF reads_guard], rule reads_bind [OF reads_inspect],
      rule reads_weaken [OF reads_guard]) (simp split: if_splits, metis plain_None)

lemma reads_load:
  "reads (loadMigrationJournal en flt p) (\<lambda>j fs. \<exists>c. fs p = Some (RegularFile c) \<and> me_decodeJournal en c = Some j)"
  unfolding loadMigrationJournal_def
  by (rule reads_bind [OF reads_Lstat])
    (auto intro!: reads_fail reads_ret reads_bind [OF reads_ReadFile] split: option.splits node.splits)

lemma reads_load_if_present:
  "reads (loadMigrationJournalIfPresent en flt p) (\<lambda>x fs. x = None \<longrightarrow> fs p = None)"
  unfolding loadMigrationJournalIfPresent_def
  by (rule reads_bind [OF reads_Lstat])
    (auto intro!: reads_ret reads_bind [OF reads_load] split: option.splits)

lemma reads_expect_source:
  "reads (expect_source en flt j msg) (\<lambda>_ fs. is_source en j (content fs (mj_SourcePath j)))"
  unfolding expect_source_def 
  by (rule reads_bind [OF reads_inspect], rule reads_weaken [OF reads_guard]) (auto split: if_splits)

subsection \<open>The states of a migration\<close>

definition v2_prefix :: "string \<Rightarrow> string" where
  "v2_prefix statePath = ''.'' @ filepath_Base statePath @ ''.v2-''"

definition tmp_prefix :: "string \<Rightarrow> string" where
  "tmp_prefix journalPath = ''.'' @ filepath_Base journalPath @ ''.tmp-''"

definition restore_prefix :: "string \<Rightarrow> string" where
  "restore_prefix statePath = ''.'' @ filepath_Base statePath @ ''.restore-''"

text \<open>The files of a migration, and the directories above them.\<close>

abbreviation four :: "StateMigrationJournal \<Rightarrow> string set" where
  "four j \<equiv> {mj_SourcePath j, mj_BackupPath j, mj_TempPath j, mj_JournalPath j}"

definition dirs :: "StateMigrationJournal \<Rightarrow> string list" where
  "dirs j = concat (map (\<lambda>p. ancestors (filepath_Dir p)) (state_paths j @ [mj_JournalPath j]))"

text \<open>
  A journal \<open>j\<close> of a migration of \<open>raw\<close> to \<open>desired\<close>: the paths are distinct, the hashes are those of the two contents and tell
  them apart, what \<open>CreateTemp\<close> picks for another purpose lies in its directory and is none of the four paths and none of the directories, and the codec loses nothing.
\<close>

definition describes :: "mig_env \<Rightarrow> StateMigrationJournal \<Rightarrow> string \<Rightarrow> string \<Rightarrow> bool" where
  "describes en j raw desired \<longleftrightarrow>
     distinct [mj_SourcePath j, mj_BackupPath j, mj_TempPath j, mj_JournalPath j]
     \<and> is_source en j (Some raw) \<and> is_desired en j (Some desired) \<and> \<not> is_desired en j (Some raw)
     \<and> (\<forall>fs. me_temp en (filepath_Dir (mj_JournalPath j)) (tmp_prefix (mj_JournalPath j)) fs \<notin> four j \<union> set (dirs j))
     \<and> (\<forall>fs. me_temp en (filepath_Dir (mj_SourcePath j)) (restore_prefix (mj_SourcePath j)) fs \<notin> four j \<union> set (dirs j)
          \<and> filepath_Dir (me_temp en (filepath_Dir (mj_SourcePath j)) (restore_prefix (mj_SourcePath j)) fs) = filepath_Dir (mj_SourcePath j))
     \<and> (\<forall>ph t. me_decodeJournal en (me_encodeJournal en (at_phase ph t j)) = Some (at_phase ph t j))"

text \<open>The journal on disk in a phase: it was checked before it was written.\<close>

abbreviation jnode :: "mig_env \<Rightarrow> StateMigrationPhase \<Rightarrow> gotime \<Rightarrow> StateMigrationJournal \<Rightarrow> node option" where
  "jnode en ph t j \<equiv> Some (RegularFile (me_encodeJournal en (at_phase ph t j)))"

definition valid_at :: "StateMigrationPhase \<Rightarrow> gotime \<Rightarrow> StateMigrationJournal \<Rightarrow> bool" where
  "valid_at ph t j \<longleftrightarrow> validateMigrationJournal (at_phase ph t j) (mj_JournalPath j) = None"

definition journal_at :: "mig_env \<Rightarrow> StateMigrationJournal \<Rightarrow> StateMigrationPhase list \<Rightarrow> fsys \<Rightarrow> bool" where
  "journal_at en j phs fs \<longleftrightarrow>
     (\<exists>ph t. ph \<in> set phs \<and> valid_at ph t j \<and> fs (mj_JournalPath j) = jnode en ph t j)"

abbreviation all_phases :: "StateMigrationPhase list" where
  "all_phases \<equiv> [PhasePrepared, PhaseBackupRenamed, PhaseCommitted, PhaseNeedsReconciliation]"

text \<open>
  The three situations: version 1 is in place; it is in the backup only, and the new content is ready; version 2 is in
  place and version 1 in the backup. Outside the first the journal says how to go on.
\<close>

definition v1_in_place :: "mig_env \<Rightarrow> StateMigrationJournal \<Rightarrow> string \<Rightarrow> fsys \<Rightarrow> bool" where
  "v1_in_place en j raw fs \<longleftrightarrow> fs (mj_SourcePath j) = Some (RegularFile raw)
     \<and> (fs (mj_JournalPath j) = None
        \<or> journal_at en j all_phases fs \<and> plain fs (mj_BackupPath j) \<and> plain fs (mj_TempPath j))"

definition between :: "mig_env \<Rightarrow> StateMigrationJournal \<Rightarrow> string \<Rightarrow> string \<Rightarrow> fsys \<Rightarrow> bool" where
  "between en j raw desired fs \<longleftrightarrow> fs (mj_SourcePath j) = None \<and> fs (mj_BackupPath j) = Some (RegularFile raw)
     \<and> fs (mj_TempPath j) = Some (RegularFile desired) \<and> journal_at en j [PhasePrepared, PhaseBackupRenamed] fs"

definition v2_in_place :: "mig_env \<Rightarrow> StateMigrationJournal \<Rightarrow> string \<Rightarrow> string \<Rightarrow> fsys \<Rightarrow> bool" where
  "v2_in_place en j raw desired fs \<longleftrightarrow> fs (mj_SourcePath j) = Some (RegularFile desired)
     \<and> fs (mj_BackupPath j) = Some (RegularFile raw)
     \<and> (journal_at en j [PhaseBackupRenamed] fs \<and> (fs (mj_TempPath j) = None \<or> fs (mj_TempPath j) = Some (RegularFile desired))
        \<or> journal_at en j [PhaseCommitted] fs \<and> fs (mj_TempPath j) = None)"

definition committed :: "mig_env \<Rightarrow> StateMigrationJournal \<Rightarrow> string \<Rightarrow> string \<Rightarrow> fsys \<Rightarrow> bool" where
  "committed en j raw desired fs \<longleftrightarrow> fs (mj_SourcePath j) = Some (RegularFile desired)
     \<and> fs (mj_BackupPath j) = Some (RegularFile raw) \<and> fs (mj_TempPath j) = None \<and> journal_at en j [PhaseCommitted] fs"

definition mig_inv :: "mig_env \<Rightarrow> StateMigrationJournal \<Rightarrow> string \<Rightarrow> string \<Rightarrow> fsys \<Rightarrow> bool" where
  "mig_inv en j raw desired fs \<longleftrightarrow>
     v1_in_place en j raw fs \<or> between en j raw desired fs \<or> v2_in_place en j raw desired fs"

lemmas mig_inv_defs = mig_inv_def v1_in_place_def between_def v2_in_place_def journal_at_def

text \<open>The four files; everything else may change.\<close>

definition sit :: "StateMigrationJournal \<Rightarrow> node option \<Rightarrow> node option \<Rightarrow> node option \<Rightarrow> node option \<Rightarrow> fsys \<Rightarrow> bool" where
  "sit j s b t js fs \<longleftrightarrow> fs (mj_SourcePath j) = s \<and> fs (mj_BackupPath j) = b \<and> fs (mj_TempPath j) = t \<and> fs (mj_JournalPath j) = js"

lemma sit_other:
  "p \<notin> four j \<Longrightarrow> sit j s b t js (fs(p := x)) = sit j s b t js fs"
  by (auto simp: sit_def)

lemma describesD:
  assumes "describes en j raw desired"
  shows "mj_SourcePath j \<noteq> mj_BackupPath j" "mj_SourcePath j \<noteq> mj_TempPath j" "mj_SourcePath j \<noteq> mj_JournalPath j"
    "mj_BackupPath j \<noteq> mj_TempPath j" "mj_BackupPath j \<noteq> mj_JournalPath j" "mj_TempPath j \<noteq> mj_JournalPath j"
    "is_source en j (Some raw)" "is_desired en j (Some desired)" "\<not> is_desired en j (Some raw)"
    "me_temp en (filepath_Dir (mj_JournalPath j)) (tmp_prefix (mj_JournalPath j)) fs \<notin> four j \<union> set (dirs j)"
    "me_temp en (filepath_Dir (mj_SourcePath j)) (restore_prefix (mj_SourcePath j)) fs \<notin> four j \<union> set (dirs j)"
    "me_decodeJournal en (me_encodeJournal en (at_phase ph t j)) = Some (at_phase ph t j)"
    "filepath_Dir (me_temp en (filepath_Dir (mj_SourcePath j)) (restore_prefix (mj_SourcePath j)) fs) = filepath_Dir (mj_SourcePath j)"
  using assms unfolding describes_def by auto

text \<open>\<open>sure j I s b t js\<close>: the situation is one the invariant allows.\<close>

definition sure :: "(fsys \<Rightarrow> bool) \<Rightarrow> StateMigrationJournal \<Rightarrow> node option \<Rightarrow> node option \<Rightarrow> node option \<Rightarrow> node option \<Rightarrow> bool" where
  "sure I j s b t js \<longleftrightarrow> (\<forall>fs. sit j s b t js fs \<longrightarrow> I fs)"

lemma sureD: "sure I j s b t js \<Longrightarrow> sit j s b t js fs \<Longrightarrow> I fs"
  by (simp add: sure_def)

subsection \<open>Safety of the parts\<close>

text \<open>Looking keeps the situation, and tells about it.\<close>

lemma keep_reads:
  assumes "reads m R" and "sure I j s b t js"
  shows "triple I (sit j s b t js) m (\<lambda>x fs. sit j s b t js fs \<and> R x fs) I"
  by (rule reads_triple [OF assms(1)]) (rule sureD [OF assms(2)])

lemma keep_via_temporary:
  assumes "sure I j s b t js" and "\<forall>fs. name fs \<notin> four j"
    and "\<And>p. p \<notin> four j \<Longrightarrow>
      triple I (\<lambda>fs. sit j s b t js fs \<and> fs p = Some (RegularFile c)) (final p) Q (\<lambda>fs. sit j s b t js fs \<or> Q () fs)"
    and "\<And>p fs. p \<notin> four j \<Longrightarrow> Q () fs \<Longrightarrow> I (fs(p := None)) \<and> I fs"
  shows "triple I (sit j s b t js) (via_temporary flt name c final) Q I"
proof -
  let ?P = "four j"
  have create: "triple I (sit j s b t js) (os_CreateTemp flt name) (\<lambda>p fs. sit j s b t js fs \<and> p \<notin> ?P) I"
  proof (rule triple_pre [OF triple_CreateTemp])
    fix fs assume st: "sit j s b t js fs"
    have n: "name fs \<notin> ?P" using assms(2) by blast
    then show "I fs \<and> I (fs(name fs \<mapsto> RegularFile [])) \<and> (sit j s b t js (fs(name fs \<mapsto> RegularFile [])) \<and> name fs \<notin> ?P)"
      using st sit_other [OF n] sureD [OF assms(1)] by auto
  qed
  have written: "triple I (\<lambda>fs. sit j s b t js fs \<and> p \<notin> ?P) (write_temporary flt p c)
      (\<lambda>_ fs. sit j s b t js fs \<and> fs p = Some (RegularFile c)) (\<lambda>fs. sit j s b t js fs \<or> Q () fs)" if p: "p \<notin> ?P" for p
  proof -
    note other = sit_other [OF p]
    let ?W = "\<lambda>fs. sit j s b t js fs \<and> fs p = Some (RegularFile c)"
    have calls: "triple I W (fd_call flt what) (\<lambda>_. W) (\<lambda>fs. sit j s b t js fs \<or> Q () fs)"
      if "\<And>fs. W fs \<Longrightarrow> sit j s b t js fs" for W what
      unfolding fd_call_def by (rule triple_pre [OF triple_look]) (simp add: that)
    have wr: "triple I (sit j s b t js) (file_Write flt p c) (\<lambda>_. ?W) (\<lambda>fs. sit j s b t js fs \<or> Q () fs)"
      by (rule triple_pre [OF triple_Write]) (auto simp: other intro: sureD [OF assms(1)])
    have sec: "triple I ?W (secureMigrationFile flt p) (\<lambda>_. ?W) (\<lambda>fs. sit j s b t js fs \<or> Q () fs)"
      unfolding secureMigrationFile_def os_Chmod_def by (rule triple_pre [OF triple_look]) simp
    show ?thesis unfolding write_temporary_def
      by (rule triple_pre, rule triple_bind [OF calls [of "sit j s b t js"]], assumption, rule triple_bind [OF wr],
          rule triple_bind [OF calls [of ?W]], simp, rule triple_bind [OF calls [of ?W]], simp, rule sec) simp
  qed
  have cleanup: "triple I (\<lambda>fs. sit j s b t js fs \<or> Q () fs) (os_Remove flt p) (\<lambda>_. I) I" if p: "p \<notin> ?P" for p
    unfolding os_Remove_def
    by (rule triple_pre [OF triple_change])
      (use assms(4) [OF p] sit_other [OF p] sureD [OF assms(1)] in \<open>auto split: if_splits\<close>)
  show ?thesis unfolding via_temporary_def
  proof (rule triple_bind [OF create])
    fix p
    show "triple I (\<lambda>fs. sit j s b t js fs \<and> p \<notin> ?P)
        (on_error (mbind (write_temporary flt p c) (\<lambda>_. final p)) (os_Remove flt p)) Q I"
    proof (cases "p \<in> ?P")
      case True
      then show ?thesis by (intro tripleI) simp
    next
      case False
      show ?thesis
        by (rule triple_on_error [OF triple_bind [OF written [OF False] assms(3) [OF False]] cleanup [OF False]])
    qed
  qed
qed

text \<open>A look at the files comes first: what follows may rely on what it saw.\<close>

lemma keep_look:
  assumes "reads m R" and "sure I j s b t js"
    and "\<And>x fs. sit j s b t js fs \<Longrightarrow> R x fs \<Longrightarrow> triple I (sit j s b t js) (f x) Q I"
  shows "triple I (sit j s b t js) (mbind m f) Q I"
proof (rule triple_bind [OF keep_reads [OF assms(1,2)]])
  fix x
  show "triple I (\<lambda>fs. sit j s b t js fs \<and> R x fs) (f x) Q I"
  proof (cases "\<exists>fs. sit j s b t js fs \<and> R x fs")
    case True
    then show ?thesis using assms(3) by (blast intro: triple_pre)
  next
    case False
    then show ?thesis by (intro tripleI) blast
  qed
qed

lemma keep_guard:
  "sure I j s b t js \<Longrightarrow> (e = None \<Longrightarrow> triple I (sit j s b t js) m Q I) \<Longrightarrow> triple I (sit j s b t js) (mbind (mguard e) (\<lambda>_. m)) Q I"
  by (rule keep_look [OF reads_guard])

lemma keep_change:
  assumes "sure I j s b t js" and "sure I j s' b' t' js'"
    and "\<And>fs fs'. sit j s b t js fs \<Longrightarrow> g fs = Some fs' \<Longrightarrow> sit j s' b' t' js' fs'"
  shows "triple I (sit j s b t js) (change flt what g) (\<lambda>_. sit j s' b' t' js') I"
  by (rule triple_pre [OF triple_change]) (use assms(3) sureD [OF assms(1)] sureD [OF assms(2)] in blast)

lemma at_phase_sel [simp]:
  "mj_SourcePath (at_phase ph t j) = mj_SourcePath j" "mj_BackupPath (at_phase ph t j) = mj_BackupPath j"
  "mj_TempPath (at_phase ph t j) = mj_TempPath j" "mj_JournalPath (at_phase ph t j) = mj_JournalPath j"
  "mj_Phase (at_phase ph t j) = ph" "at_phase ph' t' (at_phase ph t j) = at_phase ph' t' j"
  by (simp_all add: at_phase_def)

lemma at_phase_id: "at_phase (mj_Phase j) (mj_UpdatedAt j) j = j"
  by (simp add: at_phase_def)

lemma keep_persist:
  assumes "describes en j raw desired" and "sure I j s b t js"
    and "valid_at ph now j \<Longrightarrow> sure I j s b t (jnode en ph now j)"
  shows "triple I (sit j s b t js) (persistMigrationJournal en flt (at_phase ph now j))
    (\<lambda>_ fs. valid_at ph now j \<and> sit j s b t (jnode en ph now j) fs) I"
  unfolding persistMigrationJournal_def at_phase_sel
proof (rule keep_guard [OF assms(2)])
  assume "validateMigrationJournal (at_phase ph now j) (mj_JournalPath j) = None"
  then have v: "valid_at ph now j" by (simp add: valid_at_def)
  then have after: "sure I j s b t (jnode en ph now j)" by (rule assms(3))
  note d = describesD [OF assms(1)]
  let ?J = "mj_JournalPath j"
  have "triple I (sit j s b t js)
      (via_temporary flt (me_temp en (filepath_Dir ?J) (''.'' @ filepath_Base ?J @ ''.tmp-''))
         (me_encodeJournal en (at_phase ph now j)) (\<lambda>path. os_Rename flt path ?J)) (\<lambda>_. sit j s b t (jnode en ph now j)) I"
  proof (rule keep_via_temporary [OF assms(2)])
    show "\<forall>fs. me_temp en (filepath_Dir ?J) (''.'' @ filepath_Base ?J @ ''.tmp-'') fs \<notin> four j"
      using d(10) by (auto simp: tmp_prefix_def)
    show "I (fs(p := None)) \<and> I fs" if "p \<notin> four j" "sit j s b t (jnode en ph now j) fs" for p fs
      using sureD [OF after] that(2) sit_other [OF that(1)] by simp
    show "triple I (\<lambda>fs. sit j s b t js fs \<and> fs p = jnode en ph now j) (os_Rename flt p ?J) (\<lambda>_. sit j s b t (jnode en ph now j))
        (\<lambda>fs. sit j s b t js fs \<or> sit j s b t (jnode en ph now j) fs)" if p: "p \<notin> four j" for p
      unfolding os_Rename_def
      by (rule triple_pre [OF triple_change]) (use p d(1-6) sureD [OF after] in \<open>auto simp: sit_def split: if_splits\<close>)
  qed
  then show "triple I (sit j s b t js)
      (via_temporary flt (me_temp en (filepath_Dir ?J) (''.'' @ filepath_Base ?J @ ''.tmp-''))
         (me_encodeJournal en (at_phase ph now j)) (\<lambda>path. os_Rename flt path ?J))
      (\<lambda>_ fs. valid_at ph now j \<and> sit j s b t (jnode en ph now j) fs) I"
    by (rule triple_weaken) (simp_all add: v)
qed

lemma keep_persist_then:
  assumes "describes en j raw desired" and "sure I j s b t js"
    and "valid_at ph now j \<Longrightarrow> sure I j s b t (jnode en ph now j)"
    and "valid_at ph now j \<Longrightarrow> triple I (sit j s b t (jnode en ph now j)) m Q I"
  shows "triple I (sit j s b t js) (mbind (persistMigrationJournal en flt (at_phase ph now j)) (\<lambda>_. m)) Q I"
proof (rule triple_bind [OF keep_persist [OF assms(1-3)]])
  show "triple I (\<lambda>fs. valid_at ph now j \<and> sit j s b t (jnode en ph now j) fs) m Q I"
    using assms(4) by (cases "valid_at ph now j") (auto simp: triple_def)
qed assumption

lemma keep_mark:
  assumes "describes en j raw desired" and "sure I j s b t js"
    and "valid_at PhaseNeedsReconciliation now j \<Longrightarrow> sure I j s b t (jnode en PhaseNeedsReconciliation now j)"
  shows "triple I (sit j s b t js) (markMigrationNeedsReconciliation en flt j now) Q I"
  unfolding markMigrationNeedsReconciliation_def
  by (rule keep_persist_then [OF assms], assumption, rule triple_pre [OF triple_fail]) (rule sureD [OF assms(3)])

subsection \<open>Safety of the migration and of the recovery\<close>

lemma sure_mono: "sure I j s b t js \<Longrightarrow> (\<And>fs. I fs \<Longrightarrow> I' fs) \<Longrightarrow> sure I' j s b t js"
  unfolding sure_def by blast

lemma v1_inv: "v1_in_place en j raw fs \<Longrightarrow> mig_inv en j raw desired fs"
  by (simp add: mig_inv_def)

lemma sure_fresh: "sure (v1_in_place en j raw) j (Some (RegularFile raw)) b t None"
  by (auto simp: sure_def sit_def v1_in_place_def)

lemma sure_in_place:
  "valid_at ph now j \<Longrightarrow> ph \<in> set all_phases \<Longrightarrow>
     sure (v1_in_place en j raw) j (Some (RegularFile raw)) (map_option RegularFile b) (map_option RegularFile t) (jnode en ph now j)"
  by (auto simp: sure_def sit_def v1_in_place_def journal_at_def plain_cases split: option.splits)

lemma sure_v1:
  "valid_at ph now j \<Longrightarrow> ph \<in> set all_phases \<Longrightarrow>
     sure (mig_inv en j raw desired) j (Some (RegularFile raw)) (map_option RegularFile b) (map_option RegularFile t) (jnode en ph now j)"
  by (erule (1) sure_mono [OF sure_in_place v1_inv])

lemma sure_between:
  "valid_at ph now j \<Longrightarrow> ph \<in> {PhasePrepared, PhaseBackupRenamed} \<Longrightarrow>
     sure (mig_inv en j raw desired) j None (Some (RegularFile raw)) (Some (RegularFile desired)) (jnode en ph now j)"
  by (auto simp: sure_def sit_def mig_inv_defs)

lemma sure_v2:
  "valid_at PhaseBackupRenamed now j \<Longrightarrow>
     sure (mig_inv en j raw desired) j (Some (RegularFile desired)) (Some (RegularFile raw)) (Some (RegularFile desired)) (jnode en PhaseBackupRenamed now j)"
  "valid_at ph now j \<Longrightarrow> ph \<in> {PhaseBackupRenamed, PhaseCommitted} \<Longrightarrow>
     sure (mig_inv en j raw desired) j (Some (RegularFile desired)) (Some (RegularFile raw)) None (jnode en ph now j)"
  by (auto simp: sure_def sit_def mig_inv_defs)

lemma preserve_safe:
  assumes "describes en j raw desired" and "valid_at PhasePrepared t j"
  shows "triple (mig_inv en j raw desired)
     (sit j (Some (RegularFile raw)) None (Some (RegularFile desired)) (jnode en PhasePrepared t j))
     (preserveMigrationSourceExclusively en flt j)
     (\<lambda>_. sit j None (Some (RegularFile raw)) (Some (RegularFile desired)) (jnode en PhasePrepared t j)) (mig_inv en j raw desired)"
proof -
  let ?I = "mig_inv en j raw desired"
  note d = describesD [OF assms(1)]
  have before: "sure ?I j (Some (RegularFile raw)) None (Some (RegularFile desired)) (jnode en PhasePrepared t j)"
    using sure_v1 [OF assms(2), of _ _ _ None "Some desired"] by simp
  have both: "sure ?I j (Some (RegularFile raw)) (Some (RegularFile raw)) (Some (RegularFile desired)) (jnode en PhasePrepared t j)"
    using sure_v1 [OF assms(2), of _ _ _ "Some raw" "Some desired"] by simp
  have after: "sure ?I j None (Some (RegularFile raw)) (Some (RegularFile desired)) (jnode en PhasePrepared t j)"
    using sure_between [OF assms(2)] by simp
  have link: "triple ?I (sit j (Some (RegularFile raw)) None (Some (RegularFile desired)) (jnode en PhasePrepared t j))
      (linkMigrationExclusively flt (mj_SourcePath j) (mj_BackupPath j))
      (\<lambda>_. sit j (Some (RegularFile raw)) (Some (RegularFile raw)) (Some (RegularFile desired)) (jnode en PhasePrepared t j)) ?I"
    unfolding linkMigrationExclusively_def os_Link_def
    by (rule keep_look [OF reads_ancestors before], rule keep_change [OF before both])
      (use d(1-6) in \<open>auto simp: sit_def split: if_splits\<close>)
  have remove: "triple ?I (sit j (Some (RegularFile raw)) (Some (RegularFile raw)) (Some (RegularFile desired)) (jnode en PhasePrepared t j))
      (os_Remove flt (mj_SourcePath j))
      (\<lambda>_. sit j None (Some (RegularFile raw)) (Some (RegularFile desired)) (jnode en PhasePrepared t j)) ?I"
    unfolding os_Remove_def
    by (rule keep_change [OF both after]) (use d(1-6) in \<open>auto simp: sit_def split: if_splits\<close>)
  show ?thesis unfolding preserveMigrationSourceExclusively_def
    by (rule keep_look [OF reads_ancestors before], rule keep_look [OF reads_expect_source before],
        rule keep_look [OF reads_exists before], rule keep_guard [OF before], rule triple_bind [OF link],
        rule keep_look [OF reads_expect_source both], rule keep_look [OF reads_ancestors both],
        rule keep_look [OF reads_expect_source both], rule remove)
qed

lemma remove_temp_safe:
  assumes "describes en j raw desired" and "sure I j s b t js" and "sure I j s b None js"
  shows "triple I (sit j s b t js) (remove_temp en flt j) (\<lambda>_. sit j s b None js) I"
  unfolding remove_temp_def removeMigrationFileIfExact_def os_Remove_def
  by (rule keep_look [OF reads_ancestors assms(2)], rule keep_look [OF reads_inspect assms(2)], rule keep_guard [OF assms(2)],
      rule keep_change [OF assms(2,3)]) (use describesD(1-6) [OF assms(1)] in \<open>auto simp: sit_def split: if_splits\<close>)

lemma commit_safe:
  assumes "describes en j raw desired" and "valid_at PhaseBackupRenamed t j"
  shows "triple (mig_inv en j raw desired)
     (sit j None (Some (RegularFile raw)) (Some (RegularFile desired)) (jnode en PhaseBackupRenamed t j))
     (commitMigrationTempExclusively flt (mj_TempPath j) (mj_SourcePath j))
     (\<lambda>_. sit j (Some (RegularFile desired)) (Some (RegularFile raw)) None (jnode en PhaseBackupRenamed t j)) (mig_inv en j raw desired)"
proof -
  note d = describesD [OF assms(1)]
  have before: "sure (mig_inv en j raw desired) j None (Some (RegularFile raw)) (Some (RegularFile desired)) (jnode en PhaseBackupRenamed t j)"
    using sure_between [OF assms(2)] by simp
  note both = sure_v2(1) [OF assms(2), of en raw desired]
  have after: "sure (mig_inv en j raw desired) j (Some (RegularFile desired)) (Some (RegularFile raw)) None (jnode en PhaseBackupRenamed t j)"
    using sure_v2(2) [OF assms(2)] by simp
  have link: "triple (mig_inv en j raw desired) (sit j None (Some (RegularFile raw)) (Some (RegularFile desired)) (jnode en PhaseBackupRenamed t j))
      (linkMigrationExclusively flt (mj_TempPath j) (mj_SourcePath j))
      (\<lambda>_. sit j (Some (RegularFile desired)) (Some (RegularFile raw)) (Some (RegularFile desired)) (jnode en PhaseBackupRenamed t j)) (mig_inv en j raw desired)"
    unfolding linkMigrationExclusively_def os_Link_def
    by (rule keep_look [OF reads_ancestors before], rule keep_change [OF before both])
      (use d(1-6) in \<open>auto simp: sit_def split: if_splits\<close>)
  show ?thesis unfolding commitMigrationTempExclusively_def os_Remove_def
    by (rule triple_bind [OF link], rule keep_change [OF both after]) (use d(1-6) in \<open>auto simp: sit_def split: if_splits\<close>)
qed

lemma record_safe:
  assumes "describes en j raw desired" and "valid_at PhaseBackupRenamed t j"
  shows "triple (mig_inv en j raw desired)
     (sit j (Some (RegularFile desired)) (Some (RegularFile raw)) None (jnode en PhaseBackupRenamed t j))
     (record_committed en flt j now)
     (\<lambda>_. committed en j raw desired) (mig_inv en j raw desired)"
proof -
  have before: "sure (mig_inv en j raw desired) j (Some (RegularFile desired)) (Some (RegularFile raw)) None (jnode en PhaseBackupRenamed t j)"
    using sure_v2(2) [OF assms(2)] by simp
  have after: "sure (mig_inv en j raw desired) j (Some (RegularFile desired)) (Some (RegularFile raw)) None (jnode en PhaseCommitted now j)"
    if "valid_at PhaseCommitted now j"
    using sure_v2(2) [OF that] by simp
  show ?thesis unfolding record_committed_def
    by (rule keep_look [OF reads_committed_files before], rule triple_weaken [OF keep_persist [OF assms(1) before after]])
      (auto simp: sit_def committed_def journal_at_def)
qed

lemma backup_safe:
  assumes "describes en j raw desired" and "sure I j s (Some (RegularFile raw)) t js"
  shows "triple I (sit j s (Some (RegularFile raw)) t js) (validateMigrationBackupAfterRename en flt j)
     (\<lambda>_. sit j s (Some (RegularFile raw)) t js) I"
  unfolding validateMigrationBackupAfterRename_def
  by (rule keep_look [OF reads_ancestors assms(2)], rule keep_look [OF reads_inspect assms(2)])
    (use describesD(7) [OF assms(1)] in \<open>auto simp: sit_def intro!: triple_ret\<close>)

lemma replace_safe:
  assumes "describes en j raw desired" and "valid_at PhasePrepared t j"
  shows "triple (mig_inv en j raw desired)
     (sit j (Some (RegularFile raw)) None (Some (RegularFile desired)) (jnode en PhasePrepared t j))
     (replace_state en flt j now) (\<lambda>_. committed en j raw desired) (mig_inv en j raw desired)"
proof -
  have b: "sure (mig_inv en j raw desired) j None (Some (RegularFile raw)) (Some (RegularFile desired)) (jnode en ph t j)"
    if "valid_at ph t j" "ph \<in> {PhasePrepared, PhaseBackupRenamed}" for ph t
    using sure_between [OF that] .
  show ?thesis unfolding replace_state_def
    apply (rule triple_bind [OF preserve_safe [OF assms]])
    apply (rule keep_look [OF reads_secure b [OF assms(2)]], simp)
    apply (rule keep_persist_then [OF assms(1) b [OF assms(2)]], simp)
     apply (rule b, assumption, simp)
    apply (rule triple_bind [OF backup_safe [OF assms(1) b]], assumption, simp)
    apply (rule triple_bind [OF commit_safe [OF assms(1)]], assumption)
    apply (rule record_safe [OF assms(1)], assumption)
    done
qed

text \<open>The new content is written before anything else, under a name of its own.\<close>

lemma own_temporary:
  assumes "describes en j raw desired"
  shows "triple (v1_in_place en j raw) (sit j (Some (RegularFile raw)) b (Some (RegularFile c)) None)
     (write_temporary flt (mj_TempPath j) desired)
     (\<lambda>_. sit j (Some (RegularFile raw)) b (Some (RegularFile desired)) None) (v1_in_place en j raw)"
proof -
  note d = describesD(1-6) [OF assms]
  have wr: "triple (v1_in_place en j raw) (sit j (Some (RegularFile raw)) b (Some (RegularFile c)) None)
     (file_Write flt (mj_TempPath j) desired)
     (\<lambda>_. sit j (Some (RegularFile raw)) b (Some (RegularFile desired)) None) (v1_in_place en j raw)"
    by (rule triple_pre [OF triple_Write]) (use d in \<open>auto simp: sit_def v1_in_place_def\<close>)
  have call: "reads (fd_call flt what) (\<lambda>_ _. True)" for what
    unfolding fd_call_def by (rule reads_look) simp
  show ?thesis unfolding write_temporary_def
    by (rule keep_look [OF call sure_fresh], rule triple_bind [OF wr], rule keep_look [OF call sure_fresh],
        rule keep_look [OF call sure_fresh], rule triple_weaken [OF keep_reads [OF reads_secure sure_fresh]]) simp_all
qed

lemma remove_own_temporary:
  assumes "describes en j raw desired"
  shows "triple (v1_in_place en j raw) (v1_in_place en j raw) (os_Remove flt (mj_TempPath j)) (\<lambda>_. v1_in_place en j raw) (v1_in_place en j raw)"
  unfolding os_Remove_def
  by (rule triple_pre [OF triple_change])
    (use describesD(1-6) [OF assms] in \<open>auto simp: v1_in_place_def journal_at_def plain_cases split: if_splits\<close>)

lemma prepare_safe:
  assumes "describes en j raw desired" and "j = at_phase PhasePrepared now j"
  shows "triple (v1_in_place en j raw) (sit j (Some (RegularFile raw)) None (Some (RegularFile c)) None)
     (on_error (mbind (write_temporary flt (mj_TempPath j) desired) (\<lambda>_.
          mbind (persistMigrationJournal en flt j) (\<lambda>_. secureMigrationFile flt (mj_SourcePath j))))
        (os_Remove flt (mj_TempPath j)))
     (\<lambda>_ fs. valid_at PhasePrepared now j
        \<and> sit j (Some (RegularFile raw)) None (Some (RegularFile desired)) (jnode en PhasePrepared now j) fs) (v1_in_place en j raw)"
proof (rule triple_on_error [OF triple_bind [OF own_temporary [OF assms(1)]] remove_own_temporary [OF assms(1)]])
  have after: "sure (v1_in_place en j raw) j (Some (RegularFile raw)) None (Some (RegularFile desired)) (jnode en PhasePrepared now j)"
    if "valid_at PhasePrepared now j" using sure_in_place [OF that, of _ _ None "Some desired"] by simp
  have "triple (v1_in_place en j raw) (sit j (Some (RegularFile raw)) None (Some (RegularFile desired)) None)
     (mbind (persistMigrationJournal en flt (at_phase PhasePrepared now j)) (\<lambda>_. secureMigrationFile flt (mj_SourcePath j)))
     (\<lambda>_ fs. valid_at PhasePrepared now j
        \<and> sit j (Some (RegularFile raw)) None (Some (RegularFile desired)) (jnode en PhasePrepared now j) fs) (v1_in_place en j raw)"
    by (rule keep_persist_then [OF assms(1) sure_fresh after], assumption,
        rule triple_weaken [OF keep_reads [OF reads_secure after]]) simp_all
  then show "triple (v1_in_place en j raw) (sit j (Some (RegularFile raw)) None (Some (RegularFile desired)) None)
     (mbind (persistMigrationJournal en flt j) (\<lambda>_. secureMigrationFile flt (mj_SourcePath j)))
     (\<lambda>_ fs. valid_at PhasePrepared now j
        \<and> sit j (Some (RegularFile raw)) None (Some (RegularFile desired)) (jnode en PhasePrepared now j) fs) (v1_in_place en j raw)"
    by (simp only: assms(2) [symmetric])
qed

lemma fresh_safe:
  assumes "j = new_journal en op dig statePath tempPath journalPath raw desired now" and "describes en j raw desired"
  shows "triple (mig_inv en j raw desired)
     (\<lambda>fs. sit j (Some (RegularFile raw)) b t None fs \<and> me_temp en (filepath_Dir statePath) (v2_prefix statePath) fs = tempPath)
     (fresh_migration en flt statePath journalPath op dig raw desired now)
     (\<lambda>_. committed en j raw desired) (mig_inv en j raw desired)"
proof -
  let ?I = "mig_inv en j raw desired"
  let ?P = "\<lambda>fs. sit j (Some (RegularFile raw)) b t None fs \<and> me_temp en (filepath_Dir statePath) (v2_prefix statePath) fs = tempPath"
  have paths: "mj_SourcePath j = statePath" "mj_BackupPath j = statePath @ ''.v1''" "mj_TempPath j = tempPath"
    "at_phase PhasePrepared now j = j"
    by (simp_all add: assms(1) new_journal_def at_phase_def)
  have I: "?I fs" if "sit j (Some (RegularFile raw)) b t None fs" for b t fs
    using v1_inv [OF sureD [OF sure_fresh that]] .
  note d = describesD(1-6) [OF assms(2)]
  have guard: "triple ?I (\<lambda>fs. ?P fs \<and> plain fs (statePath @ ''.v1'') \<and> x = (fs (statePath @ ''.v1'') \<noteq> None))
      (mguard (if x then Some (MigError ''v1 backup already exists'') else None))
      (\<lambda>_ fs. sit j (Some (RegularFile raw)) None t None fs \<and> me_temp en (filepath_Dir statePath) (v2_prefix statePath) fs = tempPath) ?I" for x
    by (rule triple_pre [OF triple_guard]) (auto simp: I sit_def paths(2))
  have create: "triple ?I (\<lambda>fs. sit j (Some (RegularFile raw)) None t None fs \<and> me_temp en (filepath_Dir statePath) (v2_prefix statePath) fs = tempPath)
      (os_CreateTemp flt (me_temp en (filepath_Dir statePath) (''.'' @ filepath_Base statePath @ ''.v2-'')))
      (\<lambda>p fs. p = tempPath \<and> sit j (Some (RegularFile raw)) None (Some (RegularFile [])) None fs) ?I"
  proof (rule triple_pre [OF triple_CreateTemp], fold v2_prefix_def)
    fix fs let ?name = "me_temp en (filepath_Dir statePath) (v2_prefix statePath)"
    assume fs: "sit j (Some (RegularFile raw)) None t None fs \<and> ?name fs = tempPath"
    then have "sit j (Some (RegularFile raw)) None (Some (RegularFile [])) None (fs(?name fs \<mapsto> RegularFile []))"
      using d by (simp add: paths(3) [symmetric] sit_def)
    then show "?I fs \<and> ?I (fs(?name fs \<mapsto> RegularFile [])) \<and> ?name fs = tempPath
        \<and> sit j (Some (RegularFile raw)) None (Some (RegularFile [])) None (fs(?name fs \<mapsto> RegularFile []))"
      using fs I by blast
  qed
  have rest: "triple ?I (\<lambda>fs. p = tempPath \<and> sit j (Some (RegularFile raw)) None (Some (RegularFile [])) None fs)
      (let j = new_journal en op dig statePath p journalPath raw desired now
       in mbind (on_error (mbind (write_temporary flt p desired) (\<lambda>_.
                mbind (persistMigrationJournal en flt j) (\<lambda>_. secureMigrationFile flt statePath)))
              (os_Remove flt p)) (\<lambda>_. replace_state en flt j now))
      (\<lambda>_. committed en j raw desired) ?I" for p
  proof (cases "p = tempPath")
    case True
    have "triple ?I (sit j (Some (RegularFile raw)) None (Some (RegularFile [])) None)
       (mbind (on_error (mbind (write_temporary flt (mj_TempPath j) desired) (\<lambda>_.
          mbind (persistMigrationJournal en flt j) (\<lambda>_. secureMigrationFile flt (mj_SourcePath j))))
        (os_Remove flt (mj_TempPath j))) (\<lambda>_. replace_state en flt j now))
       (\<lambda>_. committed en j raw desired) ?I"
    proof (rule triple_bind)
      show "triple ?I (sit j (Some (RegularFile raw)) None (Some (RegularFile [])) None)
         (on_error (mbind (write_temporary flt (mj_TempPath j) desired) (\<lambda>_.
            mbind (persistMigrationJournal en flt j) (\<lambda>_. secureMigrationFile flt (mj_SourcePath j))))
          (os_Remove flt (mj_TempPath j)))
         (\<lambda>_ fs. valid_at PhasePrepared now j
            \<and> sit j (Some (RegularFile raw)) None (Some (RegularFile desired)) (jnode en PhasePrepared now j) fs) ?I"
        by (rule triple_mono [OF triple_weaken [OF prepare_safe [OF assms(2) paths(4) [symmetric]]] v1_inv]) (simp_all add: v1_inv)
      show "triple ?I (\<lambda>fs. valid_at PhasePrepared now j
            \<and> sit j (Some (RegularFile raw)) None (Some (RegularFile desired)) (jnode en PhasePrepared now j) fs)
          (replace_state en flt j now) (\<lambda>_. committed en j raw desired) ?I"
        using replace_safe [OF assms(2)] by (cases "valid_at PhasePrepared now j") (auto simp: triple_def)
    qed
    then show ?thesis using True by (simp add: Let_def assms(1) [symmetric] paths)
  next
    case False
    then show ?thesis by (simp add: triple_def)
  qed
  show ?thesis unfolding fresh_migration_def
    by (rule triple_bind [OF reads_triple [OF reads_exists]], blast intro: I, rule triple_bind [OF guard],
        rule triple_bind [OF create], rule rest)
qed

subsection \<open>Safety of the recovery\<close>

lemma restore_safe:
  assumes "describes en j raw desired" and "valid_at PhasePrepared t j"
  shows "triple (mig_inv en j raw desired)
     (sit j None (Some (RegularFile raw)) (Some (RegularFile desired)) (jnode en PhasePrepared t j))
     (restoreMigrationSourceFromBackup en flt j)
     (\<lambda>_. sit j (Some (RegularFile raw)) (Some (RegularFile raw)) (Some (RegularFile desired)) (jnode en PhasePrepared t j))
     (mig_inv en j raw desired)"
proof -
  let ?I = "mig_inv en j raw desired"
  let ?B = "sit j None (Some (RegularFile raw)) (Some (RegularFile desired)) (jnode en PhasePrepared t j)"
  let ?A = "sit j (Some (RegularFile raw)) (Some (RegularFile raw)) (Some (RegularFile desired)) (jnode en PhasePrepared t j)"
  note d = describesD [OF assms(1)]
  have before: "sure ?I j None (Some (RegularFile raw)) (Some (RegularFile desired)) (jnode en PhasePrepared t j)"
    using sure_between [OF assms(2)] by simp
  have after: "sure ?I j (Some (RegularFile raw)) (Some (RegularFile raw)) (Some (RegularFile desired)) (jnode en PhasePrepared t j)"
    using sure_v1 [OF assms(2), of _ _ _ "Some raw" "Some desired"] by simp
  have final: "triple ?I (\<lambda>fs. ?B fs \<and> fs p = Some (RegularFile raw)) (commitMigrationTempExclusively flt p (mj_SourcePath j))
      (\<lambda>_. ?A) (\<lambda>fs. ?B fs \<or> ?A fs)" if p: "p \<notin> four j" for p
  proof -
    have link: "triple ?I (\<lambda>fs. ?B fs \<and> fs p = Some (RegularFile raw)) (os_Link flt p (mj_SourcePath j)) (\<lambda>_. ?A) (\<lambda>fs. ?B fs \<or> ?A fs)"
      unfolding os_Link_def
      by (rule triple_pre [OF triple_change]) (use p d(1-6) sureD [OF after] in \<open>auto simp: sit_def split: if_splits\<close>)
    have remove: "triple ?I ?A (os_Remove flt p) (\<lambda>_. ?A) (\<lambda>fs. ?B fs \<or> ?A fs)"
      unfolding os_Remove_def
      by (rule triple_pre [OF triple_change]) (use sit_other [OF p] sureD [OF after] in \<open>auto split: if_splits\<close>)
    show ?thesis unfolding commitMigrationTempExclusively_def linkMigrationExclusively_def
      by (rule triple_bind, rule triple_bind, rule reads_triple [OF reads_ancestors], simp, rule triple_pre [OF link], simp, rule remove)
  qed
  have via: "triple ?I ?B (via_temporary flt (me_temp en (filepath_Dir (mj_SourcePath j)) (''.'' @ filepath_Base (mj_SourcePath j) @ ''.restore-''))
      raw (\<lambda>path. commitMigrationTempExclusively flt path (mj_SourcePath j))) (\<lambda>_. ?A) ?I"
  proof (rule keep_via_temporary [OF before _ final])
    show "\<forall>fs. me_temp en (filepath_Dir (mj_SourcePath j)) (''.'' @ filepath_Base (mj_SourcePath j) @ ''.restore-'') fs \<notin> four j"
      using d(11) by (auto simp: restore_prefix_def)
    show "?I (fs(p := None)) \<and> ?I fs" if "p \<notin> four j" "?A fs" for p fs
      using sureD [OF after] that(2) sit_other [OF that(1)] by simp
  qed
  show ?thesis unfolding restoreMigrationSourceFromBackup_def
  proof (rule keep_look [OF reads_exists before], rule keep_guard [OF before], rule keep_look [OF reads_secure before],
      rule keep_look [OF reads_readRegular before], rule keep_guard [OF before])
    fix backup and fs :: fsys
    assume "?B fs" "fs (mj_BackupPath j) = Some (RegularFile backup)"
    then have "backup = raw" by (simp add: sit_def)
    then show "triple ?I ?B (via_temporary flt (me_temp en (filepath_Dir (mj_SourcePath j)) (''.'' @ filepath_Base (mj_SourcePath j) @ ''.restore-''))
      backup (\<lambda>path. commitMigrationTempExclusively flt path (mj_SourcePath j))) (\<lambda>_. ?A) ?I" using via by simp
  qed
qed

text \<open>With version 1 in place every phase leaves it there.\<close>

lemma recover_v1_safe:
  assumes "describes en j raw desired" and "valid_at (mj_Phase j) t j" and "mj_Phase j \<in> set all_phases"
  shows "triple (mig_inv en j raw desired)
     (sit j (Some (RegularFile raw)) (map_option RegularFile b) (map_option RegularFile c) (jnode en (mj_Phase j) t j))
     (recover_phase en flt j now (Some raw, b, c)) Q (mig_inv en j raw desired)"
proof -
  let ?I = "mig_inv en j raw desired"
  note d = describesD(7-9) [OF assms(1)]
  have here: "sure ?I j (Some (RegularFile raw)) (map_option RegularFile b) (map_option RegularFile c) (jnode en (mj_Phase j) t j)" for c
    using sure_v1 [OF assms(2,3)] .
  have mark: "triple ?I (sit j (Some (RegularFile raw)) (map_option RegularFile b) (map_option RegularFile c) (jnode en (mj_Phase j) t j))
      (markMigrationNeedsReconciliation en flt j now) Q ?I" for c
    by (rule keep_mark [OF assms(1) here], rule sure_v1) simp_all
  have "triple ?I (sit j (Some (RegularFile raw)) (map_option RegularFile b) (map_option RegularFile c) (jnode en (mj_Phase j) t j))
     (recover_prepared en flt j now (Some raw, b, c)) Q ?I"
  proof (cases "b = None \<and> is_desired en j c")
    case True
    have "triple ?I (sit j (Some (RegularFile raw)) (map_option RegularFile b) (map_option RegularFile c) (jnode en (mj_Phase j) t j))
        (mbind (remove_temp en flt j) (\<lambda>_. markMigrationNeedsReconciliation en flt j now)) Q ?I"
      by (rule triple_bind [OF remove_temp_safe [OF assms(1) here here [of None, unfolded option.map]]])
        (rule mark [of None, unfolded option.map])
    then have "triple ?I (sit j (Some (RegularFile raw)) (map_option RegularFile b) (map_option RegularFile c) (jnode en (mj_Phase j) t j))
        (if_current en flt j now (migrationRollbackInputsMatch en flt j) (mbind (secureMigrationFile flt (mj_SourcePath j)) (\<lambda>_.
             mbind (remove_temp en flt j) (\<lambda>_. markMigrationNeedsReconciliation en flt j now)))) Q ?I"
      unfolding if_current_def migrationRollbackInputsMatch_def
      by (intro keep_look [OF reads_inputs here]) (auto intro: keep_look [OF reads_secure here] mark)
    then show ?thesis using True d by (simp add: recover_prepared_def)
  next
    case False
    then have "recover_prepared en flt j now (Some raw, b, c) = markMigrationNeedsReconciliation en flt j now"
      using d by (auto simp: recover_prepared_def)
    then show ?thesis using mark by simp
  qed
  moreover have "triple ?I (sit j (Some (RegularFile raw)) (map_option RegularFile b) (map_option RegularFile c) (jnode en (mj_Phase j) t j))
     (recover_renamed en flt j now (Some raw, b, c)) Q ?I"
    "triple ?I (sit j (Some (RegularFile raw)) (map_option RegularFile b) (map_option RegularFile c) (jnode en (mj_Phase j) t j))
     (recover_committed en flt j now (Some raw, b, c)) Q ?I"
    using d mark by (simp_all add: recover_renamed_def recover_committed_def)
  ultimately show ?thesis using mark by (auto simp: recover_phase_def split: StateMigrationPhase.splits)
qed

lemma recover_between_safe:
  assumes "describes en j raw desired" and "valid_at (mj_Phase j) t j" and "mj_Phase j \<in> {PhasePrepared, PhaseBackupRenamed}"
  shows "triple (mig_inv en j raw desired)
     (sit j None (Some (RegularFile raw)) (Some (RegularFile desired)) (jnode en (mj_Phase j) t j))
     (recover_phase en flt j now (None, Some raw, Some desired)) (\<lambda>_. committed en j raw desired) (mig_inv en j raw desired)"
proof -
  let ?I = "mig_inv en j raw desired"
  let ?B = "\<lambda>ph. sit j None (Some (RegularFile raw)) (Some (RegularFile desired)) (jnode en ph t j)"
  note d = describesD [OF assms(1)]
  note here = sure_between [OF assms(2,3), of en raw desired]
  have current: "triple ?I (?B (mj_Phase j)) (if_current en flt j now (migrationRecoveryCommitInputsMatch en flt j) m) Q ?I"
    if "triple ?I (?B (mj_Phase j)) m Q ?I" for m Q
    unfolding if_current_def migrationRecoveryCommitInputsMatch_def
    by (rule keep_look [OF reads_inputs here]) (use d(7,8) that in \<open>auto simp: sit_def\<close>)
  have "triple ?I (?B PhasePrepared) (mbind (restoreMigrationSourceFromBackup en flt j) (\<lambda>_.
             mbind (remove_temp en flt j) (\<lambda>_. markMigrationNeedsReconciliation en flt j now))) Q ?I"
    if v: "valid_at PhasePrepared t j" for Q
  proof -
    have s: "sure ?I j (Some (RegularFile raw)) (Some (RegularFile raw)) (map_option RegularFile c) (jnode en ph t j)"
      if "valid_at ph t j" "ph \<in> set all_phases" for c ph t
      using sure_v1 [OF that, of _ _ _ "Some raw" c] by simp
    show ?thesis
      by (rule triple_bind [OF restore_safe [OF assms(1) v]],
          rule triple_bind [OF remove_temp_safe [OF assms(1) s [OF v, of "Some desired", simplified] s [OF v, of None, simplified]]],
          rule keep_mark [OF assms(1) s [OF v, of None, simplified] s [of _ _ None, simplified]]) simp_all
  qed
  moreover have "triple ?I (?B PhaseBackupRenamed) (mbind (secureMigrationFile flt (mj_BackupPath j)) (\<lambda>_.
             mbind (commitMigrationTempExclusively flt (mj_TempPath j) (mj_SourcePath j)) (\<lambda>_.
             record_committed en flt j now))) (\<lambda>_. committed en j raw desired) ?I"
    if v: "valid_at PhaseBackupRenamed t j"
    by (rule keep_look [OF reads_secure sure_between [OF v]], simp, rule triple_bind [OF commit_safe [OF assms(1) v]],
        rule record_safe [OF assms(1) v])
  ultimately show ?thesis using assms(2,3) d(7,8) current
    by (auto simp: recover_phase_def recover_prepared_def recover_renamed_def is_desired_def is_source_def info_matches_def)
qed

lemma recover_v2_safe:
  assumes "describes en j raw desired" and "valid_at (mj_Phase j) t j"
    and "mj_Phase j = PhaseBackupRenamed \<and> c \<in> {None, Some desired} \<or> mj_Phase j = PhaseCommitted \<and> c = None"
  shows "triple (mig_inv en j raw desired)
     (sit j (Some (RegularFile desired)) (Some (RegularFile raw)) (map_option RegularFile c) (jnode en (mj_Phase j) t j))
     (recover_phase en flt j now (Some desired, Some raw, c)) (\<lambda>_. committed en j raw desired) (mig_inv en j raw desired)"
proof -
  let ?I = "mig_inv en j raw desired"
  let ?B = "\<lambda>c. sit j (Some (RegularFile desired)) (Some (RegularFile raw)) (map_option RegularFile c) (jnode en (mj_Phase j) t j)"
  note d = describesD [OF assms(1)]
  have here: "sure ?I j (Some (RegularFile desired)) (Some (RegularFile raw)) (map_option RegularFile c) (jnode en (mj_Phase j) t j)"
    using assms(2,3) by (auto intro: sure_v2)
  have gone: "sure ?I j (Some (RegularFile desired)) (Some (RegularFile raw)) None (jnode en (mj_Phase j) t j)"
    using assms(2,3) by (auto intro: sure_v2)
  have current: "triple ?I (?B c) (if_current en flt j now (inputs_match flt j test) (mbind (secure_both flt j) (\<lambda>_. m))) Q ?I"
    if "triple ?I (?B c) m Q ?I" "test (Some desired) (Some raw) c" for m Q test
  proof -
    have both: "reads (secure_both flt j) (\<lambda>_ _. True)"
      unfolding secure_both_def by (rule reads_bind [OF reads_secure], rule reads_weaken [OF reads_secure]) simp
    have c: "content fs (mj_TempPath j) = c" if "?B c fs" for fs
      using that by (cases c) (auto simp: sit_def content_def)
    show ?thesis unfolding if_current_def
      by (rule keep_look [OF reads_inputs here])
        (use that in \<open>auto simp: sit_def c intro: keep_look [OF both here]\<close>)
  qed
  have "triple ?I (?B None) (record_committed en flt j now) (\<lambda>_. committed en j raw desired) ?I" if "mj_Phase j = PhaseBackupRenamed"
    using record_safe [OF assms(1), of t flt now] assms(2) that by simp
  moreover from this have "triple ?I (?B c) (mbind (remove_temp en flt j) (\<lambda>_. record_committed en flt j now)) (\<lambda>_. committed en j raw desired) ?I"
    if "mj_Phase j = PhaseBackupRenamed"
    using triple_bind [OF remove_temp_safe [OF assms(1) here gone]] that by simp
  moreover have "triple ?I (?B c) (validateCommittedMigrationFiles en flt j) (\<lambda>_. committed en j raw desired) ?I" if "mj_Phase j = PhaseCommitted"
    by (rule triple_weaken [OF keep_reads [OF reads_committed_files here]])
      (use assms(2,3) that in \<open>auto simp: sit_def committed_def journal_at_def\<close>)
  ultimately show ?thesis using assms(3) d(7,8)
    current [where test = "\<lambda>source backup temp. is_desired en j source \<and> is_source en j backup \<and> temp = None"]
    current [where test = "\<lambda>source backup temp. is_desired en j source \<and> is_source en j backup \<and> is_desired en j temp"]
    by (auto simp: recover_phase_def recover_renamed_def recover_committed_def migrationCommittedStateMatches_def
        migrationCommittedInputsMatch_def)
qed

text \<open>The phase and the time of the last change are not part of what a journal describes.\<close>

lemma at_phase_describes: "describes en (at_phase ph t j) raw desired = describes en j raw desired"
proof -
  have "mj_SourceHash (at_phase ph t j) = mj_SourceHash j" "mj_SourceSize (at_phase ph t j) = mj_SourceSize j"
    "mj_DesiredHash (at_phase ph t j) = mj_DesiredHash j" "mj_DesiredSize (at_phase ph t j) = mj_DesiredSize j"
    by (simp_all add: at_phase_def)
  then show ?thesis by (simp add: describes_def is_source_def is_desired_def dirs_def state_paths_def)
qed

lemma at_phase_inv:
  "mig_inv en (at_phase ph t j) raw desired = mig_inv en j raw desired"
  "committed en (at_phase ph t j) raw desired = committed en j raw desired"
  "valid_at ph' t' (at_phase ph t j) = valid_at ph' t' j"
proof -
  show v: "valid_at ph' t' (at_phase ph t j) = valid_at ph' t' j" for ph' t' by (simp add: valid_at_def)
  show "mig_inv en (at_phase ph t j) raw desired = mig_inv en j raw desired"
    by (rule ext) (simp add: mig_inv_defs v)
  show "committed en (at_phase ph t j) raw desired = committed en j raw desired"
    by (rule ext) (simp add: committed_def journal_at_def v)
qed

text \<open>The codec is injective on the phases, so a journal that is on disk is in the phase it says.\<close>

lemma journal_now:
  assumes "describes en j raw desired" and at: "journal_at en j phs fs"
    and "fs (mj_JournalPath j) = jnode en (mj_Phase j) (mj_UpdatedAt j) j"
  shows "mj_Phase j \<in> set phs \<and> valid_at (mj_Phase j) (mj_UpdatedAt j) j"
proof -
  obtain ph t where ph: "ph \<in> set phs" "valid_at ph t j" "fs (mj_JournalPath j) = jnode en ph t j"
    using at by (auto simp: journal_at_def)
  then have "me_encodeJournal en (at_phase ph t j) = me_encodeJournal en (at_phase (mj_Phase j) (mj_UpdatedAt j) j)"
    using assms(3) by simp
  then have "at_phase ph t j = at_phase (mj_Phase j) (mj_UpdatedAt j) j" using describesD(12) [OF assms(1)] by (metis option.inject)
  then have "mj_Phase (at_phase ph t j) = mj_Phase j" "mj_UpdatedAt (at_phase ph t j) = mj_UpdatedAt j"
    by (simp_all only: at_phase_id)
  then have "ph = mj_Phase j" "t = mj_UpdatedAt j" by (simp_all add: at_phase_def)
  then show ?thesis using ph by simp
qed

lemma recover_phase_safe:
  assumes "describes en j raw desired" and "mig_inv en j raw desired fs" and "fs (mj_JournalPath j) = Some (RegularFile (me_encodeJournal en j))"
    and "list_all (plain fs) (state_paths j)"
  shows "triple (mig_inv en j raw desired)
     (sit j (fs (mj_SourcePath j)) (fs (mj_BackupPath j)) (fs (mj_TempPath j)) (fs (mj_JournalPath j)))
     (recover_phase en flt j now (content fs (mj_SourcePath j), content fs (mj_BackupPath j), content fs (mj_TempPath j)))
     (\<lambda>_. committed en j raw desired) (mig_inv en j raw desired)"
proof -
  have js: "fs (mj_JournalPath j) = jnode en (mj_Phase j) (mj_UpdatedAt j) j" using assms(3) by (simp add: at_phase_id)
  have same: "mj_Phase j \<in> set phs \<and> valid_at (mj_Phase j) (mj_UpdatedAt j) j" if "journal_at en j phs fs" for phs
    using journal_now [OF assms(1) that js] .
  have "plain fs (mj_BackupPath j)" "plain fs (mj_TempPath j)" using assms(4) by (simp_all add: state_paths_def)
  then obtain b c where t: "fs (mj_BackupPath j) = map_option RegularFile b" "content fs (mj_BackupPath j) = b"
    "fs (mj_TempPath j) = map_option RegularFile c" "content fs (mj_TempPath j) = c"
    unfolding plain_def by blast
  consider (v1) "v1_in_place en j raw fs" | (between) "between en j raw desired fs" | (v2) "v2_in_place en j raw desired fs"
    using assms(2) by (auto simp: mig_inv_def)
  then show ?thesis
  proof cases
    case v1
    then have s: "fs (mj_SourcePath j) = Some (RegularFile raw)" and ph: "journal_at en j all_phases fs"
      using js by (auto simp: v1_in_place_def)
    show ?thesis using recover_v1_safe [OF assms(1) conjunct2 [OF same [OF ph]] conjunct1 [OF same [OF ph]]] t s js by simp
  next
    case between
    then have ph: "journal_at en j [PhasePrepared, PhaseBackupRenamed] fs" by (simp add: between_def)
    show ?thesis using recover_between_safe [OF assms(1) conjunct2 [OF same [OF ph]], of flt now] same [OF ph] between js
      by (auto simp: between_def)
  next
    case v2
    then have s: "fs (mj_SourcePath j) = Some (RegularFile desired)" "fs (mj_BackupPath j) = Some (RegularFile raw)"
      by (simp_all add: v2_in_place_def)
    have ph: "journal_at en j [PhaseBackupRenamed, PhaseCommitted] fs" using v2 by (auto simp: v2_in_place_def journal_at_def)
    have "mj_Phase j = PhaseBackupRenamed \<and> c \<in> {None, Some desired} \<or> mj_Phase j = PhaseCommitted \<and> c = None"
      using v2 same [of "[PhaseBackupRenamed]"] same [of "[PhaseCommitted]"] t(3) by (cases c) (auto simp: v2_in_place_def)
    from recover_v2_safe [OF assms(1) conjunct2 [OF same [OF ph]] this, of flt now] show ?thesis using t(3,4) s js by simp
  qed
qed

lemma triple_exact: "(\<And>fs0. P fs0 \<Longrightarrow> triple I (\<lambda>fs. fs = fs0) m Q E) \<Longrightarrow> triple I P m Q E"
  unfolding triple_def by blast

lemma exact_look:
  assumes "reads m R" and "I fs0" and "\<And>x. R x fs0 \<Longrightarrow> triple I (\<lambda>fs. fs = fs0) (f x) Q I"
  shows "triple I (\<lambda>fs. fs = fs0) (mbind m f) Q I"
proof (rule triple_bind [OF reads_triple [OF assms(1)]])
  show "triple I (\<lambda>fs. fs = fs0 \<and> R x fs) (f x) Q I" for x
    using assms(3) [of x] by (cases "R x fs0") (auto simp: triple_def)
qed (use assms(2) in simp)

lemma recover_safe:
  assumes "describes en j raw desired"
  shows "triple (mig_inv en j raw desired) (mig_inv en j raw desired) (RecoverStateMigration en flt (mj_JournalPath j) now)
     (\<lambda>_. committed en j raw desired) (mig_inv en j raw desired)"
proof (rule triple_exact)
  fix fs0 assume inv: "mig_inv en j raw desired fs0"
  show "triple (mig_inv en j raw desired) (\<lambda>fs. fs = fs0) (RecoverStateMigration en flt (mj_JournalPath j) now)
      (\<lambda>_. committed en j raw desired) (mig_inv en j raw desired)"
    unfolding RecoverStateMigration_def
  proof (rule exact_look [where I = "mig_inv en j raw desired", OF reads_guard inv],
      rule exact_look [where I = "mig_inv en j raw desired", OF reads_load inv])
    fix j1 assume "\<exists>c. fs0 (mj_JournalPath j) = Some (RegularFile c) \<and> me_decodeJournal en c = Some j1"
    then obtain c where c: "fs0 (mj_JournalPath j) = Some (RegularFile c)" "me_decodeJournal en c = Some j1" by blast
    then have "journal_at en j all_phases fs0" using inv by (auto simp: mig_inv_defs)
    then obtain ph t where "c = me_encodeJournal en (at_phase ph t j)" using c(1) by (auto simp: journal_at_def)
    then have j1: "j1 = at_phase ph t j" "c = me_encodeJournal en j1" using c(2) describesD(12) [OF assms] by simp_all
    have d1: "describes en j1 raw desired" using assms by (simp add: j1(1) at_phase_describes)
    have I: "mig_inv en j raw desired = mig_inv en j1 raw desired" "committed en j raw desired = committed en j1 raw desired"
      by (simp_all add: j1(1) at_phase_inv)
    have body: "triple (mig_inv en j1 raw desired) (\<lambda>fs. fs = fs0)
        (if mj_Phase j1 = PhaseNeedsReconciliation then mfail ErrStateMigrationNeedsReconciliation
         else mbind (inspect_all flt j1) (\<lambda>files. recover_phase en flt j1 now files)) (\<lambda>_. committed en j1 raw desired) (mig_inv en j1 raw desired)"
    proof (cases "mj_Phase j1 = PhaseNeedsReconciliation")
      case True
      then show ?thesis using inv I triple_pre [OF triple_fail, of "\<lambda>fs. fs = fs0"] by simp
    next
      case False
      have "triple (mig_inv en j1 raw desired) (\<lambda>fs. fs = fs0) (recover_phase en flt j1 now x) (\<lambda>_. committed en j1 raw desired) (mig_inv en j1 raw desired)"
        if x: "x = (content fs0 (mj_SourcePath j1), content fs0 (mj_BackupPath j1), content fs0 (mj_TempPath j1))
           \<and> list_all (plain fs0) (state_paths j1)" for x
      proof -
        have p: "list_all (plain fs0) (state_paths j1)" and "fs0 (mj_JournalPath j1) = Some (RegularFile (me_encodeJournal en j1))"
          using x c(1) j1 by simp_all
        then have "triple (mig_inv en j1 raw desired)
           (sit j1 (fs0 (mj_SourcePath j1)) (fs0 (mj_BackupPath j1)) (fs0 (mj_TempPath j1)) (fs0 (mj_JournalPath j1)))
           (recover_phase en flt j1 now x) (\<lambda>_. committed en j1 raw desired) (mig_inv en j1 raw desired)"
          using recover_phase_safe [OF d1 inv [unfolded I]] x by simp
        then show ?thesis by (rule triple_pre) (simp add: sit_def)
      qed
      then have "triple (mig_inv en j1 raw desired) (\<lambda>fs. fs = fs0) (mbind (inspect_all flt j1) (\<lambda>files. recover_phase en flt j1 now files))
          (\<lambda>_. committed en j1 raw desired) (mig_inv en j1 raw desired)"
        by (rule exact_look [where I = "mig_inv en j1 raw desired", OF reads_inspect_all inv [unfolded I]])
      then show ?thesis using False by simp
    qed
    show "triple (mig_inv en j raw desired) (\<lambda>fs. fs = fs0)
        (mbind (mguard (validateMigrationJournal j1 (mj_JournalPath j))) (\<lambda>_.
         mbind (validateMigrationMutationAncestors flt (state_paths j1 @ [mj_JournalPath j1])) (\<lambda>_.
         if mj_Phase j1 = PhaseNeedsReconciliation then mfail ErrStateMigrationNeedsReconciliation
         else mbind (inspect_all flt j1) (\<lambda>files. recover_phase en flt j1 now files))))
        (\<lambda>_. committed en j raw desired) (mig_inv en j raw desired)"
      unfolding I by (intro exact_look [where I = "mig_inv en j1 raw desired", OF reads_guard inv [unfolded I]]
          exact_look [where I = "mig_inv en j1 raw desired", OF reads_ancestors inv [unfolded I]] body)
  qed
qed

end
