(* ===== verification/State_Migration_Runs.thy ===== *)
theory State_Migration_Runs
  imports State_Migration_Theorems
begin

text \<open>
  Runs of a migration: the same migration attempted and recovered any number of times, each attempt interrupted
  anywhere.
\<close>

subsection \<open>Safety of an attempt\<close>

lemma reads_peek: "reads (peek g) (\<lambda>x fs. x = g fs)"
  by (simp add: reads_def peek_def)

lemma reads_lift: "reads (lift_sum r) (\<lambda>x _. r = Inr x)"
  by (cases r) (simp_all add: lift_sum_def reads_ret reads_fail)

lemma reads_attempt: "reads m R \<Longrightarrow> reads (caught m) (\<lambda>r fs. \<forall>x. r = Inr x \<longrightarrow> R x fs)"
  by (simp add: reads_def caught_def split_beta)

lemma reads_load_present:
  "reads (loadMigrationJournalIfPresent en flt p)
     (\<lambda>x fs. case x of None \<Rightarrow> fs p = None | Some j \<Rightarrow> \<exists>c. fs p = Some (RegularFile c) \<and> me_decodeJournal en c = Some j)"
  unfolding loadMigrationJournalIfPresent_def
  by (rule reads_bind [OF reads_Lstat]) (auto intro!: reads_ret reads_bind [OF reads_load] split: option.splits)

definition is_done :: "mig_env \<Rightarrow> StateMigrationJournal \<Rightarrow> fsys \<Rightarrow> bool" where
  "is_done en j fs \<longleftrightarrow> mj_Phase j = PhaseCommitted \<and> is_desired en j (content fs (mj_SourcePath j))
     \<and> plain fs (mj_TempPath j) \<and> content fs (mj_TempPath j) = None"

lemma reads_matches:
  "reads (committedMigrationMatchesJournal en flt j) (\<lambda>x fs. x \<longrightarrow> is_done en j fs)"
  unfolding committedMigrationMatchesJournal_def
  by (auto simp: is_done_def state_paths_def intro!: reads_ret reads_bind [OF reads_inspect_all])

lemma reads_existing:
  "reads (existing_journal en flt j p s oid dig) (\<lambda>_ fs. mj_SourcePath j = s \<and> is_done en j fs)"
  unfolding existing_journal_def
proof (rule reads_bind [OF reads_guard])
  define g where "g = first_err (validateMigrationJournal j p)
       (if mj_OperationID j \<noteq> oid then Some (MigError ''journal operation mismatch'')
        else if mj_ManifestDigest j \<noteq> dig then Some (MigError ''journal manifest mismatch'')
        else if mj_SourcePath j \<noteq> s \<or> mj_BackupPath j \<noteq> s @ ''.v1''
        then Some (MigError ''journal path mismatch'') else None)"
  have s: "mj_SourcePath j = s" if "g = None" using that unfolding g_def by (simp split: if_splits)
  have m: "reads (if mj_Phase j = PhaseCommitted then committedMigrationMatchesJournal en flt j else mret False)
      (\<lambda>x fs. x \<longrightarrow> is_done en j fs)"
    using reads_matches [of en flt j] by (simp add: reads_ret)
  have "reads (mbind (if mj_Phase j = PhaseCommitted then committedMigrationMatchesJournal en flt j else mret False)
       (\<lambda>matched. if matched then mret () else mfail (MigError ''existing journal requires recovery'')))
       (\<lambda>_ fs. is_done en j fs)"
    by (rule reads_bind [OF m]) (simp add: reads_ret reads_fail)
  then show "reads (mbind (if mj_Phase j = PhaseCommitted then committedMigrationMatchesJournal en flt j else mret False)
       (\<lambda>matched. if matched then mret () else mfail (MigError ''existing journal requires recovery'')))
       (\<lambda>_ fs. g = None \<longrightarrow> mj_SourcePath j = s \<and> is_done en j fs)"
    by (rule reads_weaken) (use s in blast)
qed

lemma reads_committed:
  "reads (committedMigrationMatches en flt p s oid dig)
     (\<lambda>x fs. x \<longrightarrow> (\<exists>c j. fs p = Some (RegularFile c) \<and> me_decodeJournal en c = Some j
        \<and> mj_SourcePath j = s \<and> is_done en j fs))"
  unfolding committedMigrationMatches_def
proof (rule reads_bind [OF reads_load_present])
  fix x
  show "reads (case x of None \<Rightarrow> mret False
       | Some j \<Rightarrow> mbind (mguard (validateMigrationJournal j p)) (\<lambda>_.
           if mj_OperationID j \<noteq> oid \<or> mj_ManifestDigest j \<noteq> dig \<or> mj_SourcePath j \<noteq> s \<or> mj_Phase j \<noteq> PhaseCommitted
           then mret False else committedMigrationMatchesJournal en flt j))
     (\<lambda>y fs. (case x of None \<Rightarrow> fs p = None | Some j \<Rightarrow> \<exists>c. fs p = Some (RegularFile c) \<and> me_decodeJournal en c = Some j) \<longrightarrow>
        y \<longrightarrow> (\<exists>c j. fs p = Some (RegularFile c) \<and> me_decodeJournal en c = Some j \<and> mj_SourcePath j = s \<and> is_done en j fs))"
    by (cases x) (auto intro!: reads_ret reads_bind [OF reads_guard] reads_weaken [OF reads_matches])
qed

text \<open>
  An upgrade of \<open>raw\<close> to \<open>desired\<close>: every journal the migration can write describes it, and the new content is written in
  the directory of the state file.
\<close>

definition temp_of :: "mig_env \<Rightarrow> string \<Rightarrow> fsys \<Rightarrow> string" where
  "temp_of en statePath = me_temp en (filepath_Dir statePath) (v2_prefix statePath)"

definition upgrade ::
    "mig_env \<Rightarrow> string \<Rightarrow> string \<Rightarrow> string \<Rightarrow> string \<Rightarrow> string \<Rightarrow> string \<Rightarrow> bool" where
  "upgrade en statePath journalPath operationID dig raw desired \<longleftrightarrow>
     (\<exists>obj. decodeV1StateObject en raw = Inr obj \<and> desired = upgraded en dig obj)
     \<and> (\<forall>fs now. describes en
          (new_journal en operationID dig statePath (temp_of en statePath fs) journalPath raw desired now) raw desired)
     \<and> (\<forall>fs. filepath_Dir (temp_of en statePath fs) = filepath_Dir statePath)"

lemma new_journal_paths [simp]:
  "mj_SourcePath (new_journal en oid dig s t p raw desired now) = s"
  "mj_BackupPath (new_journal en oid dig s t p raw desired now) = s @ ''.v1''"
  "mj_TempPath (new_journal en oid dig s t p raw desired now) = t"
  "mj_JournalPath (new_journal en oid dig s t p raw desired now) = p"
  by (simp_all add: new_journal_def)

text \<open>The journal a migration found: it belongs to the version that is in place.\<close>

lemma desired_in_place:
  assumes "describes en j raw desired" and "mig_inv en j raw desired fs"
    and "fs (mj_JournalPath j) = Some (RegularFile c)" and "me_decodeJournal en c = Some j1"
    and "mj_SourcePath j1 = mj_SourcePath j" and "is_done en j1 fs"
  shows "committed en j raw desired fs"
proof -
  have "journal_at en j all_phases fs" using assms(2,3) by (auto simp: mig_inv_defs)
  then obtain ph t where c: "c = me_encodeJournal en (at_phase ph t j)" "valid_at ph t j"
    using assms(3) by (auto simp: journal_at_def)
  then have j1: "j1 = at_phase ph t j" using assms(4) describesD(12) [OF assms(1)] by simp
  then have fin: "is_desired en j (content fs (mj_SourcePath j))" "ph = PhaseCommitted" "fs (mj_TempPath j) = None"
    using assms(6) plain_None [of fs "mj_TempPath j"] by (auto simp: is_done_def is_desired_def at_phase_def)
  then have "v2_in_place en j raw desired fs" using assms(2) describesD(9) [OF assms(1)]
    by (auto simp: mig_inv_def v1_in_place_def between_def is_desired_def info_matches_def)
  then show ?thesis using fin c assms(3) by (auto simp: committed_def v2_in_place_def journal_at_def)
qed

lemma migrate_verified_safe:
  assumes "describes en j raw desired" and "mig_inv en j raw desired fs0"
    and "mj_SourcePath j = statePath" and "mj_JournalPath j = journalPath"
    and "fs0 journalPath = None \<longrightarrow>
       j = new_journal en oid dig statePath (temp_of en statePath fs0) journalPath raw desired now"
    and "decodeV1StateObject en raw = Inr obj0" and "desired = upgraded en dig obj0"
  shows "triple (mig_inv en j raw desired) (\<lambda>fs. fs = fs0) (migrate_verified en flt statePath journalPath m dig oid now)
     (\<lambda>_. committed en j raw desired) (mig_inv en j raw desired)"
proof -
  let ?I = "mig_inv en j raw desired"
  note look = exact_look [where I = ?I, OF _ assms(2)]
  have rest: "triple ?I (\<lambda>fs. fs = fs0) (case x of
         Some j1 \<Rightarrow> existing_journal en flt j1 journalPath statePath oid dig
       | None \<Rightarrow> fresh_migration en flt statePath journalPath oid dig raw1 (upgraded en dig obj1) now) (\<lambda>_. committed en j raw desired) ?I"
    if x: "case x of None \<Rightarrow> fs0 journalPath = None
        | Some j1 \<Rightarrow> \<exists>c. fs0 journalPath = Some (RegularFile c) \<and> me_decodeJournal en c = Some j1"
      and raw1: "fs0 statePath = Some (RegularFile raw1)" and obj1: "decodeV1StateObject en raw1 = Inr obj1" for x raw1 obj1
  proof (cases x)
    case (Some j1)
    have "triple ?I (\<lambda>fs. fs = fs0) (existing_journal en flt j1 journalPath statePath oid dig) (\<lambda>_. committed en j raw desired) ?I"
      by (rule triple_weaken [OF reads_triple [where P = "\<lambda>fs. fs = fs0" and E = ?I, OF reads_existing]])
        (use Some x assms(2-4) desired_in_place [OF assms(1,2)] in auto)
    then show ?thesis using Some by simp
  next
    case None
    then have none: "fs0 journalPath = None" using x by simp
    then have "fs0 statePath = Some (RegularFile raw)" using assms(2-4) by (auto simp: mig_inv_defs)
    then have raw: "raw1 = raw" "upgraded en dig obj1 = desired" using raw1 obj1 assms(6,7) by simp_all
    have j: "j = new_journal en oid dig statePath (temp_of en statePath fs0) journalPath raw desired now"
      using none assms(5) by simp
    have "triple ?I (\<lambda>fs. fs = fs0) (fresh_migration en flt statePath journalPath oid dig raw desired now) (\<lambda>_. committed en j raw desired) ?I"
      by (rule triple_pre [OF fresh_safe [OF j assms(1), of "fs0 (mj_BackupPath j)" "fs0 (mj_TempPath j)"]])
        (use assms(3,4) none \<open>fs0 statePath = Some (RegularFile raw)\<close> in \<open>simp add: sit_def temp_of_def\<close>)
    then show ?thesis using None raw by simp
  qed
  show ?thesis unfolding migrate_verified_def
    by (rule look [OF reads_guard], rule look [OF reads_ancestors], rule look [OF reads_readRegular], rule look [OF reads_peek],
        rule look [OF reads_lift], rule look [OF reads_guard], rule look [OF reads_lift], rule look [OF reads_guard],
        rule look [OF reads_load_present], rule rest)
qed

lemma migrate_safe:
  assumes "describes en j raw desired" and "mig_inv en j raw desired fs0"
    and "mj_SourcePath j = statePath" and "mj_JournalPath j = journalPath"
    and "fs0 journalPath = None \<longrightarrow>
       j = new_journal en oid dig statePath (temp_of en statePath fs0) journalPath raw desired now"
    and "decodeV1StateObject en raw = Inr obj0" and "desired = upgraded en dig obj0"
    and "migrationManifestDigest en (me_manifest en fs0) manifest = Inr dig"
  shows "triple (mig_inv en j raw desired) (\<lambda>fs. fs = fs0)
     (MigrateStateFileV1ToV2 en flt statePath journalPath manifest key role aud oid now)
     (\<lambda>_. committed en j raw desired) (mig_inv en j raw desired)"
  unfolding MigrateStateFileV1ToV2_def
proof (rule exact_look [where I = "mig_inv en j raw desired", OF reads_peek assms(2)])
  let ?I = "mig_inv en j raw desired"
  note look = exact_look [where I = ?I, OF _ assms(2)]
  note known = desired_in_place [OF assms(1,2)]
  fix x assume "x = (VerifyStateManifest (me_manifest en fs0) manifest (manifestSourceRoot manifest) role aud key now,
      migrationManifestDigest en (me_manifest en fs0) manifest)"
  then obtain e where x: "x = (e, Inr dig)" using assms(8) by simp
  have fail: "triple ?I (\<lambda>fs. fs = fs0) (mfail e) (\<lambda>_. committed en j raw desired) ?I" for e
    by (rule triple_pre [OF triple_fail]) (simp add: assms(2))
  have already: "triple ?I (\<lambda>fs. fs = fs0) (mbind (caught (committedMigrationMatches en flt journalPath statePath oid dig)) (\<lambda>r.
           if r = Inr True then mret () else mfail (MigError e))) (\<lambda>_. committed en j raw desired) ?I" for e
  proof (rule look [OF reads_attempt [OF reads_committed]])
    fix r assume r: "\<forall>x. r = Inr x \<longrightarrow> x \<longrightarrow> (\<exists>c j. fs0 journalPath = Some (RegularFile c) \<and> me_decodeJournal en c = Some j
        \<and> mj_SourcePath j = statePath \<and> is_done en j fs0)"
    have "committed en j raw desired fs0" if "r = Inr True"
      using r that assms(3,4) known by auto
    then show "triple ?I (\<lambda>fs. fs = fs0) (if r = Inr True then mret () else mfail (MigError e)) (\<lambda>_. committed en j raw desired) ?I"
      using fail by (auto intro: triple_pre [OF triple_ret])
  qed
  show "triple ?I (\<lambda>fs. fs = fs0) (case x of (manifestErr, digest) \<Rightarrow> case (manifestErr, digest) of
         (Some e, Inr manifestDigest) \<Rightarrow>
           mbind (caught (committedMigrationMatches en flt journalPath statePath oid manifestDigest)) (\<lambda>r.
           if r = Inr True then mret () else mfail (MigError e))
       | (Some e, Inl _) \<Rightarrow> mfail (MigError e)
       | (None, Inl e) \<Rightarrow> mfail (MigError e)
       | (None, Inr manifestDigest) \<Rightarrow>
           migrate_verified en flt statePath journalPath (the manifest) manifestDigest oid now) (\<lambda>_. committed en j raw desired) ?I"
    using already migrate_verified_safe [OF assms(1-7)] by (cases e) (simp_all add: x)
qed

subsection \<open>Attempts and recoveries in any order\<close>

text \<open>
  A step is an attempt or a recovery with any failing system calls, stopped at any point: what it leaves is one
  of the file systems it went through.
\<close>

record mig_request =
  rq_state :: string
  rq_journal :: string
  rq_manifest :: "StateManifest option"
  rq_key :: string
  rq_role :: string
  rq_audience :: string
  rq_operation :: string

definition attempt_migration :: "mig_env \<Rightarrow> mig_request \<Rightarrow> faults \<Rightarrow> gotime \<Rightarrow> unit mig" where
  "attempt_migration en rq flt now = MigrateStateFileV1ToV2 en flt (rq_state rq) (rq_journal rq) (rq_manifest rq)
     (rq_key rq) (rq_role rq) (rq_audience rq) (rq_operation rq) now"

definition leaves :: "unit mig \<Rightarrow> fsys \<Rightarrow> fsys set" where
  "leaves m fs = (let w = snd (m \<lparr>mw_fs = fs, mw_trace = [], mw_calls = 0\<rparr>) in insert (mw_fs w) (set (mw_trace w)))"

inductive mig_step :: "mig_env \<Rightarrow> mig_request \<Rightarrow> fsys \<Rightarrow> fsys \<Rightarrow> bool" for en rq where
  tried: "fs' \<in> leaves (attempt_migration en rq flt now) fs \<Longrightarrow> mig_step en rq fs fs'"
| recovered: "fs' \<in> leaves (RecoverStateMigration en flt (rq_journal rq) now) fs \<Longrightarrow> mig_step en rq fs fs'"

definition migration_of :: "mig_env \<Rightarrow> mig_request \<Rightarrow> string \<Rightarrow> string \<Rightarrow> string \<Rightarrow> fsys \<Rightarrow> gotime \<Rightarrow> StateMigrationJournal" where
  "migration_of en rq dig raw desired fs now =
     new_journal en (rq_operation rq) dig (rq_state rq) (temp_of en (rq_state rq) fs) (rq_journal rq) raw desired now"

definition in_migration :: "mig_env \<Rightarrow> mig_request \<Rightarrow> string \<Rightarrow> string \<Rightarrow> string \<Rightarrow> fsys \<Rightarrow> bool" where
  "in_migration en rq dig raw desired fs \<longleftrightarrow>
     (\<exists>fs1 now. mig_inv en (migration_of en rq dig raw desired fs1 now) raw desired fs)"

definition upgrade_of :: "mig_env \<Rightarrow> mig_request \<Rightarrow> string \<Rightarrow> string \<Rightarrow> string \<Rightarrow> bool" where
  "upgrade_of en rq dig raw desired \<longleftrightarrow>
     upgrade en (rq_state rq) (rq_journal rq) (rq_operation rq) dig raw desired
     \<and> (\<forall>fs. migrationManifestDigest en (me_manifest en fs) (rq_manifest rq) = Inr dig)"

lemma committed_inv: "committed en j raw desired fs \<Longrightarrow> mig_inv en j raw desired fs"
  by (simp add: committed_def mig_inv_def v2_in_place_def)

lemma leaves_triple:
  assumes "triple I P m Q I" and "P fs" and "fs' \<in> leaves m fs" and "\<And>fs. Q () fs \<Longrightarrow> I fs"
  shows "I fs'"
proof -
  obtain r w' where m: "m \<lparr>mw_fs = fs, mw_trace = [], mw_calls = 0\<rparr> = (r, w')" by force
  note t = tripleD [OF assms(1) m]
  have "I (mw_fs w')" using t(2) [of "()"] t(3) assms(2,4) by (cases r) auto
  then show ?thesis using t(1) assms(2,3) m by (auto simp: leaves_def list_all_iff)
qed

lemma in_migration_attempt:
  assumes "upgrade_of en rq dig raw desired" and "in_migration en rq dig raw desired fs"
  shows "\<exists>fs1 t. triple (mig_inv en (migration_of en rq dig raw desired fs1 t) raw desired) (\<lambda>fs'. fs' = fs)
     (attempt_migration en rq flt now) (\<lambda>_. committed en (migration_of en rq dig raw desired fs1 t) raw desired)
     (mig_inv en (migration_of en rq dig raw desired fs1 t) raw desired)"
proof -
  obtain fs1 t where inv: "mig_inv en (migration_of en rq dig raw desired fs1 t) raw desired fs"
    using assms(2) by (auto simp: in_migration_def)
  define j where "j = (if fs (rq_journal rq) = None then migration_of en rq dig raw desired fs now
      else migration_of en rq dig raw desired fs1 t)"
  obtain obj where obj: "decodeV1StateObject en raw = Inr obj" "desired = upgraded en dig obj"
    using assms(1) by (auto simp: upgrade_of_def upgrade_def)
  have d: "describes en j raw desired"
    using assms(1) by (simp add: upgrade_of_def upgrade_def j_def migration_of_def)
  have i: "mig_inv en j raw desired fs"
    using inv by (auto simp: j_def migration_of_def mig_inv_def v1_in_place_def between_def v2_in_place_def journal_at_def)
  have "triple (mig_inv en j raw desired) (\<lambda>fs'. fs' = fs) (attempt_migration en rq flt now)
      (\<lambda>_. committed en j raw desired) (mig_inv en j raw desired)"
    unfolding attempt_migration_def
    by (rule migrate_safe [OF d i _ _ _ obj]) (use assms(1) in \<open>auto simp: j_def migration_of_def upgrade_of_def\<close>)
  then show ?thesis unfolding j_def by (cases "fs (rq_journal rq) = None") auto
qed

lemma in_migration_recover:
  assumes "upgrade_of en rq dig raw desired" and "in_migration en rq dig raw desired fs"
  shows "\<exists>fs1 t. triple (mig_inv en (migration_of en rq dig raw desired fs1 t) raw desired) (\<lambda>fs'. fs' = fs)
     (RecoverStateMigration en flt (rq_journal rq) now) (\<lambda>_. committed en (migration_of en rq dig raw desired fs1 t) raw desired)
     (mig_inv en (migration_of en rq dig raw desired fs1 t) raw desired)"
proof -
  obtain fs1 t where inv: "mig_inv en (migration_of en rq dig raw desired fs1 t) raw desired fs"
    using assms(2) by (auto simp: in_migration_def)
  have d: "describes en (migration_of en rq dig raw desired fs1 t) raw desired"
    using assms(1) by (simp add: upgrade_of_def upgrade_def migration_of_def)
  have "mj_JournalPath (migration_of en rq dig raw desired fs1 t) = rq_journal rq" by (simp add: migration_of_def)
  with triple_pre [OF recover_safe [OF d], of "\<lambda>fs'. fs' = fs"] inv show ?thesis by auto
qed

lemma step_in_migration:
  assumes "upgrade_of en rq dig raw desired" and "in_migration en rq dig raw desired fs" and "mig_step en rq fs fs'"
  shows "in_migration en rq dig raw desired fs'"
  using assms(3)
proof cases
  case (tried flt now)
  obtain fs1 t where "triple (mig_inv en (migration_of en rq dig raw desired fs1 t) raw desired) (\<lambda>fs'. fs' = fs)
     (attempt_migration en rq flt now) (\<lambda>_. committed en (migration_of en rq dig raw desired fs1 t) raw desired)
     (mig_inv en (migration_of en rq dig raw desired fs1 t) raw desired)"
    using in_migration_attempt [OF assms(1,2)] by blast
  from leaves_triple [OF this refl tried committed_inv] show ?thesis unfolding in_migration_def by blast
next
  case (recovered flt now)
  obtain fs1 t where "triple (mig_inv en (migration_of en rq dig raw desired fs1 t) raw desired) (\<lambda>fs'. fs' = fs)
     (RecoverStateMigration en flt (rq_journal rq) now) (\<lambda>_. committed en (migration_of en rq dig raw desired fs1 t) raw desired)
     (mig_inv en (migration_of en rq dig raw desired fs1 t) raw desired)"
    using in_migration_recover [OF assms(1,2)] by blast
  from leaves_triple [OF this refl recovered committed_inv] show ?thesis unfolding in_migration_def by blast
qed

definition before_migration :: "mig_request \<Rightarrow> string \<Rightarrow> fsys \<Rightarrow> bool" where
  "before_migration rq raw fs \<longleftrightarrow> fs (rq_state rq) = Some (RegularFile raw) \<and> fs (rq_journal rq) = None"

definition run_step :: "mig_env \<Rightarrow> mig_request \<Rightarrow> string \<Rightarrow> string \<Rightarrow> string \<Rightarrow> fsys \<Rightarrow> fsys \<Rightarrow> bool" where
  "run_step en rq dig raw desired fs fs' \<longleftrightarrow> upgrade_of en rq dig raw desired \<and> mig_step en rq fs fs'"

interpretation migration: safe_system "before_migration rq raw" "run_step en rq dig raw desired" "in_migration en rq dig raw desired"
  for en rq dig raw desired
proof
  fix fs fs' :: fsys
  show "in_migration en rq dig raw desired fs" if "before_migration rq raw fs"
    using that by (simp add: before_migration_def in_migration_def mig_inv_def v1_in_place_def migration_of_def)
  show "in_migration en rq dig raw desired fs'"
    if "in_migration en rq dig raw desired fs" "run_step en rq dig raw desired fs fs'"
    using that step_in_migration by (auto simp: run_step_def)
qed

lemma run_in_migration:
  assumes "upgrade_of en rq dig raw desired" and "before_migration rq raw fs" and "(mig_step en rq)\<^sup>*\<^sup>* fs fs'"
  shows "in_migration en rq dig raw desired fs'"
proof -
  have "run_step en rq dig raw desired = mig_step en rq" using assms(1) by (simp add: run_step_def fun_eq_iff)
  then show ?thesis using migration.reachable_good [OF assms(2), of en dig desired fs'] assms(3) by simp
qed

end
