(* ===== verification/State_Migration_Recovery.thy ===== *)
theory State_Migration_Recovery
  imports State_Migration_Runs
begin

text \<open>
  Runs that nothing disturbs: an attempt completes the migration, and a recovery ends it, forwards, or back with version 1
  in place for a person to look at.
\<close>

subsection \<open>Looking, when no call fails\<close>

lemma ends_look:
  assumes "ok P m (\<lambda>_ _. True)" and "reads m R" and "\<And>x fs. P fs \<Longrightarrow> R x fs \<Longrightarrow> ends P (f x) Q"
  shows "ends P (mbind m f) Q"
proof (rule ends_bind [OF ok_reads [OF assms(1,2)]])
  fix x
  show "ends (\<lambda>fs. P fs \<and> R x fs) (f x) Q"
    using assms(3) [of _ x] unfolding ends_def by blast
qed

lemma ends_guard: "e = None \<Longrightarrow> ends P m Q \<Longrightarrow> ends P (mbind (mguard e) (\<lambda>_. m)) Q"
  by (rule ends_look [OF ok_weaken [OF ok_guard] reads_guard]) simp_all

lemma bind_guard_None: "mbind (mguard None) f = f ()"
  by (rule ext) (simp add: mbind_def mguard_def mret_def)

lemma calm_chain:
  "ok (\<lambda>fs. \<forall>p\<in>set ps. fs p = Some Directory) (check_chain calm seen ps) (\<lambda>_ _. True)"
proof (induction ps arbitrary: seen)
  case (Cons p ps)
  let ?P = "\<lambda>fs. \<forall>p\<in>set (p # ps). fs p = Some Directory"
  have "ok ?P (mbind (look calm ''unsafe path ancestor'' (\<lambda>fs. if fs p = Some Directory then Inr () else Inl (MigError ''unsafe path ancestor'')))
        (\<lambda>_. check_chain calm (p # seen) ps)) (\<lambda>_ _. True)"
    by (rule ok_bind [OF ok_look [where Q = "\<lambda>_. ?P"] ok_weaken [OF Cons]]) simp_all
  then show ?case by (simp add: ok_ret)
qed (simp add: ok_ret)

lemma calm_paths:
  "ok (\<lambda>fs. \<forall>p\<in>set paths. \<forall>d\<in>set (ancestors (filepath_Dir p)). fs d = Some Directory) (check_paths calm seen paths) (\<lambda>_ _. True)"
proof (induction paths arbitrary: seen)
  case (Cons p ps)
  show ?case unfolding check_paths.simps
    by (rule ok_bind [OF ok_reads [OF ok_weaken [OF calm_chain] reads_chain] ok_weaken [OF Cons]]) simp_all
qed (simp add: ok_ret)

lemma calm_ancestors:
  "(\<And>fs p d. P fs \<Longrightarrow> p \<in> set paths \<Longrightarrow> d \<in> set (ancestors (filepath_Dir p)) \<Longrightarrow> fs d = Some Directory) \<Longrightarrow>
     ok P (validateMigrationMutationAncestors calm paths) (\<lambda>_ _. True)"
  unfolding validateMigrationMutationAncestors_def by (rule ok_weaken [OF calm_paths]) blast+

lemmas calm_defs = ok_def ends_def mbind_def os_Lstat_def os_ReadFile_def look_def calm_def tick_def mret_def mfail_def

lemma calm_exists: "(\<And>fs. P fs \<Longrightarrow> plain fs p) \<Longrightarrow> ok P (migrationPathExists calm p) (\<lambda>_ _. True)"
  by (fastforce simp: migrationPathExists_def calm_defs plain_cases split: option.splits node.splits)

lemma calm_inspect: "(\<And>fs. P fs \<Longrightarrow> plain fs p) \<Longrightarrow> ok P (inspectMigrationFile calm p) (\<lambda>_ _. True)"
  by (fastforce simp: inspectMigrationFile_def calm_defs plain_cases split: option.splits node.splits)

lemma calm_readRegular:
  "(\<And>fs. P fs \<Longrightarrow> \<exists>c. fs p = Some (RegularFile c)) \<Longrightarrow> ok P (readRegularMigrationFile calm p) (\<lambda>_ _. True)"
  by (fastforce simp: readRegularMigrationFile_def calm_defs)

lemma calm_secure: "(\<And>fs. P fs \<Longrightarrow> fs p \<noteq> None) \<Longrightarrow> ok P (secureMigrationFile calm p) (\<lambda>_ _. True)"
  unfolding secureMigrationFile_def os_Chmod_def by (rule ok_look) simp

subsection \<open>A situation whose directories are in place\<close>

definition sitd :: "StateMigrationJournal \<Rightarrow> node option \<Rightarrow> node option \<Rightarrow> node option \<Rightarrow> node option \<Rightarrow> fsys \<Rightarrow> bool" where
  "sitd j s b t js fs \<longleftrightarrow> sit j s b t js fs \<and> (\<forall>d\<in>set (dirs j). fs d = Some Directory)"

lemma sitd_other: "p \<notin> four j \<union> set (dirs j) \<Longrightarrow> sitd j s b t js fs \<Longrightarrow> sitd j s b t js (fs(p := x))"
  by (auto simp: sitd_def sit_def)

lemma sitd_sit: "sitd j s b t js fs \<Longrightarrow> sit j s b t js fs"
  by (simp add: sitd_def)

lemma sitd_moved:
  "sitd j s b t js fs \<Longrightarrow> fs p \<noteq> Some Directory \<Longrightarrow> sit j s' b' t' js' (fs(p := x)) \<Longrightarrow> sitd j s' b' t' js' (fs(p := x))"
  by (auto simp: sitd_def)

lemma calm_ancestors_sitd: "set paths \<subseteq> four j \<Longrightarrow> ok (sitd j s b t js) (validateMigrationMutationAncestors calm paths) (\<lambda>_ _. True)"
  by (rule calm_ancestors) (fastforce simp: sitd_def dirs_def state_paths_def)

text \<open>The contents as the situation has them.\<close>

lemma calm_inspect_all:
  "ok (sitd j (map_option RegularFile s) (map_option RegularFile b) (map_option RegularFile t) js) (inspect_all calm j) (\<lambda>_ _. True)"
proof -
  let ?P = "sitd j (map_option RegularFile s) (map_option RegularFile b) (map_option RegularFile t) js"
  have p: "plain fs (mj_SourcePath j)" "plain fs (mj_BackupPath j)" "plain fs (mj_TempPath j)" if "?P fs" for fs
    using that by (cases s; cases b; cases t; auto simp: sitd_def sit_def plain_cases)+
  show ?thesis unfolding inspect_all_def ok_def
    by (rule ends_look [OF calm_inspect reads_inspect], erule p, rule ends_look [OF calm_inspect reads_inspect], erule p,
        rule ends_look [OF calm_inspect reads_inspect], erule p) (simp add: ends_def mret_def)
qed

lemma sitd_content:
  assumes "sitd j (map_option RegularFile s) (map_option RegularFile b) (map_option RegularFile t) js fs"
  shows "content fs (mj_SourcePath j) = s" "content fs (mj_BackupPath j) = b" "content fs (mj_TempPath j) = t"
  using assms by (cases s; cases b; cases t; auto simp: sitd_def sit_def content_def)+

lemma calm_inputs:
  "ok (sitd j (map_option RegularFile s) (map_option RegularFile b) (map_option RegularFile t) js) (inputs_match calm j test) (\<lambda>_ _. True)"
  unfolding inputs_match_def ok_def
  by (rule ends_look [OF calm_ancestors_sitd reads_ancestors], simp add: state_paths_def,
      rule ends_look [OF calm_inspect_all reads_inspect_all]) (auto simp: ends_def mret_def split: prod.splits)

lemma ends_current:
  assumes "test s b t" and "ends (sitd j (map_option RegularFile s) (map_option RegularFile b) (map_option RegularFile t) js) m Q"
  shows "ends (sitd j (map_option RegularFile s) (map_option RegularFile b) (map_option RegularFile t) js)
     (if_current en calm j now (inputs_match calm j test) m) Q"
  unfolding if_current_def
  by (rule ends_look [OF calm_inputs reads_inputs]) (use assms in \<open>simp add: sitd_content\<close>)

subsection \<open>Changing files, when no call fails\<close>

lemma calm_write:
  assumes "p \<notin> four j \<union> set (dirs j)"
  shows "ok (sitd j s b t js) (write_temporary calm p c) (\<lambda>_ fs. sitd j s b t js fs \<and> fs p = Some (RegularFile c))"
proof -
  let ?W = "\<lambda>fs. sitd j s b t js fs \<and> fs p = Some (RegularFile c)"
  have call: "ok P (fd_call calm what) (\<lambda>_. P)" for P what unfolding fd_call_def by (rule ok_look) simp
  have sec: "ok ?W (secureMigrationFile calm p) (\<lambda>_. ?W)"
    unfolding secureMigrationFile_def os_Chmod_def by (rule ok_look) simp
  show ?thesis unfolding write_temporary_def
    by (rule ok_bind [OF call], rule ok_bind [OF ok_Write [where Q = "\<lambda>_. ?W"]], use sitd_other [OF assms] in simp,
        rule ok_bind [OF call], rule ok_bind [OF call], rule sec)
qed

lemma calm_via_temporary:
  assumes "\<And>fs. name fs \<notin> four j \<union> set (dirs j)" and "\<And>fs. G (name fs)"
    and "\<And>p. p \<notin> four j \<union> set (dirs j) \<Longrightarrow> G p \<Longrightarrow> ok (\<lambda>fs. sitd j s b t js fs \<and> fs p = Some (RegularFile c)) (final p) Q"
  shows "ok (sitd j s b t js) (via_temporary calm name c final) Q"
  unfolding via_temporary_def
proof (rule ok_bind [OF ok_CreateTemp [where Q = "\<lambda>p fs. sitd j s b t js fs \<and> p \<notin> four j \<union> set (dirs j) \<and> G p"]])
  show "sitd j s b t js (fs(name fs \<mapsto> RegularFile [])) \<and> name fs \<notin> four j \<union> set (dirs j) \<and> G (name fs)" if "sitd j s b t js fs" for fs
    using sitd_other [OF assms(1) that] assms(1,2) by blast
  fix p
  show "ok (\<lambda>fs. sitd j s b t js fs \<and> p \<notin> four j \<union> set (dirs j) \<and> G p)
      (on_error (mbind (write_temporary calm p c) (\<lambda>_. final p)) (os_Remove calm p)) Q"
  proof (cases "p \<notin> four j \<union> set (dirs j) \<and> G p")
    case False
    then show ?thesis by (auto simp: ok_def ends_def)
  next
    case True
    show ?thesis
      by (rule ok_weaken [OF ok_on_error [OF ok_bind [OF calm_write [OF conjunct1 [OF True]] assms(3) [OF conjunct1 [OF True] conjunct2 [OF True]]]]]) simp_all
  qed
qed

lemma calm_persist:
  assumes "describes en j raw desired" and "valid_at ph now j" and "js \<noteq> Some Directory"
  shows "ok (sitd j s b t js) (persistMigrationJournal en calm (at_phase ph now j)) (\<lambda>_. sitd j s b t (jnode en ph now j))"
proof -
  note d = describesD [OF assms(1)]
  let ?J = "mj_JournalPath j"
  have "ok (sitd j s b t js) (via_temporary calm (me_temp en (filepath_Dir ?J) (tmp_prefix ?J))
         (me_encodeJournal en (at_phase ph now j)) (\<lambda>path. os_Rename calm path ?J)) (\<lambda>_. sitd j s b t (jnode en ph now j))"
  proof (rule calm_via_temporary [OF d(10), where G = "\<lambda>_. True"])
    fix p assume p: "p \<notin> four j \<union> set (dirs j)"
    show "ok (\<lambda>fs. sitd j s b t js fs \<and> fs p = jnode en ph now j) (os_Rename calm p ?J) (\<lambda>_. sitd j s b t (jnode en ph now j))"
      unfolding os_Rename_def
    proof (rule ok_change)
      fix fs assume fs: "sitd j s b t js fs \<and> fs p = jnode en ph now j"
      then have "?J \<notin> set (dirs j)" using assms(3) by (auto simp: sitd_def sit_def)
      then show "\<exists>fs'. (if fs p = None \<or> fs ?J = Some Directory then None else Some (fs(?J := fs p, p := None))) = Some fs'
          \<and> sitd j s b t (jnode en ph now j) fs'"
        using fs p d(1-6) assms(3) by (auto simp: sitd_def sit_def)
    qed
  qed simp
  then show ?thesis
    using ends_guard assms(2) unfolding persistMigrationJournal_def ok_def by (simp add: valid_at_def tmp_prefix_def)
qed

lemma calm_mark:
  assumes "describes en j raw desired" and "valid_at PhaseNeedsReconciliation now j" and "js \<noteq> Some Directory"
  shows "ends (sitd j s b t js) (markMigrationNeedsReconciliation en calm j now)
     (\<lambda>r fs. r = Inl ErrStateMigrationNeedsReconciliation \<and> sitd j s b t (jnode en PhaseNeedsReconciliation now j) fs)"
  unfolding markMigrationNeedsReconciliation_def
  by (rule ends_bind [OF calm_persist [OF assms]], rule ends_fail) simp

lemma calm_change:
  assumes "sit j s b t js (fs :: fsys) \<Longrightarrow> g fs = Some (fs(p := x)) \<and> fs p \<noteq> Some Directory \<and> sit j s' b' t' js' (fs(p := x))"
    and "sitd j s b t js fs"
  shows "\<exists>fs'. g fs = Some fs' \<and> sitd j s' b' t' js' fs'"
  using assms sitd_moved [OF assms(2)] sitd_sit by blast

lemma calm_remove_temp:
  assumes "describes en j raw desired" and "is_desired en j (Some c)"
  shows "ok (sitd j s b (Some (RegularFile c)) js) (remove_temp en calm j) (\<lambda>_. sitd j s b None js)"
proof -
  note d = describesD [OF assms(1)]
  have rm: "ok (sitd j s b (Some (RegularFile c)) js) (os_Remove calm (mj_TempPath j)) (\<lambda>_. sitd j s b None js)"
    unfolding os_Remove_def
    by (rule ok_change, erule calm_change [rotated, where x = None and p = "mj_TempPath j"]) (use d(1-6) in \<open>auto simp: sit_def\<close>)
  show ?thesis unfolding remove_temp_def removeMigrationFileIfExact_def ok_def
    by (rule ends_look [OF calm_ancestors_sitd reads_ancestors], simp,
        rule ends_look [OF calm_inspect reads_inspect], simp add: sitd_def sit_def plain_cases,
        rule ends_guard [OF _ rm [unfolded ok_def]])
      (use assms(2) in \<open>simp add: sitd_def sit_def is_desired_def\<close>)
qed

lemma calm_link:
  assumes "{p, q} \<subseteq> four j" and "\<And>fs. sit j s b t js fs \<Longrightarrow> fs p \<noteq> None \<and> fs p \<noteq> Some Directory \<and> fs q = None \<and> sit j s' b' t' js' (fs(q := fs p))"
  shows "ok (sitd j s b t js) (linkMigrationExclusively calm p q) (\<lambda>_. sitd j s' b' t' js')"
  unfolding linkMigrationExclusively_def ok_def
proof (rule ends_look [OF calm_ancestors_sitd reads_ancestors])
  have "ok (sitd j s b t js) (os_Link calm p q) (\<lambda>_. sitd j s' b' t' js')"
    unfolding os_Link_def
  proof (rule ok_change)
    fix fs assume fs: "sitd j s b t js fs"
    note a = assms(2) [OF sitd_sit [OF fs]]
    show "\<exists>fs'. (if fs p = None \<or> fs p = Some Directory \<or> fs q \<noteq> None then None else Some (fs(q := fs p))) = Some fs'
        \<and> sitd j s' b' t' js' fs'"
      using a sitd_moved [OF fs, of q] by auto
  qed
  then show "ends (sitd j s b t js) (os_Link calm p q) (\<lambda>r fs. \<exists>x. r = Inr x \<and> sitd j s' b' t' js' fs)"
    by (simp add: ok_def)
qed (use assms(1) in auto)

lemma calm_commit:
  assumes "describes en j raw desired"
  shows "ok (sitd j None b (Some (RegularFile desired)) js) (commitMigrationTempExclusively calm (mj_TempPath j) (mj_SourcePath j))
     (\<lambda>_. sitd j (Some (RegularFile desired)) b None js)"
proof -
  note d = describesD [OF assms]
  have rm: "ok (sitd j (Some (RegularFile desired)) b (Some (RegularFile desired)) js) (os_Remove calm (mj_TempPath j))
      (\<lambda>_. sitd j (Some (RegularFile desired)) b None js)"
    unfolding os_Remove_def
    by (rule ok_change, erule calm_change [rotated, where x = None and p = "mj_TempPath j"]) (use d(1-6) in \<open>auto simp: sit_def\<close>)
  show ?thesis unfolding commitMigrationTempExclusively_def
    by (rule ok_bind [OF calm_link rm]) (use d(1-6) in \<open>auto simp: sit_def\<close>)
qed

lemma calm_committed_files:
  assumes "describes en j raw desired"
  shows "ok (sitd j (Some (RegularFile desired)) (Some (RegularFile raw)) None js) (validateCommittedMigrationFiles en calm j) (\<lambda>_ _. True)"
proof -
  note d = describesD [OF assms]
  let ?P = "sitd j (Some (RegularFile desired)) (Some (RegularFile raw)) None js"
  have p: "plain fs (mj_SourcePath j)" "plain fs (mj_BackupPath j)" "plain fs (mj_TempPath j)" if "?P fs" for fs
    using that by (auto simp: sitd_def sit_def plain_cases)
  have c: "content fs (mj_SourcePath j) = Some desired" "content fs (mj_BackupPath j) = Some raw" "content fs (mj_TempPath j) = None" if "?P fs" for fs
    using that by (auto simp: sitd_def sit_def)
  show ?thesis unfolding validateCommittedMigrationFiles_def ok_def
    by (rule ends_look [OF calm_ancestors_sitd reads_ancestors], simp add: state_paths_def,
        rule ends_look [OF calm_inspect reads_inspect], erule p, rule ends_guard, simp add: c d(8),
        rule ends_look [OF calm_inspect reads_inspect], erule p, rule ends_guard, simp add: c d(7),
        rule ends_look [OF calm_inspect reads_inspect], erule p) (simp add: c ends_def mguard_def mret_def)
qed

lemma calm_record:
  assumes "describes en j raw desired" and "valid_at PhaseCommitted now j" and "js \<noteq> Some Directory"
  shows "ok (sitd j (Some (RegularFile desired)) (Some (RegularFile raw)) None js) (record_committed en calm j now)
     (\<lambda>_ fs. committed en j raw desired fs \<and> (\<forall>d\<in>set (dirs j). fs d = Some Directory))"
  unfolding record_committed_def
  by (rule ok_bind [OF ok_reads [OF calm_committed_files [OF assms(1)] reads_committed_files]],
      rule ok_weaken [OF calm_persist [OF assms]])
    (use assms(2) in \<open>auto simp: sitd_def sit_def committed_def journal_at_def\<close>)

lemma calm_restore:
  assumes "describes en j raw desired"
  shows "ok (sitd j None (Some (RegularFile raw)) t js) (restoreMigrationSourceFromBackup en calm j)
     (\<lambda>_. sitd j (Some (RegularFile raw)) (Some (RegularFile raw)) t js)"
proof -
  note d = describesD [OF assms]
  let ?S = "mj_SourcePath j"
  let ?B = "sitd j None (Some (RegularFile raw)) t js"
  let ?A = "sitd j (Some (RegularFile raw)) (Some (RegularFile raw)) t js"
  have final: "ok (\<lambda>fs. ?B fs \<and> fs p = Some (RegularFile raw)) (commitMigrationTempExclusively calm p ?S) (\<lambda>_. ?A)"
    if p: "p \<notin> four j \<union> set (dirs j)" and e: "filepath_Dir p = filepath_Dir ?S" for p
  proof -
    have up: "ok (\<lambda>fs. ?B fs \<and> fs p = Some (RegularFile raw)) (validateMigrationMutationAncestors calm [p, ?S]) (\<lambda>_ _. True)"
      by (rule calm_ancestors) (auto simp: sitd_def dirs_def state_paths_def e)
    have link: "ok (\<lambda>fs. ?B fs \<and> fs p = Some (RegularFile raw)) (os_Link calm p ?S) (\<lambda>_ fs. ?A fs \<and> fs p = Some (RegularFile raw))"
      unfolding os_Link_def by (rule ok_change) (use p d(1-6) in \<open>auto simp: sitd_def sit_def\<close>)
    have rm: "ok (\<lambda>fs. ?A fs \<and> fs p = Some (RegularFile raw)) (os_Remove calm p) (\<lambda>_. ?A)"
      unfolding os_Remove_def by (rule ok_change) (use sitd_other [OF p] in auto)
    show ?thesis unfolding commitMigrationTempExclusively_def linkMigrationExclusively_def
      by (rule ok_bind [OF ok_bind [OF ok_weaken [OF ok_reads [OF up reads_ancestors]] link] rm]) simp_all
  qed
  have via: "ok ?B (via_temporary calm (me_temp en (filepath_Dir ?S) (restore_prefix ?S)) raw
      (\<lambda>path. commitMigrationTempExclusively calm path ?S)) (\<lambda>_. ?A)"
    by (rule calm_via_temporary [where G = "\<lambda>p. filepath_Dir p = filepath_Dir ?S", OF d(11,13) final])
  show ?thesis unfolding restoreMigrationSourceFromBackup_def ok_def
  proof (rule ends_look [OF calm_exists reads_exists])
    show "ends ?B (mbind (mguard (if e then Some (MigError ''source appeared during recovery'') else None)) (\<lambda>_.
     mbind (secureMigrationFile calm (mj_BackupPath j)) (\<lambda>_.
     mbind (readRegularMigrationFile calm (mj_BackupPath j)) (\<lambda>backup.
     mbind (mguard (if is_source en j (Some backup) then None
                    else Some (MigError ''preserved v1 hash or size mismatch''))) (\<lambda>_.
     via_temporary calm (me_temp en (filepath_Dir ?S) (''.'' @ filepath_Base ?S @ ''.restore-''))
       backup (\<lambda>path. commitMigrationTempExclusively calm path ?S)))))) (\<lambda>r fs. \<exists>x. r = Inr x \<and> ?A fs)"
      if "?B fs" "plain fs ?S \<and> e = (fs ?S \<noteq> None)" for fs e
    proof -
      have e: "\<not> e" using that by (simp add: sitd_def sit_def)
      show ?thesis
      proof (rule ends_guard, simp add: e, rule ends_look [OF calm_secure reads_secure], simp add: sitd_def sit_def,
          rule ends_look [OF calm_readRegular reads_readRegular], simp add: sitd_def sit_def)
        fix backup and fs :: fsys
        assume "?B fs" "fs (mj_BackupPath j) = Some (RegularFile backup)"
        then have "backup = raw" by (simp add: sitd_def sit_def)
        then show "ends ?B (mbind (mguard (if is_source en j (Some backup) then None
                    else Some (MigError ''preserved v1 hash or size mismatch''))) (\<lambda>_.
             via_temporary calm (me_temp en (filepath_Dir ?S) (''.'' @ filepath_Base ?S @ ''.restore-''))
               backup (\<lambda>path. commitMigrationTempExclusively calm path ?S))) (\<lambda>r fs. \<exists>x. r = Inr x \<and> ?A fs)"
          using via d(7) by (simp add: ok_def restore_prefix_def bind_guard_None)
      qed
    qed
  qed (simp add: sitd_def sit_def plain_cases)
qed

subsection \<open>An undisturbed recovery\<close>

text \<open>The two ways a recovery ends.\<close>

definition concluded :: "mig_env \<Rightarrow> StateMigrationJournal \<Rightarrow> string \<Rightarrow> string \<Rightarrow> mig_error + unit \<Rightarrow> fsys \<Rightarrow> bool" where
  "concluded en j raw desired r fs \<longleftrightarrow>
     r = Inr () \<and> committed en j raw desired fs
     \<or> r = Inl ErrStateMigrationNeedsReconciliation \<and> fs (mj_SourcePath j) = Some (RegularFile raw)
        \<and> journal_at en j [PhaseNeedsReconciliation] fs"

lemma valid_later:
  assumes "valid_at ph t j" and "ph' \<in> set all_phases" and "\<not> IsZero t'"
  shows "valid_at ph' t' j"
proof -
  have paths: "validateMigrationPaths (mj_SourcePath j) (mj_BackupPath j) (mj_TempPath j) (mj_JournalPath j) = None"
    using assms(1) by (auto simp: valid_at_def validateMigrationJournal_def split: if_splits)
  show ?thesis using assms
    by (auto simp: valid_at_def validateMigrationJournal_def at_phase_def paths split: if_splits StateMigrationPhase.splits)
qed

lemma ends_mark:
  assumes "describes en j raw desired" and "valid_at ph t j" and "\<not> IsZero now"
  shows "ends (sitd j (Some (RegularFile raw)) b c (jnode en ph t j)) (markMigrationNeedsReconciliation en calm j now) (concluded en j raw desired)"
proof -
  have v: "valid_at PhaseNeedsReconciliation now j" using valid_later [OF assms(2) _ assms(3)] by simp
  show ?thesis
    by (rule ends_weaken [OF calm_mark [OF assms(1) v, of "jnode en ph t j"]]) (use v in \<open>auto simp: sitd_def sit_def concluded_def journal_at_def\<close>)
qed

lemma conclude_v1:
  assumes "describes en j raw desired" and "valid_at (mj_Phase j) t j" and "\<not> IsZero now"
  shows "ends (sitd j (Some (RegularFile raw)) (map_option RegularFile b) (map_option RegularFile c) (jnode en (mj_Phase j) t j))
     (recover_phase en calm j now (Some raw, b, c)) (concluded en j raw desired)"
proof -
  note d = describesD [OF assms(1)]
  note mark = ends_mark [OF assms]
  have "ends (sitd j (Some (RegularFile raw)) (map_option RegularFile b) (map_option RegularFile c) (jnode en (mj_Phase j) t j))
     (recover_prepared en calm j now (Some raw, b, c)) (concluded en j raw desired)"
  proof (cases "b = None \<and> is_desired en j c")
    case True
    then obtain c' where c': "c = Some c'" by (cases c) (auto simp: is_desired_def info_matches_def)
    let ?P = "sitd j (Some (RegularFile raw)) None (Some (RegularFile c')) (jnode en (mj_Phase j) t j)"
    have rm: "ok ?P (remove_temp en calm j) (\<lambda>_. sitd j (Some (RegularFile raw)) None None (jnode en (mj_Phase j) t j))"
      using calm_remove_temp [OF assms(1)] True c' by simp
    have "ends ?P (mbind (secureMigrationFile calm (mj_SourcePath j)) (\<lambda>_.
             mbind (remove_temp en calm j) (\<lambda>_. markMigrationNeedsReconciliation en calm j now))) (concluded en j raw desired)"
      by (rule ends_look [OF calm_secure reads_secure], simp add: sitd_def sit_def, rule ends_bind [OF rm mark])
    then show ?thesis using True d(7,9) c'
        ends_current [where s = "Some raw" and b = None and t = c and j = j and js = "jnode en (mj_Phase j) t j" and en = en and now = now
          and test = "\<lambda>source backup temp. is_source en j source \<and> backup = None \<and> is_desired en j temp"]
      by (simp add: recover_prepared_def migrationRollbackInputsMatch_def)
  next
    case False
    then have "recover_prepared en calm j now (Some raw, b, c) = markMigrationNeedsReconciliation en calm j now"
      using d(9) by (auto simp: recover_prepared_def)
    then show ?thesis using mark by simp
  qed
  moreover have "recover_renamed en calm j now (Some raw, b, c) = markMigrationNeedsReconciliation en calm j now"
    "recover_committed en calm j now (Some raw, b, c) = markMigrationNeedsReconciliation en calm j now"
    using d(9) by (auto simp: recover_renamed_def recover_committed_def)
  ultimately show ?thesis using mark by (auto simp: recover_phase_def split: StateMigrationPhase.splits)
qed

lemma conclude_between:
  assumes "describes en j raw desired" and "valid_at (mj_Phase j) t j" and "\<not> IsZero now"
    and "mj_Phase j \<in> {PhasePrepared, PhaseBackupRenamed}"
  shows "ends (sitd j None (Some (RegularFile raw)) (Some (RegularFile desired)) (jnode en (mj_Phase j) t j))
     (recover_phase en calm j now (None, Some raw, Some desired)) (concluded en j raw desired)"
proof -
  note d = describesD [OF assms(1)]
  let ?P = "sitd j None (Some (RegularFile raw)) (Some (RegularFile desired)) (jnode en (mj_Phase j) t j)"
  have v: "valid_at PhaseCommitted now j" using valid_later [OF assms(2) _ assms(3)] by simp
  have "ends ?P (mbind (restoreMigrationSourceFromBackup en calm j) (\<lambda>_.
             mbind (remove_temp en calm j) (\<lambda>_. markMigrationNeedsReconciliation en calm j now))) (concluded en j raw desired)"
    by (rule ends_bind [OF calm_restore [OF assms(1)]], rule ends_bind [OF calm_remove_temp [OF assms(1) d(8)]],
        rule ends_mark [OF assms(1-3)])
  moreover have "ends ?P (mbind (secureMigrationFile calm (mj_BackupPath j)) (\<lambda>_.
             mbind (commitMigrationTempExclusively calm (mj_TempPath j) (mj_SourcePath j)) (\<lambda>_.
             record_committed en calm j now))) (concluded en j raw desired)"
    by (rule ends_look [OF calm_secure reads_secure], simp add: sitd_def sit_def, rule ends_bind [OF calm_commit [OF assms(1)]],
        rule ends_ok [OF calm_record [OF assms(1) v]]) (simp_all add: concluded_def)
  ultimately show ?thesis using assms(4) d(7,8)
      ends_current [where s = None and b = "Some raw" and t = "Some desired" and j = j and js = "jnode en (mj_Phase j) t j" and en = en and now = now
          and test = "\<lambda>source backup temp. source = None \<and> is_source en j backup \<and> is_desired en j temp"]
    by (auto simp: recover_phase_def recover_prepared_def recover_renamed_def migrationRecoveryCommitInputsMatch_def
        is_desired_def is_source_def info_matches_def)
qed

lemma conclude_v2:
  assumes "describes en j raw desired" and "valid_at (mj_Phase j) t j" and "\<not> IsZero now"
    and "mj_Phase j = PhaseBackupRenamed \<and> c \<in> {None, Some desired} \<or> mj_Phase j = PhaseCommitted \<and> c = None"
  shows "ends (sitd j (Some (RegularFile desired)) (Some (RegularFile raw)) (map_option RegularFile c) (jnode en (mj_Phase j) t j))
     (recover_phase en calm j now (Some desired, Some raw, c)) (concluded en j raw desired)"
proof -
  note d = describesD [OF assms(1)]
  let ?P = "sitd j (Some (RegularFile desired)) (Some (RegularFile raw)) (map_option RegularFile c) (jnode en (mj_Phase j) t j)"
  let ?N = "sitd j (Some (RegularFile desired)) (Some (RegularFile raw)) None (jnode en (mj_Phase j) t j)"
  have v: "valid_at PhaseCommitted now j" using valid_later [OF assms(2) _ assms(3)] by simp
  have secure: "ends ?P (mbind (secure_both calm j) (\<lambda>_. m)) Q" if "ends ?P m Q" for m Q
  proof -
    have "ok ?P (secure_both calm j) (\<lambda>_ _. True)" "reads (secure_both calm j) (\<lambda>_ _. True)"
      unfolding secure_both_def ok_def
      by (rule ends_look [OF calm_secure reads_secure], simp add: sitd_def sit_def, rule calm_secure [unfolded ok_def], simp add: sitd_def sit_def)
        (rule reads_bind [OF reads_secure], rule reads_weaken [OF reads_secure], simp)
    then show ?thesis using that by (rule ends_look)
  qed
  have current: "ends ?P (if_current en calm j now (inputs_match calm j test) (mbind (secure_both calm j) (\<lambda>_. m))) Q"
    if "test (Some desired) (Some raw) c" "ends ?P m Q" for test m Q
    using ends_current [where test = test and s = "Some desired" and b = "Some raw" and t = c] secure [OF that(2)] that(1) by simp
  have rec: "ends ?N (record_committed en calm j now) (concluded en j raw desired)"
    by (rule ends_ok [OF calm_record [OF assms(1) v]]) (simp_all add: concluded_def)
  have "ends ?N (validateCommittedMigrationFiles en calm j) (concluded en j raw desired)" if "mj_Phase j = PhaseCommitted"
    by (rule ends_ok [OF ok_reads [OF calm_committed_files [OF assms(1)] reads_committed_files]])
      (use assms(2) that in \<open>auto simp: concluded_def committed_def sitd_def sit_def journal_at_def\<close>)
  moreover have "ends ?P (mbind (remove_temp en calm j) (\<lambda>_. record_committed en calm j now)) (concluded en j raw desired)" if "c = Some desired"
    using ends_bind [OF calm_remove_temp [OF assms(1) d(8)] rec] that by simp
  ultimately show ?thesis using assms(4) d(7,8) rec
      current [of "\<lambda>source backup temp. is_desired en j source \<and> is_source en j backup \<and> temp = None" _ "concluded en j raw desired"]
      current [of "\<lambda>source backup temp. is_desired en j source \<and> is_source en j backup \<and> is_desired en j temp" _ "concluded en j raw desired"]
    by (elim disjE conjE)
      (auto simp: recover_phase_def recover_renamed_def recover_committed_def migrationCommittedStateMatches_def migrationCommittedInputsMatch_def)
qed

lemma conclude_phase:
  assumes "describes en j raw desired" and "mig_inv en j raw desired fs"
    and "fs (mj_JournalPath j) = jnode en (mj_Phase j) (mj_UpdatedAt j) j"
    and "\<forall>d\<in>set (dirs j). fs d = Some Directory" and "\<not> IsZero now"
  shows "ends (\<lambda>fs'. fs' = fs) (recover_phase en calm j now (content fs (mj_SourcePath j), content fs (mj_BackupPath j), content fs (mj_TempPath j)))
     (concluded en j raw desired)"
proof -
  have same: "mj_Phase j \<in> set phs \<and> valid_at (mj_Phase j) (mj_UpdatedAt j) j" if "journal_at en j phs fs" for phs
    using journal_now [OF assms(1) that assms(3)] .
  have here: "sitd j (fs (mj_SourcePath j)) (fs (mj_BackupPath j)) (fs (mj_TempPath j)) (jnode en (mj_Phase j) (mj_UpdatedAt j) j) fs"
    using assms(3,4) by (simp add: sitd_def sit_def)
  consider (v1) "v1_in_place en j raw fs" | (between) "between en j raw desired fs" | (v2) "v2_in_place en j raw desired fs"
    using assms(2) by (auto simp: mig_inv_def)
  then show ?thesis
  proof cases
    case v1
    then have s: "fs (mj_SourcePath j) = Some (RegularFile raw)" and ph: "journal_at en j all_phases fs"
      and p: "plain fs (mj_BackupPath j)" "plain fs (mj_TempPath j)"
      using assms(3) by (auto simp: v1_in_place_def)
    obtain b c where t: "fs (mj_BackupPath j) = map_option RegularFile b" "content fs (mj_BackupPath j) = b"
      "fs (mj_TempPath j) = map_option RegularFile c" "content fs (mj_TempPath j) = c"
      using p unfolding plain_def by blast
    have cs: "content fs (mj_SourcePath j) = Some raw" using s by simp
    show ?thesis unfolding t(2,4) cs
      by (rule ends_weaken [OF conclude_v1 [OF assms(1) conjunct2 [OF same [OF ph]] assms(5)]]) (use here s t(1,3) in simp_all)
  next
    case between
    then have ph: "journal_at en j [PhasePrepared, PhaseBackupRenamed] fs" by (simp add: between_def)
    have f: "fs (mj_SourcePath j) = None" "fs (mj_BackupPath j) = Some (RegularFile raw)" "fs (mj_TempPath j) = Some (RegularFile desired)"
      using between by (simp_all add: between_def)
    have cs: "content fs (mj_SourcePath j) = None" "content fs (mj_BackupPath j) = Some raw" "content fs (mj_TempPath j) = Some desired"
      using f by simp_all
    show ?thesis unfolding cs
      by (rule ends_weaken [OF conclude_between [OF assms(1) conjunct2 [OF same [OF ph]] assms(5)]]) (use same [OF ph] here f in simp_all)
  next
    case v2
    then have s: "fs (mj_SourcePath j) = Some (RegularFile desired)" "fs (mj_BackupPath j) = Some (RegularFile raw)"
      by (simp_all add: v2_in_place_def)
    obtain c where c: "fs (mj_TempPath j) = map_option RegularFile c" "content fs (mj_TempPath j) = c"
      using v2 that [of None] that [of "Some desired"] by (auto simp: v2_in_place_def)
    have ph: "journal_at en j [PhaseBackupRenamed, PhaseCommitted] fs" using v2 by (auto simp: v2_in_place_def journal_at_def)
    have "mj_Phase j = PhaseBackupRenamed \<and> c \<in> {None, Some desired} \<or> mj_Phase j = PhaseCommitted \<and> c = None"
      using v2 same [of "[PhaseBackupRenamed]"] same [of "[PhaseCommitted]"] c(1) by (cases c) (auto simp: v2_in_place_def)
    note concl = conclude_v2 [OF assms(1) conjunct2 [OF same [OF ph]] assms(5) this]
    have cs: "content fs (mj_SourcePath j) = Some desired" "content fs (mj_BackupPath j) = Some raw" using s by simp_all
    show ?thesis unfolding cs c(2) by (rule ends_weaken [OF concl]) (use s c(1) here in simp_all)
  qed
qed

lemma ends_exact: "(\<And>fs. P fs \<Longrightarrow> ends (\<lambda>fs'. fs' = fs) m Q) \<Longrightarrow> ends P m Q"
  unfolding ends_def by blast

text \<open>Only version 1 in place is ever left to a person.\<close>

lemma only_reconciled:
  assumes "describes en j raw desired" and "mig_inv en j raw desired fs"
    and "fs (mj_JournalPath j) = jnode en PhaseNeedsReconciliation t j" and "valid_at PhaseNeedsReconciliation t j"
  shows "fs (mj_SourcePath j) = Some (RegularFile raw)" "journal_at en j [PhaseNeedsReconciliation] fs"
proof -
  have "PhaseNeedsReconciliation \<in> set phs" if "journal_at en j phs fs" for phs
  proof -
    note at = that
    obtain ph u where "ph \<in> set phs" "me_encodeJournal en (at_phase ph u j) = me_encodeJournal en (at_phase PhaseNeedsReconciliation t j)"
      using at assms(3) by (auto simp: journal_at_def)
    moreover from this(2) have "at_phase ph u j = at_phase PhaseNeedsReconciliation t j"
      using describesD(12) [OF assms(1)] by (metis option.inject)
    ultimately show ?thesis by (metis at_phase_sel(5))
  qed
  from this [of "[PhasePrepared, PhaseBackupRenamed]"] this [of "[PhaseBackupRenamed]"] this [of "[PhaseCommitted]"]
  show "fs (mj_SourcePath j) = Some (RegularFile raw)"
    using assms(2) by (auto simp: mig_inv_def v1_in_place_def between_def v2_in_place_def)
  show "journal_at en j [PhaseNeedsReconciliation] fs" using assms(3,4) by (auto simp: journal_at_def)
qed

lemma recover_concludes:
  assumes "describes en j raw desired" and "\<not> IsZero now"
  shows "ends (\<lambda>fs. mig_inv en j raw desired fs \<and> fs (mj_JournalPath j) \<noteq> None \<and> (\<forall>d\<in>set (dirs j). fs d = Some Directory))
     (RecoverStateMigration en calm (mj_JournalPath j) now) (concluded en j raw desired)"
proof (rule ends_exact)
  fix fs assume fs: "mig_inv en j raw desired fs \<and> fs (mj_JournalPath j) \<noteq> None \<and> (\<forall>d\<in>set (dirs j). fs d = Some Directory)"
  let ?J = "mj_JournalPath j"
  have at: "journal_at en j all_phases fs" using fs by (auto simp: mig_inv_defs)
  then obtain ph t where ph: "ph \<in> set all_phases" "valid_at ph t j" "fs ?J = jnode en ph t j" unfolding journal_at_def by blast
  define j1 where "j1 = at_phase ph t j"
  have d1: "describes en j1 raw desired" using assms(1) by (simp add: j1_def at_phase_describes)
  have inv1: "mig_inv en j1 raw desired fs" using fs by (simp add: j1_def at_phase_inv)
  have same: "concluded en j1 raw desired = concluded en j raw desired"
    by (intro ext) (simp add: concluded_def j1_def at_phase_inv journal_at_def)
  have v1: "validateMigrationJournal j1 ?J = None" using ph(2) by (simp add: j1_def valid_at_def)
  have pathJ: "validateMigrationPath ?J = None"
    using v1 by (auto simp: validateMigrationJournal_def validateMigrationPaths_def j1_def split: if_splits)
  have load: "ok (\<lambda>fs'. fs' = fs) (loadMigrationJournal en calm ?J) (\<lambda>_ _. True)"
    using ph(3) describesD(12) [OF assms(1)] by (auto simp: loadMigrationJournal_def calm_defs)
  have anc: "ok (\<lambda>fs'. fs' = fs) (validateMigrationMutationAncestors calm (state_paths j1 @ [mj_JournalPath j1])) (\<lambda>_ _. True)"
    by (rule calm_ancestors) (use fs in \<open>auto simp: dirs_def state_paths_def j1_def\<close>)
  have plain: "plain fs (mj_SourcePath j1)" "plain fs (mj_BackupPath j1)" "plain fs (mj_TempPath j1)"
    using fs by (auto simp: j1_def mig_inv_def v1_in_place_def between_def v2_in_place_def plain_cases)
  have insp: "ok (\<lambda>fs'. fs' = fs) (inspect_all calm j1) (\<lambda>_ _. True)"
    unfolding inspect_all_def ok_def
    by (rule ends_look [OF calm_inspect reads_inspect], simp add: plain, rule ends_look [OF calm_inspect reads_inspect], simp add: plain,
        rule ends_look [OF calm_inspect reads_inspect], simp add: plain) (simp add: ends_def mret_def)
  have body: "ends (\<lambda>fs'. fs' = fs) (if mj_Phase j1 = PhaseNeedsReconciliation then mfail ErrStateMigrationNeedsReconciliation
     else mbind (inspect_all calm j1) (\<lambda>files. recover_phase en calm j1 now files)) (concluded en j1 raw desired)"
  proof (cases "mj_Phase j1 = PhaseNeedsReconciliation")
    case True
    have "fs (mj_SourcePath j) = Some (RegularFile raw)" "journal_at en j [PhaseNeedsReconciliation] fs"
      using only_reconciled [OF assms(1)] fs ph True by (auto simp: j1_def)
    then show ?thesis using True same by (auto simp: concluded_def intro: ends_fail)
  next
    case False
    have "ends (\<lambda>fs'. fs' = fs) (recover_phase en calm j1 now files) (concluded en j1 raw desired)"
      if "files = (content fs (mj_SourcePath j1), content fs (mj_BackupPath j1), content fs (mj_TempPath j1))" for files
      using conclude_phase [OF d1 inv1 _ _ assms(2)] ph(3) fs that by (simp add: j1_def dirs_def state_paths_def at_phase_def)
    then show ?thesis using False ends_look [OF insp reads_inspect_all] by auto
  qed
  show "ends (\<lambda>fs'. fs' = fs) (RecoverStateMigration en calm ?J now) (concluded en j raw desired)"
    unfolding RecoverStateMigration_def same [symmetric]
  proof (rule ends_guard [OF pathJ], rule ends_look [OF load reads_load])
    fix j2 fs' assume "fs' = fs" "\<exists>c. fs' ?J = Some (RegularFile c) \<and> me_decodeJournal en c = Some j2"
    then have "j2 = j1" using ph(3) describesD(12) [OF assms(1)] by (auto simp: j1_def)
    then show "ends (\<lambda>fs'. fs' = fs) (mbind (mguard (validateMigrationJournal j2 ?J)) (\<lambda>_.
         mbind (validateMigrationMutationAncestors calm (state_paths j2 @ [mj_JournalPath j2])) (\<lambda>_.
         if mj_Phase j2 = PhaseNeedsReconciliation then mfail ErrStateMigrationNeedsReconciliation
         else mbind (inspect_all calm j2) (\<lambda>files. recover_phase en calm j2 now files)))) (concluded en j1 raw desired)"
      using ends_guard [OF v1 ends_look [OF anc reads_ancestors body]] by (simp only:)
  qed
qed

text \<open>The directories of a request: those above the state file and above the journal.\<close>

definition directories_in_place :: "mig_request \<Rightarrow> fsys \<Rightarrow> bool" where
  "directories_in_place rq fs \<longleftrightarrow>
     list_all (\<lambda>d. fs d = Some Directory) (ancestors (filepath_Dir (rq_state rq)) @ ancestors (filepath_Dir (rq_journal rq)))"

lemma Dir_backup: "filepath_Dir (p @ ''.v1'') = filepath_Dir p"
  by (simp add: filepath_Dir_def)

lemma dirs_of_request:
  assumes "upgrade_of en rq dig raw desired" and "directories_in_place rq fs"
  shows "\<forall>d\<in>set (dirs (migration_of en rq dig raw desired fs1 t)). fs d = Some Directory"
  using assms by (auto simp: dirs_def state_paths_def migration_of_def upgrade_of_def upgrade_def Dir_backup
      directories_in_place_def list_all_iff)

subsection \<open>An undisturbed attempt\<close>

lemma calm_expect:
  assumes "describes en j raw desired"
  shows "ok (sitd j (Some (RegularFile raw)) b t js) (expect_source en calm j msg) (\<lambda>_ _. True)"
  unfolding expect_source_def ok_def
  by (rule ends_look [OF calm_inspect reads_inspect], simp add: sitd_def sit_def plain_cases)
    (use describesD(7) [OF assms] in \<open>simp add: sitd_def sit_def ends_def mguard_def mret_def\<close>)

lemma calm_preserve:
  assumes "describes en j raw desired"
  shows "ok (sitd j (Some (RegularFile raw)) None t js) (preserveMigrationSourceExclusively en calm j)
     (\<lambda>_. sitd j None (Some (RegularFile raw)) t js)"
proof -
  note d = describesD [OF assms]
  let ?B = "sitd j (Some (RegularFile raw)) None t js"
  let ?M = "sitd j (Some (RegularFile raw)) (Some (RegularFile raw)) t js"
  have link: "ok ?B (linkMigrationExclusively calm (mj_SourcePath j) (mj_BackupPath j)) (\<lambda>_. ?M)"
    by (rule calm_link) (use d(1-6) in \<open>auto simp: sit_def\<close>)
  have rm: "ends ?M (os_Remove calm (mj_SourcePath j)) (\<lambda>r fs. \<exists>x. r = Inr x \<and> sitd j None (Some (RegularFile raw)) t js fs)"
    unfolding os_Remove_def ok_def [symmetric]
    by (rule ok_change, erule calm_change [rotated, where x = None and p = "mj_SourcePath j"]) (use d(1-6) in \<open>auto simp: sit_def\<close>)
  have absent: "\<not> x" if "?B fs" "plain fs (mj_BackupPath j) \<and> x = (fs (mj_BackupPath j) \<noteq> None)" for x fs
    using that by (simp add: sitd_def sit_def)
  have guard: "(if x then Some (MigError ''v1 backup already exists'') else None) = None" if "\<not> x" for x using that by simp
  show ?thesis unfolding preserveMigrationSourceExclusively_def ok_def
    by (rule ends_look [OF calm_ancestors_sitd reads_ancestors], simp, rule ends_look [OF calm_expect [OF assms] reads_expect_source],
        rule ends_look [OF calm_exists reads_exists], simp add: sitd_def sit_def plain_cases,
        rule ends_guard [OF guard], erule (1) absent, rule ends_bind [OF link],
        rule ends_look [OF calm_expect [OF assms] reads_expect_source], rule ends_look [OF calm_ancestors_sitd reads_ancestors], simp,
        rule ends_look [OF calm_expect [OF assms] reads_expect_source], rule rm)
qed

lemma calm_backup:
  assumes "describes en j raw desired"
  shows "ok (sitd j None (Some (RegularFile raw)) t js) (validateMigrationBackupAfterRename en calm j) (\<lambda>_. sitd j None (Some (RegularFile raw)) t js)"
  unfolding validateMigrationBackupAfterRename_def ok_def
  by (rule ends_look [OF calm_ancestors_sitd reads_ancestors], simp add: state_paths_def,
      rule ends_look [OF calm_inspect reads_inspect], simp add: sitd_def sit_def plain_cases)
    (use describesD(7) [OF assms] in \<open>simp add: sitd_def sit_def ends_def mret_def\<close>)

lemma calm_replace:
  assumes "describes en j raw desired" and "valid_at PhasePrepared now j" and "\<not> IsZero now"
  shows "ok (sitd j (Some (RegularFile raw)) None (Some (RegularFile desired)) (jnode en PhasePrepared now j)) (replace_state en calm j now)
     (\<lambda>_ fs. committed en j raw desired fs \<and> (\<forall>d\<in>set (dirs j). fs d = Some Directory))"
proof -
  have v: "valid_at PhaseBackupRenamed now j" "valid_at PhaseCommitted now j" using valid_later [OF assms(2) _ assms(3)] by simp_all
  show ?thesis unfolding replace_state_def ok_def
    by (rule ends_bind [OF calm_preserve [OF assms(1)]], rule ends_look [OF calm_secure reads_secure], simp add: sitd_def sit_def,
        rule ends_bind [OF calm_persist [OF assms(1) v(1)]], simp, rule ends_bind [OF calm_backup [OF assms(1)]],
        rule ends_bind [OF calm_commit [OF assms(1)]], rule calm_record [OF assms(1) v(2), unfolded ok_def]) simp
qed

lemma calm_own_temporary:
  assumes "describes en j raw desired"
  shows "ok (sitd j s b (Some (RegularFile c)) js) (write_temporary calm (mj_TempPath j) desired) (\<lambda>_. sitd j s b (Some (RegularFile desired)) js)"
proof -
  let ?A = "sitd j s b (Some (RegularFile desired)) js"
  have call: "ok P (fd_call calm what) (\<lambda>_. P)" for P what unfolding fd_call_def by (rule ok_look) simp
  have wr: "?A (fs(mj_TempPath j \<mapsto> RegularFile desired))" if "sitd j s b (Some (RegularFile c)) js fs" for fs
    by (rule sitd_moved [OF that]) (use that describesD(1-6) [OF assms] in \<open>auto simp: sitd_def sit_def\<close>)
  have sec: "ok ?A (secureMigrationFile calm (mj_TempPath j)) (\<lambda>_. ?A)"
    unfolding secureMigrationFile_def os_Chmod_def by (rule ok_look) (simp add: sitd_def sit_def)
  show ?thesis unfolding write_temporary_def
    by (rule ok_bind [OF call], rule ok_bind [OF ok_Write [where Q = "\<lambda>_. ?A"]], erule wr,
        rule ok_bind [OF call], rule ok_bind [OF call], rule sec)
qed

lemma calm_fresh:
  assumes "j = new_journal en op dig statePath (temp_of en statePath fs) journalPath raw desired now" and "describes en j raw desired"
    and "validateMigrationJournal j journalPath = None" and "fs (temp_of en statePath fs) = None"
    and "fs statePath = Some (RegularFile raw)" and "fs (statePath @ ''.v1'') = None" and "fs journalPath = None"
    and "\<forall>d\<in>set (dirs j). fs d = Some Directory"
  shows "ok (\<lambda>fs'. fs' = fs) (fresh_migration en calm statePath journalPath op dig raw desired now)
     (\<lambda>_ fs. committed en j raw desired fs \<and> (\<forall>d\<in>set (dirs j). fs d = Some Directory))"
proof -
  note d = describesD [OF assms(2)]
  let ?T = "temp_of en statePath fs"
  have paths: "mj_SourcePath j = statePath" "mj_BackupPath j = statePath @ ''.v1''" "mj_TempPath j = ?T" "mj_JournalPath j = journalPath"
    "at_phase PhasePrepared now j = j"
    by (simp_all add: assms(1) new_journal_def at_phase_def)
  have v: "valid_at PhasePrepared now j" using assms(3) paths by (simp add: valid_at_def)
  have z: "\<not> IsZero now" using assms(3) by (auto simp: validateMigrationJournal_def assms(1) new_journal_def split: if_splits)
  let ?E = "sitd j (Some (RegularFile raw)) None (Some (RegularFile [])) None"
  let ?W = "sitd j (Some (RegularFile raw)) None (Some (RegularFile desired)) (jnode en PhasePrepared now j)"
  have start: "?E (fs(?T \<mapsto> RegularFile []))"
    using assms(4-8) d(1-6) paths by (auto simp: sitd_def sit_def)
  have prepare: "ok ?E (mbind (write_temporary calm ?T desired) (\<lambda>_.
      mbind (persistMigrationJournal en calm j) (\<lambda>_. secureMigrationFile calm statePath))) (\<lambda>_. ?W)"
  proof -
    have sec: "ok ?W (secureMigrationFile calm statePath) (\<lambda>_. ?W)"
      by (rule ok_weaken [OF ok_reads [where P = ?W, OF calm_secure reads_secure]]) (use paths(1) in \<open>auto simp: sitd_def sit_def\<close>)
    have persist: "ok (sitd j (Some (RegularFile raw)) None (Some (RegularFile desired)) None) (persistMigrationJournal en calm j) (\<lambda>_. ?W)"
      using calm_persist [OF assms(2) v, of None] by (simp add: paths(5))
    show ?thesis by (rule ok_bind [OF calm_own_temporary [OF assms(2), unfolded paths] ok_bind [OF persist sec]])
  qed
  have rest: "ends ?E (mbind (on_error (mbind (write_temporary calm ?T desired) (\<lambda>_.
      mbind (persistMigrationJournal en calm j) (\<lambda>_. secureMigrationFile calm statePath))) (os_Remove calm ?T))
      (\<lambda>_. replace_state en calm j now)) (\<lambda>r fs. \<exists>x. r = Inr x \<and> committed en j raw desired fs \<and> (\<forall>d\<in>set (dirs j). fs d = Some Directory))"
    by (rule ends_bind [OF ok_on_error [OF prepare] calm_replace [OF assms(2) v z, unfolded ok_def]])
  have create: "ok (\<lambda>fs'. fs' = fs) (os_CreateTemp calm (me_temp en (filepath_Dir statePath) (''.'' @ filepath_Base statePath @ ''.v2-'')))
      (\<lambda>p fs'. p = ?T \<and> ?E fs')"
    by (rule ok_CreateTemp) (use start in \<open>simp add: temp_of_def v2_prefix_def\<close>)
  have cont: "ends (\<lambda>fs'. p = ?T \<and> ?E fs')
      (let j = new_journal en op dig statePath p journalPath raw desired now
       in mbind (on_error (mbind (write_temporary calm p desired) (\<lambda>_.
                mbind (persistMigrationJournal en calm j) (\<lambda>_. secureMigrationFile calm statePath)))
              (os_Remove calm p)) (\<lambda>_. replace_state en calm j now)) (\<lambda>r fs. \<exists>x. r = Inr x \<and> committed en j raw desired fs \<and> (\<forall>d\<in>set (dirs j). fs d = Some Directory))" for p
    using rest by (cases "p = ?T") (simp_all add: Let_def assms(1) [symmetric] ends_def)
  have guard: "(if x then Some (MigError ''v1 backup already exists'') else None) = None"
    if "plain fs' (statePath @ ''.v1'') \<and> x = (fs' (statePath @ ''.v1'') \<noteq> None)" "fs' = fs" for x fs'
    using that assms(6) by simp
  show ?thesis unfolding fresh_migration_def ok_def
    by (rule ends_look [OF calm_exists reads_exists], simp add: plain_cases assms(6),
        rule ends_guard [OF guard], assumption, assumption, rule ends_bind [OF create cont])
qed

text \<open>What a request must satisfy for its migration to start: checks on its data and on the files.\<close>

definition accepted :: "mig_env \<Rightarrow> mig_request \<Rightarrow> string \<Rightarrow> string \<Rightarrow> string \<Rightarrow> fsys \<Rightarrow> gotime \<Rightarrow> bool" where
  "accepted en rq dig raw desired fs now \<longleftrightarrow>
     (\<exists>m row. rq_manifest rq = Some m
        \<and> VerifyStateManifest (me_manifest en fs) (Some m) (mf_SourceRoot m) (rq_role rq) (rq_audience rq) (rq_key rq) now = None
        \<and> stateManifestRowForPath (me_manifest en fs) m (rq_state rq) = Inr row
        \<and> sf_Size row = int (length raw) \<and> sf_SHA256 row = migrationHash en raw)
     \<and> validateMigrationRequestPaths (rq_state rq) (rq_journal rq) = None
     \<and> validateMigrationJournal (migration_of en rq dig raw desired fs now) (rq_journal rq) = None
     \<and> directories_in_place rq fs
     \<and> fs (rq_state rq @ ''.v1'') = None \<and> fs (temp_of en (rq_state rq) fs) = None"

lemma ends_known:
  assumes "ok (\<lambda>fs'. fs' = fs) m (\<lambda>_ _. True)" and "reads m R" and "\<And>x. R x fs \<Longrightarrow> x = v" and "ends (\<lambda>fs'. fs' = fs) (f v) Q"
  shows "ends (\<lambda>fs'. fs' = fs) (mbind m f) Q"
  by (rule ends_look [OF assms(1,2)]) (use assms(3,4) in blast)

lemma calm_verified:
  assumes "upgrade_of en rq dig raw desired" and "before_migration rq raw fs" and "accepted en rq dig raw desired fs now"
    and "rq_manifest rq = Some m"
  shows "ok (\<lambda>fs'. fs' = fs) (migrate_verified en calm (rq_state rq) (rq_journal rq) m dig (rq_operation rq) now)
     (\<lambda>_ fs'. committed en (migration_of en rq dig raw desired fs now) raw desired fs' \<and> directories_in_place rq fs')"
proof -
  let ?j = "migration_of en rq dig raw desired fs now"
  obtain row where row: "stateManifestRowForPath (me_manifest en fs) m (rq_state rq) = Inr row"
    "sf_Size row = int (length raw)" "sf_SHA256 row = migrationHash en raw"
    using assms(3,4) by (auto simp: accepted_def)
  have a: "validateMigrationRequestPaths (rq_state rq) (rq_journal rq) = None" "validateMigrationJournal ?j (rq_journal rq) = None"
    "directories_in_place rq fs" "fs (rq_state rq @ ''.v1'') = None" "fs (temp_of en (rq_state rq) fs) = None"
    using assms(3) by (simp_all add: accepted_def)
  have b: "fs (rq_state rq) = Some (RegularFile raw)" "fs (rq_journal rq) = None" using assms(2) by (simp_all add: before_migration_def)
  have oid: "validateStateMigrationOperationID (rq_operation rq) = None"
    using a(2) by (auto simp: validateMigrationJournal_def migration_of_def new_journal_def split: if_splits)
  have paths: "validateMigrationPaths (rq_state rq) (rq_state rq @ ''.v1'') [] (rq_journal rq) = None"
    using a(1) by (simp add: validateMigrationRequestPaths_def)
  have anc: "ok (\<lambda>fs'. fs' = fs) (validateMigrationMutationAncestors calm [rq_state rq, rq_state rq @ ''.v1'', rq_journal rq]) (\<lambda>_ _. True)"
    by (rule calm_ancestors) (use a(3) in \<open>auto simp: directories_in_place_def list_all_iff Dir_backup\<close>)
  obtain obj where obj: "decodeV1StateObject en raw = Inr obj" "desired = upgraded en dig obj"
    using assms(1) by (auto simp: upgrade_of_def upgrade_def)
  have d: "describes en ?j raw desired" using assms(1) by (simp add: upgrade_of_def upgrade_def migration_of_def)
  have dirs_back: "directories_in_place rq fs'" if "\<forall>d\<in>set (dirs ?j). fs' d = Some Directory" for fs'
    using that by (auto simp: directories_in_place_def list_all_iff dirs_def state_paths_def migration_of_def)
  note fresh = ok_weaken [OF calm_fresh [OF migration_of_def d a(2) a(5) b(1) a(4) b(2) dirs_of_request [OF assms(1) a(3)]],
      of _ "\<lambda>_ fs'. committed en ?j raw desired fs' \<and> directories_in_place rq fs'", unfolded ok_def]
  have load: "ok (\<lambda>fs'. fs' = fs) (loadMigrationJournalIfPresent en calm (rq_journal rq)) (\<lambda>_ _. True)"
    using b(2) by (simp add: loadMigrationJournalIfPresent_def calm_defs)
  have peek: "ok P (peek g) (\<lambda>_ _. True)" for P and g :: "fsys \<Rightarrow> 'a" by (simp add: ok_def ends_def peek_def)
  have lift: "ok P (lift_sum (Inr x)) (\<lambda>_ _. True)" for P and x :: 'a by (simp add: ok_def ends_def lift_sum_def mret_def)
  show ?thesis unfolding migrate_verified_def ok_def
    by (rule ends_guard, simp add: a(1) oid, rule ends_look [OF anc reads_ancestors],
        rule ends_known [where v = raw, OF calm_readRegular reads_readRegular], simp add: b(1), simp add: b(1),
        rule ends_known [where v = "Inr row", OF peek reads_peek], simp add: row(1),
        rule ends_known [where v = row, OF lift reads_lift], simp, rule ends_guard, simp add: row(2,3),
        unfold obj(1), rule ends_known [where v = obj, OF lift reads_lift], simp,
        rule ends_guard [OF paths], rule ends_known [where v = None, OF load reads_load_present],
        use b(2) in \<open>simp split: option.splits\<close>, use fresh [of "\<lambda>fs'. fs' = fs"] dirs_back obj(2) in simp)
qed

lemma calm_attempt:
  assumes "upgrade_of en rq dig raw desired" and "before_migration rq raw fs" and "accepted en rq dig raw desired fs now"
  shows "ok (\<lambda>fs'. fs' = fs) (attempt_migration en rq calm now)
     (\<lambda>_ fs'. committed en (migration_of en rq dig raw desired fs now) raw desired fs' \<and> directories_in_place rq fs')"
proof -
  obtain m where m: "rq_manifest rq = Some m"
    "VerifyStateManifest (me_manifest en fs) (Some m) (mf_SourceRoot m) (rq_role rq) (rq_audience rq) (rq_key rq) now = None"
    using assms(3) by (auto simp: accepted_def)
  have "migrationManifestDigest en (me_manifest en fs) (Some m) = Inr dig"
    using assms(1) m(1) by (metis upgrade_of_def)
  then have "attempt_migration en rq calm now w = migrate_verified en calm (rq_state rq) (rq_journal rq) m dig (rq_operation rq) now w"
    if "mw_fs w = fs" for w
    using m that by (simp add: attempt_migration_def MigrateStateFileV1ToV2_def mbind_def peek_def manifestSourceRoot_def)
  then show ?thesis using calm_verified [OF assms m(1)] by (simp add: ok_def ends_def)
qed

end
