(* ===== verification/State_Migration_Guarantees.thy ===== *)
theory State_Migration_Guarantees
  imports State_Migration_Recovery "HOL-Library.Countable"
begin

text \<open>
  What the migration of a state file guarantees, and a migration in which all of it can be seen.
\<close>

subsection \<open>An example\<close>

text \<open>A codec for the journals of one migration: the times in unary, then the phase.\<close>

definition example_request :: mig_request where
  "example_request = \<lparr>rq_state = ''/s/a.json'', rq_journal = ''/s/j'',
     rq_manifest = (case example_built of Inl _ \<Rightarrow> None | Inr m \<Rightarrow> Some m), rq_key = replicate 32 CHR ''p'',
     rq_role = ''r'', rq_audience = ''a'', rq_operation = ''op''\<rparr>"

definition example_digest :: string where
  "example_digest = ''sha256:'' @ replicate 64 CHR ''b''"

fun phase_text :: "StateMigrationPhase \<Rightarrow> string" where
  "phase_text PhasePrepared = ''p''"
| "phase_text PhaseBackupRenamed = ''b''"
| "phase_text PhaseCommitted = ''k''"
| "phase_text PhaseNeedsReconciliation = ''n''"
| "phase_text (PhaseOther s) = CHR ''o'' # s"

definition text_phase :: "string \<Rightarrow> StateMigrationPhase" where
  "text_phase s = (if s = ''p'' then PhasePrepared else if s = ''b'' then PhaseBackupRenamed
     else if s = ''k'' then PhaseCommitted else if s = ''n'' then PhaseNeedsReconciliation else PhaseOther (tl s))"

definition example_encode :: "StateMigrationJournal \<Rightarrow> string" where
  "example_encode j = replicate (int_encode (mj_UpdatedAt j)) CHR ''u'' @ '':''
     @ replicate (int_encode (mj_CreatedAt j)) CHR ''c'' @ '':'' @ phase_text (mj_Phase j)"

definition example_hash :: "string \<Rightarrow> string" where
  "example_hash d = replicate 64 (if d = ''x'' then CHR ''a'' else CHR ''b'')"

definition example_journal :: "StateMigrationPhase \<Rightarrow> gotime \<Rightarrow> gotime \<Rightarrow> StateMigrationJournal" where
  "example_journal ph created upd = \<lparr>mj_Version = 1, mj_OperationID = ''op'', mj_ManifestDigest = example_digest,
     mj_SourcePath = ''/s/a.json'', mj_BackupPath = ''/s/a.json.v1'', mj_TempPath = ''/s/.a.json.v2-0'', mj_JournalPath = ''/s/j'',
     mj_SourceHash = example_hash ''x'', mj_SourceSize = 1, mj_DesiredHash = example_hash ''v2'', mj_DesiredSize = 2,
     mj_Phase = ph, mj_CreatedAt = created, mj_UpdatedAt = upd\<rparr>"

definition example_decode :: "string \<Rightarrow> StateMigrationJournal option" where
  "example_decode c = (let u = takeWhile (\<lambda>x. x = CHR ''u'') c; r = drop (Suc (length u)) c;
       k = takeWhile (\<lambda>x. x = CHR ''c'') r
     in Some (example_journal (text_phase (drop (Suc (length k)) r)) (int_decode (length k)) (int_decode (length u))))"

definition example_env :: mig_env where
  "example_env = \<lparr>me_manifest = (\<lambda>fs. example_scan ''x''), me_sha = example_hash,
     me_encodeJournal = example_encode, me_decodeJournal = example_decode,
     me_decodeState = (\<lambda>d. JsonObject Map.empty), me_decodeInt = (\<lambda>d. None), me_encodeString = (\<lambda>s. s),
     me_encodeState = (\<lambda>obj. ''v2''), me_temp = (\<lambda>dir pre fs. dir @ ''/'' @ pre @ ''0'')\<rparr>"

definition example_fs :: fsys where
  "example_fs = [''/'' \<mapsto> Directory, ''/s'' \<mapsto> Directory, ''/s/a.json'' \<mapsto> RegularFile ''x'']"

definition example_world :: mig_world where
  "example_world = \<lparr>mw_fs = example_fs, mw_trace = [], mw_calls = 0\<rparr>"

lemma text_phase_text: "text_phase (phase_text ph) = ph"
  by (cases ph) (simp_all add: text_phase_def)

lemma example_codec: "example_decode (example_encode (example_journal ph created upd)) = Some (example_journal ph created upd)"
proof -
  have u: "takeWhile (\<lambda>x. x = z) (replicate n z @ CHR '':'' # xs) = replicate n z" if "z \<noteq> CHR '':''" for n z xs
    using that by (induction n) auto
  show ?thesis
    by (simp add: example_encode_def example_decode_def example_journal_def u text_phase_text Let_def)
qed

lemma example_temp: "me_temp example_env dir pre fs = dir @ ''/'' @ pre @ ''0''"
  by (simp add: example_env_def)

lemma example_new:
  "new_journal example_env ''op'' example_digest ''/s/a.json'' (temp_of example_env ''/s/a.json'' fs) ''/s/j'' ''x'' ''v2'' now
     = example_journal PhasePrepared now now"
proof -
  have "filepath_Dir ''/s/a.json'' @ ''/'' @ v2_prefix ''/s/a.json'' @ ''0'' = ''/s/.a.json.v2-0''" by code_simp
  then show ?thesis
    by (simp add: new_journal_def example_journal_def temp_of_def example_temp migrationHash_def StateMigrationJournalVersion_def)
      (simp add: example_env_def)
qed

lemma example_at_phase: "at_phase ph t (example_journal ph' c t') = example_journal ph c t"
  by (simp add: at_phase_def example_journal_def)

lemma example_describes: "describes example_env (example_journal ph c t) ''x'' ''v2''"
proof -
  let ?j = "example_journal ph c t"
  have p: "mj_SourcePath ?j = ''/s/a.json''" "mj_BackupPath ?j = ''/s/a.json.v1''" "mj_TempPath ?j = ''/s/.a.json.v2-0''"
    "mj_JournalPath ?j = ''/s/j''" by (simp_all add: example_journal_def)
  have "ancestors (filepath_Dir ''/s/a.json'') = [''/s'', ''/'']" "ancestors (filepath_Dir ''/s/a.json.v1'') = [''/s'', ''/'']"
    "ancestors (filepath_Dir ''/s/.a.json.v2-0'') = [''/s'', ''/'']" "ancestors (filepath_Dir ''/s/j'') = [''/s'', ''/'']"
    by code_simp+
  then have d: "set (dirs ?j) = {''/s'', ''/''}" by (auto simp: dirs_def state_paths_def p)
  have n: "me_temp example_env (filepath_Dir ''/s/j'') (tmp_prefix ''/s/j'') fs = ''/s/.j.tmp-0''"
    "me_temp example_env (filepath_Dir ''/s/a.json'') (restore_prefix ''/s/a.json'') fs = ''/s/.a.json.restore-0''" for fs
    unfolding example_temp by code_simp+
  have r: "filepath_Dir ''/s/.a.json.restore-0'' = filepath_Dir ''/s/a.json''" by code_simp
  have s: "is_source example_env ?j (Some ''x'')" "is_desired example_env ?j (Some ''v2'')" "\<not> is_desired example_env ?j (Some ''x'')"
    by (simp_all add: is_source_def is_desired_def info_matches_def migrationHash_def example_journal_def example_env_def)
  have c: "me_decodeJournal example_env (me_encodeJournal example_env (at_phase ph' t' ?j)) = Some (at_phase ph' t' ?j)" for ph' t'
    by (simp add: example_env_def example_at_phase example_codec)
  show ?thesis unfolding describes_def p d n r using s c by simp
qed

lemma example_upgrade: "upgrade_of example_env example_request example_digest ''x'' ''v2''"
proof -
  have o: "decodeV1StateObject example_env ''x'' = Inr Map.empty" "upgraded example_env example_digest Map.empty = ''v2''"
    by (simp_all add: decodeV1StateObject_def upgraded_def example_env_def)
  have q: "rq_state example_request = ''/s/a.json''" "rq_journal example_request = ''/s/j''" "rq_operation example_request = ''op''"
    by (simp_all add: example_request_def)
  have t: "filepath_Dir (temp_of example_env ''/s/a.json'' fs) = filepath_Dir ''/s/a.json''" for fs
    unfolding temp_of_def example_temp by code_simp
  have "migrationManifestDigest example_env (example_scan ''x'') (rq_manifest example_request) = Inr example_digest"
    by code_simp
  then have m: "migrationManifestDigest example_env (me_manifest example_env fs) (rq_manifest example_request) = Inr example_digest" for fs
    by (simp add: example_env_def)
  show ?thesis unfolding upgrade_of_def upgrade_def q using o t m example_new example_describes by simp
qed

lemma example_before: "before_migration example_request ''x'' example_fs"
  by (simp add: before_migration_def example_request_def example_fs_def)

lemma example_accepted: "accepted example_env example_request example_digest ''x'' ''v2'' example_fs 60"
proof -
  obtain m where m: "example_built = Inr m" "mf_SourceRoot m = ''/s''"
    "mf_Files m = [\<lparr>sf_Path = ''a.json'', sf_Size = 1, sf_SHA256 = replicate 64 CHR ''a''\<rparr>]"
    using example_built_ok by (auto split: sum.splits)
  have q: "rq_state example_request = ''/s/a.json''" "rq_journal example_request = ''/s/j''" "rq_operation example_request = ''op''"
    "rq_manifest example_request = Some m" "rq_role example_request = ''r''" "rq_audience example_request = ''a''"
    "rq_key example_request = replicate 32 CHR ''p''"
    by (simp_all add: example_request_def m(1))
  have "case example_built of Inl _ \<Rightarrow> False
      | Inr m \<Rightarrow> VerifyStateManifest (example_scan ''x'') (Some m) ''/s'' ''r'' ''a'' (replicate 32 CHR ''p'') 60 = None"
    by code_simp
  then have v: "VerifyStateManifest (example_scan ''x'') (Some m) ''/s'' ''r'' ''a'' (replicate 32 CHR ''p'') 60 = None" by (simp add: m(1))
  have "\<not> HasPrefix ''a.json'' ''../''" "filepath_Clean ''/s/a.json'' = ''/s/a.json''" "filepath_Rel ''/s'' ''/s/a.json'' = Some ''a.json''" by code_simp+
  then have row: "stateManifestRowForPath (example_scan ''x'') m ''/s/a.json'' = Inr \<lparr>sf_Path = ''a.json'', sf_Size = 1, sf_SHA256 = replicate 64 CHR ''a''\<rparr>"
    by (simp add: stateManifestRowForPath_def example_root m(2,3))
  have j: "migration_of example_env example_request example_digest ''x'' ''v2'' example_fs 60 = example_journal PhasePrepared 60 60"
    using example_new by (simp add: migration_of_def q)
  have c: "validateMigrationRequestPaths ''/s/a.json'' ''/s/j'' = None"
    "validateMigrationJournal (example_journal PhasePrepared 60 60) ''/s/j'' = None"
    "ancestors (filepath_Dir ''/s/a.json'') = [''/s'', ''/'']" "ancestors (filepath_Dir ''/s/j'') = [''/s'', ''/'']"
    "temp_of example_env ''/s/a.json'' example_fs = ''/s/.a.json.v2-0''"
    by code_simp+
  have e: "me_manifest example_env fs = example_scan ''x''" "migrationHash example_env ''x'' = replicate 64 CHR ''a''" for fs
    by (simp_all add: example_env_def migrationHash_def example_hash_def)
  show ?thesis unfolding accepted_def q j c(5) directories_in_place_def c(3,4) e(1)
    using v row c(1,2) m(2) e(2) by (auto simp: example_fs_def)
qed

text \<open>The migration carried out once, undisturbed.\<close>

lemma example_completes:
  "\<exists>w'. attempt_migration example_env example_request calm 60 example_world = (Inr (), w')
     \<and> mw_fs w' ''/s/j'' \<noteq> None \<and> directories_in_place example_request (mw_fs w')"
proof -
  let ?j = "migration_of example_env example_request example_digest ''x'' ''v2'' example_fs 60"
  have "mw_fs example_world = example_fs" by (simp add: example_world_def)
  then obtain w' where "attempt_migration example_env example_request calm 60 example_world = (Inr (), w')"
    "committed example_env ?j ''x'' ''v2'' (mw_fs w')" "directories_in_place example_request (mw_fs w')"
    using okD [OF calm_attempt [OF example_upgrade example_before example_accepted], of example_world] by auto
  moreover have "mj_JournalPath ?j = ''/s/j''" by (simp add: migration_of_def example_request_def)
  ultimately show ?thesis by (auto simp: committed_def journal_at_def)
qed

lemma example_step:
  assumes "attempt_migration example_env example_request calm 60 example_world = (r, w')"
  shows "(mig_step example_env example_request)\<^sup>*\<^sup>* example_fs (mw_fs w')"
  using assms by (intro r_into_rtranclp mig_step.tried [of _ _ _ calm 60]) (simp add: leaves_def example_world_def)

subsection \<open>Guarantees\<close>

text \<open>
  C9: a migration cannot lose the state. However often the migration of a version 1 file is attempted and recovered, and
  wherever each attempt and each recovery is interrupted or fails, the version 1 bytes are in the state
  file or in its backup; the state file holds version 1, version 2 or nothing, never a part; and when
  it holds nothing, the backup holds version 1 and a journal is there to recover from.
\<close>

theorem migration_never_loses_state:
  assumes "upgrade_of en rq dig raw desired" and "before_migration rq raw fs" and "(mig_step en rq)\<^sup>*\<^sup>* fs fs'"
  shows "(fs' (rq_state rq) = Some (RegularFile raw) \<or> fs' (rq_state rq @ ''.v1'') = Some (RegularFile raw))
    \<and> fs' (rq_state rq) \<in> {None, Some (RegularFile raw), Some (RegularFile desired)}
    \<and> (fs' (rq_state rq) = None \<longrightarrow> fs' (rq_state rq @ ''.v1'') = Some (RegularFile raw)
        \<and> (\<exists>c j. fs' (rq_journal rq) = Some (RegularFile c) \<and> me_decodeJournal en c = Some j
             \<and> validateMigrationJournal j (rq_journal rq) = None))"
proof -
  obtain fs1 t where inv: "mig_inv en (migration_of en rq dig raw desired fs1 t) raw desired fs'" (is "mig_inv en ?j _ _ _")
    using run_in_migration [OF assms] by (auto simp: in_migration_def)
  have d: "describes en ?j raw desired" using assms(1) by (simp add: upgrade_of_def upgrade_def migration_of_def)
  have p: "mj_SourcePath ?j = rq_state rq" "mj_BackupPath ?j = rq_state rq @ ''.v1''" "mj_JournalPath ?j = rq_journal rq"
    by (simp_all add: migration_of_def)
  have "\<exists>c j. fs' (rq_journal rq) = Some (RegularFile c) \<and> me_decodeJournal en c = Some j \<and> validateMigrationJournal j (rq_journal rq) = None"
    if "journal_at en ?j phs fs'" for phs
    using that describesD(12) [OF d] p(3) by (auto simp: journal_at_def valid_at_def)
  then show ?thesis using inv p by (auto simp: mig_inv_def v1_in_place_def between_def v2_in_place_def)
qed

theorem migration_never_loses_state_witness:
  "\<exists>r w'. attempt_migration example_env example_request calm 60 example_world = (r, w')
     \<and> (mig_step example_env example_request)\<^sup>*\<^sup>* example_fs (mw_fs w')
     \<and> (mw_fs w' ''/s/a.json'' = Some (RegularFile ''x'') \<or> mw_fs w' ''/s/a.json.v1'' = Some (RegularFile ''x''))"
proof -
  obtain r w' where run: "attempt_migration example_env example_request calm 60 example_world = (r, w')" by fastforce
  note reach = example_step [OF run]
  have "rq_state example_request = ''/s/a.json''" by (simp add: example_request_def)
  then show ?thesis using migration_never_loses_state [OF example_upgrade example_before reach] run reach by auto
qed

text \<open>
  C11: an attempt or a recovery that reports success has completed the migration: version 2 is in the state file, version 1
  in the backup, the temporary file is gone, and the journal says committed. \<close>

theorem migration_success_is_complete:
  assumes "upgrade_of en rq dig raw desired" and "before_migration rq raw fs" and "(mig_step en rq)\<^sup>*\<^sup>* fs (mw_fs w)"
    and "attempt_migration en rq flt now w = (Inr (), w') \<or> RecoverStateMigration en flt (rq_journal rq) now w = (Inr (), w')"
  shows "mw_fs w' (rq_state rq) = Some (RegularFile desired)
    \<and> mw_fs w' (rq_state rq @ ''.v1'') = Some (RegularFile raw)
    \<and> (\<exists>c j. mw_fs w' (rq_journal rq) = Some (RegularFile c) \<and> me_decodeJournal en c = Some j
         \<and> mj_Phase j = PhaseCommitted \<and> mw_fs w' (mj_TempPath j) = None)"
proof -
  note inv = run_in_migration [OF assms(1-3)]
  obtain fs1 t where c: "committed en (migration_of en rq dig raw desired fs1 t) raw desired (mw_fs w')" (is "committed en ?j _ _ _")
  proof -
    obtain fs1 t where "triple (mig_inv en (migration_of en rq dig raw desired fs1 t) raw desired) (\<lambda>fs'. fs' = mw_fs w)
        (attempt_migration en rq flt now) (\<lambda>_. committed en (migration_of en rq dig raw desired fs1 t) raw desired)
        (mig_inv en (migration_of en rq dig raw desired fs1 t) raw desired)"
      using in_migration_attempt [OF assms(1) inv] by blast
    from tripleD(2) [OF this] have a: "attempt_migration en rq flt now w = (Inr (), w') \<Longrightarrow> thesis" using that by blast
    obtain fs2 t2 where "triple (mig_inv en (migration_of en rq dig raw desired fs2 t2) raw desired) (\<lambda>fs'. fs' = mw_fs w)
        (RecoverStateMigration en flt (rq_journal rq) now) (\<lambda>_. committed en (migration_of en rq dig raw desired fs2 t2) raw desired)
        (mig_inv en (migration_of en rq dig raw desired fs2 t2) raw desired)"
      using in_migration_recover [OF assms(1) inv] by blast
    from tripleD(2) [OF this] have "RecoverStateMigration en flt (rq_journal rq) now w = (Inr (), w') \<Longrightarrow> thesis" using that by blast
    with a show thesis using assms(4) by blast
  qed
  have d: "describes en ?j raw desired" using assms(1) by (simp add: upgrade_of_def upgrade_def migration_of_def)
  have p: "mj_SourcePath ?j = rq_state rq" "mj_BackupPath ?j = rq_state rq @ ''.v1''" "mj_JournalPath ?j = rq_journal rq"
    by (simp_all add: migration_of_def)
  obtain u where "mw_fs w' (rq_journal rq) = Some (RegularFile (me_encodeJournal en (at_phase PhaseCommitted u ?j)))"
    using c p(3) by (auto simp: committed_def journal_at_def)
  then have "\<exists>c j. mw_fs w' (rq_journal rq) = Some (RegularFile c) \<and> me_decodeJournal en c = Some j
         \<and> mj_Phase j = PhaseCommitted \<and> mw_fs w' (mj_TempPath j) = None"
    using c describesD(12) [OF d] by (auto simp: committed_def)
  then show ?thesis using c p by (simp add: committed_def)
qed

theorem migration_success_is_complete_witness:
  "\<exists>w'. attempt_migration example_env example_request calm 60 example_world = (Inr (), w')
     \<and> mw_fs w' ''/s/a.json'' = Some (RegularFile ''v2'') \<and> mw_fs w' ''/s/a.json.v1'' = Some (RegularFile ''x'')"
proof -
  obtain w' where run: "attempt_migration example_env example_request calm 60 example_world = (Inr (), w')"
    using example_completes by blast
  have w: "(mig_step example_env example_request)\<^sup>*\<^sup>* example_fs (mw_fs example_world)" by (simp add: example_world_def)
  have "rq_state example_request = ''/s/a.json''" by (simp add: example_request_def)
  then show ?thesis
    using migration_success_is_complete [OF example_upgrade example_before w disjI1 [OF run]] run by auto
qed

text \<open>
  C10: a recovery that nothing disturbs ends the migration, in whatever state the interruptions before left it. It either
  reports success, with version 2 in place, version 1 in the backup and the journal committed, or it
  reports that a person is needed, with version 1 back in place and the journal saying so.
\<close>

theorem recovery_concludes_migration:
  assumes "upgrade_of en rq dig raw desired" and "before_migration rq raw fs" and "(mig_step en rq)\<^sup>*\<^sup>* fs (mw_fs w)"
    and "mw_fs w (rq_journal rq) \<noteq> None" and "directories_in_place rq (mw_fs w)" and "\<not> IsZero now"
  shows "\<exists>r w' c j. RecoverStateMigration en calm (rq_journal rq) now w = (r, w')
    \<and> mw_fs w' (rq_journal rq) = Some (RegularFile c) \<and> me_decodeJournal en c = Some j
    \<and> (r = Inr () \<and> mj_Phase j = PhaseCommitted \<and> mw_fs w' (rq_state rq) = Some (RegularFile desired)
         \<and> mw_fs w' (rq_state rq @ ''.v1'') = Some (RegularFile raw) \<and> mw_fs w' (mj_TempPath j) = None
       \<or> r = Inl ErrStateMigrationNeedsReconciliation \<and> mj_Phase j = PhaseNeedsReconciliation
         \<and> mw_fs w' (rq_state rq) = Some (RegularFile raw))"
proof -
  obtain fs1 t where inv: "mig_inv en (migration_of en rq dig raw desired fs1 t) raw desired (mw_fs w)" (is "mig_inv en ?j _ _ _")
    using run_in_migration [OF assms(1-3)] by (auto simp: in_migration_def)
  have d: "describes en ?j raw desired" using assms(1) by (simp add: upgrade_of_def upgrade_def migration_of_def)
  have p: "mj_SourcePath ?j = rq_state rq" "mj_BackupPath ?j = rq_state rq @ ''.v1''" "mj_JournalPath ?j = rq_journal rq"
    by (simp_all add: migration_of_def)
  obtain r w' where run: "RecoverStateMigration en calm (rq_journal rq) now w = (r, w')" by fastforce
  have "concluded en ?j raw desired r (mw_fs w')"
    using endsD [OF recover_concludes [OF d assms(6)], of w r w'] inv assms(4) dirs_of_request [OF assms(1,5)] p run by simp
  moreover have "\<exists>c j. fs' (rq_journal rq) = Some (RegularFile c) \<and> me_decodeJournal en c = Some j \<and> mj_Phase j = ph
      \<and> mj_TempPath j = mj_TempPath ?j" if "journal_at en ?j [ph] fs'" for ph fs'
    using that describesD(12) [OF d] p(3) by (auto simp: journal_at_def)
  ultimately show ?thesis unfolding concluded_def committed_def p run by fastforce
qed

theorem recovery_concludes_migration_witness:
  "\<exists>w r w'. attempt_migration example_env example_request calm 60 example_world = (Inr (), w)
     \<and> RecoverStateMigration example_env calm ''/s/j'' 70 w = (r, w')
     \<and> (r = Inr () \<or> r = Inl ErrStateMigrationNeedsReconciliation)"
proof -
  obtain w where run: "attempt_migration example_env example_request calm 60 example_world = (Inr (), w)"
    "mw_fs w ''/s/j'' \<noteq> None" "directories_in_place example_request (mw_fs w)"
    using example_completes by blast
  have j: "rq_journal example_request = ''/s/j''" by (simp add: example_request_def)
  have z: "\<not> IsZero (70 :: gotime)" by (simp add: IsZero_def)
  have "\<exists>r w'. RecoverStateMigration example_env calm ''/s/j'' 70 w = (r, w') \<and> (r = Inr () \<or> r = Inl ErrStateMigrationNeedsReconciliation)"
    using recovery_concludes_migration [OF example_upgrade example_before example_step [OF run(1)] _ run(3) z] run(2) j by auto
  then show ?thesis using run(1) by blast
qed

text \<open>
  C12: an attempt that nothing disturbs carries out the migration. For a version 1 file that its signed manifest
  vouches for, with no backup and no journal there, it returns no error and leaves version 2 in place,
  version 1 in the backup, and the journal committed.
\<close>

theorem undisturbed_migration_completes:
  assumes "upgrade_of en rq dig raw desired" and "before_migration rq raw (mw_fs w)" and "accepted en rq dig raw desired (mw_fs w) now"
  shows "\<exists>w' c j. attempt_migration en rq calm now w = (Inr (), w')
    \<and> mw_fs w' (rq_state rq) = Some (RegularFile desired) \<and> mw_fs w' (rq_state rq @ ''.v1'') = Some (RegularFile raw)
    \<and> mw_fs w' (rq_journal rq) = Some (RegularFile c) \<and> me_decodeJournal en c = Some j
    \<and> mj_Phase j = PhaseCommitted \<and> mw_fs w' (mj_TempPath j) = None"
proof -
  let ?j = "migration_of en rq dig raw desired (mw_fs w) now"
  obtain w' where w': "attempt_migration en rq calm now w = (Inr (), w')" "committed en ?j raw desired (mw_fs w')"
    using okD [OF calm_attempt [OF assms], of w] by auto
  have d: "describes en ?j raw desired" using assms(1) by (simp add: upgrade_of_def upgrade_def migration_of_def)
  have "\<exists>c j. mw_fs w' (rq_journal rq) = Some (RegularFile c) \<and> me_decodeJournal en c = Some j
      \<and> mj_Phase j = PhaseCommitted \<and> mj_TempPath j = mj_TempPath ?j"
    using w'(2) describesD(12) [OF d] by (auto simp: committed_def journal_at_def migration_of_def)
  then show ?thesis using w' by (fastforce simp: committed_def migration_of_def)
qed

theorem undisturbed_migration_completes_witness:
  "\<exists>w'. attempt_migration example_env example_request calm 60 example_world = (Inr (), w')
     \<and> mw_fs w' ''/s/a.json'' = Some (RegularFile ''v2'') \<and> mw_fs w' ''/s/a.json.v1'' = Some (RegularFile ''x'')
     \<and> mw_fs example_world ''/s/a.json'' = Some (RegularFile ''x'')"
proof -
  have w: "mw_fs example_world = example_fs" "rq_state example_request = ''/s/a.json''"
    "example_fs ''/s/a.json'' = Some (RegularFile ''x'')"
    by (simp_all add: example_world_def example_request_def example_fs_def)
  then show ?thesis
    using undisturbed_migration_completes [OF example_upgrade, of example_world 60] example_before example_accepted by auto
qed

end
