(* ===== verification/Launch_Errors.thy ===== *)
theory Launch_Errors
  imports Go_Prelude
begin

text \<open>
  The errors of a secret launch, \<open>src/internal/secretlaunch/errors.go\<close>: a code and at most the name of a key, never a
  value. Errors of other packages are \<open>OtherError\<close>.
\<close>

datatype ErrorCode =
    ErrInvalidInput | ErrCanonical | ErrUnknownField | ErrDuplicateField | ErrSignature | ErrTrust | ErrExpired
  | ErrNotYetValid | ErrTTL | ErrBinding | ErrKey | ErrFetch | ErrCrypto | ErrReplay | ErrFrame | ErrLifecycle
  | ErrDaemon | ErrRuntime | ErrNotInvoked | ErrChild | ErrNoProvider

datatype LaunchError = Launch ErrorCode string | OtherError string

definition MaxKeyLength :: nat where
  "MaxKeyLength = 256"

definition MaxValueLength :: nat where
  "MaxValueLength = 2 ^ 20"

definition MaxFrameLength :: nat where
  "MaxFrameLength = MaxValueLength + 4096"

definition fail :: "ErrorCode \<Rightarrow> LaunchError" where
  "fail code = Launch code []"

text \<open>NUL, carriage return, line feed, tab and space.\<close>

definition blank_byte :: "char \<Rightarrow> bool" where
  "blank_byte c \<longleftrightarrow> c \<in> {CHR 0x00, CHR 0x0D, CHR 0x0A, CHR 0x09, CHR '' ''}"

definition evidenceKey :: "string \<Rightarrow> string" where
  "evidenceKey key = (if key = [] \<or> MaxKeyLength < length key \<or> list_ex blank_byte key then ''invalid'' else key)"

definition failKey :: "ErrorCode \<Rightarrow> string \<Rightarrow> LaunchError" where
  "failKey code key = Launch code (evidenceKey key)"

definition errorCode :: "LaunchError \<Rightarrow> ErrorCode" where
  "errorCode err = (case err of Launch code key \<Rightarrow> code | OtherError _ \<Rightarrow> ErrLifecycle)"

lemma errorCode_simps [simp]: "errorCode (fail c) = c" "errorCode (failKey c k) = c"
  by (simp_all add: fail_def failKey_def errorCode_def)

lemma fail_inject [simp]: "fail c = fail c' \<longleftrightarrow> c = c'"
  by (simp add: fail_def)

end
