(* ===== verification/Json_Scanner.thy ===== *)
theory Json_Scanner
  imports Launch_Errors Go_Json
begin

text \<open>
  The scanner that rejects JSON objects with a field twice, \<open>jsonScanner\<close> of \<open>src/internal/secretlaunch/manifest.go\<close>.
  The position in the data is the rest of the data. Parameters: \<open>json.Valid\<close>, \<open>json.Unmarshal\<close> of a string literal and
  \<open>strconv.ParseFloat\<close>. The recursion takes fuel; more than twice the length of the data is enough.
\<close>

record json_lib =
  jl_valid :: "string \<Rightarrow> bool"
  jl_unquote :: "string \<Rightarrow> string option"
  jl_float :: "string \<Rightarrow> bool"

definition isJSONSpace :: "char \<Rightarrow> bool" where
  "isJSONSpace b \<longleftrightarrow> b = CHR '' '' \<or> b = CHR 0x09 \<or> b = CHR 0x0D \<or> b = CHR 0x0A"

definition scan_space :: "string \<Rightarrow> string" where
  "scan_space s = dropWhile isJSONSpace s"

text \<open>The loop of \<open>string\<close>: what is before the closing quote, and what is behind it.\<close>

fun scan_body :: "string \<Rightarrow> (string \<times> string) option" where
  "scan_body [] = None"
| "scan_body (c # s) =
     (if c = backslash then (case s of [] \<Rightarrow> None | d # s' \<Rightarrow> map_option (\<lambda>(b, r). (c # d # b, r)) (scan_body s'))
      else if c = quote then Some ([], s)
      else map_option (\<lambda>(b, r). (c # b, r)) (scan_body s))"

definition scan_string :: "json_lib \<Rightarrow> string \<Rightarrow> LaunchError + string \<times> string" where
  "scan_string lib s = (case scan_body (tl s) of
      None \<Rightarrow> Inl (fail ErrCanonical)
    | Some (b, r) \<Rightarrow> (case jl_unquote lib (quote # b @ [quote]) of
          None \<Rightarrow> Inl (fail ErrCanonical)
        | Some v \<Rightarrow> Inr (v, r)))"

definition scan_literal :: "string \<Rightarrow> string \<Rightarrow> LaunchError + string" where
  "scan_literal literal s = (if HasPrefix s literal then Inr (drop (length literal) s) else Inl (fail ErrCanonical))"

definition ends_number :: "char \<Rightarrow> bool" where
  "ends_number b \<longleftrightarrow> b = CHR '','' \<or> b = CHR '']'' \<or> b = CHR ''}'' \<or> isJSONSpace b"

definition scan_number :: "json_lib \<Rightarrow> string \<Rightarrow> LaunchError + string" where
  "scan_number lib s = (let t = takeWhile (\<lambda>b. \<not> ends_number b) s in
     if t = [] \<or> \<not> jl_float lib t then Inl (fail ErrCanonical) else Inr (drop (length t) s))"

fun scan_value :: "json_lib \<Rightarrow> nat \<Rightarrow> string \<Rightarrow> (LaunchError + string) option"
and scan_members :: "json_lib \<Rightarrow> nat \<Rightarrow> string list \<Rightarrow> string \<Rightarrow> (LaunchError + string) option"
and scan_elements :: "json_lib \<Rightarrow> nat \<Rightarrow> string \<Rightarrow> (LaunchError + string) option" where
  "scan_value lib 0 s = None"
| "scan_value lib (Suc n) s = (case scan_space s of
      [] \<Rightarrow> Some (Inl (fail ErrCanonical))
    | c # r \<Rightarrow>
        if c = CHR ''{'' then
          (case scan_space r of
              d # r' \<Rightarrow> if d = CHR ''}'' then Some (Inr r') else scan_members lib n [] (d # r')
            | [] \<Rightarrow> scan_members lib n [] [])
        else if c = CHR ''['' then
          (case scan_space r of
              d # r' \<Rightarrow> if d = CHR '']'' then Some (Inr r') else scan_elements lib n (d # r')
            | [] \<Rightarrow> scan_elements lib n [])
        else if c = quote then Some (map_sum id snd (scan_string lib (c # r)))
        else if c = CHR ''t'' then Some (scan_literal ''true'' (c # r))
        else if c = CHR ''f'' then Some (scan_literal ''false'' (c # r))
        else if c = CHR ''n'' then Some (scan_literal ''null'' (c # r))
        else Some (scan_number lib (c # r)))"
| "scan_members lib 0 seen s = None"
| "scan_members lib (Suc n) seen s = (case scan_space s of
      [] \<Rightarrow> Some (Inl (fail ErrCanonical))
    | c # r \<Rightarrow>
        if c \<noteq> quote then Some (Inl (fail ErrCanonical))
        else (case scan_string lib (c # r) of
            Inl e \<Rightarrow> Some (Inl e)
          | Inr (key, r1) \<Rightarrow>
              if key \<in> set seen then Some (Inl (failKey ErrDuplicateField key))
              else (case scan_space r1 of
                  [] \<Rightarrow> Some (Inl (fail ErrCanonical))
                | d # r2 \<Rightarrow>
                    if d \<noteq> CHR '':'' then Some (Inl (fail ErrCanonical))
                    else (case scan_value lib n r2 of
                        None \<Rightarrow> None
                      | Some (Inl e) \<Rightarrow> Some (Inl e)
                      | Some (Inr r3) \<Rightarrow> (case scan_space r3 of
                            [] \<Rightarrow> Some (Inl (fail ErrCanonical))
                          | x # r4 \<Rightarrow>
                              if x = CHR ''}'' then Some (Inr r4)
                              else if x \<noteq> CHR '','' then Some (Inl (fail ErrCanonical))
                              else scan_members lib n (key # seen) r4)))))"
| "scan_elements lib 0 s = None"
| "scan_elements lib (Suc n) s = (case scan_value lib n s of
      None \<Rightarrow> None
    | Some (Inl e) \<Rightarrow> Some (Inl e)
    | Some (Inr r) \<Rightarrow> (case scan_space r of
          [] \<Rightarrow> Some (Inl (fail ErrCanonical))
        | x # r1 \<Rightarrow>
            if x = CHR '']'' then Some (Inr r1)
            else if x \<noteq> CHR '','' then Some (Inl (fail ErrCanonical))
            else scan_elements lib n (scan_space r1)))"

definition validateJSONObject :: "json_lib \<Rightarrow> string \<Rightarrow> LaunchError option" where
  "validateJSONObject lib data =
     (if data = [] \<or> \<not> jl_valid lib data then Some (fail ErrCanonical)
      else case scan_value lib (Suc (2 * length data)) data of
          None \<Rightarrow> Some (OtherError ''fuel'')
        | Some (Inl e) \<Rightarrow> Some e
        | Some (Inr r) \<Rightarrow>
            if scan_space r \<noteq> [] then Some (fail ErrCanonical)
            else if hd (scan_space data) \<noteq> CHR ''{'' then Some (fail ErrInvalidInput)
            else None)"

subsection \<open>The fuel is enough\<close>

lemma length_scan_space: "length (scan_space s) \<le> length s"
  by (simp add: scan_space_def length_dropWhile_le)

lemma length_scan_body: "scan_body s = Some (b, r) \<Longrightarrow> length r < length s"
  by (induction s arbitrary: b r rule: scan_body.induct) (auto split: if_splits list.splits, fastforce+)

lemma length_scan_string: "scan_string lib (c # s) = Inr (v, r) \<Longrightarrow> length r < length s"
  by (auto simp: scan_string_def dest: length_scan_body split: option.splits)

lemma length_scan_literal: "scan_literal l s = Inr r \<Longrightarrow> l \<noteq> [] \<Longrightarrow> length r < length s"
  by (auto simp: scan_literal_def HasPrefix_prefix prefix_def split: if_splits)

lemma length_scan_number: "scan_number lib s = Inr r \<Longrightarrow> length r < length s"
  by (cases s) (auto simp: scan_number_def Let_def split: if_splits)

text \<open>What is left is shorter.\<close>

definition scans :: "(LaunchError + string) option \<Rightarrow> string \<Rightarrow> bool" where
  "scans res s \<longleftrightarrow> (\<exists>x. res = Some x \<and> (\<forall>r. x = Inr r \<longrightarrow> length r < length s))"

lemma scans_weaken: "scans res s \<Longrightarrow> length s \<le> length t \<Longrightarrow> scans res t"
  unfolding scans_def by fastforce

lemma scans_simps [simp]:
  "scans (Some (Inl e)) s" "scans (Some (Inr r)) s \<longleftrightarrow> length r < length s"
  by (simp_all add: scans_def)

lemma value_step:
  assumes "2 * length s < Suc n" and m: "\<And>t. 2 * length t < n \<Longrightarrow> scans (scan_members lib n [] t) t"
    and e: "\<And>t. Suc (2 * length t) < n \<Longrightarrow> scans (scan_elements lib n t) t"
  shows "scans (scan_value lib (Suc n) s) s"
proof (cases "scan_space s")
  case Nil
  then show ?thesis by simp
next
  case s: (Cons c r)
  have l: "Suc (length r) \<le> length s" using length_scan_space [of s] s by simp
  have t: "Suc (2 * length (scan_space r)) < n" "length (scan_space r) \<le> length s"
    using length_scan_space [of r] l assms(1) by simp_all
  have obj: "scans (scan_members lib n [] (scan_space r)) s" using scans_weaken [OF m t(2)] t(1) by simp
  have arr: "scans (scan_elements lib n (scan_space r)) s" by (rule scans_weaken [OF e [OF t(1)] t(2)])
  have short: "scan_space r = d # r' \<Longrightarrow> length r' < length s" for d r' using t(2) by simp
  have str: "scans (Some (map_sum id snd (scan_string lib (b # r)))) s" for b
    using length_scan_string [of lib b r] l by (cases "scan_string lib (b # r)") fastforce+
  have num: "scans (Some (scan_number lib (b # r))) s" for b
    using length_scan_number [of lib "b # r"] l by (cases "scan_number lib (b # r)") fastforce+
  have lit: "scans (Some (scan_literal w (b # r))) s" if "w \<noteq> []" for w b
    using length_scan_literal [of w "b # r"] l that by (cases "scan_literal w (b # r)") fastforce+
  show ?thesis
    using obj arr short by (cases "scan_space r") (auto simp: s str num lit)
qed

lemma members_step:
  assumes "2 * length s < Suc n" and v: "\<And>t. 2 * length t < n \<Longrightarrow> scans (scan_value lib n t) t"
    and m: "\<And>t seen. 2 * length t < n \<Longrightarrow> scans (scan_members lib n seen t) t"
  shows "scans (scan_members lib (Suc n) seen s) s"
proof (cases "\<exists>r key r1 r2. scan_space s = quote # r \<and> scan_string lib (quote # r) = Inr (key, r1) \<and> key \<notin> set seen \<and> scan_space r1 = CHR '':'' # r2")
  case False
  then show ?thesis by (auto split: list.splits sum.splits)
next
  case True
  then obtain r key r1 r2 where s: "scan_space s = quote # r" "scan_string lib (quote # r) = Inr (key, r1)" "key \<notin> set seen"
    "scan_space r1 = CHR '':'' # r2" by blast
  have l: "2 * length r2 < n" "length r2 < length s"
    using length_scan_space [of s] length_scan_space [of r1] length_scan_string [OF s(2)] s(1,4) assms(1) by simp_all
  obtain x where x: "scan_value lib n r2 = Some x" "\<And>r3. x = Inr r3 \<Longrightarrow> length r3 < length r2"
    using v [OF l(1)] by (auto simp: scans_def)
  show ?thesis
  proof (cases x)
    case (Inl e)
    then show ?thesis using s x(1) by simp
  next
    case (Inr r3)
    have r3: "length r3 < length r2" using x(2) Inr by simp
    have "scans (scan_members lib n (key # seen) r4) s" if "scan_space r3 = y # r4" for y r4
      using m [of r4 "key # seen"] length_scan_space [of r3] that r3 l by (auto intro: scans_weaken)
    moreover have "length r4 < length s" if "scan_space r3 = y # r4" for y r4
      using length_scan_space [of r3] that r3 l by simp
    ultimately show ?thesis using s x(1) Inr by (cases "scan_space r3") auto
  qed
qed

lemma elements_step:
  assumes "Suc (2 * length s) < Suc n" and v: "\<And>t. 2 * length t < n \<Longrightarrow> scans (scan_value lib n t) t"
    and e: "\<And>t. Suc (2 * length t) < n \<Longrightarrow> scans (scan_elements lib n t) t"
  shows "scans (scan_elements lib (Suc n) s) s"
proof -
  obtain x where x: "scan_value lib n s = Some x" "\<And>r. x = Inr r \<Longrightarrow> length r < length s"
    using v [of s] assms(1) by (auto simp: scans_def)
  show ?thesis
  proof (cases x)
    case (Inl e)
    then show ?thesis using x(1) by simp
  next
    case (Inr r)
    have r: "length r < length s" using x(2) Inr by simp
    have "scans (scan_elements lib n (scan_space r1)) s" if "scan_space r = y # r1" for y r1
      using e [of "scan_space r1"] length_scan_space [of r] length_scan_space [of r1] that r assms(1) by (auto intro: scans_weaken)
    moreover have "length r1 < length s" if "scan_space r = y # r1" for y r1
      using length_scan_space [of r] that r by simp
    ultimately show ?thesis using x(1) Inr by (cases "scan_space r") auto
  qed
qed

lemma scan_terminates:
  "(2 * length s < n \<longrightarrow> scans (scan_value lib n s) s)
     \<and> (2 * length s < n \<longrightarrow> scans (scan_members lib n seen s) s)
     \<and> (Suc (2 * length s) < n \<longrightarrow> scans (scan_elements lib n s) s)"
proof (induction n arbitrary: s seen)
  case (Suc n)
  have v: "\<And>t. 2 * length t < n \<Longrightarrow> scans (scan_value lib n t) t" and m: "\<And>t seen. 2 * length t < n \<Longrightarrow> scans (scan_members lib n seen t) t"
    and e: "\<And>t. Suc (2 * length t) < n \<Longrightarrow> scans (scan_elements lib n t) t"
    using Suc.IH by blast+
  show ?case using value_step [OF _ m e] members_step [OF _ v m] elements_step [OF _ v e] by blast
qed simp

subsection \<open>The values of JSON\<close>

text \<open>A reference: JSON values, how they are written without white space, and having a field twice somewhere.\<close>

datatype jval = JObj "(string \<times> jval) list" | JArr "jval list" | JStr string | JNum string | JTrue | JFalse | JNull

fun jprint :: "jval \<Rightarrow> string" and jmembers :: "(string \<times> jval) list \<Rightarrow> string" and jelems :: "jval list \<Rightarrow> string" where
  "jprint (JObj kvs) = (if kvs = [] then ''{}'' else ''{'' @ jmembers kvs)"
| "jprint (JArr vs) = (if vs = [] then ''[]'' else ''['' @ jelems vs)"
| "jprint (JStr s) = json_string s"
| "jprint (JNum n) = n"
| "jprint JTrue = ''true''"
| "jprint JFalse = ''false''"
| "jprint JNull = ''null''"
| "jmembers [] = []"
| "jmembers ((k, v) # kvs) = json_string k @ '':'' @ jprint v @ (if kvs = [] then ''}'' else '','' @ jmembers kvs)"
| "jelems [] = []"
| "jelems (v # vs) = jprint v @ (if vs = [] then '']'' else '','' @ jelems vs)"

fun repeats :: "jval \<Rightarrow> bool" and repeats_members :: "string list \<Rightarrow> (string \<times> jval) list \<Rightarrow> bool" and repeats_elems :: "jval list \<Rightarrow> bool" where
  "repeats (JObj kvs) = repeats_members [] kvs"
| "repeats (JArr vs) = repeats_elems vs"
| "repeats _ = False"
| "repeats_members seen [] = False"
| "repeats_members seen ((k, v) # kvs) \<longleftrightarrow> k \<in> set seen \<or> repeats v \<or> repeats_members (k # seen) kvs"
| "repeats_elems [] = False"
| "repeats_elems (v # vs) \<longleftrightarrow> repeats v \<or> repeats_elems vs"

text \<open>Literals the code could write: strings of valid UTF-8, and numbers that look like one.\<close>

fun jliteral :: "json_lib \<Rightarrow> jval \<Rightarrow> bool" and jliteral_members :: "json_lib \<Rightarrow> (string \<times> jval) list \<Rightarrow> bool"
and jliteral_elems :: "json_lib \<Rightarrow> jval list \<Rightarrow> bool" where
  "jliteral lib (JObj kvs) = jliteral_members lib kvs"
| "jliteral lib (JArr vs) = jliteral_elems lib vs"
| "jliteral lib (JStr s) = valid_utf8 s"
| "jliteral lib (JNum n) \<longleftrightarrow> n \<noteq> [] \<and> list_all (\<lambda>b. \<not> ends_number b) n \<and> hd n \<notin> {CHR ''{'', CHR ''['', quote, CHR ''t'', CHR ''f'', CHR ''n''}
     \<and> jl_float lib n"
| "jliteral lib _ = True"
| "jliteral_members lib [] = True"
| "jliteral_members lib ((k, v) # kvs) \<longleftrightarrow> valid_utf8 k \<and> jliteral lib v \<and> jliteral_members lib kvs"
| "jliteral_elems lib [] = True"
| "jliteral_elems lib (v # vs) \<longleftrightarrow> jliteral lib v \<and> jliteral_elems lib vs"

definition json_lib_ok :: "json_lib \<Rightarrow> bool" where
  "json_lib_ok lib \<longleftrightarrow> (\<forall>s. valid_utf8 s \<longrightarrow> jl_unquote lib (json_string s) = Some s)"

text \<open>A written string ends where it should.\<close>

definition inside :: "string \<Rightarrow> bool" where
  "inside b \<longleftrightarrow> (\<forall>rest. scan_body (b @ rest) = map_option (\<lambda>(x, r). (b @ x, r)) (scan_body rest))"

lemma inside_Nil: "inside []"
  by (simp add: inside_def option.map_id)

lemma inside_append: "inside a \<Longrightarrow> inside b \<Longrightarrow> inside (a @ b)"
  unfolding inside_def by (simp add: option.map_comp o_def case_prod_beta')

lemma inside_char: "c \<noteq> quote \<Longrightarrow> c \<noteq> backslash \<Longrightarrow> inside [c]"
  by (simp add: inside_def)

lemma inside_escape: "inside [backslash, c]"
  by (simp add: inside_def)

lemma inside_chars: "list_all (\<lambda>c. c \<noteq> quote \<and> c \<noteq> backslash) b \<Longrightarrow> inside b"
proof (induction b)
  case (Cons c b)
  then show ?case using inside_append [OF inside_char [of c], of b] by simp
qed (rule inside_Nil)

lemma inside_ascii: "inside (json_ascii c)"
proof -
  have u: "inside (backslash # ''u00'' @ [x, y])" if "x \<noteq> quote" "x \<noteq> backslash" "y \<noteq> quote" "y \<noteq> backslash" for x y
    using inside_append [OF inside_escape [of "CHR ''u''"] inside_chars [of "''00'' @ [x, y]"]] that
    by (simp add: quote_def backslash_def)
  have h: "hex_digit n \<noteq> quote" "hex_digit n \<noteq> backslash" if "n < 16" for n
    using less_16_cases [OF that] by (auto simp: hex_digit_def quote_def backslash_def)
  have n: "of_char c div 16 < (16 :: nat)" "of_char c mod 16 < (16 :: nat)" by (simp_all add: less_mult_imp_div_less)
  show ?thesis
    using u [OF h [OF n(1)] h [OF n(2)]] inside_escape inside_char [of c] by (simp add: json_ascii_def)
qed

lemma inside_rune:
  assumes "(r, v) \<in> set (runes s)"
  shows "inside (json_rune (r, v))"
proof -
  have esc: "inside (backslash # CHR ''u'' # x)" if "list_all (\<lambda>c. c \<noteq> quote \<and> c \<noteq> backslash) x" for x
    using inside_append [OF inside_escape [of "CHR ''u''"] inside_chars [OF that]] by simp
  have special: "inside (backslash # ''ufffd'')" "inside (backslash # ''u2028'')" "inside (backslash # ''u2029'')"
    by (rule esc, simp add: quote_def backslash_def)+
  show ?thesis
  proof (cases v)
    case False
    then show ?thesis using special by (simp add: json_rune_def)
  next
    case True
    then consider (ascii) c where "r = [c]" | (wide) "wide_rune r" using valid_rune_cases [of r s] assms by auto
    then show ?thesis
    proof cases
      case ascii
      then show ?thesis using True special inside_ascii by (simp add: json_rune_def)
    next
      case wide
      then have "(case r of [c] \<Rightarrow> json_ascii c | _ \<Rightarrow> r) = r" by (auto simp: wide_rune_def split: list.split)
      moreover have "inside r" using wide by (intro inside_chars) (auto simp: wide_rune_def list_all_iff quote_def backslash_def)
      ultimately show ?thesis using True special by (simp add: json_rune_def)
    qed
  qed
qed

lemma scan_written_string:
  assumes "json_lib_ok lib" and "valid_utf8 s"
  shows "scan_string lib (json_string s @ rest) = Inr (s, rest)"
proof -
  have "\<forall>rv \<in> set rs. inside (json_rune rv) \<Longrightarrow> inside (concat (map json_rune rs))" for rs
    by (induction rs) (auto intro: inside_Nil inside_append)
  then have "inside (concat (map json_rune (runes s)))" using inside_rune by fast
  then have "scan_body (concat (map json_rune (runes s)) @ quote # rest) = Some (concat (map json_rune (runes s)), rest)"
    by (simp add: inside_def quote_def backslash_def)
  then show ?thesis
    using assms by (simp add: scan_string_def json_string_def json_lib_ok_def)
qed

subsection \<open>What the scanner accepts\<close>

text \<open>The answer for a value with or without a repeated field.\<close>

definition answers :: "bool \<Rightarrow> (LaunchError + string) option \<Rightarrow> string \<Rightarrow> bool" where
  "answers rep res rest \<longleftrightarrow> (if rep then \<exists>e. res = Some (Inl e) \<and> errorCode e = ErrDuplicateField else res = Some (Inr rest))"

lemma space_quote: "scan_space (json_string k @ rest) = json_string k @ rest" "\<exists>r. json_string k @ rest = quote # r"
  by (simp_all add: json_string_def scan_space_def isJSONSpace_def quote_def)

lemma space_at [simp]:
  "scan_space (CHR '':'' # r) = CHR '':'' # r" "scan_space (CHR '','' # r) = CHR '','' # r"
  "scan_space (CHR '']'' # r) = CHR '']'' # r" "scan_space (CHR ''}'' # r) = CHR ''}'' # r"
  "scan_space (CHR ''{'' # r) = CHR ''{'' # r" "scan_space (CHR ''['' # r) = CHR ''['' # r"
  "scan_space (CHR ''t'' # r) = CHR ''t'' # r" "scan_space (CHR ''f'' # r) = CHR ''f'' # r" "scan_space (CHR ''n'' # r) = CHR ''n'' # r"
  by (simp_all add: scan_space_def isJSONSpace_def)

definition at_end :: "string \<Rightarrow> bool" where
  "at_end rest \<longleftrightarrow> rest = [] \<or> ends_number (hd rest)"

lemma number_answer:
  assumes "n \<noteq> []" and "list_all (\<lambda>b. \<not> ends_number b) n" and "jl_float lib n" and "at_end rest"
  shows "scan_number lib (n @ rest) = Inr rest"
proof -
  have "takeWhile (\<lambda>b. \<not> ends_number b) (n @ rest) = n"
    using assms(2,4) by (cases rest) (auto simp: list_all_iff at_end_def)
  then show ?thesis using assms(1,3) by (simp add: scan_number_def Let_def)
qed

text \<open>A written value starts with no white space, and with no closing bracket.\<close>

lemma written_start:
  assumes "jliteral lib v"
  shows "\<exists>c r. jprint v = c # r \<and> \<not> ends_number c"
  using assms by (cases v; cases "case v of JNum n \<Rightarrow> n | _ \<Rightarrow> []")
    (auto simp: json_string_def quote_def ends_number_def isJSONSpace_def list_all_iff hd_conv_nth)

lemma space_written: "jliteral lib v \<Longrightarrow> scan_space (jprint v @ rest) = jprint v @ rest"
  using written_start [of lib v] by (auto simp: scan_space_def ends_number_def)

lemma scan_written:
  assumes "json_lib_ok lib"
  shows "jliteral lib v \<Longrightarrow> at_end rest \<Longrightarrow> 2 * length (jprint v) < n \<Longrightarrow>
      answers (repeats v) (scan_value lib n (jprint v @ rest)) rest"
    and "jliteral_members lib kvs \<Longrightarrow> kvs \<noteq> [] \<Longrightarrow> 2 * length (jmembers kvs) < n \<Longrightarrow>
      answers (repeats_members seen kvs) (scan_members lib n seen (jmembers kvs @ rest)) rest"
    and "jliteral_elems lib vs \<Longrightarrow> vs \<noteq> [] \<Longrightarrow> Suc (2 * length (jelems vs)) < n \<Longrightarrow>
      answers (repeats_elems vs) (scan_elements lib n (jelems vs @ rest)) rest"
proof (induction v and kvs and vs arbitrary: n rest and n rest seen and n rest rule: jprint_jmembers_jelems.induct)
  case (1 kvs)
  then obtain m where n: "n = Suc m" by (cases n) auto
  show ?case
  proof (cases kvs)
    case Nil
    then show ?thesis by (simp add: n answers_def)
  next
    case (Cons kv kvs')
    have ne: "kvs \<noteq> []" using Cons by simp
    obtain r where r: "jmembers kvs @ rest = quote # r" using Cons space_quote(2) by (cases kv) fastforce
    have "scan_space (quote # r) = quote # r" by (simp add: scan_space_def isJSONSpace_def quote_def)
    then have "scan_value lib n (jprint (JObj kvs) @ rest) = scan_members lib m [] (jmembers kvs @ rest)"
      using ne by (simp add: n r quote_def)
    then show ?thesis using 1 ne n by simp
  qed
next
  case (2 vs)
  then obtain m where n: "n = Suc m" by (cases n) auto
  show ?case
  proof (cases vs)
    case Nil
    then show ?thesis by (simp add: n answers_def)
  next
    case (Cons v vs')
    have ne: "vs \<noteq> []" and l: "jliteral lib v" using 2 Cons by simp_all
    obtain c r where r: "jelems vs @ rest = c # r" "\<not> ends_number c" using written_start [OF l] Cons by auto
    have "scan_space (c # r) = c # r" using r(2) by (simp add: scan_space_def ends_number_def)
    then have "scan_value lib n (jprint (JArr vs) @ rest) = scan_elements lib m (jelems vs @ rest)"
      using ne r(2) by (simp add: n r(1) ends_number_def)
    then show ?thesis using 2 ne n by simp
  qed
next
  case (3 s)
  then obtain m where n: "n = Suc m" by (cases n) auto
  obtain r where r: "json_string s @ rest = quote # r" using space_quote(2) by blast
  then show ?case using 3 scan_written_string [OF assms, of s rest] space_quote(1) [of s rest]
    by (simp add: n answers_def quote_def)
next
  case (4 x)
  then obtain m where n: "n = Suc m" by (cases n) auto
  obtain c r where x: "x = c # r" using 4 by (cases x) auto
  have "scan_space (x @ rest) = x @ rest" using 4 x by (simp add: scan_space_def ends_number_def)
  then show ?case using 4 x number_answer [of x lib rest] by (simp add: n answers_def)
next
  case (9 k v kvs)
  then obtain m where n: "n = Suc m" by (cases n) auto
  let ?tail = "(if kvs = [] then ''}'' else '','' @ jmembers kvs) @ rest"
  have l: "jliteral lib v" "valid_utf8 k" using 9 by simp_all
  have e: "at_end ?tail" by (simp add: at_end_def ends_number_def)
  obtain r where r: "json_string k @ '':'' @ jprint v @ ?tail = quote # r" using space_quote(2) by blast
  have key: "scan_string lib (quote # r) = Inr (k, CHR '':'' # jprint v @ ?tail)"
    using scan_written_string [OF assms l(2), of "'':'' @ jprint v @ ?tail"] r by simp
  have sp: "scan_space (quote # r) = quote # r" by (simp add: scan_space_def isJSONSpace_def quote_def)
  have v: "answers (repeats v) (scan_value lib m (jprint v @ ?tail)) ?tail"
    using 9 n l(1) e by simp
  have all: "scan_members lib n seen (jmembers ((k, v) # kvs) @ rest) = (if k \<in> set seen then Some (Inl (failKey ErrDuplicateField k))
      else case scan_value lib m (jprint v @ ?tail) of
          None \<Rightarrow> None
        | Some (Inl e) \<Rightarrow> Some (Inl e)
        | Some (Inr r3) \<Rightarrow> (case scan_space r3 of
              [] \<Rightarrow> Some (Inl (fail ErrCanonical))
            | x # r4 \<Rightarrow>
                if x = CHR ''}'' then Some (Inr r4)
                else if x \<noteq> CHR '','' then Some (Inl (fail ErrCanonical))
                else scan_members lib m (k # seen) r4))"
    using r sp key by (simp add: n)
  show ?case
  proof (cases "k \<in> set seen \<or> repeats v")
    case True
    then show ?thesis using v all by (auto simp: answers_def)
  next
    case False
    then have "scan_members lib n seen (jmembers ((k, v) # kvs) @ rest) = (if kvs = [] then Some (Inr rest) else scan_members lib m (k # seen) (jmembers kvs @ rest))"
      using v all by (auto simp: answers_def)
    then show ?thesis using False 9 n by (auto simp: answers_def)
  qed
next
  case (11 v vs)
  then obtain m where n: "n = Suc m" by (cases n) auto
  let ?tail = "(if vs = [] then '']'' else '','' @ jelems vs) @ rest"
  have l: "jliteral lib v" using 11 by simp
  have e: "at_end ?tail" by (simp add: at_end_def ends_number_def)
  have v: "answers (repeats v) (scan_value lib m (jprint v @ ?tail)) ?tail" using 11 n l e by simp
  have sp: "vs \<noteq> [] \<Longrightarrow> scan_space (jelems vs @ rest) = jelems vs @ rest"
    using 11 space_written by (cases vs) auto
  show ?case
  proof (cases "repeats v")
    case True
    then show ?thesis using v by (auto simp: n answers_def)
  next
    case False
    then have "scan_elements lib n (jelems (v # vs) @ rest) = (if vs = [] then Some (Inr rest) else scan_elements lib m (jelems vs @ rest))"
      using v sp by (auto simp: n answers_def)
    then show ?thesis using False 11 n by (auto simp: answers_def)
  qed
next
  case 5
  then show ?case by (cases n) (simp_all add: answers_def scan_literal_def HasPrefix_def quote_def)
next
  case 6
  then show ?case by (cases n) (simp_all add: answers_def scan_literal_def HasPrefix_def quote_def)
next
  case 7
  then show ?case by (cases n) (simp_all add: answers_def scan_literal_def HasPrefix_def quote_def)
qed simp_all

lemma scanner_answer:
  assumes "json_lib_ok lib" and "jliteral lib v" and "jl_valid lib (jprint v)"
  shows "\<not> repeats v \<Longrightarrow> validateJSONObject lib (jprint v) = (if \<exists>kvs. v = JObj kvs then None else Some (fail ErrInvalidInput))"
    and "repeats v \<Longrightarrow> \<exists>e. validateJSONObject lib (jprint v) = Some e \<and> errorCode e = ErrDuplicateField"
proof -
  obtain c r where c: "jprint v = c # r" "\<not> ends_number c" using written_start [OF assms(2)] by blast
  have a: "answers (repeats v) (scan_value lib (Suc (2 * length (jprint v))) (jprint v)) []"
    using scan_written(1) [OF assms(1,2), of "[]" "Suc (2 * length (jprint v))"] by (simp add: at_end_def)
  have s: "scan_space (jprint v) = jprint v" using space_written [OF assms(2), of "[]"] by simp
  have obj: "c = CHR ''{'' \<longleftrightarrow> (\<exists>kvs. v = JObj kvs)"
    using c(1) assms(2) by (cases v) (auto simp: json_string_def quote_def split: if_splits)
  show "\<not> repeats v \<Longrightarrow> validateJSONObject lib (jprint v) = (if \<exists>kvs. v = JObj kvs then None else Some (fail ErrInvalidInput))"
    using a assms(3) s c(1) obj by (simp add: validateJSONObject_def answers_def scan_space_def del: scan_value.simps)
  show "repeats v \<Longrightarrow> \<exists>e. validateJSONObject lib (jprint v) = Some e \<and> errorCode e = ErrDuplicateField"
    using a assms(3) c(1) by (auto simp: validateJSONObject_def answers_def simp del: scan_value.simps)
qed


definition example_json :: jval where
  "example_json = JObj [(''a'', JArr [JObj [(''b'', JTrue)], JObj [(''b'', JNull)]]), (''b'', JObj [(''c'', JStr ''x''), (''c'', JFalse)])]"

definition example_json_lib :: json_lib where
  "example_json_lib = \<lparr>jl_valid = (\<lambda>s. True), jl_unquote = (\<lambda>s. Some (fst (read_json (tl s)))), jl_float = (\<lambda>s. s = ''1'')\<rparr>"

lemma example_json_lib_ok: "json_lib_ok example_json_lib"
  by (simp add: json_lib_ok_def example_json_lib_def json_string_def read_json_string)


end
