(* ===== verification/Go_Strconv.thy ===== *)
theory Go_Strconv
  imports Go_Prelude
begin

text \<open>
  Decimal numbers of package \<open>strconv\<close> (\<open>ParseInt\<close>, \<open>ParseUint\<close>, \<open>FormatInt\<close>, \<open>FormatUint\<close> in base 10), and the times of package
  \<open>time\<close> as Unix seconds.
\<close>

definition dec_digit :: "nat \<Rightarrow> char" where
  "dec_digit d = char_of (48 + d)"

definition dec_val :: "char \<Rightarrow> nat" where
  "dec_val c = of_char c - 48"

fun FormatUint :: "nat \<Rightarrow> string" where
  "FormatUint n = (if n < 10 then [dec_digit n] else FormatUint (n div 10) @ [dec_digit (n mod 10)])"

definition decimal :: "string \<Rightarrow> nat" where
  "decimal s = foldl (\<lambda>a c. 10 * a + dec_val c) 0 s"

definition ParseUint :: "nat \<Rightarrow> string \<Rightarrow> nat option" where
  "ParseUint bits s = (if s = [] \<or> \<not> list_all is_digit s \<or> 2 ^ bits \<le> decimal s then None else Some (decimal s))"

definition FormatInt :: "int \<Rightarrow> string" where
  "FormatInt i = (if i < 0 then CHR ''-'' # FormatUint (nat (- i)) else FormatUint (nat i))"

definition ParseInt :: "nat \<Rightarrow> string \<Rightarrow> int option" where
  "ParseInt bits s = (case s of
      [] \<Rightarrow> None
    | c # r \<Rightarrow>
        let digits = (if c = CHR ''+'' \<or> c = CHR ''-'' then r else s)
        in (case ParseUint bits digits of
              None \<Rightarrow> None
            | Some n \<Rightarrow>
                if c \<noteq> CHR ''-'' \<and> 2 ^ (bits - 1) \<le> n then None
                else if c = CHR ''-'' \<and> 2 ^ (bits - 1) < n then None
                else Some (if c = CHR ''-'' then - int n else int n)))"

text \<open>Nanoseconds since year 1 and seconds since 1970.\<close>

definition nanos :: int where
  "nanos = 1000000000"

definition unix_epoch :: gotime where
  "unix_epoch = 62135596800 * nanos"

definition Unix :: "gotime \<Rightarrow> int" where
  "Unix t = (t - unix_epoch) div nanos"

definition time_Unix :: "int \<Rightarrow> gotime" where
  "time_Unix s = unix_epoch + s * nanos"

definition Contains :: "string \<Rightarrow> string \<Rightarrow> bool" where
  "Contains s sub \<longleftrightarrow> list_ex (\<lambda>i. HasPrefix (drop i s) sub) [0..<Suc (length s)]"

declare FormatUint.simps [simp del]

lemma ten_cases: "n < 10 \<Longrightarrow> n = 0 \<or> n = 1 \<or> n = 2 \<or> n = 3 \<or> n = 4 \<or> n = 5 \<or> n = 6 \<or> n = 7 \<or> n = 8 \<or> n = (9 :: nat)"
  by presburger

lemma dec_digit: "n < 10 \<Longrightarrow> is_digit (dec_digit n) \<and> dec_val (dec_digit n) = n"
  by (drule ten_cases) (auto simp: is_digit_def dec_digit_def dec_val_def less_eq_char_def)

lemma FormatUint_decimal: "list_all is_digit (FormatUint n) \<and> decimal (FormatUint n) = n \<and> FormatUint n \<noteq> []"
proof (induction n rule: FormatUint.induct)
  case (1 n)
  show ?case
  proof (cases "n < 10")
    case True
    then show ?thesis using dec_digit [of n] by (subst (1 2 3) FormatUint.simps) (simp add: decimal_def)
  next
    case False
    have "FormatUint n = FormatUint (n div 10) @ [dec_digit (n mod 10)]" using False by (subst FormatUint.simps) simp
    then show ?thesis using 1 [OF False] dec_digit [of "n mod 10"] by (simp add: decimal_def)
  qed
qed

lemma ParseUint_Format: "n < 2 ^ bits \<Longrightarrow> ParseUint bits (FormatUint n) = Some n"
  using FormatUint_decimal [of n] by (simp add: ParseUint_def)

lemma Unix_time: "Unix (time_Unix s) = s" "time_Unix (Unix t) \<le> t" "Unix t \<le> Unix u \<longleftrightarrow> time_Unix (Unix t) \<le> u"
proof -
  have n: "(0 :: int) < nanos" by (simp add: nanos_def)
  show "Unix (time_Unix s) = s" using n by (simp add: Unix_def time_Unix_def)
  show "time_Unix (Unix t) \<le> t" using n by (simp add: Unix_def time_Unix_def nanos_def)
  show "Unix t \<le> Unix u \<longleftrightarrow> time_Unix (Unix t) \<le> u"
    using n by (simp add: Unix_def time_Unix_def nanos_def) linarith
qed

end
