(* ===== verification/Launch_Manifest.thy ===== *)
theory Launch_Manifest
  imports Json_Scanner Go_Strconv Go_Base64
begin

text \<open>
  Signed launch manifests, \<open>src/internal/secretlaunch/manifest.go\<close>, and their renewal, \<open>renew.go\<close>: what a launch may start and
  which secrets, in which versions, it may have.

  A Go map is the list of its entries in ascending order of the keys, so that equal maps are equal lists; a loop over a map
  that stops at the first bad entry reports the first one of that order. Slices and maps that may be empty in a valid manifest are \<open>nilable\<close>,
  since \<open>json.Marshal\<close> and \<open>reflect.DeepEqual\<close> tell \<open>nil\<close> from empty; for the others, which the code refuses in both
  cases, the empty list stands for both. The counts and intervals of \<open>HealthSpec\<close> are 32-bit words, since the code multiplies them.

  \<open>json.Marshal\<close> is written out for the three documents; it does not fail on these types. Parameters (\<open>launch_lib\<close>):
  the strict decoder of package \<open>encoding/json\<close>, whose answers the code compares with what it writes, the functions the scanner uses, SHA-256, Ed25519, and the
  Unicode upper-case table.
\<close>

subsection \<open>Data\<close>

type_synonym smap = "(string \<times> string) list"
type_synonym 'a nilable = "'a list option"

definition items :: "'a nilable \<Rightarrow> 'a list" where
  "items x = (case x of None \<Rightarrow> [] | Some xs \<Rightarrow> xs)"

record ManifestKey =
  mk_Name :: string
  mk_Version :: string
  mk_Env :: string

record ChildSpec =
  cs_Argv :: "string list"
  cs_User :: string
  cs_Environment :: "(string \<times> string) nilable"

record HealthSpec =
  hs_Command :: "string list"
  hs_IntervalMS :: "32 word"
  hs_TimeoutMS :: "32 word"
  hs_Retries :: "32 word"
  hs_HeartbeatIntervalMS :: "32 word"
  hs_HeartbeatTimeoutMS :: "32 word"

record ServiceAuthority =
  sa_Name :: string
  sa_Image :: string
  sa_User :: string
  sa_Argv :: "string list"
  sa_Environment :: "(string \<times> string) nilable"
  sa_Labels :: "(string \<times> string) nilable"
  sa_Networks :: "string nilable"
  sa_Restart :: string
  sa_OpenStdin :: bool
  sa_Health :: HealthSpec
  sa_Dependencies :: "string nilable"
  sa_Keys :: "ManifestKey list"
  sa_WrapperDigest :: string
  sa_Child :: ChildSpec

record ArtifactDigests =
  ad_Helper :: string
  ad_Supervisor :: string
  ad_Compose :: string

record Manifest =
  lm_Version :: string
  lm_RuntimeID :: string
  lm_Role :: string
  lm_Generation :: "64 word"
  lm_IssuedAt :: int
  lm_ExpiresAt :: int
  lm_Nonce :: string
  lm_Services :: "ServiceAuthority list"
  lm_Digests :: ArtifactDigests

record SignedManifest =
  sg_Manifest :: Manifest
  sg_KeyID :: string
  sg_Signature :: string

record LaunchBinding =
  lb_RuntimeID :: string
  lb_Service :: string
  lb_Role :: string
  lb_Generation :: "64 word"
  lb_ExpiresAt :: int
  lb_Nonce :: string

record TrustPolicy =
  tp_AllowedSigningKeys :: smap
  tp_AllowedVersions :: "(string \<times> bool) list"
  tp_AllowedRuntimeIDs :: "(string \<times> bool) list"
  tp_AllowedRoles :: "(string \<times> bool) list"
  tp_KeyVersions :: "(string \<times> (string \<times> bool) list) list"

record TrustDocument =
  td_Keys :: smap
  td_Versions :: "string list"
  td_RuntimeIDs :: "string list"
  td_Roles :: "string list"
  td_KeyVersions :: "(string \<times> (string \<times> bool) list) list"

record launch_lib =
  ll_json :: json_lib
  ll_decode :: "string \<Rightarrow> Manifest option"
  ll_decodeSigned :: "string \<Rightarrow> SignedManifest option"
  ll_decodeTrust :: "string \<Rightarrow> TrustDocument option"
  ll_sha :: "string \<Rightarrow> string"
  ll_sign :: "string \<Rightarrow> string \<Rightarrow> string"
  ll_verify :: "string \<Rightarrow> string \<Rightarrow> string \<Rightarrow> bool"
  ll_public :: "string \<Rightarrow> string"
  ll_upper :: "string \<Rightarrow> string"

definition ManifestVersion :: string where
  "ManifestVersion = ''v2''"

definition MaxManifestTTL :: int where
  "MaxManifestTTL = 15 * 60 * nanos"

definition HeartbeatSafetyFactor :: "32 word" where
  "HeartbeatSafetyFactor = 3"

definition MaxHeartbeatIntervalMS :: "32 word" where
  "MaxHeartbeatIntervalMS = 5 * 60 * 1000"

definition MaxHeartbeatTimeoutMS :: "32 word" where
  "MaxHeartbeatTimeoutMS = 15 * 60 * 1000"

text \<open>A missing entry of a Go map reads as the zero value.\<close>

definition get :: "smap \<Rightarrow> string \<Rightarrow> string" where
  "get m k = (case map_of m k of None \<Rightarrow> [] | Some v \<Rightarrow> v)"

definition allowed :: "(string \<times> bool) list \<Rightarrow> string \<Rightarrow> bool" where
  "allowed m k \<longleftrightarrow> map_of m k = Some True"

subsection \<open>What json.Marshal writes\<close>

definition strings_json :: "string list \<Rightarrow> jval" where
  "strings_json xs = JArr (map JStr xs)"

definition nilable_json :: "('a list \<Rightarrow> jval) \<Rightarrow> 'a nilable \<Rightarrow> jval" where
  "nilable_json f x = (case x of None \<Rightarrow> JNull | Some xs \<Rightarrow> f xs)"

definition map_json :: "('a \<Rightarrow> jval) \<Rightarrow> (string \<times> 'a) list \<Rightarrow> jval" where
  "map_json f m = JObj (map (\<lambda>(k, v). (k, f v)) m)"

definition bool_json :: "bool \<Rightarrow> jval" where
  "bool_json b = (if b then JTrue else JFalse)"

definition u32_json :: "32 word \<Rightarrow> jval" where
  "u32_json w = JNum (FormatUint (unat w))"

definition key_json :: "ManifestKey \<Rightarrow> jval" where
  "key_json k = JObj [(''name'', JStr (mk_Name k)), (''version'', JStr (mk_Version k)), (''env'', JStr (mk_Env k))]"

definition child_json :: "ChildSpec \<Rightarrow> jval" where
  "child_json c = JObj [(''argv'', strings_json (cs_Argv c)), (''user'', JStr (cs_User c)),
     (''environment'', nilable_json (map_json JStr) (cs_Environment c))]"

definition health_json :: "HealthSpec \<Rightarrow> jval" where
  "health_json h = JObj [(''command'', strings_json (hs_Command h)), (''interval_ms'', u32_json (hs_IntervalMS h)),
     (''timeout_ms'', u32_json (hs_TimeoutMS h)), (''retries'', u32_json (hs_Retries h)),
     (''heartbeat_interval_ms'', u32_json (hs_HeartbeatIntervalMS h)), (''heartbeat_timeout_ms'', u32_json (hs_HeartbeatTimeoutMS h))]"

definition service_json :: "ServiceAuthority \<Rightarrow> jval" where
  "service_json s = JObj [(''name'', JStr (sa_Name s)), (''image'', JStr (sa_Image s)), (''user'', JStr (sa_User s)),
     (''argv'', strings_json (sa_Argv s)), (''environment'', nilable_json (map_json JStr) (sa_Environment s)),
     (''labels'', nilable_json (map_json JStr) (sa_Labels s)), (''networks'', nilable_json strings_json (sa_Networks s)),
     (''restart'', JStr (sa_Restart s)), (''open_stdin'', bool_json (sa_OpenStdin s)), (''health'', health_json (sa_Health s)),
     (''dependencies'', nilable_json strings_json (sa_Dependencies s)), (''keys'', JArr (map key_json (sa_Keys s))),
     (''wrapper_digest'', JStr (sa_WrapperDigest s)), (''child'', child_json (sa_Child s))]"

definition digests_json :: "ArtifactDigests \<Rightarrow> jval" where
  "digests_json d = JObj [(''helper'', JStr (ad_Helper d)), (''supervisor'', JStr (ad_Supervisor d)), (''compose'', JStr (ad_Compose d))]"

definition manifest_json :: "Manifest \<Rightarrow> jval" where
  "manifest_json m = JObj [(''version'', JStr (lm_Version m)), (''runtime_id'', JStr (lm_RuntimeID m)), (''role'', JStr (lm_Role m)),
     (''generation'', JNum (FormatUint (unat (lm_Generation m)))), (''issued_at'', JNum (FormatInt (lm_IssuedAt m))),
     (''expires_at'', JNum (FormatInt (lm_ExpiresAt m))), (''nonce'', JStr (lm_Nonce m)),
     (''services'', JArr (map service_json (lm_Services m))), (''digests'', digests_json (lm_Digests m))]"

definition marshal_manifest :: "Manifest \<Rightarrow> string" where
  "marshal_manifest m = jprint (manifest_json m)"

definition signed_json :: "SignedManifest \<Rightarrow> jval" where
  "signed_json d = JObj [(''manifest'', manifest_json (sg_Manifest d)), (''key_id'', JStr (sg_KeyID d)), (''signature'', JStr (sg_Signature d))]"

definition marshal_signed :: "SignedManifest \<Rightarrow> string" where
  "marshal_signed d = jprint (signed_json d)"

definition marshal_trust :: "TrustDocument \<Rightarrow> string" where
  "marshal_trust t = jprint (JObj [(''keys'', map_json JStr (td_Keys t)), (''versions'', strings_json (td_Versions t)),
     (''runtime_ids'', strings_json (td_RuntimeIDs t)), (''roles'', strings_json (td_Roles t)),
     (''key_versions'', map_json (map_json bool_json) (td_KeyVersions t))])"

subsection \<open>Names\<close>

definition alnum :: "char \<Rightarrow> bool" where
  "alnum c \<longleftrightarrow> is_upper c \<or> is_lower c \<or> is_digit c"

definition validNonce :: "string \<Rightarrow> bool" where
  "validNonce val \<longleftrightarrow> 16 \<le> length val \<and> length val \<le> 128 \<and> list_all (\<lambda>c. alnum c \<or> c \<in> set ''._~-'') val"

definition validKeyName :: "string \<Rightarrow> bool" where
  "validKeyName val \<longleftrightarrow> val \<noteq> [] \<and> length val \<le> MaxKeyLength \<and> list_all (\<lambda>c. \<not> blank_byte c) val"

definition validEnvName :: "string \<Rightarrow> bool" where
  "validEnvName val \<longleftrightarrow> val \<noteq> [] \<and> length val \<le> MaxKeyLength
     \<and> (is_upper (hd val) \<or> is_lower (hd val) \<or> hd val = CHR ''_'')
     \<and> list_all (\<lambda>c. alnum c \<or> c = CHR ''_'') (tl val)"

definition validServiceName :: "string \<Rightarrow> bool" where
  "validServiceName val \<longleftrightarrow> val \<noteq> [] \<and> length val \<le> MaxKeyLength \<and> list_all (\<lambda>c. alnum c \<or> c \<in> set ''-_.'') val"

definition equalStringMap :: "smap \<Rightarrow> smap \<Rightarrow> bool" where
  "equalStringMap xs ys \<longleftrightarrow> length xs = length ys \<and> list_all (\<lambda>(key, val). get ys key = val) xs"

definition validProviderVersion :: "string \<Rightarrow> bool" where
  "validProviderVersion val \<longleftrightarrow> (case ParseInt 64 val of None \<Rightarrow> False | Some version \<Rightarrow> 0 < version \<and> FormatInt version = val)"

definition launch_validDigest :: "string \<Rightarrow> bool" where
  "launch_validDigest val \<longleftrightarrow> length val = 71 \<and> HasPrefix val ''sha256:'' \<and> list_all is_lower_hex (drop 7 val)"

definition secretLikeName :: "launch_lib \<Rightarrow> string \<Rightarrow> bool" where
  "secretLikeName lib val \<longleftrightarrow>
     list_ex (Contains (ToUpper (ll_upper lib) val))
       [''SECRET'', ''PASSWORD'', ''TOKEN'', ''CREDENTIAL'', ''PRIVATE_KEY'', ''API_KEY'']"

definition validArguments :: "string list \<Rightarrow> LaunchError option" where
  "validArguments values =
     (if values = [] \<or> 1024 < length values \<or> list_ex (\<lambda>v. v = [] \<or> CHR 0x00 \<in> set v) values
      then Some (fail ErrInvalidInput) else None)"

definition validHealth :: "HealthSpec \<Rightarrow> LaunchError option" where
  "validHealth health =
     (if hs_IntervalMS health = 0 \<or> hs_TimeoutMS health = 0 \<or> hs_Retries health = 0 then Some (fail ErrInvalidInput)
      else if hs_HeartbeatIntervalMS health = 0 \<or> hs_HeartbeatTimeoutMS health = 0
        \<or> hs_HeartbeatIntervalMS health > MaxHeartbeatIntervalMS
        \<or> hs_HeartbeatTimeoutMS health > MaxHeartbeatTimeoutMS
        \<or> hs_HeartbeatIntervalMS health > (- 1) div HeartbeatSafetyFactor
        \<or> hs_HeartbeatTimeoutMS health < hs_HeartbeatIntervalMS health * HeartbeatSafetyFactor
      then Some (fail ErrInvalidInput)
      else validArguments (hs_Command health))"

definition pinnedImage :: "string \<Rightarrow> bool" where
  "pinnedImage val = (case Cut val (CHR ''@'') of (pre, digest, found) \<Rightarrow> found \<and> pre \<noteq> [] \<and> launch_validDigest digest)"

subsection \<open>Validation\<close>

text \<open>Names in strictly ascending order, each of them \<open>valid\<close>.\<close>

fun ascending :: "(string \<Rightarrow> bool) \<Rightarrow> string \<Rightarrow> string list \<Rightarrow> bool" where
  "ascending valid prev [] = True"
| "ascending valid prev (x # xs) \<longleftrightarrow> valid x \<and> \<not> x \<le> prev \<and> ascending valid x xs"

fun check_keys :: "smap \<Rightarrow> string list \<Rightarrow> string \<Rightarrow> ManifestKey list \<Rightarrow> LaunchError option" where
  "check_keys env envNames prev [] = None"
| "check_keys env envNames prev (key # keys) =
     (if \<not> validKeyName (mk_Name key) \<or> \<not> validProviderVersion (mk_Version key) \<or> \<not> validEnvName (mk_Env key)
         \<or> mk_Name key \<le> prev
         \<or> map_of env (mk_Env key) \<noteq> None
         \<or> mk_Env key \<in> set envNames
      then Some (failKey ErrKey (mk_Name key))
      else check_keys env (mk_Env key # envNames) (mk_Name key) keys)"

definition check_environment :: "launch_lib \<Rightarrow> ErrorCode \<Rightarrow> smap \<Rightarrow> LaunchError option" where
  "check_environment lib code = check_all (\<lambda>(key, val).
     if \<not> validEnvName key \<or> secretLikeName lib key \<or> CHR 0x00 \<in> set val then Some (failKey code key) else None)"

definition check_labels :: "launch_lib \<Rightarrow> ErrorCode \<Rightarrow> smap \<Rightarrow> LaunchError option" where
  "check_labels lib code = check_all (\<lambda>(key, val).
     if key = [] \<or> HasPrefix key ''com.skret.secret-launch'' \<or> secretLikeName lib key \<or> secretLikeName lib val
        \<or> CHR 0x00 \<in> set key \<or> CHR 0x00 \<in> set val
     then Some (failKey code key) else None)"

definition validateServiceAuthority :: "launch_lib \<Rightarrow> ServiceAuthority \<Rightarrow> LaunchError option" where
  "validateServiceAuthority lib s =
     (if \<not> validServiceName (sa_Name s) \<or> \<not> pinnedImage (sa_Image s) \<or> sa_User s = [] \<or> CHR 0x00 \<in> set (sa_User s)
         \<or> sa_Restart s \<noteq> ''no'' \<or> \<not> sa_OpenStdin s \<or> \<not> launch_validDigest (sa_WrapperDigest s)
      then Some (fail ErrInvalidInput)
      else first_err (validArguments (sa_Argv s))
        (if cs_Argv (sa_Child s) = [] \<or> cs_User (sa_Child s) = [] \<or> CHR 0x00 \<in> set (cs_User (sa_Child s))
            \<or> validArguments (cs_Argv (sa_Child s)) \<noteq> None
            \<or> \<not> equalStringMap (items (cs_Environment (sa_Child s))) (items (sa_Environment s))
         then Some (fail ErrInvalidInput)
         else first_err (validHealth (sa_Health s))
           (if sa_Keys s = [] \<or> 1024 < length (sa_Keys s) then Some (fail ErrInvalidInput)
            else first_err (check_keys (items (sa_Environment s)) [] [] (sa_Keys s))
              (if \<not> ascending (\<lambda>d. validServiceName d \<and> d \<noteq> sa_Name s) [] (items (sa_Dependencies s))
                  \<or> \<not> ascending validServiceName [] (items (sa_Networks s))
               then Some (fail ErrInvalidInput)
               else first_err (check_environment lib ErrInvalidInput (items (sa_Environment s)))
                      (check_labels lib ErrInvalidInput (items (sa_Labels s)))))))"

fun check_services :: "launch_lib \<Rightarrow> string \<Rightarrow> ServiceAuthority list \<Rightarrow> bool" where
  "check_services lib prev [] = True"
| "check_services lib prev (s # ss) \<longleftrightarrow>
     \<not> sa_Name s \<le> prev \<and> validateServiceAuthority lib s = None \<and> check_services lib (sa_Name s) ss"

definition Manifest_Validate :: "launch_lib \<Rightarrow> Manifest \<Rightarrow> LaunchError option" where
  "Manifest_Validate lib m =
     (if lm_Version m \<noteq> ManifestVersion \<or> \<not> validServiceName (lm_RuntimeID m) \<or> \<not> validServiceName (lm_Role m)
         \<or> lm_Generation m = 0
      then Some (fail ErrInvalidInput)
      else if lm_IssuedAt m \<le> 0 \<or> lm_ExpiresAt m \<le> lm_IssuedAt m \<or> MaxManifestTTL div nanos < lm_ExpiresAt m - lm_IssuedAt m
      then Some (fail ErrTTL)
      else if \<not> validNonce (lm_Nonce m) \<or> lm_Services m = [] \<or> 256 < length (lm_Services m)
         \<or> \<not> check_services lib [] (lm_Services m)
         \<or> \<not> list_all launch_validDigest [ad_Helper (lm_Digests m), ad_Supervisor (lm_Digests m), ad_Compose (lm_Digests m)]
      then Some (fail ErrInvalidInput) else None)"

definition ValidateAt :: "launch_lib \<Rightarrow> Manifest \<Rightarrow> gotime \<Rightarrow> LaunchError option" where
  "ValidateAt lib m now = first_err (Manifest_Validate lib m)
     (if Unix now < lm_IssuedAt m then Some (fail ErrNotYetValid)
      else if lm_ExpiresAt m \<le> Unix now then Some (fail ErrExpired) else None)"

definition Manifest_CanonicalBytes :: "launch_lib \<Rightarrow> Manifest \<Rightarrow> LaunchError + string" where
  "Manifest_CanonicalBytes lib m = (case Manifest_Validate lib m of Some e \<Rightarrow> Inl e | None \<Rightarrow> Inr (marshal_manifest m))"

definition Manifest_Digest :: "launch_lib \<Rightarrow> Manifest \<Rightarrow> LaunchError + string" where
  "Manifest_Digest lib m = map_sum id (ll_sha lib) (Manifest_CanonicalBytes lib m)"

definition Manifest_Service :: "Manifest \<Rightarrow> string \<Rightarrow> ServiceAuthority option" where
  "Manifest_Service m name = find (\<lambda>s. sa_Name s = name) (lm_Services m)"

definition MatchBinding :: "Manifest \<Rightarrow> LaunchBinding \<Rightarrow> LaunchError option" where
  "MatchBinding m b =
     (if lb_RuntimeID b = [] \<or> lb_Service b = [] \<or> lm_RuntimeID m \<noteq> lb_RuntimeID b \<or> Manifest_Service m (lb_Service b) = None
         \<or> (lb_Role b \<noteq> [] \<and> lm_Role m \<noteq> lb_Role b) \<or> (lb_Generation b \<noteq> 0 \<and> lm_Generation m \<noteq> lb_Generation b)
         \<or> (lb_ExpiresAt b \<noteq> 0 \<and> lm_ExpiresAt m \<noteq> lb_ExpiresAt b) \<or> (lb_Nonce b \<noteq> [] \<and> lm_Nonce m \<noteq> lb_Nonce b)
      then Some (fail ErrBinding) else None)"

subsection \<open>Trust\<close>

definition ValidateTrustPolicy :: "TrustPolicy \<Rightarrow> LaunchError option" where
  "ValidateTrustPolicy policy =
     (if tp_AllowedSigningKeys policy = [] \<or> tp_AllowedVersions policy = [] \<or> tp_AllowedRuntimeIDs policy = []
         \<or> tp_AllowedRoles policy = [] \<or> tp_KeyVersions policy = []
         \<or> list_ex (\<lambda>(keyID, key). keyID = [] \<or> length key \<noteq> 32) (tp_AllowedSigningKeys policy)
      then Some (fail ErrTrust) else None)"

definition verifyManifestTrust :: "launch_lib \<Rightarrow> Manifest \<Rightarrow> string \<Rightarrow> string \<Rightarrow> TrustPolicy \<Rightarrow> LaunchError option" where
  "verifyManifestTrust lib m signature keyID policy =
     first_err (ValidateTrustPolicy policy)
    (case map_of (tp_AllowedSigningKeys policy) keyID of
        None \<Rightarrow> Some (fail ErrSignature)
      | Some public \<Rightarrow>
          if length public \<noteq> 32 \<or> \<not> ll_verify lib public (marshal_manifest m) signature then Some (fail ErrSignature)
          else if \<not> allowed (tp_AllowedVersions policy) (lm_Version m)
            \<or> \<not> allowed (tp_AllowedRuntimeIDs policy) (lm_RuntimeID m) \<or> \<not> allowed (tp_AllowedRoles policy) (lm_Role m)
          then Some (fail ErrTrust)
          else check_all (\<lambda>key. case map_of (tp_KeyVersions policy) (mk_Name key) of
                   None \<Rightarrow> Some (failKey ErrKey (mk_Name key))
                 | Some versions \<Rightarrow> if allowed versions (mk_Version key) then None else Some (failKey ErrKey (mk_Name key)))
                 (concat (map sa_Keys (lm_Services m))))"

definition VerifyManifest :: "launch_lib \<Rightarrow> Manifest \<Rightarrow> string \<Rightarrow> string \<Rightarrow> TrustPolicy \<Rightarrow> gotime \<Rightarrow> LaunchError option" where
  "VerifyManifest lib m signature keyID policy now =
     first_err (ValidateAt lib m now) (verifyManifestTrust lib m signature keyID policy)"

definition SignManifest :: "launch_lib \<Rightarrow> Manifest \<Rightarrow> string \<Rightarrow> string \<Rightarrow> gotime \<Rightarrow> LaunchError + string" where
  "SignManifest lib m keyID private now =
     (if length private \<noteq> 64 \<or> keyID = [] then Inl (fail ErrInvalidInput)
      else case ValidateAt lib m now of
          Some e \<Rightarrow> Inl e
        | None \<Rightarrow> Inr (marshal_signed \<lparr>sg_Manifest = m, sg_KeyID = keyID,
                    sg_Signature = base64_EncodeToString (ll_sign lib private (marshal_manifest m))\<rparr>))"

definition ParseManifest :: "launch_lib \<Rightarrow> string \<Rightarrow> LaunchError + Manifest" where
  "ParseManifest lib data = (case validateJSONObject (ll_json lib) data of
      Some e \<Rightarrow> Inl e
    | None \<Rightarrow> (case ll_decode lib data of
          None \<Rightarrow> Inl (fail ErrUnknownField)
        | Some m \<Rightarrow>
            if marshal_manifest m \<noteq> data then Inl (fail ErrCanonical)
            else (case Manifest_Validate lib m of Some e \<Rightarrow> Inl e | None \<Rightarrow> Inr m)))"

definition ParseSignedManifest :: "launch_lib \<Rightarrow> string \<Rightarrow> LaunchError + SignedManifest" where
  "ParseSignedManifest lib data = (case validateJSONObject (ll_json lib) data of
      Some e \<Rightarrow> Inl e
    | None \<Rightarrow> (case ll_decodeSigned lib data of
          None \<Rightarrow> Inl (fail ErrUnknownField)
        | Some doc \<Rightarrow>
            if marshal_signed doc \<noteq> data then Inl (fail ErrCanonical)
            else (case ParseManifest lib (marshal_manifest (sg_Manifest doc)) of
                Inl e \<Rightarrow> Inl e
              | Inr _ \<Rightarrow>
                  if sg_KeyID doc = [] \<or> sg_Signature doc = [] then Inl (fail ErrSignature) else Inr doc)))"

definition VerifySignedManifest :: "launch_lib \<Rightarrow> string \<Rightarrow> TrustPolicy \<Rightarrow> gotime \<Rightarrow> LaunchError + Manifest" where
  "VerifySignedManifest lib data policy now = (case ParseSignedManifest lib data of
      Inl e \<Rightarrow> Inl e
    | Inr doc \<Rightarrow> (case base64_DecodeString (sg_Signature doc) of
          None \<Rightarrow> Inl (fail ErrSignature)
        | Some signature \<Rightarrow>
            if length signature \<noteq> 64 then Inl (fail ErrSignature)
            else (case VerifyManifest lib (sg_Manifest doc) signature (sg_KeyID doc) policy now of
                Some e \<Rightarrow> Inl e
              | None \<Rightarrow> Inr (sg_Manifest doc))))"

definition boolSet :: "string list \<Rightarrow> (string \<times> bool) list" where
  "boolSet values = (if ascending (\<lambda>v. v \<noteq> []) [] values then map (\<lambda>v. (v, True)) values else [])"

definition LoadTrustDocument :: "launch_lib \<Rightarrow> string \<Rightarrow> LaunchError + TrustPolicy" where
  "LoadTrustDocument lib data = (case validateJSONObject (ll_json lib) data of
      Some e \<Rightarrow> Inl e
    | None \<Rightarrow> (case ll_decodeTrust lib data of
          None \<Rightarrow> Inl (fail ErrTrust)
        | Some document \<Rightarrow>
            if marshal_trust document \<noteq> data then Inl (fail ErrCanonical)
            else if list_ex (\<lambda>(keyID, encoded). case base64_DecodeString encoded of None \<Rightarrow> True | Some key \<Rightarrow> length key \<noteq> 32) (td_Keys document)
            then Inl (fail ErrTrust)
            else let policy = \<lparr>tp_AllowedSigningKeys = map (\<lambda>(keyID, encoded). (keyID, the (base64_DecodeString encoded))) (td_Keys document),
                       tp_AllowedVersions = boolSet (td_Versions document), tp_AllowedRuntimeIDs = boolSet (td_RuntimeIDs document),
                       tp_AllowedRoles = boolSet (td_Roles document), tp_KeyVersions = td_KeyVersions document\<rparr>
                 in (case ValidateTrustPolicy policy of Some e \<Rightarrow> Inl e | None \<Rightarrow> Inr policy)))"

subsection \<open>Renewal\<close>

definition MaxRenewalAge :: int where
  "MaxRenewalAge = 168 * 3600 * nanos"

definition without_window :: "Manifest \<Rightarrow> Manifest" where
  "without_window m = m\<lparr>lm_IssuedAt := 0, lm_ExpiresAt := 0\<rparr>"

definition AuthorityBytes :: "Manifest \<Rightarrow> string" where
  "AuthorityBytes m = marshal_manifest (without_window m)"

definition AuthorityDigest :: "launch_lib \<Rightarrow> Manifest \<Rightarrow> LaunchError + string" where
  "AuthorityDigest lib m = (case Manifest_Validate lib m of Some e \<Rightarrow> Inl e | None \<Rightarrow> Inr (ll_sha lib (AuthorityBytes m)))"

definition RenewManifest :: "launch_lib \<Rightarrow> Manifest \<Rightarrow> gotime \<Rightarrow> int \<Rightarrow> LaunchError + Manifest" where
  "RenewManifest lib base now ttl = (case Manifest_Validate lib base of
      Some e \<Rightarrow> Inl e
    | None \<Rightarrow>
        if ttl < nanos \<or> MaxManifestTTL < ttl then Inl (fail ErrTTL)
        else let renewed = base\<lparr>lm_IssuedAt := Unix now, lm_ExpiresAt := Unix (now + ttl)\<rparr>
             in (case Manifest_Validate lib renewed of Some e \<Rightarrow> Inl e | None \<Rightarrow> Inr renewed))"

definition AcceptRenewal :: "launch_lib \<Rightarrow> Manifest \<Rightarrow> Manifest \<Rightarrow> gotime \<Rightarrow> LaunchError option" where
  "AcceptRenewal lib current candidate now = (case ValidateAt lib candidate now of
      Some e \<Rightarrow> Some e
    | None \<Rightarrow> (case (AuthorityDigest lib current, AuthorityDigest lib candidate) of
          (Inl e, _) \<Rightarrow> Some e
        | (Inr _, Inl e) \<Rightarrow> Some e
        | (Inr want, Inr got) \<Rightarrow>
            if got \<noteq> want then Some (fail ErrBinding)
            else if lm_ExpiresAt candidate < lm_ExpiresAt current then Some (fail ErrReplay) else None))"

definition RenewSignedManifest ::
    "launch_lib \<Rightarrow> string \<Rightarrow> TrustPolicy \<Rightarrow> string \<Rightarrow> gotime \<Rightarrow> int \<Rightarrow> int \<Rightarrow> LaunchError + string" where
  "RenewSignedManifest lib template policy private now ttl maxAge =
     (if maxAge \<le> 0 \<or> MaxRenewalAge < maxAge \<or> length private \<noteq> 64 then Inl (fail ErrInvalidInput)
      else case ParseSignedManifest lib template of
          Inl e \<Rightarrow> Inl e
        | Inr doc \<Rightarrow> (case base64_DecodeString (sg_Signature doc) of
              None \<Rightarrow> Inl (fail ErrSignature)
            | Some signature \<Rightarrow>
                if length signature \<noteq> 64 then Inl (fail ErrSignature)
                else (case verifyManifestTrust lib (sg_Manifest doc) signature (sg_KeyID doc) policy of
                    Some e \<Rightarrow> Inl e
                  | None \<Rightarrow>
                      if ll_public lib private \<noteq> get (tp_AllowedSigningKeys policy) (sg_KeyID doc)
                      then Inl (fail ErrSignature)
                      else let issued = time_Unix (lm_IssuedAt (sg_Manifest doc))
                      in if now < issued then Inl (fail ErrNotYetValid)
                      else if maxAge < now - issued then Inl (fail ErrExpired)
                      else (case RenewManifest lib (sg_Manifest doc) now ttl of
                          Inl e \<Rightarrow> Inl e
                        | Inr renewed \<Rightarrow> SignManifest lib renewed (sg_KeyID doc) private now))))"

end
