(* ===== verification/Launch_Channel.thy ===== *)
theory Launch_Channel
  imports Launch_Manifest
begin

text \<open>
  The encrypted channel between the supervisor and the helper inside a container, \<open>src/internal/secretlaunch/crypto.go\<close> and the frame reader of
  \<open>helper.go\<close>: the handshake, the sessions with their sequence numbers, and the frames on the wire.

  Sequence numbers are 64-bit words. Parameters (\<open>channel_lib\<close>): SHA-256, HMAC-SHA-256, AES-256-GCM and X25519. Random bytes are arguments; \<open>None\<close> is a
  random source that fails. A closed session has an empty key. The receivers and readers are not \<open>nil\<close>; overwriting of buffers (\<open>Zeroize\<close>) is not modelled.
\<close>

record channel_lib =
  cl_sha :: "string \<Rightarrow> string"
  cl_hmac :: "string \<Rightarrow> string \<Rightarrow> string"
  cl_seal :: "string \<Rightarrow> string \<Rightarrow> string \<Rightarrow> string \<Rightarrow> string"
  cl_open :: "string \<Rightarrow> string \<Rightarrow> string \<Rightarrow> string \<Rightarrow> string option"
  cl_public :: "string \<Rightarrow> string"
  cl_ecdh :: "string \<Rightarrow> string \<Rightarrow> string option"

definition messageSecret :: char where
  "messageSecret = CHR 0x01"

definition messageHeartbeat :: char where
  "messageHeartbeat = CHR 0x02"

definition handshakeMagic :: string where
  "handshakeMagic = ''SLH1''"

definition frameMagic :: string where
  "frameMagic = ''SLP1''"

definition handshakeSize :: nat where
  "handshakeSize = 4 + 32"

definition frameHeaderSize :: nat where
  "frameHeaderSize = 4 + 1 + 8 + 12 + 2 + 2 + 4"

definition x25519PublicKeySize :: nat where
  "x25519PublicKeySize = 32"

subsection \<open>Big-endian numbers\<close>

text \<open>\<open>PutUint16\<close>, \<open>PutUint32\<close>, \<open>PutUint64\<close> after the conversion to that width, and their inverses.\<close>

fun put_be :: "nat \<Rightarrow> nat \<Rightarrow> string" where
  "put_be 0 x = []"
| "put_be (Suc n) x = put_be n (x div 256) @ [char_of (x mod 256)]"

definition get_be :: "string \<Rightarrow> nat" where
  "get_be bs = foldl (\<lambda>a b. 256 * a + of_char b) 0 bs"

lemma length_put_be [simp]: "length (put_be n x) = n"
  by (induction n arbitrary: x) simp_all

lemma get_put_be [simp]: "get_be (put_be n x) = x mod 256 ^ n"
proof (induction n arbitrary: x)
  case (Suc n)
  have "get_be (put_be (Suc n) x) = 256 * get_be (put_be n (x div 256)) + x mod 256"
    by (simp add: get_be_def)
  then show ?case by (simp add: Suc mod_mult2_eq)
qed (simp add: get_be_def)

subsection \<open>The handshake\<close>

text \<open>The expansion takes one block per pass; as many passes as bytes are enough.\<close>

fun hkdf_expand :: "channel_lib \<Rightarrow> nat \<Rightarrow> string \<Rightarrow> string \<Rightarrow> nat \<Rightarrow> 8 word \<Rightarrow> string \<Rightarrow> string \<Rightarrow> string" where
  "hkdf_expand lib 0 prk info len counter previous result = result"
| "hkdf_expand lib (Suc n) prk info len counter previous result =
     (if length result < len
      then let block = cl_hmac lib prk (previous @ info @ [char_of (unat counter)])
           in hkdf_expand lib n prk info len (counter + 1) block (result @ block)
      else result)"

definition hkdfSHA256 :: "channel_lib \<Rightarrow> string \<Rightarrow> string \<Rightarrow> string \<Rightarrow> nat \<Rightarrow> string" where
  "hkdfSHA256 lib secret salt info len = take len (hkdf_expand lib len (cl_hmac lib salt secret) info len 1 [] [])"

definition channel_info :: string where
  "channel_info = ''skret secret-launch v2''"

definition Derive :: "channel_lib \<Rightarrow> string \<Rightarrow> string \<Rightarrow> string \<Rightarrow> LaunchError + string" where
  "Derive lib private peer manifestCanonical =
     (if length peer \<noteq> x25519PublicKeySize \<or> manifestCanonical = [] then Inl (fail ErrCrypto)
      else case cl_ecdh lib private peer of
          None \<Rightarrow> Inl (fail ErrCrypto)
        | Some shared \<Rightarrow> Inr (hkdfSHA256 lib shared (cl_sha lib manifestCanonical) channel_info 32))"

definition EncodeHandshake :: "string \<Rightarrow> LaunchError + string" where
  "EncodeHandshake public = (if length public \<noteq> x25519PublicKeySize then Inl (fail ErrCrypto) else Inr (handshakeMagic @ public))"

text \<open>A reader is the bytes it has yet to deliver.\<close>

definition ReadHandshake :: "string \<Rightarrow> (LaunchError + string) \<times> string" where
  "ReadHandshake r =
     (if length r < handshakeSize then (Inl (fail ErrCrypto), [])
      else let buffer = take handshakeSize r
           in (if take 4 buffer \<noteq> handshakeMagic then Inl (fail ErrCrypto) else Inr (drop 4 buffer), drop handshakeSize r))"

subsection \<open>Sessions\<close>

record Frame =
  fr_Kind :: char
  fr_Sequence :: "64 word"
  fr_Key :: string
  fr_Version :: string
  fr_Value :: string

record Session =
  ss_key :: string
  ss_aad :: string
  ss_send :: "64 word"
  ss_received :: "64 word"

definition NewSession :: "channel_lib \<Rightarrow> string \<Rightarrow> string \<Rightarrow> LaunchError + Session" where
  "NewSession lib shared manifestCanonical =
     (if length shared \<noteq> 32 \<or> manifestCanonical = [] then Inl (fail ErrCrypto)
      else let digest = cl_sha lib manifestCanonical
           in Inr \<lparr>ss_key = hkdfSHA256 lib shared digest channel_info 32, ss_aad = digest, ss_send = 0, ss_received = 0\<rparr>)"

definition Session_Close :: "Session \<Rightarrow> Session" where
  "Session_Close s = s\<lparr>ss_key := [], ss_aad := [], ss_received := 0\<rparr>"

definition validateFrameFields :: "string \<Rightarrow> string \<Rightarrow> string \<Rightarrow> LaunchError option" where
  "validateFrameFields key version val =
     (if key = [] \<or> MaxKeyLength < length key \<or> version = [] \<or> MaxKeyLength < length version \<or> MaxValueLength < length val
         \<or> list_ex blank_byte key \<or> list_ex blank_byte version
      then Some (fail ErrFrame) else None)"

definition makeAAD :: "string \<Rightarrow> string \<Rightarrow> string \<Rightarrow> string \<Rightarrow> string" where
  "makeAAD manifestAAD header key version = manifestAAD @ header @ key @ version"

definition frame_header :: "char \<Rightarrow> 64 word \<Rightarrow> string \<Rightarrow> nat \<Rightarrow> nat \<Rightarrow> nat \<Rightarrow> string" where
  "frame_header kind sequence nonce keyLength versionLength ciphertextLength =
     frameMagic @ [kind] @ put_be 8 (unat sequence) @ nonce @ put_be 2 keyLength @ put_be 2 versionLength @ put_be 4 ciphertextLength"

definition session_seal ::
    "channel_lib \<Rightarrow> Session \<Rightarrow> char \<Rightarrow> string \<Rightarrow> string \<Rightarrow> string \<Rightarrow> string option \<Rightarrow> Session \<times> (LaunchError + string)" where
  "session_seal lib s kind key version val random =
     (if length (ss_key s) \<noteq> 32 then (s, Inl (fail ErrFrame))
      else if kind \<noteq> messageSecret \<and> kind \<noteq> messageHeartbeat then (s, Inl (fail ErrFrame))
      else if kind = messageSecret \<and> (key = [] \<or> validateFrameFields key version val \<noteq> None) then (s, Inl (fail ErrFrame))
      else if kind = messageHeartbeat \<and> (key \<noteq> [] \<or> version \<noteq> [] \<or> val \<noteq> []) then (s, Inl (fail ErrFrame))
      else if ss_send s = - 1 then (s, Inl (fail ErrFrame))
      else case random of
          None \<Rightarrow> (s, Inl (fail ErrCrypto))
        | Some nonce \<Rightarrow>
            let sequence = ss_send s + 1; ciphertextLength = length val + 16
            in if MaxValueLength + 16 < ciphertextLength then (s, Inl (fail ErrFrame))
            else if MaxKeyLength < length key \<or> MaxKeyLength < length version then (s, Inl (fail ErrFrame))
            else let header = frame_header kind sequence nonce (length key) (length version) ciphertextLength;
                     aad = makeAAD (ss_aad s) header key version
                 in (s\<lparr>ss_send := sequence\<rparr>, Inr (header @ key @ version @ cl_seal lib (ss_key s) nonce val aad)))"

definition Session_Seal :: "channel_lib \<Rightarrow> Session \<Rightarrow> Frame \<Rightarrow> string option \<Rightarrow> Session \<times> (LaunchError + string)" where
  "Session_Seal lib s f random =
     (if fr_Kind f \<noteq> messageSecret \<or> fr_Key f = [] then (s, Inl (fail ErrFrame))
      else case validateFrameFields (fr_Key f) (fr_Version f) (fr_Value f) of
          Some e \<Rightarrow> (s, Inl e)
        | None \<Rightarrow> session_seal lib s messageSecret (fr_Key f) (fr_Version f) (fr_Value f) random)"

definition SealHeartbeat :: "channel_lib \<Rightarrow> Session \<Rightarrow> string option \<Rightarrow> Session \<times> (LaunchError + string)" where
  "SealHeartbeat lib s random = session_seal lib s messageHeartbeat [] [] [] random"

text \<open>The fields of a header.\<close>

definition header_kind :: "string \<Rightarrow> char" where
  "header_kind wire = wire ! 4"

definition header_sequence :: "string \<Rightarrow> 64 word" where
  "header_sequence wire = of_nat (get_be (take 8 (drop 5 wire)))"

definition header_nonce :: "string \<Rightarrow> string" where
  "header_nonce wire = take 12 (drop 13 wire)"

definition header_lengths :: "string \<Rightarrow> nat \<times> nat \<times> nat" where
  "header_lengths wire = (get_be (take 2 (drop 25 wire)), get_be (take 2 (drop 27 wire)), get_be (take 4 (drop 29 wire)))"

definition Session_Open :: "channel_lib \<Rightarrow> Session \<Rightarrow> string \<Rightarrow> Session \<times> (LaunchError + Frame)" where
  "Session_Open lib s wire =
     (if length wire < frameHeaderSize \<or> MaxFrameLength < length wire \<or> length (ss_key s) \<noteq> 32 \<or> take 4 wire \<noteq> frameMagic
      then (s, Inl (fail ErrFrame))
      else let header = take frameHeaderSize wire; kind = header_kind header; sequence = header_sequence header
      in if kind \<noteq> messageSecret \<and> kind \<noteq> messageHeartbeat then (s, Inl (fail ErrFrame))
      else if sequence = 0 \<or> ss_received s = - 1 \<or> sequence \<noteq> ss_received s + 1 then (s, Inl (fail ErrReplay))
      else case header_lengths header of (keyLength, versionLength, ciphertextLength) \<Rightarrow>
        if MaxKeyLength < keyLength \<or> MaxKeyLength < versionLength \<or> ciphertextLength < 16 \<or> MaxValueLength + 16 < ciphertextLength
           \<or> frameHeaderSize + keyLength + versionLength + ciphertextLength \<noteq> length wire
        then (s, Inl (fail ErrFrame))
        else let key = take keyLength (drop frameHeaderSize wire);
                 version = take versionLength (drop (frameHeaderSize + keyLength) wire);
                 ciphertext = drop (frameHeaderSize + keyLength + versionLength) wire
        in if kind = messageHeartbeat \<and> (keyLength \<noteq> 0 \<or> versionLength \<noteq> 0) then (s, Inl (fail ErrFrame))
        else case (if kind = messageSecret then validateFrameFields key version [] else None) of
            Some e \<Rightarrow> (s, Inl e)
          | None \<Rightarrow> (case cl_open lib (ss_key s) (header_nonce header) ciphertext (makeAAD (ss_aad s) header key version) of
                None \<Rightarrow> (s, Inl (fail ErrCrypto))
              | Some plain \<Rightarrow>
                  if kind = messageHeartbeat \<and> plain \<noteq> [] then (s, Inl (fail ErrFrame))
                  else (s\<lparr>ss_received := sequence\<rparr>,
                    Inr \<lparr>fr_Kind = kind, fr_Sequence = sequence, fr_Key = key, fr_Version = version, fr_Value = plain\<rparr>)))"

text \<open>\<open>readWireFrame\<close>: one frame off a reader. The errors are those of \<open>io.ReadFull\<close> and of a bad header.\<close>

definition readWireFrame :: "string \<Rightarrow> (LaunchError + string) \<times> string" where
  "readWireFrame r =
     (if length r < frameHeaderSize then (Inl (OtherError ''read''), [])
      else let header = take frameHeaderSize r; rest = drop frameHeaderSize r
      in if take 4 header \<noteq> frameMagic then (Inl (OtherError ''invalid frame''), rest)
      else case header_lengths header of (keyLength, versionLength, ciphertextLength) \<Rightarrow>
        let total = frameHeaderSize + keyLength + versionLength + ciphertextLength
        in if MaxKeyLength < keyLength \<or> MaxKeyLength < versionLength \<or> ciphertextLength < 16 \<or> MaxFrameLength < total
           then (Inl (OtherError ''invalid frame''), rest)
           else if length r < total then (Inl (OtherError ''read''), [])
           else (Inr (take total r), drop total r))"

subsection \<open>Headers\<close>

lemma length_header [simp]: "length nonce = 12 \<Longrightarrow> length (frame_header kind sequence nonce k v c) = 33"
  by (simp add: frame_header_def frameMagic_def)

lemma header_fields:
  assumes "length nonce = 12"
  shows "take 4 (frame_header kind sequence nonce k v c) = frameMagic"
    and "header_kind (frame_header kind sequence nonce k v c) = kind"
    and "header_sequence (frame_header kind sequence nonce k v c) = sequence"
    and "header_nonce (frame_header kind sequence nonce k v c) = nonce"
    and "header_lengths (frame_header kind sequence nonce k v c) = (k mod 2 ^ 16, v mod 2 ^ 16, c mod 2 ^ 32)"
proof -
  let ?h = "frame_header kind sequence nonce k v c"
  have d: "drop 5 ?h = put_be 8 (unat sequence) @ nonce @ put_be 2 k @ put_be 2 v @ put_be 4 c"
    "drop 13 ?h = nonce @ put_be 2 k @ put_be 2 v @ put_be 4 c" "drop 25 ?h = put_be 2 k @ put_be 2 v @ put_be 4 c"
    "drop 27 ?h = put_be 2 v @ put_be 4 c" "drop 29 ?h = put_be 4 c"
    using assms by (simp_all add: frame_header_def frameMagic_def)
  show "take 4 ?h = frameMagic" "header_kind ?h = kind" by (simp_all add: frame_header_def frameMagic_def header_kind_def)
  have "unat sequence < 256 ^ 8" using unsigned_less [of sequence] by simp
  then show "header_sequence ?h = sequence" using assms by (simp add: header_sequence_def d)
  show "header_nonce ?h = nonce" using assms by (simp add: header_nonce_def d)
  show "header_lengths ?h = (k mod 2 ^ 16, v mod 2 ^ 16, c mod 2 ^ 32)" by (simp add: header_lengths_def d)
qed

lemma put_get_be: "put_be (length bs) (get_be bs) = bs"
proof (induction bs rule: rev_induct)
  case (snoc b bs)
  have "get_be (bs @ [b]) = 256 * get_be bs + of_char b" by (simp add: get_be_def)
  then show ?case using snoc by (simp add: of_char_of)
qed simp

lemma header_of_fields:
  assumes "length h = 33" and "take 4 h = frameMagic" and "header_lengths h = (k, v, c)"
  shows "h = frame_header (header_kind h) (header_sequence h) (header_nonce h) k v c" and "length (header_nonce h) = 12"
proof -
  have s: "put_be 8 (get_be (take 8 (drop 5 h))) = take 8 (drop 5 h)" "put_be 2 k = take 2 (drop 25 h)" "put_be 2 v = take 2 (drop 27 h)"
    "put_be 4 c = take 4 (drop 29 h)"
    using assms put_get_be [of "take 8 (drop 5 h)"] put_get_be [of "take 2 (drop 25 h)"] put_get_be [of "take 2 (drop 27 h)"]
      put_get_be [of "take 4 (drop 29 h)"]
    by (auto simp: header_lengths_def)
  have "get_be (take 8 (drop 5 h)) mod 256 ^ 8 = get_be (take 8 (drop 5 h))"
    using get_put_be [of 8 "get_be (take 8 (drop 5 h))"] s(1) by metis
  then have q: "put_be 8 (unat (header_sequence h)) = take 8 (drop 5 h)"
    using s(1) by (simp add: header_sequence_def unat_of_nat)
  have "h = take 4 h @ take 1 (drop 4 h) @ take 8 (drop 5 h) @ take 12 (drop 13 h) @ take 2 (drop 25 h) @ take 2 (drop 27 h) @ take 4 (drop 29 h)"
  proof -
    have t: "drop n h = take m (drop n h) @ drop (n + m) h" for n m by (metis append_take_drop_id drop_drop add.commute)
    have "drop 33 h = []" using assms(1) by simp
    then show ?thesis
      using append_take_drop_id [of 4 h] t [of 4 1] t [of 5 8] t [of 13 12] t [of 25 2] t [of 27 2] t [of 29 4] by simp
  qed
  moreover have "take 1 (drop 4 h) = [header_kind h]"
    using assms(1) by (simp add: header_kind_def take_Suc_conv_app_nth hd_drop_conv_nth take_Suc)
  ultimately show "h = frame_header (header_kind h) (header_sequence h) (header_nonce h) k v c"
    using assms(2) s q by (simp add: frame_header_def header_nonce_def)
  show "length (header_nonce h) = 12" using assms(1) by (simp add: header_nonce_def)
qed

subsection \<open>Sealed frames\<close>

text \<open>Documented behaviour of the libraries: the lengths of tags, codes and keys, GCM opens what it sealed, and both sides of X25519 agree.\<close>

definition channel_lib_ok :: "channel_lib \<Rightarrow> bool" where
  "channel_lib_ok lib \<longleftrightarrow>
     (\<forall>key nonce plain aad. length key = 32 \<longrightarrow> length nonce = 12 \<longrightarrow> length (cl_seal lib key nonce plain aad) = length plain + 16
        \<and> cl_open lib key nonce (cl_seal lib key nonce plain aad) aad = Some plain)
     \<and> (\<forall>key msg. length (cl_hmac lib key msg) = 32) \<and> (\<forall>private. length (cl_public lib private) = 32)
     \<and> (\<forall>a b. cl_ecdh lib a (cl_public lib b) \<noteq> None \<and> cl_ecdh lib a (cl_public lib b) = cl_ecdh lib b (cl_public lib a))"

definition frame_fits :: "Frame \<Rightarrow> bool" where
  "frame_fits f \<longleftrightarrow> fr_Kind f = messageSecret \<and> validateFrameFields (fr_Key f) (fr_Version f) (fr_Value f) = None
     \<or> fr_Kind f = messageHeartbeat \<and> fr_Key f = [] \<and> fr_Version f = [] \<and> fr_Value f = []"

definition header_of :: "Frame \<Rightarrow> string \<Rightarrow> string" where
  "header_of f nonce = frame_header (fr_Kind f) (fr_Sequence f) nonce (length (fr_Key f)) (length (fr_Version f)) (length (fr_Value f) + 16)"

definition aad_of :: "string \<Rightarrow> Frame \<Rightarrow> string \<Rightarrow> string" where
  "aad_of aad f nonce = makeAAD aad (header_of f nonce) (fr_Key f) (fr_Version f)"

definition wire_of :: "channel_lib \<Rightarrow> Session \<Rightarrow> Frame \<Rightarrow> string \<Rightarrow> string" where
  "wire_of lib s f nonce = header_of f nonce @ fr_Key f @ fr_Version f @ cl_seal lib (ss_key s) nonce (fr_Value f) (aad_of (ss_aad s) f nonce)"

lemma kinds_differ [simp]: "messageSecret \<noteq> messageHeartbeat" "messageHeartbeat \<noteq> messageSecret"
  by (simp_all add: messageSecret_def messageHeartbeat_def)

lemma frame_fits_lengths:
  assumes "frame_fits f"
  shows "length (fr_Key f) \<le> 256" "length (fr_Version f) \<le> 256" "length (fr_Value f) \<le> 2 ^ 20"
  using assms by (auto simp: frame_fits_def validateFrameFields_def MaxKeyLength_def MaxValueLength_def split: if_splits)

lemma frame_fits_kind: "frame_fits f \<Longrightarrow> fr_Kind f = messageSecret \<or> fr_Kind f = messageHeartbeat"
  by (auto simp: frame_fits_def)

lemma fields_without_value: "validateFrameFields key version val = None \<Longrightarrow> validateFrameFields key version [] = None"
  by (simp add: validateFrameFields_def split: if_splits)

lemma seal_iff:
  "session_seal lib s kind key version val random = (s', Inr wire) \<longleftrightarrow>
     (\<exists>nonce f. random = Some nonce \<and> f = \<lparr>fr_Kind = kind, fr_Sequence = ss_send s + 1, fr_Key = key, fr_Version = version, fr_Value = val\<rparr>
        \<and> length (ss_key s) = 32 \<and> frame_fits f \<and> ss_send s \<noteq> - 1 \<and> s' = s\<lparr>ss_send := ss_send s + 1\<rparr> \<and> wire = wire_of lib s f nonce)"
proof (cases "length (ss_key s) = 32 \<and> ss_send s \<noteq> - 1 \<and> random \<noteq> None")
  case True
  then obtain nonce where n: "random = Some nonce" by blast
  let ?f = "\<lparr>fr_Kind = kind, fr_Sequence = ss_send s + 1, fr_Key = key, fr_Version = version, fr_Value = val\<rparr>"
  have key: "frame_fits ?f \<longleftrightarrow> \<not> (kind \<noteq> messageSecret \<and> kind \<noteq> messageHeartbeat) \<and> \<not> (kind = messageSecret \<and> (key = [] \<or> validateFrameFields key version val \<noteq> None))
     \<and> \<not> (kind = messageHeartbeat \<and> (key \<noteq> [] \<or> version \<noteq> [] \<or> val \<noteq> []))"
    by (auto simp: frame_fits_def validateFrameFields_def)
  show ?thesis
  proof (cases "frame_fits ?f")
    case f: True
    have l: "\<not> MaxValueLength + 16 < length val + 16" "\<not> (MaxKeyLength < length key \<or> MaxKeyLength < length version)"
      using frame_fits_lengths [OF f] by (simp_all add: MaxValueLength_def MaxKeyLength_def)
    have g: "\<not> (kind \<noteq> messageSecret \<and> kind \<noteq> messageHeartbeat)" "\<not> (kind = messageSecret \<and> (key = [] \<or> validateFrameFields key version val \<noteq> None))"
      "\<not> (kind = messageHeartbeat \<and> (key \<noteq> [] \<or> version \<noteq> [] \<or> val \<noteq> []))"
      using f key by blast+
    have "session_seal lib s kind key version val random = (s\<lparr>ss_send := ss_send s + 1\<rparr>, Inr (wire_of lib s ?f nonce))"
      unfolding session_seal_def using True g(2,3) l
      by (simp only: g(1) if_False if_cancel n option.case Let_def True simp_thms if_not_P)
         (simp add: wire_of_def header_of_def aad_of_def)
    then show ?thesis using True f n by auto
  next
    case False
    then show ?thesis using True n key by (auto simp: session_seal_def)
  qed
next
  case False
  then show ?thesis by (auto simp: session_seal_def split: option.splits)
qed

lemma word_plus_one_nonzero: "x \<noteq> - 1 \<Longrightarrow> x + 1 \<noteq> (0 :: 64 word)"
  by (metis add.commute add_eq_0_iff)

lemma header_of_simps:
  assumes "length nonce = 12" and "frame_fits f"
  shows "length (header_of f nonce) = 33" "take 4 (header_of f nonce) = frameMagic" "header_kind (header_of f nonce) = fr_Kind f"
    "header_sequence (header_of f nonce) = fr_Sequence f" "header_nonce (header_of f nonce) = nonce"
    "header_lengths (header_of f nonce) = (length (fr_Key f), length (fr_Version f), length (fr_Value f) + 16)"
  using frame_fits_lengths [OF assms(2)] by (simp_all add: header_of_def header_fields [OF assms(1)] assms(1))

lemma length_wire:
  assumes "channel_lib_ok lib" and "length (ss_key s) = 32" and "length nonce = 12"
  shows "length (wire_of lib s f nonce) = 33 + length (fr_Key f) + length (fr_Version f) + (length (fr_Value f) + 16)"
  using assms by (simp add: wire_of_def channel_lib_ok_def header_of_def)

lemma take_wire:
  assumes "length nonce = 12"
  shows "take 33 (wire_of lib s f nonce) = header_of f nonce" "take 4 (wire_of lib s f nonce) = frameMagic"
    "drop 33 (wire_of lib s f nonce) = fr_Key f @ fr_Version f @ cl_seal lib (ss_key s) nonce (fr_Value f) (aad_of (ss_aad s) f nonce)"
  using assms by (simp_all add: wire_of_def header_of_def) (simp add: frame_header_def frameMagic_def)

lemma read_wire:
  assumes "channel_lib_ok lib" and "length (ss_key s) = 32" and "length nonce = 12" and "frame_fits f"
  shows "readWireFrame (wire_of lib s f nonce @ rest) = (Inr (wire_of lib s f nonce), rest)"
proof -
  note l = length_wire [OF assms(1-3), of f]
  show ?thesis
    unfolding readWireFrame_def
    using frame_fits_lengths [OF assms(4)] l
    by (simp add: frameHeaderSize_def take_wire(1,2) [OF assms(3)] header_of_simps [OF assms(3,4)] MaxKeyLength_def MaxFrameLength_def
        MaxValueLength_def Let_def)
qed

lemma open_wire:
  assumes "channel_lib_ok lib" and "length (ss_key s) = 32" and "length nonce = 12" and "frame_fits f"
    and r: "ss_key r = ss_key s" "ss_aad r = ss_aad s" "ss_received r \<noteq> - 1" "fr_Sequence f = ss_received r + 1"
  shows "Session_Open lib r (wire_of lib s f nonce) = (r\<lparr>ss_received := fr_Sequence f\<rparr>, Inr f)"
proof -
  note l = length_wire [OF assms(1-3), of f] and h = header_of_simps [OF assms(3,4)]
  note t = take_wire(1) [OF assms(3), of lib s f] and t4 = take_wire(2) [OF assms(3), of lib s f]
  have dd: "drop (33 + n) (wire_of lib s f nonce) = drop n (drop 33 (wire_of lib s f nonce))" for n by (simp add: add.commute)
  have d: "take (length (fr_Key f)) (drop 33 (wire_of lib s f nonce)) = fr_Key f"
    "take (length (fr_Version f)) (drop (33 + length (fr_Key f)) (wire_of lib s f nonce)) = fr_Version f"
    "drop (33 + length (fr_Key f) + length (fr_Version f)) (wire_of lib s f nonce) = cl_seal lib (ss_key s) nonce (fr_Value f) (aad_of (ss_aad s) f nonce)"
    using dd by (simp_all only: add.assoc take_wire(3) [OF assms(3)]) simp_all
  have g: "length (wire_of lib s f nonce) \<le> MaxFrameLength" "\<not> length (wire_of lib s f nonce) < 33"
    using frame_fits_lengths [OF assms(4)] l by (simp_all add: MaxFrameLength_def MaxValueLength_def)
  have lens: "\<not> (MaxKeyLength < length (fr_Key f) \<or> MaxKeyLength < length (fr_Version f) \<or> length (fr_Value f) + 16 < 16
      \<or> MaxValueLength + 16 < length (fr_Value f) + 16 \<or> 33 + length (fr_Key f) + length (fr_Version f) + (length (fr_Value f) + 16) \<noteq> length (wire_of lib s f nonce))"
    using frame_fits_lengths [OF assms(4)] l by (simp add: MaxKeyLength_def MaxValueLength_def)
  have fields: "(if fr_Kind f = messageSecret then validateFrameFields (fr_Key f) (fr_Version f) [] else None) = None"
    using assms(4) fields_without_value by (auto simp: frame_fits_def)
  have hb: "\<not> (fr_Kind f = messageHeartbeat \<and> (length (fr_Key f) \<noteq> 0 \<or> length (fr_Version f) \<noteq> 0))" "\<not> (fr_Kind f = messageHeartbeat \<and> fr_Value f \<noteq> [])"
    using assms(4) by (auto simp: frame_fits_def)
  have seq: "\<not> (fr_Sequence f = 0 \<or> ss_received r = - 1 \<or> fr_Sequence f \<noteq> ss_received r + 1)"
    using r(3,4) word_plus_one_nonzero by auto
  have op: "cl_open lib (ss_key s) nonce (cl_seal lib (ss_key s) nonce (fr_Value f) (aad_of (ss_aad s) f nonce)) (aad_of (ss_aad s) f nonce) = Some (fr_Value f)"
    using assms(1-3) by (simp add: channel_lib_ok_def)
  have kind: "\<not> (fr_Kind f \<noteq> messageSecret \<and> fr_Kind f \<noteq> messageHeartbeat)" using frame_fits_kind [OF assms(4)] by blast
  have ops: "cl_open lib (ss_key r) nonce (cl_seal lib (ss_key s) nonce (fr_Value f) (aad_of (ss_aad s) f nonce)) (makeAAD (ss_aad r) (header_of f nonce) (fr_Key f) (fr_Version f)) = Some (fr_Value f)"
    using op by (simp add: aad_of_def r)
  have first: "\<not> (length (wire_of lib s f nonce) < 33 \<or> MaxFrameLength < length (wire_of lib s f nonce) \<or> length (ss_key r) \<noteq> 32 \<or> take 4 (wire_of lib s f nonce) \<noteq> frameMagic)"
    using g t4 r(1) assms(2) by simp
  have size: "frameHeaderSize = 33" by (simp add: frameHeaderSize_def)
  show ?thesis
    unfolding Session_Open_def size if_not_P [OF first] Let_def t h(3,4,5) if_not_P [OF kind] if_not_P [OF seq] h(6) prod.case
      if_not_P [OF lens] d if_not_P [OF hb(1)] fields option.case ops if_not_P [OF hb(2)]
    by simp
qed

subsection \<open>Accepted frames\<close>

lemma opened:
  assumes "Session_Open lib s wire = (s', Inr f)"
  shows "\<exists>nonce ciphertext header. header = frame_header (fr_Kind f) (fr_Sequence f) nonce (length (fr_Key f)) (length (fr_Version f)) (length ciphertext)
    \<and> length nonce = 12 \<and> length (fr_Key f) \<le> 256 \<and> length (fr_Version f) \<le> 256 \<and> 16 \<le> length ciphertext \<and> length ciphertext \<le> 2 ^ 20 + 16
    \<and> wire = header @ fr_Key f @ fr_Version f @ ciphertext
    \<and> cl_open lib (ss_key s) nonce ciphertext (makeAAD (ss_aad s) header (fr_Key f) (fr_Version f)) = Some (fr_Value f)
    \<and> length (ss_key s) = 32 \<and> ss_received s \<noteq> - 1 \<and> fr_Sequence f = ss_received s + 1 \<and> s' = s\<lparr>ss_received := fr_Sequence f\<rparr>
    \<and> (fr_Kind f = messageSecret \<or> fr_Kind f = messageHeartbeat)"
proof -
  define h where "h = take 33 wire"
  obtain k v c where lens: "header_lengths h = (k, v, c)" by (cases "header_lengths h")
  have size: "frameHeaderSize = 33" by (simp add: frameHeaderSize_def)
  let ?key = "take k (drop 33 wire)" and ?version = "take v (drop (33 + k) wire)" and ?cipher = "drop (33 + k + v) wire"
  have o: "33 \<le> length wire" "length (ss_key s) = 32" "take 4 wire = frameMagic" "header_kind h = messageSecret \<or> header_kind h = messageHeartbeat"
    "ss_received s \<noteq> - 1" "header_sequence h = ss_received s + 1" "k \<le> 256" "v \<le> 256" "16 \<le> c" "c \<le> 2 ^ 20 + 16" "33 + k + v + c = length wire"
    "cl_open lib (ss_key s) (header_nonce h) ?cipher (makeAAD (ss_aad s) h ?key ?version) = Some (fr_Value f)"
    "s' = s\<lparr>ss_received := header_sequence h\<rparr>" "fr_Kind f = header_kind h" "fr_Sequence f = header_sequence h" "fr_Key f = ?key" "fr_Version f = ?version"
    using assms unfolding Session_Open_def size h_def [symmetric] lens
    by (auto simp: Let_def lens h_def [symmetric] MaxKeyLength_def MaxValueLength_def not_less split: if_splits option.splits)
  have l: "length h = 33" "take 4 h = frameMagic" using o(1,3) by (simp_all add: h_def)
  note hd = header_of_fields [OF l lens]
  have key: "length ?key = k" "length ?version = v" "length ?cipher = c" using o(11) by simp_all
  have t: "drop n wire = take m (drop n wire) @ drop (n + m) wire" for n m
    using append_take_drop_id [of m "drop n wire"] by (simp add: add.commute)
  have "wire = h @ ?key @ ?version @ ?cipher"
    using append_take_drop_id [of 33 wire] t [of 33 k] t [of "33 + k" v] unfolding h_def by metis
  then show ?thesis using o hd key by (intro exI [of _ "header_nonce h"] exI [of _ ?cipher] exI [of _ h]) (simp add: o)
qed

text \<open>
  Authenticity of GCM, for a session whose key only its two ends have: whatever part of the bytes that arrived opens under some additional data
  is what one of the sent frames was sealed from under that data; nobody else can make such a ciphertext.
\<close>

definition authentic :: "channel_lib \<Rightarrow> Session \<Rightarrow> Frame list \<Rightarrow> string set \<Rightarrow> bool" where
  "authentic lib s sent arrived \<longleftrightarrow> (\<forall>w nonce ciphertext aad plain. w \<in> arrived \<longrightarrow> sublist ciphertext w \<longrightarrow> cl_open lib (ss_key s) nonce ciphertext aad = Some plain \<longrightarrow>
     (\<exists>f n. f \<in> set sent \<and> frame_fits f \<and> length n = 12 \<and> aad = aad_of (ss_aad s) f n \<and> plain = fr_Value f))"

lemma accepted_was_sent:
  assumes "Session_Open lib s wire = (s', Inr f)" and "authentic lib s sent arrived" and "w \<in> arrived" and "sublist wire w"
  shows "f \<in> set sent"
proof -
  obtain nonce ciphertext header where o: "header = frame_header (fr_Kind f) (fr_Sequence f) nonce (length (fr_Key f)) (length (fr_Version f)) (length ciphertext)"
    "length nonce = 12" "length (fr_Key f) \<le> 256" "length (fr_Version f) \<le> 256"
    "cl_open lib (ss_key s) nonce ciphertext (makeAAD (ss_aad s) header (fr_Key f) (fr_Version f)) = Some (fr_Value f)"
    and wire: "wire = header @ fr_Key f @ fr_Version f @ ciphertext"
    using opened [OF assms(1)] by blast
  have "suffix ciphertext wire" unfolding wire suffix_def by (intro exI [of _ "header @ fr_Key f @ fr_Version f"]) simp
  then have "sublist ciphertext wire" by (rule suffix_imp_sublist)
  then have part: "sublist ciphertext w" using assms(4) by (rule sublist_order.order.trans)
  obtain g n where g: "g \<in> set sent" "frame_fits g" "length n = 12"
    "makeAAD (ss_aad s) header (fr_Key f) (fr_Version f) = aad_of (ss_aad s) g n" "fr_Value f = fr_Value g"
    using assms(2,3) part o(5) unfolding authentic_def by blast
  note h = header_of_simps [OF g(3,2)] and hf = header_fields [OF o(2), of "fr_Kind f" "fr_Sequence f", folded o(1)]
  have eq: "header = header_of g n" "fr_Key f @ fr_Version f = fr_Key g @ fr_Version g"
    using g(4) o(1,2) h(1) by (simp_all add: aad_of_def makeAAD_def)
  have len: "header_lengths header = (length (fr_Key f) mod 2 ^ 16, length (fr_Version f) mod 2 ^ 16, length ciphertext mod 2 ^ 32)"
    using header_fields(5) [OF o(2)] o(1) by blast
  have "length (fr_Key f) = length (fr_Key g)"
    using len h(6) o(3) eq(1) by simp
  moreover have "fr_Kind f = fr_Kind g" "fr_Sequence f = fr_Sequence g"
    using header_fields(2,3) [OF o(2), of "fr_Kind f" "fr_Sequence f"] h(3,4) o(1) eq(1) by metis+
  ultimately have "f = g" using eq(2) g(5) by simp
  then show ?thesis using g(1) by simp
qed

end
