(* ===== verification/Launch_Delivery.thy ===== *)
theory Launch_Delivery
  imports Launch_Channel Provider_Types
begin

text \<open>
  How the secrets of a launch get to the child: fetching exact versions (\<open>provider.go\<close>), sending them to the helper (\<open>SendEnvelope\<close> of
  \<open>supervisor.go\<close>), receiving them and watching the child (\<open>helper.go\<close>), and the environment the child starts with (\<open>process.go\<close>), all under
  \<open>src/internal/secretlaunch\<close>.

  Parameters: the provider, the operating system's answers to starting and killing, and the clock, as the time of the n-th reading. Writes to a stream are listed; \<open>wr\<close> says which succeed.
  A cancelled context ends a read, so it is a stream that ends. The interleaving of the goroutines that watch a child is the order of events.
\<close>

subsection \<open>Fetching\<close>

text \<open>A provider's answer; \<open>None\<close> is an error or \<open>nil\<close>.\<close>

type_synonym fetcher = "string \<Rightarrow> string \<Rightarrow> string option"

definition SkretProvider_Fetch :: "(string \<Rightarrow> int \<Rightarrow> Secret option) option \<Rightarrow> string \<Rightarrow> string \<Rightarrow> LaunchError + string" where
  "SkretProvider_Fetch reader key version =
     (if \<not> validKeyName key \<or> \<not> validProviderVersion version then Inl (fail ErrFetch)
      else case reader of
          None \<Rightarrow> Inl (fail ErrNoProvider)
        | Some GetVersion \<Rightarrow> (case GetVersion key (the (ParseInt 64 version)) of
              None \<Rightarrow> Inl (fail ErrFetch)
            | Some secret \<Rightarrow>
                if sec_Version secret \<noteq> the (ParseInt 64 version) \<or> sec_Key secret \<noteq> key then Inl (fail ErrFetch)
                else Inr (sec_Value secret)))"

record SecretBuffer =
  sb_Key :: string
  sb_Version :: string
  sb_Env :: string
  sb_Bytes :: string

type_synonym SecretSet = "(string \<times> SecretBuffer) list"

fun fetch_loop :: "fetcher \<Rightarrow> SecretSet \<Rightarrow> ManifestKey list \<Rightarrow> LaunchError + SecretSet" where
  "fetch_loop Fetch result [] = Inr result"
| "fetch_loop Fetch result (k # ks) =
     (if \<not> validKeyName (mk_Name k) \<or> \<not> validProviderVersion (mk_Version k) \<or> \<not> validEnvName (mk_Env k)
         \<or> map_of result (mk_Name k) \<noteq> None
      then Inl (failKey ErrKey (mk_Name k))
      else case Fetch (mk_Name k) (mk_Version k) of
          None \<Rightarrow> Inl (failKey ErrFetch (mk_Name k))
        | Some val \<Rightarrow>
            if MaxValueLength < length val then Inl (failKey ErrFetch (mk_Name k))
            else fetch_loop Fetch (result @ [(mk_Name k, \<lparr>sb_Key = mk_Name k, sb_Version = mk_Version k, sb_Env = mk_Env k, sb_Bytes = val\<rparr>)]) ks)"

definition FetchSecrets :: "fetcher \<Rightarrow> ManifestKey list \<Rightarrow> LaunchError + SecretSet" where
  "FetchSecrets Fetch keys = (if keys = [] then Inl (fail ErrNoProvider) else fetch_loop Fetch [] keys)"

subsection \<open>Sending\<close>

text \<open>The source of nonces and the fate of writes, by the number of the write.\<close>

record link =
  lk_nonce :: "nat \<Rightarrow> string option"
  lk_write :: "nat \<Rightarrow> bool"

definition secret_frame :: "SecretBuffer \<Rightarrow> Frame" where
  "secret_frame item = \<lparr>fr_Kind = messageSecret, fr_Sequence = 0, fr_Key = sb_Key item, fr_Version = sb_Version item, fr_Value = sb_Bytes item\<rparr>"

fun send_secrets :: "channel_lib \<Rightarrow> link \<Rightarrow> SecretSet \<Rightarrow> Session \<times> string list \<Rightarrow> ManifestKey list \<Rightarrow> (Session \<times> string list) \<times> LaunchError option" where
  "send_secrets lib lk values (s, out) [] = ((s, out), None)"
| "send_secrets lib lk values (s, out) (k # ks) = (case map_of values (mk_Name k) of
      None \<Rightarrow> ((Session_Close s, out), Some (failKey ErrKey (mk_Name k)))
    | Some item \<Rightarrow>
        if sb_Version item \<noteq> mk_Version k \<or> sb_Env item \<noteq> mk_Env k then ((Session_Close s, out), Some (failKey ErrKey (mk_Name k)))
        else (case Session_Seal lib s (secret_frame item) (lk_nonce lk (length out)) of
            (s', Inl e) \<Rightarrow> ((Session_Close s', out), Some e)
          | (s', Inr wire) \<Rightarrow>
              if \<not> lk_write lk (length out) then ((Session_Close s', out), Some (fail ErrCrypto))
              else send_secrets lib lk values (s', out @ [wire]) ks))"

definition sendHeartbeat :: "channel_lib \<Rightarrow> link \<Rightarrow> Session \<times> string list \<Rightarrow> (Session \<times> string list) \<times> LaunchError option" where
  "sendHeartbeat lib lk so = (case so of (s, out) \<Rightarrow> (case SealHeartbeat lib s (lk_nonce lk (length out)) of
      (s', Inl e) \<Rightarrow> ((Session_Close s', out), Some e)
    | (s', Inr wire) \<Rightarrow>
        if \<not> lk_write lk (length out) then ((Session_Close s', out), Some (fail ErrCrypto)) else ((s', out @ [wire]), None)))"

text \<open>The heartbeats of \<open>n\<close> ticks; the goroutine ends at the first that fails.\<close>

fun heartbeats :: "channel_lib \<Rightarrow> link \<Rightarrow> nat \<Rightarrow> Session \<times> string list \<Rightarrow> Session \<times> string list" where
  "heartbeats lib lk 0 so = so"
| "heartbeats lib lk (Suc n) so = (case sendHeartbeat lib lk so of (so', None) \<Rightarrow> heartbeats lib lk n so' | (so', Some e) \<Rightarrow> so')"

text \<open>
  \<open>SendEnvelope\<close> up to the first heartbeat: what it has written, chunk by chunk, the session, and its error. \<open>private\<close> is the new handshake key, \<open>input\<close> what the helper sends.
\<close>

definition SendEnvelope ::
    "channel_lib \<Rightarrow> link \<Rightarrow> string option \<Rightarrow> string \<Rightarrow> Manifest \<Rightarrow> ServiceAuthority \<Rightarrow> SecretSet
      \<Rightarrow> (Session option \<times> string list) \<times> LaunchError option" where
  "SendEnvelope lib lk private input manifest service values =
     (if length values \<noteq> length (sa_Keys service) then ((None, []), Some (fail ErrCrypto))
      else if Manifest_Service manifest (sa_Name service) \<noteq> Some service then ((None, []), Some (fail ErrBinding))
      else let canonical = AuthorityBytes manifest in
      (case fst (ReadHandshake input) of
          Inl _ \<Rightarrow> ((None, []), Some (fail ErrCrypto))
        | Inr peer \<Rightarrow> (case private of
              None \<Rightarrow> ((None, []), Some (fail ErrCrypto))
            | Some p \<Rightarrow> (case EncodeHandshake (cl_public lib p) of
                  Inl e \<Rightarrow> ((None, []), Some e)
                | Inr message \<Rightarrow>
                    if \<not> lk_write lk 0 then ((None, []), Some (fail ErrCrypto))
                    else (case Derive lib p peer canonical of
                        Inl e \<Rightarrow> ((None, [message]), Some e)
                      | Inr key \<Rightarrow> (case NewSession lib key canonical of
                            Inl e \<Rightarrow> ((None, [message]), Some e)
                          | Inr session \<Rightarrow> (case send_secrets lib lk values (session, [message]) (sa_Keys service) of
                                ((s, out), Some e) \<Rightarrow> ((Some s, out), Some e)
                              | ((s, out), None) \<Rightarrow> (case validHealth (sa_Health service) of
                                    Some e \<Rightarrow> ((Some (Session_Close s), out), Some e)
                                  | None \<Rightarrow> (case sendHeartbeat lib lk (s, out) of
                                        ((s', out'), e) \<Rightarrow> ((Some s', out'), e))))))))))"

subsection \<open>The helper\<close>

record Helper =
  he_Manifest :: Manifest
  he_Service :: ServiceAuthority
  he_Canonical :: string
  he_HeartbeatTimeout :: int
  he_binding :: LaunchBinding

text \<open>Go's zero values.\<close>

definition zero_service :: ServiceAuthority where
  "zero_service = \<lparr>sa_Name = [], sa_Image = [], sa_User = [], sa_Argv = [], sa_Environment = None, sa_Labels = None, sa_Networks = None,
     sa_Restart = [], sa_OpenStdin = False, sa_Health = \<lparr>hs_Command = [], hs_IntervalMS = 0, hs_TimeoutMS = 0, hs_Retries = 0,
     hs_HeartbeatIntervalMS = 0, hs_HeartbeatTimeoutMS = 0\<rparr>, sa_Dependencies = None, sa_Keys = [], sa_WrapperDigest = [],
     sa_Child = \<lparr>cs_Argv = [], cs_User = [], cs_Environment = None\<rparr>\<rparr>"

definition zero_binding :: LaunchBinding where
  "zero_binding = \<lparr>lb_RuntimeID = [], lb_Service = [], lb_Role = [], lb_Generation = 0, lb_ExpiresAt = 0, lb_Nonce = []\<rparr>"

definition NewHelperAt :: "launch_lib \<Rightarrow> string \<Rightarrow> TrustPolicy \<Rightarrow> gotime \<Rightarrow> LaunchError + Helper" where
  "NewHelperAt lib data policy now =
     (if data = [] then Inl (fail ErrInvalidInput)
      else case VerifySignedManifest lib data policy now of
          Inl e \<Rightarrow> Inl e
        | Inr m \<Rightarrow> Inr \<lparr>he_Manifest = m, he_Service = zero_service, he_Canonical = AuthorityBytes m, he_HeartbeatTimeout = 0, he_binding = zero_binding\<rparr>)"

definition resolveHeartbeatTimeout :: "HealthSpec \<Rightarrow> int \<Rightarrow> LaunchError + int" where
  "resolveHeartbeatTimeout health configured = (case validHealth health of
      Some e \<Rightarrow> Inl e
    | None \<Rightarrow> if 0 < configured then Inr configured else Inr (int (unat (hs_HeartbeatTimeoutMS health)) * 1000000))"

definition Helper_Bind :: "Helper \<Rightarrow> LaunchBinding \<Rightarrow> Helper \<times> LaunchError option" where
  "Helper_Bind h b = (case MatchBinding (he_Manifest h) b of
      Some e \<Rightarrow> (h, Some e)
    | None \<Rightarrow> (case Manifest_Service (he_Manifest h) (lb_Service b) of
          None \<Rightarrow> (h, Some (fail ErrBinding))
        | Some service \<Rightarrow> (h\<lparr>he_Service := service, he_binding := b\<rparr>, None)))"

definition byKey :: "ManifestKey list \<Rightarrow> string \<Rightarrow> ManifestKey option" where
  "byKey keys = map_of (rev (map (\<lambda>k. (mk_Name k, k)) keys))"

lemma readWireFrame_shorter: "readWireFrame r = (Inr wire, rest) \<Longrightarrow> length rest < length r"
  by (auto simp: readWireFrame_def frameHeaderSize_def Let_def split: if_splits prod.splits)

text \<open>
  The loop of \<open>Run\<close>: the secrets so far, the names still required, the session, the reader, the number of readings of the
  clock and the last heartbeat.
\<close>

record reception =
  rc_values :: SecretSet
  rc_required :: "string list"
  rc_session :: Session
  rc_stream :: string
  rc_clock :: nat
  rc_heartbeat :: gotime

function receive :: "channel_lib \<Rightarrow> (nat \<Rightarrow> gotime) \<Rightarrow> ManifestKey list \<Rightarrow> reception \<Rightarrow> LaunchError + reception" where
  "receive lib now keys rc =
     (if rc_required rc = [] then Inr rc
      else case readWireFrame (rc_stream rc) of
          (Inl _, _) \<Rightarrow> Inl (fail ErrLifecycle)
        | (Inr wire, rest) \<Rightarrow> (case Session_Open lib (rc_session rc) wire of
              (_, Inl e) \<Rightarrow> Inl e
            | (s, Inr f) \<Rightarrow>
                if fr_Kind f = messageHeartbeat
                then receive lib now keys (rc\<lparr>rc_session := s, rc_stream := rest, rc_clock := Suc (rc_clock rc), rc_heartbeat := now (rc_clock rc)\<rparr>)
                else (case byKey keys (fr_Key f) of
                    None \<Rightarrow> Inl (failKey ErrKey (fr_Key f))
                  | Some k \<Rightarrow>
                      if mk_Version k \<noteq> fr_Version f then Inl (failKey ErrKey (fr_Key f))
                      else if map_of (rc_values rc) (fr_Key f) \<noteq> None then Inl (failKey ErrReplay (fr_Key f))
                      else receive lib now keys (rc\<lparr>rc_session := s, rc_stream := rest, rc_required := removeAll (fr_Key f) (rc_required rc),
                             rc_values := rc_values rc @ [(fr_Key f, \<lparr>sb_Key = mk_Name k, sb_Version = mk_Version k, sb_Env = mk_Env k, sb_Bytes = fr_Value f\<rparr>)]\<rparr>))))"
  by pat_completeness auto
termination
  by (relation "measure (\<lambda>(lib, now, keys, rc). length (rc_stream rc))") (auto dest: readWireFrame_shorter [OF sym])

declare receive.simps [simp del]

subsection \<open>Watching the child\<close>

text \<open>
  What the \<open>select\<close> of \<open>monitor\<close> takes next: the child's end, a frame or a failed read at some time, a signal (and whether the child got it), a tick, or the end of the context.
\<close>

datatype monitor_event =
    ChildDone int
  | FrameRead gotime "string option"
  | SignalTaken bool
  | Tick gotime
  | ContextDone

datatype supervision = Running Session gotime | Ended int "LaunchError option" | Killed int "LaunchError option"

text \<open>After a kill: whether it failed, and the child's end (an error, its code) if it came in time.\<close>

definition waitAfterKill :: "bool \<Rightarrow> (bool \<times> int) option \<Rightarrow> int \<times> LaunchError option" where
  "waitAfterKill killErr waited = (case waited of
      Some (err, code) \<Rightarrow>
        if killErr then (1, Some (fail ErrChild))
        else if err \<or> code < 0 then (1, Some (fail ErrChild))
        else (code, Some (fail ErrLifecycle))
    | None \<Rightarrow> if killErr then (1, Some (fail ErrChild)) else (1, Some (fail ErrLifecycle)))"

definition kill_child :: "bool \<Rightarrow> (bool \<times> int) option \<Rightarrow> supervision" where
  "kill_child killErr waited = (case waitAfterKill killErr waited of (code, e) \<Rightarrow> Killed code e)"

fun monitor :: "channel_lib \<Rightarrow> int \<Rightarrow> bool \<Rightarrow> (bool \<times> int) option \<Rightarrow> Session \<Rightarrow> gotime \<Rightarrow> monitor_event list \<Rightarrow> supervision" where
  "monitor lib timeout killErr waited s lastHeartbeat [] = Running s lastHeartbeat"
| "monitor lib timeout killErr waited s lastHeartbeat (ChildDone code # es) = (if 0 \<le> code then Ended code None else Ended 1 (Some (fail ErrChild)))"
| "monitor lib timeout killErr waited s lastHeartbeat (FrameRead t None # es) = kill_child killErr waited"
| "monitor lib timeout killErr waited s lastHeartbeat (FrameRead t (Some wire) # es) = (case Session_Open lib s wire of
      (_, Inl _) \<Rightarrow> kill_child killErr waited
    | (s', Inr f) \<Rightarrow>
        if fr_Kind f = messageHeartbeat then monitor lib timeout killErr waited s' t es else kill_child killErr waited)"
| "monitor lib timeout killErr waited s lastHeartbeat (SignalTaken delivered # es) =
     (if delivered then monitor lib timeout killErr waited s lastHeartbeat es else kill_child killErr waited)"
| "monitor lib timeout killErr waited s lastHeartbeat (Tick t # es) =
     (if timeout < t - lastHeartbeat then kill_child killErr waited else monitor lib timeout killErr waited s lastHeartbeat es)"
| "monitor lib timeout killErr waited s lastHeartbeat (ContextDone # es) = kill_child killErr waited"

subsection \<open>A run of the helper\<close>

definition start_reception :: "(nat \<Rightarrow> gotime) \<Rightarrow> ManifestKey list \<Rightarrow> Session \<Rightarrow> string \<Rightarrow> reception" where
  "start_reception now keys s stream =
     \<lparr>rc_values = [], rc_required = remdups (map mk_Name keys), rc_session = s, rc_stream = stream, rc_clock = 2, rc_heartbeat = now 1\<rparr>"

text \<open>
  \<open>Run\<close> up to the start of the child: the clock is read for the window, for the first heartbeat, for every heartbeat on the
  way and for the window again. \<open>starts\<close> is the starter's answer to the child and its secrets; the result is what the child started with and what \<open>monitor\<close> begins with.
\<close>

definition Run_start ::
    "launch_lib \<Rightarrow> channel_lib \<Rightarrow> (nat \<Rightarrow> gotime) \<Rightarrow> (ChildSpec \<Rightarrow> SecretSet \<Rightarrow> bool) \<Rightarrow> Helper \<Rightarrow> string \<Rightarrow> Session
      \<Rightarrow> LaunchError + int \<times> reception" where
  "Run_start lib clib now starts h stream s =
     (if lb_RuntimeID (he_binding h) = [] \<or> lb_Service (he_binding h) = [] then Inl (fail ErrLifecycle)
      else case ValidateAt lib (he_Manifest h) (now 0) of
          Some e \<Rightarrow> Inl e
        | None \<Rightarrow> (case resolveHeartbeatTimeout (sa_Health (he_Service h)) (he_HeartbeatTimeout h) of
              Inl e \<Rightarrow> Inl e
            | Inr timeout \<Rightarrow> (case receive clib now (sa_Keys (he_Service h)) (start_reception now (sa_Keys (he_Service h)) s stream) of
                  Inl e \<Rightarrow> Inl e
                | Inr rc \<Rightarrow> (case ValidateAt lib (he_Manifest h) (now (rc_clock rc)) of
                      Some e \<Rightarrow> Inl e
                    | None \<Rightarrow>
                        if \<not> starts (sa_Child (he_Service h)) (rc_values rc) then Inl (fail ErrChild) else Inr (timeout, rc)))))"

definition Helper_Run ::
    "launch_lib \<Rightarrow> channel_lib \<Rightarrow> (nat \<Rightarrow> gotime) \<Rightarrow> (ChildSpec \<Rightarrow> SecretSet \<Rightarrow> bool) \<Rightarrow> bool \<Rightarrow> (bool \<times> int) option \<Rightarrow> monitor_event list
      \<Rightarrow> Helper \<Rightarrow> string \<Rightarrow> Session \<Rightarrow> supervision" where
  "Helper_Run lib clib now starts killErr waited es h stream s = (case Run_start lib clib now starts h stream s of
      Inl e \<Rightarrow> Ended 1 (Some e)
    | Inr (timeout, rc) \<Rightarrow> monitor clib timeout killErr waited (rc_session rc) (rc_heartbeat rc) es)"

text \<open>The session both sides derive from their handshake.\<close>

definition helper_session :: "channel_lib \<Rightarrow> Helper \<Rightarrow> string \<Rightarrow> string \<Rightarrow> (LaunchError + Session) \<times> string" where
  "helper_session lib h private stream = (case ReadHandshake stream of
      (Inl e, rest) \<Rightarrow> (Inl e, rest)
    | (Inr peer, rest) \<Rightarrow> (case Derive lib private peer (he_Canonical h) of
          Inl e \<Rightarrow> (Inl e, rest)
        | Inr key \<Rightarrow> (NewSession lib key (he_Canonical h), rest)))"

definition RunHandshake ::
    "launch_lib \<Rightarrow> channel_lib \<Rightarrow> (nat \<Rightarrow> gotime) \<Rightarrow> (ChildSpec \<Rightarrow> SecretSet \<Rightarrow> bool) \<Rightarrow> bool \<Rightarrow> (bool \<times> int) option \<Rightarrow> monitor_event list
      \<Rightarrow> string option \<Rightarrow> bool \<Rightarrow> Helper \<Rightarrow> string \<Rightarrow> supervision" where
  "RunHandshake lib clib now starts killErr waited es private written h stream =
     (if lb_RuntimeID (he_binding h) = [] \<or> lb_Service (he_binding h) = [] then Ended 1 (Some (fail ErrLifecycle))
      else case private of
          None \<Rightarrow> Ended 1 (Some (fail ErrCrypto))
        | Some p \<Rightarrow> (case EncodeHandshake (cl_public clib p) of
              Inl e \<Rightarrow> Ended 1 (Some e)
            | Inr message \<Rightarrow>
                if \<not> written then Ended 1 (Some (fail ErrCrypto))
                else (case helper_session clib h p stream of
                    (Inl e, rest) \<Rightarrow> Ended 1 (Some e)
                  | (Inr s, rest) \<Rightarrow> Helper_Run lib clib now starts killErr waited es h rest s)))"

subsection \<open>The child's environment\<close>

definition allowedParentVars :: "string list" where
  "allowedParentVars = [''HOME'', ''HOSTNAME'', ''LANG'', ''LC_ALL'', ''LC_CTYPE'', ''PATH'', ''SSL_CERT_DIR'', ''SSL_CERT_FILE'', ''TZ'']"

definition buffer_env :: "SecretBuffer \<Rightarrow> string" where
  "buffer_env item = (if sb_Env item = [] then sb_Key item else sb_Env item)"

definition validateSecretEnvironment :: "SecretSet \<Rightarrow> LaunchError option" where
  "validateSecretEnvironment values = check_all (\<lambda>(k, item). if \<not> validEnvName (buffer_env item) then Some (failKey ErrKey (sb_Key item)) else None) values"

text \<open>Assignment to an entry of a map.\<close>

definition map_put :: "string \<times> string \<Rightarrow> smap \<Rightarrow> smap" where
  "map_put kv m = kv # filter (\<lambda>e. fst e \<noteq> fst kv) m"

lemma map_of_filter_key: "map_of (filter (\<lambda>e. fst e \<noteq> a) m) x = (if x = a then None else map_of m x)"
  by (induction m) auto

lemma map_of_put: "map_of (map_put kv m) = (map_of m)(fst kv \<mapsto> snd kv)"
  by (rule ext) (simp add: map_put_def map_of_filter_key)

definition parent_entries :: "string list \<Rightarrow> smap" where
  "parent_entries parent = concat (map (\<lambda>entry. case Cut entry (CHR ''='') of (name, val, ok) \<Rightarrow>
     if ok \<and> name \<in> set allowedParentVars then [(name, val)] else []) parent)"

definition filteredEnvironment :: "string list \<Rightarrow> smap \<Rightarrow> SecretSet \<Rightarrow> string list" where
  "filteredEnvironment parent declared values =
     (let environment = fold map_put (parent_entries parent @ declared @ map (\<lambda>(k, item). (buffer_env item, sb_Bytes item)) values) []
      in map (\<lambda>name. name @ ''='' @ get environment name) (sort (map fst environment)))"

text \<open>The numeric user and group of a child; \<open>lookup\<close> is the user database, which answers with the two numbers as text.\<close>

definition resolveUser :: "(string \<Rightarrow> (string \<times> string) option) \<Rightarrow> string \<Rightarrow> LaunchError + 32 word \<times> 32 word" where
  "resolveUser lookup val = (case Cut val (CHR '':'') of (uidStr, gidStr, found) \<Rightarrow>
     if found \<and> CHR '':'' \<in> set gidStr \<or> val = [] then Inl (fail ErrChild)
     else case ParseUint 32 uidStr of
         Some uid \<Rightarrow> (case (if found then ParseUint 32 gidStr else Some uid) of
             None \<Rightarrow> Inl (fail ErrChild)
           | Some gid \<Rightarrow> Inr (of_nat uid, of_nat gid))
       | None \<Rightarrow> (case lookup uidStr of
             None \<Rightarrow> Inl (fail ErrChild)
           | Some (accountUid, accountGid) \<Rightarrow> (case (ParseUint 32 accountUid, ParseUint 32 (if found then gidStr else accountGid)) of
                 (Some uid, Some gid) \<Rightarrow> Inr (of_nat uid, of_nat gid)
               | _ \<Rightarrow> Inl (fail ErrChild))))"

definition applyChildUser :: "(string \<Rightarrow> (string \<times> string) option) \<Rightarrow> string \<Rightarrow> LaunchError + (32 word \<times> 32 word) option" where
  "applyChildUser lookup val = (if val = [] \<or> val = ''current'' then Inr None else map_sum (\<lambda>_. fail ErrChild) Some (resolveUser lookup val))"

text \<open>
  \<open>ExecStarter.Start\<close> on Unix: the command line, the environment and the credential of the child; \<open>disabled\<close> and \<open>started\<close> are the system's answers to
  switching off core dumps and to the start.
\<close>

definition ExecStarter_Start ::
    "bool \<Rightarrow> (string \<Rightarrow> (string \<times> string) option) \<Rightarrow> bool \<Rightarrow> string list \<Rightarrow> ChildSpec \<Rightarrow> SecretSet
      \<Rightarrow> LaunchError + string list \<times> string list \<times> (32 word \<times> 32 word) option" where
  "ExecStarter_Start disabled lookup started environ spec values =
     (if cs_Argv spec = [] then Inl (fail ErrChild)
      else if \<not> disabled then Inl (fail ErrChild)
      else case validateSecretEnvironment values of
          Some e \<Rightarrow> Inl e
        | None \<Rightarrow> (case applyChildUser lookup (cs_User spec) of
              Inl e \<Rightarrow> Inl e
            | Inr credential \<Rightarrow>
                if \<not> started then Inl (fail ErrChild)
                else Inr (cs_Argv spec, filteredEnvironment environ (items (cs_Environment spec)) values, credential)))"

subsection \<open>What is fetched\<close>

definition fetched :: "fetcher \<Rightarrow> ManifestKey \<Rightarrow> SecretBuffer" where
  "fetched Fetch k = \<lparr>sb_Key = mk_Name k, sb_Version = mk_Version k, sb_Env = mk_Env k, sb_Bytes = the (Fetch (mk_Name k) (mk_Version k))\<rparr>"

lemma fetch_loop_Inr:
  "fetch_loop Fetch result ks = Inr values \<Longrightarrow> distinct (map fst result) \<Longrightarrow>
     values = result @ map (\<lambda>k. (mk_Name k, fetched Fetch k)) ks \<and> distinct (map fst values)
     \<and> (\<forall>k \<in> set ks. Fetch (mk_Name k) (mk_Version k) \<noteq> None \<and> length (sb_Bytes (fetched Fetch k)) \<le> MaxValueLength
          \<and> validKeyName (mk_Name k) \<and> validProviderVersion (mk_Version k))"
proof (induction Fetch result ks rule: fetch_loop.induct)
  case (2 Fetch result k ks)
  from "2.prems"(1) obtain val where v: "validKeyName (mk_Name k)" "validProviderVersion (mk_Version k)" "validEnvName (mk_Env k)"
    "map_of result (mk_Name k) = None" "Fetch (mk_Name k) (mk_Version k) = Some val" "length val \<le> MaxValueLength"
    by (auto split: if_splits option.splits)
  let ?b = "\<lparr>sb_Key = mk_Name k, sb_Version = mk_Version k, sb_Env = mk_Env k, sb_Bytes = val\<rparr>"
  have b: "?b = fetched Fetch k" using v(5) by (simp add: fetched_def)
  have l: "fetch_loop Fetch (result @ [(mk_Name k, ?b)]) ks = Inr values" using "2.prems"(1) v by simp
  have d: "distinct (map fst (result @ [(mk_Name k, ?b)]))" using "2.prems"(2) v(4) by (simp add: map_of_eq_None_iff)
  have ih: "values = (result @ [(mk_Name k, ?b)]) @ map (\<lambda>k. (mk_Name k, fetched Fetch k)) ks \<and> distinct (map fst values)
     \<and> (\<forall>k \<in> set ks. Fetch (mk_Name k) (mk_Version k) \<noteq> None \<and> length (sb_Bytes (fetched Fetch k)) \<le> MaxValueLength
          \<and> validKeyName (mk_Name k) \<and> validProviderVersion (mk_Version k))"
    by (rule "2.IH" [OF _ v(5) _ l d]) (use v in simp_all)
  have "sb_Bytes (fetched Fetch k) = val" using v(5) by (simp add: fetched_def)
  then have "\<forall>k' \<in> set (k # ks). Fetch (mk_Name k') (mk_Version k') \<noteq> None \<and> length (sb_Bytes (fetched Fetch k')) \<le> MaxValueLength
          \<and> validKeyName (mk_Name k') \<and> validProviderVersion (mk_Version k')"
    using ih v by simp
  moreover have "values = result @ map (\<lambda>k. (mk_Name k, fetched Fetch k)) (k # ks)" using ih b by simp
  ultimately show ?case using ih by blast
qed simp

lemma fetch_Inr:
  assumes "FetchSecrets Fetch keys = Inr values"
  shows "values = map (\<lambda>k. (mk_Name k, fetched Fetch k)) keys" "distinct (map mk_Name keys)" "keys \<noteq> []"
    "k \<in> set keys \<Longrightarrow> Fetch (mk_Name k) (mk_Version k) = Some (sb_Bytes (fetched Fetch k))"
proof -
  have n: "keys \<noteq> []" and l: "fetch_loop Fetch [] keys = Inr values" using assms by (auto simp: FetchSecrets_def split: if_splits)
  note f = fetch_loop_Inr [OF l, simplified]
  show "values = map (\<lambda>k. (mk_Name k, fetched Fetch k)) keys" "keys \<noteq> []" using f n by auto
  show "distinct (map mk_Name keys)" using f by (auto simp: o_def)
  show "k \<in> set keys \<Longrightarrow> Fetch (mk_Name k) (mk_Version k) = Some (sb_Bytes (fetched Fetch k))" using f by (auto simp: fetched_def)
qed

subsection \<open>Linked sessions\<close>

definition linked :: "Session \<Rightarrow> Session \<Rightarrow> bool" where
  "linked s r \<longleftrightarrow> length (ss_key s) = 32 \<and> ss_key r = ss_key s \<and> ss_aad r = ss_aad s \<and> ss_received r = ss_send s"

definition nonces_ok :: "link \<Rightarrow> bool" where
  "nonces_ok lk \<longleftrightarrow> (\<forall>n nonce. lk_nonce lk n = Some nonce \<longrightarrow> length nonce = 12)"

lemma seal_delivers:
  assumes "channel_lib_ok lib" and "session_seal lib s kind key version val (lk_nonce lk n) = (s', Inr wire)" and "nonces_ok lk" and "linked s r"
  obtains f r' where "readWireFrame (wire @ rest) = (Inr wire, rest)" "Session_Open lib r wire = (r', Inr f)" "linked s' r'"
    "fr_Kind f = kind" "fr_Key f = key" "fr_Version f = version" "fr_Value f = val"
proof -
  obtain nonce f where w: "lk_nonce lk n = Some nonce" "f = \<lparr>fr_Kind = kind, fr_Sequence = ss_send s + 1, fr_Key = key, fr_Version = version, fr_Value = val\<rparr>"
    "length (ss_key s) = 32" "frame_fits f" "ss_send s \<noteq> - 1" "s' = s\<lparr>ss_send := ss_send s + 1\<rparr>" "wire = wire_of lib s f nonce"
    using assms(2) unfolding seal_iff by blast
  have n: "length nonce = 12" using assms(3) w(1) by (auto simp: nonces_ok_def)
  have r: "ss_key r = ss_key s" "ss_aad r = ss_aad s" "ss_received r \<noteq> - 1" "fr_Sequence f = ss_received r + 1"
    using assms(4) w by (simp_all add: linked_def)
  have "linked s' (r\<lparr>ss_received := fr_Sequence f\<rparr>)" using assms(4) w by (simp add: linked_def)
  then show ?thesis
    using that [of "r\<lparr>ss_received := fr_Sequence f\<rparr>" f] read_wire [OF assms(1) w(3) n w(4), of rest] open_wire [OF assms(1) w(3) n w(4) r] w(2,7)
    by simp
qed

subsection \<open>Delivery\<close>

lemma Session_Seal_seal:
  assumes "Session_Seal lib s f random = (s', Inr wire)"
  shows "session_seal lib s messageSecret (fr_Key f) (fr_Version f) (fr_Value f) random = (s', Inr wire)"
  using assms by (auto simp: Session_Seal_def split: if_splits option.splits)

lemma receive_secret:
  assumes "rc_required rc \<noteq> []" and "readWireFrame (rc_stream rc) = (Inr wire, rest)" and "Session_Open lib (rc_session rc) wire = (s, Inr f)"
    and "fr_Kind f = messageSecret" and "byKey keys (fr_Key f) = Some k" and "mk_Version k = fr_Version f" and "map_of (rc_values rc) (fr_Key f) = None"
  shows "receive lib now keys rc = receive lib now keys (rc\<lparr>rc_session := s, rc_stream := rest, rc_required := removeAll (fr_Key f) (rc_required rc),
    rc_values := rc_values rc @ [(fr_Key f, \<lparr>sb_Key = mk_Name k, sb_Version = mk_Version k, sb_Env = mk_Env k, sb_Bytes = fr_Value f\<rparr>)]\<rparr>)"
  using assms by (subst receive.simps) simp

lemma byKey_own: "distinct (map mk_Name keys) \<Longrightarrow> k \<in> set keys \<Longrightarrow> byKey keys (mk_Name k) = Some k"
  unfolding byKey_def by (rule map_of_is_SomeI) (auto simp: rev_map [symmetric] o_def)

lemma send_receive:
  assumes ok: "channel_lib_ok lib" and lk: "nonces_ok lk" and keys: "distinct (map mk_Name keys)"
  shows "send_secrets lib lk values (s, out) ks = ((s', out'), None) \<Longrightarrow> set ks \<subseteq> set keys \<Longrightarrow> distinct (map mk_Name ks) \<Longrightarrow>
    (\<And>k. k \<in> set ks \<Longrightarrow> map_of values (mk_Name k) = Some (fetched Fetch k)) \<Longrightarrow>
    linked s (rc_session rc) \<Longrightarrow> rc_required rc = map mk_Name ks \<Longrightarrow> fst ` set (rc_values rc) \<inter> mk_Name ` set ks = {} \<Longrightarrow>
    \<exists>wires r. out' = out @ wires \<and> linked s' r \<and>
      (rc_stream rc = concat wires @ rest \<longrightarrow>
       receive lib now keys rc = Inr (rc\<lparr>rc_values := rc_values rc @ map (\<lambda>k. (mk_Name k, fetched Fetch k)) ks, rc_required := [], rc_session := r, rc_stream := rest\<rparr>))"
proof (induction ks arbitrary: s out rc)
  case Nil
  then show ?case by (auto simp: receive.simps [of lib now keys rc])
next
  case (Cons k ks)
  have item: "map_of values (mk_Name k) = Some (fetched Fetch k)" using Cons.prems(4) by simp
  obtain s1 wire where sl: "Session_Seal lib s (secret_frame (fetched Fetch k)) (lk_nonce lk (length out)) = (s1, Inr wire)"
    and sent: "send_secrets lib lk values (s1, out @ [wire]) ks = ((s', out'), None)"
    using Cons.prems(1) item by (auto split: prod.splits sum.splits if_splits)
  have seal: "session_seal lib s messageSecret (mk_Name k) (mk_Version k) (sb_Bytes (fetched Fetch k)) (lk_nonce lk (length out)) = (s1, Inr wire)"
    using Session_Seal_seal [OF sl] by (simp add: secret_frame_def fetched_def)
  obtain f r1 where o: "\<And>rest. readWireFrame (wire @ rest) = (Inr wire, rest)" "Session_Open lib (rc_session rc) wire = (r1, Inr f)" "linked s1 r1"
    "fr_Kind f = messageSecret" "fr_Key f = mk_Name k" "fr_Version f = mk_Version k" "fr_Value f = sb_Bytes (fetched Fetch k)"
  proof -
    obtain f r1 where 1: "Session_Open lib (rc_session rc) wire = (r1, Inr f)" "linked s1 r1"
      "fr_Kind f = messageSecret" "fr_Key f = mk_Name k" "fr_Version f = mk_Version k" "fr_Value f = sb_Bytes (fetched Fetch k)"
      by (rule seal_delivers [OF ok seal lk Cons.prems(5)])
    moreover have "readWireFrame (wire @ rest) = (Inr wire, rest)" for rest
      by (rule seal_delivers [OF ok seal lk Cons.prems(5), of rest])
    ultimately show ?thesis using that by blast
  qed
  define next_rc where "next_rc rest' = rc\<lparr>rc_session := r1, rc_stream := rest', rc_required := map mk_Name ks,
    rc_values := rc_values rc @ [(mk_Name k, fetched Fetch k)]\<rparr>" for rest'
  have ih: "\<exists>wires r. out' = (out @ [wire]) @ wires \<and> linked s' r \<and>
      (rc_stream (next_rc rest') = concat wires @ rest \<longrightarrow>
       receive lib now keys (next_rc rest') = Inr ((next_rc rest')\<lparr>rc_values := rc_values (next_rc rest') @ map (\<lambda>k. (mk_Name k, fetched Fetch k)) ks, rc_required := [], rc_session := r, rc_stream := rest\<rparr>))" for rest'
    by (rule Cons.IH [OF sent]) (use Cons.prems o(3) in \<open>auto simp: next_rc_def\<close>)
  obtain wires r where w: "out' = (out @ [wire]) @ wires" "linked s' r" using ih by blast
  have out: "out' = out @ wire # wires" using w(1) by simp
  obtain r where r: "linked s' r" "receive lib now keys (next_rc (concat wires @ rest)) =
      Inr ((next_rc (concat wires @ rest))\<lparr>rc_values := rc_values rc @ map (\<lambda>k. (mk_Name k, fetched Fetch k)) (k # ks), rc_required := [], rc_session := r, rc_stream := rest\<rparr>)"
    using ih [of "concat wires @ rest"] w(1) by (auto simp: next_rc_def)
  have step: "receive lib now keys rc = receive lib now keys (next_rc (concat wires @ rest))" if "rc_stream rc = wire @ concat wires @ rest"
  proof -
    have "k \<in> set keys" using Cons.prems(2) by simp
    then have b: "byKey keys (mk_Name k) = Some k" using byKey_own keys by blast
    have "map_of (rc_values rc) (mk_Name k) = None" using Cons.prems(7) by (auto simp: map_of_eq_None_iff)
    then show ?thesis
      using receive_secret [of rc wire "concat wires @ rest" lib r1 f keys k now] Cons.prems(3,6) o b that
      by (simp add: fetched_def removeAll_id next_rc_def)
  qed
  then show ?case using out r by (intro exI [of _ "wire # wires"] exI [of _ r]) (auto simp: next_rc_def)
qed

end
