(* ===== verification/Launch_Runtime.thy ===== *)
theory Launch_Runtime
  imports Launch_Delivery Go_Path
begin

text \<open>
  The containers of a launch, \<open>src/internal/secretlaunch/runtime.go\<close>, and the mount that gives them a renewed manifest, \<open>manifest_mount.go\<close>: the rendered model and its
  agreement with the manifest, the labels that say whose a container is, and the Docker commands.

  Parameters: running a command (\<open>None\<close> is a failure), the decoding of Docker's JSON rows and of a rendered model, the file system under a mount. A write to a \<open>nil\<close> map
  panics; the panic is an \<open>OtherError\<close>.
\<close>

subsection \<open>Rendered models\<close>

record ServiceSpec =
  sp_Name :: string
  sp_Image :: string
  sp_User :: string
  sp_Argv :: "string list"
  sp_Environment :: "(string \<times> string) nilable"
  sp_Labels :: "(string \<times> string) nilable"
  sp_Networks :: "string nilable"
  sp_Restart :: string
  sp_OpenStdin :: bool
  sp_Health :: HealthSpec
  sp_Dependencies :: "string nilable"
  sp_SecretKeys :: "string nilable"
  sp_WrapperDigest :: string
  sp_Child :: ChildSpec

record RenderedModel =
  rm_RuntimeID :: string
  rm_ComposeDigest :: string
  rm_Services :: "ServiceSpec list"

record Container =
  ct_ID :: string
  ct_Name :: string
  ct_Labels :: smap
  ct_Running :: bool
  ct_Healthy :: bool

definition spec_json :: "ServiceSpec \<Rightarrow> jval" where
  "spec_json s = JObj [(''name'', JStr (sp_Name s)), (''image'', JStr (sp_Image s)), (''user'', JStr (sp_User s)),
     (''argv'', strings_json (sp_Argv s)), (''environment'', nilable_json (map_json JStr) (sp_Environment s)),
     (''labels'', nilable_json (map_json JStr) (sp_Labels s)), (''networks'', nilable_json strings_json (sp_Networks s)),
     (''restart'', JStr (sp_Restart s)), (''open_stdin'', bool_json (sp_OpenStdin s)), (''health'', health_json (sp_Health s)),
     (''dependencies'', nilable_json strings_json (sp_Dependencies s)), (''secret_keys'', nilable_json strings_json (sp_SecretKeys s)),
     (''wrapper_digest'', JStr (sp_WrapperDigest s)), (''child'', child_json (sp_Child s))]"

definition model_json :: "RenderedModel \<Rightarrow> jval" where
  "model_json m = JObj [(''runtime_id'', JStr (rm_RuntimeID m)), (''compose_digest'', JStr (rm_ComposeDigest m)),
     (''services'', JArr (map spec_json (rm_Services m)))]"

definition body_json :: "RenderedModel \<Rightarrow> jval" where
  "body_json m = JObj [(''runtime_id'', JStr (rm_RuntimeID m)), (''services'', JArr (map spec_json (rm_Services m)))]"

fun check_secret_keys :: "string \<Rightarrow> string list \<Rightarrow> LaunchError option" where
  "check_secret_keys prev [] = None"
| "check_secret_keys prev (key # keys) =
     (if \<not> validKeyName key \<or> key \<le> prev then Some (failKey ErrRuntime key) else check_secret_keys key keys)"

definition validateServiceSpec :: "launch_lib \<Rightarrow> ServiceSpec \<Rightarrow> LaunchError option" where
  "validateServiceSpec lib s =
     (if \<not> validServiceName (sp_Name s) \<or> \<not> pinnedImage (sp_Image s) \<or> sp_User s = [] \<or> CHR 0x00 \<in> set (sp_User s)
         \<or> sp_Restart s \<noteq> ''no'' \<or> \<not> sp_OpenStdin s \<or> \<not> launch_validDigest (sp_WrapperDigest s) \<or> validArguments (sp_Argv s) \<noteq> None
         \<or> cs_User (sp_Child s) = [] \<or> CHR 0x00 \<in> set (cs_User (sp_Child s)) \<or> validArguments (cs_Argv (sp_Child s)) \<noteq> None
         \<or> validHealth (sp_Health s) \<noteq> None \<or> \<not> equalStringMap (items (cs_Environment (sp_Child s))) (items (sp_Environment s))
      then Some (fail ErrRuntime)
      else if \<not> ascending (\<lambda>d. validServiceName d \<and> d \<noteq> sp_Name s) [] (items (sp_Dependencies s))
         \<or> \<not> ascending validServiceName [] (items (sp_Networks s))
      then Some (fail ErrRuntime)
      else first_err (check_secret_keys [] (items (sp_SecretKeys s)))
             (first_err (check_environment lib ErrRuntime (items (sp_Environment s))) (check_labels lib ErrRuntime (items (sp_Labels s)))))"


fun check_specs :: "launch_lib \<Rightarrow> string \<Rightarrow> ServiceSpec list \<Rightarrow> LaunchError option" where
  "check_specs lib prev [] = None"
| "check_specs lib prev (s # ss) =
     (if sp_Name s \<le> prev then Some (fail ErrRuntime) else first_err (validateServiceSpec lib s) (check_specs lib (sp_Name s) ss))"

definition validateModelStructure :: "launch_lib \<Rightarrow> RenderedModel \<Rightarrow> LaunchError option" where
  "validateModelStructure lib m =
     (if \<not> validServiceName (rm_RuntimeID m) \<or> rm_Services m = [] \<or> 256 < length (rm_Services m) then Some (fail ErrRuntime)
      else check_specs lib [] (rm_Services m))"

definition hex_digest :: "launch_lib \<Rightarrow> string \<Rightarrow> string" where
  "hex_digest lib data = ''sha256:'' @ hex_EncodeToString (ll_sha lib data)"

definition ModelDigest :: "launch_lib \<Rightarrow> RenderedModel \<Rightarrow> LaunchError + string" where
  "ModelDigest lib m = (case validateModelStructure lib m of Some e \<Rightarrow> Inl e | None \<Rightarrow> Inr (hex_digest lib (jprint (body_json m))))"

definition ValidateRenderedModel :: "launch_lib \<Rightarrow> RenderedModel \<Rightarrow> LaunchError option" where
  "ValidateRenderedModel lib m = (case ModelDigest lib m of
      Inl e \<Rightarrow> Some e
    | Inr expected \<Rightarrow> if rm_ComposeDigest m \<noteq> expected then Some (fail ErrBinding) else None)"

definition ParseRenderedModel :: "launch_lib \<Rightarrow> (string \<Rightarrow> RenderedModel option) \<Rightarrow> string \<Rightarrow> LaunchError + RenderedModel" where
  "ParseRenderedModel lib decode data =
     (if validateJSONObject (ll_json lib) data \<noteq> None then Inl (fail ErrRuntime)
      else case decode data of
          None \<Rightarrow> Inl (fail ErrRuntime)
        | Some m \<Rightarrow>
            if jprint (model_json m) \<noteq> data then Inl (fail ErrRuntime)
            else (case ValidateRenderedModel lib m of Some e \<Rightarrow> Inl e | None \<Rightarrow> Inr m))"

definition serviceSpecFromAuthority :: "ServiceAuthority \<Rightarrow> ServiceSpec" where
  "serviceSpecFromAuthority a = \<lparr>sp_Name = sa_Name a, sp_Image = sa_Image a, sp_User = sa_User a, sp_Argv = sa_Argv a, sp_Environment = sa_Environment a,
     sp_Labels = sa_Labels a, sp_Networks = sa_Networks a, sp_Restart = sa_Restart a, sp_OpenStdin = sa_OpenStdin a, sp_Health = sa_Health a,
     sp_Dependencies = sa_Dependencies a, sp_SecretKeys = Some (map mk_Name (sa_Keys a)), sp_WrapperDigest = sa_WrapperDigest a, sp_Child = sa_Child a\<rparr>"

definition ValidateManifestModel :: "launch_lib \<Rightarrow> Manifest \<Rightarrow> RenderedModel \<Rightarrow> LaunchError option" where
  "ValidateManifestModel lib m model = first_err (Manifest_Validate lib m) (first_err (ValidateRenderedModel lib model)
     (if lm_RuntimeID m \<noteq> rm_RuntimeID model \<or> ad_Compose (lm_Digests m) \<noteq> rm_ComposeDigest model \<or> length (lm_Services m) \<noteq> length (rm_Services model)
      then Some (fail ErrBinding)
      else if map serviceSpecFromAuthority (lm_Services m) \<noteq> rm_Services model then Some (fail ErrBinding) else None))"

subsection \<open>Labels\<close>

definition label_version :: string where "label_version = ''com.skret.secret-launch''"
definition label_runtime :: string where "label_runtime = ''com.skret.secret-launch.runtime''"
definition label_role :: string where "label_role = ''com.skret.secret-launch.role''"
definition label_generation :: string where "label_generation = ''com.skret.secret-launch.generation''"
definition label_nonce :: string where "label_nonce = ''com.skret.secret-launch.nonce''"
definition label_manifest :: string where "label_manifest = ''com.skret.secret-launch.manifest''"
definition label_service :: string where "label_service = ''com.skret.secret-launch.service''"

definition OwnershipLabels :: "launch_lib \<Rightarrow> Manifest \<Rightarrow> smap" where
  "OwnershipLabels lib m = (case AuthorityDigest lib m of
      Inl _ \<Rightarrow> []
    | Inr digest \<Rightarrow> [(label_version, ManifestVersion), (label_runtime, lm_RuntimeID m), (label_role, lm_Role m),
        (label_generation, FormatUint (unat (lm_Generation m))), (label_nonce, lm_Nonce m), (label_manifest, ''sha256:'' @ hex_EncodeToString digest)])"

definition OwnershipScopeLabels :: "Manifest \<Rightarrow> smap" where
  "OwnershipScopeLabels m = [(label_version, ManifestVersion), (label_runtime, lm_RuntimeID m), (label_role, lm_Role m)]"

definition ContainsLabels :: "smap \<Rightarrow> smap \<Rightarrow> bool" where
  "ContainsLabels actual required \<longleftrightarrow> list_all (\<lambda>(key, val). get actual key = val) required"

definition ExactLabels :: "smap \<Rightarrow> smap \<Rightarrow> bool" where
  "ExactLabels actual expected \<longleftrightarrow> length actual = length expected \<and> list_all (\<lambda>(key, val). get actual key = val) expected"

definition currentOwnedGeneration :: "launch_lib \<Rightarrow> smap \<Rightarrow> Manifest \<Rightarrow> string \<Rightarrow> bool" where
  "currentOwnedGeneration lib labels m serviceName \<longleftrightarrow>
     serviceName \<noteq> [] \<and> ContainsLabels labels (map_put (label_service, serviceName) (OwnershipLabels lib m))"

definition ownedGenerationInScope :: "smap \<Rightarrow> smap \<Rightarrow> 64 word \<Rightarrow> bool" where
  "ownedGenerationInScope labels scope current \<longleftrightarrow>
     ContainsLabels labels scope \<and> get labels label_service \<noteq> []
     \<and> (case ParseUint 64 (get labels label_generation) of
           None \<Rightarrow> False
         | Some generation \<Rightarrow> 0 < generation \<and> generation \<le> unat current
             \<and> validNonce (get labels label_nonce) \<and> launch_validDigest (get labels label_manifest))"

definition olderOwnedGeneration :: "smap \<Rightarrow> smap \<Rightarrow> ServiceSpec \<Rightarrow> 64 word \<Rightarrow> bool" where
  "olderOwnedGeneration labels scope service current \<longleftrightarrow>
     sp_Name service \<noteq> [] \<and> ownedGenerationInScope labels scope current
     \<and> (case ParseUint 64 (get labels label_generation) of
           None \<Rightarrow> False
         | Some generation \<Rightarrow> generation < unat current \<and> get labels label_service = sp_Name service)"

definition LaunchLabels :: "launch_lib \<Rightarrow> Manifest \<Rightarrow> ServiceSpec \<Rightarrow> smap" where
  "LaunchLabels lib m service = map_put (label_service, sp_Name service) (OwnershipLabels lib m)"

definition ServiceLabels :: "launch_lib \<Rightarrow> Manifest \<Rightarrow> ServiceSpec \<Rightarrow> LaunchError + smap" where
  "ServiceLabels lib m service = (case sp_Labels service of
      None \<Rightarrow> Inl (OtherError ''panic: assignment to entry in nil map'')
    | Some labels \<Rightarrow> Inr (fold map_put (LaunchLabels lib m service) labels))"

definition parseDockerLabels :: "string \<Rightarrow> smap" where
  "parseDockerLabels val = fold (\<lambda>entry result. case Cut entry (CHR ''='') of (key, v, ok) \<Rightarrow> if ok \<and> key \<noteq> [] then map_put (key, v) result else result)
     (Split (CHR '','') val) []"

definition validContainerID :: "string \<Rightarrow> bool" where
  "validContainerID val \<longleftrightarrow> val \<noteq> [] \<and> length val \<le> 128 \<and> list_all (\<lambda>c. \<not> blank_byte c) val"

subsection \<open>The manifest mount\<close>

record ManifestMount =
  mm_HostDir :: string
  mm_ContainerDir :: string
  mm_FileName :: string

definition mountSafe :: "string \<Rightarrow> bool" where
  "mountSafe val \<longleftrightarrow> val \<noteq> [] \<and> list_all (\<lambda>c. \<not> (of_char c < (0x20 :: nat)) \<and> c \<noteq> CHR 0x7F \<and> c \<noteq> CHR '','' \<and> c \<noteq> CHR 0x22) val"

definition ContainerPath :: "ManifestMount \<Rightarrow> string" where
  "ContainerPath m = filepath_Join [mm_ContainerDir m, mm_FileName m]"

text \<open>\<open>dir\<close> is what the system says of the host directory: its entries with their being regular files, if it is one and can be read.\<close>

definition ManifestMount_Validate :: "(string \<Rightarrow> (string \<times> bool) list option) \<Rightarrow> ManifestMount \<Rightarrow> LaunchError option" where
  "ManifestMount_Validate dir m =
     (if \<not> rooted (mm_HostDir m) \<or> \<not> mountSafe (mm_HostDir m) \<or> \<not> rooted (mm_ContainerDir m) \<or> mm_ContainerDir m = ''/''
         \<or> filepath_Clean (mm_ContainerDir m) \<noteq> mm_ContainerDir m \<or> \<not> mountSafe (mm_ContainerDir m)
         \<or> mm_FileName m = [] \<or> mm_FileName m = ''.'' \<or> mm_FileName m = ''..'' \<or> ContainsAny (mm_FileName m) [CHR ''/'', backslash] \<or> \<not> mountSafe (mm_FileName m)
      then Some (fail ErrRuntime)
      else case dir (mm_HostDir m) of
          None \<Rightarrow> Some (fail ErrRuntime)
        | Some entries \<Rightarrow> check_all (\<lambda>(name, regular).
            if (name \<noteq> mm_FileName m \<and> \<not> (HasPrefix name ''.skret-'' \<and> HasSuffix name ''.tmp'')) \<or> \<not> regular then Some (fail ErrRuntime) else None) entries)"

definition dockerArgs :: "ManifestMount \<Rightarrow> string list" where
  "dockerArgs m = [''--mount'', ''type=bind,source='' @ mm_HostDir m @ '',target='' @ mm_ContainerDir m @ '',readonly'']"

text \<open>The loop over the arguments, with the number of \<open>--manifest\<close> flags so far.\<close>

fun check_argv :: "ManifestMount \<Rightarrow> nat \<Rightarrow> string list \<Rightarrow> LaunchError option" where
  "check_argv m found [] = (if found \<noteq> 1 then Some (fail ErrRuntime) else None)"
| "check_argv m found (arg # argv) =
     (if arg \<noteq> ''--manifest'' then check_argv m found argv
      else if argv = [] \<or> hd argv \<noteq> ContainerPath m then Some (fail ErrRuntime)
      else check_argv m (Suc found) argv)"

definition checkArgv :: "ManifestMount \<Rightarrow> string list \<Rightarrow> LaunchError option" where
  "checkArgv m argv = check_argv m 0 argv"

subsection \<open>Docker\<close>

record DockerRuntime =
  dr_Binary :: string
  dr_ExplicitInvoke :: bool
  dr_ManifestMount :: "ManifestMount option"

record docker_row =
  row_ID :: string
  row_Names :: string
  row_Labels :: string
  row_State :: string

record inspect_row =
  ins_ID :: string
  ins_Name :: string
  ins_Labels :: smap
  ins_Running :: bool
  ins_ExitCode :: int
  ins_Health :: "string option"

record docker_lib =
  dl_run :: "string \<Rightarrow> string list \<Rightarrow> string option"
  dl_row :: "string \<Rightarrow> docker_row option"
  dl_inspect :: "string \<Rightarrow> inspect_row option"
  dl_dir :: "string \<Rightarrow> (string \<times> bool) list option"
  dl_lower :: "string \<Rightarrow> string"
  dl_fold :: "string \<Rightarrow> string \<Rightarrow> bool"

definition docker_invoke :: "docker_lib \<Rightarrow> DockerRuntime \<Rightarrow> string list \<Rightarrow> LaunchError + string" where
  "docker_invoke dl d args =
     (if \<not> dr_ExplicitInvoke d then Inl (fail ErrNotInvoked)
      else if dr_Binary d = [] then Inl (fail ErrRuntime)
      else case dl_run dl (dr_Binary d) args of None \<Rightarrow> Inl (fail ErrDaemon) | Some stdout \<Rightarrow> Inr stdout)"

definition sortedMapKeys :: "smap \<Rightarrow> string list" where
  "sortedMapKeys m = sort (map fst m)"

definition list_args :: "smap \<Rightarrow> string list" where
  "list_args labels = [''ps'', ''--all'', ''--no-trunc''] @ concat (map (\<lambda>key. [''--filter'', ''label='' @ key @ ''='' @ get labels key]) (sortedMapKeys labels))
     @ [''--format'', ''{{json .}}'']"

fun parse_rows :: "docker_lib \<Rightarrow> string list \<Rightarrow> LaunchError + Container list" where
  "parse_rows dl [] = Inr []"
| "parse_rows dl (line # lines) =
     (if TrimSpace line = [] then parse_rows dl lines
      else case dl_row dl (TrimSpace line) of
          None \<Rightarrow> Inl (fail ErrRuntime)
        | Some row \<Rightarrow>
            if row_ID row = [] then Inl (fail ErrRuntime)
            else (case parse_rows dl lines of
                Inl e \<Rightarrow> Inl e
              | Inr cs \<Rightarrow> Inr (\<lparr>ct_ID = row_ID row, ct_Name = row_Names row, ct_Labels = parseDockerLabels (row_Labels row),
                  ct_Running = HasPrefix (ToLower (dl_lower dl) (row_State row)) ''up'', ct_Healthy = False\<rparr> # cs)))"

definition Docker_List :: "docker_lib \<Rightarrow> DockerRuntime \<Rightarrow> smap \<Rightarrow> LaunchError + Container list" where
  "Docker_List dl d labels = (case docker_invoke dl d (list_args labels) of Inl e \<Rightarrow> Inl e | Inr stdout \<Rightarrow> parse_rows dl (Split (CHR 0x0A) stdout))"

definition Docker_Inspect :: "docker_lib \<Rightarrow> DockerRuntime \<Rightarrow> string \<Rightarrow> LaunchError + Container \<times> int" where
  "Docker_Inspect dl d cid =
     (if \<not> validContainerID cid then Inl (fail ErrRuntime)
      else case docker_invoke dl d [''inspect'', ''--format'', ''{{json .}}'', cid] of
          Inl e \<Rightarrow> Inl e
        | Inr stdout \<Rightarrow> (case dl_inspect dl (TrimSpace stdout) of
              None \<Rightarrow> Inl (fail ErrRuntime)
            | Some row \<Rightarrow>
                if ins_ID row = [] then Inl (fail ErrRuntime)
                else Inr (\<lparr>ct_ID = ins_ID row, ct_Name = TrimPrefix (ins_Name row) ''/'', ct_Labels = ins_Labels row, ct_Running = ins_Running row,
                    ct_Healthy = (case ins_Health row of None \<Rightarrow> False | Some status \<Rightarrow> dl_fold dl status ''healthy'')\<rparr>, ins_ExitCode row)))"

text \<open>The labels of a new container: those of the service and those of the launch, which must not collide.\<close>

fun merge_labels :: "smap \<Rightarrow> smap \<Rightarrow> smap option" where
  "merge_labels m [] = Some m"
| "merge_labels m ((key, val) # labels) = (if map_of m key \<noteq> None then None else merge_labels (map_put (key, val) m) labels)"

definition create_args :: "string list \<Rightarrow> ServiceSpec \<Rightarrow> smap \<Rightarrow> string list" where
  "create_args mount s merged =
     [''create'', ''--name'', sp_Name s, ''--restart'', ''no'', ''--interactive'', ''--attach'', ''stdin''] @ mount
     @ (if sp_User s \<noteq> [] then [''--user'', sp_User s] else [])
     @ concat (map (\<lambda>network. [''--network'', network]) (items (sp_Networks s)))
     @ concat (map (\<lambda>key. [''--env'', key @ ''='' @ get (items (sp_Environment s)) key]) (sortedMapKeys (items (sp_Environment s))))
     @ concat (map (\<lambda>key. [''--label'', key @ ''='' @ get merged key]) (sortedMapKeys merged))
     @ (if hs_Command (sp_Health s) \<noteq> []
        then [''--health-cmd'', Join (hs_Command (sp_Health s)) '' '', ''--health-interval'', FormatUint (unat (hs_IntervalMS (sp_Health s))) @ ''ms'',
              ''--health-timeout'', FormatUint (unat (hs_TimeoutMS (sp_Health s))) @ ''ms'', ''--health-retries'', FormatUint (unat (hs_Retries (sp_Health s)))]
        else [])
     @ [''--'', sp_Image s] @ sp_Argv s"

definition Docker_Create :: "launch_lib \<Rightarrow> docker_lib \<Rightarrow> DockerRuntime \<Rightarrow> ServiceSpec \<Rightarrow> smap \<Rightarrow> LaunchError + Container" where
  "Docker_Create lib dl d s labels = (case validateServiceSpec lib s of
      Some e \<Rightarrow> Inl e
    | None \<Rightarrow> (case (case dr_ManifestMount d of
                        None \<Rightarrow> Inr []
                      | Some m \<Rightarrow> (case first_err (ManifestMount_Validate (dl_dir dl) m) (checkArgv m (sp_Argv s)) of Some e \<Rightarrow> Inl e | None \<Rightarrow> Inr (dockerArgs m))) of
          Inl e \<Rightarrow> Inl e
        | Inr mount \<Rightarrow>
            if sp_Labels s = None \<and> labels \<noteq> [] then Inl (OtherError ''panic: assignment to entry in nil map'')
            else (case merge_labels (items (sp_Labels s)) labels of
                None \<Rightarrow> Inl (fail ErrRuntime)
              | Some merged \<Rightarrow> (case docker_invoke dl d (create_args mount s merged) of
                    Inl e \<Rightarrow> Inl e
                  | Inr stdout \<Rightarrow>
                      if \<not> validContainerID (TrimSpace stdout) then Inl (fail ErrRuntime)
                      else Inr \<lparr>ct_ID = TrimSpace stdout, ct_Name = sp_Name s, ct_Labels = merged, ct_Running = False, ct_Healthy = False\<rparr>))))"

definition docker_command :: "docker_lib \<Rightarrow> DockerRuntime \<Rightarrow> string list \<Rightarrow> string \<Rightarrow> LaunchError option" where
  "docker_command dl d args cid =
     (if \<not> validContainerID cid then Some (fail ErrRuntime)
      else case docker_invoke dl d (args @ [cid]) of Inl e \<Rightarrow> Some e | Inr _ \<Rightarrow> None)"

definition Docker_Start :: "docker_lib \<Rightarrow> DockerRuntime \<Rightarrow> string \<Rightarrow> LaunchError option" where
  "Docker_Start dl d = docker_command dl d [''start'']"

definition Docker_Kill :: "docker_lib \<Rightarrow> DockerRuntime \<Rightarrow> string \<Rightarrow> LaunchError option" where
  "Docker_Kill dl d = docker_command dl d [''kill'']"

definition Docker_Remove :: "docker_lib \<Rightarrow> DockerRuntime \<Rightarrow> string \<Rightarrow> bool \<Rightarrow> LaunchError option" where
  "Docker_Remove dl d cid force = docker_command dl d ([''rm''] @ (if force then [''--force''] else [])) cid"

definition Docker_Render :: "launch_lib \<Rightarrow> RenderedModel \<Rightarrow> LaunchError + RenderedModel" where
  "Docker_Render lib model = (case ValidateRenderedModel lib model of Some e \<Rightarrow> Inl e | None \<Rightarrow> Inr model)"

text \<open>\<open>attach\<close> is the runner for attached commands, if there is one.\<close>

definition Docker_Attach :: "(string \<Rightarrow> string list \<Rightarrow> LaunchError + 'stream) option \<Rightarrow> DockerRuntime \<Rightarrow> string \<Rightarrow> LaunchError + 'stream" where
  "Docker_Attach attach d cid =
     (if \<not> dr_ExplicitInvoke d then Inl (fail ErrNotInvoked)
      else case attach of
          None \<Rightarrow> Inl (fail ErrRuntime)
        | Some run \<Rightarrow> if \<not> validContainerID cid \<or> dr_Binary d = [] then Inl (fail ErrRuntime) else run (dr_Binary d) [''attach'', cid])"

subsection \<open>Ownership\<close>

lemma get_put: "get (map_put kv m) k = (if k = fst kv then snd kv else get m k)"
  by (simp add: get_def map_of_put)

lemma merge_labels_Some:
  "merge_labels m labels = Some merged \<Longrightarrow> distinct (map fst labels) \<Longrightarrow>
     (\<forall>(k, v) \<in> set labels. get merged k = v) \<and> (\<forall>k. k \<notin> fst ` set labels \<longrightarrow> get merged k = get m k)"
proof (induction m labels rule: merge_labels.induct)
  case (2 m key val labels)
  then have ih: "(\<forall>(k, v) \<in> set labels. get merged k = v) \<and> (\<forall>k. k \<notin> fst ` set labels \<longrightarrow> get merged k = get (map_put (key, val) m) k)"
    by (auto split: if_splits)
  then have "get merged key = val" using "2.prems"(2) by (simp add: get_put)
  then show ?case using ih by (auto simp: get_put)
qed simp

lemma merge_labels_disjoint:
  "fst ` set labels \<inter> fst ` set m = {} \<Longrightarrow> distinct (map fst labels) \<Longrightarrow> \<exists>merged. merge_labels m labels = Some merged"
proof (induction m labels rule: merge_labels.induct)
  case (2 m key val labels)
  have n: "map_of m key = None" using "2.prems"(1) by (auto simp: map_of_eq_None_iff)
  have "fst ` set (map_put (key, val) m) \<subseteq> insert key (fst ` set m)" by (auto simp: map_put_def)
  moreover have "key \<notin> fst ` set labels" "fst ` set labels \<inter> fst ` set m = {}" "distinct (map fst labels)" using "2.prems" by auto
  ultimately have "fst ` set labels \<inter> fst ` set (map_put (key, val) m) = {}" "distinct (map fst labels)" by blast+
  then show ?case using "2.IH" n by simp
qed simp

lemmas label_defs = label_version_def label_runtime_def label_role_def label_generation_def label_nonce_def label_manifest_def label_service_def

lemma LaunchLabels_distinct: "distinct (map fst (LaunchLabels lib m s))"
  by (auto simp: LaunchLabels_def map_put_def OwnershipLabels_def label_defs split: sum.split)

lemma LaunchLabels_reserved: "(k, v) \<in> set (LaunchLabels lib m s) \<Longrightarrow> HasPrefix k ''com.skret.secret-launch''"
  by (auto simp: LaunchLabels_def map_put_def OwnershipLabels_def label_defs HasPrefix_def split: sum.splits)

end
