(* ===== verification/Launch_Supervisor.thy ===== *)
theory Launch_Supervisor
  imports Launch_Runtime
begin

text \<open>
  The supervisor of a launch, \<open>src/internal/secretlaunch/supervisor.go\<close>: the order of the services, reconciliation of the containers with the manifest, recovery, and the loop with its renewals.

  The container runtime and the sender are parameters, functions on a world of any type (record \<open>Runtime\<close>). The supervisor's state is that world, the sessions it keeps open, and a log of what it has asked of the runtime and
  what it was told. \<open>WaitDaemon\<close> is the list of its outcomes, and the loop ends with its context after the given ticks.
\<close>

subsection \<open>Effects\<close>

record 'w Runtime =
  rt_Render :: "RenderedModel \<Rightarrow> 'w \<Rightarrow> 'w \<times> (LaunchError + RenderedModel)"
  rt_List :: "smap \<Rightarrow> 'w \<Rightarrow> 'w \<times> (LaunchError + Container list)"
  rt_Inspect :: "string \<Rightarrow> 'w \<Rightarrow> 'w \<times> (LaunchError + Container)"
  rt_Create :: "ServiceSpec \<Rightarrow> smap \<Rightarrow> 'w \<Rightarrow> 'w \<times> (LaunchError + Container)"
  rt_Attach :: "string \<Rightarrow> 'w \<Rightarrow> 'w \<times> (LaunchError + unit)"
  rt_Start :: "string \<Rightarrow> 'w \<Rightarrow> 'w \<times> (LaunchError + unit)"
  rt_Kill :: "string \<Rightarrow> 'w \<Rightarrow> 'w \<times> (LaunchError + unit)"
  rt_Remove :: "string \<Rightarrow> 'w \<Rightarrow> 'w \<times> (LaunchError + unit)"
  rt_Send :: "string \<Rightarrow> Manifest \<Rightarrow> ServiceAuthority \<Rightarrow> SecretSet \<Rightarrow> 'w \<Rightarrow> 'w \<times> (LaunchError + unit)"

datatype action =
    Listed smap "Container list"
  | Inspected string Container
  | Created ServiceSpec smap string
  | Started string
  | Sent string ServiceAuthority SecretSet bool
  | KilledContainer string
  | Removed string

record 'w Supervisor =
  sv_world :: 'w
  sv_sessions :: "(string \<times> bool) list"
  sv_log :: "action list"

type_synonym ('w, 'a) act = "'w Supervisor \<Rightarrow> 'w Supervisor \<times> (LaunchError + 'a)"

definition aret :: "'a \<Rightarrow> ('w, 'a) act" where
  "aret x s = (s, Inr x)"

definition afail :: "LaunchError \<Rightarrow> ('w, 'a) act" where
  "afail e s = (s, Inl e)"

definition abind :: "('w, 'a) act \<Rightarrow> ('a \<Rightarrow> ('w, 'b) act) \<Rightarrow> ('w, 'b) act" where
  "abind a f s = (case a s of (s', Inl e) \<Rightarrow> (s', Inl e) | (s', Inr x) \<Rightarrow> f x s')"

text \<open>An action whose error is a value.\<close>

definition caught :: "('w, 'a) act \<Rightarrow> ('w, LaunchError + 'a) act" where
  "caught a s = (case a s of (s', r) \<Rightarrow> (s', Inr r))"

definition acheck :: "LaunchError option \<Rightarrow> ('w, unit) act" where
  "acheck e = (case e of None \<Rightarrow> aret () | Some e \<Rightarrow> afail e)"

definition aeither :: "LaunchError + 'a \<Rightarrow> ('w, 'a) act" where
  "aeither r = (case r of Inl e \<Rightarrow> afail e | Inr x \<Rightarrow> aret x)"

fun aiter :: "('a \<Rightarrow> ('w, unit) act) \<Rightarrow> 'a list \<Rightarrow> ('w, unit) act" where
  "aiter f [] = aret ()"
| "aiter f (x # xs) = abind (f x) (\<lambda>_. aiter f xs)"

definition call :: "('w \<Rightarrow> 'w \<times> (LaunchError + 'a)) \<Rightarrow> (LaunchError + 'a \<Rightarrow> action list) \<Rightarrow> ('w, 'a) act" where
  "call f note_of s = (case f (sv_world s) of (w, r) \<Rightarrow> (s\<lparr>sv_world := w, sv_log := sv_log s @ note_of r\<rparr>, r))"

definition on_success :: "('a \<Rightarrow> action) \<Rightarrow> LaunchError + 'a \<Rightarrow> action list" where
  "on_success f r = (case r of Inl _ \<Rightarrow> [] | Inr x \<Rightarrow> [f x])"

definition do_render :: "'w Runtime \<Rightarrow> RenderedModel \<Rightarrow> ('w, RenderedModel) act" where
  "do_render rt model = call (rt_Render rt model) (\<lambda>r. [])"

definition do_list :: "'w Runtime \<Rightarrow> smap \<Rightarrow> ('w, Container list) act" where
  "do_list rt labels = call (rt_List rt labels) (on_success (Listed labels))"

definition do_inspect :: "'w Runtime \<Rightarrow> string \<Rightarrow> ('w, Container) act" where
  "do_inspect rt cid = call (rt_Inspect rt cid) (on_success (Inspected cid))"

definition do_create :: "'w Runtime \<Rightarrow> ServiceSpec \<Rightarrow> smap \<Rightarrow> ('w, Container) act" where
  "do_create rt spec labels = call (rt_Create rt spec labels) (on_success (\<lambda>c. Created spec labels (ct_ID c)))"

definition do_attach :: "'w Runtime \<Rightarrow> string \<Rightarrow> ('w, unit) act" where
  "do_attach rt cid = call (rt_Attach rt cid) (\<lambda>r. [])"

definition do_start :: "'w Runtime \<Rightarrow> string \<Rightarrow> ('w, unit) act" where
  "do_start rt cid = call (rt_Start rt cid) (\<lambda>r. [Started cid])"

definition do_kill :: "'w Runtime \<Rightarrow> string \<Rightarrow> ('w, unit) act" where
  "do_kill rt cid = call (rt_Kill rt cid) (\<lambda>r. [KilledContainer cid])"

definition do_remove :: "'w Runtime \<Rightarrow> string \<Rightarrow> ('w, unit) act" where
  "do_remove rt cid = call (rt_Remove rt cid) (\<lambda>r. [Removed cid])"

definition do_send :: "'w Runtime \<Rightarrow> string \<Rightarrow> Manifest \<Rightarrow> ServiceAuthority \<Rightarrow> SecretSet \<Rightarrow> ('w, unit) act" where
  "do_send rt cid m authority values = call (rt_Send rt cid m authority values) (\<lambda>r. [Sent cid authority values (\<not> isl r)])"

subsection \<open>Sessions\<close>

definition NewSupervisor :: "'w \<Rightarrow> 'w Supervisor" where
  "NewSupervisor w = \<lparr>sv_world = w, sv_sessions = [], sv_log = []\<rparr>"

text \<open>A session is open or closed; the sender's goroutine may close it at any time.\<close>

definition trackSession :: "string \<Rightarrow> ('w, unit) act" where
  "trackSession cid s = (s\<lparr>sv_sessions := (cid, False) # filter (\<lambda>e. fst e \<noteq> cid) (sv_sessions s)\<rparr>, Inr ())"

definition hasSession :: "'w Supervisor \<Rightarrow> string \<Rightarrow> bool" where
  "hasSession s cid \<longleftrightarrow> map_of (sv_sessions s) cid = Some False"

definition closeSession :: "string \<Rightarrow> ('w, unit) act" where
  "closeSession cid s = (s\<lparr>sv_sessions := filter (\<lambda>e. fst e \<noteq> cid) (sv_sessions s)\<rparr>, Inr ())"

definition Supervisor_Close :: "'w Supervisor \<Rightarrow> 'w Supervisor" where
  "Supervisor_Close s = s\<lparr>sv_sessions := []\<rparr>"

subsection \<open>The order of services\<close>

text \<open>
  The depth-first visit: \<open>state\<close> maps a name to 1 while it is visited and to 2 afterwards. \<open>None\<close> is running out of the
  bound on the depth.
\<close>

type_synonym visiting = "(string \<Rightarrow> nat) \<times> ServiceSpec list"

fun visit :: "(string \<Rightarrow> ServiceSpec option) \<Rightarrow> nat \<Rightarrow> visiting \<Rightarrow> string \<Rightarrow> (LaunchError + visiting) option"
and visit_all :: "(string \<Rightarrow> ServiceSpec option) \<Rightarrow> nat \<Rightarrow> visiting \<Rightarrow> string list \<Rightarrow> (LaunchError + visiting) option" where
  "visit byName 0 st name = None"
| "visit byName (Suc n) (state, ordered) name =
     (if state name = 1 then Some (Inl (fail ErrRuntime))
      else if state name = 2 then Some (Inr (state, ordered))
      else case byName name of
          None \<Rightarrow> Some (Inl (fail ErrRuntime))
        | Some service \<Rightarrow> (case visit_all byName n (state(name := 1), ordered) (sort (items (sp_Dependencies service))) of
              None \<Rightarrow> None
            | Some (Inl e) \<Rightarrow> Some (Inl e)
            | Some (Inr (state', ordered')) \<Rightarrow> Some (Inr (state'(name := 2), ordered' @ [service]))))"
| "visit_all byName n st [] = Some (Inr st)"
| "visit_all byName n st (name # names) = (case visit byName n st name of
      None \<Rightarrow> None
    | Some (Inl e) \<Rightarrow> Some (Inl e)
    | Some (Inr st') \<Rightarrow> visit_all byName n st' names)"

definition serviceByName :: "ServiceSpec list \<Rightarrow> string \<Rightarrow> ServiceSpec option" where
  "serviceByName services = map_of (map (\<lambda>s. (sp_Name s, s)) services)"

definition OrderServices :: "ServiceSpec list \<Rightarrow> LaunchError + ServiceSpec list" where
  "OrderServices services =
     (if \<not> distinct (map sp_Name services) then Inl (fail ErrRuntime)
      else case visit_all (serviceByName services) (Suc (length services)) ((\<lambda>_. 0), []) (sort (map sp_Name services)) of
          None \<Rightarrow> Inl (OtherError ''fuel'')
        | Some (Inl e) \<Rightarrow> Inl e
        | Some (Inr (state, ordered)) \<Rightarrow> Inr ordered)"

definition validateDependencies :: "ServiceSpec list \<Rightarrow> (string \<Rightarrow> ServiceSpec option) \<Rightarrow> LaunchError option" where
  "validateDependencies ordered all = check_all (\<lambda>d. if all d = None then Some (fail ErrRuntime) else None) (concat (map (\<lambda>s. items (sp_Dependencies s)) ordered))"

fun unique_strings :: "string \<Rightarrow> string list \<Rightarrow> string list" where
  "unique_strings prev [] = []"
| "unique_strings prev (v # vs) = (if v \<noteq> prev then v # unique_strings v vs else unique_strings prev vs)"

definition uniqueStrings :: "string list \<Rightarrow> string list" where
  "uniqueStrings vs = unique_strings [] vs"

subsection \<open>Reconciliation\<close>

definition matching :: "launch_lib \<Rightarrow> Manifest \<Rightarrow> (string \<Rightarrow> ServiceSpec option) \<Rightarrow> Container \<Rightarrow> bool" where
  "matching lib manifest services c = (case services (ct_Name c) of
      None \<Rightarrow> False
    | Some service \<Rightarrow> (get (ct_Labels c) label_service = sp_Name service \<or> get (ct_Labels c) label_service = [])
        \<and> (currentOwnedGeneration lib (ct_Labels c) manifest (sp_Name service)
           \<or> olderOwnedGeneration (ct_Labels c) (OwnershipScopeLabels manifest) service (lm_Generation manifest)))"

definition stale_owned :: "Manifest \<Rightarrow> (string \<Rightarrow> ServiceSpec option) \<Rightarrow> Container \<Rightarrow> bool" where
  "stale_owned manifest services c \<longleftrightarrow>
     ownedGenerationInScope (ct_Labels c) (OwnershipScopeLabels manifest) (lm_Generation manifest) \<and> get (ct_Labels c) label_service \<noteq> []
     \<and> (case services (get (ct_Labels c) label_service) of None \<Rightarrow> True | Some wanted \<Rightarrow> ct_Name c \<noteq> sp_Name wanted)"

record pending =
  pd_service :: ServiceSpec
  pd_authority :: ServiceAuthority
  pd_old :: "Container list"
  pd_values :: SecretSet

text \<open>Which services can be reused and which are to be created, with the containers they replace.\<close>

definition reusable :: "launch_lib \<Rightarrow> 'w Runtime \<Rightarrow> Manifest \<Rightarrow> ServiceSpec \<Rightarrow> Container list \<Rightarrow> ('w, bool) act" where
  "reusable lib rt manifest service existing = (\<lambda>s. case existing of
      [c] \<Rightarrow>
        if ct_Running c \<and> hasSession s (ct_ID c)
        then abind (caught (do_inspect rt (ct_ID c))) (\<lambda>r. aret (case r of
               Inl _ \<Rightarrow> False
             | Inr state \<Rightarrow> ct_Running state \<and> ct_Healthy state \<and> currentOwnedGeneration lib (ct_Labels state) manifest (sp_Name service))) s
        else aret False s
    | _ \<Rightarrow> aret False s)"

fun plan_services ::
    "launch_lib \<Rightarrow> 'w Runtime \<Rightarrow> Manifest \<Rightarrow> (string \<Rightarrow> Container list) \<Rightarrow> (string \<Rightarrow> ServiceAuthority option) \<Rightarrow> ServiceSpec list
      \<Rightarrow> ('w, string list \<times> pending list) act" where
  "plan_services lib rt manifest matches authorities [] = aret ([], [])"
| "plan_services lib rt manifest matches authorities (service # services) =
     abind (reusable lib rt manifest service (matches (sp_Name service))) (\<lambda>ok.
       if ok then abind (plan_services lib rt manifest matches authorities services) (\<lambda>(reused, ps). aret (sp_Name service # reused, ps))
       else (case authorities (sp_Name service) of
           None \<Rightarrow> afail (fail ErrBinding)
         | Some authority \<Rightarrow> abind (plan_services lib rt manifest matches authorities services) (\<lambda>(reused, ps).
             aret (reused, \<lparr>pd_service = service, pd_authority = authority, pd_old = matches (sp_Name service), pd_values = []\<rparr> # ps))))"

fun fetch_all :: "fetcher \<Rightarrow> pending list \<Rightarrow> LaunchError + pending list" where
  "fetch_all Fetch [] = Inr []"
| "fetch_all Fetch (p # ps) = (case FetchSecrets Fetch (sa_Keys (pd_authority p)) of
      Inl e \<Rightarrow> Inl e
    | Inr values \<Rightarrow> (case fetch_all Fetch ps of Inl e \<Rightarrow> Inl e | Inr ps' \<Rightarrow> Inr (p\<lparr>pd_values := values\<rparr> # ps')))"

definition remove_container :: "'w Runtime \<Rightarrow> Container \<Rightarrow> ('w, unit) act" where
  "remove_container rt c = abind (closeSession (ct_ID c)) (\<lambda>_. do_remove rt (ct_ID c))"

text \<open>One dependency: its containers among those of the launch, all of which must be up and its own.\<close>

fun healthy_all :: "launch_lib \<Rightarrow> 'w Runtime \<Rightarrow> Manifest \<Rightarrow> string \<Rightarrow> string \<Rightarrow> bool \<Rightarrow> Container list \<Rightarrow> ('w, bool) act" where
  "healthy_all lib rt manifest dependency expected found [] = aret found"
| "healthy_all lib rt manifest dependency expected found (c # cs) =
     (if ct_Name c \<noteq> dependency \<or> \<not> currentOwnedGeneration lib (ct_Labels c) manifest expected
      then healthy_all lib rt manifest dependency expected found cs
      else abind (caught (do_inspect rt (ct_ID c))) (\<lambda>r. case r of
          Inl _ \<Rightarrow> afail (fail ErrRuntime)
        | Inr state \<Rightarrow>
            if \<not> ct_Running state \<or> \<not> ct_Healthy state \<or> \<not> currentOwnedGeneration lib (ct_Labels state) manifest expected then afail (fail ErrRuntime)
            else healthy_all lib rt manifest dependency expected True cs))"

definition check_dependency :: "launch_lib \<Rightarrow> 'w Runtime \<Rightarrow> Manifest \<Rightarrow> (string \<Rightarrow> ServiceSpec option) \<Rightarrow> string \<Rightarrow> ('w, unit) act" where
  "check_dependency lib rt manifest all dependency = (case all dependency of
      None \<Rightarrow> afail (fail ErrRuntime)
    | Some expected \<Rightarrow> abind (do_list rt (OwnershipLabels lib manifest)) (\<lambda>containers.
        abind (healthy_all lib rt manifest dependency (sp_Name expected) False containers) (\<lambda>found.
        if found then aret () else afail (fail ErrRuntime))))"

definition checkDependencies :: "launch_lib \<Rightarrow> 'w Runtime \<Rightarrow> ServiceSpec \<Rightarrow> (string \<Rightarrow> ServiceSpec option) \<Rightarrow> Manifest \<Rightarrow> ('w, unit) act" where
  "checkDependencies lib rt service all manifest = aiter (check_dependency lib rt manifest all) (items (sp_Dependencies service))"

text \<open>What is done with a container that failed on the way up; the failures of that are ignored.\<close>

definition give_up :: "('w, unit) act list \<Rightarrow> LaunchError \<Rightarrow> ('w, 'a) act" where
  "give_up clean e = abind (aiter (\<lambda>a. abind (caught a) (\<lambda>_. aret ())) clean) (\<lambda>_. afail e)"

definition send_to :: "'w Runtime \<Rightarrow> Manifest \<Rightarrow> pending \<Rightarrow> string \<Rightarrow> ('w, unit) act" where
  "send_to rt manifest p cid = abind (caught (do_send rt cid manifest (pd_authority p) (pd_values p))) (\<lambda>sent. case sent of
      Inl e \<Rightarrow> give_up [do_kill rt cid, do_remove rt cid] e
    | Inr _ \<Rightarrow> trackSession cid)"

definition start_and_send :: "'w Runtime \<Rightarrow> Manifest \<Rightarrow> pending \<Rightarrow> string \<Rightarrow> ('w, unit) act" where
  "start_and_send rt manifest p cid = abind (caught (do_start rt cid)) (\<lambda>started. case started of
      Inl e \<Rightarrow> give_up [do_remove rt cid] e
    | Inr _ \<Rightarrow> send_to rt manifest p cid)"

definition bring_up :: "launch_lib \<Rightarrow> 'w Runtime \<Rightarrow> Manifest \<Rightarrow> pending \<Rightarrow> ('w, unit) act" where
  "bring_up lib rt manifest p =
     abind (do_create rt (pd_service p) (LaunchLabels lib manifest (pd_service p))) (\<lambda>c.
     abind (caught (do_attach rt (ct_ID c))) (\<lambda>attached. case attached of
         Inl e \<Rightarrow> give_up [do_remove rt (ct_ID c)] e
       | Inr _ \<Rightarrow> start_and_send rt manifest p (ct_ID c)))"

definition create_service :: "launch_lib \<Rightarrow> 'w Runtime \<Rightarrow> Manifest \<Rightarrow> (string \<Rightarrow> ServiceSpec option) \<Rightarrow> pending \<Rightarrow> ('w, unit) act" where
  "create_service lib rt manifest all p =
     abind (aiter (remove_container rt) (pd_old p)) (\<lambda>_.
     abind (checkDependencies lib rt (pd_service p) all manifest) (\<lambda>_.
     bring_up lib rt manifest p))"

record ReconcileResult =
  rr_Created :: "string list"
  rr_Removed :: nat
  rr_Reused :: "string list"
  rr_FetchedKeys :: "string list"

definition authorityByName :: "Manifest \<Rightarrow> string \<Rightarrow> ServiceAuthority option" where
  "authorityByName m = map_of (map (\<lambda>a. (sa_Name a, a)) (lm_Services m))"

definition apply_plan ::
    "launch_lib \<Rightarrow> 'w Runtime \<Rightarrow> Manifest \<Rightarrow> (string \<Rightarrow> ServiceSpec option) \<Rightarrow> Container list \<Rightarrow> string list \<Rightarrow> pending list \<Rightarrow> ('w, ReconcileResult) act" where
  "apply_plan lib rt manifest services stale reused ps =
     abind (aiter (remove_container rt) stale) (\<lambda>_.
     abind (aiter (create_service lib rt manifest services) ps) (\<lambda>_.
     aret \<lparr>rr_Created = map (\<lambda>p. sp_Name (pd_service p)) ps, rr_Removed = length stale + length (concat (map pd_old ps)), rr_Reused = reused,
       rr_FetchedKeys = uniqueStrings (sort (concat (map (\<lambda>p. map mk_Name (sa_Keys (pd_authority p))) ps)))\<rparr>))"

text \<open>From the containers listed: which services to keep, the secrets of the others, and the changes.\<close>

definition carry_out :: "launch_lib \<Rightarrow> 'w Runtime \<Rightarrow> fetcher \<Rightarrow> Manifest \<Rightarrow> ServiceSpec list \<Rightarrow> Container list \<Rightarrow> ServiceSpec list \<Rightarrow> ('w, ReconcileResult) act" where
  "carry_out lib rt Fetch manifest services containers ordered =
     abind (plan_services lib rt manifest (\<lambda>name. filter (\<lambda>c. ct_Name c = name \<and> matching lib manifest (serviceByName services) c) containers)
         (authorityByName manifest) ordered) (\<lambda>(reused, ps).
     abind (aeither (fetch_all Fetch ps)) (\<lambda>ps.
     apply_plan lib rt manifest (serviceByName services) (filter (stale_owned manifest (serviceByName services)) containers) reused ps))"

definition Reconcile :: "launch_lib \<Rightarrow> 'w Runtime \<Rightarrow> fetcher \<Rightarrow> gotime \<Rightarrow> RenderedModel \<Rightarrow> Manifest \<Rightarrow> ('w, ReconcileResult) act" where
  "Reconcile lib rt Fetch now model manifest =
     abind (acheck (ValidateAt lib manifest now)) (\<lambda>_.
     abind (acheck (ValidateManifestModel lib manifest model)) (\<lambda>_.
     abind (do_render rt model) (\<lambda>rendered.
     abind (acheck (ValidateManifestModel lib manifest rendered)) (\<lambda>_.
     abind (do_list rt (OwnershipScopeLabels manifest)) (\<lambda>containers.
     abind (aeither (OrderServices (rm_Services rendered))) (\<lambda>ordered.
     abind (acheck (validateDependencies ordered (serviceByName (rm_Services rendered)))) (\<lambda>_.
     carry_out lib rt Fetch manifest (rm_Services rendered) containers ordered)))))))"

subsection \<open>The loop\<close>

definition ScavengeOrphans :: "'w Runtime \<Rightarrow> smap \<Rightarrow> ('w, nat) act" where
  "ScavengeOrphans rt labels =
     (if labels = [] then afail (fail ErrRuntime)
      else abind (do_list rt labels) (\<lambda>containers.
        abind (aiter (remove_container rt) (filter (\<lambda>c. ExactLabels (ct_Labels c) labels) containers)) (\<lambda>_.
        aret (length (filter (\<lambda>c. ExactLabels (ct_Labels c) labels) containers)))))"

text \<open>\<open>refreshManifest\<close>: \<open>reload\<close> is the answer of the source, if there is one.\<close>

definition refreshManifest :: "launch_lib \<Rightarrow> (LaunchError + Manifest) option \<Rightarrow> gotime \<Rightarrow> Manifest \<Rightarrow> Manifest" where
  "refreshManifest lib reload now current = (case reload of
      None \<Rightarrow> current
    | Some (Inl _) \<Rightarrow> current
    | Some (Inr candidate) \<Rightarrow> (case AcceptRenewal lib current candidate now of Some _ \<Rightarrow> current | None \<Rightarrow> candidate))"

text \<open>
  \<open>reconcileWithRecovery\<close>: \<open>waits\<close> are the outcomes of waiting for the daemon with the time afterwards, \<open>None\<close> if there is no way to wait; when they are used up the
  context has ended.
\<close>

definition ctx_err :: LaunchError where
  "ctx_err = OtherError ''context canceled''"

fun recover_with ::
    "launch_lib \<Rightarrow> 'w Runtime \<Rightarrow> fetcher \<Rightarrow> gotime \<Rightarrow> RenderedModel \<Rightarrow> Manifest \<Rightarrow> (bool \<times> gotime) list \<Rightarrow> ('w, unit) act" where
  "recover_with lib rt Fetch now model manifest [] =
     abind (caught (abind (ScavengeOrphans rt (OwnershipLabels lib manifest)) (\<lambda>_. Reconcile lib rt Fetch now model manifest))) (\<lambda>r. case r of
         Inr _ \<Rightarrow> aret ()
       | Inl e \<Rightarrow> if errorCode e \<noteq> ErrDaemon then afail e else afail ctx_err)"
| "recover_with lib rt Fetch now model manifest ((w, later) # ws) =
     abind (caught (abind (ScavengeOrphans rt (OwnershipLabels lib manifest)) (\<lambda>_. Reconcile lib rt Fetch now model manifest))) (\<lambda>r. case r of
         Inr _ \<Rightarrow> aret ()
       | Inl e \<Rightarrow>
           if errorCode e \<noteq> ErrDaemon then afail e
           else if w then recover_with lib rt Fetch later model manifest ws
           else afail (fail ErrDaemon))"

definition reconcileWithRecovery ::
    "launch_lib \<Rightarrow> 'w Runtime \<Rightarrow> fetcher \<Rightarrow> gotime \<Rightarrow> (bool \<times> gotime) list option \<Rightarrow> RenderedModel \<Rightarrow> Manifest \<Rightarrow> ('w, unit) act" where
  "reconcileWithRecovery lib rt Fetch now waits model manifest = (case waits of
      None \<Rightarrow> abind (ScavengeOrphans rt (OwnershipLabels lib manifest)) (\<lambda>_. abind (Reconcile lib rt Fetch now model manifest) (\<lambda>_. aret ()))
    | Some ws \<Rightarrow> recover_with lib rt Fetch now model manifest ws)"

record supervisor_tick =
  tk_now :: gotime
  tk_reload :: "(LaunchError + Manifest) option"
  tk_waits :: "(bool \<times> gotime) list option"
  tk_closed :: "string list"

text \<open>The senders' goroutines have closed these streams.\<close>

definition streams_closed :: "string list \<Rightarrow> ('w, unit) act" where
  "streams_closed ids s = (s\<lparr>sv_sessions := map (\<lambda>(cid, closed). (cid, closed \<or> cid \<in> set ids)) (sv_sessions s)\<rparr>, Inr ())"

fun run_ticks :: "launch_lib \<Rightarrow> 'w Runtime \<Rightarrow> fetcher \<Rightarrow> RenderedModel \<Rightarrow> Manifest \<Rightarrow> supervisor_tick list \<Rightarrow> ('w, unit) act" where
  "run_ticks lib rt Fetch model manifest [] = aret ()"
| "run_ticks lib rt Fetch model manifest (t # ts) =
     (let m = refreshManifest lib (tk_reload t) (tk_now t) manifest
      in abind (streams_closed (tk_closed t)) (\<lambda>_.
         abind (reconcileWithRecovery lib rt Fetch (tk_now t) (tk_waits t) model m) (\<lambda>_. run_ticks lib rt Fetch model m ts)))"

text \<open>\<open>Run\<close>: the first tick does not reload, and the end of the context is not an error.\<close>

definition Supervisor_Run :: "launch_lib \<Rightarrow> 'w Runtime \<Rightarrow> fetcher \<Rightarrow> RenderedModel \<Rightarrow> Manifest \<Rightarrow> supervisor_tick \<Rightarrow> supervisor_tick list \<Rightarrow> ('w, unit) act" where
  "Supervisor_Run lib rt Fetch model manifest first ts = (\<lambda>s.
     case abind (reconcileWithRecovery lib rt Fetch (tk_now first) (tk_waits first) model manifest) (\<lambda>_. run_ticks lib rt Fetch model manifest ts) s of
       (s', r) \<Rightarrow> (Supervisor_Close s', if r = Inl ctx_err then Inr () else r))"

end
