(* ===== verification/Launch_Order.thy ===== *)
theory Launch_Order
  imports Launch_Supervisor
begin

text \<open>
  The order in which services are started: \<open>OrderServices\<close> ends, and succeeds exactly when there is an order in which every service comes after its dependencies; then it returns
  such an order, of exactly the given services.
\<close>

subsection \<open>The bound on the depth is enough\<close>

text \<open>The names that have not been visited.\<close>

definition unvisited :: "string set \<Rightarrow> (string \<Rightarrow> nat) \<Rightarrow> nat" where
  "unvisited known state = card {n \<in> known. state n = 0}"

definition grows :: "(string \<Rightarrow> nat) \<Rightarrow> (string \<Rightarrow> nat) \<Rightarrow> bool" where
  "grows state state' \<longleftrightarrow> (\<forall>n. state n \<noteq> 0 \<longrightarrow> state' n = state n)"

lemma grows_refl [simp]: "grows s s"
  by (simp add: grows_def)

lemma grows_trans: "grows a b \<Longrightarrow> grows b c \<Longrightarrow> grows a c"
  unfolding grows_def by metis

lemma unvisited_mono: "finite known \<Longrightarrow> grows a b \<Longrightarrow> unvisited known b \<le> unvisited known a"
  unfolding unvisited_def grows_def by (intro card_mono) auto

lemma unvisited_mark: "finite known \<Longrightarrow> name \<in> known \<Longrightarrow> state name = 0 \<Longrightarrow> Suc (unvisited known (state(name := 1))) = unvisited known state"
proof -
  assume f: "finite known" "name \<in> known" "state name = 0"
  have "{n \<in> known. state n = 0} = insert name {n \<in> known. (state(name := 1)) n = 0}" using f by auto
  then show ?thesis using f by (simp add: unvisited_def)
qed

definition states_ok :: "(string \<Rightarrow> nat) \<Rightarrow> bool" where
  "states_ok state \<longleftrightarrow> (\<forall>n. state n \<le> 2)"

text \<open>What a visit does to the marks: it only adds finished ones.\<close>

definition visited :: "(string \<Rightarrow> nat) \<Rightarrow> (string \<Rightarrow> nat) \<Rightarrow> bool" where
  "visited state state' \<longleftrightarrow> grows state state' \<and> (\<forall>n. state n = 0 \<longrightarrow> state' n \<in> {0, 2})"

lemma visited_refl [simp]: "visited s s"
  by (simp add: visited_def)

lemma visited_trans: "visited a b \<Longrightarrow> visited b c \<Longrightarrow> visited a c"
  unfolding visited_def grows_def by (metis insert_iff singletonD zero_neq_numeral)

lemma visited_ok: "visited a b \<Longrightarrow> states_ok a \<Longrightarrow> states_ok b"
  unfolding visited_def grows_def states_ok_def by (metis insert_iff le_refl le0 singletonD)

lemma visited_step:
  assumes "visited (state(name := 1)) st1" "state name = 0"
  shows "visited state (st1(name := 2))"
  using assms unfolding visited_def grows_def by auto

lemma mark_ok: "states_ok state \<Longrightarrow> states_ok (state(name := Suc 0))"
  by (simp add: states_ok_def)

text \<open>The cases of a visit that succeeds.\<close>

lemma visit_cases:
  assumes "visit byName n (state, ordered) name = Some (Inr (state', ordered'))" "states_ok state"
  obtains "state name = 2" "state' = state" "ordered' = ordered"
  | m service st1 ord1 where "n = Suc m" "state name = 0" "byName name = Some service"
      "visit_all byName m (state(name := 1), ordered) (sort (items (sp_Dependencies service))) = Some (Inr (st1, ord1))"
      "state' = st1(name := 2)" "ordered' = ord1 @ [service]"
proof (cases n)
  case (Suc m)
  have "state name \<le> 2" using assms(2) by (simp add: states_ok_def)
  then consider "state name = 0" | "state name = 1" | "state name = 2" by linarith
  then show ?thesis
  proof cases
    case 1
    obtain service st1 ord1 where "byName name = Some service"
      "visit_all byName m (state(name := 1), ordered) (sort (items (sp_Dependencies service))) = Some (Inr (st1, ord1))"
      "state' = st1(name := 2)" "ordered' = ord1 @ [service]"
      using assms(1) unfolding Suc visit.simps using 1 by (auto split: option.splits sum.splits)
    then show ?thesis using that(2) Suc 1 by blast
  next
    case 2
    then show ?thesis using assms(1) unfolding Suc by simp
  next
    case 3
    then have "state' = state" "ordered' = ordered" using assms(1) unfolding Suc by simp_all
    then show ?thesis using that(1) 3 by blast
  qed
qed (use assms(1) in simp)

lemma visit_visited:
  "visit byName n (state, ordered) name = Some (Inr (state', ordered')) \<Longrightarrow> states_ok state \<Longrightarrow> visited state state' \<and> state' name = 2"
  "visit_all byName n (state, ordered) names = Some (Inr (state', ordered')) \<Longrightarrow> states_ok state \<Longrightarrow> visited state state' \<and> (\<forall>x \<in> set names. state' x = 2)"
proof (induction n arbitrary: state ordered state' ordered' name names)
  case 0
  { case 1 then show ?case by simp
  next
    case 2 then show ?case by (cases names) auto }
next
  case (Suc n)
  have one: "visited state state' \<and> state' name = 2"
    if v: "visit byName (Suc n) (state, ordered) name = Some (Inr (state', ordered'))" "states_ok state" for state ordered state' ordered' name
    using v
  proof (cases rule: visit_cases)
    case (2 m service st1 ord1)
    then have "visited (state(name := 1)) st1" using Suc.IH(2) mark_ok v(2) by fastforce
    then show ?thesis using 2 visited_step by auto
  qed auto
  { case 1 then show ?case using one by blast
  next
    case 2 then show ?case
    proof (induction names arbitrary: state ordered)
      case (Cons x xs)
      then obtain st1 ord1 where v: "visit byName (Suc n) (state, ordered) x = Some (Inr (st1, ord1))"
        "visit_all byName (Suc n) (st1, ord1) xs = Some (Inr (state', ordered'))" by (auto split: option.splits sum.splits)
      have a: "visited state st1" "st1 x = 2" using one[OF v(1)] Cons.prems(2) by auto
      have b: "visited st1 state'" "\<forall>y \<in> set xs. state' y = 2" using Cons.IH[OF v(2)] visited_ok a(1) Cons.prems(2) by auto
      then show ?case using a visited_trans[OF a(1) b(1)] unfolding visited_def grows_def by (metis set_ConsD zero_neq_numeral)
    qed auto }
qed

lemma visit_enough:
  "finite known \<Longrightarrow> dom byName \<subseteq> known \<Longrightarrow> states_ok state \<Longrightarrow> unvisited known state < n \<Longrightarrow> visit byName n (state, ordered) name \<noteq> None"
  "finite known \<Longrightarrow> dom byName \<subseteq> known \<Longrightarrow> states_ok state \<Longrightarrow> unvisited known state < n \<Longrightarrow> visit_all byName n (state, ordered) names \<noteq> None"
proof (induction n arbitrary: state ordered name names)
  case (Suc n)
  have one: "visit byName (Suc n) (state, ordered) name \<noteq> None"
    if h: "finite known" "dom byName \<subseteq> known" "states_ok state" "unvisited known state < Suc n" for state ordered name
  proof (cases "state name \<in> {1, 2} \<or> byName name = None")
    case True
    then show ?thesis by auto
  next
    case False
    have "state name = 0" using False h(3) by (auto simp: states_ok_def le_Suc_eq numeral_2_eq_2 dest!: spec[of _ name])
    moreover have "name \<in> known" using False h(2) by auto
    ultimately have "unvisited known (state(name := 1)) < n" using unvisited_mark[of known name state] h(1,4) by simp
    then have "visit_all byName n (state(name := 1), ordered) (sort (items (sp_Dependencies service))) \<noteq> None" for service
      using Suc.IH(2) h(1,2) mark_ok[OF h(3)] by simp
    moreover obtain service where "byName name = Some service" using False by blast
    ultimately show ?thesis using False by (auto split: option.split sum.split simp del: not_None_eq)
  qed
  { case 1 then show ?case using one by blast
  next
    case 2 then show ?case
    proof (induction names arbitrary: state ordered)
      case (Cons x xs)
      have n: "visit byName (Suc n) (state, ordered) x \<noteq> None" using one Cons.prems by blast
      have "visit_all byName (Suc n) (st1, ord1) xs \<noteq> None" if v: "visit byName (Suc n) (state, ordered) x = Some (Inr (st1, ord1))" for st1 ord1
      proof -
        have "visited state st1" using visit_visited(1)[OF v] Cons.prems(3) by blast
        then have "states_ok st1" "unvisited known st1 \<le> unvisited known state"
          using visited_ok Cons.prems(1,3) unvisited_mono unfolding visited_def by blast+
        then show ?thesis using Cons.IH Cons.prems(1,2,4) by simp
      qed
      then show ?case using n by (simp del: visit.simps split: option.split sum.split)
    qed simp }
qed simp_all

subsection \<open>What is returned is an order\<close>

text \<open>Every service comes after those it depends on; \<open>seen\<close> are the names before the list.\<close>

fun in_order :: "string set \<Rightarrow> ServiceSpec list \<Rightarrow> bool" where
  "in_order seen [] \<longleftrightarrow> True"
| "in_order seen (s # ss) \<longleftrightarrow> set (items (sp_Dependencies s)) \<subseteq> seen \<and> in_order (insert (sp_Name s) seen) ss"

lemma in_order_append: "in_order seen (xs @ [s]) \<longleftrightarrow> in_order seen xs \<and> set (items (sp_Dependencies s)) \<subseteq> seen \<union> sp_Name ` set xs"
  by (induction xs arbitrary: seen) auto

text \<open>The finished names are those of the services listed, in order.\<close>

definition arranged :: "(string \<Rightarrow> ServiceSpec option) \<Rightarrow> (string \<Rightarrow> nat) \<Rightarrow> ServiceSpec list \<Rightarrow> bool" where
  "arranged byName state ordered \<longleftrightarrow> sp_Name ` set ordered = {n. state n = 2} \<and> distinct (map sp_Name ordered)
     \<and> (\<forall>s \<in> set ordered. byName (sp_Name s) = Some s) \<and> in_order {} ordered"

lemma arranged_mark: "arranged byName state ordered \<Longrightarrow> state name = 0 \<Longrightarrow> arranged byName (state(name := Suc 0)) ordered"
  unfolding arranged_def by auto

lemma arranged_done:
  assumes "arranged byName st1 ord1" "st1 name = 1" "byName name = Some service" "sp_Name service = name"
    "\<forall>d \<in> set (items (sp_Dependencies service)). st1 d = 2"
  shows "arranged byName (st1(name := 2)) (ord1 @ [service])"
proof -
  have n: "sp_Name ` set ord1 = {n. st1 n = 2}" using assms(1) by (simp add: arranged_def)
  moreover have "set (items (sp_Dependencies service)) \<subseteq> sp_Name ` set ord1" unfolding n using assms(5) by auto
  moreover have "name \<notin> sp_Name ` set ord1" unfolding n using assms(2) by simp
  ultimately show ?thesis using assms unfolding arranged_def in_order_append by auto
qed

lemma visit_arranged:
  assumes names: "\<And>n s. byName n = Some s \<Longrightarrow> sp_Name s = n"
  shows "visit byName n (state, ordered) name = Some (Inr (state', ordered')) \<Longrightarrow> states_ok state \<Longrightarrow> arranged byName state ordered \<Longrightarrow> arranged byName state' ordered'"
  "visit_all byName n (state, ordered) names = Some (Inr (state', ordered')) \<Longrightarrow> states_ok state \<Longrightarrow> arranged byName state ordered \<Longrightarrow> arranged byName state' ordered'"
proof (induction n arbitrary: state ordered state' ordered' name names)
  case 0
  { case 1 then show ?case by simp
  next
    case 2 then show ?case by (cases names) auto }
next
  case (Suc n)
  have one: "arranged byName state' ordered'"
    if v: "visit byName (Suc n) (state, ordered) name = Some (Inr (state', ordered'))" "states_ok state" and a: "arranged byName state ordered"
    for state ordered state' ordered' name
    using v
  proof (cases rule: visit_cases)
    case (2 m service st1 ord1)
    have ok: "states_ok (state(name := 1))" using mark_ok v(2) by simp
    have va: "visit_all byName n (state(name := 1), ordered) (sort (items (sp_Dependencies service))) = Some (Inr (st1, ord1))" using 2(1,4) by simp
    have "arranged byName st1 ord1" using Suc.IH(2)[OF va ok] arranged_mark[OF a 2(2)] unfolding One_nat_def by blast
    moreover have "visited (state(name := 1)) st1" "\<forall>d \<in> set (items (sp_Dependencies service)). st1 d = 2" using visit_visited(2)[OF va ok] by auto
    moreover have "st1 name = 1" using calculation(2) unfolding visited_def grows_def by (metis fun_upd_same one_neq_zero)
    ultimately show ?thesis unfolding 2(5,6) by (intro arranged_done 2(3) names) simp_all
  qed (use a in auto)
  { case 1 then show ?case using one by blast
  next
    case 2 then show ?case
    proof (induction names arbitrary: state ordered)
      case (Cons x xs)
      then obtain st1 ord1 where v: "visit byName (Suc n) (state, ordered) x = Some (Inr (st1, ord1))"
        "visit_all byName (Suc n) (st1, ord1) xs = Some (Inr (state', ordered'))" by (auto split: option.splits sum.splits)
      have "states_ok st1" using visit_visited(1)[OF v(1)] visited_ok Cons.prems(2) by blast
      then show ?case using Cons.IH[OF v(2)] one[OF v(1)] Cons.prems(2,3) by blast
    qed auto }
qed

subsection \<open>An order that exists is found\<close>

text \<open>With ranks that fall along dependencies a visit never meets a name that is being visited.\<close>

definition ranked :: "(string \<Rightarrow> ServiceSpec option) \<Rightarrow> (string \<Rightarrow> nat) \<Rightarrow> bool" where
  "ranked byName rank \<longleftrightarrow> (\<forall>n s. byName n = Some s \<longrightarrow> (\<forall>d \<in> set (items (sp_Dependencies s)). byName d \<noteq> None \<and> rank d < rank n))"

definition above :: "(string \<Rightarrow> nat) \<Rightarrow> (string \<Rightarrow> nat) \<Rightarrow> string \<Rightarrow> bool" where
  "above rank state name \<longleftrightarrow> (\<forall>x. state x = 1 \<longrightarrow> rank name < rank x)"

lemma above_visited: "visited state st1 \<Longrightarrow> above rank state name \<Longrightarrow> above rank st1 name"
  unfolding above_def visited_def grows_def by (metis insert_iff one_neq_zero singletonD numeral_eq_one_iff semiring_norm(85))

lemma above_mark: "above rank state name \<Longrightarrow> rank d < rank name \<Longrightarrow> above rank (state(name := 1)) d"
  unfolding above_def by (auto intro: order.strict_trans)

lemma visit_succeeds:
  assumes r: "ranked byName rank"
  shows "states_ok state \<Longrightarrow> byName name \<noteq> None \<Longrightarrow> above rank state name \<Longrightarrow> visit byName n (state, ordered) name \<noteq> Some (Inl e)"
  "states_ok state \<Longrightarrow> \<forall>x \<in> set names. byName x \<noteq> None \<and> above rank state x \<Longrightarrow> visit_all byName n (state, ordered) names \<noteq> Some (Inl e)"
proof (induction n arbitrary: state ordered name names)
  case 0
  { case 1 show ?case by simp
  next
    case 2 show ?case by (cases names) auto }
next
  case (Suc n)
  have one: "visit byName (Suc n) (state, ordered) name \<noteq> Some (Inl e)"
    if h: "states_ok state" "byName name \<noteq> None" "above rank state name" for state ordered name
  proof -
    have "state name \<noteq> 1" using h(3) unfolding above_def by blast
    moreover have "visit_all byName n (state(name := 1), ordered) (sort (items (sp_Dependencies service))) \<noteq> Some (Inl e)"
      if s: "byName name = Some service" for service
    proof -
      have "\<forall>x \<in> set (sort (items (sp_Dependencies service))). byName x \<noteq> None \<and> above rank (state(name := 1)) x"
        using above_mark[OF h(3)] r s unfolding ranked_def set_sort by blast
      then show ?thesis using Suc.IH(2) mark_ok[OF h(1)] unfolding One_nat_def by blast
    qed
    ultimately show ?thesis using h(2) by (auto split: option.splits sum.splits)
  qed
  { case 1 then show ?case using one by blast
  next
    case 2 then show ?case
    proof (induction names arbitrary: state ordered)
      case (Cons x xs)
      have "visit byName (Suc n) (state, ordered) x \<noteq> Some (Inl e)" using one Cons.prems by simp
      moreover have "visit_all byName (Suc n) (st1, ord1) xs \<noteq> Some (Inl e)" if v: "visit byName (Suc n) (state, ordered) x = Some (Inr (st1, ord1))" for st1 ord1
      proof -
        have "visited state st1" using visit_visited(1)[OF v] Cons.prems(1) by blast
        then show ?thesis using Cons.IH Cons.prems visited_ok above_visited by simp
      qed
      ultimately show ?case by (simp del: visit.simps split: option.split sum.split) auto
    qed simp }
qed

text \<open>The only error of a visit.\<close>

lemma visit_error:
  "visit byName n st name = Some (Inl e) \<Longrightarrow> e = fail ErrRuntime"
  "visit_all byName n st names = Some (Inl e) \<Longrightarrow> e = fail ErrRuntime"
  by (induction byName n st name and byName n st names rule: visit_visit_all.induct) (auto split: if_splits option.splits sum.splits)

subsection \<open>\<open>OrderServices\<close>\<close>

lemma serviceByName_iff:
  assumes "distinct (map sp_Name services)"
  shows "serviceByName services n = Some s \<longleftrightarrow> s \<in> set services \<and> sp_Name s = n"
proof -
  have "distinct (map fst (map (\<lambda>s. (sp_Name s, s)) services))" using assms by (simp add: comp_def)
  then show ?thesis unfolding serviceByName_def by (subst map_of_eq_Some_iff) auto
qed

lemma dom_serviceByName: "dom (serviceByName services) = sp_Name ` set services"
  unfolding serviceByName_def by (simp add: dom_map_of_conv_image_fst image_image)

lemma visit_all_services:
  assumes "distinct (map sp_Name services)"
  shows "visit_all (serviceByName services) (Suc (length services)) ((\<lambda>_. 0), []) names \<noteq> None"
proof (rule visit_enough(2))
  show "finite (sp_Name ` set services)" by simp
  have "unvisited (sp_Name ` set services) (\<lambda>_. 0) = card (sp_Name ` set services)" by (simp add: unvisited_def)
  then show "unvisited (sp_Name ` set services) (\<lambda>_. 0) < Suc (length services)"
    using card_image_le[of "set services" sp_Name] card_length[of services] by simp
qed (simp_all add: dom_serviceByName states_ok_def)

lemma order_of_services:
  assumes d: "distinct (map sp_Name services)"
    and v: "visit_all (serviceByName services) n ((\<lambda>_. 0), []) (sort (map sp_Name services)) = Some (Inr (state, ordered))"
  shows "mset ordered = mset services \<and> in_order {} ordered"
proof -
  have ok: "states_ok (\<lambda>_. 0)" by (simp add: states_ok_def)
  have a: "arranged (serviceByName services) state ordered"
    by (rule visit_arranged(2)[OF _ v ok]) (auto simp: serviceByName_iff[OF d] arranged_def)
  have "\<forall>x \<in> set (map sp_Name services). state x = 2" using visit_visited(2)[OF v ok] by simp
  then have n: "sp_Name ` set services \<subseteq> sp_Name ` set ordered" using a unfolding arranged_def by auto
  have sub: "set ordered \<subseteq> set services" using a unfolding arranged_def by (auto simp: serviceByName_iff[OF d])
  have "set services \<subseteq> set ordered"
  proof
    fix s assume s: "s \<in> set services"
    then obtain t where "t \<in> set ordered" "sp_Name t = sp_Name s" using n by (metis imageE image_subset_iff)
    then show "s \<in> set ordered" using sub s d by (metis inj_on_eq_iff distinct_map subsetD)
  qed
  then have "set ordered = set services" using sub by blast
  moreover have "distinct ordered" "distinct services" using a d by (auto simp: arranged_def distinct_map)
  ultimately show ?thesis using a set_eq_iff_mset_eq_distinct by (auto simp: arranged_def)
qed

text \<open>The position in an order is a rank.\<close>

definition position :: "ServiceSpec list \<Rightarrow> string \<Rightarrow> nat" where
  "position xs n = length (takeWhile (\<lambda>s. sp_Name s \<noteq> n) xs)"

lemma position_less:
  assumes "in_order {} (pre @ s # post)" "d \<in> set (items (sp_Dependencies s))" "sp_Name s \<notin> sp_Name ` set pre"
  shows "d \<in> sp_Name ` set pre \<and> position (pre @ s # post) d < position (pre @ s # post) (sp_Name s)"
proof -
  have "in_order seen (pre @ s # post) \<Longrightarrow> set (items (sp_Dependencies s)) \<subseteq> seen \<union> sp_Name ` set pre" for seen
    by (induction pre arbitrary: seen) auto
  then have d: "d \<in> sp_Name ` set pre" using assms(1,2) by blast
  then obtain x where "x \<in> set pre" "sp_Name x = d" by blast
  then have "length (takeWhile (\<lambda>s. sp_Name s \<noteq> d) (pre @ s # post)) < length pre" by (induction pre) auto
  moreover have "takeWhile (\<lambda>t. sp_Name t \<noteq> sp_Name s) (pre @ s # post) = pre" using assms(3) by (subst takeWhile_append2) (auto simp: image_iff)
  ultimately show ?thesis using d by (simp add: position_def)
qed

lemma order_ranked:
  assumes "distinct (map sp_Name services)" "mset xs = mset services" "in_order {} xs"
  shows "ranked (serviceByName services) (position xs)"
proof -
  have sets: "set xs = set services" using assms(2) by (rule mset_eq_setD)
  have dist: "distinct (map sp_Name xs)" using assms(1,2) by (metis mset_eq_imp_distinct_iff mset_map)
  have "serviceByName services d \<noteq> None \<and> position xs d < position xs (sp_Name s)" if s: "s \<in> set services" "d \<in> set (items (sp_Dependencies s))" for s d
  proof -
    obtain pre post where xs: "xs = pre @ s # post" using s(1) sets by (metis split_list)
    then have "sp_Name s \<notin> sp_Name ` set pre" using dist by auto
    then have p: "d \<in> sp_Name ` set pre \<and> position xs d < position xs (sp_Name s)" using position_less assms(3) s(2) unfolding xs by blast
    then have "d \<in> sp_Name ` set services" using sets xs by auto
    then have "serviceByName services d \<noteq> None" using dom_serviceByName[of services] by blast
    then show ?thesis using p by simp
  qed
  then show ?thesis unfolding ranked_def serviceByName_iff[OF assms(1)] by blast
qed

lemma ordered_services:
  assumes "OrderServices services = Inr ordered"
  shows "distinct (map sp_Name services) \<and> mset ordered = mset services \<and> in_order {} ordered"
proof -
  obtain state where "distinct (map sp_Name services)"
    "visit_all (serviceByName services) (Suc (length services)) ((\<lambda>_. 0), []) (sort (map sp_Name services)) = Some (Inr (state, ordered))"
    using assms by (auto simp: OrderServices_def simp del: visit_all.simps split: if_splits option.splits sum.splits)
  then show ?thesis using order_of_services by blast
qed

text \<open>
  C20: \<open>OrderServices\<close> succeeds exactly when the services have different names and can be put into an order in which every service comes after its dependencies. It then returns such an order of all of them;
  otherwise, for a repeated name, a missing dependency or a cycle, the error is a runtime one. The recursion always ends.
\<close>

theorem services_ordered_iff:
  "case OrderServices services of
     Inr ordered \<Rightarrow> distinct (map sp_Name services) \<and> mset ordered = mset services \<and> in_order {} ordered
   | Inl e \<Rightarrow> e = fail ErrRuntime \<and> \<not> (distinct (map sp_Name services) \<and> (\<exists>xs. mset xs = mset services \<and> in_order {} xs))"
proof (cases "distinct (map sp_Name services)")
  case d: True
  show ?thesis
  proof (cases "OrderServices services")
    case (Inr ordered)
    then show ?thesis using ordered_services by auto
  next
    case (Inl err)
    let ?r = "visit_all (serviceByName services) (Suc (length services)) ((\<lambda>_. 0), []) (sort (map sp_Name services))"
    have r: "?r = Some (Inl err)"
      using Inl d visit_all_services[OF d, of "sort (map sp_Name services)"] by (auto simp: OrderServices_def simp del: visit_all.simps split: option.splits sum.splits)
    have "\<not> (mset xs = mset services \<and> in_order {} xs)" for xs
    proof
      assume "mset xs = mset services \<and> in_order {} xs"
      then have k: "ranked (serviceByName services) (position xs)" using order_ranked d by blast
      have "\<forall>x \<in> set (sort (map sp_Name services)). serviceByName services x \<noteq> None \<and> above (position xs) (\<lambda>_. 0) x"
        using dom_serviceByName[of services] by (auto simp: above_def)
      then have "?r \<noteq> Some (Inl err)" using visit_succeeds(2)[OF k] by (simp add: states_ok_def del: visit_all.simps)
      then show False using r by blast
    qed
    then show ?thesis using visit_error(2)[OF r] Inl by simp
  qed
qed (simp add: OrderServices_def)

end
