(* ===== verification/Launch_Trust.thy ===== *)
theory Launch_Trust
  imports Launch_Manifest
begin

text \<open>
  What a verified launch manifest guarantees: signing and verifying are inverse, a manifest that verifies is
  authorised in every respect, and renewal extends a launch without changing it.
\<close>

subsection \<open>Documents of valid text\<close>

lemma repeats_members_iff:
  "\<not> repeats_members seen kvs \<longleftrightarrow> distinct (map fst kvs) \<and> (\<forall>kv \<in> set kvs. fst kv \<notin> set seen \<and> \<not> repeats (snd kv))"
proof (induction kvs arbitrary: seen)
  case (Cons kv kvs)
  show ?case by (cases kv) (auto simp: Cons.IH image_iff)
qed simp

lemma repeats_elems_iff: "repeats_elems vs \<longleftrightarrow> (\<exists>v \<in> set vs. repeats v)"
  by (induction vs) auto

lemma jliteral_members_iff: "jliteral_members lib kvs \<longleftrightarrow> (\<forall>kv \<in> set kvs. valid_utf8 (fst kv) \<and> jliteral lib (snd kv))"
  by (induction kvs) auto

lemma jliteral_elems_iff: "jliteral_elems lib vs \<longleftrightarrow> (\<forall>v \<in> set vs. jliteral lib v)"
  by (induction vs) auto

definition numbers_ok :: "json_lib \<Rightarrow> bool" where
  "numbers_ok lib \<longleftrightarrow> (\<forall>i. jl_float lib (FormatInt i))"

text \<open>A value that the scanner accepts inside a document.\<close>

definition json_fine :: "json_lib \<Rightarrow> jval \<Rightarrow> bool" where
  "json_fine lib v \<longleftrightarrow> jliteral lib v \<and> \<not> repeats v"

lemma fine_simps [simp]:
  "json_fine lib (JStr s) \<longleftrightarrow> valid_utf8 s" "json_fine lib (bool_json b)" "json_fine lib JNull"
  "json_fine lib (JArr vs) \<longleftrightarrow> list_all (json_fine lib) vs"
  "json_fine lib (JObj kvs) \<longleftrightarrow> distinct (map fst kvs) \<and> list_all (\<lambda>(k, v). valid_utf8 k \<and> json_fine lib v) kvs"
  by (auto simp: json_fine_def bool_json_def jliteral_members_iff jliteral_elems_iff repeats_elems_iff repeats_members_iff
      list_all_iff split: prod.splits)

lemma digits_literal:
  assumes "list_all is_digit s" and "s \<noteq> []"
  shows "list_all (\<lambda>b. \<not> ends_number b) s" and "hd s \<notin> {CHR ''{'', CHR ''['', quote, CHR ''t'', CHR ''f'', CHR ''n''}"
proof -
  have c: "\<not> ends_number c \<and> c \<notin> {CHR ''{'', CHR ''['', quote, CHR ''t'', CHR ''f'', CHR ''n''}" if "is_digit c" for c
    using that by (auto simp: is_digit_def ends_number_def isJSONSpace_def quote_def less_eq_char_def)
  show "list_all (\<lambda>b. \<not> ends_number b) s" using assms c by (auto simp: list_all_iff)
  show "hd s \<notin> {CHR ''{'', CHR ''['', quote, CHR ''t'', CHR ''f'', CHR ''n''}"
    using assms c [of "hd s"] by (simp add: list_all_iff)
qed

lemma number_fine:
  assumes "numbers_ok lib"
  shows "json_fine lib (JNum (FormatInt i))" and "json_fine lib (JNum (FormatUint n))"
proof -
  have u: "list_all (\<lambda>b. \<not> ends_number b) (FormatUint k)"
    "FormatUint k \<noteq> [] \<and> hd (FormatUint k) \<notin> {CHR ''{'', CHR ''['', quote, CHR ''t'', CHR ''f'', CHR ''n''}" for k
    using digits_literal [of "FormatUint k"] FormatUint_decimal [of k] by blast+
  show i: "json_fine lib (JNum (FormatInt i))" for i
    using assms u [of "nat i"] u [of "nat (- i)"]
    by (auto simp: json_fine_def numbers_ok_def FormatInt_def ends_number_def isJSONSpace_def quote_def)
  show "json_fine lib (JNum (FormatUint n))" using i [of "int n"] by (simp add: FormatInt_def)
qed

definition text_map :: "(string \<times> string) nilable \<Rightarrow> bool" where
  "text_map m \<longleftrightarrow> distinct (map fst (items m)) \<and> list_all (\<lambda>(k, v). valid_utf8 k \<and> valid_utf8 v) (items m)"

definition text_service :: "ServiceAuthority \<Rightarrow> bool" where
  "text_service s \<longleftrightarrow>
     list_all valid_utf8 ([sa_Name s, sa_Image s, sa_User s, sa_Restart s, sa_WrapperDigest s, cs_User (sa_Child s)] @ sa_Argv s
       @ cs_Argv (sa_Child s) @ hs_Command (sa_Health s) @ items (sa_Networks s) @ items (sa_Dependencies s)
       @ map mk_Name (sa_Keys s) @ map mk_Version (sa_Keys s) @ map mk_Env (sa_Keys s))
     \<and> text_map (sa_Environment s) \<and> text_map (sa_Labels s) \<and> text_map (cs_Environment (sa_Child s))"

text \<open>A manifest whose strings are valid UTF-8 and whose maps are maps.\<close>

definition text_manifest :: "Manifest \<Rightarrow> bool" where
  "text_manifest m \<longleftrightarrow>
     list_all valid_utf8 [lm_Version m, lm_RuntimeID m, lm_Role m, lm_Nonce m, ad_Helper (lm_Digests m), ad_Supervisor (lm_Digests m),
       ad_Compose (lm_Digests m)]
     \<and> list_all text_service (lm_Services m)"

lemma names_utf8: "list_all is_ascii k \<Longrightarrow> valid_utf8 k"
  by (rule valid_utf8_ascii)

lemma strings_fine: "json_fine lib (strings_json xs) \<longleftrightarrow> list_all valid_utf8 xs"
  by (simp add: strings_json_def list_all_iff)

lemma nilable_strings_fine: "json_fine lib (nilable_json strings_json x) \<longleftrightarrow> list_all valid_utf8 (items x)"
  by (simp add: nilable_json_def items_def strings_fine split: option.split)

lemma map_fine: "text_map m \<Longrightarrow> json_fine lib (nilable_json (map_json JStr) m)"
  by (cases m) (auto simp: nilable_json_def items_def text_map_def map_json_def list_all_iff o_def case_prod_beta')

lemma service_fine:
  assumes "numbers_ok lib" and "text_service s"
  shows "json_fine lib (service_json s)"
proof -
  note n = number_fine [OF assms(1)]
  have "json_fine lib (health_json (sa_Health s))"
    using assms n by (simp add: health_json_def u32_json_def strings_fine text_service_def names_utf8 is_ascii_def)
  moreover have "json_fine lib (child_json (sa_Child s))"
    using assms by (simp add: child_json_def strings_fine map_fine text_service_def names_utf8 is_ascii_def)
  moreover have "list_all (json_fine lib) (map key_json (sa_Keys s))"
    using assms by (simp add: key_json_def text_service_def list_all_iff names_utf8 is_ascii_def)
  ultimately show ?thesis
    using assms by (simp add: service_json_def strings_fine nilable_strings_fine map_fine text_service_def names_utf8 is_ascii_def)
qed

lemma manifest_fine:
  assumes "numbers_ok lib" and "text_manifest m"
  shows "json_fine lib (manifest_json m)"
proof -
  have "list_all (json_fine lib) (map service_json (lm_Services m))"
    using assms service_fine by (auto simp: text_manifest_def list_all_iff)
  then show ?thesis
    using assms number_fine [OF assms(1)]
    by (simp add: manifest_json_def digests_json_def text_manifest_def names_utf8 is_ascii_def)
qed

subsection \<open>Libraries\<close>

text \<open>
  Documented behaviour of the libraries: the scanner's \<open>json.Unmarshal\<close>, \<open>json.Valid\<close> and \<open>strconv.ParseFloat\<close> accept what \<open>encoding/json\<close> writes; an Ed25519
  signature has 64 bytes, a public key 32, and a signature verifies under the public key of the key that made it.
\<close>

definition launch_lib_ok :: "launch_lib \<Rightarrow> bool" where
  "launch_lib_ok lib \<longleftrightarrow> json_lib_ok (ll_json lib) \<and> numbers_ok (ll_json lib)
     \<and> (\<forall>v. jliteral (ll_json lib) v \<longrightarrow> jl_valid (ll_json lib) (jprint v))
     \<and> (\<forall>private msg. length private = 64 \<longrightarrow> length (ll_sign lib private msg) = 64 \<and> length (ll_public lib private) = 32
          \<and> ll_verify lib (ll_public lib private) msg (ll_sign lib private msg))"

text \<open>The decoder reads back what was written.\<close>

definition reads_back :: "launch_lib \<Rightarrow> SignedManifest \<Rightarrow> bool" where
  "reads_back lib doc \<longleftrightarrow> ll_decodeSigned lib (marshal_signed doc) = Some doc
     \<and> ll_decode lib (marshal_manifest (sg_Manifest doc)) = Some (sg_Manifest doc)"

lemma fine_document:
  assumes "launch_lib_ok lib" and "json_fine (ll_json lib) (JObj kvs)"
  shows "validateJSONObject (ll_json lib) (jprint (JObj kvs)) = None"
proof -
  have l: "jliteral (ll_json lib) (JObj kvs)" "\<not> repeats (JObj kvs)" using assms(2) unfolding json_fine_def by blast+
  have v: "json_lib_ok (ll_json lib)" "jl_valid (ll_json lib) (jprint (JObj kvs))"
    using assms(1) l(1) unfolding launch_lib_ok_def by blast+
  show ?thesis using scanner_answer(1) [OF v(1) l(1) v(2) l(2)] by (simp del: jprint.simps)
qed

lemma encoded_utf8: "valid_utf8 (base64_EncodeToString s)"
  using encoded_alphabet [of s]
  by (intro valid_utf8_ascii) (auto simp: list_all_iff std_alphabet_def is_ascii_def)

lemma parse_written:
  assumes ok: "launch_lib_ok lib" and utf8: "text_manifest (sg_Manifest doc)" "valid_utf8 (sg_KeyID doc)" "valid_utf8 (sg_Signature doc)"
    and "reads_back lib doc" and "Manifest_Validate lib (sg_Manifest doc) = None" and "sg_KeyID doc \<noteq> []" "sg_Signature doc \<noteq> []"
  shows "ParseSignedManifest lib (marshal_signed doc) = Inr doc"
proof -
  have f: "json_fine (ll_json lib) (manifest_json (sg_Manifest doc))"
    using manifest_fine ok utf8(1) by (simp add: launch_lib_ok_def)
  have m: "validateJSONObject (ll_json lib) (marshal_manifest (sg_Manifest doc)) = None"
    using fine_document [OF ok] f unfolding marshal_manifest_def manifest_json_def by blast
  have "json_fine (ll_json lib) (signed_json doc)"
    using f utf8 by (simp add: signed_json_def names_utf8 is_ascii_def)
  then have s: "validateJSONObject (ll_json lib) (marshal_signed doc) = None"
    using fine_document [OF ok] unfolding marshal_signed_def signed_json_def by blast
  show ?thesis using assms m s by (simp add: ParseSignedManifest_def ParseManifest_def reads_back_def)
qed

lemma parse_inverse:
  assumes "ParseSignedManifest lib data = Inr doc"
  shows "data = marshal_signed doc \<and> sg_KeyID doc \<noteq> [] \<and> sg_Signature doc \<noteq> []"
  using assms
  by (auto simp: ParseSignedManifest_def ParseManifest_def split: option.splits if_splits sum.splits)

subsection \<open>Trust\<close>

text \<open>What the policy says about a manifest: its version, runtime and role, and every version of every key of every service.\<close>

definition permits :: "TrustPolicy \<Rightarrow> Manifest \<Rightarrow> bool" where
  "permits policy m \<longleftrightarrow> allowed (tp_AllowedVersions policy) (lm_Version m)
     \<and> allowed (tp_AllowedRuntimeIDs policy) (lm_RuntimeID m) \<and> allowed (tp_AllowedRoles policy) (lm_Role m)
     \<and> (\<forall>s \<in> set (lm_Services m). \<forall>k \<in> set (sa_Keys s).
          \<exists>versions. map_of (tp_KeyVersions policy) (mk_Name k) = Some versions \<and> allowed versions (mk_Version k))"

definition live :: "Manifest \<Rightarrow> gotime \<Rightarrow> bool" where
  "live m now \<longleftrightarrow> lm_IssuedAt m \<le> Unix now \<and> Unix now < lm_ExpiresAt m"

lemma ValidateAt_iff: "ValidateAt lib m now = None \<longleftrightarrow> Manifest_Validate lib m = None \<and> live m now"
  by (auto simp: ValidateAt_def live_def)

lemma trust_iff:
  "verifyManifestTrust lib m signature keyID policy = None \<longleftrightarrow>
     ValidateTrustPolicy policy = None \<and> permits policy m
     \<and> (\<exists>public. map_of (tp_AllowedSigningKeys policy) keyID = Some public \<and> length public = 32
          \<and> ll_verify lib public (marshal_manifest m) signature)"
proof -
  have key: "(case v of None \<Rightarrow> Some e | Some versions \<Rightarrow> if f versions then None else Some e) = None \<longleftrightarrow> (\<exists>versions. v = Some versions \<and> f versions)"
    for v :: "(string \<times> bool) list option" and e :: LaunchError and f by (cases v) simp_all
  show ?thesis by (cases "map_of (tp_AllowedSigningKeys policy) keyID") (auto simp: verifyManifestTrust_def permits_def check_all_None key)
qed

lemma verified:
  "VerifySignedManifest lib data policy now = Inr m \<longleftrightarrow>
     (\<exists>doc signature. ParseSignedManifest lib data = Inr doc \<and> sg_Manifest doc = m \<and> base64_DecodeString (sg_Signature doc) = Some signature
        \<and> length signature = 64 \<and> ValidateAt lib m now = None \<and> verifyManifestTrust lib m signature (sg_KeyID doc) policy = None)"
  by (auto simp: VerifySignedManifest_def VerifyManifest_def split: sum.split option.split)

lemma signed_by:
  assumes "SignManifest lib m keyID private now = Inr data"
  shows "length private = 64 \<and> keyID \<noteq> [] \<and> ValidateAt lib m now = None
    \<and> data = marshal_signed \<lparr>sg_Manifest = m, sg_KeyID = keyID, sg_Signature = base64_EncodeToString (ll_sign lib private (marshal_manifest m))\<rparr>"
  using assms by (auto simp: SignManifest_def split: if_splits option.splits)

definition signed_doc :: "launch_lib \<Rightarrow> Manifest \<Rightarrow> string \<Rightarrow> string \<Rightarrow> SignedManifest" where
  "signed_doc lib m keyID private =
     \<lparr>sg_Manifest = m, sg_KeyID = keyID, sg_Signature = base64_EncodeToString (ll_sign lib private (marshal_manifest m))\<rparr>"

lemma signed_verifies_iff:
  assumes "launch_lib_ok lib" and "text_manifest m" and "valid_utf8 keyID" and "SignManifest lib m keyID private signed_at = Inr data"
    and "reads_back lib (signed_doc lib m keyID private)" and "map_of (tp_AllowedSigningKeys policy) keyID = Some (ll_public lib private)"
  shows "VerifySignedManifest lib data policy now = Inr m \<longleftrightarrow> live m now \<and> ValidateTrustPolicy policy = None \<and> permits policy m"
proof -
  let ?doc = "signed_doc lib m keyID private"
  have s: "length private = 64" "keyID \<noteq> []" "Manifest_Validate lib m = None" "data = marshal_signed ?doc"
    using signed_by [OF assms(4)] by (simp_all add: signed_doc_def ValidateAt_iff)
  have k: "length (ll_sign lib private (marshal_manifest m)) = 64" "length (ll_public lib private) = 32"
    "ll_verify lib (ll_public lib private) (marshal_manifest m) (ll_sign lib private (marshal_manifest m))"
    using assms(1) s(1) by (simp_all add: launch_lib_ok_def)
  have p: "ParseSignedManifest lib data = Inr ?doc"
    unfolding s(4) using assms s k(1)
    by (intro parse_written) (auto simp: signed_doc_def encoded_utf8 encoded_Nil)
  show ?thesis
    using p s k assms(6) by (auto simp: verified signed_doc_def base64_round_trip ValidateAt_iff trust_iff)
qed

subsection \<open>Well-formed services\<close>

lemma sorted_after: "prev < x \<Longrightarrow> sorted_wrt (<) (x # xs) \<Longrightarrow> sorted_wrt (<) (prev # x # xs)" for x :: "'a :: linorder"
  by (auto dest: less_trans [of prev x])

lemma ascending_sorted:
  "ascending valid prev xs \<Longrightarrow> sorted_wrt (<) (prev # xs) \<and> list_all valid xs"
proof (induction valid prev xs rule: ascending.induct)
  case (2 valid prev x xs)
  then show ?case using sorted_after [of prev x xs] by (simp add: not_le)
qed simp

lemma check_keys_None:
  "check_keys env envNames prev keys = None \<Longrightarrow>
     sorted_wrt (<) (prev # map mk_Name keys) \<and> distinct (map mk_Env keys)
     \<and> (\<forall>k \<in> set keys. validKeyName (mk_Name k) \<and> validProviderVersion (mk_Version k) \<and> validEnvName (mk_Env k)
          \<and> map_of env (mk_Env k) = None \<and> mk_Env k \<notin> set envNames)"
proof (induction env envNames prev keys rule: check_keys.induct)
  case (2 env envNames prev key keys)
  from "2.prems" have k: "validKeyName (mk_Name key)" "validProviderVersion (mk_Version key)" "validEnvName (mk_Env key)" "prev < mk_Name key"
    "map_of env (mk_Env key) = None" "mk_Env key \<notin> set envNames"
    "check_keys env (mk_Env key # envNames) (mk_Name key) keys = None"
    by (simp_all add: not_le split: if_splits)
  have guard: "\<not> (\<not> validKeyName (mk_Name key) \<or> \<not> validProviderVersion (mk_Version key) \<or> \<not> validEnvName (mk_Env key)
         \<or> mk_Name key \<le> prev \<or> map_of env (mk_Env key) \<noteq> None \<or> mk_Env key \<in> set envNames)"
    using k by (simp add: not_le)
  have ih: "sorted_wrt (<) (mk_Name key # map mk_Name keys)" "distinct (map mk_Env keys)"
    "\<forall>k \<in> set keys. validKeyName (mk_Name k) \<and> validProviderVersion (mk_Version k) \<and> validEnvName (mk_Env k)
          \<and> map_of env (mk_Env k) = None \<and> mk_Env k \<notin> set (mk_Env key # envNames)"
    using "2.IH" [OF guard k(7)] by blast+
  have "sorted_wrt (<) (prev # map mk_Name (key # keys))" using sorted_after [OF k(4) ih(1)] by simp
  moreover have "distinct (map mk_Env (key # keys))" using ih(2,3) by auto
  ultimately show ?case using k ih(3) by simp
qed simp

lemma check_services_names: "check_services lib prev ss \<Longrightarrow> sorted_wrt (<) (prev # map sa_Name ss)"
proof (induction lib prev ss rule: check_services.induct)
  case (2 lib prev s ss)
  then show ?case using sorted_after [of prev "sa_Name s" "map sa_Name ss"] by (simp add: not_le)
qed simp

lemma check_services_each: "check_services lib prev ss \<Longrightarrow> s \<in> set ss \<Longrightarrow> validateServiceAuthority lib s = None"
  by (induction lib prev ss rule: check_services.induct) auto

text \<open>Every secret has a variable of its own, and the plain variables hold no secret by their names.\<close>

definition confined :: "launch_lib \<Rightarrow> ServiceAuthority \<Rightarrow> bool" where
  "confined lib s \<longleftrightarrow> pinnedImage (sa_Image s) \<and> sa_Restart s = ''no'' \<and> sa_Keys s \<noteq> []
     \<and> distinct (map mk_Name (sa_Keys s)) \<and> distinct (map mk_Env (sa_Keys s))
     \<and> (\<forall>k \<in> set (sa_Keys s). validEnvName (mk_Env k) \<and> mk_Env k \<notin> fst ` set (items (sa_Environment s)))
     \<and> (\<forall>(name, val) \<in> set (items (sa_Environment s)). validEnvName name \<and> \<not> secretLikeName lib name)"

lemma valid_confined:
  assumes "validateServiceAuthority lib s = None"
  shows "confined lib s"
proof -
  have k: "check_keys (items (sa_Environment s)) [] [] (sa_Keys s) = None"
    and e: "check_environment lib ErrInvalidInput (items (sa_Environment s)) = None"
    and o: "pinnedImage (sa_Image s)" "sa_Restart s = ''no''" "sa_Keys s \<noteq> []"
    using assms by (auto simp: validateServiceAuthority_def split: if_splits)
  have "distinct (map mk_Name (sa_Keys s))"
    using check_keys_None [OF k] strict_sorted_iff [of "map mk_Name (sa_Keys s)"] by simp
  moreover have "validEnvName name \<and> \<not> secretLikeName lib name" if "(name, val) \<in> set (items (sa_Environment s))" for name val
    using e that by (fastforce simp: check_environment_def check_all_None split: if_splits)
  ultimately show ?thesis
    using check_keys_None [OF k] o by (auto simp: confined_def map_of_eq_None_iff)
qed

lemma valid_services:
  assumes "Manifest_Validate lib m = None"
  shows "distinct (map sa_Name (lm_Services m)) \<and> (\<forall>s \<in> set (lm_Services m). validateServiceAuthority lib s = None)
    \<and> lm_ExpiresAt m - lm_IssuedAt m \<le> 900 \<and> 0 < lm_IssuedAt m \<and> lm_IssuedAt m < lm_ExpiresAt m"
proof -
  have c: "check_services lib [] (lm_Services m)" using assms by (auto simp: Manifest_Validate_def split: if_splits)
  then show ?thesis
    using assms check_services_names [OF c] check_services_each [OF c] strict_sorted_iff [of "map sa_Name (lm_Services m)"]
    by (auto simp: Manifest_Validate_def MaxManifestTTL_def nanos_def split: if_splits)
qed

subsection \<open>Renewal\<close>

definition with_window :: "Manifest \<Rightarrow> gotime \<Rightarrow> int \<Rightarrow> Manifest" where
  "with_window m now ttl = m\<lparr>lm_IssuedAt := Unix now, lm_ExpiresAt := Unix (now + ttl)\<rparr>"

lemma without_with_window [simp]: "without_window (with_window m now ttl) = without_window m"
  by (simp add: without_window_def with_window_def)

lemma with_window_simps [simp]:
  "lm_IssuedAt (with_window m now ttl) = Unix now" "lm_ExpiresAt (with_window m now ttl) = Unix (now + ttl)"
  "text_manifest (with_window m now ttl) = text_manifest m" "permits policy (with_window m now ttl) = permits policy m"
  by (simp_all add: with_window_def text_manifest_def permits_def)

lemma renewed_by:
  assumes "RenewSignedManifest lib template policy private now ttl maxAge = Inr data" and "ParseSignedManifest lib template = Inr doc"
  shows "(\<exists>signature. verifyManifestTrust lib (sg_Manifest doc) signature (sg_KeyID doc) policy = None)
    \<and> ll_public lib private = get (tp_AllowedSigningKeys policy) (sg_KeyID doc)
    \<and> time_Unix (lm_IssuedAt (sg_Manifest doc)) \<le> now \<and> now - time_Unix (lm_IssuedAt (sg_Manifest doc)) \<le> maxAge \<and> maxAge \<le> MaxRenewalAge
    \<and> Manifest_Validate lib (sg_Manifest doc) = None \<and> nanos \<le> ttl
    \<and> SignManifest lib (with_window (sg_Manifest doc) now ttl) (sg_KeyID doc) private now = Inr data"
  using assms
  by (auto simp: RenewSignedManifest_def RenewManifest_def with_window_def not_less not_le Let_def split: if_splits option.splits sum.splits)

lemma Unix_add_second: "nanos \<le> ttl \<Longrightarrow> Unix now < Unix (now + ttl)"
proof -
  assume "nanos \<le> ttl"
  then have "(now - unix_epoch) div nanos + 1 \<le> (now + ttl - unix_epoch) div nanos"
    using zdiv_mono1 [of "now - unix_epoch + nanos" "now + ttl - unix_epoch" nanos] by (simp add: nanos_def)
  then show ?thesis by (simp add: Unix_def)
qed

lemma accept_iff:
  "AcceptRenewal lib current candidate now = None \<longleftrightarrow>
     Manifest_Validate lib current = None \<and> Manifest_Validate lib candidate = None \<and> live candidate now
     \<and> ll_sha lib (AuthorityBytes candidate) = ll_sha lib (AuthorityBytes current) \<and> lm_ExpiresAt current \<le> lm_ExpiresAt candidate"
proof (cases "ValidateAt lib candidate now")
  case None
  then have "Manifest_Validate lib candidate = None" "live candidate now" by (simp_all add: ValidateAt_iff)
  then show ?thesis
    using None by (cases "Manifest_Validate lib current") (auto simp: AcceptRenewal_def AuthorityDigest_def not_less)
next
  case (Some e)
  then have "\<not> (Manifest_Validate lib candidate = None \<and> live candidate now)" using ValidateAt_iff [of lib candidate now] by simp
  then show ?thesis using Some by (auto simp: AcceptRenewal_def)
qed

lemma AuthorityBytes_window [simp]: "AuthorityBytes (with_window m now ttl) = AuthorityBytes m"
  by (simp add: AuthorityBytes_def)

subsection \<open>Guarantees\<close>

text \<open>
  C23: a launch manifest signed with a trusted key verifies, and yields the signed manifest, exactly while it is live and as long as the trust
  policy permits its version, runtime, role and every version of every key it hands out.
\<close>

theorem signed_manifest_verifies:
  assumes "launch_lib_ok lib" and "text_manifest m" and "valid_utf8 keyID" and "SignManifest lib m keyID private signed_at = Inr data"
    and "reads_back lib (signed_doc lib m keyID private)" and "map_of (tp_AllowedSigningKeys policy) keyID = Some (ll_public lib private)"
  shows "VerifySignedManifest lib data policy now = Inr m \<longleftrightarrow> live m now \<and> ValidateTrustPolicy policy = None \<and> permits policy m"
  by (rule signed_verifies_iff [OF assms])

text \<open>
  C24: whatever bytes are presented, a manifest that verifies is authorised in every respect: the bytes are its canonical encoding with a
  signature that verifies under a key of the policy, it is live and was issued for at most fifteen minutes, the policy permits it, its services have distinct names and pinned images,
  and in each of them every secret has a variable of its own that no plain variable shares.
\<close>

theorem verified_manifest_is_authorised:
  assumes "VerifySignedManifest lib data policy now = Inr m"
  shows "live m now \<and> lm_ExpiresAt m - lm_IssuedAt m \<le> 900 \<and> permits policy m
    \<and> (\<exists>keyID public signature encoded. map_of (tp_AllowedSigningKeys policy) keyID = Some public \<and> length public = 32
         \<and> length signature = 64 \<and> ll_verify lib public (marshal_manifest m) signature \<and> base64_DecodeString encoded = Some signature
         \<and> data = marshal_signed \<lparr>sg_Manifest = m, sg_KeyID = keyID, sg_Signature = encoded\<rparr>)
    \<and> distinct (map sa_Name (lm_Services m)) \<and> list_all (confined lib) (lm_Services m)"
proof -
  obtain doc signature where d: "ParseSignedManifest lib data = Inr doc" "sg_Manifest doc = m"
    "base64_DecodeString (sg_Signature doc) = Some signature" "length signature = 64"
    "ValidateAt lib m now = None" "verifyManifestTrust lib m signature (sg_KeyID doc) policy = None"
    using assms by (auto simp: verified)
  have v: "Manifest_Validate lib m = None" "live m now" using d(5) by (simp_all add: ValidateAt_iff)
  have "data = marshal_signed \<lparr>sg_Manifest = m, sg_KeyID = sg_KeyID doc, sg_Signature = sg_Signature doc\<rparr>"
    using parse_inverse [OF d(1)] d(2) by (cases doc) auto
  moreover have "list_all (confined lib) (lm_Services m)"
    using valid_services [OF v(1)] valid_confined by (auto simp: list_all_iff)
  ultimately show ?thesis using d v valid_services [OF v(1)] by (auto simp: trust_iff)
qed

text \<open>
  C25: renewing a signed manifest extends the launch and changes nothing else. The result verifies at once under the same policy; it differs from the template in
  its window only, which starts now and lasts at most fifteen minutes; the template was issued at most a week ago; and whoever runs the
  template accepts the result unless it would end earlier.
\<close>

theorem renewal_keeps_the_launch:
  assumes "launch_lib_ok lib" and "ParseSignedManifest lib template = Inr doc" and "text_manifest (sg_Manifest doc)" and "valid_utf8 (sg_KeyID doc)"
    and "RenewSignedManifest lib template policy private now ttl maxAge = Inr data"
    and "reads_back lib (signed_doc lib (with_window (sg_Manifest doc) now ttl) (sg_KeyID doc) private)"
  shows "\<exists>m. VerifySignedManifest lib data policy now = Inr m \<and> without_window m = without_window (sg_Manifest doc)
    \<and> lm_IssuedAt m = Unix now \<and> lm_ExpiresAt m - lm_IssuedAt m \<le> 900
    \<and> lm_IssuedAt (sg_Manifest doc) \<le> Unix now \<and> Unix now \<le> lm_IssuedAt (sg_Manifest doc) + 604800
    \<and> (AcceptRenewal lib (sg_Manifest doc) m now = None \<longleftrightarrow> lm_ExpiresAt (sg_Manifest doc) \<le> lm_ExpiresAt m)"
proof -
  let ?base = "sg_Manifest doc" and ?m = "with_window (sg_Manifest doc) now ttl"
  have r: "SignManifest lib ?m (sg_KeyID doc) private now = Inr data" "nanos \<le> ttl" "Manifest_Validate lib ?base = None"
    "ll_public lib private = get (tp_AllowedSigningKeys policy) (sg_KeyID doc)"
    "time_Unix (lm_IssuedAt ?base) \<le> now" "now - time_Unix (lm_IssuedAt ?base) \<le> MaxRenewalAge"
    using renewed_by [OF assms(5,2)] by auto
  have t: "ValidateTrustPolicy policy = None" "permits policy ?base"
    and k: "map_of (tp_AllowedSigningKeys policy) (sg_KeyID doc) = Some (ll_public lib private)"
    using renewed_by [OF assms(5,2)] by (auto simp: trust_iff get_def)
  have v: "Manifest_Validate lib ?m = None" "live ?m now" using signed_by [OF r(1)] by (simp_all add: ValidateAt_iff)
  have "VerifySignedManifest lib data policy now = Inr ?m"
    using signed_verifies_iff [OF assms(1) _ assms(4) r(1) assms(6) k, of now] assms(3) t v(2) by simp
  moreover have "lm_IssuedAt ?base \<le> Unix now"
    using r(5) Unix_time(1) [of "lm_IssuedAt ?base"] Unix_time(3) [of "time_Unix (lm_IssuedAt ?base)" now] by simp
  moreover have "Unix now \<le> lm_IssuedAt ?base + 604800"
    using r(6) zdiv_mono1 [of "now - unix_epoch" "(lm_IssuedAt ?base + 604800) * nanos" nanos]
    by (simp add: Unix_def time_Unix_def MaxRenewalAge_def nanos_def)
  ultimately show ?thesis
    using v r(3) valid_services [OF v(1)] by (intro exI [of _ ?m]) (simp add: accept_iff)
qed

text \<open>
  The heartbeat budget of an accepted health specification, computed without wrap-around: three intervals fit in the timeout, and the timeout in fifteen minutes.
\<close>

lemma heartbeat_budget:
  assumes "validHealth h = None"
  shows "0 < unat (hs_HeartbeatIntervalMS h) \<and> 3 * unat (hs_HeartbeatIntervalMS h) \<le> unat (hs_HeartbeatTimeoutMS h)
    \<and> unat (hs_HeartbeatTimeoutMS h) \<le> 900000"
proof -
  let ?i = "hs_HeartbeatIntervalMS h" and ?t = "hs_HeartbeatTimeoutMS h"
  have g: "?i \<noteq> 0" "?i \<le> 300000" "?t \<le> 900000" "?i * 3 \<le> ?t"
    using assms by (auto simp: validHealth_def MaxHeartbeatIntervalMS_def MaxHeartbeatTimeoutMS_def HeartbeatSafetyFactor_def not_less split: if_splits)
  have i: "unat ?i \<le> 300000" using g(2) by (simp add: word_le_nat_alt)
  then have "unat (?i * 3) = unat ?i * 3" by (simp add: unat_word_ariths)
  then show ?thesis using g by (simp add: word_le_nat_alt unat_gt_0)
qed

subsection \<open>Examples\<close>

definition digest_of :: "char \<Rightarrow> string" where
  "digest_of c = ''sha256:'' @ replicate 64 c"

definition example_health :: HealthSpec where
  "example_health = \<lparr>hs_Command = [''/bin/true''], hs_IntervalMS = 30000, hs_TimeoutMS = 5000, hs_Retries = 1,
     hs_HeartbeatIntervalMS = 1000, hs_HeartbeatTimeoutMS = 5000\<rparr>"

definition example_service :: ServiceAuthority where
  "example_service = \<lparr>sa_Name = ''api'', sa_Image = ''api@'' @ digest_of (CHR ''1''), sa_User = ''1000'', sa_Argv = [''/helper''],
     sa_Environment = Some [(''LOG_LEVEL'', ''info'')], sa_Labels = Some [], sa_Networks = Some [''backend''], sa_Restart = ''no'', sa_OpenStdin = True,
     sa_Health = example_health, sa_Dependencies = Some [], sa_Keys = [\<lparr>mk_Name = ''APP_TOKEN'', mk_Version = ''1'', mk_Env = ''APP_TOKEN''\<rparr>],
     sa_WrapperDigest = digest_of (CHR ''c''),
     sa_Child = \<lparr>cs_Argv = [''/bin/app''], cs_User = ''current'', cs_Environment = Some [(''LOG_LEVEL'', ''info'')]\<rparr>\<rparr>"

definition example_manifest :: Manifest where
  "example_manifest = \<lparr>lm_Version = ''v2'', lm_RuntimeID = ''prod'', lm_Role = ''api'', lm_Generation = 7, lm_IssuedAt = 1000, lm_ExpiresAt = 1900,
     lm_Nonce = ''nonce-1234567890'', lm_Services = [example_service],
     lm_Digests = \<lparr>ad_Helper = digest_of (CHR ''a''), ad_Supervisor = digest_of (CHR ''b''), ad_Compose = digest_of (CHR ''d'')\<rparr>\<rparr>"

definition example_key :: string where
  "example_key = replicate 64 (CHR ''k'')"

definition example_sign :: "string \<Rightarrow> string \<Rightarrow> string" where
  "example_sign private msg = take 32 private @ take 32 private"

definition example_signed :: "Manifest \<Rightarrow> SignedManifest" where
  "example_signed m = \<lparr>sg_Manifest = m, sg_KeyID = ''k1'', sg_Signature = base64_EncodeToString (example_sign example_key (marshal_manifest m))\<rparr>"

text \<open>A library whose decoder knows two documents: a manifest and its renewal 600 seconds later.\<close>

definition renewed_example :: Manifest where
  "renewed_example = with_window example_manifest (time_Unix 1600) (900 * nanos)"

definition example_lib :: launch_lib where
  "example_lib = \<lparr>ll_json = \<lparr>jl_valid = (\<lambda>s. True), jl_unquote = (\<lambda>s. Some (fst (read_json (tl s)))), jl_float = (\<lambda>s. True)\<rparr>,
     ll_decode = (\<lambda>s. find (\<lambda>m. marshal_manifest m = s) [example_manifest, renewed_example]),
     ll_decodeSigned = (\<lambda>s. find (\<lambda>d. marshal_signed d = s) (map example_signed [example_manifest, renewed_example])),
     ll_decodeTrust = (\<lambda>s. None), ll_sha = take 32, ll_sign = example_sign,
     ll_verify = (\<lambda>public msg sig. sig = public @ public), ll_public = take 32, ll_upper = id\<rparr>"

definition example_policy :: TrustPolicy where
  "example_policy = \<lparr>tp_AllowedSigningKeys = [(''k1'', take 32 example_key)], tp_AllowedVersions = [(''v2'', True)],
     tp_AllowedRuntimeIDs = [(''prod'', True)], tp_AllowedRoles = [(''api'', True)], tp_KeyVersions = [(''APP_TOKEN'', [(''1'', True)])]\<rparr>"

lemma example_lib_ok: "launch_lib_ok example_lib"
  by (auto simp: launch_lib_ok_def json_lib_ok_def numbers_ok_def example_lib_def example_sign_def json_string_def read_json_string)

lemma example_text: "text_manifest example_manifest"
  by (simp add: text_manifest_def text_service_def text_map_def example_manifest_def example_service_def example_health_def digest_of_def
      items_def names_utf8 is_ascii_def list_all_iff)

lemmas name_checks = validEnvName_def validKeyName_def validServiceName_def validNonce_def blank_byte_def MaxKeyLength_def alnum_def
  is_upper_def is_lower_def is_digit_def less_eq_char_def

lemma digest_valid: "is_lower_hex c \<Longrightarrow> launch_validDigest (digest_of c)"
  by (simp add: launch_validDigest_def digest_of_def list_all_iff HasPrefix_def)

lemma example_health_valid: "validHealth example_health = None"
  by (simp add: validHealth_def example_health_def MaxHeartbeatIntervalMS_def MaxHeartbeatTimeoutMS_def HeartbeatSafetyFactor_def validArguments_def)

lemma example_service_valid: "validateServiceAuthority example_lib example_service = None"
proof -
  have hex: "is_lower_hex (CHR ''1'')" "is_lower_hex (CHR ''c'')" by (simp_all add: is_lower_hex_def is_digit_def less_eq_char_def)
  have "pinnedImage (''api@'' @ digest_of (CHR ''1''))"
    using digest_valid [OF hex(1)] by (simp add: pinnedImage_def Cut_def)
  moreover have "\<not> secretLikeName example_lib ''LOG_LEVEL''"
    by (simp add: secretLikeName_def example_lib_def ToUpper_def is_ascii_def upper_byte_def is_lower_def less_eq_char_def Contains_def
        HasPrefix_def upt_rec)
  moreover have "char_of (49 :: nat) = CHR ''1''" by code_simp
  moreover from this have "validProviderVersion ''1''"
    by (simp add: validProviderVersion_def ParseInt_def ParseUint_def decimal_def dec_val_def is_digit_def less_eq_char_def
        FormatInt_def FormatUint.simps [of "Suc 0"] dec_digit_def Let_def)
  moreover have "validEnvName ''APP_TOKEN''" "validEnvName ''LOG_LEVEL''" "validKeyName ''APP_TOKEN''" "validServiceName ''api''" "validServiceName ''backend''"
    by (simp_all add: name_checks)
  ultimately show ?thesis
    using example_health_valid digest_valid [OF hex(2)]
    by (simp add: validateServiceAuthority_def example_service_def validArguments_def equalStringMap_def get_def items_def
        check_environment_def check_labels_def)
qed

lemma example_valid: "Manifest_Validate example_lib example_manifest = None" "Manifest_Validate example_lib renewed_example = None"
proof -
  have hex: "is_lower_hex (CHR ''a'')" "is_lower_hex (CHR ''b'')" "is_lower_hex (CHR ''d'')"
    by (simp_all add: is_lower_hex_def is_digit_def less_eq_char_def)
  have n: "validServiceName ''prod''" "validServiceName ''api''" "validNonce ''nonce-1234567890''" by (simp_all add: name_checks)
  have s: "check_services example_lib [] [example_service]"
    using example_service_valid by (simp add: example_service_def)
  show "Manifest_Validate example_lib example_manifest = None"
    using n s digest_valid [OF hex(1)] digest_valid [OF hex(2)] digest_valid [OF hex(3)]
    by (simp add: Manifest_Validate_def example_manifest_def ManifestVersion_def MaxManifestTTL_def nanos_def)
  show "Manifest_Validate example_lib renewed_example = None"
    using n s digest_valid [OF hex(1)] digest_valid [OF hex(2)] digest_valid [OF hex(3)]
    by (simp add: Manifest_Validate_def renewed_example_def with_window_def example_manifest_def ManifestVersion_def MaxManifestTTL_def
        nanos_def Unix_def time_Unix_def)
qed

lemma example_starts: "FormatInt 1600 @ x \<noteq> FormatInt 1000 @ y"
  by (simp add: FormatInt_def FormatUint.simps [of 1600] FormatUint.simps [of 1000] FormatUint.simps [of 160] FormatUint.simps [of 100]
      FormatUint.simps [of 16] FormatUint.simps [of 10] FormatUint.simps [of 1] dec_digit_def)

lemma renewed_differs:
  "marshal_manifest example_manifest \<noteq> marshal_manifest renewed_example"
  "marshal_signed (example_signed example_manifest) \<noteq> marshal_signed (example_signed renewed_example)"
proof -
  have i: "lm_IssuedAt example_manifest = 1000" "lm_IssuedAt renewed_example = 1600"
    by (simp_all add: example_manifest_def renewed_example_def Unix_time)
  have same: "lm_Version renewed_example = lm_Version example_manifest" "lm_RuntimeID renewed_example = lm_RuntimeID example_manifest"
    "lm_Role renewed_example = lm_Role example_manifest" "lm_Generation renewed_example = lm_Generation example_manifest"
    by (simp_all add: renewed_example_def with_window_def)
  show "marshal_manifest example_manifest \<noteq> marshal_manifest renewed_example"
    using example_starts by (simp add: marshal_manifest_def manifest_json_def i same) metis
  show "marshal_signed (example_signed example_manifest) \<noteq> marshal_signed (example_signed renewed_example)"
    using example_starts by (simp add: marshal_signed_def signed_json_def example_signed_def manifest_json_def i same) metis
qed

lemma example_reads_back: "reads_back example_lib (example_signed example_manifest)" "reads_back example_lib (example_signed renewed_example)"
  using renewed_differs by (simp_all add: reads_back_def example_lib_def example_signed_def)

lemma example_keyed: "signed_doc example_lib m ''k1'' example_key = example_signed m"
  by (simp add: signed_doc_def example_signed_def example_lib_def)

lemma example_trust: "ValidateTrustPolicy example_policy = None" "permits example_policy example_manifest"
  "map_of (tp_AllowedSigningKeys example_policy) ''k1'' = Some (ll_public example_lib example_key)"
  by (simp_all add: ValidateTrustPolicy_def example_policy_def example_key_def permits_def allowed_def example_manifest_def example_service_def
      example_lib_def)

lemma example_sign_ok: "SignManifest example_lib example_manifest ''k1'' example_key (time_Unix 1000) = Inr (marshal_signed (example_signed example_manifest))"
  using example_valid(1)
  by (simp add: SignManifest_def ValidateAt_def Unix_time example_key_def example_signed_def)
    (simp add: example_lib_def example_key_def example_manifest_def)

lemma example_utf8: "valid_utf8 ''k1''"
  by (rule valid_utf8_ascii) (simp add: is_ascii_def)

theorem signed_manifest_verifies_witness:
  "VerifySignedManifest example_lib (marshal_signed (example_signed example_manifest)) example_policy (time_Unix 1200) = Inr example_manifest
    \<and> VerifySignedManifest example_lib (marshal_signed (example_signed example_manifest)) example_policy (time_Unix 1900) \<noteq> Inr example_manifest"
proof -
  note v = signed_manifest_verifies [OF example_lib_ok example_text example_utf8 example_sign_ok _ example_trust(3)]
  show ?thesis
    using v [of "time_Unix 1200"] v [of "time_Unix 1900"] example_trust example_reads_back(1)
    by (simp add: example_keyed live_def Unix_time example_manifest_def)
qed

theorem verified_manifest_is_authorised_witness:
  "live example_manifest (time_Unix 1200) \<and> lm_ExpiresAt example_manifest - lm_IssuedAt example_manifest \<le> 900
    \<and> list_all (confined example_lib) (lm_Services example_manifest)"
proof -
  have "VerifySignedManifest example_lib (marshal_signed (example_signed example_manifest)) example_policy (time_Unix 1200) = Inr example_manifest"
    using signed_verifies_iff [OF example_lib_ok example_text example_utf8 example_sign_ok _ example_trust(3), of "time_Unix 1200"]
      example_trust example_reads_back(1)
    by (simp add: example_keyed live_def Unix_time example_manifest_def)
  then show ?thesis using verified_manifest_is_authorised by blast
qed

lemma example_parses: "ParseSignedManifest example_lib (marshal_signed (example_signed example_manifest)) = Inr (example_signed example_manifest)"
  using example_text example_valid(1) example_reads_back(1)
  by (intro parse_written [OF example_lib_ok]) (simp_all add: example_signed_def example_utf8 encoded_utf8 encoded_Nil example_sign_def example_key_def)

lemma example_renewal:
  "RenewSignedManifest example_lib (marshal_signed (example_signed example_manifest)) example_policy example_key (time_Unix 1600) (900 * nanos) (3600 * nanos)
     = Inr (marshal_signed (example_signed renewed_example))"
proof -
  let ?sig = "example_sign example_key (marshal_manifest example_manifest)"
  have d: "base64_DecodeString (sg_Signature (example_signed example_manifest)) = Some ?sig" "length ?sig = 64"
    by (simp_all add: example_signed_def base64_round_trip example_sign_def example_key_def)
  have t: "verifyManifestTrust example_lib example_manifest ?sig ''k1'' example_policy = None"
    using example_trust by (simp add: trust_iff) (simp add: example_lib_def example_sign_def example_key_def)
  have r: "RenewManifest example_lib example_manifest (time_Unix 1600) (900 * nanos) = Inr renewed_example"
    using example_valid by (simp add: RenewManifest_def MaxManifestTTL_def nanos_def renewed_example_def with_window_def)
  have s: "SignManifest example_lib renewed_example ''k1'' example_key (time_Unix 1600) = Inr (marshal_signed (example_signed renewed_example))"
    using example_valid(2)
    by (simp add: SignManifest_def ValidateAt_def Unix_time example_key_def example_signed_def)
      (simp add: example_lib_def example_key_def renewed_example_def Unix_def time_Unix_def nanos_def)
  have i: "lm_IssuedAt example_manifest = 1000" by (simp add: example_manifest_def)
  have p: "get (tp_AllowedSigningKeys example_policy) ''k1'' = ll_public example_lib example_key"
    using example_trust(3) by (simp add: get_def)
  show ?thesis
    unfolding RenewSignedManifest_def example_parses using d t r s i p
    by (simp add: MaxRenewalAge_def nanos_def example_key_def time_Unix_def example_signed_def)
qed

theorem renewal_keeps_the_launch_witness:
  "\<exists>m. VerifySignedManifest example_lib (marshal_signed (example_signed renewed_example)) example_policy (time_Unix 1600) = Inr m
    \<and> without_window m = without_window example_manifest \<and> lm_IssuedAt m = 1600"
proof -
  have "text_manifest (sg_Manifest (example_signed example_manifest))" "valid_utf8 (sg_KeyID (example_signed example_manifest))"
    using example_text example_utf8 by (simp_all add: example_signed_def)
  moreover have "reads_back example_lib (signed_doc example_lib
      (with_window (sg_Manifest (example_signed example_manifest)) (time_Unix 1600) (900 * nanos)) (sg_KeyID (example_signed example_manifest)) example_key)"
    using example_reads_back(2) by (simp add: example_keyed example_signed_def [of example_manifest] renewed_example_def [symmetric])
  ultimately show ?thesis
    using renewal_keeps_the_launch [OF example_lib_ok example_parses _ _ example_renewal] by (auto simp: example_signed_def Unix_time)
qed

lemma heartbeat_budget_example: "validHealth example_health = None \<and> 3 * unat (hs_HeartbeatIntervalMS example_health) \<le> unat (hs_HeartbeatTimeoutMS example_health)"
  using heartbeat_budget [OF example_health_valid] example_health_valid by simp

text \<open>
  A child environment need not be the environment that was checked: a missing entry of a map reads as the empty string, so a variable with an empty value
  may be replaced by another one, which is subject to no check.
\<close>

lemma child_environment_may_differ:
  "validateServiceAuthority example_lib (example_service\<lparr>sa_Environment := Some [(''LOG_LEVEL'', [])],
     sa_Child := (sa_Child example_service)\<lparr>cs_Environment := Some [(''DB_PASSWORD'', [])]\<rparr>\<rparr>) = None"
proof -
  have "check_environment example_lib ErrInvalidInput [(''LOG_LEVEL'', [])] = None"
    "check_keys [(''LOG_LEVEL'', [])] [] [] (sa_Keys example_service) = None"
    using example_service_valid
    by (auto simp: validateServiceAuthority_def check_environment_def example_service_def items_def split: if_splits)
  then show ?thesis
    using example_service_valid
    by (auto simp: validateServiceAuthority_def equalStringMap_def get_def items_def example_service_def split: if_splits)
qed

end
