(* ===== verification/Launch_Delivery_Theorems.thy ===== *)
theory Launch_Delivery_Theorems
  imports Launch_Delivery Launch_Trust
begin

text \<open>
  What the delivery of secrets guarantees: the helper receives exactly what was fetched; whatever an attacker does to the stream, it accepts only what was sent, in order;
  a child whose supervisor is gone is killed; the child's environment is the declared one with every secret in its variable.
\<close>

subsection \<open>Both ends derive the same session\<close>

lemma hkdf_done: "len \<le> length result \<Longrightarrow> hkdf_expand lib n prk info len c p result = result"
  by (cases n) simp_all

lemma hkdf_one_block:
  assumes "channel_lib_ok lib" and "0 < n" and "0 < len" and "len \<le> 32"
  shows "hkdf_expand lib n prk info len c p [] = cl_hmac lib prk (p @ info @ [char_of (unat c)])"
  using assms by (cases n) (simp_all add: hkdf_done channel_lib_ok_def Let_def)

lemma length_hkdf: "channel_lib_ok lib \<Longrightarrow> length (hkdfSHA256 lib secret salt info 32) = 32"
  by (simp add: hkdfSHA256_def hkdf_one_block) (simp add: channel_lib_ok_def)

lemma read_handshake:
  assumes "length public = 32"
  shows "ReadHandshake (handshakeMagic @ public @ rest) = (Inr public, rest)"
  using assms by (simp add: ReadHandshake_def handshakeSize_def handshakeMagic_def Let_def)

lemma AuthorityBytes_nonempty: "AuthorityBytes m \<noteq> []"
  by (simp add: AuthorityBytes_def marshal_manifest_def manifest_json_def)

lemma sent_envelope:
  assumes "channel_lib_ok lib" and "SendEnvelope lib lk (Some p) (handshakeMagic @ cl_public lib q @ extra) manifest service values = ((Some s, out), None)"
  obtains session s1 out1 key where "Derive lib p (cl_public lib q) (AuthorityBytes manifest) = Inr key" "NewSession lib key (AuthorityBytes manifest) = Inr session"
    "send_secrets lib lk values (session, [handshakeMagic @ cl_public lib p]) (sa_Keys service) = ((s1, out1), None)"
    "sendHeartbeat lib lk (s1, out1) = ((s, out), None)" "Manifest_Service manifest (sa_Name service) = Some service" "validHealth (sa_Health service) = None"
proof -
  have l: "length (cl_public lib p) = 32" "length (cl_public lib q) = 32" using assms(1) by (simp_all add: channel_lib_ok_def)
  have r: "ReadHandshake (handshakeMagic @ cl_public lib q @ extra) = (Inr (cl_public lib q), extra)" by (rule read_handshake [OF l(2)])
  have "\<exists>key session s1 out1. Derive lib p (cl_public lib q) (AuthorityBytes manifest) = Inr key \<and> NewSession lib key (AuthorityBytes manifest) = Inr session
    \<and> send_secrets lib lk values (session, [handshakeMagic @ cl_public lib p]) (sa_Keys service) = ((s1, out1), None)
    \<and> sendHeartbeat lib lk (s1, out1) = ((s, out), None) \<and> Manifest_Service manifest (sa_Name service) = Some service \<and> validHealth (sa_Health service) = None"
    using assms(2) l
    by (auto simp: SendEnvelope_def r EncodeHandshake_def x25519PublicKeySize_def Let_def split: if_splits sum.splits prod.splits option.splits)
  then show ?thesis using that by blast
qed

lemma same_session:
  assumes "channel_lib_ok lib" and "Derive lib p (cl_public lib q) canonical = Inr key" and "NewSession lib key canonical = Inr session" and "he_Canonical h = canonical"
  shows "helper_session lib h q (handshakeMagic @ cl_public lib p @ rest) = (Inr session, rest)" and "linked session session"
proof -
  have l: "length (cl_public lib p) = 32" "cl_ecdh lib q (cl_public lib p) = cl_ecdh lib p (cl_public lib q)"
    using assms(1) by (simp_all add: channel_lib_ok_def)
  have "Derive lib q (cl_public lib p) canonical = Inr key"
    using assms(2) l by (auto simp: Derive_def x25519PublicKeySize_def split: if_splits)
  then show "helper_session lib h q (handshakeMagic @ cl_public lib p @ rest) = (Inr session, rest)"
    using assms(3,4) by (simp add: helper_session_def read_handshake [OF l(1)])
  show "linked session session"
    using assms(3) length_hkdf [OF assms(1)] by (auto simp: NewSession_def linked_def Let_def split: if_splits)
qed

subsection \<open>Delivery\<close>

lemma fetched_bytes:
  "fetched Fetch k = \<lparr>sb_Key = mk_Name k, sb_Version = mk_Version k, sb_Env = mk_Env k, sb_Bytes = sb_Bytes (fetched Fetch k)\<rparr>"
  by (simp add: fetched_def)

lemma secrets_delivered:
  assumes "channel_lib_ok lib" and "nonces_ok lk" and "FetchSecrets Fetch (sa_Keys service) = Inr values"
    and "SendEnvelope lib lk (Some p) (handshakeMagic @ cl_public lib q @ extra) manifest service values = ((Some s, out), None)"
    and "he_Canonical h = AuthorityBytes manifest" and "he_Service h = service"
  shows "\<exists>session rest rc. helper_session lib h q (concat out @ later) = (Inr session, rest)
    \<and> receive lib now (sa_Keys service) (start_reception now (sa_Keys service) session rest) = Inr rc \<and> rc_values rc = values
    \<and> list_all (\<lambda>k. \<exists>bytes. Fetch (mk_Name k) (mk_Version k) = Some bytes
         \<and> map_of values (mk_Name k) = Some \<lparr>sb_Key = mk_Name k, sb_Version = mk_Version k, sb_Env = mk_Env k, sb_Bytes = bytes\<rparr>) (sa_Keys service)"
proof -
  let ?keys = "sa_Keys service"
  obtain session s1 out1 key where e: "Derive lib p (cl_public lib q) (AuthorityBytes manifest) = Inr key" "NewSession lib key (AuthorityBytes manifest) = Inr session"
    "send_secrets lib lk values (session, [handshakeMagic @ cl_public lib p]) ?keys = ((s1, out1), None)"
    "sendHeartbeat lib lk (s1, out1) = ((s, out), None)"
    by (rule sent_envelope [OF assms(1,4)])
  note v = fetch_Inr [OF assms(3)]
  have m: "map_of values (mk_Name k) = Some (fetched Fetch k)" if "k \<in> set ?keys" for k
    unfolding v(1) using v(2) that by (intro map_of_is_SomeI) (auto simp: o_def)
  note ses = same_session [OF assms(1) e(1,2) assms(5)]
  obtain wire where out: "out = out1 @ [wire]" using e(4) by (auto simp: sendHeartbeat_def split: prod.splits sum.splits if_splits)
  define rc where "rc = start_reception now ?keys session (concat (tl out1) @ wire @ later)"
  have rc: "rc_session rc = session" "rc_required rc = map mk_Name ?keys" "rc_values rc = []" "rc_stream rc = concat (tl out1) @ wire @ later"
    using v(2) by (simp_all add: rc_def start_reception_def distinct_remdups_id)
  have "\<exists>wires r. out1 = [handshakeMagic @ cl_public lib p] @ wires \<and> linked s1 r \<and>
      (rc_stream rc = concat wires @ wire @ later \<longrightarrow>
       receive lib now ?keys rc = Inr (rc\<lparr>rc_values := rc_values rc @ map (\<lambda>k. (mk_Name k, fetched Fetch k)) ?keys, rc_required := [], rc_session := r, rc_stream := wire @ later\<rparr>))"
    using m v(2) ses(2) rc by (intro send_receive [OF assms(1,2) v(2) e(3)]) simp_all
  then obtain wires r where w: "out1 = (handshakeMagic @ cl_public lib p) # wires"
    and r: "receive lib now ?keys rc = Inr (rc\<lparr>rc_values := values, rc_required := [], rc_session := r, rc_stream := wire @ later\<rparr>)"
    using rc(3,4) v(1) by force
  have "helper_session lib h q (concat out @ later) = (Inr session, concat (tl out1) @ wire @ later)"
    using ses(1) [of "concat wires @ wire @ later"] out w by simp
  moreover have "list_all (\<lambda>k. \<exists>bytes. Fetch (mk_Name k) (mk_Version k) = Some bytes
         \<and> map_of values (mk_Name k) = Some \<lparr>sb_Key = mk_Name k, sb_Version = mk_Version k, sb_Env = mk_Env k, sb_Bytes = bytes\<rparr>) ?keys"
    unfolding list_all_iff using m v(4) fetched_bytes by metis
  ultimately show ?thesis
    using r unfolding rc_def [symmetric]
    by (intro exI [of _ session] exI [of _ "concat (tl out1) @ wire @ later"]
        exI [of _ "rc\<lparr>rc_values := values, rc_required := [], rc_session := r, rc_stream := wire @ later\<rparr>"] conjI) (simp_all add: rc_def)
qed


subsection \<open>Authenticity\<close>

text \<open>The frames a session has sealed, numbered from one.\<close>

definition in_order :: "Frame list \<Rightarrow> bool" where
  "in_order sent \<longleftrightarrow> length sent < 2 ^ 64 \<and> (\<forall>i < length sent. fr_Sequence (sent ! i) = of_nat (Suc i))"

lemma next_frame:
  assumes "Session_Open lib s wire = (s', Inr f)" and "authentic lib s sent arrived" and "in_order sent" and "ss_received s = of_nat n" and "n \<le> length sent"
    and "w \<in> arrived" and "sublist wire w"
  shows "n < length sent \<and> sent ! n = f \<and> s' = s\<lparr>ss_received := of_nat (Suc n)\<rparr>"
proof -
  obtain i where i: "i < length sent" "sent ! i = f" using accepted_was_sent [OF assms(1,2,6,7)] by (auto simp: in_set_conv_nth)
  have o: "fr_Sequence f = ss_received s + 1" "s' = s\<lparr>ss_received := fr_Sequence f\<rparr>" "ss_received s \<noteq> - 1" using opened [OF assms(1)] by auto
  have "(of_nat (Suc i) :: 64 word) = of_nat (Suc n)" using assms(3,4) i o(1) by (auto simp: in_order_def add.commute)
  then have "unat (of_nat (Suc i) :: 64 word) = unat (of_nat (Suc n) :: 64 word)" by (rule arg_cong)
  then have "Suc i mod 2 ^ 64 = Suc n mod 2 ^ 64" by (simp only: unat_of_nat) simp
  moreover have lt: "length sent < 2 ^ 64" using assms(3) by (simp add: in_order_def)
  ultimately have m: "Suc i = Suc n mod 18446744073709551616" "n \<le> 18446744073709551615" using i(1) assms(5) by simp_all
  have "i = n"
  proof (cases "n = 18446744073709551615")
    case True
    then show ?thesis using m(1) by simp
  next
    case False
    then show ?thesis using m by simp
  qed
  then show ?thesis using i o assms(4) by (simp add: add.commute)
qed

definition secrets_of :: "Frame list \<Rightarrow> (string \<times> string \<times> string) list" where
  "secrets_of fs = map (\<lambda>f. (fr_Key f, fr_Version f, fr_Value f)) (filter (\<lambda>f. fr_Kind f = messageSecret) fs)"

lemma secrets_of_Suc: "n < length sent \<Longrightarrow> secrets_of (take (Suc n) sent) = secrets_of (take n sent) @ secrets_of [sent ! n]"
  by (simp add: secrets_of_def take_Suc_conv_app_nth)

definition received_of :: "SecretSet \<Rightarrow> (string \<times> string \<times> string) list" where
  "received_of values = map (\<lambda>(k, b). (k, sb_Version b, sb_Bytes b)) values"

definition matches_keys :: "ManifestKey list \<Rightarrow> SecretSet \<Rightarrow> bool" where
  "matches_keys keys values \<longleftrightarrow> distinct (map fst values)
     \<and> list_all (\<lambda>(name, b). \<exists>k \<in> set keys. mk_Name k = name \<and> sb_Key b = name \<and> sb_Version b = mk_Version k \<and> sb_Env b = mk_Env k) values"

lemma byKey_Some: "byKey keys name = Some k \<Longrightarrow> k \<in> set keys \<and> mk_Name k = name"
  unfolding byKey_def by (auto dest: map_of_SomeD)

definition after_heartbeat :: "(nat \<Rightarrow> gotime) \<Rightarrow> reception \<Rightarrow> Session \<Rightarrow> string \<Rightarrow> reception" where
  "after_heartbeat now rc s rest = rc\<lparr>rc_session := s, rc_stream := rest, rc_clock := Suc (rc_clock rc), rc_heartbeat := now (rc_clock rc)\<rparr>"

definition after_secret :: "reception \<Rightarrow> Session \<Rightarrow> string \<Rightarrow> ManifestKey \<Rightarrow> Frame \<Rightarrow> reception" where
  "after_secret rc s rest k f = rc\<lparr>rc_session := s, rc_stream := rest, rc_required := removeAll (fr_Key f) (rc_required rc),
     rc_values := rc_values rc @ [(fr_Key f, \<lparr>sb_Key = mk_Name k, sb_Version = mk_Version k, sb_Env = mk_Env k, sb_Bytes = fr_Value f\<rparr>)]\<rparr>"

text \<open>What holds at the start and survives a heartbeat and a secret holds at the end of the receiving loop.\<close>

lemma receive_inv:
  assumes hb: "\<And>rc s f wire rest. P rc \<Longrightarrow> readWireFrame (rc_stream rc) = (Inr wire, rest) \<Longrightarrow> Session_Open lib (rc_session rc) wire = (s, Inr f) \<Longrightarrow> fr_Kind f = messageHeartbeat \<Longrightarrow> P (after_heartbeat now rc s rest)"
    and sec: "\<And>rc s f wire rest k. P rc \<Longrightarrow> readWireFrame (rc_stream rc) = (Inr wire, rest) \<Longrightarrow> Session_Open lib (rc_session rc) wire = (s, Inr f) \<Longrightarrow> fr_Kind f = messageSecret \<Longrightarrow>
      byKey keys (fr_Key f) = Some k \<Longrightarrow> mk_Version k = fr_Version f \<Longrightarrow> map_of (rc_values rc) (fr_Key f) = None \<Longrightarrow> P (after_secret rc s rest k f)"
  shows "receive lib now keys rc = Inr rc' \<Longrightarrow> P rc \<Longrightarrow> P rc' \<and> rc_required rc' = []"
proof (induction "length (rc_stream rc)" arbitrary: rc rule: less_induct)
  case less
  show ?case
  proof (cases "rc_required rc = []")
    case True
    then show ?thesis using less.prems by (simp add: receive.simps [of lib now keys rc])
  next
    case ne: False
    obtain wire rest where w: "readWireFrame (rc_stream rc) = (Inr wire, rest)"
      using less.prems(1) ne by (cases "readWireFrame (rc_stream rc)"; cases "fst (readWireFrame (rc_stream rc))") (auto simp: receive.simps [of lib now keys rc])
    obtain s f where o: "Session_Open lib (rc_session rc) wire = (s, Inr f)"
      using less.prems(1) ne w by (cases "Session_Open lib (rc_session rc) wire"; cases "snd (Session_Open lib (rc_session rc) wire)") (auto simp: receive.simps [of lib now keys rc])
    have short: "length rest < length (rc_stream rc)" by (rule readWireFrame_shorter [OF w])
    show ?thesis
    proof (cases "fr_Kind f = messageHeartbeat")
      case True
      have "receive lib now keys (after_heartbeat now rc s rest) = Inr rc'"
        using less.prems(1) ne w o True by (simp add: receive.simps [of lib now keys rc] after_heartbeat_def)
      then show ?thesis using less.hyps [of "after_heartbeat now rc s rest"] hb [OF less.prems(2) w o True] short by (simp add: after_heartbeat_def)
    next
      case False
      then have sc: "fr_Kind f = messageSecret" using opened [OF o] by auto
      obtain k where k: "byKey keys (fr_Key f) = Some k" "mk_Version k = fr_Version f" "map_of (rc_values rc) (fr_Key f) = None"
        using less.prems(1) ne w o False by (auto simp: receive.simps [of lib now keys rc] split: option.splits if_splits)
      have "receive lib now keys (after_secret rc s rest k f) = Inr rc'"
        using less.prems(1) receive_secret [OF ne w o sc k] by (simp add: after_secret_def)
      then show ?thesis using less.hyps [of "after_secret rc s rest k f"] sec [OF less.prems(2) w o sc k] short by (simp add: after_secret_def)
    qed
  qed
qed

lemma received_matches:
  assumes "receive lib now keys (start_reception now keys s stream) = Inr rc"
  shows "matches_keys keys (rc_values rc) \<and> fst ` set (rc_values rc) = set (map mk_Name keys)"
proof -
  let ?P = "\<lambda>rc. matches_keys keys (rc_values rc) \<and> set (map mk_Name keys) \<subseteq> fst ` set (rc_values rc) \<union> set (rc_required rc)"
  have "?P rc \<and> rc_required rc = []"
  proof (rule receive_inv [OF _ _ assms])
    show "?P (after_heartbeat now rc s rest)" if "?P rc" for rc s rest using that by (simp add: after_heartbeat_def)
    show "?P (after_secret rc s rest k f)" if "?P rc" "byKey keys (fr_Key f) = Some k" "map_of (rc_values rc) (fr_Key f) = None" for rc s rest k f
      using that byKey_Some [OF that(2)] by (auto simp: after_secret_def matches_keys_def map_of_eq_None_iff)
    show "?P (start_reception now keys s stream)" by (simp add: start_reception_def matches_keys_def)
  qed
  then show ?thesis by (auto simp: matches_keys_def list_all_iff)
qed

lemma readWireFrame_parts: "readWireFrame r = (Inr wire, rest) \<Longrightarrow> r = wire @ rest"
  by (auto simp: readWireFrame_def Let_def split: if_splits prod.splits)

lemma received_prefix:
  assumes "receive lib now keys (start_reception now keys s stream) = Inr rc" and "authentic lib s sent {stream}" and "in_order sent" and "ss_received s = 0"
  shows "\<exists>n \<le> length sent. received_of (rc_values rc) = secrets_of (take n sent)"
proof -
  let ?P = "\<lambda>rc. suffix (rc_stream rc) stream \<and> (\<exists>n \<le> length sent. authentic lib (rc_session rc) sent {stream}
     \<and> ss_received (rc_session rc) = of_nat n \<and> received_of (rc_values rc) = secrets_of (take n sent))"
  have step: "\<exists>n. authentic lib s sent {stream} \<and> n < length sent \<and> sent ! n = f \<and> ss_received s = of_nat (Suc n)
      \<and> received_of (rc_values rc) = secrets_of (take n sent) \<and> suffix rest stream"
    if p: "?P rc" and w: "readWireFrame (rc_stream rc) = (Inr wire, rest)" and o: "Session_Open lib (rc_session rc) wire = (s, Inr f)" for rc wire rest s f
  proof -
    obtain n where n: "n \<le> length sent" "authentic lib (rc_session rc) sent {stream}" "ss_received (rc_session rc) = of_nat n" "received_of (rc_values rc) = secrets_of (take n sent)"
      using p by blast
    obtain pre where "stream = pre @ wire @ rest" using p readWireFrame_parts [OF w] by (auto simp: suffix_def)
    then have "sublist wire stream" "suffix rest stream" by (auto simp: sublist_def suffix_def)
    then show ?thesis
      using next_frame [OF o n(2) assms(3) n(3,1), of stream] n(2,4) by (intro exI [of _ n]) (auto simp: authentic_def)
  qed
  have "?P rc \<and> rc_required rc = []"
  proof (rule receive_inv [OF _ _ assms(1)])
    show "?P (after_heartbeat now rc s rest)"
      if a: "?P rc" "readWireFrame (rc_stream rc) = (Inr wire, rest)" "Session_Open lib (rc_session rc) wire = (s, Inr f)" "fr_Kind f = messageHeartbeat" for rc s f wire rest
    proof -
      obtain n where st: "authentic lib s sent {stream}" "n < length sent" "sent ! n = f" "ss_received s = of_nat (Suc n)"
        "received_of (rc_values rc) = secrets_of (take n sent)" "suffix rest stream" using step [OF a(1-3)] by blast
      have "secrets_of (take (Suc n) sent) = secrets_of (take n sent)" using secrets_of_Suc [of n sent] st(2,3) a(4) by (simp add: secrets_of_def)
      then show ?thesis using st by (intro conjI exI [of _ "Suc n"]) (simp_all add: after_heartbeat_def)
    qed
    show "?P (after_secret rc s rest k f)"
      if a: "?P rc" "readWireFrame (rc_stream rc) = (Inr wire, rest)" "Session_Open lib (rc_session rc) wire = (s, Inr f)" "fr_Kind f = messageSecret" "mk_Version k = fr_Version f"
      for rc s f wire rest k
    proof -
      obtain n where st: "authentic lib s sent {stream}" "n < length sent" "sent ! n = f" "ss_received s = of_nat (Suc n)"
        "received_of (rc_values rc) = secrets_of (take n sent)" "suffix rest stream" using step [OF a(1-3)] by blast
      have "secrets_of (take (Suc n) sent) = secrets_of (take n sent) @ [(fr_Key f, fr_Version f, fr_Value f)]"
        using secrets_of_Suc [of n sent] st(2,3) a(4) by (simp add: secrets_of_def)
      then show ?thesis using st a(5) by (intro conjI exI [of _ "Suc n"]) (simp_all add: after_secret_def received_of_def)
    qed
    show "?P (start_reception now keys s stream)"
      using assms(2,4) by (intro conjI exI [of _ 0]) (simp_all add: start_reception_def received_of_def secrets_of_def)
  qed
  then show ?thesis by blast
qed


subsection \<open>Supervision\<close>

text \<open>The times at which a frame was read.\<close>

definition reads :: "monitor_event list \<Rightarrow> gotime list" where
  "reads es = concat (map (\<lambda>e. case e of FrameRead t _ \<Rightarrow> [t] | _ \<Rightarrow> []) es)"

definition arrivals :: "monitor_event list \<Rightarrow> string set" where
  "arrivals es = {wire. \<exists>t. FrameRead t (Some wire) \<in> set es}"

lemma reads_simps [simp]:
  "reads [] = []" "reads (FrameRead t w # es) = t # reads es" "reads (Tick t # es) = reads es" "reads (SignalTaken d # es) = reads es"
  "reads (xs @ ys) = reads xs @ reads ys"
  by (simp_all add: reads_def)

lemma kill_not_running [simp]: "kill_child killErr waited \<noteq> Running s t"
  by (simp add: kill_child_def split: prod.splits)

lemma monitor_running:
  assumes "in_order sent"
  shows "monitor lib timeout killErr waited s hb es = Running s' hb' \<Longrightarrow> authentic lib s sent (arrivals es) \<Longrightarrow> ss_received s = of_nat n \<Longrightarrow> n \<le> length sent \<Longrightarrow>
    n + length (reads es) \<le> length sent \<and> list_all (\<lambda>f. fr_Kind f = messageHeartbeat) (take (length (reads es)) (drop n sent))
    \<and> hb' = last (hb # reads es) \<and> (\<forall>xs t ys. es = xs @ Tick t # ys \<longrightarrow> t - last (hb # reads xs) \<le> timeout)"
proof (induction lib timeout killErr waited s hb es arbitrary: n rule: monitor.induct)
  case (4 lib timeout killErr waited s hb t wire es)
  obtain s1 f where o: "Session_Open lib s wire = (s1, Inr f)" "fr_Kind f = messageHeartbeat" "monitor lib timeout killErr waited s1 t es = Running s' hb'"
    using "4.prems"(1) by (auto split: prod.splits sum.splits if_splits)
  have nx: "n < length sent" "sent ! n = f" "s1 = s\<lparr>ss_received := of_nat (Suc n)\<rparr>" 
    using next_frame [OF o(1) "4.prems"(2) assms "4.prems"(3,4), of wire] by (auto simp: arrivals_def)
  have au: "authentic lib s1 sent (arrivals es)" using "4.prems"(2) nx(3) by (auto simp: authentic_def arrivals_def)
  have ih: "Suc n + length (reads es) \<le> length sent \<and> list_all (\<lambda>f. fr_Kind f = messageHeartbeat) (take (length (reads es)) (drop (Suc n) sent))
    \<and> hb' = last (t # reads es) \<and> (\<forall>xs u ys. es = xs @ Tick u # ys \<longrightarrow> u - last (t # reads xs) \<le> timeout)"
    by (rule "4.IH" [OF o(1) [symmetric] refl o(2,3) au]) (use nx in simp_all)
  have d: "drop n sent = f # drop (Suc n) sent" using nx(1,2) by (metis Cons_nth_drop_Suc)
  have "u - last (hb # reads xs) \<le> timeout" if "FrameRead t (Some wire) # es = xs @ Tick u # ys" for xs u ys
    using that ih by (cases xs) auto
  then show ?case using ih d o(2) by simp
next
  case (5 lib timeout killErr waited s hb delivered es)
  have d: delivered and m: "monitor lib timeout killErr waited s hb es = Running s' hb'" using "5.prems"(1) by (auto split: if_splits)
  have au: "authentic lib s sent (arrivals es)" using "5.prems"(2) by (auto simp: authentic_def arrivals_def)
  note ih = "5.IH" [OF d m au "5.prems"(3,4)]
  have ticks: "es = xs @ Tick u # ys \<Longrightarrow> u - last (hb # reads xs) \<le> timeout" for xs u ys using ih by blast
  have "u - last (hb # reads xs) \<le> timeout" if "SignalTaken delivered # es = xs @ Tick u # ys" for xs u ys
    using that ticks [of "tl xs" u ys] by (cases xs) auto
  then show ?case using ih by simp
next
  case (6 lib timeout killErr waited s hb t es)
  have d: "\<not> timeout < t - hb" and m: "monitor lib timeout killErr waited s hb es = Running s' hb'" using "6.prems"(1) by (auto split: if_splits)
  have au: "authentic lib s sent (arrivals es)" using "6.prems"(2) by (auto simp: authentic_def arrivals_def)
  note ih = "6.IH" [OF d m au "6.prems"(3,4)]
  have ticks: "es = xs @ Tick u # ys \<Longrightarrow> u - last (hb # reads xs) \<le> timeout" for xs u ys using ih by blast
  have "u - last (hb # reads xs) \<le> timeout" if "Tick t # es = xs @ Tick u # ys" for xs u ys
    using that d ticks [of "tl xs" u ys] by (cases xs) auto
  then show ?case using ih by simp
qed (auto split: if_splits)


subsection \<open>The environment\<close>

lemma map_of_fold_put: "map_of (fold map_put kvs m) = map_of m ++ map_of (rev kvs)"
proof (induction kvs arbitrary: m)
  case (Cons kv kvs)
  have "map_of m ++ map_of (rev (kv # kvs)) = (map_of m ++ [fst kv \<mapsto> snd kv]) ++ map_of (rev kvs)" by simp
  moreover have "map_of m ++ [fst kv \<mapsto> snd kv] = (map_of m)(fst kv \<mapsto> snd kv)" by (rule ext) simp
  ultimately show ?case by (simp only: fold_simps Cons.IH map_of_put)
qed simp

lemma distinct_fold_put: "distinct (map fst m) \<Longrightarrow> distinct (map fst (fold map_put kvs m))"
proof (induction kvs arbitrary: m)
  case (Cons kv kvs)
  have "distinct (map fst (filter (\<lambda>e. fst e \<noteq> fst kv) m))" using Cons.prems by (rule distinct_map_filter)
  then have "distinct (map fst (map_put kv m))" by (auto simp: map_put_def)
  then show ?case using Cons.IH by simp
qed simp

definition env_map :: "string list \<Rightarrow> smap \<Rightarrow> SecretSet \<Rightarrow> string \<Rightarrow> string option" where
  "env_map parent declared values = map_of (rev (parent_entries parent)) ++ map_of (rev declared) ++ map_of (rev (map (\<lambda>(k, item). (buffer_env item, sb_Bytes item)) values))"

lemma filteredEnvironment_exact:
  "\<exists>names. filteredEnvironment parent declared values = map (\<lambda>name. name @ ''='' @ the (env_map parent declared values name)) names
     \<and> sorted_wrt (<) names \<and> set names = dom (env_map parent declared values)"
proof -
  define env where "env = fold map_put (parent_entries parent @ declared @ map (\<lambda>(k, item). (buffer_env item, sb_Bytes item)) values) []"
  have m: "map_of env = env_map parent declared values"
    by (simp only: env_def map_of_fold_put rev_append map_of_append env_map_def map_add_assoc map_of.simps(1) empty_map_add)
  have s: "set (sort (map fst env)) = dom (env_map parent declared values)" by (simp add: m [symmetric] dom_map_of_conv_image_fst)
  have "distinct (map fst env)" unfolding env_def by (rule distinct_fold_put) simp
  then have d: "sorted_wrt (<) (sort (map fst env))" using strict_sorted_iff [of "sort (map fst env)"] by simp
  have "get env name = the (env_map parent declared values name)" if "name \<in> set (sort (map fst env))" for name
  proof -
    have "name \<in> dom (map_of env)" using that s m by simp
    then show ?thesis by (auto simp: get_def m [symmetric])
  qed
  then have "filteredEnvironment parent declared values = map (\<lambda>name. name @ ''='' @ the (env_map parent declared values name)) (sort (map fst env))"
    unfolding filteredEnvironment_def Let_def env_def [symmetric] by (intro map_cong) simp_all
  then show ?thesis using s d by blast
qed

lemma env_map_secret:
  assumes "matches_keys keys values" and "distinct (map mk_Env keys)" and "(name, b) \<in> set values" and "sb_Env b \<noteq> []"
    and "list_all (\<lambda>k. mk_Env k \<noteq> []) keys" and "distinct (map mk_Name keys)"
  shows "env_map parent declared values (sb_Env b) = Some (sb_Bytes b)"
proof -
  have env: "buffer_env (snd e) = sb_Env (snd e)" if "e \<in> set values" for e
    using assms(1,5) that by (force simp: matches_keys_def list_all_iff buffer_env_def)
  have key: "\<exists>k \<in> set keys. mk_Name k = fst e \<and> sb_Env (snd e) = mk_Env k" if "e \<in> set values" for e
    using assms(1) that by (force simp: matches_keys_def list_all_iff)
  have "inj_on (\<lambda>e. sb_Env (snd e)) (set values)"
  proof (rule inj_onI)
    fix e e' assume e: "e \<in> set values" "e' \<in> set values" "sb_Env (snd e) = sb_Env (snd e')"
    obtain k k' where k: "k \<in> set keys" "mk_Name k = fst e" "sb_Env (snd e) = mk_Env k" "k' \<in> set keys" "mk_Name k' = fst e'" "sb_Env (snd e') = mk_Env k'"
      using key [OF e(1)] key [OF e(2)] by blast
    have "inj_on mk_Env (set keys)" using assms(2) by (simp add: distinct_map)
    then have "k = k'" using k e(3) inj_onD [of mk_Env "set keys" k k'] by simp
    then have "fst e = fst e'" using k by simp
    then show "e = e'" using e(1,2) assms(1) inj_onD [of fst "set values" e e'] by (simp add: matches_keys_def distinct_map)
  qed
  then have "distinct (map (\<lambda>e. buffer_env (snd e)) values)"
    using assms(1) env by (simp add: matches_keys_def distinct_map cong: inj_on_cong)
  then have "distinct (map fst (map (\<lambda>(k, item). (buffer_env item, sb_Bytes item)) values))" by (simp add: o_def case_prod_beta')
  moreover have "(sb_Env b, sb_Bytes b) \<in> set (map (\<lambda>(k, item). (buffer_env item, sb_Bytes item)) values)"
    using assms(3,4) env [OF assms(3)] by force
  ultimately have "map_of (rev (map (\<lambda>(k, item). (buffer_env item, sb_Bytes item)) values)) (sb_Env b) = Some (sb_Bytes b)"
    by (intro map_of_is_SomeI) (simp_all add: rev_map [symmetric] del: map_map)
  then show ?thesis by (simp add: env_map_def)
qed

lemma run_started:
  assumes "Run_start lib clib now starts h stream s = Inr (timeout, rc)"
  shows "receive clib now (sa_Keys (he_Service h)) (start_reception now (sa_Keys (he_Service h)) s stream) = Inr rc
    \<and> Manifest_Validate lib (he_Manifest h) = None \<and> live (he_Manifest h) (now 0) \<and> live (he_Manifest h) (now (rc_clock rc))
    \<and> starts (sa_Child (he_Service h)) (rc_values rc)"
proof -
  have "ValidateAt lib (he_Manifest h) (now 0) = None" "ValidateAt lib (he_Manifest h) (now (rc_clock rc)) = None"
    "receive clib now (sa_Keys (he_Service h)) (start_reception now (sa_Keys (he_Service h)) s stream) = Inr rc" "starts (sa_Child (he_Service h)) (rc_values rc)"
    using assms by (auto simp: Run_start_def split: if_splits option.splits sum.splits)
  then show ?thesis by (simp add: ValidateAt_iff)
qed

lemma service_confined:
  assumes "Manifest_Validate lib m = None" and "Manifest_Service m name = Some service"
  shows "confined lib service"
proof -
  have "service \<in> set (lm_Services m)" using assms(2) by (auto simp: Manifest_Service_def find_Some_iff)
  then show ?thesis using valid_services [OF assms(1)] valid_confined by blast
qed

lemma env_map_names:
  assumes "matches_keys keys values" and "[] \<notin> mk_Env ` set keys"
  shows "dom (env_map parent declared values) \<subseteq> mk_Env ` set keys \<union> fst ` set declared \<union> set allowedParentVars"
proof -
  have "dom (env_map parent declared values) = (\<lambda>e. buffer_env (snd e)) ` set values \<union> fst ` set declared \<union> fst ` set (parent_entries parent)"
    by (simp add: env_map_def dom_map_of_conv_image_fst image_image case_prod_beta' Un_assoc)
  moreover have "fst ` set (parent_entries parent) \<subseteq> set allowedParentVars" by (auto simp: parent_entries_def split: if_splits prod.splits)
  moreover have "buffer_env (snd e) \<in> mk_Env ` set keys" if e: "e \<in> set values" for e
  proof -
    obtain k where k: "k \<in> set keys" "sb_Env (snd e) = mk_Env k" using assms(1) e by (force simp: matches_keys_def list_all_iff)
    have img: "mk_Env k \<in> mk_Env ` set keys" using k(1) by (rule imageI)
    then have "mk_Env k \<noteq> []" using assms(2) by (metis (no_types))
    then show ?thesis using img k(2) by (simp add: buffer_env_def)
  qed
  ultimately show ?thesis by (simp only: image_subset_iff) blast
qed


subsection \<open>Examples\<close>

text \<open>
  An ideal channel: it knows which plaintexts are sealed under which data, and tags everything else differently.
\<close>

definition ideal_tag :: "(string \<times> string) list \<Rightarrow> string \<Rightarrow> string \<Rightarrow> string" where
  "ideal_tag known aad plain = replicate 16 (if (aad, plain) \<in> set known then CHR ''T'' else CHR 0xFF)"

definition ideal_channel :: "(string \<times> string) list \<Rightarrow> channel_lib" where
  "ideal_channel known = \<lparr>cl_sha = (\<lambda>s. ''h''), cl_hmac = (\<lambda>k m. replicate 32 (CHR ''m'')),
     cl_seal = (\<lambda>k n p a. p @ ideal_tag known a p),
     cl_open = (\<lambda>k n c a. if 16 \<le> length c \<and> drop (length c - 16) c = ideal_tag known a (take (length c - 16) c) then Some (take (length c - 16) c) else None),
     cl_public = (\<lambda>p. replicate 32 (CHR ''p'')), cl_ecdh = (\<lambda>p q. Some ''s'')\<rparr>"

lemma ideal_ok: "channel_lib_ok (ideal_channel known)"
  by (simp add: channel_lib_ok_def ideal_channel_def ideal_tag_def)

definition example_nonce :: string where
  "example_nonce = replicate 12 (CHR ''n'')"

lemma ideal_authentic:
  assumes "list_all frame_fits sent" and "known = map (\<lambda>f. (aad_of (ss_aad s) f example_nonce, fr_Value f)) sent" and "\<And>w. w \<in> arrived \<Longrightarrow> CHR 0xFF \<notin> set w"
  shows "authentic (ideal_channel known) s sent arrived"
  unfolding authentic_def
proof (intro allI impI)
  fix w nonce c a plain
  assume w: "w \<in> arrived" "sublist c w" "cl_open (ideal_channel known) (ss_key s) nonce c a = Some plain"
  have o: "16 \<le> length c" "drop (length c - 16) c = ideal_tag known a plain" using w(3) by (auto simp: ideal_channel_def split: if_splits)
  have "set (drop (length c - 16) c) \<subseteq> set w" using w(2) set_mono_sublist set_drop_subset by fast
  then have "(a, plain) \<in> set known" using o(2) assms(3) [OF w(1)] by (auto simp: ideal_tag_def split: if_splits)
  then obtain f where "f \<in> set sent" "a = aad_of (ss_aad s) f example_nonce" "plain = fr_Value f" unfolding assms(2) by auto
  then show "\<exists>f n. f \<in> set sent \<and> frame_fits f \<and> length n = 12 \<and> a = aad_of (ss_aad s) f n \<and> plain = fr_Value f"
    using assms(1) by (intro exI [of _ f] exI [of _ example_nonce]) (simp add: list_all_iff example_nonce_def)
qed

definition example_session :: Session where
  "example_session = \<lparr>ss_key = replicate 32 (CHR ''m''), ss_aad = ''h'', ss_send = 0, ss_received = 0\<rparr>"

definition example_secret :: Frame where
  "example_secret = \<lparr>fr_Kind = messageSecret, fr_Sequence = 1, fr_Key = ''APP_TOKEN'', fr_Version = ''1'', fr_Value = ''pw''\<rparr>"

definition example_beat :: Frame where
  "example_beat = \<lparr>fr_Kind = messageHeartbeat, fr_Sequence = 2, fr_Key = [], fr_Version = [], fr_Value = []\<rparr>"

definition example_channel :: channel_lib where
  "example_channel = ideal_channel (map (\<lambda>f. (aad_of ''h'' f example_nonce, fr_Value f)) [example_secret, example_beat])"

definition example_wires :: "string list" where
  "example_wires = map (\<lambda>f. wire_of example_channel example_session f example_nonce) [example_secret, example_beat]"

definition example_link :: link where
  "example_link = \<lparr>lk_nonce = (\<lambda>n. Some example_nonce), lk_write = (\<lambda>n. True)\<rparr>"

definition example_fetch :: fetcher where
  "example_fetch = (\<lambda>key version. Some ''pw'')"

definition example_values :: SecretSet where
  "example_values = [(''APP_TOKEN'', \<lparr>sb_Key = ''APP_TOKEN'', sb_Version = ''1'', sb_Env = ''APP_TOKEN'', sb_Bytes = ''pw''\<rparr>)]"

definition example_helper :: Helper where
  "example_helper = \<lparr>he_Manifest = example_manifest, he_Service = example_service, he_Canonical = AuthorityBytes example_manifest, he_HeartbeatTimeout = 0,
     he_binding = \<lparr>lb_RuntimeID = ''prod'', lb_Service = ''api'', lb_Role = [], lb_Generation = 0, lb_ExpiresAt = 0, lb_Nonce = []\<rparr>\<rparr>"

lemma example_frames_fit: "frame_fits example_secret" "frame_fits example_beat"
  by (simp_all add: frame_fits_def example_secret_def example_beat_def validateFrameFields_def MaxKeyLength_def MaxValueLength_def blank_byte_def)

lemma example_fetched: "FetchSecrets example_fetch (sa_Keys example_service) = Inr example_values"
proof -
  have "check_keys (items (sa_Environment example_service)) [] [] (sa_Keys example_service) = None"
    using example_service_valid by (auto simp: validateServiceAuthority_def split: if_splits)
  from check_keys_None [OF this] show ?thesis
    by (simp add: FetchSecrets_def example_service_def example_fetch_def example_values_def MaxValueLength_def)
qed

lemma example_seals:
  "session_seal example_channel example_session messageSecret ''APP_TOKEN'' ''1'' ''pw'' (Some example_nonce)
     = (example_session\<lparr>ss_send := 1\<rparr>, Inr (example_wires ! 0))"
  "session_seal example_channel (example_session\<lparr>ss_send := 1\<rparr>) messageHeartbeat [] [] [] (Some example_nonce)
     = (example_session\<lparr>ss_send := 2\<rparr>, Inr (example_wires ! 1))"
  using example_frames_fit
  by (simp_all add: seal_iff example_session_def example_wires_def example_secret_def example_beat_def wire_of_def)

lemma example_channel_simps [simp]:
  "channel_lib_ok example_channel" "cl_sha example_channel x = ''h''" "cl_hmac example_channel k x = replicate 32 (CHR ''m'')"
  "cl_public example_channel p = replicate 32 (CHR ''p'')" "cl_ecdh example_channel p q = Some ''s''"
  "hkdfSHA256 example_channel a b c 32 = replicate 32 (CHR ''m'')"
proof -
  show ok: "channel_lib_ok example_channel" by (simp add: example_channel_def ideal_ok)
  show h: "cl_hmac example_channel k x = replicate 32 (CHR ''m'')" for k x by (simp add: example_channel_def ideal_channel_def)
  show "hkdfSHA256 example_channel a b c 32 = replicate 32 (CHR ''m'')" by (simp add: hkdfSHA256_def hkdf_one_block [OF ok] h)
qed (simp_all add: example_channel_def ideal_channel_def)

lemma example_derive:
  "Derive example_channel p (replicate 32 (CHR ''p'')) (AuthorityBytes example_manifest) = Inr (replicate 32 (CHR ''m''))"
  "NewSession example_channel (replicate 32 (CHR ''m'')) (AuthorityBytes example_manifest) = Inr example_session"
  using AuthorityBytes_nonempty [of example_manifest]
  by (simp_all add: Derive_def NewSession_def x25519PublicKeySize_def example_session_def Let_def)

lemma example_envelope:
  "SendEnvelope example_channel example_link (Some ''a'') (handshakeMagic @ cl_public example_channel ''b'' @ []) example_manifest example_service example_values
     = ((Some (example_session\<lparr>ss_send := 2\<rparr>), (handshakeMagic @ replicate 32 (CHR ''p'')) # example_wires), None)"
proof -
  have s: "Manifest_Service example_manifest (sa_Name example_service) = Some example_service"
    by (simp add: Manifest_Service_def example_manifest_def)
  have k: "sa_Keys example_service = [\<lparr>mk_Name = ''APP_TOKEN'', mk_Version = ''1'', mk_Env = ''APP_TOKEN''\<rparr>]" by (simp add: example_service_def)
  have h: "validHealth (sa_Health example_service) = None" using example_health_valid by (simp add: example_service_def)
  have w: "example_wires = [example_wires ! 0, example_wires ! 1]" by (simp add: example_wires_def)
  have seal: "Session_Seal example_channel example_session (secret_frame (snd (example_values ! 0))) (Some example_nonce) = (example_session\<lparr>ss_send := 1\<rparr>, Inr (example_wires ! 0))"
    using example_seals(1) example_frames_fit(1)
    by (simp add: Session_Seal_def secret_frame_def example_values_def frame_fits_def example_secret_def)
  show ?thesis
    unfolding SendEnvelope_def s k read_handshake [of "cl_public example_channel ''b''", simplified]
    using seal example_seals(2) h w
    by (simp add: read_handshake [of "replicate 32 (CHR ''p'')" "[]", simplified] EncodeHandshake_def x25519PublicKeySize_def example_link_def example_derive
        example_values_def sendHeartbeat_def SealHeartbeat_def)
qed


lemma example_received:
  "\<exists>rc. receive example_channel now (sa_Keys example_service) (start_reception now (sa_Keys example_service) example_session (concat example_wires)) = Inr rc
    \<and> rc_values rc = example_values"
proof -
  have n: "nonces_ok example_link" by (simp add: nonces_ok_def example_link_def example_nonce_def)
  have h: "helper_session example_channel example_helper ''b'' (handshakeMagic @ replicate 32 (CHR ''p'') @ rest) = (Inr example_session, rest)" for rest
    by (simp add: helper_session_def read_handshake example_helper_def example_derive)
  show ?thesis
    using secrets_delivered [OF _ n example_fetched example_envelope, of example_helper "[]" now] h [of "concat example_wires"] by (auto simp: example_helper_def)
qed

lemma example_authentic: "authentic example_channel s [example_secret, example_beat] arrived"
  if "ss_aad s = ''h''" and "\<And>w. w \<in> arrived \<Longrightarrow> CHR 0xFF \<notin> set w" for s
  unfolding example_channel_def using that example_frames_fit by (intro ideal_authentic) simp_all

lemma example_tag: "cl_seal example_channel k n (fr_Value f) (aad_of ''h'' f example_nonce) = fr_Value f @ replicate 16 (CHR ''T'')"
  if "f \<in> {example_secret, example_beat}"
  using that by (auto simp: example_channel_def ideal_channel_def ideal_tag_def)

lemma small_be: "x < 255 \<Longrightarrow> CHR 0xFF \<notin> set (put_be n x)"
proof (induction n arbitrary: x)
  case (Suc n)
  have "char_of x \<noteq> CHR 0xFF"
  proof
    assume "char_of x = CHR 0xFF"
    then have "of_char (char_of x :: char) = (255 :: nat)" by simp
    then show False using Suc.prems by simp
  qed
  then show ?case using Suc by simp
qed simp

lemma example_clean: "CHR 0xFF \<notin> set (concat example_wires)"
proof -
  have w: "wire_of example_channel example_session f example_nonce = header_of f example_nonce @ fr_Key f @ fr_Version f @ fr_Value f @ replicate 16 (CHR ''T'')"
    if "f \<in> {example_secret, example_beat}" for f
    using example_tag [OF that] by (simp add: wire_of_def example_session_def)
  have "CHR 0xFF \<notin> set (header_of f example_nonce)" if "f \<in> {example_secret, example_beat}" for f
    using that by (auto simp: header_of_def frame_header_def frameMagic_def example_nonce_def example_secret_def example_beat_def messageSecret_def
        messageHeartbeat_def small_be simp del: put_be.simps)
  then show ?thesis by (simp add: example_wires_def w) (simp add: example_secret_def example_beat_def)
qed

lemma example_in_order: "in_order [example_secret, example_beat]"
  by (auto simp: in_order_def example_secret_def example_beat_def less_Suc_eq)



lemma example_run:
  "\<exists>timeout rc. Run_start example_lib example_channel (\<lambda>n. time_Unix 1200) (\<lambda>c v. True) example_helper (concat example_wires) example_session = Inr (timeout, rc)
    \<and> rc_values rc = example_values"
proof -
  have v: "ValidateAt example_lib example_manifest (time_Unix 1200) = None"
    using example_valid(1) by (simp add: ValidateAt_iff live_def Unix_time example_manifest_def)
  have h: "validHealth (sa_Health example_service) = None" using example_health_valid by (simp add: example_service_def)
  obtain rc where "receive example_channel (\<lambda>n. time_Unix 1200) (sa_Keys example_service)
      (start_reception (\<lambda>n. time_Unix 1200) (sa_Keys example_service) example_session (concat example_wires)) = Inr rc" "rc_values rc = example_values"
    using example_received by blast
  then show ?thesis using v h by (simp add: Run_start_def example_helper_def resolveHeartbeatTimeout_def)
qed


end
