(* ===== verification/Launch_Supervisor_Theorems.thy ===== *)
theory Launch_Supervisor_Theorems
  imports Launch_Order Launch_Delivery_Theorems
begin

text \<open>
  What the supervisor of a launch does to containers: every action it logs is justified by what it was told before, for a manifest of the launch; and when a
  reconciliation succeeds every service is up.
\<close>

subsection \<open>Justified actions\<close>

definition made :: "action list \<Rightarrow> string \<Rightarrow> bool" where
  "made past cid \<longleftrightarrow> list_ex (\<lambda>x. case x of Created _ _ i \<Rightarrow> i = cid | _ \<Rightarrow> False) past"

text \<open>A dependency was seen running, healthy, and labelled as that service of this launch.\<close>

definition seen_up :: "launch_lib \<Rightarrow> Manifest \<Rightarrow> action list \<Rightarrow> string \<Rightarrow> bool" where
  "seen_up lib m past d \<longleftrightarrow> list_ex (\<lambda>x. case x of
     Inspected _ c \<Rightarrow> ct_Running c \<and> ct_Healthy c \<and> currentOwnedGeneration lib (ct_Labels c) m d | _ \<Rightarrow> False) past"

text \<open>A container was listed with the labels of the launch's runtime and role.\<close>

definition listed_owned :: "Manifest \<Rightarrow> action list \<Rightarrow> string \<Rightarrow> bool" where
  "listed_owned m past cid \<longleftrightarrow> list_ex (\<lambda>x. case x of
     Listed _ cs \<Rightarrow> list_ex (\<lambda>c. ct_ID c = cid \<and> ContainsLabels (ct_Labels c) (OwnershipScopeLabels m)) cs | _ \<Rightarrow> False) past"

fun permitted :: "launch_lib \<Rightarrow> fetcher \<Rightarrow> Manifest \<Rightarrow> action list \<Rightarrow> action \<Rightarrow> bool" where
  "permitted lib Fetch m past (Listed labels cs) \<longleftrightarrow> True"
| "permitted lib Fetch m past (Inspected cid c) \<longleftrightarrow> True"
| "permitted lib Fetch m past (Created spec labels cid) \<longleftrightarrow>
     Manifest_Validate lib m = None \<and> spec \<in> serviceSpecFromAuthority ` set (lm_Services m) \<and> labels = LaunchLabels lib m spec
     \<and> list_all (seen_up lib m past) (items (sp_Dependencies spec))"
| "permitted lib Fetch m past (Started cid) \<longleftrightarrow> made past cid"
| "permitted lib Fetch m past (Sent cid authority values success) \<longleftrightarrow>
     authority \<in> set (lm_Services m) \<and> FetchSecrets Fetch (sa_Keys authority) = Inr values \<and> Started cid \<in> set past
     \<and> Created (serviceSpecFromAuthority authority) (LaunchLabels lib m (serviceSpecFromAuthority authority)) cid \<in> set past"
| "permitted lib Fetch m past (KilledContainer cid) \<longleftrightarrow> made past cid"
| "permitted lib Fetch m past (Removed cid) \<longleftrightarrow> made past cid \<or> listed_owned m past cid"

fun justified :: "launch_lib \<Rightarrow> fetcher \<Rightarrow> Manifest list \<Rightarrow> action list \<Rightarrow> action list \<Rightarrow> bool" where
  "justified lib Fetch ms past [] \<longleftrightarrow> True"
| "justified lib Fetch ms past (x # xs) \<longleftrightarrow> list_ex (\<lambda>m. permitted lib Fetch m past x) ms \<and> justified lib Fetch ms (past @ [x]) xs"

lemma justified_snoc:
  "justified lib Fetch ms past (xs @ [x]) \<longleftrightarrow> justified lib Fetch ms past xs \<and> list_ex (\<lambda>m. permitted lib Fetch m (past @ xs) x) ms"
  by (induction xs arbitrary: past) auto

subsection \<open>Reasoning about actions\<close>

text \<open>
  \<open>ok\<close>: run from a state whose log is justified, the action leaves a justified log that extends the old one, and on success the postcondition holds.
\<close>

definition ok :: "(action list \<Rightarrow> bool) \<Rightarrow> ('w, 'a) act \<Rightarrow> 'w Supervisor \<Rightarrow> ('a \<Rightarrow> 'w Supervisor \<Rightarrow> bool) \<Rightarrow> bool" where
  "ok J a s Q \<longleftrightarrow> J (sv_log s) \<longrightarrow> (case a s of (s', r) \<Rightarrow> J (sv_log s') \<and> set (sv_log s) \<subseteq> set (sv_log s') \<and> (\<forall>x. r = Inr x \<longrightarrow> Q x s'))"

lemma ok_aret [intro!]: "Q x s \<Longrightarrow> ok J (aret x) s Q"
  by (simp add: ok_def aret_def)

lemma ok_afail [intro!]: "ok J (afail e) s Q"
  by (simp add: ok_def afail_def)

lemma ok_acheck [intro!]: "(e = None \<Longrightarrow> Q () s) \<Longrightarrow> ok J (acheck e) s Q"
  by (cases e) (auto simp: acheck_def)

lemma ok_aeither [intro!]: "(\<And>x. r = Inr x \<Longrightarrow> Q x s) \<Longrightarrow> ok J (aeither r) s Q"
  by (cases r) (auto simp: aeither_def)

lemma ok_post: "ok J a s R \<Longrightarrow> (\<And>x s'. R x s' \<Longrightarrow> set (sv_log s) \<subseteq> set (sv_log s') \<Longrightarrow> Q x s') \<Longrightarrow> ok J a s Q"
  by (auto simp: ok_def split: prod.splits)

lemma ok_abind:
  assumes a: "ok J a s R" and f: "\<And>x s'. R x s' \<Longrightarrow> set (sv_log s) \<subseteq> set (sv_log s') \<Longrightarrow> ok J (f x) s' Q"
  shows "ok J (abind a f) s Q"
proof (cases "a s")
  case (Pair s' r)
  show ?thesis
  proof (cases r)
    case (Inl e)
    then show ?thesis using a Pair by (auto simp: ok_def abind_def)
  next
    case (Inr x)
    then have "J (sv_log s) \<Longrightarrow> J (sv_log s') \<and> set (sv_log s) \<subseteq> set (sv_log s') \<and> R x s'" using a Pair by (auto simp: ok_def)
    moreover have "R x s' \<Longrightarrow> set (sv_log s) \<subseteq> set (sv_log s') \<Longrightarrow> ok J (f x) s' Q" by (rule f)
    ultimately show ?thesis using Inr Pair unfolding ok_def abind_def by (auto split: prod.splits) blast
  qed
qed

lemma ok_caught: "ok J a s (\<lambda>x s'. Q (Inr x) s') \<Longrightarrow> (\<And>e s'. set (sv_log s) \<subseteq> set (sv_log s') \<Longrightarrow> Q (Inl e) s') \<Longrightarrow> ok J (caught a) s Q"
proof (cases "a s")
  case (Pair s' r)
  assume "ok J a s (\<lambda>x s'. Q (Inr x) s')" and "\<And>e s'. set (sv_log s) \<subseteq> set (sv_log s') \<Longrightarrow> Q (Inl e) s'"
  then show ?thesis using Pair by (cases r) (auto simp: ok_def caught_def)
qed

lemma ok_aiter:
  assumes step: "\<And>x s'. x \<in> set xs \<Longrightarrow> set (sv_log s) \<subseteq> set (sv_log s') \<Longrightarrow> ok J (f x) s' (\<lambda>_. R x)"
    and mono: "\<And>x s' s''. R x s' \<Longrightarrow> set (sv_log s') \<subseteq> set (sv_log s'') \<Longrightarrow> R x s''"
  shows "ok J (aiter f xs) s (\<lambda>_ s'. \<forall>x \<in> set xs. R x s')"
  using step
proof (induction xs arbitrary: s)
  case (Cons x xs)
  show ?case unfolding aiter.simps
  proof (rule ok_abind)
    show "ok J (f x) s (\<lambda>_. R x)" using Cons.prems[of x s] by simp
    fix u s' assume r: "R x s'" and sub: "set (sv_log s) \<subseteq> set (sv_log s')"
    have "ok J (aiter f xs) s' (\<lambda>_ t. \<forall>y \<in> set xs. R y t)" using Cons.IH Cons.prems sub by (meson list.set_intros(2) order.trans)
    then show "ok J (aiter f xs) s' (\<lambda>_ t. \<forall>y \<in> set (x # xs). R y t)" by (rule ok_post) (use r mono in auto)
  qed
qed (auto)

subsection \<open>The operations\<close>

lemma made_mono: "made past cid \<Longrightarrow> set past \<subseteq> set past' \<Longrightarrow> made past' cid"
  by (auto simp: made_def list_ex_iff)

lemma seen_up_mono: "seen_up lib m past d \<Longrightarrow> set past \<subseteq> set past' \<Longrightarrow> seen_up lib m past' d"
  by (auto simp: seen_up_def list_ex_iff)

lemma listed_owned_mono: "listed_owned m past cid \<Longrightarrow> set past \<subseteq> set past' \<Longrightarrow> listed_owned m past' cid"
  unfolding listed_owned_def list_ex_iff by (meson subset_iff)

lemma madeI: "Created spec labels cid \<in> set past \<Longrightarrow> made past cid"
  unfolding made_def list_ex_iff by force

lemma seen_upI:
  "Inspected cid c \<in> set past \<Longrightarrow> ct_Running c \<Longrightarrow> ct_Healthy c \<Longrightarrow> currentOwnedGeneration lib (ct_Labels c) m d \<Longrightarrow> seen_up lib m past d"
  unfolding seen_up_def list_ex_iff by force

lemma listed_ownedI:
  "Listed labels cs \<in> set past \<Longrightarrow> c \<in> set cs \<Longrightarrow> ContainsLabels (ct_Labels c) (OwnershipScopeLabels m) \<Longrightarrow> listed_owned m past (ct_ID c)"
  unfolding listed_owned_def list_ex_iff by (intro bexI[of _ "Listed labels cs"]) auto

lemma ok_quiet: "ok J (call f (\<lambda>r. [])) s (\<lambda>_ _. True)"
  by (auto simp: ok_def call_def split: prod.splits)

lemma ok_call:
  assumes "\<And>r. list_ex (\<lambda>m. permitted lib Fetch m (sv_log s) (x r)) ms"
  shows "ok (justified lib Fetch ms []) (call f (\<lambda>r. [x r])) s (\<lambda>v s'. x (Inr v) \<in> set (sv_log s'))"
  using assms by (auto simp: ok_def call_def justified_snoc split: prod.splits)

lemma ok_success:
  assumes "\<And>v. list_ex (\<lambda>m. permitted lib Fetch m (sv_log s) (g v)) ms"
  shows "ok (justified lib Fetch ms []) (call f (on_success g)) s (\<lambda>v s'. g v \<in> set (sv_log s'))"
  using assms by (auto simp: ok_def call_def on_success_def justified_snoc split: prod.splits sum.splits)

lemma some_manifest: "m \<in> set ms \<Longrightarrow> P m \<Longrightarrow> list_ex P ms"
  by (auto simp: list_ex_iff)

lemma ok_list: "m \<in> set ms \<Longrightarrow> ok (justified lib Fetch ms []) (do_list rt labels) s (\<lambda>cs s'. Listed labels cs \<in> set (sv_log s'))"
  unfolding do_list_def by (intro ok_success some_manifest) auto

lemma ok_inspect: "m \<in> set ms \<Longrightarrow> ok (justified lib Fetch ms []) (do_inspect rt cid) s (\<lambda>c s'. Inspected cid c \<in> set (sv_log s'))"
  unfolding do_inspect_def by (intro ok_success some_manifest) auto

lemma ok_remove:
  "m \<in> set ms \<Longrightarrow> made (sv_log s) cid \<or> listed_owned m (sv_log s) cid \<Longrightarrow> ok (justified lib Fetch ms []) (do_remove rt cid) s (\<lambda>_ _. True)"
  unfolding do_remove_def by (rule ok_post[OF ok_call]) (auto intro: some_manifest)

lemma ok_kill: "m \<in> set ms \<Longrightarrow> made (sv_log s) cid \<Longrightarrow> ok (justified lib Fetch ms []) (do_kill rt cid) s (\<lambda>_ _. True)"
  unfolding do_kill_def by (rule ok_post[OF ok_call]) (auto intro: some_manifest)

lemma ok_start: "m \<in> set ms \<Longrightarrow> made (sv_log s) cid \<Longrightarrow> ok (justified lib Fetch ms []) (do_start rt cid) s (\<lambda>_ s'. Started cid \<in> set (sv_log s'))"
  unfolding do_start_def by (rule ok_post[OF ok_call]) (auto intro: some_manifest)

lemma ok_sessions: "ok J (closeSession cid) s (\<lambda>_ _. True)" "ok J (trackSession cid) s (\<lambda>_ _. True)" "ok J (streams_closed ids) s (\<lambda>_ _. True)"
  by (simp_all add: ok_def closeSession_def trackSession_def streams_closed_def)

lemma ok_remove_container:
  "m \<in> set ms \<Longrightarrow> listed_owned m (sv_log s) (ct_ID c) \<Longrightarrow> ok (justified lib Fetch ms []) (remove_container rt c) s (\<lambda>_ _. True)"
  unfolding remove_container_def by (rule ok_abind[OF ok_sessions(1)]) (auto intro: ok_remove listed_owned_mono)

lemma ok_remove_all:
  assumes "m \<in> set ms" "Listed labels containers \<in> set (sv_log s)" "set cs \<subseteq> set containers"
    "\<And>c. c \<in> set cs \<Longrightarrow> ContainsLabels (ct_Labels c) (OwnershipScopeLabels m)"
  shows "ok (justified lib Fetch ms []) (aiter (remove_container rt) cs) s (\<lambda>_ _. True)"
  by (rule ok_post[OF ok_aiter[where R = "\<lambda>_ _. True"]]) (use assms in \<open>auto intro!: ok_remove_container listed_ownedI\<close>)

lemma ok_healthy_all:
  assumes "m \<in> set ms"
  shows "ok (justified lib Fetch ms []) (healthy_all lib rt m d expected found cs) s (\<lambda>r s'. r \<longrightarrow> found \<or> seen_up lib m (sv_log s') expected)"
proof (induction cs arbitrary: found s)
  case (Cons c cs)
  show ?case
  proof (cases "ct_Name c \<noteq> d \<or> \<not> currentOwnedGeneration lib (ct_Labels c) m expected")
    case True
    then show ?thesis using Cons.IH by simp
  next
    case False
    have seen: "ok (justified lib Fetch ms []) (caught (do_inspect rt (ct_ID c))) s (\<lambda>r s'. \<forall>c'. r = Inr c' \<longrightarrow> Inspected (ct_ID c) c' \<in> set (sv_log s'))"
      by (rule ok_caught) (use ok_inspect[OF assms] in \<open>auto intro: ok_post\<close>)
    have "ok (justified lib Fetch ms []) (healthy_all lib rt m d expected True cs) s' (\<lambda>r s''. r \<longrightarrow> found \<or> seen_up lib m (sv_log s'') expected)"
      if "Inspected (ct_ID c) c' \<in> set (sv_log s')" "ct_Running c'" "ct_Healthy c'" "currentOwnedGeneration lib (ct_Labels c') m expected" for c' s'
      by (rule ok_post[OF Cons.IH]) (use that seen_upI seen_up_mono in blast)
    then show ?thesis using False unfolding healthy_all.simps by (auto intro!: ok_abind[OF seen] split: sum.split)
  qed
qed auto

lemma ok_checkDependencies:
  assumes "m \<in> set ms" "\<And>d e. all d = Some e \<Longrightarrow> sp_Name e = d"
  shows "ok (justified lib Fetch ms []) (checkDependencies lib rt service all m) s (\<lambda>_ s'. list_all (seen_up lib m (sv_log s')) (items (sp_Dependencies service)))"
proof -
  have "ok (justified lib Fetch ms []) (check_dependency lib rt m all d) s (\<lambda>_ s'. seen_up lib m (sv_log s') d)" for d s
  proof (cases "all d")
    case (Some e)
    then have "sp_Name e = d" by (rule assms(2))
    then show ?thesis unfolding check_dependency_def using Some
      by (auto intro!: ok_abind[OF ok_list[OF assms(1)]] ok_abind[OF ok_healthy_all[OF assms(1)]])
  qed (auto simp: check_dependency_def)
  then show ?thesis unfolding checkDependencies_def
    by (intro ok_post[OF ok_aiter[where R = "\<lambda>d s'. seen_up lib m (sv_log s') d"]]) (auto intro: seen_up_mono simp: list_all_iff)
qed

text \<open>A service to be created, with its authority in the manifest and the values fetched for it.\<close>

definition ready :: "launch_lib \<Rightarrow> fetcher \<Rightarrow> Manifest \<Rightarrow> pending \<Rightarrow> bool" where
  "ready lib Fetch m p \<longleftrightarrow> Manifest_Validate lib m = None \<and> pd_authority p \<in> set (lm_Services m)
     \<and> pd_service p = serviceSpecFromAuthority (pd_authority p) \<and> FetchSecrets Fetch (sa_Keys (pd_authority p)) = Inr (pd_values p)"

text \<open>The service was started and has been sent its secrets.\<close>

definition provided :: "launch_lib \<Rightarrow> fetcher \<Rightarrow> Manifest \<Rightarrow> action list \<Rightarrow> ServiceAuthority \<Rightarrow> bool" where
  "provided lib Fetch m past a \<longleftrightarrow> list_ex (\<lambda>x. case x of Sent cid a' values success \<Rightarrow> a' = a \<and> success
     \<and> FetchSecrets Fetch (sa_Keys a) = Inr values \<and> Created (serviceSpecFromAuthority a) (LaunchLabels lib m (serviceSpecFromAuthority a)) cid \<in> set past | _ \<Rightarrow> False) past"

lemma provided_mono: "provided lib Fetch m past a \<Longrightarrow> set past \<subseteq> set past' \<Longrightarrow> provided lib Fetch m past' a"
proof -
  assume "provided lib Fetch m past a" and sub: "set past \<subseteq> set past'"
  then obtain cid vs where x: "Sent cid a vs True \<in> set past" "FetchSecrets Fetch (sa_Keys a) = Inr vs"
    "Created (serviceSpecFromAuthority a) (LaunchLabels lib m (serviceSpecFromAuthority a)) cid \<in> set past"
    unfolding provided_def list_ex_iff by (elim bexE) (auto split: action.splits)
  then show ?thesis using sub unfolding provided_def list_ex_iff by (intro bexI[of _ "Sent cid a vs True"]) auto
qed

lemma ok_give_up:
  assumes "\<And>a s'. a \<in> set clean \<Longrightarrow> set (sv_log s) \<subseteq> set (sv_log s') \<Longrightarrow> ok J a s' (\<lambda>_ _. True)"
  shows "ok J (give_up clean e) s Q"
  unfolding give_up_def
proof (rule ok_abind)
  show "ok J (aiter (\<lambda>a. abind (caught a) (\<lambda>_. aret ())) clean) s (\<lambda>_ s'. \<forall>a \<in> set clean. True)"
  proof (rule ok_aiter)
    fix a and s' :: "'a Supervisor" assume "a \<in> set clean" "set (sv_log s) \<subseteq> set (sv_log s')"
    then have "ok J (caught a) s' (\<lambda>_ _. True)" by (intro ok_caught assms) auto
    then show "ok J (abind (caught a) (\<lambda>_. aret ())) s' (\<lambda>_ _. True)" by (rule ok_abind) auto
  qed simp
qed auto

lemma ok_create:
  assumes "m \<in> set ms" "ready lib Fetch m p" "list_all (seen_up lib m (sv_log s)) (items (sp_Dependencies (pd_service p)))"
  shows "ok (justified lib Fetch ms []) (do_create rt (pd_service p) (LaunchLabels lib m (pd_service p))) s
    (\<lambda>c s'. Created (pd_service p) (LaunchLabels lib m (pd_service p)) (ct_ID c) \<in> set (sv_log s'))"
  unfolding do_create_def using assms by (intro ok_success some_manifest) (auto simp: ready_def)

lemma ok_send:
  assumes "m \<in> set ms" "ready lib Fetch m p" "Created (pd_service p) (LaunchLabels lib m (pd_service p)) cid \<in> set (sv_log s)" "Started cid \<in> set (sv_log s)"
  shows "ok (justified lib Fetch ms []) (do_send rt cid m (pd_authority p) (pd_values p)) s (\<lambda>_ s'. provided lib Fetch m (sv_log s') (pd_authority p))"
  unfolding do_send_def
proof (rule ok_post[OF ok_call])
  show "list_ex (\<lambda>m. permitted lib Fetch m (sv_log s) (Sent cid (pd_authority p) (pd_values p) (\<not> isl r))) ms" for r :: "LaunchError + unit"
    by (rule some_manifest[OF assms(1)]) (use assms in \<open>simp add: ready_def\<close>)
next
  fix x :: unit and s' assume "Sent cid (pd_authority p) (pd_values p) (\<not> isl (Inr x :: LaunchError + unit)) \<in> set (sv_log s')" "set (sv_log s) \<subseteq> set (sv_log s')"
  moreover have "FetchSecrets Fetch (sa_Keys (pd_authority p)) = Inr (pd_values p)" "pd_service p = serviceSpecFromAuthority (pd_authority p)"
    using assms(2) by (simp_all add: ready_def)
  ultimately show "provided lib Fetch m (sv_log s') (pd_authority p)"
    unfolding provided_def list_ex_iff using assms(3) by (intro bexI[of _ "Sent cid (pd_authority p) (pd_values p) True"]) auto
qed

lemma ok_failed:
  assumes "m \<in> set ms" "made (sv_log s) cid" "set clean \<subseteq> {do_remove rt cid, do_kill rt cid}"
  shows "ok (justified lib Fetch ms []) (give_up clean e) s Q"
proof (rule ok_give_up)
  fix a and s' :: "'a Supervisor" assume "a \<in> set clean" and sub: "set (sv_log s) \<subseteq> set (sv_log s')"
  then have "a = do_remove rt cid \<or> a = do_kill rt cid" using assms(3) by blast
  then show "ok (justified lib Fetch ms []) a s' (\<lambda>_ _. True)" using ok_remove[OF assms(1)] ok_kill[OF assms(1)] made_mono[OF assms(2) sub] by blast
qed

lemma ok_send_to:
  assumes m: "m \<in> set ms" and p: "ready lib Fetch m p"
    and c: "Created (pd_service p) (LaunchLabels lib m (pd_service p)) cid \<in> set (sv_log s)" "Started cid \<in> set (sv_log s)"
  shows "ok (justified lib Fetch ms []) (send_to rt m p cid) s (\<lambda>_ s'. provided lib Fetch m (sv_log s') (pd_authority p))"
  unfolding send_to_def
proof (rule ok_abind)
  let ?R = "\<lambda>r s'. \<forall>x. r = Inr x \<longrightarrow> provided lib Fetch m (sv_log s') (pd_authority p)"
  show "ok (justified lib Fetch ms []) (caught (do_send rt cid m (pd_authority p) (pd_values p))) s ?R"
    by (rule ok_caught) (use ok_send[OF m p c, of rt] in \<open>auto intro: ok_post\<close>)
  fix sent :: "LaunchError + unit" and s' :: "'a Supervisor" assume r: "?R sent s'" and sub: "set (sv_log s) \<subseteq> set (sv_log s')"
  have "made (sv_log s') cid" using madeI[OF c(1)] made_mono sub by blast
  then show "ok (justified lib Fetch ms []) (case sent of Inl e \<Rightarrow> give_up [do_kill rt cid, do_remove rt cid] e | Inr _ \<Rightarrow> trackSession cid) s'
    (\<lambda>_ s''. provided lib Fetch m (sv_log s'') (pd_authority p))"
    using r ok_failed[OF m, of s' cid "[do_kill rt cid, do_remove rt cid]" rt] by (auto split: sum.split intro: ok_post[OF ok_sessions(2)] provided_mono)
qed

lemma ok_start_and_send:
  assumes m: "m \<in> set ms" and p: "ready lib Fetch m p" and c: "Created (pd_service p) (LaunchLabels lib m (pd_service p)) cid \<in> set (sv_log s)"
  shows "ok (justified lib Fetch ms []) (start_and_send rt m p cid) s (\<lambda>_ s'. provided lib Fetch m (sv_log s') (pd_authority p))"
  unfolding start_and_send_def
proof (rule ok_abind)
  let ?R = "\<lambda>r s'. \<forall>x. r = Inr x \<longrightarrow> Started cid \<in> set (sv_log s')"
  show "ok (justified lib Fetch ms []) (caught (do_start rt cid)) s ?R"
    by (rule ok_caught) (use ok_start[OF m madeI[OF c], of lib Fetch rt] in \<open>auto intro: ok_post\<close>)
  fix started :: "LaunchError + unit" and s' :: "'a Supervisor" assume r: "?R started s'" and sub: "set (sv_log s) \<subseteq> set (sv_log s')"
  have c': "Created (pd_service p) (LaunchLabels lib m (pd_service p)) cid \<in> set (sv_log s')" using c sub by blast
  show "ok (justified lib Fetch ms []) (case started of Inl e \<Rightarrow> give_up [do_remove rt cid] e | Inr _ \<Rightarrow> send_to rt m p cid) s'
    (\<lambda>_ s''. provided lib Fetch m (sv_log s'') (pd_authority p))"
    using r ok_failed[OF m madeI[OF c'], of "[do_remove rt cid]" rt] ok_send_to[OF m p c', of rt] by (auto split: sum.split)
qed

lemma ok_bring_up:
  assumes m: "m \<in> set ms" and p: "ready lib Fetch m p" and deps: "list_all (seen_up lib m (sv_log s)) (items (sp_Dependencies (pd_service p)))"
  shows "ok (justified lib Fetch ms []) (bring_up lib rt m p) s (\<lambda>_ s'. provided lib Fetch m (sv_log s') (pd_authority p))"
  unfolding bring_up_def
proof (rule ok_abind[OF ok_create[OF m p deps]], rule ok_abind)
  fix c :: Container and s1 :: "'a Supervisor"
  show "ok (justified lib Fetch ms []) (caught (do_attach rt (ct_ID c))) s1 (\<lambda>_ _. True)"
    unfolding do_attach_def by (rule ok_caught[OF ok_quiet]) simp
  fix attached :: "LaunchError + unit" and s2 :: "'a Supervisor" assume "Created (pd_service p) (LaunchLabels lib m (pd_service p)) (ct_ID c) \<in> set (sv_log s1)"
    "set (sv_log s1) \<subseteq> set (sv_log s2)"
  then have c: "Created (pd_service p) (LaunchLabels lib m (pd_service p)) (ct_ID c) \<in> set (sv_log s2)" by blast
  show "ok (justified lib Fetch ms []) (case attached of Inl e \<Rightarrow> give_up [do_remove rt (ct_ID c)] e | Inr _ \<Rightarrow> start_and_send rt m p (ct_ID c)) s2
    (\<lambda>_ s''. provided lib Fetch m (sv_log s'') (pd_authority p))"
    using ok_failed[OF m madeI[OF c], of "[do_remove rt (ct_ID c)]" rt] ok_start_and_send[OF m p c, of rt] by (auto split: sum.split)
qed

lemma ok_create_service:
  assumes m: "m \<in> set ms" and p: "ready lib Fetch m p" and all: "\<And>d e. all d = Some e \<Longrightarrow> sp_Name e = d"
    and old: "Listed labels containers \<in> set (sv_log s)" "set (pd_old p) \<subseteq> set containers"
      "\<And>c. c \<in> set (pd_old p) \<Longrightarrow> ContainsLabels (ct_Labels c) (OwnershipScopeLabels m)"
  shows "ok (justified lib Fetch ms []) (create_service lib rt m all p) s (\<lambda>_ s'. provided lib Fetch m (sv_log s') (pd_authority p))"
  unfolding create_service_def
  by (intro ok_abind[OF ok_remove_all[OF m old]] ok_abind[OF ok_checkDependencies[OF m all]] ok_bring_up[OF m p]) simp_all

subsection \<open>The plan\<close>

lemma ok_reusable:
  assumes "m \<in> set ms"
  shows "ok (justified lib Fetch ms []) (reusable lib rt m service existing) s (\<lambda>b s'. b \<longrightarrow> seen_up lib m (sv_log s') (sp_Name service))"
proof -
  have one: "ok (justified lib Fetch ms []) (abind (caught (do_inspect rt cid)) (\<lambda>r. aret (case r of
               Inl _ \<Rightarrow> False
             | Inr state \<Rightarrow> ct_Running state \<and> ct_Healthy state \<and> currentOwnedGeneration lib (ct_Labels state) m (sp_Name service)))) s
           (\<lambda>b s'. b \<longrightarrow> seen_up lib m (sv_log s') (sp_Name service))" for cid
  proof (rule ok_abind)
    show "ok (justified lib Fetch ms []) (caught (do_inspect rt cid)) s (\<lambda>r s'. \<forall>c. r = Inr c \<longrightarrow> Inspected cid c \<in> set (sv_log s'))"
      by (rule ok_caught) (use ok_inspect[OF assms] in \<open>auto intro: ok_post\<close>)
  qed (auto split: sum.splits intro: seen_upI)
  have "ok J (\<lambda>s. f s s) s Q = ok J (f s) s Q" for f and J and Q :: "bool \<Rightarrow> 'a Supervisor \<Rightarrow> bool" by (simp add: ok_def)
  then show ?thesis using one unfolding reusable_def by (auto simp: ok_def aret_def split: list.split)
qed

lemma ok_plan_services:
  assumes m: "m \<in> set ms"
  shows "ok (justified lib Fetch ms []) (plan_services lib rt m matches authorities services) s (\<lambda>(reused, ps) s'.
      mset reused + mset (map (\<lambda>p. sp_Name (pd_service p)) ps) = mset (map sp_Name services) \<and> (\<forall>n \<in> set reused. seen_up lib m (sv_log s') n)
      \<and> (\<forall>p \<in> set ps. pd_service p \<in> set services \<and> authorities (sp_Name (pd_service p)) = Some (pd_authority p) \<and> pd_old p = matches (sp_Name (pd_service p))))"
    (is "ok ?J _ _ (?Q services)")
proof (induction services arbitrary: s)
  case (Cons service services)
  show ?case unfolding plan_services.simps
  proof (rule ok_abind[OF ok_reusable[OF m]])
    fix b and s1 :: "'a Supervisor"
    assume b: "b \<longrightarrow> seen_up lib m (sv_log s1) (sp_Name service)"
    have yes: "ok ?J (abind (plan_services lib rt m matches authorities services) (\<lambda>(reused, ps). aret (sp_Name service # reused, ps))) s1 (?Q (service # services))"
      if "b" by (rule ok_abind[OF Cons.IH]) (use b that seen_up_mono in \<open>auto split: prod.splits\<close>)
    have no: "ok ?J (abind (plan_services lib rt m matches authorities services) (\<lambda>(reused, ps).
             aret (reused, \<lparr>pd_service = service, pd_authority = authority, pd_old = matches (sp_Name service), pd_values = []\<rparr> # ps))) s1 (?Q (service # services))"
      if "authorities (sp_Name service) = Some authority" for authority
      by (rule ok_abind[OF Cons.IH]) (use that in \<open>auto split: prod.splits\<close>)
    show "ok ?J (if b then abind (plan_services lib rt m matches authorities services) (\<lambda>(reused, ps). aret (sp_Name service # reused, ps))
       else (case authorities (sp_Name service) of
           None \<Rightarrow> afail (fail ErrBinding)
         | Some authority \<Rightarrow> abind (plan_services lib rt m matches authorities services) (\<lambda>(reused, ps).
             aret (reused, \<lparr>pd_service = service, pd_authority = authority, pd_old = matches (sp_Name service), pd_values = []\<rparr> # ps)))) s1 (?Q (service # services))"
      using yes no by (auto split: option.split)
  qed
qed (auto simp: aret_def ok_def)

lemma fetch_all_Inr:
  "fetch_all Fetch ps = Inr ps' \<Longrightarrow> list_all2 (\<lambda>p p'. pd_service p' = pd_service p \<and> pd_authority p' = pd_authority p \<and> pd_old p' = pd_old p
     \<and> FetchSecrets Fetch (sa_Keys (pd_authority p)) = Inr (pd_values p')) ps ps'"
  by (induction ps arbitrary: ps') (auto split: sum.splits)

lemma scope_of_ownership:
  assumes "Manifest_Validate lib m = None"
  shows "ContainsLabels labels (OwnershipLabels lib m) \<Longrightarrow> ContainsLabels labels (OwnershipScopeLabels m)"
    "currentOwnedGeneration lib labels m n \<Longrightarrow> ContainsLabels labels (OwnershipScopeLabels m)"
  using assms by (auto simp: OwnershipLabels_def OwnershipScopeLabels_def AuthorityDigest_def ContainsLabels_def currentOwnedGeneration_def map_put_def label_defs)

lemma owned_containers:
  assumes "Manifest_Validate lib m = None"
  shows "matching lib m services c \<Longrightarrow> ContainsLabels (ct_Labels c) (OwnershipScopeLabels m)"
    "stale_owned m services c \<Longrightarrow> ContainsLabels (ct_Labels c) (OwnershipScopeLabels m)"
  using scope_of_ownership(2)[OF assms]
  by (auto simp: matching_def stale_owned_def olderOwnedGeneration_def ownedGenerationInScope_def split: option.splits)

subsection \<open>Reconciliation\<close>

lemma model_services:
  assumes "ValidateManifestModel lib m model = None"
  shows "Manifest_Validate lib m = None \<and> rm_Services model = map serviceSpecFromAuthority (lm_Services m)"
  using assms by (auto simp: ValidateManifestModel_def split: if_splits)

lemma serviceByName_name: "serviceByName services d = Some e \<Longrightarrow> sp_Name e = d"
  unfolding serviceByName_def by (auto dest: map_of_SomeD)

lemma sp_Name_authority [simp]: "sp_Name (serviceSpecFromAuthority a) = sa_Name a"
  by (simp add: serviceSpecFromAuthority_def)

lemma authority_of_service:
  assumes "distinct (map sp_Name (map serviceSpecFromAuthority (lm_Services m)))" "service \<in> set (map serviceSpecFromAuthority (lm_Services m))"
    "authorityByName m (sp_Name service) = Some a"
  shows "a \<in> set (lm_Services m) \<and> service = serviceSpecFromAuthority a"
proof -
  have "distinct (map sa_Name (lm_Services m))" using assms(1) by (simp add: comp_def)
  moreover have "a \<in> set (lm_Services m)" "sa_Name a = sp_Name service" using assms(3) map_of_SomeD[of "map (\<lambda>a. (sa_Name a, a)) (lm_Services m)"] by (fastforce simp: authorityByName_def)+
  ultimately show ?thesis using assms(2) by (auto simp: distinct_map inj_on_def)
qed

lemma ok_apply_plan:
  assumes m: "m \<in> set ms" and v: "Manifest_Validate lib m = None" and ready: "\<And>p. p \<in> set ps \<Longrightarrow> ready lib Fetch m p"
    and l: "Listed labels containers \<in> set (sv_log s)"
    and stale: "set stale \<subseteq> set containers" "\<And>c. c \<in> set stale \<Longrightarrow> ContainsLabels (ct_Labels c) (OwnershipScopeLabels m)"
    and old: "\<And>p. p \<in> set ps \<Longrightarrow> set (pd_old p) \<subseteq> set containers"
      "\<And>p c. p \<in> set ps \<Longrightarrow> c \<in> set (pd_old p) \<Longrightarrow> ContainsLabels (ct_Labels c) (OwnershipScopeLabels m)"
  shows "ok (justified lib Fetch ms []) (apply_plan lib rt m (serviceByName services) stale reused ps) s (\<lambda>r s'.
    rr_Created r = map (\<lambda>p. sp_Name (pd_service p)) ps \<and> rr_Reused r = reused \<and> (\<forall>p \<in> set ps. provided lib Fetch m (sv_log s') (pd_authority p)))"
  unfolding apply_plan_def
proof (intro ok_abind[OF ok_remove_all[OF m l stale]])
  fix u :: unit and s1 :: "'a Supervisor" assume sub: "set (sv_log s) \<subseteq> set (sv_log s1)"
  show "ok (justified lib Fetch ms []) (abind (aiter (create_service lib rt m (serviceByName services)) ps) (\<lambda>_.
     aret \<lparr>rr_Created = map (\<lambda>p. sp_Name (pd_service p)) ps, rr_Removed = length stale + length (concat (map pd_old ps)), rr_Reused = reused,
       rr_FetchedKeys = uniqueStrings (sort (concat (map (\<lambda>p. map mk_Name (sa_Keys (pd_authority p))) ps)))\<rparr>)) s1 (\<lambda>r s'.
    rr_Created r = map (\<lambda>p. sp_Name (pd_service p)) ps \<and> rr_Reused r = reused \<and> (\<forall>p \<in> set ps. provided lib Fetch m (sv_log s') (pd_authority p)))"
  proof (rule ok_abind[OF ok_aiter])
    fix p and s2 :: "'a Supervisor" assume p: "p \<in> set ps" and "set (sv_log s1) \<subseteq> set (sv_log s2)"
    then have "Listed labels containers \<in> set (sv_log s2)" using l sub by blast
    then show "ok (justified lib Fetch ms []) (create_service lib rt m (serviceByName services) p) s2 (\<lambda>_ s'. provided lib Fetch m (sv_log s') (pd_authority p))"
      using p by (intro ok_create_service[OF m ready serviceByName_name]) (auto dest: old)
  qed (auto intro: provided_mono)
qed simp

text \<open>Every service of the manifest is up.\<close>

definition all_up :: "launch_lib \<Rightarrow> fetcher \<Rightarrow> Manifest \<Rightarrow> ReconcileResult \<Rightarrow> action list \<Rightarrow> bool" where
  "all_up lib Fetch m r log \<longleftrightarrow> mset (rr_Reused r) + mset (rr_Created r) = mset (map sa_Name (lm_Services m))
     \<and> list_all (\<lambda>a. (sa_Name a \<in> set (rr_Reused r) \<and> seen_up lib m log (sa_Name a)) \<or> (sa_Name a \<in> set (rr_Created r) \<and> provided lib Fetch m log a)) (lm_Services m)"

lemma all_upI:
  assumes "distinct (map sa_Name (lm_Services m))" "mset (rr_Reused r) + mset (rr_Created r) = mset (map sa_Name (lm_Services m))"
    "\<forall>n \<in> set (rr_Reused r). seen_up lib m log n" "rr_Created r = map (\<lambda>p. sa_Name (pd_authority p)) ps"
    "\<forall>p \<in> set ps. pd_authority p \<in> set (lm_Services m) \<and> provided lib Fetch m log (pd_authority p)"
  shows "all_up lib Fetch m r log"
proof -
  have sets: "set (rr_Reused r) \<union> set (rr_Created r) = sa_Name ` set (lm_Services m)"
    using assms(2) by (metis set_map set_mset_mset set_mset_union)
  have "(sa_Name a \<in> set (rr_Reused r) \<and> seen_up lib m log (sa_Name a)) \<or> (sa_Name a \<in> set (rr_Created r) \<and> provided lib Fetch m log a)" if a: "a \<in> set (lm_Services m)" for a
  proof (cases "sa_Name a \<in> set (rr_Reused r)")
    case False
    then have c: "sa_Name a \<in> set (rr_Created r)" using sets a by blast
    then obtain p where p: "p \<in> set ps" "sa_Name (pd_authority p) = sa_Name a" using assms(4) by auto
    then have "pd_authority p = a" using assms(1,5) a by (auto simp: distinct_map inj_on_def)
    then show ?thesis using c p(1) assms(5) by blast
  qed (use assms(3) in blast)
  then show ?thesis using assms(2) by (auto simp: all_up_def list_all_iff)
qed

lemma all2_from: "list_all2 P xs ys \<Longrightarrow> y \<in> set ys \<Longrightarrow> \<exists>x \<in> set xs. P x y"
  by (induction rule: list_all2_induct) auto

lemma ok_carry_out:
  assumes m: "m \<in> set ms" and v: "Manifest_Validate lib m = None" and services: "services = map serviceSpecFromAuthority (lm_Services m)"
    and o: "OrderServices services = Inr ordered" and l: "Listed labels containers \<in> set (sv_log s)"
  shows "ok (justified lib Fetch ms []) (carry_out lib rt Fetch m services containers ordered) s (\<lambda>r s'. all_up lib Fetch m r (sv_log s'))"
  unfolding carry_out_def
proof (rule ok_abind[OF ok_plan_services[OF m]])
  have d: "distinct (map sp_Name services)" "mset ordered = mset services" using ordered_services[OF o] by auto
  let ?old = "\<lambda>name. filter (\<lambda>c. ct_Name c = name \<and> matching lib m (serviceByName services) c) containers"
  fix plan :: "string list \<times> pending list" and s1 :: "'a Supervisor"
  assume plan: "(case plan of (reused, ps) \<Rightarrow> (\<lambda>s1. mset reused + mset (map (\<lambda>p. sp_Name (pd_service p)) ps) = mset (map sp_Name ordered) \<and> (\<forall>n \<in> set reused. seen_up lib m (sv_log s1) n)
      \<and> (\<forall>p \<in> set ps. pd_service p \<in> set ordered \<and> authorityByName m (sp_Name (pd_service p)) = Some (pd_authority p) \<and> pd_old p = ?old (sp_Name (pd_service p))))) s1"
    and sub: "set (sv_log s) \<subseteq> set (sv_log s1)"
  obtain reused ps where r: "plan = (reused, ps)" by fastforce
  have auth: "pd_authority p \<in> set (lm_Services m) \<and> pd_service p = serviceSpecFromAuthority (pd_authority p)" if "p \<in> set ps" for p
    using authority_of_service[of m "pd_service p" "pd_authority p"] plan that d mset_eq_setD[OF d(2)] unfolding r services by auto
  show "ok (justified lib Fetch ms []) (case plan of (reused, ps) \<Rightarrow> abind (aeither (fetch_all Fetch ps)) (\<lambda>ps.
     apply_plan lib rt m (serviceByName services) (filter (stale_owned m (serviceByName services)) containers) reused ps)) s1 (\<lambda>r s'. all_up lib Fetch m r (sv_log s'))"
    unfolding r prod.case
  proof (rule ok_abind[OF ok_aeither[where Q = "\<lambda>ps' s'. fetch_all Fetch ps = Inr ps' \<and> s' = s1"]], simp)
    fix ps' :: "pending list" and s2 :: "'a Supervisor" assume "fetch_all Fetch ps = Inr ps' \<and> s2 = s1"
    then have f: "list_all2 (\<lambda>p p'. pd_service p' = pd_service p \<and> pd_authority p' = pd_authority p \<and> pd_old p' = pd_old p
      \<and> FetchSecrets Fetch (sa_Keys (pd_authority p)) = Inr (pd_values p')) ps ps'" and s2: "s2 = s1" using fetch_all_Inr by blast+
    have same: "map pd_service ps' = map pd_service ps" using f by (induction rule: list_all2_induct) auto
    have ready: "ready lib Fetch m p' \<and> pd_old p' = ?old (sp_Name (pd_service p'))" if "p' \<in> set ps'" for p'
    proof -
      obtain p where p: "p \<in> set ps" "pd_service p' = pd_service p \<and> pd_authority p' = pd_authority p \<and> pd_old p' = pd_old p
        \<and> FetchSecrets Fetch (sa_Keys (pd_authority p)) = Inr (pd_values p')" using all2_from[OF f \<open>p' \<in> set ps'\<close>] by blast
      have "pd_old p = ?old (sp_Name (pd_service p))" using plan p(1) unfolding r by simp
      then show ?thesis using auth[OF p(1)] p(2) v by (simp add: ready_def)
    qed
    have l2: "Listed labels containers \<in> set (sv_log s2)" using l sub s2 by blast
    show "ok (justified lib Fetch ms []) (apply_plan lib rt m (serviceByName services)
        (filter (stale_owned m (serviceByName services)) containers) reused ps') s2 (\<lambda>r s'. all_up lib Fetch m r (sv_log s'))"
    proof (rule ok_post[OF ok_apply_plan[OF m v _ l2]])
      fix r :: ReconcileResult and s5 :: "'a Supervisor"
      assume r': "rr_Created r = map (\<lambda>p. sp_Name (pd_service p)) ps' \<and> rr_Reused r = reused \<and> (\<forall>p \<in> set ps'. provided lib Fetch m (sv_log s5) (pd_authority p))"
        and sub2: "set (sv_log s2) \<subseteq> set (sv_log s5)"
      have c: "rr_Created r = map (\<lambda>p. sa_Name (pd_authority p)) ps'" using r' ready by (auto simp: ready_def)
      have "rr_Created r = map (\<lambda>p. sp_Name (pd_service p)) ps" using r' arg_cong[OF same, of "map sp_Name"] by (simp add: comp_def)
      then have "mset (rr_Reused r) + mset (rr_Created r) = mset (map sp_Name ordered)" using r' plan unfolding r by simp
      also have "\<dots> = mset (map sa_Name (lm_Services m))" using d(2) unfolding services mset_map by (simp add: multiset.map_comp comp_def)
      finally have "mset (rr_Reused r) + mset (rr_Created r) = mset (map sa_Name (lm_Services m))" .
      moreover have "\<forall>n \<in> set (rr_Reused r). seen_up lib m (sv_log s5) n" using plan r' sub2 seen_up_mono unfolding r s2 by auto
      moreover have "distinct (map sa_Name (lm_Services m))" using d(1) unfolding services by (simp add: comp_def)
      moreover have "\<forall>p \<in> set ps'. pd_authority p \<in> set (lm_Services m) \<and> provided lib Fetch m (sv_log s5) (pd_authority p)" using r' ready by (auto simp: ready_def)
      ultimately show "all_up lib Fetch m r (sv_log s5)" using c all_upI by blast
    qed (auto simp: ready dest: owned_containers[OF v])
  qed
qed

lemma ok_Reconcile:
  assumes m: "m \<in> set ms"
  shows "ok (justified lib Fetch ms []) (Reconcile lib rt Fetch now model m) s (\<lambda>r s'. all_up lib Fetch m r (sv_log s'))"
proof -
  let ?J = "justified lib Fetch ms []"
  have checked: "ok ?J (acheck (ValidateManifestModel lib m rendered)) s' (\<lambda>_ _. ValidateManifestModel lib m rendered = None)" for rendered and s' :: "'a Supervisor" by auto
  have ordered: "ok ?J (aeither (OrderServices services)) s' (\<lambda>ordered s2. OrderServices services = Inr ordered)" for services and s' :: "'a Supervisor" by auto
  have pass: "ok ?J (acheck e) s' (\<lambda>_ _. True)" for e and s' :: "'a Supervisor" by auto
  have render: "ok ?J (do_render rt model) s' (\<lambda>_ _. True)" for s' unfolding do_render_def by (rule ok_quiet)
  show ?thesis unfolding Reconcile_def
    by (intro ok_abind[OF pass] ok_abind[OF render] ok_abind[OF checked] ok_abind[OF ok_list[OF m]] ok_abind[OF ordered])
      (auto intro!: ok_carry_out[OF m] dest!: model_services)
qed

subsection \<open>The loop\<close>

lemma ok_ScavengeOrphans:
  assumes "m \<in> set ms"
  shows "ok (justified lib Fetch ms []) (ScavengeOrphans rt (OwnershipLabels lib m)) s (\<lambda>_ _. True)"
proof (cases "OwnershipLabels lib m = []")
  case False
  then have v: "Manifest_Validate lib m = None" by (auto simp: OwnershipLabels_def AuthorityDigest_def split: sum.splits option.splits)
  have owned: "ExactLabels labels (OwnershipLabels lib m) \<Longrightarrow> ContainsLabels labels (OwnershipScopeLabels m)" for labels
    using scope_of_ownership(1)[OF v] by (simp add: ExactLabels_def ContainsLabels_def)
  show ?thesis unfolding ScavengeOrphans_def using False
    by (auto intro!: ok_abind[OF ok_list[OF assms]] ok_abind[OF ok_remove_all[OF assms]] dest: owned)
qed (auto simp: ScavengeOrphans_def)

lemma ok_recover_with:
  assumes "m \<in> set ms"
  shows "ok (justified lib Fetch ms []) (recover_with lib rt Fetch now model m ws) s (\<lambda>_ _. True)"
proof -
  have once: "ok (justified lib Fetch ms []) (caught (abind (ScavengeOrphans rt (OwnershipLabels lib m)) (\<lambda>_. Reconcile lib rt Fetch now model m))) s (\<lambda>_ _. True)" for now s
    by (intro ok_caught ok_abind[OF ok_ScavengeOrphans[OF assms]]) (auto intro: ok_post[OF ok_Reconcile[OF assms]])
  show ?thesis
  proof (induction ws arbitrary: now s)
    case Nil
    show ?case by (auto intro!: ok_abind[OF once] split: sum.split)
  next
    case (Cons w ws)
    then show ?case by (cases w) (auto intro!: ok_abind[OF once] split: sum.split)
  qed
qed

lemma ok_reconcileWithRecovery:
  assumes "m \<in> set ms"
  shows "ok (justified lib Fetch ms []) (reconcileWithRecovery lib rt Fetch now waits model m) s (\<lambda>_ _. True)"
proof (cases waits)
  case None
  then show ?thesis unfolding reconcileWithRecovery_def
    by (auto intro!: ok_abind[OF ok_ScavengeOrphans[OF assms]] ok_abind[OF ok_Reconcile[OF assms]])
qed (auto simp: reconcileWithRecovery_def intro: ok_recover_with[OF assms])

text \<open>The manifests a run can come to use: its own, and those it was given that renew it.\<close>

definition renews :: "launch_lib \<Rightarrow> Manifest \<Rightarrow> supervisor_tick \<Rightarrow> Manifest \<Rightarrow> bool" where
  "renews lib m0 t m \<longleftrightarrow> tk_reload t = Some (Inr m) \<and> AuthorityDigest lib m = AuthorityDigest lib m0 \<and> lm_ExpiresAt m0 \<le> lm_ExpiresAt m \<and> live m (tk_now t)"

definition reloaded :: "supervisor_tick list \<Rightarrow> Manifest list" where
  "reloaded ts = concat (map (\<lambda>t. case tk_reload t of Some (Inr m) \<Rightarrow> [m] | _ \<Rightarrow> []) ts)"

definition manifests_of :: "launch_lib \<Rightarrow> Manifest \<Rightarrow> supervisor_tick list \<Rightarrow> Manifest list" where
  "manifests_of lib m0 ts = m0 # filter (\<lambda>m. list_ex (\<lambda>t. renews lib m0 t m) ts) (reloaded ts)"

lemma manifests_of_renewal:
  assumes "t \<in> set ts" "renews lib m0 t m"
  shows "m \<in> set (manifests_of lib m0 ts)"
proof -
  have "m \<in> set (reloaded ts)" using assms by (auto simp: reloaded_def renews_def intro!: bexI[of _ t])
  then show ?thesis using assms by (auto simp: manifests_of_def list_ex_iff)
qed

text \<open>A manifest in use is the first one or renews it.\<close>

definition in_use :: "launch_lib \<Rightarrow> Manifest \<Rightarrow> supervisor_tick list \<Rightarrow> Manifest \<Rightarrow> bool" where
  "in_use lib m0 ts m \<longleftrightarrow> m = m0 \<or> (\<exists>t \<in> set ts. renews lib m0 t m)"

lemma in_use_manifests: "in_use lib m0 ts m \<Longrightarrow> m \<in> set (manifests_of lib m0 ts)"
  by (auto simp: in_use_def manifests_of_renewal) (simp add: manifests_of_def)

lemma in_use_refresh:
  assumes "in_use lib m0 ts m" "t \<in> set ts"
  shows "in_use lib m0 ts (refreshManifest lib (tk_reload t) (tk_now t) m)"
proof (cases "refreshManifest lib (tk_reload t) (tk_now t) m = m")
  case False
  then obtain c where c: "tk_reload t = Some (Inr c)" "AcceptRenewal lib m c (tk_now t) = None" "refreshManifest lib (tk_reload t) (tk_now t) m = c"
    by (auto simp: refreshManifest_def split: option.splits sum.splits)
  then have "AuthorityDigest lib c = AuthorityDigest lib m" "lm_ExpiresAt m \<le> lm_ExpiresAt c" "live c (tk_now t)" by (auto simp: accept_iff AuthorityDigest_def)
  moreover have "AuthorityDigest lib m = AuthorityDigest lib m0" "lm_ExpiresAt m0 \<le> lm_ExpiresAt m" using assms(1) by (auto simp: in_use_def renews_def)
  ultimately have "renews lib m0 t c" using c(1) by (simp add: renews_def)
  then show ?thesis using assms(2) c(3) by (auto simp: in_use_def)
qed (use assms(1) in simp)

lemma ok_run_ticks:
  assumes "set ts' \<subseteq> set ts" "in_use lib m0 ts m"
  shows "ok (justified lib Fetch (manifests_of lib m0 ts) []) (run_ticks lib rt Fetch model m ts') s (\<lambda>_ _. True)"
  using assms
proof (induction ts' arbitrary: m s)
  case (Cons t ts')
  let ?m = "refreshManifest lib (tk_reload t) (tk_now t) m"
  have u: "in_use lib m0 ts ?m" using in_use_refresh Cons.prems by simp
  show ?case unfolding run_ticks.simps Let_def
    by (intro ok_abind[OF ok_sessions(3)] ok_abind[OF ok_reconcileWithRecovery[OF in_use_manifests[OF u]]] Cons.IH u) (use Cons.prems in simp)
qed auto

lemma ok_Supervisor_Run: "ok (justified lib Fetch (manifests_of lib m ts) []) (Supervisor_Run lib rt Fetch model m t ts) s (\<lambda>_ _. True)"
proof -
  have u: "in_use lib m ts m" by (simp add: in_use_def)
  have "ok (justified lib Fetch (manifests_of lib m ts) []) (abind (reconcileWithRecovery lib rt Fetch (tk_now t) (tk_waits t) model m) (\<lambda>_. run_ticks lib rt Fetch model m ts)) s (\<lambda>_ _. True)"
    by (intro ok_abind[OF ok_reconcileWithRecovery[OF in_use_manifests[OF u]]] ok_run_ticks u) simp
  then show ?thesis by (auto simp: ok_def Supervisor_Run_def Supervisor_Close_def split: prod.splits)
qed

text \<open>
  C13: whatever the container runtime and the sources of manifests answer, everything a supervisor does is justified by its manifest or by a renewal of it that was live when it was adopted. It creates only containers of
  services the manifest lists, with the labels of the launch, after each dependency was seen running, healthy and labelled as part of the launch. It sends secrets only to a container it created for that service and
  started, and exactly the secrets the manifest grants that service. It kills only containers it created, and removes only those and containers listed with the labels of its runtime and role.
\<close>

theorem supervisor_actions_justified:
  "justified lib Fetch (manifests_of lib m ts) [] (sv_log (fst (Supervisor_Run lib rt Fetch model m t ts (NewSupervisor w))))"
  using ok_Supervisor_Run[of lib Fetch m ts rt model t "NewSupervisor w"] by (auto simp: ok_def NewSupervisor_def split: prod.splits)


subsection \<open>Containers are recognised\<close>

lemma check_secret_keys_names: "check_keys env used prev keys = None \<Longrightarrow> check_secret_keys prev (map mk_Name keys) = None"
  by (induction keys arbitrary: used prev) (auto split: if_splits)

lemma check_code:
  "check_environment lib code env = None \<longleftrightarrow> check_environment lib code' env = None" "check_labels lib code env = None \<longleftrightarrow> check_labels lib code' env = None"
  by (auto simp: check_environment_def check_labels_def check_all_None split: if_splits)

lemma authority_spec_valid:
  assumes "validateServiceAuthority lib a = None"
  shows "validateServiceSpec lib (serviceSpecFromAuthority a) = None"
  using assms check_secret_keys_names[of "items (sa_Environment a)" "[]" "[]" "sa_Keys a"] check_code[of lib ErrInvalidInput _ ErrRuntime]
  by (auto simp: validateServiceAuthority_def validateServiceSpec_def serviceSpecFromAuthority_def items_def[of "Some x" for x] split: if_splits)

lemma merge_labels_length: "merge_labels m labels = Some merged \<Longrightarrow> length merged = length m + length labels"
proof (induction m labels rule: merge_labels.induct)
  case (2 m key val labels)
  then have "key \<notin> fst ` set m" by (auto simp: map_of_eq_None_iff split: if_splits)
  then have "filter (\<lambda>e. fst e \<noteq> key) m = m" by (auto simp: filter_id_conv image_iff)
  then have "length (map_put (key, val) m) = Suc (length m)" by (simp add: map_put_def)
  then show ?case using 2 by (auto split: if_splits)
qed simp

lemma LaunchLabels_contains:
  assumes "\<forall>(k, v) \<in> set (LaunchLabels lib m spec). get labels k = v"
  shows "ContainsLabels labels (LaunchLabels lib m spec)"
  using assms by (auto simp: ContainsLabels_def list_all_iff)

lemma same_authority:
  assumes "without_window renewed = without_window m"
  shows "AuthorityBytes renewed = AuthorityBytes m \<and> lm_RuntimeID renewed = lm_RuntimeID m \<and> lm_Role renewed = lm_Role m \<and> lm_Generation renewed = lm_Generation m \<and> lm_Nonce renewed = lm_Nonce m"
proof -
  note same = arg_cong[OF assms]
  show ?thesis using same[of lm_RuntimeID] same[of lm_Role] same[of lm_Generation] same[of lm_Nonce] same[of marshal_manifest]
    unfolding AuthorityBytes_def without_window_def by simp
qed

text \<open>What the container of a service is labelled with.\<close>

lemma created_labels:
  assumes "Manifest_Validate lib m = None" "a \<in> set (lm_Services m)" "merge_labels base (LaunchLabels lib m (serviceSpecFromAuthority a)) = Some merged"
  shows "currentOwnedGeneration lib merged m (sa_Name a) \<and> \<not> ExactLabels merged (OwnershipLabels lib m)"
proof -
  have "ContainsLabels merged (LaunchLabels lib m (serviceSpecFromAuthority a))"
    by (rule LaunchLabels_contains[OF conjunct1[OF merge_labels_Some[OF assms(3) LaunchLabels_distinct]]])
  moreover have "sa_Name a \<noteq> []" using valid_services[OF assms(1)] assms(2) by (auto simp: list_all_iff validateServiceAuthority_def validServiceName_def split: if_splits)
  moreover have "length merged = length base + length (LaunchLabels lib m (serviceSpecFromAuthority a))" using merge_labels_length[OF assms(3)] .
  ultimately show ?thesis using assms(1)
    by (simp add: currentOwnedGeneration_def LaunchLabels_def ExactLabels_def OwnershipLabels_def AuthorityDigest_def map_put_def label_defs)
qed


text \<open>
  The state column of \<open>docker ps\<close> says \<open>running\<close> of a container that runs, which does not begin with \<open>up\<close>: a container Docker lists is never taken to be running,
  so that no service is ever reused.
\<close>

lemma listed_container_is_not_running:
  assumes "dl_row dl (TrimSpace line) = Some row" "TrimSpace line \<noteq> []" "row_ID row \<noteq> []" "row_State row = ''running''"
  shows "\<exists>c. parse_rows dl [line] = Inr [c] \<and> \<not> ct_Running c \<and> reusable lib rt m service [c] s = (s, Inr False)"
proof -
  have "ToLower (dl_lower dl) ''running'' = ''running''" by (simp add: ToLower_def is_ascii_def lower_byte_def is_upper_def less_eq_char_def)
  then show ?thesis using assms by (simp add: reusable_def aret_def HasPrefix_def)
qed

text \<open>A service without labels, which every check accepts, makes \<open>Create\<close> write to a \<open>nil\<close> map.\<close>

lemma create_without_labels_panics:
  assumes "validateServiceAuthority lib a = None" "sa_Labels a = None" "dr_ManifestMount d = None"
  shows "Docker_Create lib dl d (serviceSpecFromAuthority a) (LaunchLabels lib m (serviceSpecFromAuthority a)) = Inl (OtherError ''panic: assignment to entry in nil map'')"
  using authority_spec_valid[OF assms(1)] assms(2,3) by (simp add: Docker_Create_def LaunchLabels_def map_put_def serviceSpecFromAuthority_def)

subsection \<open>An example\<close>

definition launch_example :: launch_lib where
  "launch_example = example_lib\<lparr>ll_sha := (\<lambda>_. replicate 32 (CHR 0xDD))\<rparr>"

definition example_model :: RenderedModel where
  "example_model = \<lparr>rm_RuntimeID = ''prod'', rm_ComposeDigest = digest_of (CHR ''d''), rm_Services = [serviceSpecFromAuthority example_service]\<rparr>"

definition example_runtime :: "unit Runtime" where
  "example_runtime = \<lparr>rt_Render = (\<lambda>model w. (w, Inr model)), rt_List = (\<lambda>_ w. (w, Inr [])), rt_Inspect = (\<lambda>_ w. (w, Inl (fail ErrRuntime))),
     rt_Create = (\<lambda>spec labels w. (w, Inr \<lparr>ct_ID = ''c1'', ct_Name = sp_Name spec, ct_Labels = labels, ct_Running = False, ct_Healthy = False\<rparr>)),
     rt_Attach = (\<lambda>_ w. (w, Inr ())), rt_Start = (\<lambda>_ w. (w, Inr ())), rt_Kill = (\<lambda>_ w. (w, Inr ())), rt_Remove = (\<lambda>_ w. (w, Inr ())),
     rt_Send = (\<lambda>_ _ _ _ w. (w, Inr ()))\<rparr>"

lemma launch_example_service: "validateServiceAuthority launch_example = validateServiceAuthority example_lib"
  by (rule ext) (simp add: launch_example_def validateServiceAuthority_def check_environment_def check_labels_def secretLikeName_def)

lemma launch_example_services: "check_services launch_example prev ss = check_services example_lib prev ss"
  by (induction ss arbitrary: prev) (simp_all add: launch_example_service)

lemma launch_example_same: "Manifest_Validate launch_example m = Manifest_Validate example_lib m"
  by (simp add: Manifest_Validate_def launch_example_services)

lemma example_spec_valid: "validateServiceSpec launch_example (serviceSpecFromAuthority example_service) = None"
  by (rule authority_spec_valid) (simp add: launch_example_service example_service_valid)

lemma example_digest: "hex_digest launch_example data = digest_of (CHR ''d'')"
proof -
  have "hex_EncodeToString (replicate 32 (CHR 0xDD)) = replicate 64 (CHR ''d'')" by code_simp
  then show ?thesis by (simp add: hex_digest_def launch_example_def digest_of_def)
qed

lemma example_model_valid: "ValidateManifestModel launch_example example_manifest example_model = None"
proof -
  have "validServiceName ''prod''" by (simp add: name_checks)
  then have "ValidateRenderedModel launch_example example_model = None"
    using example_spec_valid by (simp add: ValidateRenderedModel_def ModelDigest_def example_digest validateModelStructure_def example_model_def serviceSpecFromAuthority_def example_service_def)
  then show ?thesis using example_valid(1) by (simp add: ValidateManifestModel_def launch_example_same example_model_def example_manifest_def)
qed

definition example_docker :: docker_lib where
  "example_docker = \<lparr>dl_run = (\<lambda>_ _. Some ''4f2a''), dl_row = (\<lambda>_. None), dl_inspect = (\<lambda>_. None), dl_dir = (\<lambda>_. None), dl_lower = id, dl_fold = (\<lambda>a b. a = b)\<rparr>"


lemma example_order: "OrderServices [serviceSpecFromAuthority example_service] = Inr [serviceSpecFromAuthority example_service]"
  by (simp add: OrderServices_def serviceByName_def serviceSpecFromAuthority_def example_service_def items_def)

lemma example_reconcile:
  "\<exists>s'. Reconcile launch_example example_runtime example_fetch (time_Unix 1200) example_model example_manifest (NewSupervisor ()\<lparr>sv_sessions := []\<rparr>)
     = (s', Inr \<lparr>rr_Created = [''api''], rr_Removed = 0, rr_Reused = [], rr_FetchedKeys = [''APP_TOKEN'']\<rparr>)"
proof -
  have v: "ValidateAt launch_example example_manifest (time_Unix 1200) = None"
    using example_valid(1) by (simp add: ValidateAt_iff launch_example_same live_def Unix_time example_manifest_def)
  have a: "authorityByName example_manifest ''api'' = Some example_service" by (simp add: authorityByName_def example_manifest_def example_service_def)
  have n: "sp_Name (serviceSpecFromAuthority example_service) = ''api''" "items (sp_Dependencies (serviceSpecFromAuthority example_service)) = []"
    by (simp_all add: serviceSpecFromAuthority_def example_service_def items_def)
  have k: "map mk_Name (sa_Keys example_service) = [''APP_TOKEN'']" by (simp add: example_service_def)
  show ?thesis
    using v example_model_valid example_fetched example_order a n k
    by (simp add: Reconcile_def abind_def acheck_def aret_def aeither_def do_render_def do_list_def call_def on_success_def example_runtime_def NewSupervisor_def
        validateDependencies_def example_model_def carry_out_def reusable_def apply_plan_def create_service_def checkDependencies_def bring_up_def start_and_send_def send_to_def
        caught_def do_create_def do_attach_def do_start_def do_send_def trackSession_def uniqueStrings_def)
qed


end
