(* ===== verification/Compose_Gen.thy ===== *)
theory Compose_Gen
  imports Launch_Runtime
begin

text \<open>
  The offline generator of a launch, \<open>src/cmd/skret-compose-gen/main.go\<close>: from a resolved compose file and options it builds the authority of each service, the rendered model, the signed manifest and
  the trust document, writes the three files and checks them the way the supervisor will.

  Parameters (\<open>gen_lib\<close>): the file with the compose description decoded by YAML, the key files, \<open>json.Unmarshal\<close> of an array of strings, \<open>time.ParseDuration\<close>, \<open>strconv.ParseFloat\<close> as
  a number of nanoseconds, \<open>ed25519.NewKeyFromSeed\<close>, the random nonce, and the disk: what reading gives after the files were written. A message is its format with the arguments.
\<close>

subsection \<open>Values that may be errors\<close>

datatype gen_error = GenMsg string "string list" | GenWrap string gen_error | GenLaunch string LaunchError

definition eithen :: "'e + 'a \<Rightarrow> ('a \<Rightarrow> 'e + 'b) \<Rightarrow> 'e + 'b" where
  "eithen r f = (case r of Inl e \<Rightarrow> Inl e | Inr x \<Rightarrow> f x)"

definition wrap_err :: "('e \<Rightarrow> 'e2) \<Rightarrow> 'e + 'a \<Rightarrow> 'e2 + 'a" where
  "wrap_err f r = (case r of Inl e \<Rightarrow> Inl (f e) | Inr x \<Rightarrow> Inr x)"

fun fold_either :: "('a \<Rightarrow> 's \<Rightarrow> 'e + 's) \<Rightarrow> 'a list \<Rightarrow> 's \<Rightarrow> 'e + 's" where
  "fold_either f [] s = Inr s"
| "fold_either f (x # xs) s = eithen (f x s) (fold_either f xs)"

text \<open>The entries of a map in ascending order of its keys.\<close>

definition sortedKeys :: "string list \<Rightarrow> string list" where
  "sortedKeys xs = sort (remdups xs)"

definition map_entries :: "smap \<Rightarrow> smap" where
  "map_entries m = map (\<lambda>k. (k, get m k)) (sortedKeys (map fst m))"

subsection \<open>Options\<close>

record gen_options =
  go_composePath :: string
  go_services :: string
  go_runtimeID :: string
  go_outDir :: string
  go_manifestRole :: string
  go_signKeyID :: string
  go_generation :: "64 word"
  go_ttl :: int
  go_now :: int
  go_nonce :: string
  go_helperDigest :: string
  go_superDigest :: string
  go_defaultUser :: string
  go_helperPath :: string
  go_manifestPath :: string
  go_trustPath :: string
  go_secretVersion :: string
  go_healthCmd :: string
  go_healthInt :: int
  go_healthTO :: int
  go_healthRetries :: "64 word"
  go_hbInterval :: int
  go_hbTimeout :: int
  go_keys :: "string list"
  go_pubkeys :: "string list"
  go_roles :: "string list"
  go_runtimeIDs :: "string list"
  go_wrapperDigests :: "string list"
  go_images :: "string list"
  go_secrets :: "string list"
  go_childArgv :: "string list"
  go_childUser :: "string list"
  go_healthCmds :: "string list"
  go_keyVersions :: "string list"

subsection \<open>The compose file\<close>

datatype yaml_kind = NoNode | ScalarNode | SequenceNode | MappingNode | OtherNode

datatype yaml_node = Node (yn_Kind: yaml_kind) (yn_Tag: string) (yn_Value: string) (yn_Content: "yaml_node list")

record composeHealth =
  ch_Test :: yaml_node
  ch_Interval :: string
  ch_Timeout :: string
  ch_Retries :: "32 word"
  ch_Disable :: bool

record composeService =
  cps_Image :: string
  cps_User :: string
  cps_Command :: yaml_node
  cps_Entrypoint :: yaml_node
  cps_Environment :: yaml_node
  cps_Labels :: yaml_node
  cps_Networks :: yaml_node
  cps_DependsOn :: yaml_node
  cps_Restart :: string
  cps_Healthcheck :: "composeHealth option"

type_synonym composeFile = "(string \<times> composeService) list"

record gen_lib =
  gl_compose :: "string \<Rightarrow> gen_error + composeFile"
  gl_file :: "string \<Rightarrow> string option option"
  gl_strings :: "string \<Rightarrow> string list option"
  gl_ParseDuration :: "string \<Rightarrow> int option"
  gl_ParseSeconds :: "string \<Rightarrow> int option"
  gl_seed :: "string \<Rightarrow> string"
  gl_nonce :: string
  gl_disk :: "smap \<Rightarrow> (string \<Rightarrow> string option) option"

definition loadCompose :: "gen_lib \<Rightarrow> string \<Rightarrow> gen_error + composeFile" where
  "loadCompose gl path = eithen (gl_compose gl path) (\<lambda>compose.
     if compose = [] then Inl (GenMsg ''compose file declares no services'' []) else Inr compose)"

fun select_loop :: "composeFile \<Rightarrow> string list \<Rightarrow> gen_error + string list" where
  "select_loop compose [] = Inr []"
| "select_loop compose (n # ns) =
     (let name = TrimSpace n
      in if name = [] then select_loop compose ns
         else if map_of compose name = None then Inl (GenMsg ''service %q not present in compose file'' [name])
         else eithen (select_loop compose ns) (\<lambda>names. Inr (name # names)))"

definition selectServices :: "composeFile \<Rightarrow> string \<Rightarrow> gen_error + string list" where
  "selectServices compose csv = eithen (select_loop compose (Split (CHR '','') csv)) (\<lambda>names.
     if names = [] then Inl (GenMsg ''--services selected nothing'' []) else Inr (sort names))"

definition no_node :: "yaml_node \<Rightarrow> bool" where
  "no_node node \<longleftrightarrow> yn_Kind node = NoNode \<or> yn_Tag node = ''!!null''"

definition scalar_items :: "string \<Rightarrow> yaml_node list \<Rightarrow> gen_error + string list" where
  "scalar_items message content =
     (if list_all (\<lambda>item. yn_Kind item = ScalarNode) content then Inr (map yn_Value content) else Inl (GenMsg message []))"

definition stringOrList :: "yaml_node \<Rightarrow> gen_error + string list" where
  "stringOrList node =
     (if no_node node then Inr []
      else case yn_Kind node of
          ScalarNode \<Rightarrow> Inr [yn_Value node]
        | SequenceNode \<Rightarrow> scalar_items ''expected scalar list item'' (yn_Content node)
        | _ \<Rightarrow> Inl (GenMsg ''expected scalar or list'' []))"

definition commandOrList :: "yaml_node \<Rightarrow> gen_error + string list" where
  "commandOrList node =
     (if no_node node then Inr []
      else if yn_Kind node = ScalarNode then Inr [''/bin/sh'', ''-c'', yn_Value node]
      else stringOrList node)"

fun node_pairs :: "yaml_node list \<Rightarrow> (yaml_node \<times> yaml_node) list" where
  "node_pairs (k # v # rest) = (k, v) # node_pairs rest"
| "node_pairs _ = []"

definition no_value :: "string \<Rightarrow> gen_error" where
  "no_value key = GenMsg ''%s has no value; resolve it with `docker compose config` or map it via --secret'' [key]"

definition map_pair :: "bool \<Rightarrow> yaml_node \<times> yaml_node \<Rightarrow> smap \<Rightarrow> gen_error + smap" where
  "map_pair bareOK kv out = (case kv of (key, val) \<Rightarrow>
     if yn_Tag val = ''!!null''
     then if bareOK then Inr (map_put (yn_Value key, []) out) else Inl (no_value (yn_Value key))
     else Inr (map_put (yn_Value key, yn_Value val) out))"

definition map_item :: "bool \<Rightarrow> yaml_node \<Rightarrow> smap \<Rightarrow> gen_error + smap" where
  "map_item bareOK item out =
     (if yn_Kind item \<noteq> ScalarNode then Inl (GenMsg ''expected KEY=VALUE scalar'' [])
      else case Cut (yn_Value item) (CHR ''='') of (key, val, found) \<Rightarrow>
        if found then Inr (map_put (key, val) out)
        else if bareOK then Inr (map_put (yn_Value item, []) out)
        else Inl (no_value (yn_Value item)))"

text \<open>\<open>None\<close> is the \<open>nil\<close> map.\<close>

definition mapOrList :: "yaml_node \<Rightarrow> bool \<Rightarrow> gen_error + (string \<times> string) nilable" where
  "mapOrList node bareOK =
     (if no_node node then Inr None
      else case yn_Kind node of
          MappingNode \<Rightarrow> eithen (fold_either (map_pair bareOK) (node_pairs (yn_Content node)) []) (\<lambda>out. Inr (Some (map_entries out)))
        | SequenceNode \<Rightarrow> eithen (fold_either (map_item bareOK) (yn_Content node) []) (\<lambda>out. Inr (Some (map_entries out)))
        | _ \<Rightarrow> Inl (GenMsg ''expected mapping or KEY=VALUE list'' []))"

text \<open>A slice nothing was appended to stays \<open>nil\<close>.\<close>

definition listOrMapKeys :: "yaml_node \<Rightarrow> gen_error + string nilable" where
  "listOrMapKeys node =
     (if no_node node then Inr None
      else eithen (case yn_Kind node of
            SequenceNode \<Rightarrow> scalar_items ''expected scalar list item'' (yn_Content node)
          | MappingNode \<Rightarrow> Inr (map (\<lambda>(k, v). yn_Value k) (node_pairs (yn_Content node)))
          | _ \<Rightarrow> Inl (GenMsg ''expected list or mapping'' []))
        (\<lambda>out. Inr (if out = [] then None else Some (sort out))))"

text \<open>Division of Go, towards zero, by a positive number.\<close>

definition go_quot :: "int \<Rightarrow> int \<Rightarrow> int" where
  "go_quot a b = (if 0 \<le> a then a div b else - ((- a) div b))"

definition Millisecond :: int where
  "Millisecond = 1000000"

definition parseDurationMS :: "gen_lib \<Rightarrow> string \<Rightarrow> gen_error + 32 word" where
  "parseDurationMS gl val =
     (if val = [] then Inr 0
      else eithen (case gl_ParseDuration gl val of
            Some d \<Rightarrow> Inr d
          | None \<Rightarrow> (case gl_ParseSeconds gl val of Some d \<Rightarrow> Inr d | None \<Rightarrow> Inl (GenMsg ''duration %q: %w'' [val])))
        (\<lambda>d. if d \<le> 0 \<or> (2 ^ 32 - 1) * Millisecond < d then Inl (GenMsg ''duration %q out of range'' [val])
             else Inr (of_int (go_quot d Millisecond))))"

subsection \<open>Overrides\<close>

record serviceOverrides =
  so_image :: string
  so_wrapper :: string
  so_childArgv :: "string list"
  so_childUser :: string
  so_healthCmd :: "string list"
  so_secrets :: "ManifestKey list"

type_synonym overrides = "string \<Rightarrow> serviceOverrides"

definition no_overrides :: serviceOverrides where
  "no_overrides = \<lparr>so_image = [], so_wrapper = [], so_childArgv = [], so_childUser = [], so_healthCmd = [], so_secrets = []\<rparr>"

definition wrapper_entry :: "string \<Rightarrow> overrides \<times> string \<Rightarrow> gen_error + overrides \<times> string" where
  "wrapper_entry entry st = (case st of (out, globalWrapper) \<Rightarrow> (case Cut entry (CHR ''='') of (name, digest, found) \<Rightarrow>
     if found \<and> HasPrefix digest ''sha256:'' then Inr (out(name := (out name)\<lparr>so_wrapper := digest\<rparr>), globalWrapper)
     else if HasPrefix entry ''sha256:'' then Inr (out, entry)
     else Inl (GenMsg ''--wrapper-digest %q: want sha256:<hex> or service=sha256:<hex>'' [entry])))"

definition image_entry :: "string \<Rightarrow> overrides \<Rightarrow> gen_error + overrides" where
  "image_entry entry out = (case Cut entry (CHR ''='') of (name, img, found) \<Rightarrow>
     if \<not> found then Inl (GenMsg ''--image %q: want service=image@sha256:<hex>'' [entry])
     else Inr (out(name := (out name)\<lparr>so_image := img\<rparr>)))"

definition argv_entry :: "gen_lib \<Rightarrow> string \<Rightarrow> overrides \<Rightarrow> gen_error + overrides" where
  "argv_entry gl entry out = (case Cut entry (CHR ''='') of (name, raw, found) \<Rightarrow>
     if \<not> found then Inl (GenMsg ''--child-argv %q: want service=<json array>'' [entry])
     else case gl_strings gl raw of
         None \<Rightarrow> Inl (GenMsg ''--child-argv %q: invalid json array'' [entry])
       | Some argv \<Rightarrow> if argv = [] then Inl (GenMsg ''--child-argv %q: invalid json array'' [entry])
           else Inr (out(name := (out name)\<lparr>so_childArgv := argv\<rparr>)))"

definition user_entry :: "string \<Rightarrow> overrides \<Rightarrow> gen_error + overrides" where
  "user_entry entry out = (case Cut entry (CHR ''='') of (name, user, found) \<Rightarrow>
     if \<not> found \<or> user = [] then Inl (GenMsg ''--child-user %q: want service=user'' [entry])
     else Inr (out(name := (out name)\<lparr>so_childUser := user\<rparr>)))"

definition health_entry :: "gen_lib \<Rightarrow> string \<Rightarrow> overrides \<Rightarrow> gen_error + overrides" where
  "health_entry gl entry out = (case Cut entry (CHR ''='') of (name, raw, found) \<Rightarrow>
     if \<not> found then Inl (GenMsg ''--health-cmd %q: want service=<json array>'' [entry])
     else case gl_strings gl raw of
         None \<Rightarrow> Inl (GenMsg ''--health-cmd %q: invalid json array'' [entry])
       | Some cmd \<Rightarrow> if cmd = [] then Inl (GenMsg ''--health-cmd %q: invalid json array'' [entry])
           else Inr (out(name := (out name)\<lparr>so_healthCmd := cmd\<rparr>)))"

definition secret_entry :: "gen_options \<Rightarrow> string \<Rightarrow> overrides \<Rightarrow> gen_error + overrides" where
  "secret_entry opt entry out = (case Cut entry (CHR ''='') of (name, rest, found) \<Rightarrow>
     if \<not> found then Inl (GenMsg ''--secret %q: want service=ENV=NAME[:VERSION]'' [entry])
     else case Cut rest (CHR ''='') of (env, keyName, found2) \<Rightarrow>
       if \<not> found2 \<or> env = [] \<or> keyName = [] then Inl (GenMsg ''--secret %q: want service=ENV=NAME[:VERSION]'' [entry])
       else let key = (case Cut keyName (CHR '':'') of (n, version, hasVersion) \<Rightarrow>
              if hasVersion then \<lparr>mk_Name = n, mk_Version = version, mk_Env = env\<rparr> else \<lparr>mk_Name = keyName, mk_Version = go_secretVersion opt, mk_Env = env\<rparr>)
            in Inr (out(name := (out name)\<lparr>so_secrets := so_secrets (out name) @ [key]\<rparr>)))"

definition parseServiceOverrides :: "gen_lib \<Rightarrow> gen_options \<Rightarrow> gen_error + overrides \<times> string" where
  "parseServiceOverrides gl opt =
     eithen (fold_either wrapper_entry (go_wrapperDigests opt) ((\<lambda>_. no_overrides), [])) (\<lambda>(out, globalWrapper).
     eithen (fold_either image_entry (go_images opt) out) (\<lambda>out.
     eithen (fold_either (argv_entry gl) (go_childArgv opt) out) (\<lambda>out.
     eithen (fold_either user_entry (go_childUser opt) out) (\<lambda>out.
     eithen (fold_either (health_entry gl) (go_healthCmds opt) out) (\<lambda>out.
     eithen (fold_either (secret_entry opt) (go_secrets opt) out) (\<lambda>out.
     Inr (out, globalWrapper)))))))"

subsection \<open>Services\<close>

definition secretLike :: "launch_lib \<Rightarrow> string \<Rightarrow> bool" where
  "secretLike lib val \<longleftrightarrow>
     list_ex (Contains (ToUpper (ll_upper lib) val)) [''SECRET'', ''PASSWORD'', ''TOKEN'', ''CREDENTIAL'', ''PRIVATE_KEY'', ''API_KEY'']"

definition gen_validDigest :: "string \<Rightarrow> bool" where
  "gen_validDigest val \<longleftrightarrow> length val = 7 + 64 \<and> HasPrefix val ''sha256:'' \<and> list_all is_lower_hex (drop 7 val)"

definition duration_ms :: "int \<Rightarrow> 32 word" where
  "duration_ms d = of_int (go_quot d Millisecond)"

definition health_test :: "gen_options \<Rightarrow> string list \<Rightarrow> HealthSpec \<Rightarrow> HealthSpec" where
  "health_test opt test health =
     (if test = [] then health
      else let command = (if hd test = ''CMD'' then tl test
               else if hd test = ''CMD-SHELL'' then [''/bin/sh'', ''-c'', Join (tl test) '' '']
               else if hd test = ''NONE'' then hs_Command health
               else test)
           in health\<lparr>hs_Command := (if command = [] then [go_healthCmd opt] else command)\<rparr>)"

definition compose_health :: "gen_lib \<Rightarrow> gen_options \<Rightarrow> composeHealth \<Rightarrow> HealthSpec \<Rightarrow> gen_error + HealthSpec" where
  "compose_health gl opt hc health =
     eithen (wrap_err (GenWrap ''healthcheck.test'') (stringOrList (ch_Test hc))) (\<lambda>test.
     eithen (wrap_err (GenWrap ''healthcheck.interval'') (parseDurationMS gl (ch_Interval hc))) (\<lambda>interval.
     eithen (wrap_err (GenWrap ''healthcheck.timeout'') (parseDurationMS gl (ch_Timeout hc))) (\<lambda>timeout.
     let h1 = health_test opt test health;
         h2 = (if 0 < interval then h1\<lparr>hs_IntervalMS := interval\<rparr> else h1);
         h3 = (if 0 < timeout then h2\<lparr>hs_TimeoutMS := timeout\<rparr> else h2)
     in Inr (if 0 < ch_Retries hc then h3\<lparr>hs_Retries := ch_Retries hc\<rparr> else h3))))"

definition buildHealth :: "gen_lib \<Rightarrow> gen_options \<Rightarrow> composeHealth option \<Rightarrow> serviceOverrides \<Rightarrow> gen_error + HealthSpec" where
  "buildHealth gl opt hc ov =
     eithen (let health = \<lparr>hs_Command = [go_healthCmd opt], hs_IntervalMS = duration_ms (go_healthInt opt), hs_TimeoutMS = duration_ms (go_healthTO opt),
                 hs_Retries = ucast (go_healthRetries opt), hs_HeartbeatIntervalMS = duration_ms (go_hbInterval opt), hs_HeartbeatTimeoutMS = duration_ms (go_hbTimeout opt)\<rparr>
             in case hc of None \<Rightarrow> Inr health | Some h \<Rightarrow> if ch_Disable h then Inr health else compose_health gl opt h health)
       (\<lambda>h. let health = (if so_healthCmd ov \<noteq> [] then h\<lparr>hs_Command := so_healthCmd ov\<rparr> else h)
            in if hs_IntervalMS health = 0 \<or> hs_TimeoutMS health = 0 \<or> hs_Retries health = 0
               then Inl (GenMsg ''health interval, timeout, and retries must be non-zero'' [])
               else if hs_HeartbeatIntervalMS health = 0 \<or> hs_HeartbeatTimeoutMS health < hs_HeartbeatIntervalMS health * HeartbeatSafetyFactor
               then Inl (GenMsg ''heartbeat timeout must be >= %dx heartbeat interval'' [])
               else Inr health)"

text \<open>The environment of a compose service: what is wrong with an entry, and which entries become keys.\<close>

definition check_env_entry :: "string \<times> string \<Rightarrow> gen_error option" where
  "check_env_entry kv = (case kv of (key, val) \<Rightarrow>
     if Contains val ''${'' then Some (GenMsg ''environment %s still contains interpolation; run `docker compose config` first'' [key])
     else if CHR 0x00 \<in> set val then Some (GenMsg ''environment %s contains NUL'' [key]) else None)"

definition env_keys :: "launch_lib \<Rightarrow> gen_options \<Rightarrow> smap \<Rightarrow> ManifestKey list" where
  "env_keys lib opt env = map (\<lambda>(key, val). \<lparr>mk_Name = key, mk_Version = go_secretVersion opt, mk_Env = key\<rparr>) (filter (\<lambda>(key, val). secretLike lib key) env)"

definition delete_keys :: "string list \<Rightarrow> smap \<Rightarrow> smap" where
  "delete_keys ks m = filter (\<lambda>(key, val). key \<notin> set ks) m"

definition nilable_map :: "('a list \<Rightarrow> 'a list) \<Rightarrow> 'a nilable \<Rightarrow> 'a nilable" where
  "nilable_map f x = (case x of None \<Rightarrow> None | Some xs \<Rightarrow> Some (f xs))"

definition environment_keys :: "launch_lib \<Rightarrow> gen_options \<Rightarrow> serviceOverrides \<Rightarrow> (string \<times> string) nilable \<Rightarrow> gen_error + (string \<times> string) nilable \<times> ManifestKey list" where
  "environment_keys lib opt ov env = (case check_all check_env_entry (items env) of
      Some e \<Rightarrow> Inl e
    | None \<Rightarrow>
        let keys = sort_key mk_Name (so_secrets ov @ env_keys lib opt (items env))
        in if keys = [] then Inl (GenMsg ''no secret keys; map at least one via --secret or a secret-named environment entry'' [])
           else Inr (nilable_map (\<lambda>m. delete_keys (map mk_Env keys) (filter (\<lambda>(key, val). \<not> secretLike lib key) m)) env, keys))"

definition check_label :: "launch_lib \<Rightarrow> string \<times> string \<Rightarrow> gen_error option" where
  "check_label lib kv = (case kv of (key, val) \<Rightarrow>
     if \<not> HasPrefix key ''com.skret.secret-launch'' \<and> (secretLike lib key \<or> secretLike lib val)
     then Some (GenMsg ''label %q looks secret-like; move it to --secret or drop it'' [key]) else None)"

definition compose_labels :: "launch_lib \<Rightarrow> yaml_node \<Rightarrow> gen_error + (string \<times> string) nilable" where
  "compose_labels lib node = eithen (wrap_err (GenWrap ''labels'') (mapOrList node True)) (\<lambda>labels.
     case check_all (check_label lib) (items labels) of
         Some e \<Rightarrow> Inl e
       | None \<Rightarrow> Inr (nilable_map (filter (\<lambda>(key, val). \<not> HasPrefix key ''com.skret.secret-launch'')) labels))"

definition child_argv :: "composeService \<Rightarrow> serviceOverrides \<Rightarrow> gen_error + string list" where
  "child_argv svc ov = eithen
     (if so_childArgv ov \<noteq> [] then Inr (so_childArgv ov)
      else eithen (wrap_err (GenWrap ''entrypoint'') (commandOrList (cps_Entrypoint svc))) (\<lambda>entrypoint.
           eithen (wrap_err (GenWrap ''command'') (commandOrList (cps_Command svc))) (\<lambda>command. Inr (entrypoint @ command))))
     (\<lambda>argv. if argv = [] then Inl (GenMsg ''no child argv; set compose entrypoint/command or --child-argv'' []) else Inr argv)"

definition helper_argv :: "gen_options \<Rightarrow> string \<Rightarrow> string list" where
  "helper_argv opt name = [go_helperPath opt, ''--manifest'', go_manifestPath opt, ''--trust'', go_trustPath opt, ''--runtime'', go_runtimeID opt, ''--service'', name]"

definition buildAuthority ::
    "launch_lib \<Rightarrow> gen_lib \<Rightarrow> string \<Rightarrow> composeService \<Rightarrow> gen_options \<Rightarrow> serviceOverrides \<Rightarrow> string \<Rightarrow> string list \<Rightarrow> gen_error + ServiceAuthority" where
  "buildAuthority lib gl name svc opt ov globalWrapper selected =
     (let wrapper = (if so_wrapper ov = [] then globalWrapper else so_wrapper ov);
          img = (if so_image ov = [] then cps_Image svc else so_image ov);
          user = (if cps_User svc = [] then go_defaultUser opt else cps_User svc)
      in case Cut img (CHR ''@'') of (pre, digest, pinned) \<Rightarrow>
        if \<not> pinned \<or> pre = [] \<or> \<not> gen_validDigest digest then Inl (GenMsg ''image %q is not digest-pinned (want image@sha256:<hex>); override with --image'' [img])
        else if user = [] then Inl (GenMsg ''no user; set compose user or --default-user'' [])
        else eithen (wrap_err (GenWrap ''environment'') (mapOrList (cps_Environment svc) False)) (\<lambda>compose_env.
             eithen (environment_keys lib opt ov compose_env) (\<lambda>(env, keys).
             eithen (compose_labels lib (cps_Labels svc)) (\<lambda>labels.
             eithen (wrap_err (GenWrap ''networks'') (listOrMapKeys (cps_Networks svc))) (\<lambda>networks.
             eithen (wrap_err (GenWrap ''depends_on'') (listOrMapKeys (cps_DependsOn svc))) (\<lambda>dependencies.
             eithen (buildHealth gl opt (cps_Healthcheck svc) ov) (\<lambda>health.
             eithen (child_argv svc ov) (\<lambda>argv.
             if \<not> gen_validDigest wrapper then Inl (GenMsg ''no valid wrapper digest; pass --wrapper-digest sha256:<hex> or service=sha256:<hex>'' [])
             else Inr \<lparr>sa_Name = name, sa_Image = img, sa_User = user, sa_Argv = helper_argv opt name, sa_Environment = env, sa_Labels = labels, sa_Networks = networks,
                    sa_Restart = ''no'', sa_OpenStdin = True, sa_Health = health, sa_Dependencies = nilable_map (filter (\<lambda>d. d \<in> set selected)) dependencies, sa_Keys = keys,
                    sa_WrapperDigest = wrapper,
                    sa_Child = \<lparr>cs_Argv = argv, cs_User = (if so_childUser ov = [] then user else so_childUser ov), cs_Environment = env\<rparr>\<rparr>))))))))"

definition specFromAuthority :: "ServiceAuthority \<Rightarrow> ServiceSpec" where
  "specFromAuthority a = \<lparr>sp_Name = sa_Name a, sp_Image = sa_Image a, sp_User = sa_User a, sp_Argv = sa_Argv a, sp_Environment = sa_Environment a,
     sp_Labels = sa_Labels a, sp_Networks = sa_Networks a, sp_Restart = sa_Restart a, sp_OpenStdin = sa_OpenStdin a, sp_Health = sa_Health a,
     sp_Dependencies = sa_Dependencies a, sp_SecretKeys = Some (map mk_Name (sa_Keys a)), sp_WrapperDigest = sa_WrapperDigest a, sp_Child = sa_Child a\<rparr>"

subsection \<open>Keys and trust\<close>

definition hex_nibble :: "char \<Rightarrow> nat option" where
  "hex_nibble c = (if is_digit c then Some (of_char c - 48) else if CHR ''a'' \<le> c \<and> c \<le> CHR ''f'' then Some (of_char c - 87)
     else if CHR ''A'' \<le> c \<and> c \<le> CHR ''F'' then Some (of_char c - 55) else None)"

fun hex_DecodeString :: "string \<Rightarrow> string option" where
  "hex_DecodeString [] = Some []"
| "hex_DecodeString [c] = None"
| "hex_DecodeString (a # b # s) = (case (hex_nibble a, hex_nibble b, hex_DecodeString s) of
      (Some x, Some y, Some r) \<Rightarrow> Some (char_of (16 * x + y) # r) | _ \<Rightarrow> None)"

definition parsePrivateKey :: "gen_lib \<Rightarrow> string \<Rightarrow> gen_error + string" where
  "parsePrivateKey gl source =
     eithen (case gl_file gl source of None \<Rightarrow> Inr (TrimSpace source) | Some None \<Rightarrow> Inl (GenMsg ''read'' [source]) | Some (Some data) \<Rightarrow> Inr data) (\<lambda>raw.
     let key = (case hex_DecodeString (TrimSpace raw) of
           Some decoded \<Rightarrow> decoded
         | None \<Rightarrow> (case base64_DecodeString (TrimSpace raw) of Some decoded \<Rightarrow> decoded | None \<Rightarrow> raw))
     in if length key = 64 then Inr key
        else if length key = 32 then Inr (gl_seed gl key)
        else Inl (GenMsg ''want %d-byte private key or %d-byte seed (hex/base64/file)'' []))"

text \<open>The name of a key, if the entry has one.\<close>

definition key_source :: "gen_lib \<Rightarrow> string \<Rightarrow> string option \<times> string" where
  "key_source gl entry = (case Cut entry (CHR ''='') of (before, tail, found) \<Rightarrow>
     if found \<and> before \<noteq> [] \<and> (\<not> isl (parsePrivateKey gl tail) \<or> gl_file gl tail \<noteq> None) then (Some before, tail) else (None, entry))"

definition key_entry :: "launch_lib \<Rightarrow> gen_lib \<Rightarrow> string \<Rightarrow> smap \<times> smap \<Rightarrow> gen_error + smap \<times> smap" where
  "key_entry lib gl entry st = (case st of (signing, trust) \<Rightarrow> (case key_source gl entry of (named, source) \<Rightarrow>
     (case parsePrivateKey gl source of
         Inl e \<Rightarrow> Inl (GenWrap ''--key'' e)
       | Inr private \<Rightarrow>
           let public = ll_public lib private;
               keyID = (case named of Some k \<Rightarrow> k | None \<Rightarrow> ''ed25519-'' @ hex_EncodeToString (take 4 (ll_sha lib public)))
           in if map_of signing keyID \<noteq> None then Inl (GenMsg ''--key %q: duplicate key ID %q'' [entry, keyID])
              else Inr (signing @ [(keyID, private)], map_put (keyID, base64_EncodeToString public) trust))))"

definition pubkey_entry :: "string \<Rightarrow> smap \<Rightarrow> gen_error + smap" where
  "pubkey_entry entry trust = (case Cut entry (CHR ''='') of (keyID, encoded, found) \<Rightarrow>
     if \<not> found \<or> keyID = [] then Inl (GenMsg ''--pubkey %q: want keyID=base64'' [entry])
     else case base64_DecodeString encoded of
         None \<Rightarrow> Inl (GenMsg ''--pubkey %q: invalid base64 ed25519 public key'' [entry])
       | Some raw \<Rightarrow> if length raw \<noteq> 32 then Inl (GenMsg ''--pubkey %q: invalid base64 ed25519 public key'' [entry]) else Inr (map_put (keyID, encoded) trust))"

text \<open>The signing keys in the order of the entries, and the keys of the trust document.\<close>

definition loadKeys :: "launch_lib \<Rightarrow> gen_lib \<Rightarrow> string list \<Rightarrow> string list \<Rightarrow> gen_error + smap \<times> smap" where
  "loadKeys lib gl entries pubkeys =
     eithen (fold_either (key_entry lib gl) entries ([], [])) (\<lambda>(signing, trust).
     eithen (fold_either pubkey_entry pubkeys trust) (\<lambda>trust. Inr (signing, map_entries trust)))"

definition version_entry :: "string \<Rightarrow> (string \<times> string) list \<Rightarrow> gen_error + (string \<times> string) list" where
  "version_entry entry out = (case Cut entry (CHR ''='') of (name, version, found) \<Rightarrow>
     if \<not> found \<or> name = [] \<or> version = [] then Inl (GenMsg ''--key-version %q: want NAME=VERSION'' [entry]) else Inr (out @ [(name, version)]))"

definition key_versions :: "(string \<times> string) list \<Rightarrow> (string \<times> (string \<times> bool) list) list" where
  "key_versions vs = map (\<lambda>name. (name, map (\<lambda>v. (v, True)) (sortedKeys (map snd (filter (\<lambda>e. fst e = name) vs))))) (sortedKeys (map fst vs))"

definition buildTrust :: "gen_options \<Rightarrow> smap \<Rightarrow> ServiceAuthority list \<Rightarrow> gen_error + TrustDocument" where
  "buildTrust opt keys authorities =
     eithen (fold_either version_entry (go_keyVersions opt) (concat (map (\<lambda>a. map (\<lambda>k. (mk_Name k, mk_Version k)) (sa_Keys a)) authorities))) (\<lambda>vs.
     Inr \<lparr>td_Keys = keys, td_Versions = [ManifestVersion], td_RuntimeIDs = sortedKeys (go_runtimeID opt # go_runtimeIDs opt),
       td_Roles = sortedKeys (go_roles opt @ (if go_manifestRole opt \<noteq> [] then [go_manifestRole opt] else [])), td_KeyVersions = key_versions vs\<rparr>)"

subsection \<open>Generation\<close>

fun build_authorities :: "launch_lib \<Rightarrow> gen_lib \<Rightarrow> composeFile \<Rightarrow> gen_options \<Rightarrow> overrides \<Rightarrow> string \<Rightarrow> string list \<Rightarrow> string list \<Rightarrow> gen_error + ServiceAuthority list" where
  "build_authorities lib gl compose opt svcOpts globalWrapper selected [] = Inr []"
| "build_authorities lib gl compose opt svcOpts globalWrapper selected (name # names) =
     eithen (wrap_err (GenWrap ''service'') (buildAuthority lib gl name (the (map_of compose name)) opt (svcOpts name) globalWrapper selected)) (\<lambda>a.
     eithen (build_authorities lib gl compose opt svcOpts globalWrapper selected names) (\<lambda>rest. Inr (a # rest)))"

definition generated_model :: "launch_lib \<Rightarrow> gen_options \<Rightarrow> ServiceAuthority list \<Rightarrow> gen_error + RenderedModel" where
  "generated_model lib opt authorities =
     (let model = \<lparr>rm_RuntimeID = go_runtimeID opt, rm_ComposeDigest = [], rm_Services = map specFromAuthority authorities\<rparr>
      in eithen (wrap_err (GenLaunch ''model digest'') (ModelDigest lib model)) (\<lambda>digest. Inr (model\<lparr>rm_ComposeDigest := digest\<rparr>)))"

definition generated_manifest :: "gen_lib \<Rightarrow> gen_options \<Rightarrow> gotime \<Rightarrow> RenderedModel \<Rightarrow> ServiceAuthority list \<Rightarrow> Manifest" where
  "generated_manifest gl opt now model authorities = \<lparr>lm_Version = ManifestVersion, lm_RuntimeID = go_runtimeID opt,
     lm_Role = (if go_manifestRole opt = [] then hd (go_roles opt) else go_manifestRole opt),
     lm_Generation = (if go_generation opt = 0 then of_int (Unix now) else go_generation opt), lm_IssuedAt = Unix now, lm_ExpiresAt = Unix (now + go_ttl opt),
     lm_Nonce = (if go_nonce opt = [] then gl_nonce gl else go_nonce opt), lm_Services = authorities,
     lm_Digests = \<lparr>ad_Helper = go_helperDigest opt, ad_Supervisor = go_superDigest opt, ad_Compose = rm_ComposeDigest model\<rparr>\<rparr>"

definition selfCheck :: "launch_lib \<Rightarrow> (string \<Rightarrow> RenderedModel option) \<Rightarrow> (string \<Rightarrow> string option) \<Rightarrow> gotime \<Rightarrow> gen_error option" where
  "selfCheck lib decode dir now = (case dir ''trust.json'' of
      None \<Rightarrow> Some (GenMsg ''read'' [''trust.json''])
    | Some trustBytes \<Rightarrow> (case LoadTrustDocument lib trustBytes of
          Inl e \<Rightarrow> Some (GenLaunch [] e)
        | Inr policy \<Rightarrow> (case dir ''manifest.json'' of
              None \<Rightarrow> Some (GenMsg ''read'' [''manifest.json''])
            | Some data \<Rightarrow> (case VerifySignedManifest lib data policy now of
                  Inl e \<Rightarrow> Some (GenLaunch [] e)
                | Inr manifest \<Rightarrow> (case dir ''model.json'' of
                      None \<Rightarrow> Some (GenMsg ''read'' [''model.json''])
                    | Some modelBytes \<Rightarrow> (case ParseRenderedModel lib decode modelBytes of
                          Inl e \<Rightarrow> Some (GenLaunch [] e)
                        | Inr model \<Rightarrow> map_option (GenLaunch []) (ValidateManifestModel lib manifest model)))))))"

text \<open>The three files.\<close>

definition with_defaults :: "gen_options \<Rightarrow> gen_options" where
  "with_defaults opt = opt\<lparr>
     go_manifestPath := (if go_manifestPath opt = [] then ''/etc/skret/secret-launch/'' @ go_runtimeID opt @ ''.manifest.json'' else go_manifestPath opt),
     go_trustPath := (if go_trustPath opt = [] then ''/etc/skret/secret-launch/'' @ go_runtimeID opt @ ''.trust.json'' else go_trustPath opt)\<rparr>"

definition artifacts :: "launch_lib \<Rightarrow> gen_lib \<Rightarrow> gen_options \<Rightarrow> gotime \<Rightarrow> gen_error + smap" where
  "artifacts lib gl opt now =
     eithen (loadCompose gl (go_composePath opt)) (\<lambda>compose.
     eithen (selectServices compose (go_services opt)) (\<lambda>selected.
     eithen (loadKeys lib gl (go_keys opt) (go_pubkeys opt)) (\<lambda>(signing, trustKeys).
     let signKeyID = (if go_signKeyID opt = [] then fst (hd signing) else go_signKeyID opt)
     in case map_of signing signKeyID of
         None \<Rightarrow> Inl (GenMsg ''sign key %q is not among --key entries'' [signKeyID])
       | Some private \<Rightarrow>
           eithen (parseServiceOverrides gl opt) (\<lambda>(svcOpts, globalWrapper).
           eithen (build_authorities lib gl compose opt svcOpts globalWrapper selected selected) (\<lambda>authorities.
           eithen (generated_model lib opt authorities) (\<lambda>model.
           eithen (wrap_err (GenLaunch ''sign manifest'') (SignManifest lib (generated_manifest gl opt now model authorities) signKeyID private now)) (\<lambda>data.
           eithen (buildTrust opt trustKeys authorities) (\<lambda>trust.
           Inr [(''manifest.json'', data), (''trust.json'', marshal_trust trust), (''model.json'', jprint (model_json model))]))))))))"

definition generate :: "launch_lib \<Rightarrow> gen_lib \<Rightarrow> (string \<Rightarrow> RenderedModel option) \<Rightarrow> gen_options \<Rightarrow> gotime \<Rightarrow> gen_error + smap" where
  "generate lib gl decode opt clock =
     (if go_composePath opt = [] \<or> go_services opt = [] \<or> go_runtimeID opt = [] \<or> go_outDir opt = []
      then Inl (GenMsg ''--compose, --services, --runtime, and --out are required'' [])
      else if \<not> gen_validDigest (go_helperDigest opt) \<or> \<not> gen_validDigest (go_superDigest opt)
      then Inl (GenMsg ''--helper-digest and --supervisor-digest must be sha256:<64 lowercase hex>'' [])
      else if go_keys opt = [] then Inl (GenMsg ''at least one --key signing key is required'' [])
      else if go_roles opt = [] \<and> go_manifestRole opt = [] then Inl (GenMsg ''at least one --role (or --manifest-role) is required'' [])
      else let now = (if go_now opt \<noteq> 0 then time_Unix (go_now opt) else clock)
      in if go_ttl opt \<le> 0 \<or> MaxManifestTTL < go_ttl opt then Inl (GenMsg ''--ttl must be in (0, %s]'' [])
      else eithen (artifacts lib gl (with_defaults opt) now) (\<lambda>outputs.
        case gl_disk gl outputs of
            None \<Rightarrow> Inl (GenMsg ''write'' [])
          | Some dir \<Rightarrow> (case selfCheck lib decode dir now of Some e \<Rightarrow> Inl (GenWrap ''self-check'' e) | None \<Rightarrow> Inr outputs)))"

end
