(* ===== verification/Compose_Gen_Theorems.thy ===== *)
theory Compose_Gen_Theorems
  imports Compose_Gen Launch_Supervisor_Theorems
begin

text \<open>
  What the generator of a launch guarantees: what it writes does not depend on the values of secrets in the compose file, every variable of a service is kept or becomes a key,
  and the supervisor accepts the files as long as the manifest is live.
\<close>

lemma eithen_simps [simp]: "eithen (Inl e) f = Inl e" "eithen (Inr x) f = f x"
  by (simp_all add: eithen_def)

lemma eithen_Inr: "eithen r f = Inr y \<longleftrightarrow> (\<exists>x. r = Inr x \<and> f x = Inr y)"
  by (cases r) auto

lemma wrap_err_simps [simp]: "wrap_err g (Inl e) = Inl (g e)" "wrap_err g (Inr x) = Inr x"
  by (simp_all add: wrap_err_def)

lemma wrap_err_Inr [simp]: "wrap_err g r = Inr y \<longleftrightarrow> r = Inr y"
  by (cases r) auto

lemma nilable_map_items: "items (nilable_map f x) = (case x of None \<Rightarrow> [] | Some xs \<Rightarrow> f xs)"
  by (cases x) (simp_all add: nilable_map_def items_def)

subsection \<open>Secret values\<close>

text \<open>Two entries of an environment, the same unless they are a secret's, in which case both can be used.\<close>

definition same_entry :: "launch_lib \<Rightarrow> string \<times> string \<Rightarrow> string \<times> string \<Rightarrow> bool" where
  "same_entry lib kv kv' \<longleftrightarrow> fst kv = fst kv' \<and> (kv = kv' \<or> secretLike lib (fst kv) \<and> check_env_entry kv = None \<and> check_env_entry kv' = None)"

definition same_plain :: "launch_lib \<Rightarrow> (string \<times> string) nilable \<Rightarrow> (string \<times> string) nilable \<Rightarrow> bool" where
  "same_plain lib env env' \<longleftrightarrow> (env = None \<longleftrightarrow> env' = None) \<and> list_all2 (same_entry lib) (items env) (items env')"

text \<open>Two compose services that differ in the values of secret variables only.\<close>

definition differ_in_secrets :: "launch_lib \<Rightarrow> composeService \<Rightarrow> composeService \<Rightarrow> bool" where
  "differ_in_secrets lib svc svc' \<longleftrightarrow> svc' = svc\<lparr>cps_Environment := cps_Environment svc'\<rparr> \<and>
     (case (mapOrList (cps_Environment svc) False, mapOrList (cps_Environment svc') False) of (Inr env, Inr env') \<Rightarrow> same_plain lib env env' | _ \<Rightarrow> False)"

lemma same_plain_checks:
  assumes "list_all2 (same_entry lib) xs ys"
  shows "check_all check_env_entry xs = check_all check_env_entry ys"
    "env_keys lib opt xs = env_keys lib opt ys"
    "filter (\<lambda>(key, val). \<not> secretLike lib key) xs = filter (\<lambda>(key, val). \<not> secretLike lib key) ys"
  using assms by (induction rule: list_all2_induct) (auto simp: same_entry_def env_keys_def first_err_def split: option.splits)

lemma same_environment_keys:
  assumes "same_plain lib env env'"
  shows "environment_keys lib opt ov env = environment_keys lib opt ov env'"
  using assms same_plain_checks[of lib "items env" "items env'"]
  by (cases env; cases env') (auto simp: environment_keys_def same_plain_def items_def nilable_map_def Let_def split: option.split)

lemma same_authority_built:
  assumes "differ_in_secrets lib svc svc'"
  shows "buildAuthority lib gl name svc' opt ov globalWrapper selected = buildAuthority lib gl name svc opt ov globalWrapper selected"
proof -
  obtain env env' where m: "mapOrList (cps_Environment svc) False = Inr env" "mapOrList (cps_Environment svc') False = Inr env'" "same_plain lib env env'"
    using assms by (auto simp: differ_in_secrets_def split: sum.splits)
  have e: "svc' = svc\<lparr>cps_Environment := cps_Environment svc'\<rparr>" using assms by (simp add: differ_in_secrets_def)
  have f: "cps_Image svc' = cps_Image svc" "cps_User svc' = cps_User svc" "cps_Command svc' = cps_Command svc" "cps_Entrypoint svc' = cps_Entrypoint svc" "cps_Labels svc' = cps_Labels svc"
    "cps_Networks svc' = cps_Networks svc" "cps_DependsOn svc' = cps_DependsOn svc" "cps_Healthcheck svc' = cps_Healthcheck svc"
    by (subst e, simp)+
  have c: "child_argv svc' ov = child_argv svc ov" by (simp add: child_argv_def f)
  show ?thesis unfolding buildAuthority_def by (simp only: m(1,2) f c wrap_err_simps eithen_simps same_environment_keys[OF m(3)])
qed

definition same_compose :: "launch_lib \<Rightarrow> composeFile \<Rightarrow> composeFile \<Rightarrow> bool" where
  "same_compose lib compose compose' \<longleftrightarrow> list_all2 (\<lambda>x y. fst x = fst y \<and> differ_in_secrets lib (snd x) (snd y)) compose compose'"

lemma same_compose_lookup:
  assumes "same_compose lib compose compose'"
  shows "rel_option (differ_in_secrets lib) (map_of compose name) (map_of compose' name)"
  using assms unfolding same_compose_def by (induction rule: list_all2_induct) auto

lemma same_compose_None: "same_compose lib compose compose' \<Longrightarrow> map_of compose' name = None \<longleftrightarrow> map_of compose name = None"
  using same_compose_lookup[of lib compose compose' name] by (auto elim: option.rel_cases)

lemma same_selected:
  assumes "same_compose lib compose compose'"
  shows "selectServices compose' csv = selectServices compose csv"
proof -
  have "select_loop compose' ns = select_loop compose ns" for ns
    by (induction ns) (simp_all add: Let_def same_compose_None[OF assms])
  then show ?thesis by (simp add: selectServices_def)
qed

lemma same_built:
  assumes s: "same_compose lib compose compose'" and n: "list_all (\<lambda>n. map_of compose n \<noteq> None) names"
  shows "build_authorities lib gl compose' opt svcOpts globalWrapper selected names = build_authorities lib gl compose opt svcOpts globalWrapper selected names"
  using n
proof (induction names)
  case (Cons name names)
  then obtain svc where v: "map_of compose name = Some svc" by auto
  then obtain svc' where v': "map_of compose' name = Some svc'" "differ_in_secrets lib svc svc'" using same_compose_lookup[OF s, of name] by (auto simp: option_rel_Some1)
  have "buildAuthority lib gl name (the (map_of compose' name)) opt (svcOpts name) globalWrapper selected = buildAuthority lib gl name (the (map_of compose name)) opt (svcOpts name) globalWrapper selected"
    using same_authority_built[OF v'(2)] v v'(1) by simp
  moreover have "list_all (\<lambda>n. map_of compose n \<noteq> None) names" using Cons.prems by simp
  ultimately show ?case using Cons.IH by (simp only: build_authorities.simps)
qed simp

lemma selected_present:
  assumes "selectServices compose csv = Inr names"
  shows "list_all (\<lambda>n. map_of compose n \<noteq> None) names"
proof -
  have "select_loop compose ns = Inr xs \<Longrightarrow> list_all (\<lambda>n. map_of compose n \<noteq> None) xs" for ns xs
    by (induction ns arbitrary: xs) (auto simp: Let_def eithen_Inr split: if_splits)
  then show ?thesis using assms by (auto simp: selectServices_def eithen_Inr list_all_iff split: if_splits)
qed

text \<open>Only \<open>loadCompose\<close> reads the compose file.\<close>

lemma compose_only:
  "argv_entry (gl\<lparr>gl_compose := f\<rparr>) = argv_entry gl" "health_entry (gl\<lparr>gl_compose := f\<rparr>) = health_entry gl" "parsePrivateKey (gl\<lparr>gl_compose := f\<rparr>) = parsePrivateKey gl"
  "parseDurationMS (gl\<lparr>gl_compose := f\<rparr>) = parseDurationMS gl"
proof -
  have g: "gl_strings (gl\<lparr>gl_compose := f\<rparr>) = gl_strings gl" "gl_file (gl\<lparr>gl_compose := f\<rparr>) = gl_file gl" "gl_seed (gl\<lparr>gl_compose := f\<rparr>) = gl_seed gl"
    "gl_ParseDuration (gl\<lparr>gl_compose := f\<rparr>) = gl_ParseDuration gl" "gl_ParseSeconds (gl\<lparr>gl_compose := f\<rparr>) = gl_ParseSeconds gl" by simp_all
  show "argv_entry (gl\<lparr>gl_compose := f\<rparr>) = argv_entry gl" by (intro ext) (simp only: argv_entry_def g)
  show "health_entry (gl\<lparr>gl_compose := f\<rparr>) = health_entry gl" by (intro ext) (simp only: health_entry_def g)
  show "parsePrivateKey (gl\<lparr>gl_compose := f\<rparr>) = parsePrivateKey gl" by (intro ext) (simp only: parsePrivateKey_def g)
  show "parseDurationMS (gl\<lparr>gl_compose := f\<rparr>) = parseDurationMS gl" by (intro ext) (simp only: parseDurationMS_def g)
qed

lemma compose_only_health: "buildHealth (gl\<lparr>gl_compose := f\<rparr>) = buildHealth gl"
proof -
  have "compose_health (gl\<lparr>gl_compose := f\<rparr>) = compose_health gl" by (intro ext) (simp only: compose_health_def compose_only)
  then show ?thesis by (intro ext) (simp only: buildHealth_def)
qed

lemma compose_only_keys: "loadKeys lib (gl\<lparr>gl_compose := f\<rparr>) = loadKeys lib gl"
proof -
  have "key_source (gl\<lparr>gl_compose := f\<rparr>) = key_source gl" by (rule ext) (simp add: key_source_def compose_only)
  then have "key_entry lib (gl\<lparr>gl_compose := f\<rparr>) = key_entry lib gl" by (intro ext) (simp add: key_entry_def compose_only)
  then show ?thesis by (intro ext) (simp add: loadKeys_def)
qed

lemma compose_only_overrides: "parseServiceOverrides (gl\<lparr>gl_compose := f\<rparr>) opt = parseServiceOverrides gl opt"
  by (simp add: parseServiceOverrides_def compose_only)

lemma compose_only_built:
  "build_authorities lib (gl\<lparr>gl_compose := f\<rparr>) compose opt svcOpts globalWrapper selected names = build_authorities lib gl compose opt svcOpts globalWrapper selected names"
proof -
  have "buildAuthority lib (gl\<lparr>gl_compose := f\<rparr>) = buildAuthority lib gl" by (intro ext) (simp only: buildAuthority_def compose_only_health)
  then show ?thesis by (induction names) simp_all
qed

lemma same_artifacts:
  assumes "gl_compose gl (go_composePath opt) = Inr compose" "same_compose lib compose compose'"
  shows "artifacts lib (gl\<lparr>gl_compose := (\<lambda>_. Inr compose')\<rparr>) opt now = artifacts lib gl opt now"
proof (cases "selectServices compose (go_services opt)")
  case (Inr selected)
  have e: "compose' = [] \<longleftrightarrow> compose = []" using assms(2) unfolding same_compose_def by (cases compose; cases compose') auto
  note same = same_built[OF assms(2) selected_present[OF Inr]]
  have m: "generated_manifest (gl\<lparr>gl_compose := g\<rparr>) = generated_manifest gl" for g by (intro ext) (simp add: generated_manifest_def)
  have l: "loadCompose (gl\<lparr>gl_compose := \<lambda>_. Inr compose'\<rparr>) (go_composePath opt) = (if compose = [] then Inl (GenMsg ''compose file declares no services'' []) else Inr compose')"
    "loadCompose gl (go_composePath opt) = (if compose = [] then Inl (GenMsg ''compose file declares no services'' []) else Inr compose)"
    using assms(1) e by (simp_all add: loadCompose_def)
  show ?thesis
  proof (cases "compose = []")
    case False
    then show ?thesis unfolding artifacts_def l
      by (simp only: if_False eithen_simps same_selected[OF assms(2)] Inr compose_only_keys compose_only_overrides compose_only_built same m)
  qed (simp add: artifacts_def l)
next
  case (Inl err)
  have e: "compose' = [] \<longleftrightarrow> compose = []" using assms(2) unfolding same_compose_def by (cases compose; cases compose') auto
  show ?thesis unfolding artifacts_def by (simp add: loadCompose_def assms(1) e same_selected[OF assms(2)] Inl)
qed

text \<open>
  C15: no value of a secret in the compose file reaches an artifact. For two compose files that differ in the values of variables with secret-like names only, the generator behaves the same: it
  writes the same three files, or reports the same error.
\<close>

theorem secret_values_stay_out:
  assumes "gl_compose gl (go_composePath opt) = Inr compose" and "same_compose lib compose compose'"
  shows "generate lib (gl\<lparr>gl_compose := (\<lambda>_. Inr compose')\<rparr>) decode opt clock = generate lib gl decode opt clock"
proof -
  have "gl_compose gl (go_composePath (with_defaults opt)) = Inr compose" using assms(1) by (simp add: with_defaults_def)
  then show ?thesis by (simp add: generate_def same_artifacts[OF _ assms(2)] Let_def)
qed

subsection \<open>The variables of a service\<close>

lemma environment_split:
  assumes "environment_keys lib opt ov env = Inr (env', keys)"
  shows "env' = nilable_map (filter (\<lambda>(key, val). \<not> secretLike lib key \<and> key \<notin> mk_Env ` set (so_secrets ov))) env
    \<and> mset keys = mset (so_secrets ov @ env_keys lib opt (items env)) \<and> check_all check_env_entry (items env) = None"
proof -
  have k: "mk_Env ` set (env_keys lib opt (items env)) \<subseteq> {k. secretLike lib k}" by (auto simp: env_keys_def)
  have "env' = nilable_map (\<lambda>m. delete_keys (map mk_Env keys) (filter (\<lambda>(key, val). \<not> secretLike lib key) m)) env"
    and keys: "keys = sort_key mk_Name (so_secrets ov @ env_keys lib opt (items env))" and c: "check_all check_env_entry (items env) = None"
    using assms by (auto simp: environment_keys_def Let_def split: option.splits if_splits)
  moreover have "delete_keys (map mk_Env keys) (filter (\<lambda>(key, val). \<not> secretLike lib key) m) = filter (\<lambda>(key, val). \<not> secretLike lib key \<and> key \<notin> mk_Env ` set (so_secrets ov)) m" for m
    unfolding delete_keys_def keys filter_filter using k by (intro filter_cong) auto
  ultimately show ?thesis by simp
qed

text \<open>
  C22: every variable of a compose service is accounted for. A variable with a secret-like name, or one mapped by \<open>--secret\<close>, is granted as a key and appears in no environment; every other variable is kept as it is, in
  the environment of the container and of the child alike; and there are no keys but these.
\<close>

theorem compose_environment_split:
  assumes "buildAuthority lib gl name svc opt ov globalWrapper selected = Inr a" and "mapOrList (cps_Environment svc) False = Inr env"
  shows "sa_Environment a = nilable_map (filter (\<lambda>(key, val). \<not> secretLike lib key \<and> key \<notin> mk_Env ` set (so_secrets ov))) env
    \<and> cs_Environment (sa_Child a) = sa_Environment a
    \<and> mset (sa_Keys a) = mset (so_secrets ov @ map (\<lambda>(key, val). \<lparr>mk_Name = key, mk_Version = go_secretVersion opt, mk_Env = key\<rparr>) (filter (\<lambda>(key, val). secretLike lib key) (items env)))"
proof -
  obtain env' keys where e: "environment_keys lib opt ov env = Inr (env', keys)" "sa_Environment a = env'" "sa_Keys a = keys" "cs_Environment (sa_Child a) = env'"
    using assms by (auto simp: buildAuthority_def Let_def eithen_Inr split: prod.splits if_splits)
  then show ?thesis using environment_split[OF e(1)] by (simp add: env_keys_def)
qed

subsection \<open>The files\<close>

text \<open>
  What the generator has written and checked at the time of signing the supervisor accepts as long as the manifest is live: the manifest verifies under the written trust document and agrees with the
  written model.
\<close>

lemma generated_launch_is_accepted:
  assumes "generate lib gl decode opt clock = Inr outputs" "gl_disk gl outputs = Some (map_of outputs)"
  shows "\<exists>data trustBytes modelBytes policy m model. map_of outputs ''manifest.json'' = Some data \<and> map_of outputs ''trust.json'' = Some trustBytes \<and> map_of outputs ''model.json'' = Some modelBytes
    \<and> LoadTrustDocument lib trustBytes = Inr policy \<and> ParseRenderedModel lib decode modelBytes = Inr model \<and> ValidateManifestModel lib m model = None
    \<and> (\<forall>t. live m t \<longrightarrow> VerifySignedManifest lib data policy t = Inr m \<and> ValidateAt lib m t = None)"
proof -
  define now where "now = (if go_now opt \<noteq> 0 then time_Unix (go_now opt) else clock)"
  have c: "selfCheck lib decode (map_of outputs) now = None"
    using assms by (auto simp: generate_def eithen_Inr Let_def now_def split: if_splits option.splits)
  then obtain trustBytes policy data m modelBytes model where o: "map_of outputs ''trust.json'' = Some trustBytes" "LoadTrustDocument lib trustBytes = Inr policy"
    "map_of outputs ''manifest.json'' = Some data" "VerifySignedManifest lib data policy now = Inr m" "map_of outputs ''model.json'' = Some modelBytes"
    "ParseRenderedModel lib decode modelBytes = Inr model" "ValidateManifestModel lib m model = None"
    by (auto simp: selfCheck_def split: option.splits sum.splits)
  have "VerifySignedManifest lib data policy t = Inr m \<and> ValidateAt lib m t = None" if "live m t" for t
    using o(4) that by (auto simp: verified ValidateAt_iff)
  then show ?thesis using o by blast
qed

text \<open>A compose service without labels gets a manifest without labels, which every check accepts, and for which \<open>Create\<close> panics.\<close>

lemma unlabelled_service_panics:
  assumes "buildAuthority lib gl name svc opt ov globalWrapper selected = Inr a" "no_node (cps_Labels svc)" "validateServiceAuthority lib a = None" "dr_ManifestMount d = None"
  shows "Docker_Create lib dl d (serviceSpecFromAuthority a) (LaunchLabels lib m (serviceSpecFromAuthority a)) = Inl (OtherError ''panic: assignment to entry in nil map'')"
proof -
  have "compose_labels lib (cps_Labels svc) = Inr None" using assms(2) by (simp add: compose_labels_def mapOrList_def items_def nilable_map_def)
  then have "sa_Labels a = None" using assms(1) by (auto simp: buildAuthority_def Let_def eithen_Inr split: prod.splits if_splits)
  then show ?thesis by (rule create_without_labels_panics[OF assms(3) _ assms(4)])
qed

text \<open>A variable with a secret-like name that is also mapped by \<open>--secret\<close> becomes a key twice, and no manifest with that service is valid.\<close>

lemma mapped_secret_is_refused:
  assumes "buildAuthority lib gl name svc opt ov globalWrapper selected = Inr a" "mapOrList (cps_Environment svc) False = Inr env" "(k, val) \<in> set (items env)" "secretLike lib k"
    "key \<in> set (so_secrets ov)" "mk_Env key = k"
  shows "validateServiceAuthority lib a \<noteq> None"
proof
  assume "validateServiceAuthority lib a = None"
  then have "distinct (map mk_Env (sa_Keys a))" using valid_confined by (auto simp: confined_def)
  moreover have ks: "mset (sa_Keys a) = mset (so_secrets ov @ env_keys lib opt (items env))"
  proof -
    obtain env' keys where e: "environment_keys lib opt ov env = Inr (env', keys)" "sa_Keys a = keys"
      using assms(1,2) by (auto simp: buildAuthority_def Let_def eithen_Inr split: prod.splits if_splits)
    then show ?thesis using environment_split[OF e(1)] by simp
  qed
  ultimately have "distinct (map mk_Env (so_secrets ov @ env_keys lib opt (items env)))" by (metis mset_eq_imp_distinct_iff mset_map)
  then have "mk_Env ` set (so_secrets ov) \<inter> mk_Env ` set (env_keys lib opt (items env)) = {}" by simp
  moreover have "k \<in> mk_Env ` set (env_keys lib opt (items env))" using assms(3,4) by (force simp: env_keys_def image_iff)
  moreover have "k \<in> mk_Env ` set (so_secrets ov)" using assms(5,6) by blast
  ultimately show False by blast
qed

subsection \<open>An example\<close>

definition scalar :: "string \<Rightarrow> yaml_node" where
  "scalar v = Node ScalarNode ''!!str'' v []"

definition absent :: yaml_node where
  "absent = Node NoNode [] [] []"

definition example_compose_service :: "string \<Rightarrow> composeService" where
  "example_compose_service token = \<lparr>cps_Image = ''api@'' @ digest_of (CHR ''1''), cps_User = ''1000'', cps_Command = Node SequenceNode ''!!seq'' [] [scalar ''/bin/app''],
     cps_Entrypoint = absent, cps_Environment = Node MappingNode ''!!map'' [] [scalar ''LOG_LEVEL'', scalar ''info'', scalar ''APP_TOKEN'', scalar token],
     cps_Labels = absent, cps_Networks = Node SequenceNode ''!!seq'' [] [scalar ''backend''], cps_DependsOn = absent, cps_Restart = ''always'', cps_Healthcheck = None\<rparr>"

lemma example_secret_names: "\<not> secretLike launch_example ''LOG_LEVEL''" "secretLike launch_example ''APP_TOKEN''"
  by (simp_all add: secretLike_def launch_example_def example_lib_def ToUpper_def is_ascii_def upper_byte_def is_lower_def less_eq_char_def Contains_def HasPrefix_def upt_rec)

lemma example_compose_env:
  "mapOrList (cps_Environment (example_compose_service token)) False = Inr (Some [(''APP_TOKEN'', token), (''LOG_LEVEL'', ''info'')])"
  by (simp add: mapOrList_def example_compose_service_def no_node_def scalar_def map_pair_def map_put_def map_entries_def sortedKeys_def get_def insort_key_def)

definition example_options :: gen_options where
  "example_options = \<lparr>go_composePath = ''compose.yml'', go_services = ''api'', go_runtimeID = ''prod'', go_outDir = ''out'', go_manifestRole = [], go_signKeyID = [], go_generation = 1,
     go_ttl = 600 * nanos, go_now = 1000, go_nonce = ''nonce-1234567890'', go_helperDigest = digest_of (CHR ''a''), go_superDigest = digest_of (CHR ''b''), go_defaultUser = ''root'',
     go_helperPath = ''/helper'', go_manifestPath = ''/m.json'', go_trustPath = ''/t.json'', go_secretVersion = ''1'', go_healthCmd = ''/bin/true'', go_healthInt = 30000 * Millisecond,
     go_healthTO = 5000 * Millisecond, go_healthRetries = 3, go_hbInterval = 1000 * Millisecond, go_hbTimeout = 5000 * Millisecond, go_keys = [''key''], go_pubkeys = [], go_roles = [''api''],
     go_runtimeIDs = [], go_wrapperDigests = [digest_of (CHR ''c'')], go_images = [], go_secrets = [], go_childArgv = [], go_childUser = [], go_healthCmds = [], go_keyVersions = []\<rparr>"

definition example_gen :: "string \<Rightarrow> gen_lib" where
  "example_gen token = \<lparr>gl_compose = (\<lambda>_. Inr [(''api'', example_compose_service token)]), gl_file = (\<lambda>path. if path = ''key'' then Some (Some (replicate 64 (CHR ''!''))) else None), gl_strings = (\<lambda>_. None),
     gl_ParseDuration = (\<lambda>_. None), gl_ParseSeconds = (\<lambda>_. None), gl_seed = id, gl_nonce = ''nonce-1234567890'', gl_disk = (\<lambda>outputs. Some (map_of outputs))\<rparr>"

lemma example_same_compose: "same_compose launch_example [(''api'', example_compose_service ''hunter2'')] [(''api'', example_compose_service ''tr0ub4dor'')]"
proof -
  have "check_env_entry (''APP_TOKEN'', ''hunter2'') = None" "check_env_entry (''APP_TOKEN'', ''tr0ub4dor'') = None"
    by (simp_all add: check_env_entry_def Contains_def HasPrefix_def upt_rec)
  then have "same_plain launch_example (Some [(''APP_TOKEN'', ''hunter2''), (''LOG_LEVEL'', ''info'')]) (Some [(''APP_TOKEN'', ''tr0ub4dor''), (''LOG_LEVEL'', ''info'')])"
    by (simp add: same_plain_def same_entry_def items_def example_secret_names)
  then have "differ_in_secrets launch_example (example_compose_service ''hunter2'') (example_compose_service ''tr0ub4dor'')"
    by (simp add: differ_in_secrets_def example_compose_env) (simp add: example_compose_service_def)
  then show ?thesis by (simp add: same_compose_def)
qed

definition example_generated :: ServiceAuthority where
  "example_generated = example_service\<lparr>sa_Argv := helper_argv example_options ''api'', sa_Labels := None, sa_Dependencies := None,
     sa_Health := example_health\<lparr>hs_Retries := 3\<rparr>, sa_Child := (sa_Child example_service)\<lparr>cs_User := ''1000''\<rparr>\<rparr>"

lemma example_authority_built:
  "buildAuthority launch_example (example_gen token) ''api'' (example_compose_service ''hunter2'') example_options no_overrides (digest_of (CHR ''c'')) [''api''] = Inr example_generated"
proof -
  have hex: "is_lower_hex (CHR ''1'')" "is_lower_hex (CHR ''c'')" by (simp_all add: is_lower_hex_def is_digit_def less_eq_char_def)
  have d: "gen_validDigest (digest_of c) = launch_validDigest (digest_of c)" for c by (simp add: gen_validDigest_def launch_validDigest_def)
  have i: "Cut (CHR ''a'' # CHR ''p'' # CHR ''i'' # CHR ''@'' # digest_of (CHR ''1'')) (CHR ''@'') = (''api'', digest_of (CHR ''1''), True)" by (simp add: Cut_def)
  have k: "environment_keys launch_example example_options no_overrides (Some [(''APP_TOKEN'', ''hunter2''), (''LOG_LEVEL'', ''info'')])
      = Inr (Some [(''LOG_LEVEL'', ''info'')], [\<lparr>mk_Name = ''APP_TOKEN'', mk_Version = ''1'', mk_Env = ''APP_TOKEN''\<rparr>])"
    by (simp add: environment_keys_def items_def check_env_entry_def Contains_def HasPrefix_def upt_rec no_overrides_def env_keys_def example_secret_names example_options_def nilable_map_def delete_keys_def)
  have h: "buildHealth (example_gen token) example_options None no_overrides = Inr \<lparr>hs_Command = [''/bin/true''], hs_IntervalMS = 30000, hs_TimeoutMS = 5000, hs_Retries = 3,
      hs_HeartbeatIntervalMS = 1000, hs_HeartbeatTimeoutMS = 5000\<rparr>"
    by (simp add: buildHealth_def example_options_def duration_ms_def go_quot_def Millisecond_def no_overrides_def HeartbeatSafetyFactor_def)
  have "stringOrList (Node SequenceNode ''!!seq'' [] [scalar ''/bin/app'']) = Inr [''/bin/app'']" by (simp add: stringOrList_def no_node_def scalar_items_def scalar_def)
  then have c: "child_argv (example_compose_service ''hunter2'') no_overrides = Inr [''/bin/app'']"
    by (simp add: child_argv_def no_overrides_def commandOrList_def example_compose_service_def no_node_def absent_def)
  have l: "listOrMapKeys (Node SequenceNode ''!!seq'' [] [scalar ''backend'']) = Inr (Some [''backend''])" "listOrMapKeys absent = Inr None" "compose_labels launch_example absent = Inr None"
    by (simp_all add: listOrMapKeys_def no_node_def scalar_items_def scalar_def absent_def compose_labels_def mapOrList_def items_def nilable_map_def)
  have s: "cps_Image (example_compose_service ''hunter2'') = ''api@'' @ digest_of (CHR ''1'')" "cps_User (example_compose_service ''hunter2'') = ''1000''" "cps_Labels (example_compose_service ''hunter2'') = absent"
    "cps_Networks (example_compose_service ''hunter2'') = Node SequenceNode ''!!seq'' [] [scalar ''backend'']" "cps_DependsOn (example_compose_service ''hunter2'') = absent"
    "cps_Healthcheck (example_compose_service ''hunter2'') = None" by (simp_all add: example_compose_service_def)
  have o: "so_image no_overrides = []" "so_wrapper no_overrides = []" by (simp_all add: no_overrides_def)
  show ?thesis unfolding buildAuthority_def Let_def s o
    by (simp add: i d digest_valid[OF hex(1)] digest_valid[OF hex(2)] example_compose_env k h c l)
      (simp add: example_generated_def example_service_def example_health_def no_overrides_def nilable_map_def)
qed

theorem compose_environment_split_witness:
  "\<exists>a. buildAuthority launch_example (example_gen []) ''api'' (example_compose_service ''hunter2'') example_options no_overrides (digest_of (CHR ''c'')) [''api''] = Inr a
     \<and> sa_Environment a = Some [(''LOG_LEVEL'', ''info'')] \<and> mset (sa_Keys a) = {#\<lparr>mk_Name = ''APP_TOKEN'', mk_Version = ''1'', mk_Env = ''APP_TOKEN''\<rparr>#}"
  using example_authority_built[of "[]"] compose_environment_split[OF example_authority_built[of "[]"] example_compose_env]
  by (auto simp: nilable_map_def items_def example_secret_names no_overrides_def example_options_def)

lemma example_generated_valid: "validateServiceAuthority launch_example example_generated = None"
proof -
  have "validHealth (example_health\<lparr>hs_Retries := 3\<rparr>) = None"
    by (simp add: validHealth_def example_health_def MaxHeartbeatIntervalMS_def MaxHeartbeatTimeoutMS_def HeartbeatSafetyFactor_def validArguments_def)
  moreover have "validArguments (helper_argv example_options ''api'') = None" by (simp add: validArguments_def helper_argv_def example_options_def)
  moreover have "validateServiceAuthority launch_example example_service = None" by (simp add: launch_example_service example_service_valid)
  ultimately show ?thesis
    by (auto simp: validateServiceAuthority_def example_generated_def example_service_def items_def equalStringMap_def check_labels_def split: if_splits)
qed

definition example_generated_model :: RenderedModel where
  "example_generated_model = \<lparr>rm_RuntimeID = ''prod'', rm_ComposeDigest = digest_of (CHR ''d''), rm_Services = [specFromAuthority example_generated]\<rparr>"

lemma example_generated_model_built: "generated_model launch_example example_options [example_generated] = Inr example_generated_model"
proof -
  have "validateServiceSpec launch_example (specFromAuthority example_generated) = None"
    using authority_spec_valid[OF example_generated_valid] by (simp add: specFromAuthority_def serviceSpecFromAuthority_def)
  moreover have "validServiceName ''prod''" by (simp add: name_checks)
  moreover have "sp_Name (specFromAuthority example_generated) = ''api''" by (simp add: specFromAuthority_def example_generated_def example_service_def)
  ultimately show ?thesis
    by (simp add: generated_model_def ModelDigest_def validateModelStructure_def example_digest example_generated_model_def example_options_def)
qed

lemma example_generated_manifest:
  "ValidateAt launch_example (generated_manifest gl example_options (time_Unix 1000) example_generated_model [example_generated]) (time_Unix 1000) = None"
proof -
  let ?m = "generated_manifest gl example_options (time_Unix 1000) example_generated_model [example_generated]"
  have hex: "is_lower_hex (CHR ''a'')" "is_lower_hex (CHR ''b'')" "is_lower_hex (CHR ''d'')" by (simp_all add: is_lower_hex_def is_digit_def less_eq_char_def)
  have n: "validServiceName ''prod''" "validServiceName ''api''" "validNonce ''nonce-1234567890''" by (simp_all add: name_checks)
  have u: "Unix (time_Unix 1000) = 1000" "Unix (time_Unix 1000 + 600 * nanos) = 1600" by (simp_all add: Unix_def time_Unix_def nanos_def)
  have s: "check_services launch_example [] [example_generated]" using example_generated_valid by (simp add: example_generated_def example_service_def)
  have "Manifest_Validate launch_example ?m = None"
    using n s u digest_valid[OF hex(1)] digest_valid[OF hex(2)] digest_valid[OF hex(3)]
    by (simp add: Manifest_Validate_def generated_manifest_def example_options_def example_generated_model_def ManifestVersion_def MaxManifestTTL_def nanos_def)
  then show ?thesis using u by (simp add: ValidateAt_iff live_def generated_manifest_def example_options_def)
qed

lemma example_signing_keys:
  "loadKeys launch_example (example_gen token) [''key''] [] = Inr ([(''ed25519-dddddddd'', replicate 64 (CHR ''!''))], [(''ed25519-dddddddd'', base64_EncodeToString (replicate 32 (CHR ''!'')))])"
proof -
  have raw: "TrimSpace (replicate 64 (CHR ''!'')) = replicate 64 (CHR ''!'')" "hex_DecodeString (replicate 64 (CHR ''!'')) = None" "base64_DecodeString (replicate 64 (CHR ''!'')) = None" by code_simp+
  have "gl_file (example_gen token) ''key'' = Some (Some (replicate 64 (CHR ''!'')))" by (simp add: example_gen_def)
  then have p: "parsePrivateKey (example_gen token) ''key'' = Inr (replicate 64 (CHR ''!''))" by (simp only: parsePrivateKey_def option.case eithen_simps raw Let_def) simp
  have k: "key_source (example_gen token) ''key'' = (None, ''key'')" by (simp add: key_source_def Cut_def)
  have h: "hex_EncodeToString (take 4 (ll_sha launch_example public)) = ''dddddddd''" for public
  proof -
    have "hex_EncodeToString (take 4 (replicate 32 (CHR 0xDD))) = ''dddddddd''" by code_simp
    then show ?thesis by (simp add: launch_example_def)
  qed
  have pub: "ll_public launch_example (replicate 64 (CHR ''!'')) = replicate 32 (CHR ''!'')" by (simp add: launch_example_def example_lib_def)
  show ?thesis by (simp only: loadKeys_def fold_either.simps key_entry_def k p h pub Let_def prod.case sum.case option.case eithen_simps)
    (simp add: map_put_def map_entries_def sortedKeys_def get_def)
qed

lemma example_artifacts: "\<exists>outputs. artifacts launch_example (example_gen ''hunter2'') example_options (time_Unix 1000) = Inr outputs \<and> map fst outputs = [''manifest.json'', ''trust.json'', ''model.json'']"
proof -
  let ?m = "generated_manifest (example_gen ''hunter2'') example_options (time_Unix 1000) example_generated_model [example_generated]"
  have l: "loadCompose (example_gen ''hunter2'') (go_composePath example_options) = Inr [(''api'', example_compose_service ''hunter2'')]" by (simp add: loadCompose_def example_gen_def)
  have "Split (CHR '','') ''api'' = [''api'']" "TrimSpace ''api'' = ''api''" by code_simp+
  then have sel: "selectServices [(''api'', example_compose_service ''hunter2'')] (go_services example_options) = Inr [''api'']"
    by (simp add: selectServices_def example_options_def Let_def)
  have k: "loadKeys launch_example (example_gen ''hunter2'') (go_keys example_options) (go_pubkeys example_options)
      = Inr ([(''ed25519-dddddddd'', replicate 64 (CHR ''!''))], [(''ed25519-dddddddd'', base64_EncodeToString (replicate 32 (CHR ''!'')))])"
    using example_signing_keys by (simp add: example_options_def)
  have "wrapper_entry (digest_of (CHR ''c'')) ((\<lambda>_. no_overrides), []) = Inr ((\<lambda>_. no_overrides), digest_of (CHR ''c''))"
    by (simp add: wrapper_entry_def digest_of_def Cut_def HasPrefix_def)
  then have o: "parseServiceOverrides (example_gen ''hunter2'') example_options = Inr ((\<lambda>_. no_overrides), digest_of (CHR ''c''))"
    by (simp add: parseServiceOverrides_def example_options_def)
  have "length (ll_sign launch_example sk msg) = 64" if "length sk = 64" for sk msg using that by (simp add: launch_example_def example_lib_def example_sign_def)
  then obtain data where d: "SignManifest launch_example ?m ''ed25519-dddddddd'' (replicate 64 (CHR ''!'')) (time_Unix 1000) = Inr data"
    using example_generated_manifest[of "example_gen ''hunter2''"] by (auto simp: SignManifest_def)
  obtain trust where t: "buildTrust example_options [(''ed25519-dddddddd'', base64_EncodeToString (replicate 32 (CHR ''!'')))] [example_generated] = Inr trust"
    by (simp add: buildTrust_def example_options_def)
  have g: "go_signKeyID example_options = []" by (simp add: example_options_def)
  show ?thesis unfolding artifacts_def l sel k eithen_simps prod.case Let_def g
    by (simp add: o example_authority_built example_generated_model_built d t)
qed

theorem secret_values_stay_out_witness:
  "generate launch_example (example_gen ''hunter2''\<lparr>gl_compose := (\<lambda>_. Inr [(''api'', example_compose_service ''tr0ub4dor'')])\<rparr>) (\<lambda>_. None) example_options 0
     = generate launch_example (example_gen ''hunter2'') (\<lambda>_. None) example_options 0
   \<and> (\<exists>outputs. artifacts launch_example (example_gen ''hunter2'') example_options (time_Unix 1000) = Inr outputs \<and> map fst outputs = [''manifest.json'', ''trust.json'', ''model.json''])"
proof -
  have "gl_compose (example_gen ''hunter2'') (go_composePath example_options) = Inr [(''api'', example_compose_service ''hunter2'')]" by (simp add: example_gen_def)
  then show ?thesis using secret_values_stay_out[OF _ example_same_compose] example_artifacts by blast
qed

end
