(* ===== verification/Spec2Isabelle.thy ===== *)
theory Spec2Isabelle
  imports Sync_Journal_Theorems Dotenv_Codec Ref_Resolution Exec_Env Envelope_Replay
    Http_Retry Http_Targets State_Path Sync_Command_Theorems Local_Provider_Theorems File_Sync
    State_Migration_Guarantees Launch_Supervisor_Theorems Compose_Gen_Theorems
begin

text \<open>
  A verification development for skret, a command-line secret manager written in Go.

  \<^bold>\<open>The program.\<close> A \<^emph>\<open>provider\<close> keeps secrets (a local file, or a cloud service); commands read them,
  start processes with them, and copy them to \<^emph>\<open>sync targets\<close> (GitHub, GitLab, Cloudflare, or a dotenv,
  Terraform or Kubernetes file). What a sync has done is recorded in a \<^emph>\<open>journal\<close> per target, under a
  lock, so that a run that died between a request and its record is noticed by the next. A sync can be driven
  by a signed \<^emph>\<open>envelope\<close>, which is accepted once. A \<^emph>\<open>launch\<close> starts containers under a supervisor, which reads a signed manifest
  of what may run with which secrets, and sends them over an encrypted channel to a helper in each container, which starts the
  program with them.

  \<^bold>\<open>Where each part is modelled.\<close>
  \<^item> \<open>Go_Prelude\<close>, \<open>Go_Utf8\<close>, \<open>Go_Json\<close>, \<open>Go_Base64\<close>, \<open>Go_Path\<close>: what the code uses of Go's standard library:
    times, byte strings, error chains, UTF-8 decoding of \<open>range\<close>, JSON strings, base64, \<open>path/filepath\<close>.
    \<open>Go_Prelude\<close> also has the shared lemmas, the error combinators (\<open>and_then\<close>, \<open>loop_err\<close>, \<open>check_all\<close>) and the locale for
    invariants of step relations.
  \<^item> \<open>Provider_Types\<close>: the data of \<open>src/internal/provider/provider.go\<close>.
  \<^item> \<open>Keystore\<close>: \<open>src/internal/keystore\<close>, the two encrypted file formats and the search for key material.
    \<open>Audit_Log\<close> and \<open>Local_Provider\<close>: \<open>src/internal/provider/local\<close>, one definition per method of the provider, on a
    record with the fields of the Go struct. \<open>Local_Provider_Theorems\<close> shows that the provider implements a map, also
    across processes and failures, and never turns an encrypted file into a plaintext one.
  \<^item> \<open>Durable_File\<close>: \<open>atomicWrite\<close> and \<open>durableReplace\<close> (\<open>src/internal/syncer/atomic.go\<close>, \<open>durable_replace_unix.go\<close>) as
    traces of directories, so that a crash is a prefix.
  \<^item> \<open>Sync_Journal\<close>: the operation state machine of \<open>src/internal/syncer/state.go\<close>. \<open>Sync_Journal_Inv\<close> is the
    invariant the code validates before a save and that every operation keeps it; \<open>Sync_Journal_Fin\<close> and
    \<open>Sync_Journal_Steps\<close> are finalization and the step relation; \<open>Sync_Journal_Theorems\<close> the properties.
  \<^item> \<open>Sync_Targets\<close>: target configurations, identities, factories (\<open>registry.go\<close>) and the target selection of
    \<open>src/internal/cli/sync.go\<close>; \<open>Name_Collisions\<close>: the guards against two keys with one name, as a locale; \<open>State_Path\<close>: the
    place of a journal and its lock.
  \<^item> \<open>Http_Retry\<close>, \<open>Http_Targets\<close>: \<open>retry.go\<close>, \<open>github.go\<close>, \<open>gitlab.go\<close>, \<open>cloudflare.go\<close> against scripted answers of the
    services, with a locale for the contract of a target that takes one key per call.
  \<^item> \<open>Dotenv_Codec\<close>, \<open>File_Targets\<close>: the codec, the writers of the three file targets and the dotenv importer.
  \<^item> \<open>Sync_Command\<close>: the body of \<open>run\<close> in \<open>src/internal/cli/sync.go\<close> for one target, from the guards to the
    notification, on a world with the journal on disk and a trace of saves and requests. \<open>Sync_Command_Steps\<close> has a
    lemma per stage, \<open>Sync_Command_Theorems\<close> what a run guarantees; \<open>File_Sync\<close> composes it with a file target.
  \<^item> \<open>Ref_Resolution\<close> (\<open>src/internal/ref\<close>), \<open>Exec_Env\<close> (\<open>src/internal/exec\<close>): references between secrets, and the
    environment of a started process.
  \<^item> \<open>Signed_Envelope\<close>, \<open>Envelope_Replay\<close>: \<open>envelope_client.go\<close> and \<open>envelope_replay.go\<close>, with the replay store as a locale that
    the in-memory store is shown to satisfy.

  \<^item> \<open>State_Manifest\<close>: the signed inventory of a state directory, \<open>migration_manifest.go\<close>. \<open>State_Migration\<close>: the upgrade of a
    state file and its recovery, \<open>state_migration.go\<close>, in the monad of \<open>Migration_Fs\<close>, in which every system call
    may fail and every file system left behind is recorded; that theory also has the proof rules, for runs with any
    failures (\<open>triple\<close>), runs that only read (\<open>reads\<close>) and undisturbed runs (\<open>ok\<close>, \<open>ends\<close>). \<open>State_Migration_Theorems\<close>
    shows that each part keeps the invariant, \<open>State_Migration_Runs\<close> has attempts and recoveries in any order,
    \<open>State_Migration_Recovery\<close> the undisturbed runs, \<open>State_Migration_Guarantees\<close> the properties and an example.

  \<^item> \<open>src/internal/secretlaunch\<close>: \<open>Launch_Errors\<close> (\<open>errors.go\<close>); \<open>Json_Scanner\<close>, the scanner for repeated fields, and \<open>Launch_Manifest\<close>, the manifest, its
    validation, trust, signature and renewal (\<open>manifest.go\<close>, \<open>renew.go\<close>, with \<open>Go_Strconv\<close> for the numbers), whose properties are in \<open>Launch_Trust\<close>; \<open>Launch_Channel\<close>,
    the handshake and the sessions (\<open>crypto.go\<close>), with a locale for what a sealed frame guarantees; \<open>Launch_Delivery\<close>, fetching, sending and receiving the secrets, the
    watch over the child and its environment (\<open>provider.go\<close>, \<open>helper.go\<close>, \<open>process.go\<close>, \<open>SendEnvelope\<close> of \<open>supervisor.go\<close>), with \<open>Launch_Delivery_Theorems\<close>;
    \<open>Launch_Runtime\<close>, rendered models, labels and Docker commands (\<open>runtime.go\<close>, \<open>manifest_mount.go\<close>); \<open>Launch_Supervisor\<close>, the supervisor (\<open>supervisor.go\<close>) as
    functions on the world of any container runtime and a log of what was done; \<open>Launch_Order\<close> for the order of services and \<open>Launch_Supervisor_Theorems\<close>, in
    which a rule per operation (\<open>ok\<close>) shows what the log can be.

  \<^item> \<open>Compose_Gen\<close> and \<open>Compose_Gen_Theorems\<close>: the offline generator \<open>src/cmd/skret-compose-gen/main.go\<close>, which turns a compose file into the signed manifest, the trust document and
    the model of a launch.

  \<^bold>\<open>What the theorems say.\<close> For the sync command: at every request the journal on disk already lists the keys as pending,
  and a run that finds such a journal sends nothing; success means that exactly the selected secrets were requested
  and recorded; a refusal leaves an exact account; with working surroundings a run succeeds; a dry run has no effect.
  For the journal: every reachable state can be saved and loaded, success is recorded exactly when every key is
  acknowledged and verified, waiting operations can always be concluded. For the targets: what is written is
  what was selected, once, under names that do not collide, and listings end. For the local provider:
  refinement of a map, round trips of both encrypted formats, an audit trail that grows by exactly one
  entry. For the migration of a state file: attempts and recoveries interrupted anywhere never lose the old state,
  success means complete, and an undisturbed recovery always ends. For files and lines: a reader gets back what was written, and a crash shows the old or the new file.
  For a launch: a signed manifest verifies exactly while it is live and permitted, and one that verifies is authorised in every respect; a renewal changes its window only; secrets
  arrive as they were fetched and nothing else is accepted; a child whose supervisor falls silent is killed and has exactly the environment it should; the supervisor
  touches only containers of its launch, creates a service only after its dependencies are up and sends it only what the manifest grants; services are ordered exactly when they can be;
  and the generator's files do not depend on the values of secrets in the compose file.

  \<^bold>\<open>Parameters.\<close> Code outside the repository is an argument of the definitions: the keyed hash and the
  signature scheme, age, YAML, argon2id and the AEAD (record \<open>key_libs\<close>), Unicode normalization and case
  tables, \<open>net/url\<close>, time formatting, JSON decoding of an audit line, the services behind the HTTP targets, the outcome of every
  system call, the order in which Go visits a map, the results of \<open>sort.Slice\<close> (not stable) and of concurrent workers; for a launch the strict JSON decoder, SHA-256, Ed25519, GCM, HMAC, X25519,
  the bytes that arrive, the clock, the container runtime and the commands of Docker, YAML and durations. What
  is assumed of them is in the hypotheses of the theorems, and each witness gives an instance.

  \<^bold>\<open>Fuel.\<close> The pagination loops of GitHub and GitLab take a bound on the number of pages. The theorem on
  listings shows that one more than a hundredth of the number of names is enough against a service that serves its
  names in pages. The JSON scanner takes more than twice the length of its input, which is shown to be enough for every value that was written, and the visit of services has a depth of one
  more than their number, which \<open>services_ordered_iff\<close> shows to be enough; every other loop is structural or has a measure.

  \<^bold>\<open>Not modelled.\<close> The cloud providers, logins and importers of other services (their behaviour is the services'), flag
  parsing, messages and prompts, HTTP and JSON bodies, the advisory lock itself (an operating system call), the
  commands around a launch, process groups and core dumps, the overwriting of buffers, the command line of the migration, the configuration schema, the MCP server, the leak
  scanner and the diff. Floating-point entropy in \<open>keystore.StatusOf\<close> has no faithful executable counterpart here.
\<close>

end
